(* ===== verification/RLC_Prelude.thy ===== *)
theory RLC_Prelude
  imports Main "HOL-Library.Word" "HOL-Library.Multiset" "HOL-Library.While_Combinator"
begin

text \<open>
  Shared vocabulary of the development: machine integers and byte buffers, the result type that
  makes every abnormal end of the C code a value (\<open>exit(1)\<close>, a failed assertion, a NULL
  dereference, an access outside a buffer, a loop that never ends), the bounds-checked
  \<open>memcpy\<close>, big-endian bit strings, the sorted insertion that every list of the program
  uses, and the generic lemmas on them.

  Conventions for C values. Lengths, sequence numbers and sizes are \<open>int\<close> in the C code
  and \<open>int\<close> (or \<open>nat\<close> for positions inside a buffer) here; the invariants proved about
  the components bound them far below \<open>INT_MAX\<close>. Counters of type \<open>uint32_t\<close> and
  \<open>uint64_t\<close>, where wrap-around can happen, are words. The operator \<open>%\<close> of C is applied
  to non-negative operands only, where it is \<open>mod\<close>. Allocation is assumed to succeed.
\<close>

unbundle bit_operations_syntax

type_synonym byte = "8 word"
type_synonym u32 = "32 word"
type_synonym u64 = "64 word"
type_synonym buffer = "byte list"

named_theorems res_simps "laws of the result type"
named_theorems bits_simps "lengths and concatenations of bit strings"
named_theorems inv_intros "every operation keeps its component's invariant"

section \<open>Results\<close>

text \<open>
  How an operation can fail to return normally. \<open>Exit_Failure\<close> is \<open>exit(1)\<close>,
  \<open>Assert_Fatal\<close> is \<open>AssertFatal\<close>/\<open>DevAssert\<close>, \<open>Null_Deref\<close> and
  \<open>Out_Of_Bounds\<close> are the undefined behaviours the C code would run into, and
  \<open>Diverges\<close> is a loop that does not end.
\<close>

datatype c_error = Exit_Failure | Assert_Fatal | Null_Deref | Out_Of_Bounds | Diverges

type_synonym 'a res = "c_error + 'a"

definition bindE :: "'a res \<Rightarrow> ('a \<Rightarrow> 'b res) \<Rightarrow> 'b res" where
  "bindE m f = (case m of Inl e \<Rightarrow> Inl e | Inr x \<Rightarrow> f x)"

lemma bindE_Inr [simp, res_simps]: "bindE (Inr x) f = f x"
  by (simp add: bindE_def)

lemma bindE_Inl [simp, res_simps]: "bindE (Inl e) f = Inl e"
  by (simp add: bindE_def)

lemma bindE_eq_Inr [res_simps]:
  "bindE m f = Inr y \<longleftrightarrow> (\<exists>x. m = Inr x \<and> f x = Inr y)"
  by (cases m) auto

lemma bindE_assoc [res_simps]: "bindE (bindE m f) g = bindE m (\<lambda>x. bindE (f x) g)"
  by (cases m) auto

lemma bindE_cong [fundef_cong]:
  "m = m' \<Longrightarrow> (\<And>x. m' = Inr x \<Longrightarrow> f x = f' x) \<Longrightarrow> bindE m f = bindE m' f'"
  by (cases m') auto

text \<open>The operation ends with the error \<open>x\<close>.\<close>

definition fails_with :: "c_error \<Rightarrow> 'a res \<Rightarrow> bool" where
  "fails_with x r \<longleftrightarrow> (case r of Inl y \<Rightarrow> y = x | Inr _ \<Rightarrow> False)"

lemma fails_with_simps [simp]: "fails_with x (Inl y) \<longleftrightarrow> y = x" "\<not> fails_with x (Inr v)"
  by (simp_all add: fails_with_def)

section \<open>Buffers\<close>

text \<open>
  \<open>mem_read b off n\<close> is the source side of a \<open>memcpy\<close> of \<open>n\<close> bytes from \<open>b + off\<close>,
  \<open>mem_write b off s\<close> its destination side. An offset before the start of the buffer or a range
  past its end is an error, never a value.
\<close>

definition mem_read :: "buffer \<Rightarrow> int \<Rightarrow> int \<Rightarrow> buffer res" where
  "mem_read b off n =
     (if 0 \<le> off \<and> 0 \<le> n \<and> off + n \<le> int (length b)
      then Inr (take (nat n) (drop (nat off) b)) else Inl Out_Of_Bounds)"

definition mem_write :: "buffer \<Rightarrow> nat \<Rightarrow> buffer \<Rightarrow> buffer res" where
  "mem_write b off s =
     (if off + length s \<le> length b
      then Inr (take off b @ s @ drop (off + length s) b) else Inl Out_Of_Bounds)"

lemma mem_read_length: "mem_read b off n = Inr s \<Longrightarrow> int (length s) = n"
  by (auto simp: mem_read_def split: if_splits)

lemma mem_write_length: "mem_write b off s = Inr b' \<Longrightarrow> length b' = length b"
  by (auto simp: mem_write_def split: if_splits)

lemma mem_write_ok:
  "off + length s \<le> length b \<Longrightarrow>
   mem_write b off s = Inr (take off b @ s @ drop (off + length s) b)"
  by (simp add: mem_write_def)

lemma mem_read_ok:
  "0 \<le> off \<Longrightarrow> 0 \<le> n \<Longrightarrow> off + n \<le> int (length b) \<Longrightarrow>
   mem_read b off n = Inr (take (nat n) (drop (nat off) b))"
  by (simp add: mem_read_def)

section \<open>Bit strings, most significant bit first\<close>

primrec msb_bits :: "nat \<Rightarrow> 'a::semiring_bits \<Rightarrow> bool list" where
  "msb_bits 0 v = []"
| "msb_bits (Suc n) v = bit v n # msb_bits n v"

definition bytes_bits :: "buffer \<Rightarrow> bool list" where
  "bytes_bits bs = concat (map (msb_bits 8) bs)"

fun bits_val :: "int \<Rightarrow> bool list \<Rightarrow> int" where
  "bits_val acc [] = acc"
| "bits_val acc (b # bs) = bits_val (2 * acc + of_bool b) bs"

lemma length_msb_bits [simp, bits_simps]: "length (msb_bits n v) = n"
  by (induction n) auto

lemma msb_bits_nth: "i < n \<Longrightarrow> msb_bits n v ! i = bit v (n - Suc i)"
proof (induction n arbitrary: i)
  case (Suc n)
  then show ?case by (cases i) auto
qed simp

lemma bytes_bits_simps [simp, bits_simps]:
  "bytes_bits [] = []"
  "bytes_bits (b # bs) = msb_bits 8 b @ bytes_bits bs"
  "bytes_bits (xs @ ys) = bytes_bits xs @ bytes_bits ys"
  by (simp_all add: bytes_bits_def)

lemma length_bytes_bits [simp, bits_simps]: "length (bytes_bits bs) = 8 * length bs"
  by (induction bs) auto

lemma bytes_bits_nth:
  "i < length bs \<Longrightarrow> j < 8 \<Longrightarrow> bytes_bits bs ! (8 * i + j) = bit (bs ! i) (7 - j)"
proof (induction bs arbitrary: i)
  case (Cons b bs)
  show ?case
  proof (cases i)
    case 0
    with Cons.prems show ?thesis by (simp add: nth_append msb_bits_nth)
  next
    case (Suc k)
    with Cons.prems have "k < length bs" by simp
    with Suc Cons show ?thesis by (simp add: nth_append)
  qed
qed simp

lemma bits_val_append: "bits_val acc (xs @ ys) = bits_val (bits_val acc xs) ys"
  by (induction xs arbitrary: acc) auto

lemma bits_val_acc: "bits_val acc bs = acc * 2 ^ length bs + bits_val 0 bs"
proof (induction bs arbitrary: acc)
  case (Cons b bs)
  have "bits_val acc (b # bs) = (2 * acc + of_bool b) * 2 ^ length bs + bits_val 0 bs"
    using Cons[of "2 * acc + of_bool b"] by simp
  moreover have "bits_val 0 (b # bs) = of_bool b * 2 ^ length bs + bits_val 0 bs"
    using Cons[of "of_bool b"] by simp
  ultimately show ?case by (simp add: algebra_simps)
qed simp

lemma bits_val_msb_bits: "bits_val 0 (msb_bits n v) = take_bit n v"
proof (induction n)
  case (Suc n)
  have "bits_val 0 (msb_bits (Suc n) v) = of_bool (bit v n) * 2 ^ n + take_bit n v"
    using bits_val_acc[of "of_bool (bit v n)" "msb_bits n v"] Suc by simp
  then show ?case by (simp add: take_bit_Suc_from_most)
qed simp

lemma bits_val_roundtrip [bits_simps]:
  "0 \<le> v \<Longrightarrow> v < 2 ^ n \<Longrightarrow> bits_val 0 (msb_bits n v) = v"
  by (simp add: bits_val_msb_bits take_bit_int_eq_self)

lemma bits_val_nonneg: "0 \<le> bits_val 0 bs"
proof (induction bs)
  case (Cons b bs)
  then show ?case using bits_val_acc[of "of_bool b" bs] by simp
qed simp

lemma bits_val_less: "bits_val 0 bs < 2 ^ length bs"
proof (induction bs)
  case (Cons b bs)
  have "(0::int) < 2 ^ length bs" by simp
  moreover have "bits_val 0 (b # bs) = of_bool b * 2 ^ length bs + bits_val 0 bs"
    using bits_val_acc[of "of_bool b" bs] by simp
  moreover have "of_bool b * 2 ^ length bs \<le> (2::int) ^ length bs" by simp
  ultimately have "bits_val 0 (b # bs) < 2 * 2 ^ length bs" using Cons by linarith
  then show ?case by simp
qed simp

section \<open>Sorted insertion\<close>

text \<open>
  The loop every list of the program is filled with: walk to the first element that the
  condition \<open>p\<close> recognises as coming after the new one, and link the new one before it.
\<close>

primrec insert_before :: "('a \<Rightarrow> bool) \<Rightarrow> 'a \<Rightarrow> 'a list \<Rightarrow> 'a list" where
  "insert_before p x [] = [x]"
| "insert_before p x (y # ys) = (if p y then x # y # ys else y # insert_before p x ys)"

lemma mset_insert_before [simp]: "mset (insert_before p x xs) = add_mset x (mset xs)"
  by (induction xs) auto

lemma set_insert_before [simp]: "set (insert_before p x xs) = insert x (set xs)"
  by (induction xs) auto

lemma length_insert_before [simp]: "length (insert_before p x xs) = Suc (length xs)"
  by (induction xs) auto

lemma insert_before_not_Nil [simp]: "insert_before p x xs \<noteq> []"
  by (cases xs) auto

lemma insert_before_append_all:
  "\<forall>y \<in> set xs. \<not> p y \<Longrightarrow> insert_before p x xs = xs @ [x]"
  by (induction xs) auto

text \<open>
  If the condition is \<open>f y > f x\<close> for a key \<open>f\<close> into a linear order, insertion keeps the list
  sorted by that key, and puts a new element after the old ones with an equal key.
\<close>

lemma insert_before_sorted:
  fixes f :: "'a \<Rightarrow> 'b::linorder"
  assumes "sorted (map f xs)" and "\<And>y. y \<in> set xs \<Longrightarrow> p y \<longleftrightarrow> f x < f y"
  shows "sorted (map f (insert_before p x xs))"
  using assms by (induction xs) (auto simp: less_imp_le not_less)

lemma insert_before_sorted_strict:
  fixes f :: "'a \<Rightarrow> 'b::linorder"
  assumes "sorted_wrt (<) (map f xs)" and "\<And>y. y \<in> set xs \<Longrightarrow> p y \<longleftrightarrow> f x < f y"
    and "f x \<notin> f ` set xs"
  shows "sorted_wrt (<) (map f (insert_before p x xs))"
  using assms by (induction xs) auto

lemma sum_list_insert_before:
  fixes f :: "'a \<Rightarrow> int"
  shows "sum_list (map f (insert_before p x xs)) = f x + sum_list (map f xs)"
  by (induction xs) auto

section \<open>Loops over sequence numbers\<close>

text \<open>
  \<open>while (b(sn)) sn = (sn + 1) % m;\<close>, the loop with which the entities look for the next sequence
  number of some kind. It ends exactly when some sequence number after the start does not satisfy
  \<open>b\<close>, and then at the first one.
\<close>

definition skip_while :: "(int \<Rightarrow> bool) \<Rightarrow> int \<Rightarrow> int \<Rightarrow> int option" where
  "skip_while b m = while_option b (\<lambda>sn. (sn + 1) mod m)"

lemma sn_funpow:
  fixes m :: int
  assumes "0 \<le> sn" and "sn < m"
  shows "((\<lambda>s. (s + 1) mod m) ^^ k) sn = (sn + int k) mod m"
proof (induction k)
  case 0
  then show ?case using assms by simp
next
  case (Suc k)
  have "((sn + int k) mod m + 1) mod m = (sn + int k + 1) mod m" by (simp add: mod_add_left_eq)
  then show ?case using Suc by (simp add: add.commute add.left_commute)
qed

lemma skip_while_Some:
  assumes "0 \<le> sn" and "sn < m" and "\<not> b ((sn + int k) mod m)"
  shows "\<exists>j \<le> k. skip_while b m sn = Some ((sn + int j) mod m) \<and> \<not> b ((sn + int j) mod m)
    \<and> (\<forall>i < j. b ((sn + int i) mod m))"
proof -
  let ?P = "\<lambda>k. \<not> b ((sn + int k) mod m)" and ?j = "LEAST k. \<not> b ((sn + int k) mod m)"
  have "skip_while b m sn = Some ((sn + int ?j) mod m)"
    using assms(3) by (auto simp: skip_while_def while_option_def sn_funpow[OF assms(1,2)])
  moreover have "?P ?j" "?j \<le> k" using assms(3) by (rule LeastI, rule Least_le)
  moreover have "\<forall>i < ?j. b ((sn + int i) mod m)" using not_less_Least by blast
  ultimately show ?thesis by blast
qed

lemma skip_while_None:
  assumes "0 \<le> sn" and "sn < m" and "\<And>k. b ((sn + int k) mod m)"
  shows "skip_while b m sn = None"
  using assms(3) by (simp add: skip_while_def while_option_def sn_funpow[OF assms(1,2)])

text \<open>Sums over a list of which one element is replaced.\<close>

lemma sum_list_update_int:
  fixes f :: "'a \<Rightarrow> int"
  assumes "i < length xs"
  shows "sum_list (map f (xs[i := y])) = sum_list (map f xs) - f (xs ! i) + f y"
  using assms
proof (induction xs arbitrary: i)
  case (Cons x xs)
  then show ?case by (cases i) auto
qed simp

end
