(* ===== verification/RLC_Sdu.thy ===== *)
theory RLC_Sdu
  imports RLC_Prelude
begin

text \<open>
  Model of \<open>openair2/LAYER2/nr_rlc/nr_rlc_sdu.c\<close>. Several segments share one SDU header: its SN,
  its retransmission count and its two reference counters are read and written through every
  segment. The headers therefore live in an explicit store, a map from addresses, and a segment
  holds the address. Freeing is removing an address from the map. The tail pointer that the code
  keeps beside each list is always the last element of that list, so a list and its tail are one
  HOL list here.

  The invariant \<open>store_inv\<close> says that the live SDUs are exactly those some segment still points
  to, each with \<open>ref_count - free_count\<close> segments left, and that every segment is a range inside
  its SDU. It excludes dangling pointers, double frees and leaks.
\<close>

section \<open>SDUs, segments and the store\<close>

record nr_rlc_sdu_t =
  sdu_sn :: int
  sdu_upper_layer_id :: int
  sdu_data :: buffer
  sdu_size :: int
  sdu_retx_count :: int
  sdu_ref_count :: int
  sdu_free_count :: int
  sdu_time_of_arrival :: u64

record nr_rlc_sdu_segment_t =
  seg_sdu :: nat
  seg_size :: int
  seg_so :: int
  seg_is_first :: bool
  seg_is_last :: bool

text \<open>The store and its allocation counter. Addresses are never reused.\<close>

record sdu_store =
  sdus :: "nat \<Rightarrow> nr_rlc_sdu_t option"
  next_addr :: nat

definition empty_store :: sdu_store where
  "empty_store = \<lparr>sdus = (\<lambda>_. None), next_addr = 0\<rparr>"

text \<open>
  A read through a segment. Reading a freed SDU gives the value \<open>null_sdu\<close>; the invariant shows
  that no such read happens.
\<close>

definition null_sdu :: nr_rlc_sdu_t where
  "null_sdu = \<lparr>sdu_sn = -1, sdu_upper_layer_id = 0, sdu_data = [], sdu_size = 0,
     sdu_retx_count = 0, sdu_ref_count = 0, sdu_free_count = 0, sdu_time_of_arrival = 0\<rparr>"

definition sdu_at :: "sdu_store \<Rightarrow> nr_rlc_sdu_segment_t \<Rightarrow> nr_rlc_sdu_t" where
  "sdu_at st g = (case sdus st (seg_sdu g) of Some s \<Rightarrow> s | None \<Rightarrow> null_sdu)"

definition sdu_upd ::
    "sdu_store \<Rightarrow> nr_rlc_sdu_segment_t \<Rightarrow> (nr_rlc_sdu_t \<Rightarrow> nr_rlc_sdu_t) \<Rightarrow> sdu_store" where
  "sdu_upd st g f = st\<lparr>sdus := (sdus st)(seg_sdu g := map_option f (sdus st (seg_sdu g)))\<rparr>"

section \<open>Operations\<close>

definition nr_rlc_new_sdu ::
    "sdu_store \<Rightarrow> buffer \<Rightarrow> int \<Rightarrow> sdu_store \<times> nr_rlc_sdu_segment_t" where
  "nr_rlc_new_sdu st buf upper_layer_id =
     (let a = next_addr st;
          sdu = \<lparr>sdu_sn = -1, sdu_upper_layer_id = upper_layer_id, sdu_data = buf,
                 sdu_size = int (length buf), sdu_retx_count = -1, sdu_ref_count = 1,
                 sdu_free_count = 0, sdu_time_of_arrival = 0\<rparr>;
          ret = \<lparr>seg_sdu = a, seg_size = int (length buf), seg_so = 0,
                 seg_is_first = True, seg_is_last = True\<rparr>
      in (\<lparr>sdus = (sdus st)(a := Some sdu), next_addr = Suc a\<rparr>, ret))"

text \<open>The result says whether the SDU has been freed too.\<close>

definition nr_rlc_free_sdu_segment ::
    "sdu_store \<Rightarrow> nr_rlc_sdu_segment_t \<Rightarrow> sdu_store \<times> bool" where
  "nr_rlc_free_sdu_segment st g =
     (let st = sdu_upd st g (\<lambda>s. s\<lparr>sdu_free_count := sdu_free_count s + 1\<rparr>)
      in if sdu_free_count (sdu_at st g) = sdu_ref_count (sdu_at st g)
         then (st\<lparr>sdus := (sdus st)(seg_sdu g := None)\<rparr>, True)
         else (st, False))"

definition nr_rlc_sdu_segment_list_append ::
    "nr_rlc_sdu_segment_t list \<Rightarrow> nr_rlc_sdu_segment_t \<Rightarrow> nr_rlc_sdu_segment_t list" where
  "nr_rlc_sdu_segment_list_append list g = list @ [g]"

fun nr_rlc_free_sdu_segment_list ::
    "sdu_store \<Rightarrow> nr_rlc_sdu_segment_t list \<Rightarrow> sdu_store" where
  "nr_rlc_free_sdu_segment_list st [] = st"
| "nr_rlc_free_sdu_segment_list st (g # l) =
     nr_rlc_free_sdu_segment_list (fst (nr_rlc_free_sdu_segment st g)) l"

section \<open>The invariant of the store\<close>

definition refs :: "nat \<Rightarrow> nr_rlc_sdu_segment_t multiset \<Rightarrow> nat" where
  "refs a M = size (filter_mset (\<lambda>g. seg_sdu g = a) M)"

definition seg_in_sdu :: "nr_rlc_sdu_t \<Rightarrow> nr_rlc_sdu_segment_t \<Rightarrow> bool" where
  "seg_in_sdu s g \<longleftrightarrow> 0 \<le> seg_so g \<and> 0 \<le> seg_size g \<and> seg_so g + seg_size g \<le> sdu_size s
     \<and> (seg_is_first g \<longleftrightarrow> seg_so g = 0)
     \<and> (seg_is_last g \<longleftrightarrow> seg_so g + seg_size g = sdu_size s)"

text \<open>A segment that is its whole SDU; it is then the only one of the SDU.\<close>

definition seg_whole :: "nr_rlc_sdu_segment_t \<Rightarrow> bool" where
  "seg_whole g \<longleftrightarrow> seg_is_first g \<and> seg_is_last g"

definition store_inv :: "sdu_store \<Rightarrow> nr_rlc_sdu_segment_t multiset \<Rightarrow> bool" where
  "store_inv st M \<longleftrightarrow>
     (\<forall>a \<ge> next_addr st. sdus st a = None)
     \<and> (\<forall>a s. sdus st a = Some s \<longrightarrow>
          sdu_size s = int (length (sdu_data s)) \<and> 0 < refs a M
          \<and> int (refs a M) = sdu_ref_count s - sdu_free_count s)
     \<and> (\<forall>g \<in># M. (\<exists>s. sdus st (seg_sdu g) = Some s \<and> seg_in_sdu s g)
          \<and> (seg_whole g \<longrightarrow> refs (seg_sdu g) M = 1))"

definition live_bytes :: "sdu_store \<Rightarrow> int" where
  "live_bytes st = (\<Sum>a \<in> dom (sdus st). sdu_size (the (sdus st a)))"

lemma refs_simps [simp]:
  "refs a {#} = 0"
  "refs a (add_mset g M) = (if seg_sdu g = a then Suc (refs a M) else refs a M)"
  "refs a (M + N) = refs a M + refs a N"
  by (simp_all add: refs_def)

lemma refs_pos: "g \<in># M \<Longrightarrow> 0 < refs (seg_sdu g) M"
  unfolding refs_def nonempty_has_size[symmetric] by auto

lemma refs_zero: "refs a M = 0 \<Longrightarrow> g \<in># M \<Longrightarrow> seg_sdu g \<noteq> a"
  using refs_pos by force

lemma refs_posD: "0 < refs a M \<Longrightarrow> \<exists>g \<in># M. seg_sdu g = a"
  unfolding refs_def nonempty_has_size[symmetric] by auto

lemma store_inv_empty: "store_inv empty_store {#}"
  by (simp add: store_inv_def empty_store_def)

lemma store_invD_seg:
  "store_inv st M \<Longrightarrow> g \<in># M \<Longrightarrow>
     sdus st (seg_sdu g) = Some (sdu_at st g) \<and> seg_in_sdu (sdu_at st g) g"
  by (fastforce simp: store_inv_def sdu_at_def)

lemma store_invD_sdu:
  "store_inv st M \<Longrightarrow> sdus st a = Some s \<Longrightarrow>
     sdu_size s = int (length (sdu_data s)) \<and> 0 < refs a M
     \<and> int (refs a M) = sdu_ref_count s - sdu_free_count s"
  by (simp add: store_inv_def)

lemma store_invD_whole: "store_inv st M \<Longrightarrow> g \<in># M \<Longrightarrow> seg_whole g \<Longrightarrow> refs (seg_sdu g) M = 1"
  by (auto simp: store_inv_def)

lemma store_inv_finite:
  assumes "store_inv st M"
  shows "finite (dom (sdus st))"
proof (rule finite_subset)
  show "dom (sdus st) \<subseteq> {..<next_addr st}"
  proof
    fix a assume "a \<in> dom (sdus st)"
    moreover have "\<forall>a \<ge> next_addr st. sdus st a = None" using assms by (simp add: store_inv_def)
    ultimately show "a \<in> {..<next_addr st}" by (cases "next_addr st \<le> a") auto
  qed
qed simp

lemma store_inv_dom:
  assumes inv: "store_inv st M"
  shows "dom (sdus st) = seg_sdu ` set_mset M"
proof
  show "dom (sdus st) \<subseteq> seg_sdu ` set_mset M"
  proof
    fix a assume "a \<in> dom (sdus st)"
    then obtain s where "sdus st a = Some s" by auto
    then have "0 < refs a M" using store_invD_sdu[OF inv] by blast
    then obtain g where "g \<in># M" "seg_sdu g = a" using refs_posD by blast
    then show "a \<in> seg_sdu ` set_mset M" by (intro image_eqI[of a seg_sdu g]) auto
  qed
  show "seg_sdu ` set_mset M \<subseteq> dom (sdus st)"
    using store_invD_seg[OF inv] by auto
qed

lemma live_bytes_nonneg: "store_inv st M \<Longrightarrow> 0 \<le> live_bytes st"
  unfolding live_bytes_def
  by (rule sum_nonneg) (auto dest: store_invD_sdu)

lemma live_bytes_empty [simp]: "live_bytes empty_store = 0"
  by (simp add: live_bytes_def empty_store_def)

lemma live_bytes_cong:
  "dom (sdus st') = dom (sdus st) \<Longrightarrow>
   (\<And>a. sdus st a \<noteq> None \<Longrightarrow> sdu_size (the (sdus st' a)) = sdu_size (the (sdus st a))) \<Longrightarrow>
   live_bytes st' = live_bytes st"
  unfolding live_bytes_def by (rule sum.cong) auto

text \<open>A field update that keeps data, size and the reference difference keeps the invariant.\<close>

lemma store_inv_upd:
  assumes inv: "store_inv st M"
    and f: "\<And>s. sdu_size (f s) = sdu_size s" "\<And>s. sdu_data (f s) = sdu_data s"
      "\<And>s. sdu_ref_count (f s) - sdu_free_count (f s) = sdu_ref_count s - sdu_free_count s"
  shows "store_inv (sdu_upd st g f) M" and "live_bytes (sdu_upd st g f) = live_bytes st"
proof -
  show "store_inv (sdu_upd st g f) M"
    using inv unfolding store_inv_def sdu_upd_def
    by (auto simp: f seg_in_sdu_def)
  show "live_bytes (sdu_upd st g f) = live_bytes st"
    by (rule live_bytes_cong) (auto simp: sdu_upd_def f dom_def split: if_splits)
qed

lemma new_sdu_inv [inv_intros]:
  assumes inv: "store_inv st M" and new: "nr_rlc_new_sdu st buf i = (st', g)"
  shows "store_inv st' (add_mset g M)" and "live_bytes st' = live_bytes st + int (length buf)"
proof -
  let ?a = "next_addr st"
  have free: "sdus st ?a = None" using inv by (simp add: store_inv_def)
  have no: "g' \<in># M \<Longrightarrow> seg_sdu g' \<noteq> ?a" for g'
    using free store_invD_seg[OF inv] by fastforce
  then have r0: "refs ?a M = 0"
    using refs_posD[of ?a M] by auto
  show "store_inv st' (add_mset g M)"
    using new inv r0 no
    by (fastforce simp: nr_rlc_new_sdu_def Let_def store_inv_def seg_in_sdu_def)
  have "finite (dom (sdus st))" using inv by (rule store_inv_finite)
  moreover have "?a \<notin> dom (sdus st)" using free by auto
  moreover have "dom (sdus st') = insert ?a (dom (sdus st))"
    using new by (auto simp: nr_rlc_new_sdu_def Let_def dom_def)
  moreover have "(\<Sum>a \<in> dom (sdus st). sdu_size (the (sdus st' a)))
      = (\<Sum>a \<in> dom (sdus st). sdu_size (the (sdus st a)))"
    using new free by (intro sum.cong) (auto simp: nr_rlc_new_sdu_def Let_def)
  moreover have "sdu_size (the (sdus st' ?a)) = int (length buf)"
    using new by (auto simp: nr_rlc_new_sdu_def Let_def)
  ultimately show "live_bytes st' = live_bytes st + int (length buf)"
    by (simp add: live_bytes_def)
qed

lemma free_sdu_segment_result:
  assumes inv: "store_inv st (add_mset g M)"
  shows "snd (nr_rlc_free_sdu_segment st g) \<longleftrightarrow> refs (seg_sdu g) M = 0"
proof -
  obtain s where s: "sdus st (seg_sdu g) = Some s"
    using store_invD_seg[OF inv, of g] by auto
  then have "int (refs (seg_sdu g) (add_mset g M)) = sdu_ref_count s - sdu_free_count s"
    using store_invD_sdu[OF inv] by blast
  then show ?thesis
    using s by (auto simp: nr_rlc_free_sdu_segment_def Let_def sdu_upd_def sdu_at_def)
qed

lemma free_sdu_segment_inv [inv_intros]:
  assumes inv: "store_inv st (add_mset g M)"
  shows "store_inv (fst (nr_rlc_free_sdu_segment st g)) M"
proof -
  let ?a = "seg_sdu g"
  obtain s where s: "sdus st ?a = Some s" using store_invD_seg[OF inv, of g] by auto
  have rc: "int (refs ?a M) = sdu_ref_count s - sdu_free_count s - 1"
    using store_invD_sdu[OF inv s] by simp
  let ?s = "s\<lparr>sdu_free_count := sdu_free_count s + 1\<rparr>"
  let ?v = "if refs ?a M = 0 then None else Some ?s"
  have st': "fst (nr_rlc_free_sdu_segment st g) = st\<lparr>sdus := (sdus st)(?a := ?v)\<rparr>"
    using s rc by (simp add: nr_rlc_free_sdu_segment_def Let_def sdu_upd_def sdu_at_def)
  have other: "refs a (add_mset g M) = refs a M" if "a \<noteq> ?a" for a using that by simp
  show ?thesis
    unfolding st' store_inv_def
  proof (intro conjI allI impI ballI)
    fix a assume "next_addr (st\<lparr>sdus := (sdus st)(?a := ?v)\<rparr>) \<le> a"
    then show "sdus (st\<lparr>sdus := (sdus st)(?a := ?v)\<rparr>) a = None"
      using inv s by (auto simp: store_inv_def)
  next
    fix a s' assume a: "sdus (st\<lparr>sdus := (sdus st)(?a := ?v)\<rparr>) a = Some s'"
    show "sdu_size s' = int (length (sdu_data s'))" "0 < refs a M"
      "int (refs a M) = sdu_ref_count s' - sdu_free_count s'"
      using a rc store_invD_sdu[OF inv s] store_invD_sdu[OF inv, of a s'] other[of a]
      by (auto split: if_splits)
  next
    fix g' assume g': "g' \<in># M"
    obtain s' where "sdus st (seg_sdu g') = Some s'" "seg_in_sdu s' g'"
      using inv g' by (fastforce simp: store_inv_def)
    moreover have "seg_sdu g' = ?a \<Longrightarrow> refs ?a M \<noteq> 0" using g' refs_zero by auto
    ultimately show "\<exists>s'. sdus (st\<lparr>sdus := (sdus st)(?a := ?v)\<rparr>) (seg_sdu g') = Some s' \<and> seg_in_sdu s' g'"
      using s by (auto simp: seg_in_sdu_def)
    show "refs (seg_sdu g') M = 1" if "seg_whole g'"
      using store_invD_whole[OF inv, of g'] that g' refs_pos[OF g'] by (auto split: if_splits)
  qed
qed

lemma free_sdu_segment_bytes:
  assumes inv: "store_inv st (add_mset g M)"
  shows "live_bytes (fst (nr_rlc_free_sdu_segment st g)) =
    live_bytes st - (if snd (nr_rlc_free_sdu_segment st g) then sdu_size (sdu_at st g) else 0)"
proof -
  let ?a = "seg_sdu g"
  obtain s where s: "sdus st ?a = Some s" using store_invD_seg[OF inv, of g] by auto
  have fin: "finite (dom (sdus st))" using inv by (rule store_inv_finite)
  have upd: "live_bytes (sdu_upd st g (\<lambda>s. s\<lparr>sdu_free_count := sdu_free_count s + 1\<rparr>)) = live_bytes st"
    by (rule live_bytes_cong) (auto simp: sdu_upd_def dom_def split: if_splits)
  have del: "live_bytes (st\<lparr>sdus := (sdus st)(?a := None)\<rparr>) = live_bytes st - sdu_size s"
  proof -
    have "live_bytes st = sdu_size s + (\<Sum>a \<in> dom (sdus st) - {?a}. sdu_size (the (sdus st a)))"
      unfolding live_bytes_def using fin s by (subst sum.remove[of _ ?a]) auto
    moreover have "dom ((sdus st)(?a := None)) = dom (sdus st) - {?a}" by auto
    moreover have "(\<Sum>a \<in> dom (sdus st) - {?a}. sdu_size (the (((sdus st)(?a := None)) a)))
        = (\<Sum>a \<in> dom (sdus st) - {?a}. sdu_size (the (sdus st a)))"
      by (rule sum.cong) auto
    ultimately show ?thesis by (simp add: live_bytes_def)
  qed
  show ?thesis
    using s upd del
    by (auto simp: nr_rlc_free_sdu_segment_def Let_def sdu_upd_def sdu_at_def)
qed

lemma free_sdu_segment_list_inv [inv_intros]:
  "store_inv st (mset l + M) \<Longrightarrow> store_inv (nr_rlc_free_sdu_segment_list st l) M"
  by (induction l arbitrary: st) (auto intro: free_sdu_segment_inv)

text \<open>Freeing every segment an entity holds frees every SDU: nothing is leaked.\<close>

lemma free_all_empty:
  assumes "store_inv st (mset l)"
  shows "sdus (nr_rlc_free_sdu_segment_list st l) = (\<lambda>_. None)"
    and "live_bytes (nr_rlc_free_sdu_segment_list st l) = 0"
proof -
  have inv: "store_inv (nr_rlc_free_sdu_segment_list st l) {#}"
    using assms free_sdu_segment_list_inv[of st l "{#}"] by simp
  have "dom (sdus (nr_rlc_free_sdu_segment_list st l)) = {}"
    using store_inv_dom[OF inv] by simp
  then show "sdus (nr_rlc_free_sdu_segment_list st l) = (\<lambda>_. None)"
    and "live_bytes (nr_rlc_free_sdu_segment_list st l) = 0"
    by (auto simp: live_bytes_def)
qed

lemma refs_distinct: "distinct (map seg_sdu l) \<Longrightarrow> a \<notin> seg_sdu ` set l \<Longrightarrow> refs a (mset l) = 0"
  by (induction l) auto

lemma sdu_at_new:
  assumes "store_inv st M" and "nr_rlc_new_sdu st buf i = (st', g)" and "g' \<in># M"
  shows "sdu_at st' g' = sdu_at st g'" and "seg_sdu g' \<noteq> seg_sdu g"
proof -
  have "sdus st (next_addr st) = None" using assms(1) by (simp add: store_inv_def)
  then have "seg_sdu g' \<noteq> next_addr st"
    using store_invD_seg[OF assms(1,3)] by auto
  then show "sdu_at st' g' = sdu_at st g'" "seg_sdu g' \<noteq> seg_sdu g"
    using assms(2) by (auto simp: nr_rlc_new_sdu_def Let_def sdu_at_def)
qed

lemma sdu_at_free_other:
  "seg_sdu g' \<noteq> seg_sdu g \<Longrightarrow> sdu_at (fst (nr_rlc_free_sdu_segment st g)) g' = sdu_at st g'"
  by (simp add: nr_rlc_free_sdu_segment_def Let_def sdu_upd_def sdu_at_def)

lemma sdu_at_same: "seg_sdu g = seg_sdu g' \<Longrightarrow> sdu_at st g = sdu_at st g'"
  by (simp add: sdu_at_def)

text \<open>
  Segmentation: one segment is replaced by two inside the same SDU, and the reference counter is
  incremented.
\<close>

lemma store_inv_split:
  assumes inv: "store_inv st (add_mset g M)" and eq: "seg_sdu g1 = seg_sdu g" "seg_sdu g2 = seg_sdu g"
    and seg: "seg_in_sdu (sdu_at st g) g1" "seg_in_sdu (sdu_at st g) g2" "\<not> seg_whole g1" "\<not> seg_whole g2"
  shows "store_inv (sdu_upd st g (\<lambda>s. s\<lparr>sdu_ref_count := sdu_ref_count s + 1\<rparr>)) (add_mset g1 (add_mset g2 M))"
    and "live_bytes (sdu_upd st g (\<lambda>s. s\<lparr>sdu_ref_count := sdu_ref_count s + 1\<rparr>)) = live_bytes st"
proof -
  have g: "sdus st (seg_sdu g) = Some (sdu_at st g)" using store_invD_seg[OF inv, of g] by simp
  show "store_inv (sdu_upd st g (\<lambda>s. s\<lparr>sdu_ref_count := sdu_ref_count s + 1\<rparr>)) (add_mset g1 (add_mset g2 M))"
    (is "store_inv ?st ?M")
    unfolding store_inv_def
  proof (intro conjI allI impI ballI)
    have up: "sdus ?st a = (if a = seg_sdu g
        then Some ((sdu_at st g)\<lparr>sdu_ref_count := sdu_ref_count (sdu_at st g) + 1\<rparr>) else sdus st a)" for a
      using g by (simp add: sdu_upd_def)
    show "sdus ?st a = None" if "next_addr ?st \<le> a" for a
    proof -
      have "sdus st a = None" using inv that by (simp add: store_inv_def sdu_upd_def)
      then show ?thesis using g by (auto simp: sdu_upd_def)
    qed
    fix a s assume a: "sdus ?st a = Some s"
    have "a = seg_sdu g \<or> sdus st a = Some s" using a up by (auto split: if_splits)
    then show "sdu_size s = int (length (sdu_data s))" "0 < refs a ?M"
      "int (refs a ?M) = sdu_ref_count s - sdu_free_count s"
      using a up[of a] eq store_invD_sdu[OF inv g] store_invD_sdu[OF inv, of a s]
      by (auto split: if_splits)
  next
    fix x assume x: "x \<in># ?M"
    show "\<exists>s. sdus ?st (seg_sdu x) = Some s \<and> seg_in_sdu s x"
    proof (cases "x \<in># M")
      case True
      then show ?thesis using store_invD_seg[OF inv, of x] g sdu_at_same[of x g st]
        by (auto simp: sdu_upd_def seg_in_sdu_def)
    next
      case False
      then show ?thesis using x eq seg g by (auto simp: sdu_upd_def seg_in_sdu_def)
    qed
    show "refs (seg_sdu x) ?M = 1" if "seg_whole x"
      using store_invD_whole[OF inv, of x] refs_pos[of x M] that x seg eq by (auto split: if_splits)
  qed
  show "live_bytes (sdu_upd st g (\<lambda>s. s\<lparr>sdu_ref_count := sdu_ref_count s + 1\<rparr>)) = live_bytes st"
    by (rule live_bytes_cong) (auto simp: sdu_upd_def dom_def split: if_splits)
qed

text \<open>An update that keeps what a segment is read for.\<close>

lemma sdu_at_upd:
  "sdus st (seg_sdu g) \<noteq> None \<Longrightarrow>
   sdu_at (sdu_upd st g f) g' = (if seg_sdu g' = seg_sdu g then f (sdu_at st g) else sdu_at st g')"
  by (auto simp: sdu_at_def sdu_upd_def)

lemma sdu_at_data_length:
  "store_inv st M \<Longrightarrow> g \<in># M \<Longrightarrow> int (length (sdu_data (sdu_at st g))) = sdu_size (sdu_at st g)"
  using store_invD_seg[of st M g] store_invD_sdu[of st M "seg_sdu g" "sdu_at st g"] by simp

end
