(* ===== verification/RLC_Entity_Common.thy ===== *)
theory RLC_Entity_Common
  imports RLC_Sdu
begin

text \<open>
  The part every RLC entity has (\<open>nr_rlc_entity_t\<close> of \<open>nr_rlc_entity.h\<close>): statistics, buffer
  status, and the callbacks. The AM, UM and TM entities extend this record as the C structs embed
  it as their first member. A callback invocation is an event appended to \<open>events\<close>, in call
  order; the averaging of waiting times (\<open>time_average_add\<close>) is such an event too, and
  \<open>time_average_now()\<close> is an argument of the operations that read the clock.

  The SDU store belongs to the entity: SDUs are never shared between entities.
\<close>

definition NR_SDU_MAX :: int where
  "NR_SDU_MAX = 16000"

datatype nr_rlc_mode_t = NR_RLC_AM | NR_RLC_UM | NR_RLC_TM

record nr_rlc_statistics_t =
  st_mode :: nr_rlc_mode_t
  txpdu_pkts :: u32
  txpdu_bytes :: u32
  txpdu_wt_ms :: u32
  txpdu_dd_pkts :: u32
  txpdu_dd_bytes :: u32
  txpdu_retx_pkts :: u32
  txpdu_retx_bytes :: u32
  txpdu_segmented :: u32
  txpdu_status_pkts :: u32
  txpdu_status_bytes :: u32
  txbuf_occ_bytes :: u32
  txbuf_occ_pkts :: u32
  rxpdu_pkts :: u32
  rxpdu_bytes :: u32
  rxpdu_dup_pkts :: u32
  rxpdu_dup_bytes :: u32
  rxpdu_dd_pkts :: u32
  rxpdu_dd_bytes :: u32
  rxpdu_ow_pkts :: u32
  rxpdu_ow_bytes :: u32
  rxpdu_status_pkts :: u32
  rxpdu_status_bytes :: u32
  rxbuf_occ_bytes :: u32
  rxbuf_occ_pkts :: u32
  txsdu_pkts :: u32
  txsdu_bytes :: u64
  txsdu_wt_us :: u32
  rxsdu_pkts :: u32
  rxsdu_bytes :: u64
  rxsdu_dd_pkts :: u32
  rxsdu_dd_bytes :: u32

definition zero_stats :: "nr_rlc_mode_t \<Rightarrow> nr_rlc_statistics_t" where
  "zero_stats mode = \<lparr>st_mode = mode, txpdu_pkts = 0, txpdu_bytes = 0, txpdu_wt_ms = 0,
     txpdu_dd_pkts = 0, txpdu_dd_bytes = 0, txpdu_retx_pkts = 0, txpdu_retx_bytes = 0,
     txpdu_segmented = 0, txpdu_status_pkts = 0, txpdu_status_bytes = 0, txbuf_occ_bytes = 0,
     txbuf_occ_pkts = 0, rxpdu_pkts = 0, rxpdu_bytes = 0, rxpdu_dup_pkts = 0, rxpdu_dup_bytes = 0,
     rxpdu_dd_pkts = 0, rxpdu_dd_bytes = 0, rxpdu_ow_pkts = 0, rxpdu_ow_bytes = 0,
     rxpdu_status_pkts = 0, rxpdu_status_bytes = 0, rxbuf_occ_bytes = 0, rxbuf_occ_pkts = 0,
     txsdu_pkts = 0, txsdu_bytes = 0, txsdu_wt_us = 0, rxsdu_pkts = 0, rxsdu_bytes = 0,
     rxsdu_dd_pkts = 0, rxsdu_dd_bytes = 0\<rparr>"

record nr_rlc_entity_buffer_status_t =
  bs_status_size :: int
  bs_tx_size :: int
  bs_retx_size :: int

datatype rlc_event =
    Deliver_Sdu buffer
  | Sdu_Successful_Delivery int
  | Max_Retx_Reached
  | Time_Average_Add u64 u64

record nr_rlc_entity_t =
  bstatus :: nr_rlc_entity_buffer_status_t
  stats :: nr_rlc_statistics_t
  avg_time_is_on :: bool
  events :: "rlc_event list"
  store :: sdu_store


definition emit :: "rlc_event \<Rightarrow> ('a nr_rlc_entity_t_scheme) \<Rightarrow> ('a nr_rlc_entity_t_scheme)" where
  "emit ev e = e\<lparr>events := events e @ [ev]\<rparr>"

definition upd_stats ::
    "(nr_rlc_statistics_t \<Rightarrow> nr_rlc_statistics_t) \<Rightarrow> ('a nr_rlc_entity_t_scheme) \<Rightarrow> ('a nr_rlc_entity_t_scheme)" where
  "upd_stats f e = e\<lparr>stats := f (stats e)\<rparr>"

definition add_bs_tx :: "int \<Rightarrow> ('a nr_rlc_entity_t_scheme) \<Rightarrow> ('a nr_rlc_entity_t_scheme)" where
  "add_bs_tx n e = e\<lparr>bstatus := (bstatus e)\<lparr>bs_tx_size := bs_tx_size (bstatus e) + n\<rparr>\<rparr>"

definition add_bs_retx :: "int \<Rightarrow> ('a nr_rlc_entity_t_scheme) \<Rightarrow> ('a nr_rlc_entity_t_scheme)" where
  "add_bs_retx n e = e\<lparr>bstatus := (bstatus e)\<lparr>bs_retx_size := bs_retx_size (bstatus e) + n\<rparr>\<rparr>"

text \<open>
  The counters an operation touches together: received PDUs, discarded PDUs, and so on. The
  \<open>size\<close> arguments are C \<open>int\<close>s added to unsigned counters.
\<close>

definition count_rxpdu :: "int \<Rightarrow> nr_rlc_statistics_t \<Rightarrow> nr_rlc_statistics_t" where
  "count_rxpdu n s = s\<lparr>rxpdu_pkts := rxpdu_pkts s + 1, rxpdu_bytes := rxpdu_bytes s + word_of_int n\<rparr>"

definition count_rxpdu_dd :: "int \<Rightarrow> nr_rlc_statistics_t \<Rightarrow> nr_rlc_statistics_t" where
  "count_rxpdu_dd n s =
     s\<lparr>rxpdu_dd_pkts := rxpdu_dd_pkts s + 1, rxpdu_dd_bytes := rxpdu_dd_bytes s + word_of_int n\<rparr>"

definition count_rxpdu_ow :: "int \<Rightarrow> nr_rlc_statistics_t \<Rightarrow> nr_rlc_statistics_t" where
  "count_rxpdu_ow n s =
     s\<lparr>rxpdu_ow_pkts := rxpdu_ow_pkts s + 1, rxpdu_ow_bytes := rxpdu_ow_bytes s + word_of_int n\<rparr>"

definition count_rxpdu_dup :: "int \<Rightarrow> nr_rlc_statistics_t \<Rightarrow> nr_rlc_statistics_t" where
  "count_rxpdu_dup n s =
     s\<lparr>rxpdu_dup_pkts := rxpdu_dup_pkts s + 1, rxpdu_dup_bytes := rxpdu_dup_bytes s + word_of_int n\<rparr>"

definition count_txpdu :: "int \<Rightarrow> nr_rlc_statistics_t \<Rightarrow> nr_rlc_statistics_t" where
  "count_txpdu n s = s\<lparr>txpdu_pkts := txpdu_pkts s + 1, txpdu_bytes := txpdu_bytes s + word_of_int n\<rparr>"

definition count_txsdu :: "int \<Rightarrow> nr_rlc_statistics_t \<Rightarrow> nr_rlc_statistics_t" where
  "count_txsdu n s = s\<lparr>txsdu_pkts := txsdu_pkts s + 1, txsdu_bytes := txsdu_bytes s + word_of_int n\<rparr>"

definition count_rxsdu_dd :: "int \<Rightarrow> nr_rlc_statistics_t \<Rightarrow> nr_rlc_statistics_t" where
  "count_rxsdu_dd n s =
     s\<lparr>rxsdu_dd_pkts := rxsdu_dd_pkts s + 1, rxsdu_dd_bytes := rxsdu_dd_bytes s + word_of_int n\<rparr>"

text \<open>
  The waiting time of an SDU, added to the running average on its way to the MAC when
  \<open>avg_time_is_on\<close> is set.
\<close>

definition record_waiting_time ::
    "u64 \<Rightarrow> nr_rlc_sdu_segment_t \<Rightarrow> ('a nr_rlc_entity_t_scheme) \<Rightarrow> ('a nr_rlc_entity_t_scheme)" where
  "record_waiting_time time_now g e =
     (if avg_time_is_on e
      then emit (Time_Average_Add time_now (time_now - sdu_time_of_arrival (sdu_at (store e) g))) e
      else e)"

definition stamp_arrival ::
    "u64 \<Rightarrow> nr_rlc_sdu_segment_t \<Rightarrow> ('a nr_rlc_entity_t_scheme) \<Rightarrow> ('a nr_rlc_entity_t_scheme)" where
  "stamp_arrival time_now g e =
     (if avg_time_is_on e
      then e\<lparr>store := sdu_upd (store e) g (\<lambda>s. s\<lparr>sdu_time_of_arrival := time_now\<rparr>)\<rparr>
      else e)"

section \<open>What these helpers leave alone\<close>

lemma common_simps [simp]:
  "stats (emit ev e) = stats e" "bstatus (emit ev e) = bstatus e" "store (emit ev e) = store e"
  "avg_time_is_on (emit ev e) = avg_time_is_on e" "nr_rlc_entity_t.more (emit ev e) = nr_rlc_entity_t.more e"
  "events (emit ev e) = events e @ [ev]"
  "stats (upd_stats f e) = f (stats e)" "bstatus (upd_stats f e) = bstatus e"
  "store (upd_stats f e) = store e" "events (upd_stats f e) = events e"
  "avg_time_is_on (upd_stats f e) = avg_time_is_on e"
  "nr_rlc_entity_t.more (upd_stats f e) = nr_rlc_entity_t.more e"
  "stats (add_bs_tx n e) = stats e" "store (add_bs_tx n e) = store e" "events (add_bs_tx n e) = events e"
  "bs_tx_size (bstatus (add_bs_tx n e)) = bs_tx_size (bstatus e) + n"
  "bs_retx_size (bstatus (add_bs_tx n e)) = bs_retx_size (bstatus e)"
  "avg_time_is_on (add_bs_tx n e) = avg_time_is_on e"
  "nr_rlc_entity_t.more (add_bs_tx n e) = nr_rlc_entity_t.more e"
  "stats (add_bs_retx n e) = stats e" "store (add_bs_retx n e) = store e"
  "events (add_bs_retx n e) = events e" "bs_tx_size (bstatus (add_bs_retx n e)) = bs_tx_size (bstatus e)"
  "bs_retx_size (bstatus (add_bs_retx n e)) = bs_retx_size (bstatus e) + n"
  "avg_time_is_on (add_bs_retx n e) = avg_time_is_on e"
  "nr_rlc_entity_t.more (add_bs_retx n e) = nr_rlc_entity_t.more e"
  by (simp_all add: emit_def upd_stats_def add_bs_tx_def add_bs_retx_def)

lemma record_waiting_time_simps [simp]:
  "stats (record_waiting_time t g e) = stats e" "bstatus (record_waiting_time t g e) = bstatus e"
  "store (record_waiting_time t g e) = store e"
  "avg_time_is_on (record_waiting_time t g e) = avg_time_is_on e"
  "nr_rlc_entity_t.more (record_waiting_time t g e) = nr_rlc_entity_t.more e"
  by (simp_all add: record_waiting_time_def)

lemma stamp_arrival_simps [simp]:
  "stats (stamp_arrival t g e) = stats e" "bstatus (stamp_arrival t g e) = bstatus e"
  "events (stamp_arrival t g e) = events e"
  "avg_time_is_on (stamp_arrival t g e) = avg_time_is_on e"
  "nr_rlc_entity_t.more (stamp_arrival t g e) = nr_rlc_entity_t.more e"
  by (simp_all add: stamp_arrival_def)

lemma stamp_arrival_store:
  assumes "store_inv (store e) M"
  shows "store_inv (store (stamp_arrival t g e)) M"
    and "live_bytes (store (stamp_arrival t g e)) = live_bytes (store e)"
  using assms store_inv_upd[OF assms, of "\<lambda>s. s\<lparr>sdu_time_of_arrival := t\<rparr>" g]
  by (auto simp: stamp_arrival_def)

lemma stamp_arrival_data [simp]:
  "sdu_data (sdu_at (store (stamp_arrival t g e)) g') = sdu_data (sdu_at (store e) g')"
  "sdu_size (sdu_at (store (stamp_arrival t g e)) g') = sdu_size (sdu_at (store e) g')"
  by (auto simp: stamp_arrival_def sdu_upd_def sdu_at_def null_sdu_def split: option.splits)

lemmas common_defs = emit_def upd_stats_def add_bs_tx_def add_bs_retx_def record_waiting_time_def
  stamp_arrival_def

lemmas count_defs = count_rxpdu_def count_rxpdu_dd_def count_rxpdu_ow_def count_rxpdu_dup_def
  count_txpdu_def count_txsdu_def count_rxsdu_dd_def

section \<open>The contract of a transmission buffer\<close>

text \<open>
  What the upper layer relies on when it hands SDUs to an RLC entity: \<open>space\<close> (the entity's
  \<open>available_tx_space\<close>) tells in advance whether an SDU is accepted, an accepted SDU uses exactly
  its size, a refused one changes no space, and an SDU above \<open>NR_SDU_MAX\<close> stops the program. The
  three entities are instances.
\<close>

text \<open>A burst: SDUs with their identifier and the time of the call, handed over one after the other.\<close>

fun recv_all ::
    "('e \<Rightarrow> buffer \<Rightarrow> int \<Rightarrow> u64 \<Rightarrow> 'e res) \<Rightarrow> 'e \<Rightarrow> (buffer \<times> int \<times> u64) list \<Rightarrow> 'e res" where
  "recv_all recv e [] = Inr e"
| "recv_all recv e ((b, i, t) # r) = bindE (recv e b i t) (\<lambda>e. recv_all recv e r)"

locale tx_buffer =
  fixes recv_sdu :: "'e \<Rightarrow> buffer \<Rightarrow> int \<Rightarrow> u64 \<Rightarrow> 'e res"
    and space :: "'e \<Rightarrow> int"
    and queued :: "'e \<Rightarrow> buffer list"
    and invar :: "'e \<Rightarrow> bool"
  assumes accepted: "invar e \<Longrightarrow> int (length b) \<le> NR_SDU_MAX \<Longrightarrow> int (length b) \<le> space e \<Longrightarrow>
        \<exists>e'. recv_sdu e b i t = Inr e' \<and> invar e' \<and> space e' = space e - int (length b)
           \<and> queued e' = queued e @ [b]"
    and refused: "invar e \<Longrightarrow> int (length b) \<le> NR_SDU_MAX \<Longrightarrow> space e < int (length b) \<Longrightarrow>
        \<exists>e'. recv_sdu e b i t = Inr e' \<and> invar e' \<and> space e' = space e \<and> queued e' = queued e"
    and too_big: "NR_SDU_MAX < int (length b) \<Longrightarrow> \<exists>x. recv_sdu e b i t = Inl x"
begin

text \<open>A burst that fits is accepted as a whole, in order.\<close>

lemma recv_all_accepted:
  assumes "invar e" and "\<forall>x \<in> set r. int (length (fst x)) \<le> NR_SDU_MAX"
    and "(\<Sum>x \<leftarrow> r. int (length (fst x))) \<le> space e"
  shows "\<exists>e'. recv_all recv_sdu e r = Inr e' \<and> invar e' \<and> queued e' = queued e @ map fst r
    \<and> space e' = space e - (\<Sum>x \<leftarrow> r. int (length (fst x)))"
  using assms
proof (induction r arbitrary: e)
  case (Cons x r)
  obtain b i t where x: "x = (b, i, t)" by (cases x) auto
  have nn: "0 \<le> (\<Sum>x \<leftarrow> r. int (length (fst x)))" by (rule sum_list_nonneg) auto
  obtain e1 where e1: "recv_sdu e b i t = Inr e1" "invar e1" "space e1 = space e - int (length b)"
    "queued e1 = queued e @ [b]"
    using accepted[of e b i t] Cons.prems x nn by auto
  then show ?case using Cons.IH[of e1] Cons.prems x by (auto simp: algebra_simps)
qed simp

text \<open>A burst never fails, whatever is in it, as long as no SDU is above the limit.\<close>

lemma recv_all_total:
  assumes "invar e" and "\<forall>x \<in> set r. int (length (fst x)) \<le> NR_SDU_MAX"
  shows "\<exists>e'. recv_all recv_sdu e r = Inr e' \<and> invar e' \<and> space e' \<le> space e"
  using assms
proof (induction r arbitrary: e)
  case (Cons x r)
  obtain b i t where x: "x = (b, i, t)" by (cases x) auto
  obtain e1 where e1: "recv_sdu e b i t = Inr e1" "invar e1" "space e1 \<le> space e"
    using accepted[of e b i t] refused[of e b i t] Cons.prems x
    by (cases "int (length b) \<le> space e") auto
  then show ?case using Cons.IH[of e1] Cons.prems x by fastforce
qed auto

end

end
