(* ===== verification/RLC_Pdu.thy ===== *)
theory RLC_Pdu
  imports RLC_Prelude
begin

text \<open>
  Model of \<open>openair2/LAYER2/nr_rlc/nr_rlc_pdu.c\<close>: received PDUs and their sorted list, the bit
  decoder and the bit encoder of PDU headers. The decoder is shown to read a stream of bits and
  to flag exactly the reads past its end, the encoder to append bits and to stop the program
  exactly when its buffer is full, and the two to be inverse to each other.
\<close>

section \<open>RX PDU management\<close>

text \<open>
  \<open>pdu_data = None\<close> is the NULL pointer the entities store once the bytes were delivered.
\<close>

record nr_rlc_pdu_t =
  pdu_sn :: int
  pdu_data :: "buffer option"
  pdu_size :: int
  pdu_so :: int
  pdu_is_first :: bool
  pdu_is_last :: bool

definition nr_rlc_new_pdu :: "int \<Rightarrow> int \<Rightarrow> bool \<Rightarrow> bool \<Rightarrow> buffer \<Rightarrow> nr_rlc_pdu_t" where
  "nr_rlc_new_pdu sn so is_first is_last data =
     \<lparr>pdu_sn = sn, pdu_data = Some data, pdu_size = int (length data), pdu_so = so,
      pdu_is_first = is_first, pdu_is_last = is_last\<rparr>"

definition nr_rlc_pdu_list_add ::
    "(int \<Rightarrow> int \<Rightarrow> int) \<Rightarrow> nr_rlc_pdu_t list \<Rightarrow> nr_rlc_pdu_t \<Rightarrow> nr_rlc_pdu_t list" where
  "nr_rlc_pdu_list_add sn_compare list pdu =
     insert_before (\<lambda>cur. sn_compare (pdu_sn cur) (pdu_sn pdu) > 0
                        \<or> (pdu_sn cur = pdu_sn pdu \<and> pdu_so cur > pdu_so pdu)) pdu list"

section \<open>PDU decoder\<close>

record nr_rlc_pdu_decoder_t =
  dec_error :: bool
  dec_byte :: nat
  dec_bit :: nat
  dec_buffer :: buffer
  dec_size :: nat

definition nr_rlc_pdu_decoder_init :: "buffer \<Rightarrow> nat \<Rightarrow> nr_rlc_pdu_decoder_t" where
  "nr_rlc_pdu_decoder_init buf sz =
     \<lparr>dec_error = False, dec_byte = 0, dec_bit = 0, dec_buffer = buf, dec_size = sz\<rparr>"

definition get_bit :: "nr_rlc_pdu_decoder_t \<Rightarrow> int \<times> nr_rlc_pdu_decoder_t" where
  "get_bit d =
     (if dec_byte d \<ge> dec_size d then (0, d\<lparr>dec_error := True\<rparr>)
      else
        let ret = of_bool (bit (dec_buffer d ! dec_byte d) (7 - dec_bit d));
            d = d\<lparr>dec_bit := dec_bit d + 1\<rparr>;
            d = (if dec_bit d = 8 then d\<lparr>dec_bit := 0, dec_byte := dec_byte d + 1\<rparr> else d)
        in (ret, d))"

text \<open>
  The loop of \<open>nr_rlc_pdu_decoder_get_bits\<close>. The two lines \<open>ret <<= 1; ret |= get_bit(decoder)\<close>
  are \<open>2 * ret + b\<close>, as \<open>b\<close> is 0 or 1 and at most 31 bits are read.
\<close>

fun get_bits_loop :: "nat \<Rightarrow> int \<Rightarrow> nr_rlc_pdu_decoder_t \<Rightarrow> int \<times> nr_rlc_pdu_decoder_t" where
  "get_bits_loop 0 ret d = (ret, d)"
| "get_bits_loop (Suc n) ret d =
     (let (b, d') = get_bit d
      in if dec_error d' then (-1, d') else get_bits_loop n (2 * ret + b) d')"

definition nr_rlc_pdu_decoder_get_bits ::
    "nr_rlc_pdu_decoder_t \<Rightarrow> nat \<Rightarrow> (int \<times> nr_rlc_pdu_decoder_t) res" where
  "nr_rlc_pdu_decoder_get_bits d n =
     (if n > 31 then Inl Exit_Failure else Inr (get_bits_loop n 0 d))"

text \<open>
  The idiom \<open>v = nr_rlc_pdu_decoder_get_bits(&decoder, n); R(decoder);\<close> of the entities, with
  \<open>#define R(d) do { if (nr_rlc_pdu_decoder_in_error(&d)) goto err; } while (0)\<close>: the
  continuation \<open>err\<close> is taken when the decoder is in error.
\<close>

definition get_bits_R ::
    "nr_rlc_pdu_decoder_t \<Rightarrow> nat \<Rightarrow> 'a res \<Rightarrow> (int \<Rightarrow> nr_rlc_pdu_decoder_t \<Rightarrow> 'a res) \<Rightarrow> 'a res" where
  "get_bits_R d n err k =
     bindE (nr_rlc_pdu_decoder_get_bits d n) (\<lambda>(v, d). if dec_error d then err else k v d)"

section \<open>PDU encoder\<close>

record nr_rlc_pdu_encoder_t =
  enc_byte :: nat
  enc_bit :: nat
  enc_buffer :: buffer
  enc_size :: nat

definition nr_rlc_pdu_encoder_init :: "buffer \<Rightarrow> nat \<Rightarrow> nr_rlc_pdu_encoder_t" where
  "nr_rlc_pdu_encoder_init buf sz =
     \<lparr>enc_byte = 0, enc_bit = 0, enc_buffer = buf, enc_size = sz\<rparr>"

definition put_bit :: "nr_rlc_pdu_encoder_t \<Rightarrow> bool \<Rightarrow> nr_rlc_pdu_encoder_t res" where
  "put_bit e b =
     (if enc_byte e = enc_size e then Inl Exit_Failure
      else
        let i = enc_byte e;
            e = e\<lparr>enc_buffer := (enc_buffer e)[i := push_bit 1 (enc_buffer e ! i)]\<rparr>;
            e = (if b then e\<lparr>enc_buffer := (enc_buffer e)[i := (enc_buffer e ! i) OR 1]\<rparr> else e);
            e = e\<lparr>enc_bit := enc_bit e + 1\<rparr>
        in Inr (if enc_bit e = 8 then e\<lparr>enc_bit := 0, enc_byte := enc_byte e + 1\<rparr> else e))"

text \<open>The loop \<open>for (i = 0; i < count; i++, x >>= 1)\<close>: \<open>x\<close> selects bits \<open>count - 1\<close> down to 0.\<close>

fun put_bits_loop :: "nr_rlc_pdu_encoder_t \<Rightarrow> int \<Rightarrow> nat \<Rightarrow> nr_rlc_pdu_encoder_t res" where
  "put_bits_loop e v 0 = Inr e"
| "put_bits_loop e v (Suc n) = bindE (put_bit e (bit v n)) (\<lambda>e. put_bits_loop e v n)"

definition nr_rlc_pdu_encoder_put_bits ::
    "nr_rlc_pdu_encoder_t \<Rightarrow> int \<Rightarrow> nat \<Rightarrow> nr_rlc_pdu_encoder_t res" where
  "nr_rlc_pdu_encoder_put_bits e v n =
     (if n > 31 then Inl Exit_Failure else put_bits_loop e v n)"

section \<open>The list of received PDUs\<close>

lemma mset_pdu_list_add [simp]:
  "mset (nr_rlc_pdu_list_add cmp l p) = add_mset p (mset l)"
  by (simp add: nr_rlc_pdu_list_add_def)

lemma set_pdu_list_add [simp]:
  "set (nr_rlc_pdu_list_add cmp l p) = insert p (set l)"
  by (simp add: nr_rlc_pdu_list_add_def)

text \<open>
  The order of the list is the order of the pairs (key of the SN, SO) whenever the comparison
  function is the difference of an injective key.
\<close>

definition pdu_key :: "(int \<Rightarrow> int) \<Rightarrow> nr_rlc_pdu_t \<Rightarrow> int \<times> int" where
  "pdu_key f p = (f (pdu_sn p), pdu_so p)"

definition lex_le :: "int \<times> int \<Rightarrow> int \<times> int \<Rightarrow> bool" where
  "lex_le a b \<longleftrightarrow> fst a < fst b \<or> fst a = fst b \<and> snd a \<le> snd b"

definition pdu_list_ordered :: "(int \<Rightarrow> int) \<Rightarrow> nr_rlc_pdu_t list \<Rightarrow> bool" where
  "pdu_list_ordered f l \<longleftrightarrow> sorted_wrt (\<lambda>p q. lex_le (pdu_key f p) (pdu_key f q)) l"

lemma insert_before_sorted_wrt:
  assumes "sorted_wrt r xs"
    and "\<And>y. y \<in> set xs \<Longrightarrow> p y \<Longrightarrow> r x y" and "\<And>y. y \<in> set xs \<Longrightarrow> \<not> p y \<Longrightarrow> r y x"
    and "\<And>y z. y \<in> set xs \<Longrightarrow> z \<in> set xs \<Longrightarrow> p y \<Longrightarrow> r y z \<Longrightarrow> r x z"
  shows "sorted_wrt r (insert_before p x xs)"
  using assms
proof (induction xs)
  case (Cons a xs)
  have IH: "sorted_wrt r (insert_before p x xs)"
  proof (rule Cons.IH)
    show "sorted_wrt r xs" using Cons.prems(1) by simp
  next
    fix y assume "y \<in> set xs" "p y" then show "r x y" using Cons.prems(2) by simp
  next
    fix y assume "y \<in> set xs" "\<not> p y" then show "r y x" using Cons.prems(3) by simp
  next
    fix y z assume "y \<in> set xs" "z \<in> set xs" "p y" "r y z"
    then show "r x z" using Cons.prems(4)[of y z] by simp
  qed
  show ?case
  proof (cases "p a")
    case True
    have ra: "r x a" using Cons.prems(2)[of a] True by simp
    have "r x z" if "z \<in> set xs" for z
    proof -
      have "r a z" using Cons.prems(1) that by simp
      then show ?thesis using Cons.prems(4)[of a z] True that by simp
    qed
    then show ?thesis using True ra Cons.prems(1) by simp
  next
    case False
    then have "r a x" using Cons.prems(3)[of a] by simp
    then show ?thesis using False IH Cons.prems(1) by auto
  qed
qed simp

lemma pdu_list_add_ordered:
  assumes ord: "pdu_list_ordered f l"
    and cmp: "\<And>a b. cmp a b = f a - f b"
    and inj: "\<And>q. q \<in> set l \<Longrightarrow> f (pdu_sn q) = f (pdu_sn p) \<Longrightarrow> pdu_sn q = pdu_sn p"
  shows "pdu_list_ordered f (nr_rlc_pdu_list_add cmp l p)"
  unfolding pdu_list_ordered_def nr_rlc_pdu_list_add_def
proof (rule insert_before_sorted_wrt)
  show "sorted_wrt (\<lambda>p q. lex_le (pdu_key f p) (pdu_key f q)) l"
    using ord by (simp add: pdu_list_ordered_def)
next
  fix y assume "y \<in> set l" "cmp (pdu_sn y) (pdu_sn p) > 0 \<or> pdu_sn y = pdu_sn p \<and> pdu_so y > pdu_so p"
  then show "lex_le (pdu_key f p) (pdu_key f y)"
    by (auto simp: lex_le_def pdu_key_def cmp)
next
  fix y assume "y \<in> set l"
    "\<not> (cmp (pdu_sn y) (pdu_sn p) > 0 \<or> pdu_sn y = pdu_sn p \<and> pdu_so y > pdu_so p)"
  then show "lex_le (pdu_key f y) (pdu_key f p)"
    using inj[of y] by (force simp: lex_le_def pdu_key_def cmp)
next
  fix y z assume "cmp (pdu_sn y) (pdu_sn p) > 0 \<or> pdu_sn y = pdu_sn p \<and> pdu_so y > pdu_so p"
    and "lex_le (pdu_key f y) (pdu_key f z)"
  then show "lex_le (pdu_key f p) (pdu_key f z)"
    by (auto simp: lex_le_def pdu_key_def cmp)
qed

section \<open>The decoder reads a bit stream\<close>

definition dec_pos :: "nr_rlc_pdu_decoder_t \<Rightarrow> nat" where
  "dec_pos d = 8 * dec_byte d + dec_bit d"

definition dec_wf :: "nr_rlc_pdu_decoder_t \<Rightarrow> bool" where
  "dec_wf d \<longleftrightarrow> \<not> dec_error d \<and> dec_bit d < 8 \<and> dec_size d = length (dec_buffer d)
     \<and> dec_pos d \<le> 8 * dec_size d"

definition dec_rest :: "nr_rlc_pdu_decoder_t \<Rightarrow> bool list" where
  "dec_rest d = drop (dec_pos d) (bytes_bits (dec_buffer d))"

definition dec_at :: "nr_rlc_pdu_decoder_t \<Rightarrow> nat \<Rightarrow> nr_rlc_pdu_decoder_t" where
  "dec_at d p = d\<lparr>dec_byte := p div 8, dec_bit := p mod 8\<rparr>"

lemma dec_at_simps [simp]:
  "dec_pos (dec_at d p) = p" "dec_error (dec_at d p) = dec_error d"
  "dec_buffer (dec_at d p) = dec_buffer d" "dec_size (dec_at d p) = dec_size d"
  "dec_byte (dec_at d p) = p div 8" "dec_at (dec_at d q) p = dec_at d p"
  by (simp_all add: dec_at_def dec_pos_def)

lemma dec_at_self [simp]: "dec_bit d < 8 \<Longrightarrow> dec_at d (dec_pos d) = d"
  by (cases d) (simp add: dec_at_def dec_pos_def)

lemma dec_wf_at: "dec_wf d \<Longrightarrow> p \<le> 8 * dec_size d \<Longrightarrow> dec_wf (dec_at d p)"
  by (simp add: dec_wf_def dec_at_def dec_pos_def)

lemma dec_rest_length: "dec_wf d \<Longrightarrow> length (dec_rest d) = 8 * dec_size d - dec_pos d"
  by (simp add: dec_rest_def dec_wf_def)

lemma get_bit_ok:
  assumes wf: "dec_wf d" and lt: "dec_pos d < 8 * dec_size d"
  shows "get_bit d = (of_bool (bytes_bits (dec_buffer d) ! dec_pos d), dec_at d (dec_pos d + 1))"
proof -
  have b: "dec_byte d < dec_size d" and k: "dec_bit d < 8"
    using wf lt by (auto simp: dec_wf_def dec_pos_def)
  have nth: "bytes_bits (dec_buffer d) ! dec_pos d = bit (dec_buffer d ! dec_byte d) (7 - dec_bit d)"
    unfolding dec_pos_def using b k wf by (intro bytes_bits_nth) (auto simp: dec_wf_def)
  have st: "(if dec_bit d + 1 = 8 then d\<lparr>dec_bit := 0, dec_byte := dec_byte d + 1\<rparr>
             else d\<lparr>dec_bit := dec_bit d + 1\<rparr>) = dec_at d (dec_pos d + 1)"
  proof (cases "dec_bit d + 1 = 8")
    case True
    then have "dec_pos d + 1 = 8 * (dec_byte d + 1)" by (simp add: dec_pos_def)
    then show ?thesis using True by (simp add: dec_at_def)
  next
    case False
    then have lt8: "dec_bit d + 1 < 8" using k by simp
    have "(8 * dec_byte d + (dec_bit d + 1)) div 8 = dec_byte d"
      using lt8 by (intro div_nat_eqI) auto
    moreover have "(8 * dec_byte d + (dec_bit d + 1)) mod 8 = dec_bit d + 1"
      using lt8 by (metis mod_less mod_mult_self4)
    ultimately show ?thesis using False by (simp add: dec_at_def dec_pos_def add.assoc)
  qed
  show ?thesis
    using b st by (auto simp: get_bit_def nth Let_def split: if_splits)
qed

lemma get_bit_past_end:
  "dec_wf d \<Longrightarrow> dec_pos d = 8 * dec_size d \<Longrightarrow> get_bit d = (0, d\<lparr>dec_error := True\<rparr>)"
  by (auto simp: get_bit_def dec_pos_def dec_wf_def)

lemma get_bits_loop_ok:
  assumes "dec_wf d" and "n \<le> length (dec_rest d)"
  shows "get_bits_loop n acc d = (bits_val acc (take n (dec_rest d)), dec_at d (dec_pos d + n))"
  using assms
proof (induction n arbitrary: acc d)
  case 0
  then show ?case by (simp add: dec_wf_def)
next
  case (Suc n)
  have lt: "dec_pos d < 8 * dec_size d"
    using Suc.prems dec_rest_length[of d] by simp
  let ?d = "dec_at d (dec_pos d + 1)"
  let ?b = "bytes_bits (dec_buffer d) ! dec_pos d"
  have gb: "get_bit d = (of_bool ?b, ?d)" using Suc.prems(1) lt by (rule get_bit_ok)
  have wf': "dec_wf ?d" using Suc.prems(1) lt by (intro dec_wf_at) auto
  have rest: "dec_rest d = ?b # dec_rest ?d"
    using lt Suc.prems(1)
    by (simp add: dec_rest_def Cons_nth_drop_Suc dec_wf_def)
  have "n \<le> length (dec_rest ?d)" using Suc.prems(2) rest by simp
  from Suc.IH[OF wf' this, of "2 * acc + of_bool ?b"] show ?case
    using gb wf' rest by (simp add: dec_wf_def)
qed

lemma get_bits_loop_short:
  assumes "dec_wf d" and "length (dec_rest d) < n"
  shows "dec_error (snd (get_bits_loop n acc d)) \<and> fst (get_bits_loop n acc d) = -1"
  using assms
proof (induction n arbitrary: acc d)
  case (Suc n)
  show ?case
  proof (cases "dec_pos d < 8 * dec_size d")
    case False
    then have "dec_pos d = 8 * dec_size d" using Suc.prems(1) by (simp add: dec_wf_def)
    from get_bit_past_end[OF Suc.prems(1) this] show ?thesis by simp
  next
    case True
    let ?d = "dec_at d (dec_pos d + 1)"
    have gb: "get_bit d = (of_bool (bytes_bits (dec_buffer d) ! dec_pos d), ?d)"
      using Suc.prems(1) True by (rule get_bit_ok)
    have wf': "dec_wf ?d" using Suc.prems(1) True by (intro dec_wf_at) auto
    have "length (dec_rest ?d) < n"
      using Suc.prems(2) dec_rest_length[OF wf'] dec_rest_length[OF Suc.prems(1)] True by simp
    from Suc.IH[OF wf' this] show ?thesis using gb wf' by (simp add: dec_wf_def)
  qed
qed simp

lemma get_bits_R_ok:
  assumes "dec_wf d" and "n \<le> 31" and "n \<le> length (dec_rest d)"
  shows "get_bits_R d n err k = k (bits_val 0 (take n (dec_rest d))) (dec_at d (dec_pos d + n))"
  using assms get_bits_loop_ok[OF assms(1,3)]
  by (simp add: get_bits_R_def nr_rlc_pdu_decoder_get_bits_def dec_wf_def)

lemma get_bits_R_short:
  assumes "dec_wf d" and "n \<le> 31" and "length (dec_rest d) < n"
  shows "get_bits_R d n err k = err"
  using assms get_bits_loop_short[OF assms(1,3), of 0]
  by (auto simp: get_bits_R_def nr_rlc_pdu_decoder_get_bits_def split: prod.splits)

lemma dec_at_rest:
  "dec_rest (dec_at d (dec_pos d + n)) = drop n (dec_rest d)"
  by (simp add: dec_rest_def add.commute)

lemma dec_at_wf_rest:
  "dec_wf d \<Longrightarrow> n \<le> length (dec_rest d) \<Longrightarrow> dec_wf (dec_at d (dec_pos d + n))"
  by (rule dec_wf_at) (auto simp: dec_rest_length dec_wf_def)

text \<open>The two ways out of a read: the error continuation, or a value that fits its width.\<close>

lemma get_bits_R_rule:
  assumes "dec_wf d" and "n \<le> 31" and "P err"
    and "\<And>v d'. 0 \<le> v \<Longrightarrow> v < 2 ^ n \<Longrightarrow> dec_wf d' \<Longrightarrow> dec_pos d' = dec_pos d + n \<Longrightarrow>
      dec_size d' = dec_size d \<Longrightarrow> P (k v d')"
  shows "P (get_bits_R d n err k)"
proof (cases "n \<le> length (dec_rest d)")
  case True
  have "bits_val 0 (take n (dec_rest d)) < 2 ^ n"
    using bits_val_less[of "take n (dec_rest d)"] True by (simp add: min.absorb2)
  then show ?thesis
    using assms dec_at_wf_rest[OF assms(1) True] bits_val_nonneg
    by (simp add: get_bits_R_ok[OF assms(1,2) True])
next
  case False
  then show ?thesis using assms(3) get_bits_R_short[OF assms(1,2), of err k] by simp
qed

lemma decoder_init_simps [simp]:
  "dec_pos (nr_rlc_pdu_decoder_init b n) = 0"
  "dec_rest (nr_rlc_pdu_decoder_init b n) = bytes_bits b"
  "dec_wf (nr_rlc_pdu_decoder_init b (length b))"
  "dec_size (nr_rlc_pdu_decoder_init b n) = n"
  by (simp_all add: nr_rlc_pdu_decoder_init_def dec_pos_def dec_rest_def dec_wf_def)

section \<open>The encoder appends bits\<close>

definition enc_pos :: "nr_rlc_pdu_encoder_t \<Rightarrow> nat" where
  "enc_pos e = 8 * enc_byte e + enc_bit e"

definition enc_wf :: "nr_rlc_pdu_encoder_t \<Rightarrow> bool" where
  "enc_wf e \<longleftrightarrow> enc_bit e < 8 \<and> enc_size e = length (enc_buffer e) \<and> enc_pos e \<le> 8 * enc_size e"

definition enc_written :: "nr_rlc_pdu_encoder_t \<Rightarrow> bool list" where
  "enc_written e = bytes_bits (take (enc_byte e) (enc_buffer e))
     @ msb_bits (enc_bit e) (enc_buffer e ! enc_byte e)"

text \<open>What one encoder state has in common with a later one after \<open>bs\<close> was appended.\<close>

definition enc_ext :: "nr_rlc_pdu_encoder_t \<Rightarrow> bool list \<Rightarrow> nr_rlc_pdu_encoder_t \<Rightarrow> bool" where
  "enc_ext e bs e' \<longleftrightarrow> enc_wf e' \<and> enc_written e' = enc_written e @ bs
     \<and> enc_pos e' = enc_pos e + length bs \<and> enc_size e' = enc_size e"

lemma enc_ext_refl: "enc_wf e \<Longrightarrow> enc_ext e [] e"
  by (simp add: enc_ext_def)

lemma enc_ext_trans: "enc_ext e xs e' \<Longrightarrow> enc_ext e' ys e'' \<Longrightarrow> enc_ext e (xs @ ys) e''"
  by (simp add: enc_ext_def)

lemma msb_bits_Suc_shift:
  assumes "bit v 0 = b" and "\<And>j. j < k \<Longrightarrow> bit v (Suc j) = bit w j"
  shows "msb_bits (Suc k) v = msb_bits k w @ [b]"
  using assms by (induction k) auto

lemma msb_bits_shift_in:
  fixes w :: byte
  assumes "k < 8"
  shows "msb_bits (Suc k) (if b then push_bit 1 w OR 1 else push_bit 1 w) = msb_bits k w @ [b]"
proof (rule msb_bits_Suc_shift)
  have "\<not> bit (push_bit 1 w) 0" by (simp only: bit_push_bit_iff) simp
  then show "bit (if b then push_bit 1 w OR 1 else push_bit 1 w) 0 = b" by (simp add: bit_or_iff)
next
  fix j assume "j < k"
  then have "bit (push_bit 1 w) (Suc j) = bit w j"
    using assms by (simp only: bit_push_bit_iff) simp
  then show "bit (if b then push_bit 1 w OR 1 else push_bit 1 w) (Suc j) = bit w j"
    by (auto simp: bit_or_iff)
qed

lemma put_bit_ok:
  assumes wf: "enc_wf e" and lt: "enc_pos e < 8 * enc_size e"
  shows "\<exists>e'. put_bit e b = Inr e' \<and> enc_ext e [b] e'"
proof -
  let ?i = "enc_byte e" and ?w = "enc_buffer e ! enc_byte e"
  let ?v = "if b then push_bit 1 ?w OR 1 else push_bit 1 ?w"
  have i: "?i < length (enc_buffer e)" and k: "enc_bit e < 8" and sz: "enc_size e = length (enc_buffer e)"
    using wf lt by (auto simp: enc_wf_def enc_pos_def)
  have pb: "put_bit e b =
    Inr (let e1 = e\<lparr>enc_buffer := (enc_buffer e)[?i := ?v], enc_bit := enc_bit e + 1\<rparr> in
         if enc_bit e + 1 = 8 then e1\<lparr>enc_bit := 0, enc_byte := ?i + 1\<rparr> else e1)"
    using i sz by (auto simp: put_bit_def Let_def)
  have shift: "msb_bits (Suc (enc_bit e)) ?v = msb_bits (enc_bit e) ?w @ [b]"
    using k by (rule msb_bits_shift_in)
  have upd: "take ?i ((enc_buffer e)[?i := ?v]) = take ?i (enc_buffer e)" by simp
  have snoc: "take (Suc ?i) ((enc_buffer e)[?i := ?v]) = take ?i (enc_buffer e) @ [?v]"
    using i by (simp add: take_Suc_conv_app_nth)
  show ?thesis
  proof (cases "enc_bit e + 1 = 8")
    case True
    then have bit7: "enc_bit e = 7" by simp
    let ?e = "e\<lparr>enc_buffer := (enc_buffer e)[?i := ?v], enc_bit := 0, enc_byte := Suc ?i\<rparr>"
    have w: "enc_written ?e = bytes_bits (take ?i (enc_buffer e)) @ msb_bits 8 ?v"
      using snoc by (simp add: enc_written_def del: msb_bits.simps(2))
    have "msb_bits 8 ?v = msb_bits 7 ?w @ [b]"
      using shift bit7 by (simp add: numeral_eq_Suc)
    then have "enc_written ?e = enc_written e @ [b]"
      using w bit7 by (simp add: enc_written_def)
    then have "enc_ext e [b] ?e"
      using bit7 i sz by (simp add: enc_ext_def enc_wf_def enc_pos_def)
    moreover have "put_bit e b = Inr ?e" using pb True by (simp add: Let_def)
    ultimately show ?thesis by blast
  next
    case False
    let ?e = "e\<lparr>enc_buffer := (enc_buffer e)[?i := ?v], enc_bit := enc_bit e + 1\<rparr>"
    have "enc_written ?e = enc_written e @ [b]"
      using i shift upd by (simp add: enc_written_def)
    then have "enc_ext e [b] ?e"
      using False k i sz lt by (simp add: enc_ext_def enc_wf_def enc_pos_def)
    moreover have "put_bit e b = Inr ?e" using pb False by (simp add: Let_def)
    ultimately show ?thesis by blast
  qed
qed

lemma put_bit_full:
  "enc_wf e \<Longrightarrow> enc_pos e = 8 * enc_size e \<Longrightarrow> put_bit e b = Inl Exit_Failure"
  by (auto simp: put_bit_def enc_wf_def enc_pos_def)

lemma put_bits_loop_ok:
  assumes "enc_wf e" and "enc_pos e + n \<le> 8 * enc_size e"
  shows "\<exists>e'. put_bits_loop e v n = Inr e' \<and> enc_ext e (msb_bits n v) e'"
  using assms
proof (induction n arbitrary: e)
  case 0
  then show ?case by (simp add: enc_ext_refl)
next
  case (Suc n)
  obtain e1 where e1: "put_bit e (bit v n) = Inr e1" "enc_ext e [bit v n] e1"
    using put_bit_ok[of e "bit v n"] Suc.prems by auto
  then have "enc_wf e1" "enc_pos e1 + n \<le> 8 * enc_size e1"
    using Suc.prems by (auto simp: enc_ext_def)
  from Suc.IH[OF this] obtain e2 where "put_bits_loop e1 v n = Inr e2" "enc_ext e1 (msb_bits n v) e2"
    by blast
  then show ?case using e1 enc_ext_trans[of e "[bit v n]" e1 "msb_bits n v" e2] by auto
qed

lemma put_bits_loop_full:
  assumes "enc_wf e" and "enc_pos e + n > 8 * enc_size e"
  shows "put_bits_loop e v n = Inl Exit_Failure"
  using assms
proof (induction n arbitrary: e)
  case 0
  then show ?case by (simp add: enc_wf_def)
next
  case (Suc n)
  show ?case
  proof (cases "enc_pos e < 8 * enc_size e")
    case False
    then have "enc_pos e = 8 * enc_size e" using Suc.prems(1) by (simp add: enc_wf_def)
    then show ?thesis using put_bit_full[OF Suc.prems(1)] by simp
  next
    case True
    obtain e1 where "put_bit e (bit v n) = Inr e1" "enc_ext e [bit v n] e1"
      using put_bit_ok[OF Suc.prems(1) True] by auto
    then show ?thesis using Suc by (auto simp: enc_ext_def)
  qed
qed

lemma put_bits_ok:
  assumes "enc_wf e" and "n \<le> 31" and "enc_pos e + n \<le> 8 * enc_size e"
  shows "\<exists>e'. nr_rlc_pdu_encoder_put_bits e v n = Inr e' \<and> enc_ext e (msb_bits n v) e'"
  using put_bits_loop_ok[OF assms(1,3)] assms(2) by (simp add: nr_rlc_pdu_encoder_put_bits_def)

lemma encoder_init_simps [simp]:
  "enc_pos (nr_rlc_pdu_encoder_init b n) = 0"
  "enc_written (nr_rlc_pdu_encoder_init b n) = []"
  "enc_wf (nr_rlc_pdu_encoder_init b (length b))"
  "enc_size (nr_rlc_pdu_encoder_init b n) = n"
  by (simp_all add: nr_rlc_pdu_encoder_init_def enc_pos_def enc_written_def enc_wf_def)

section \<open>Encoding and decoding are inverse\<close>

text \<open>Sequences of calls of the encoder and of the decoder, as the entities make them.\<close>

fun put_fields :: "nr_rlc_pdu_encoder_t \<Rightarrow> (int \<times> nat) list \<Rightarrow> nr_rlc_pdu_encoder_t res" where
  "put_fields e [] = Inr e"
| "put_fields e ((v, n) # fs) = bindE (nr_rlc_pdu_encoder_put_bits e v n) (\<lambda>e. put_fields e fs)"

fun get_fields :: "nr_rlc_pdu_decoder_t \<Rightarrow> nat list \<Rightarrow> int list option res" where
  "get_fields d [] = Inr (Some [])"
| "get_fields d (n # ns) =
     get_bits_R d n (Inr None)
       (\<lambda>v d. bindE (get_fields d ns) (\<lambda>r. Inr (map_option ((#) v) r)))"

definition field_bits :: "(int \<times> nat) list \<Rightarrow> bool list" where
  "field_bits fs = concat (map (\<lambda>(v, n). msb_bits n v) fs)"

definition field_ok :: "int \<times> nat \<Rightarrow> bool" where
  "field_ok f \<longleftrightarrow> snd f \<le> 31 \<and> 0 \<le> fst f \<and> fst f < 2 ^ snd f"

lemma field_bits_simps [simp]:
  "field_bits [] = []" "field_bits ((v, n) # fs) = msb_bits n v @ field_bits fs"
  by (simp_all add: field_bits_def)

lemma length_field_bits: "length (field_bits fs) = sum_list (map snd fs)"
  by (induction fs) (auto simp: field_bits_def)

lemma put_fields_width:
  assumes "enc_wf e" and "list_all (\<lambda>f. snd f \<le> 31) fs"
    and "enc_pos e + length (field_bits fs) \<le> 8 * enc_size e"
  shows "\<exists>e'. put_fields e fs = Inr e' \<and> enc_ext e (field_bits fs) e'"
  using assms
proof (induction fs arbitrary: e)
  case Nil
  then show ?case by (simp add: enc_ext_refl)
next
  case (Cons f fs)
  obtain v n where f: "f = (v, n)" by force
  obtain e1 where e1: "nr_rlc_pdu_encoder_put_bits e v n = Inr e1" "enc_ext e (msb_bits n v) e1"
    using put_bits_ok[of e n v] Cons.prems f by auto
  then obtain e2 where e2: "put_fields e1 fs = Inr e2" "enc_ext e1 (field_bits fs) e2"
    using Cons.IH[of e1] Cons.prems f by (auto simp: enc_ext_def)
  have "enc_ext e (msb_bits n v @ field_bits fs) e2"
    using e1(2) e2(2) by (rule enc_ext_trans)
  then show ?case using e1 e2 f by auto
qed

lemma put_fields_ok:
  assumes "enc_wf e" and "list_all field_ok fs"
    and "enc_pos e + length (field_bits fs) \<le> 8 * enc_size e"
  shows "\<exists>e'. put_fields e fs = Inr e' \<and> enc_ext e (field_bits fs) e'"
  using assms by (intro put_fields_width) (auto simp: field_ok_def list_all_iff)

lemma get_fields_ok:
  assumes "dec_wf d" and "list_all field_ok fs" and "dec_rest d = field_bits fs @ r"
  shows "get_fields d (map snd fs) = Inr (Some (map fst fs))"
  using assms
proof (induction fs arbitrary: d)
  case (Cons f fs)
  obtain v n where f: "f = (v, n)" by force
  have le: "n \<le> length (dec_rest d)" and n31: "n \<le> 31" and v: "bits_val 0 (msb_bits n v) = v"
    using Cons.prems f by (auto simp: field_ok_def intro: bits_val_roundtrip)
  have "take n (dec_rest d) = msb_bits n v" using Cons.prems(3) f by simp
  moreover have "get_fields (dec_at d (dec_pos d + n)) (map snd fs) = Inr (Some (map fst fs))"
    using Cons.prems f le by (intro Cons.IH) (auto simp: dec_at_rest dec_at_wf_rest)
  ultimately show ?case
    using f v by (simp add: get_bits_R_ok[OF Cons.prems(1) n31 le])
qed simp

lemma enc_aligned_prefix:
  assumes "enc_pos e = 8 * k" and "enc_wf e"
  shows "enc_byte e = k \<and> bytes_bits (take k (enc_buffer e)) = enc_written e"
proof -
  have "8 * enc_byte e + enc_bit e = 8 * k" "enc_bit e < 8"
    using assms by (auto simp: enc_pos_def enc_wf_def)
  then have "enc_byte e = k" "enc_bit e = 0" by presburger+
  then show ?thesis by (simp add: enc_written_def)
qed

text \<open>A whole header written at the start of a buffer.\<close>

lemma put_header_ok:
  assumes "list_all field_ok fs" and "sum_list (map snd fs) = 8 * k" and "k \<le> length buf"
  shows "\<exists>e. put_fields (nr_rlc_pdu_encoder_init buf (length buf)) fs = Inr e \<and> enc_byte e = k
    \<and> length (enc_buffer e) = length buf \<and> bytes_bits (take k (enc_buffer e)) = field_bits fs"
proof -
  let ?e0 = "nr_rlc_pdu_encoder_init buf (length buf)"
  obtain e where e: "put_fields ?e0 fs = Inr e" "enc_ext ?e0 (field_bits fs) e"
    using put_fields_ok[of ?e0 fs] assms by (auto simp: length_field_bits)
  then have "enc_byte e = k \<and> bytes_bits (take k (enc_buffer e)) = field_bits fs"
    using enc_aligned_prefix[of e k] assms(2) by (simp add: enc_ext_def length_field_bits)
  moreover have "length (enc_buffer e) = length buf" using e(2) by (simp add: enc_ext_def enc_wf_def)
  ultimately show ?thesis using e(1) by blast
qed

text \<open>Reading one field of a header.\<close>

lemma get_bits_R_field:
  assumes "dec_wf d" and "dec_rest d = msb_bits n v @ r" and "n \<le> 31" and "0 \<le> v" and "v < 2 ^ n"
  shows "get_bits_R d n err k = k v (dec_at d (dec_pos d + n))"
    and "dec_rest (dec_at d (dec_pos d + n)) = r" and "dec_wf (dec_at d (dec_pos d + n))"
proof -
  have le: "n \<le> length (dec_rest d)" using assms(2) by simp
  show "get_bits_R d n err k = k v (dec_at d (dec_pos d + n))"
    using get_bits_R_ok[OF assms(1,3) le, of err k] assms by (simp add: bits_val_roundtrip)
  show "dec_rest (dec_at d (dec_pos d + n)) = r" using assms(2) by (simp add: dec_at_rest)
  show "dec_wf (dec_at d (dec_pos d + n))" using dec_at_wf_rest[OF assms(1) le] .
qed

text \<open>
  Property C26. A header of fields that fit their widths and fill whole bytes is written into any
  large enough buffer without stopping the program, and decoding that buffer with the same widths
  gives the same field values back.
\<close>

theorem codec_roundtrip:
  assumes "list_all field_ok fs" and "sum_list (map snd fs) = 8 * k" and "k \<le> length buf"
  shows "\<exists>e. put_fields (nr_rlc_pdu_encoder_init buf (length buf)) fs = Inr e \<and> enc_byte e = k
    \<and> get_fields (nr_rlc_pdu_decoder_init (enc_buffer e) (length (enc_buffer e))) (map snd fs)
      = Inr (Some (map fst fs))"
proof -
  obtain e where e: "put_fields (nr_rlc_pdu_encoder_init buf (length buf)) fs = Inr e" "enc_byte e = k"
    "bytes_bits (take k (enc_buffer e)) = field_bits fs"
    using put_header_ok[OF assms] by blast
  have "bytes_bits (enc_buffer e) = field_bits fs @ bytes_bits (drop k (enc_buffer e))"
    using e(3) by (metis append_take_drop_id bytes_bits_simps(3))
  then have "get_fields (nr_rlc_pdu_decoder_init (enc_buffer e) (length (enc_buffer e))) (map snd fs)
      = Inr (Some (map fst fs))"
    using assms(1) by (intro get_fields_ok[where r = "bytes_bits (drop k (enc_buffer e))"]) auto
  with e show ?thesis by blast
qed

theorem codec_roundtrip_witness:
  "list_all field_ok [(1, 1), (0, 1), (2, 2), (0xabc, 12)]
   \<and> (\<exists>e. put_fields (nr_rlc_pdu_encoder_init [0, 255, 7] 3) [(1, 1), (0, 1), (2, 2), (0xabc, 12)] = Inr e
       \<and> enc_byte e = 2
       \<and> get_fields (nr_rlc_pdu_decoder_init (enc_buffer e) (length (enc_buffer e))) [1, 1, 2, 12]
         = Inr (Some [1, 0, 2, 0xabc]))"
proof -
  have ok: "list_all field_ok [(1, 1), (0, 1), (2, 2), (0xabc, 12)]"
    by (simp add: field_ok_def)
  from codec_roundtrip[OF ok, of 2 "[0, 255, 7]"] ok show ?thesis
    by (simp add: numeral_3_eq_3 del: put_fields.simps get_fields.simps)
qed

text \<open>
  Property C31. Reading past the end of a PDU is always caught: the decoder goes into the error
  state exactly when fewer bits are left than asked for, and otherwise returns a value that fits
  the width and advances by exactly that width.
\<close>

theorem decoder_error_iff:
  assumes "dec_wf d" and "n \<le> 31"
  shows "\<exists>v d'. nr_rlc_pdu_decoder_get_bits d n = Inr (v, d')
    \<and> (dec_error d' \<longleftrightarrow> 8 * dec_size d < dec_pos d + n)
    \<and> (\<not> dec_error d' \<longrightarrow> 0 \<le> v \<and> v < 2 ^ n \<and> dec_pos d' = dec_pos d + n \<and> dec_wf d')
    \<and> (dec_error d' \<longrightarrow> v = -1)"
proof (cases "n \<le> length (dec_rest d)")
  case True
  then have "dec_pos d + n \<le> 8 * dec_size d"
    using dec_rest_length[OF assms(1)] assms(1) by (auto simp: dec_wf_def)
  moreover have "bits_val 0 (take n (dec_rest d)) < 2 ^ n"
    using bits_val_less[of "take n (dec_rest d)"] True by (simp add: min.absorb2)
  ultimately show ?thesis
    using assms get_bits_loop_ok[OF assms(1) True, of 0] dec_at_wf_rest[OF assms(1) True]
    by (auto simp: nr_rlc_pdu_decoder_get_bits_def bits_val_nonneg dec_wf_def)
next
  case False
  then have "8 * dec_size d < dec_pos d + n"
    using dec_rest_length[OF assms(1)] by simp
  then show ?thesis
    using assms get_bits_loop_short[of d n 0] False
    by (cases "get_bits_loop n 0 d") (auto simp: nr_rlc_pdu_decoder_get_bits_def)
qed

theorem decoder_error_iff_witness:
  "dec_wf (nr_rlc_pdu_decoder_init [0xa5] 1)
   \<and> (\<exists>v d'. nr_rlc_pdu_decoder_get_bits (nr_rlc_pdu_decoder_init [0xa5] 1) 9 = Inr (v, d')
      \<and> dec_error d' \<and> v = -1)"
proof -
  have wf: "dec_wf (nr_rlc_pdu_decoder_init [0xa5] 1)"
    using decoder_init_simps(3)[of "[0xa5]"] by simp
  from decoder_error_iff[OF wf, of 9] wf show ?thesis by auto
qed

end
