(* ===== verification/RLC_Segments.thy ===== *)
theory RLC_Segments
  imports RLC_Entity_Common RLC_Pdu
begin

text \<open>
  The loops over the received segments of one SDU, sorted by SO. \<open>nr_rlc_entity_am.c\<close> and
  \<open>nr_rlc_entity_um.c\<close> contain the same code twice (\<open>sdu_full\<close>, \<open>sdu_delivered\<close>,
  \<open>sdu_has_missing_bytes\<close>, \<open>reassemble_and_deliver\<close>); \<open>segment_already_received\<close> is in AM only.
  The AM entity runs them on the slot list of its rx manager, the UM entity on the part of its
  reception list with the wanted SN.

  The theorems at the end show what they are for: if the segments are pieces of one SDU, then
  "full" means that every byte is there, reassembly gives exactly that SDU without reading outside
  any segment, and a segment is recognised as a duplicate only if each of its bytes was received.
\<close>

fun segment_received_loop :: "nr_rlc_pdu_t list \<Rightarrow> int \<Rightarrow> int \<Rightarrow> bool" where
  "segment_received_loop [] so n = (n \<le> 0)"
| "segment_received_loop (l # ls) so n =
     (if n > 0 then
        if pdu_so l \<le> so \<and> so < pdu_so l + pdu_size l then
          let covered = pdu_size l - (so - pdu_so l)
          in segment_received_loop ls (so + covered) (n - covered)
        else if pdu_so l \<le> so + n - 1 \<and> so + n - 1 < pdu_so l + pdu_size l then
          let covered = n - (pdu_so l - so)
          in segment_received_loop ls so (n - covered)
        else segment_received_loop ls so n
      else True)"

fun sdu_full_loop :: "nr_rlc_pdu_t list \<Rightarrow> int \<Rightarrow> bool" where
  "sdu_full_loop [] last_byte = False"
| "sdu_full_loop (l # ls) last_byte =
     (if pdu_so l > last_byte + 1 then False
      else if pdu_is_last l then True
      else
        let new_last_byte = pdu_so l + pdu_size l - 1
        in sdu_full_loop ls (if new_last_byte > last_byte then new_last_byte else last_byte))"

text \<open>\<open>l != NULL && l->data == NULL\<close>\<close>

definition pdus_processed :: "nr_rlc_pdu_t list \<Rightarrow> bool" where
  "pdus_processed l = (case l of [] \<Rightarrow> False | p # _ \<Rightarrow> pdu_data p = None)"

fun missing_bytes_loop :: "nr_rlc_pdu_t list \<Rightarrow> int \<Rightarrow> bool" where
  "missing_bytes_loop [] last_byte = False"
| "missing_bytes_loop (l # ls) last_byte =
     (if pdu_so l > last_byte + 1 then True
      else
        let new_last_byte = pdu_so l + pdu_size l - 1
        in missing_bytes_loop ls (if new_last_byte > last_byte then new_last_byte else last_byte))"

text \<open>
  The reassembly loop. \<open>acc\<close> is the part of the local array \<open>sdu\<close> filled so far (\<open>so\<close> is its
  length), \<open>rxs\<close> the running value of \<open>entity->rx_size\<close>.
\<close>

fun reassemble_loop :: "nr_rlc_pdu_t list \<Rightarrow> buffer \<Rightarrow> bool \<Rightarrow> int \<Rightarrow> (buffer \<times> bool \<times> int) res" where
  "reassemble_loop [] acc bad_sdu rxs = Inr (acc, bad_sdu, rxs)"
| "reassemble_loop (p # ps) acc bad_sdu rxs =
     (let so = int (length acc);
          len = pdu_size p - (so - pdu_so p);
          bad_sdu = (bad_sdu \<or> so + len > NR_SDU_MAX)
      in bindE
           (if \<not> bad_sdu \<and> len > 0 then
              case pdu_data p of
                None \<Rightarrow> Inl Null_Deref
              | Some d \<Rightarrow> bindE (mem_read d (so - pdu_so p) len) (\<lambda>bytes. Inr (acc @ bytes))
            else Inr acc)
           (\<lambda>acc. reassemble_loop ps acc bad_sdu (rxs - pdu_size p)))"

section \<open>Pieces of an SDU\<close>

text \<open>The byte with offset \<open>i\<close> is in the PDU.\<close>

definition covers :: "nr_rlc_pdu_t \<Rightarrow> int \<Rightarrow> bool" where
  "covers p i \<longleftrightarrow> pdu_so p \<le> i \<and> i < pdu_so p + pdu_size p"

text \<open>What a peer that segments the SDU \<open>D\<close> can send: a non-empty range with its position flags.\<close>

definition piece_of :: "buffer \<Rightarrow> nr_rlc_pdu_t \<Rightarrow> bool" where
  "piece_of D p \<longleftrightarrow> 0 \<le> pdu_so p \<and> 0 < pdu_size p \<and> pdu_so p + pdu_size p \<le> int (length D)
     \<and> pdu_data p = Some (take (nat (pdu_size p)) (drop (nat (pdu_so p)) D))
     \<and> (pdu_is_first p \<longleftrightarrow> pdu_so p = 0)
     \<and> (pdu_is_last p \<longleftrightarrow> pdu_so p + pdu_size p = int (length D))"

definition all_covered :: "nr_rlc_pdu_t list \<Rightarrow> int \<Rightarrow> int \<Rightarrow> bool" where
  "all_covered l a b \<longleftrightarrow> (\<forall>i. a \<le> i \<and> i < b \<longrightarrow> (\<exists>p \<in> set l. covers p i))"

lemma all_covered_mono: "all_covered l a b \<Longrightarrow> a \<le> a' \<Longrightarrow> b' \<le> b \<Longrightarrow> all_covered l a' b'"
  by (auto simp: all_covered_def)

lemma all_covered_empty [simp]: "b \<le> a \<Longrightarrow> all_covered l a b"
  by (auto simp: all_covered_def)

lemma all_covered_Cons:
  assumes "pdu_so p \<le> a"
  shows "all_covered (p # l) a b \<longleftrightarrow> all_covered l (max a (pdu_so p + pdu_size p)) b"
  using assms by (force simp: all_covered_def covers_def)

lemma all_covered_head:
  assumes "sorted (map pdu_so (p # l))" and "all_covered (p # l) a b" and "a < b"
  shows "pdu_so p \<le> a"
proof -
  obtain q where "q \<in> set (p # l)" "covers q a" using assms(2,3) by (auto simp: all_covered_def)
  then show ?thesis using assms(1) by (auto simp: covers_def)
qed

text \<open>
  Reception of the segments of one SDU is complete exactly when every byte is covered, however the
  segments overlap.
\<close>

lemma sdu_full_iff:
  assumes "sorted (map pdu_so l)" and "list_all (piece_of D) l" and "lb + 1 < int (length D)"
  shows "sdu_full_loop l lb \<longleftrightarrow> all_covered l (lb + 1) (int (length D))"
  using assms
proof (induction l arbitrary: lb)
  case Nil
  then show ?case by (auto simp: all_covered_def)
next
  case (Cons p l)
  let ?n = "int (length D)" and ?stop = "pdu_so p + pdu_size p - 1"
  have p: "piece_of D p" using Cons.prems(2) by simp
  show ?case
  proof (cases "pdu_so p \<le> lb + 1")
    case False
    then show ?thesis using all_covered_head[OF Cons.prems(1) _ Cons.prems(3)] by auto
  next
    case le: True
    show ?thesis
    proof (cases "pdu_is_last p")
      case True
      then show ?thesis using le p by (auto simp: all_covered_Cons[OF le] piece_of_def)
    next
      case False
      let ?lb = "if ?stop > lb then ?stop else lb"
      have m: "max (lb + 1) (pdu_so p + pdu_size p) = ?lb + 1" by auto
      have "?lb + 1 < ?n" using p False Cons.prems(3) by (auto simp: piece_of_def)
      then have "sdu_full_loop l ?lb = all_covered l (?lb + 1) ?n"
        using Cons by (intro Cons.IH) auto
      then show ?thesis using le False m by (simp add: all_covered_Cons[OF le] Let_def)
    qed
  qed
qed

text \<open>The space accounting of reassembly, whatever the segments are.\<close>

lemma reassemble_rx_size:
  "reassemble_loop l acc bad rxs = Inr (sdu, bad', rxs') \<Longrightarrow>
   rxs' = rxs - sum_list (map pdu_size l)"
proof (induction l arbitrary: acc bad rxs)
  case (Cons p l)
  then obtain acc' bad'' where "reassemble_loop l acc' bad'' (rxs - pdu_size p) = Inr (sdu, bad', rxs')"
    by (auto simp: bindE_eq_Inr Let_def)
  then show ?case using Cons.IH by fastforce
qed simp

lemma reassemble_max:
  "reassemble_loop l acc bad rxs = Inr (sdu, False, rxs') \<Longrightarrow> int (length acc) \<le> NR_SDU_MAX \<Longrightarrow>
   int (length sdu) \<le> NR_SDU_MAX"
proof (induction l arbitrary: acc bad rxs)
  case (Cons p l)
  let ?so = "int (length acc)" and ?len = "pdu_size p - (int (length acc) - pdu_so p)"
  from Cons.prems(1) obtain acc' where
    acc': "(if \<not> (bad \<or> ?so + ?len > NR_SDU_MAX) \<and> ?len > 0 then
              case pdu_data p of None \<Rightarrow> Inl Null_Deref
              | Some d \<Rightarrow> bindE (mem_read d (?so - pdu_so p) ?len) (\<lambda>bytes. Inr (acc @ bytes))
            else Inr acc) = Inr acc'"
    and rest: "reassemble_loop l acc' (bad \<or> ?so + ?len > NR_SDU_MAX) (rxs - pdu_size p) = Inr (sdu, False, rxs')"
    by (auto simp: bindE_eq_Inr Let_def)
  have "int (length acc') \<le> NR_SDU_MAX"
    using acc' Cons.prems(2)
    by (auto simp: bindE_eq_Inr split: if_splits option.splits dest!: mem_read_length)
  then show ?case using Cons.IH[OF rest] by simp
qed simp

text \<open>One segment appended by the reassembly loop.\<close>

lemma piece_append:
  assumes "piece_of D p" and "pdu_so p \<le> int a" and "int a < pdu_so p + pdu_size p"
  shows "\<exists>d bytes. pdu_data p = Some d
    \<and> mem_read d (int a - pdu_so p) (pdu_size p - (int a - pdu_so p)) = Inr bytes
    \<and> take a D @ bytes = take (nat (pdu_so p + pdu_size p)) D"
proof -
  define s where "s = nat (pdu_so p)"
  define n where "n = nat (pdu_size p)"
  have sn: "pdu_so p = int s" "pdu_size p = int n" "s + n \<le> length D" "s \<le> a" "a < s + n"
    using assms by (auto simp: piece_of_def s_def n_def)
  let ?d = "take n (drop s D)"
  have "pdu_data p = Some ?d" using assms(1) by (simp add: piece_of_def s_def n_def)
  moreover have "mem_read ?d (int a - pdu_so p) (pdu_size p - (int a - pdu_so p))
      = Inr (take (s + n - a) (drop (a - s) ?d))"
  proof -
    have "nat (pdu_size p - (int a - pdu_so p)) = s + n - a" "nat (int a - pdu_so p) = a - s"
      using sn by auto
    then show ?thesis using sn by (simp add: mem_read_ok)
  qed
  moreover have "take (s + n - a) (drop (a - s) ?d) = take (s + n - a) (drop a D)"
    using sn by (simp add: drop_take)
  moreover have "take a D @ take (s + n - a) (drop a D) = take (s + n) D"
    using sn(5) take_add[of a "s + n - a" D] by simp
  moreover have "nat (pdu_so p + pdu_size p) = s + n" using sn by simp
  ultimately show ?thesis by metis
qed

lemma reassemble_pieces:
  assumes "sorted (map pdu_so l)" and "list_all (piece_of D) l" and "a \<le> length D"
    and "all_covered l (int a) (int (length D))" and "int (length D) \<le> NR_SDU_MAX"
  shows "reassemble_loop l (take a D) False rxs = Inr (D, False, rxs - sum_list (map pdu_size l))"
  using assms
proof (induction l arbitrary: a rxs)
  case Nil
  then have "\<not> a < length D" by (auto simp: all_covered_def)
  then show ?case using Nil by simp
next
  case (Cons p l)
  have p: "piece_of D p" using Cons.prems(2) by simp
  have la: "int (length (take a D)) = int a" using Cons.prems(3) by simp
  have small: "\<not> int a + (pdu_size p - (int a - pdu_so p)) > NR_SDU_MAX"
    using p Cons.prems(5) by (simp add: piece_of_def)
  show ?case
  proof (cases "int a < pdu_so p + pdu_size p")
    case new: True
    then have lt: "a < length D" using p by (auto simp: piece_of_def)
    have so: "pdu_so p \<le> int a"
      using all_covered_head[OF Cons.prems(1,4)] lt by simp
    obtain d bytes where d: "pdu_data p = Some d"
      "mem_read d (int a - pdu_so p) (pdu_size p - (int a - pdu_so p)) = Inr bytes"
      "take a D @ bytes = take (nat (pdu_so p + pdu_size p)) D"
      using piece_append[OF p so new] by blast
    let ?a = "nat (pdu_so p + pdu_size p)"
    have mx: "max (int a) (pdu_so p + pdu_size p) = int ?a" using new by simp
    have "reassemble_loop l (take ?a D) False (rxs - pdu_size p)
        = Inr (D, False, rxs - pdu_size p - sum_list (map pdu_size l))"
      using Cons.prems p all_covered_Cons[OF so] mx
      by (intro Cons.IH) (auto simp: piece_of_def)
    then show ?thesis
      using la small d new by (simp add: Let_def algebra_simps)
  next
    case False
    have "all_covered l (int a) (int (length D))"
    proof (cases "a < length D")
      case True
      then have "pdu_so p \<le> int a" using all_covered_head[OF Cons.prems(1,4)] by simp
      then show ?thesis using Cons.prems(4) False by (simp add: all_covered_Cons max_def)
    qed simp
    then have "reassemble_loop l (take a D) False (rxs - pdu_size p)
        = Inr (D, False, rxs - pdu_size p - sum_list (map pdu_size l))"
      using Cons.prems by (intro Cons.IH) auto
    then show ?thesis
      using la small False by (simp add: Let_def algebra_simps)
  qed
qed

section \<open>Duplicates\<close>

text \<open>A segment counted as already received has every byte in some received segment.\<close>

lemma segment_received_sound:
  "segment_received_loop l so n \<Longrightarrow> all_covered l so (so + n)"
proof (induction l so n rule: segment_received_loop.induct)
  case (1 so n)
  then show ?case by simp
next
  case (2 p l so n)
  let ?s = "pdu_so p" and ?e = "pdu_so p + pdu_size p"
  consider (none) "n \<le> 0" | (front) "n > 0" "?s \<le> so" "so < ?e"
    | (rear) "n > 0" "\<not> (?s \<le> so \<and> so < ?e)" "?s \<le> so + n - 1" "so + n - 1 < ?e"
    | (skip) "n > 0" "\<not> (?s \<le> so \<and> so < ?e)" "\<not> (?s \<le> so + n - 1 \<and> so + n - 1 < ?e)"
    by linarith
  then show ?case
  proof cases
    case none
    then show ?thesis by simp
  next
    case front
    then have "all_covered l (so + (pdu_size p - (so - ?s)))
        (so + (pdu_size p - (so - ?s)) + (n - (pdu_size p - (so - ?s))))"
      using 2 by (simp add: Let_def)
    then have "all_covered l ?e (so + n)" by (simp add: add.commute)
    then show ?thesis using front by (simp add: all_covered_Cons max_def)
  next
    case rear
    then have "all_covered l so (so + (n - (n - (?s - so))))"
      using 2 by (simp add: Let_def)
    then have "all_covered l so ?s" by simp
    then show ?thesis using rear by (force simp: all_covered_def covers_def)
  next
    case skip
    then have "all_covered l so (so + n)" using 2 by auto
    then show ?thesis by (auto simp: all_covered_def)
  qed
qed

text \<open>A segment inside one received segment, in particular an exact repetition, is recognised.\<close>

lemma segment_received_nonpos [simp]: "n \<le> 0 \<Longrightarrow> segment_received_loop l so n"
  by (cases l) auto

lemma segment_received_inside:
  assumes "p \<in> set l" and "pdu_so p \<le> so" and "so + n \<le> pdu_so p + pdu_size p"
  shows "segment_received_loop l so n"
  using assms
proof (induction l so n rule: segment_received_loop.induct)
  case (2 q l so n)
  then show ?case by (auto simp: Let_def)
qed auto

end
