(* ===== verification/RLC_Um.thy ===== *)
theory RLC_Um
  imports RLC_Segments
begin

text \<open>
  Model of the unacknowledged-mode entity (\<open>nr_rlc_entity_um.c\<close>), in the order of the source.
  Received segments are kept in one list sorted by SN and SO; the base of the SN order moves with
  \<open>rx_next_highest\<close>.
\<close>

record nr_rlc_entity_um_t = nr_rlc_entity_t +
  um_t_reassembly :: int
  um_sn_field_length :: nat
  um_sn_modulus :: int
  um_window_size :: int
  um_rx_next_highest :: int
  um_rx_next_reassembly :: int
  um_rx_timer_trigger :: int
  um_tx_next :: int
  um_t_current :: u64
  um_t_log_buffer_full :: u64
  um_sdu_rejected :: int
  um_t_reassembly_start :: u64
  um_rx_list :: "nr_rlc_pdu_t list"
  um_rx_size :: int
  um_rx_maxsize :: int
  um_tx_list :: "nr_rlc_sdu_segment_t list"
  um_tx_size :: int
  um_tx_maxsize :: int

text \<open>The constructor, \<open>new_nr_rlc_entity_um\<close> of \<open>nr_rlc_entity.c\<close>.\<close>

definition new_nr_rlc_entity_um :: "int \<Rightarrow> int \<Rightarrow> int \<Rightarrow> nat \<Rightarrow> nr_rlc_entity_um_t res" where
  "new_nr_rlc_entity_um rx_maxsize tx_maxsize t_reassembly sn_field_length =
     (if sn_field_length \<noteq> 6 \<and> sn_field_length \<noteq> 12 then Inl Assert_Fatal
      else
        let sn_modulus = push_bit sn_field_length 1 in
        Inr \<lparr>bstatus = \<lparr>bs_status_size = 0, bs_tx_size = 0, bs_retx_size = 0\<rparr>,
             stats = zero_stats NR_RLC_UM, avg_time_is_on = False, events = [], store = empty_store,
             um_t_reassembly = t_reassembly, um_sn_field_length = sn_field_length,
             um_sn_modulus = sn_modulus, um_window_size = sn_modulus div 2,
             um_rx_next_highest = 0, um_rx_next_reassembly = 0, um_rx_timer_trigger = 0, um_tx_next = 0,
             um_t_current = 0, um_t_log_buffer_full = 0, um_sdu_rejected = 0, um_t_reassembly_start = 0,
             um_rx_list = [], um_rx_size = 0, um_rx_maxsize = rx_maxsize,
             um_tx_list = [], um_tx_size = 0, um_tx_maxsize = tx_maxsize\<rparr>)"

definition um_compute_pdu_header_size :: "nr_rlc_entity_um_t \<Rightarrow> nr_rlc_sdu_segment_t \<Rightarrow> int" where
  "um_compute_pdu_header_size e g =
     1 + (if \<not> (seg_is_first g \<and> seg_is_last g) \<and> um_sn_field_length e = 12 then 1 else 0)
       + (if \<not> seg_is_first g then 2 else 0)"

section \<open>PDU RX functions\<close>

definition um_modulus_rx :: "nr_rlc_entity_um_t \<Rightarrow> int \<Rightarrow> int" where
  "um_modulus_rx e a =
     (let r = a - (um_rx_next_highest e - um_window_size e);
          r = (if r < 0 then r + um_sn_modulus e else r)
      in r mod um_sn_modulus e)"

definition um_sn_compare_rx :: "nr_rlc_entity_um_t \<Rightarrow> int \<Rightarrow> int \<Rightarrow> int" where
  "um_sn_compare_rx e a b = um_modulus_rx e a - um_modulus_rx e b"

text \<open>The walk to the first PDU with the wanted SN, and the PDUs with that SN from there.\<close>

definition um_find_sn :: "nr_rlc_pdu_t list \<Rightarrow> int \<Rightarrow> nr_rlc_pdu_t list" where
  "um_find_sn l sn = dropWhile (\<lambda>p. pdu_sn p \<noteq> sn) l"

definition um_group :: "nr_rlc_pdu_t list \<Rightarrow> int \<Rightarrow> nr_rlc_pdu_t list" where
  "um_group l sn = takeWhile (\<lambda>p. pdu_sn p = sn) (um_find_sn l sn)"

definition um_sdu_full :: "nr_rlc_entity_um_t \<Rightarrow> int \<Rightarrow> bool" where
  "um_sdu_full e sn =
     (if pdus_processed (um_find_sn (um_rx_list e) sn) then False
      else sdu_full_loop (um_group (um_rx_list e) sn) (-1))"

definition um_sdu_delivered :: "nr_rlc_entity_um_t \<Rightarrow> int \<Rightarrow> bool" where
  "um_sdu_delivered e sn = pdus_processed (um_find_sn (um_rx_list e) sn)"

definition um_sdu_has_missing_bytes :: "nr_rlc_entity_um_t \<Rightarrow> int \<Rightarrow> bool" where
  "um_sdu_has_missing_bytes e sn =
     (if pdus_processed (um_find_sn (um_rx_list e) sn) then False
      else missing_bytes_loop (um_group (um_rx_list e) sn) (-1))"

text \<open>In-place change of the segments of one SN.\<close>

definition um_map_group ::
    "(nr_rlc_pdu_t \<Rightarrow> nr_rlc_pdu_t) \<Rightarrow> nr_rlc_pdu_t list \<Rightarrow> int \<Rightarrow> nr_rlc_pdu_t list" where
  "um_map_group f l sn =
     takeWhile (\<lambda>p. pdu_sn p \<noteq> sn) l @ map f (um_group l sn)
     @ dropWhile (\<lambda>p. pdu_sn p = sn) (um_find_sn l sn)"

definition um_reassemble_and_deliver :: "nr_rlc_entity_um_t \<Rightarrow> int \<Rightarrow> nr_rlc_entity_um_t res" where
  "um_reassemble_and_deliver e sn =
     (if um_find_sn (um_rx_list e) sn = [] then Inl Null_Deref
      else
        bindE (reassemble_loop (um_group (um_rx_list e) sn) [] False (um_rx_size e)) (\<lambda>(sdu, bad_sdu, rxs).
          let e = e\<lparr>um_rx_list := um_map_group (\<lambda>p. p\<lparr>pdu_data := None, pdu_size := 0\<rparr>) (um_rx_list e) sn,
                    um_rx_size := rxs\<rparr>
          in if bad_sdu then Inr e
             else Inr (upd_stats (count_txsdu (int (length sdu))) (emit (Deliver_Sdu sdu) e))))"

text \<open>\<open>while (sdu_delivered(entity, sn)) sn = (sn + 1) % entity->sn_modulus;\<close>\<close>

definition um_skip_delivered :: "nr_rlc_entity_um_t \<Rightarrow> int \<Rightarrow> int option" where
  "um_skip_delivered e sn =
     skip_while (\<lambda>sn. um_sdu_delivered e sn) (um_sn_modulus e) sn"

definition um_set_next_reassembly :: "nr_rlc_entity_um_t \<Rightarrow> int \<Rightarrow> nr_rlc_entity_um_t res" where
  "um_set_next_reassembly e sn =
     (case um_skip_delivered e sn of
        None \<Rightarrow> Inl Diverges
      | Some sn' \<Rightarrow> Inr (e\<lparr>um_rx_next_reassembly := sn'\<rparr>))"

text \<open>The two loops that discard PDUs from the head of the reception list.\<close>

fun um_discard_outside :: "nr_rlc_pdu_t list \<Rightarrow> nr_rlc_entity_um_t \<Rightarrow> nr_rlc_entity_um_t" where
  "um_discard_outside [] e = e\<lparr>um_rx_list := []\<rparr>"
| "um_discard_outside (p # ps) e =
     (if um_sn_compare_rx e (pdu_sn p) (um_rx_next_highest e) \<ge> 0 then
        um_discard_outside ps
          (upd_stats (\<lambda>s. count_rxpdu_ow (pdu_size p) (count_rxpdu_dd (pdu_size p) s))
            (e\<lparr>um_rx_size := um_rx_size e - pdu_size p\<rparr>))
      else e\<lparr>um_rx_list := p # ps\<rparr>)"

fun um_discard_before :: "nr_rlc_pdu_t list \<Rightarrow> nr_rlc_entity_um_t \<Rightarrow> nr_rlc_entity_um_t" where
  "um_discard_before [] e = e\<lparr>um_rx_list := []\<rparr>"
| "um_discard_before (p # ps) e =
     (if um_sn_compare_rx e (pdu_sn p) (um_rx_next_reassembly e) < 0 then
        um_discard_before ps (upd_stats (count_rxpdu_dd (pdu_size p)) e)
      else e\<lparr>um_rx_list := p # ps\<rparr>)"

text \<open>The branch "SDU not full" for an SN at or above \<open>rx_next_highest\<close>.\<close>

definition um_extend_window :: "nr_rlc_entity_um_t \<Rightarrow> int \<Rightarrow> nr_rlc_entity_um_t res" where
  "um_extend_window e x =
     (let e = e\<lparr>um_rx_next_highest := (x + 1) mod um_sn_modulus e\<rparr>;
          e = um_discard_outside (um_rx_list e) e
      in if um_sn_compare_rx e (um_rx_next_reassembly e) (um_rx_next_highest e) \<ge> 0
         then um_set_next_reassembly e
                ((um_rx_next_highest e - um_window_size e + um_sn_modulus e) mod um_sn_modulus e)
         else Inr e)"

definition um_update_t_reassembly :: "nr_rlc_entity_um_t \<Rightarrow> nr_rlc_entity_um_t" where
  "um_update_t_reassembly e =
     (let v = (um_rx_next_reassembly e + 1) mod um_sn_modulus e;
          e = (if um_t_reassembly_start e \<noteq> 0
                  \<and> (um_sn_compare_rx e (um_rx_timer_trigger e) (um_rx_next_reassembly e) \<le> 0
                     \<or> um_sn_compare_rx e (um_rx_timer_trigger e) (um_rx_next_highest e) > 0
                     \<or> (um_rx_next_highest e = v
                        \<and> \<not> um_sdu_has_missing_bytes e (um_rx_next_reassembly e)))
               then e\<lparr>um_t_reassembly_start := 0\<rparr> else e)
      in if um_t_reassembly_start e = 0
            \<and> (um_sn_compare_rx e (um_rx_next_highest e) v > 0
               \<or> (um_rx_next_highest e = v \<and> um_sdu_has_missing_bytes e (um_rx_next_reassembly e)))
         then e\<lparr>um_t_reassembly_start := um_t_current e, um_rx_timer_trigger := um_rx_next_highest e\<rparr>
         else e)"

definition um_reception_actions :: "nr_rlc_entity_um_t \<Rightarrow> nr_rlc_pdu_t \<Rightarrow> nr_rlc_entity_um_t res" where
  "um_reception_actions e pdu =
     (let x = pdu_sn pdu in
      bindE
        (if um_sdu_full e x then
           bindE (um_reassemble_and_deliver e x) (\<lambda>e.
             if x = um_rx_next_reassembly e then um_set_next_reassembly e (um_rx_next_reassembly e)
             else Inr e)
         else if um_sn_compare_rx e x (um_rx_next_highest e) \<ge> 0 then um_extend_window e x
         else Inr e)
        (\<lambda>e. Inr (um_update_t_reassembly e)))"

text \<open>Label \<open>discard\<close>.\<close>

definition um_discard :: "int \<Rightarrow> nr_rlc_entity_um_t \<Rightarrow> nr_rlc_entity_um_t res" where
  "um_discard n e = Inr (upd_stats (count_rxpdu_dd n) e)"

text \<open>From \<open>data_size = size - decoder.byte\<close> to the end of the function.\<close>

definition um_recv_data ::
    "nr_rlc_entity_um_t \<Rightarrow> buffer \<Rightarrow> nat \<Rightarrow> bool \<Rightarrow> bool \<Rightarrow> int \<Rightarrow> int \<Rightarrow> nr_rlc_entity_um_t res" where
  "um_recv_data e buf hdr is_first is_last sn so =
     (let n = int (length buf); data_size = n - int hdr in
      if data_size \<le> 0 then um_discard n e
      else if um_rx_size e + data_size > um_rx_maxsize e then um_discard n e
      else if um_sn_compare_rx e sn (um_rx_next_reassembly e) < 0 then um_discard n e
      else
        let pdu = nr_rlc_new_pdu sn so is_first is_last (drop hdr buf);
            e = e\<lparr>um_rx_size := um_rx_size e + data_size,
                  um_rx_list := nr_rlc_pdu_list_add (um_sn_compare_rx e) (um_rx_list e) pdu\<rparr>
        in um_reception_actions e pdu)"

definition nr_rlc_entity_um_recv_pdu :: "nr_rlc_entity_um_t \<Rightarrow> buffer \<Rightarrow> nr_rlc_entity_um_t res" where
  "nr_rlc_entity_um_recv_pdu e buf =
     (let n = int (length buf);
          e = upd_stats (count_rxpdu n) e;
          d = nr_rlc_pdu_decoder_init buf (length buf) in
      get_bits_R d 2 (um_discard n e) (\<lambda>si d.
      let is_first = \<not> bit si 1; is_last = \<not> bit si 0 in
      if is_first \<and> is_last then
        if n < 2 then um_discard n e
        else Inr (upd_stats (count_txsdu (n - 1)) (emit (Deliver_Sdu (drop 1 buf)) e))
      else
        let after_r = (\<lambda>d.
              get_bits_R d (um_sn_field_length e) (um_discard n e) (\<lambda>sn d.
              if \<not> is_first then
                get_bits_R d 16 (um_discard n e) (\<lambda>so d.
                  if so = 0 then um_discard n e
                  else um_recv_data e buf (dec_byte d) is_first is_last sn so)
              else um_recv_data e buf (dec_byte d) is_first is_last sn 0))
        in if um_sn_field_length e = 12 then get_bits_R d 2 (um_discard n e) (\<lambda>_ d. after_r d)
           else after_r d))"

section \<open>TX functions\<close>

definition um_seg_sn :: "nr_rlc_entity_um_t \<Rightarrow> nr_rlc_sdu_segment_t \<Rightarrow> int" where
  "um_seg_sn e g = sdu_sn (sdu_at (store e) g)"

text \<open>The calls of the encoder: the two bits of SI, then R alone or R, SN and SO.\<close>

definition um_header_fields :: "nr_rlc_entity_um_t \<Rightarrow> nr_rlc_sdu_segment_t \<Rightarrow> (int \<times> nat) list" where
  "um_header_fields e g =
     [(1 - of_bool (seg_is_first g), 1), (1 - of_bool (seg_is_last g), 1)]
     @ (if seg_is_first g \<and> seg_is_last g then [(0, 6)]
        else (if um_sn_field_length e = 12 then [(0, 2)] else [])
             @ [(um_seg_sn e g, um_sn_field_length e)])
     @ (if \<not> seg_is_first g then [(seg_so g, 16)] else [])"

definition um_serialize_sdu ::
    "nr_rlc_entity_um_t \<Rightarrow> nr_rlc_sdu_segment_t \<Rightarrow> buffer \<Rightarrow> (buffer \<times> int) res" where
  "um_serialize_sdu e g buf =
     bindE (put_fields (nr_rlc_pdu_encoder_init buf (length buf)) (um_header_fields e g)) (\<lambda>enc.
     bindE (mem_read (sdu_data (sdu_at (store e) g)) (seg_so g) (seg_size g)) (\<lambda>data.
     bindE (mem_write (enc_buffer enc) (enc_byte enc) data) (\<lambda>buf.
       Inr (buf, int (enc_byte enc) + seg_size g))))"

text \<open>
  The entity after the call, and \<open>None\<close> when not even one byte of data fits behind the header of
  a segment. The reference counter of the SDU is incremented in both cases.
\<close>

definition um_resegment ::
    "nr_rlc_sdu_segment_t \<Rightarrow> nr_rlc_entity_um_t \<Rightarrow> int
      \<Rightarrow> nr_rlc_entity_um_t \<times> (nr_rlc_sdu_segment_t \<times> nr_rlc_sdu_segment_t) option" where
  "um_resegment g e size_pdu =
     (let e = e\<lparr>store := sdu_upd (store e) g (\<lambda>s. s\<lparr>sdu_ref_count := sdu_ref_count s + 1\<rparr>)\<rparr>;
          pdu_header_size = um_compute_pdu_header_size e (g\<lparr>seg_is_last := False\<rparr>)
      in if pdu_header_size + 1 > size_pdu then (e, None)
         else
           let over_size = pdu_header_size + seg_size g - size_pdu;
               g' = g\<lparr>seg_size := seg_size g - over_size, seg_is_last := False\<rparr>;
               nxt = g\<lparr>seg_size := over_size, seg_so := seg_so g' + seg_size g', seg_is_first := False\<rparr>
           in (upd_stats (\<lambda>s. s\<lparr>txpdu_segmented := txpdu_segmented s + 1\<rparr>) e, Some (g', nxt)))"

text \<open>What follows the segmentation: SN update, serialisation, counters, release of the segment.\<close>

definition um_send_segment ::
    "nr_rlc_sdu_segment_t \<Rightarrow> nr_rlc_entity_um_t \<Rightarrow> buffer \<Rightarrow> u64 \<Rightarrow> (nr_rlc_entity_um_t \<times> buffer \<times> int) res" where
  "um_send_segment g e buf time_now =
     (let e = (if \<not> seg_is_first g \<and> seg_is_last g
               then e\<lparr>um_tx_next := (um_tx_next e + 1) mod um_sn_modulus e\<rparr> else e)
      in bindE (um_serialize_sdu e g buf) (\<lambda>(buf', ret).
           let e = e\<lparr>um_tx_size := um_tx_size e - seg_size g\<rparr>;
               e = upd_stats (count_txpdu (int (length buf))) e;
               e = record_waiting_time time_now g e
           in Inr (e\<lparr>store := fst (nr_rlc_free_sdu_segment (store e) g)\<rparr>, buf', ret)))"

definition um_generate_tx_pdu ::
    "nr_rlc_entity_um_t \<Rightarrow> buffer \<Rightarrow> u64 \<Rightarrow> (nr_rlc_entity_um_t \<times> buffer \<times> int) res" where
  "um_generate_tx_pdu e buf time_now =
     (case um_tx_list e of
        [] \<Rightarrow> Inr (e, buf, 0)
      | g # rest \<Rightarrow>
          let n = int (length buf);
              pdu_header_size = um_compute_pdu_header_size e g in
          if pdu_header_size + 1 > n then Inr (e, buf, 0)
          else
            let e = e\<lparr>um_tx_list := rest\<rparr>;
                e = e\<lparr>store := sdu_upd (store e) g (\<lambda>s. s\<lparr>sdu_sn := um_tx_next e\<rparr>)\<rparr>;
                size_pdu = pdu_header_size + seg_size g;
                e = add_bs_tx (- size_pdu) e
            in if size_pdu > n then
                 (case um_resegment g e n of
                    (e, None) \<Rightarrow> Inr (e, buf, 0)
                  | (e, Some (g, nxt)) \<Rightarrow>
                      let e = e\<lparr>um_tx_list := nxt # um_tx_list e\<rparr>;
                          e = upd_stats (\<lambda>s. s\<lparr>txpdu_segmented := txpdu_segmented s + 1\<rparr>) e;
                          e = add_bs_tx (um_compute_pdu_header_size e nxt + seg_size nxt) e
                      in um_send_segment g e buf time_now)
               else um_send_segment g e buf time_now)"

definition nr_rlc_entity_um_buffer_status ::
    "nr_rlc_entity_um_t \<Rightarrow> int \<Rightarrow> nr_rlc_entity_buffer_status_t" where
  "nr_rlc_entity_um_buffer_status e maxsize =
     \<lparr>bs_status_size = 0, bs_tx_size = bs_tx_size (bstatus e), bs_retx_size = 0\<rparr>"

definition nr_rlc_entity_um_generate_pdu ::
    "nr_rlc_entity_um_t \<Rightarrow> buffer \<Rightarrow> u64 \<Rightarrow> (nr_rlc_entity_um_t \<times> buffer \<times> int) res" where
  "nr_rlc_entity_um_generate_pdu e buf time_now = um_generate_tx_pdu e buf time_now"

section \<open>SDU RX functions\<close>

definition um_log_rejected :: "nr_rlc_entity_um_t \<Rightarrow> nr_rlc_entity_um_t" where
  "um_log_rejected e =
     (if um_sdu_rejected e \<noteq> 0 \<and> um_t_current e > um_t_log_buffer_full e + 1000
      then e\<lparr>um_sdu_rejected := 0, um_t_log_buffer_full := um_t_current e\<rparr> else e)"

definition nr_rlc_entity_um_recv_sdu ::
    "nr_rlc_entity_um_t \<Rightarrow> buffer \<Rightarrow> int \<Rightarrow> u64 \<Rightarrow> nr_rlc_entity_um_t res" where
  "nr_rlc_entity_um_recv_sdu e buf sdu_id time_now =
     (let n = int (length buf);
          e = upd_stats (\<lambda>s. s\<lparr>rxsdu_pkts := rxsdu_pkts s + 1, rxsdu_bytes := rxsdu_bytes s + word_of_int n\<rparr>) e
      in if n > NR_SDU_MAX then Inl Exit_Failure
         else
           let e = um_log_rejected e in
           if um_tx_size e + n > um_tx_maxsize e then
             Inr (upd_stats (count_rxsdu_dd n) (e\<lparr>um_sdu_rejected := um_sdu_rejected e + 1\<rparr>))
           else
             let e = e\<lparr>um_tx_size := um_tx_size e + n\<rparr>;
                 (st, g) = nr_rlc_new_sdu (store e) buf sdu_id;
                 e = e\<lparr>store := st, um_tx_list := nr_rlc_sdu_segment_list_append (um_tx_list e) g\<rparr>;
                 e = add_bs_tx (um_compute_pdu_header_size e g + seg_size g) e
             in Inr (stamp_arrival time_now g e))"

section \<open>Time and timers\<close>

text \<open>
  The last test compares \<open>rx_next_highest\<close> with \<open>rx_next_reassembly + 1\<close> without the modulus.
\<close>

definition um_check_t_reassembly :: "nr_rlc_entity_um_t \<Rightarrow> nr_rlc_entity_um_t res" where
  "um_check_t_reassembly e =
     (if um_t_reassembly_start e = 0
         \<or> um_t_current e \<le> um_t_reassembly_start e + word_of_int (um_t_reassembly e)
      then Inr e
      else
        bindE (um_set_next_reassembly (e\<lparr>um_t_reassembly_start := 0\<rparr>) (um_rx_timer_trigger e)) (\<lambda>e.
        let e = um_discard_before (um_rx_list e) e
        in Inr (if um_sn_compare_rx e (um_rx_next_highest e) ((um_rx_next_reassembly e + 1) mod um_sn_modulus e) > 0
                   \<or> (um_rx_next_highest e = um_rx_next_reassembly e + 1
                      \<and> um_sdu_has_missing_bytes e (um_rx_next_reassembly e))
                then e\<lparr>um_t_reassembly_start := um_t_current e, um_rx_timer_trigger := um_rx_next_highest e\<rparr>
                else e)))"

definition nr_rlc_entity_um_set_time :: "nr_rlc_entity_um_t \<Rightarrow> u64 \<Rightarrow> nr_rlc_entity_um_t res" where
  "nr_rlc_entity_um_set_time e now = um_check_t_reassembly (e\<lparr>um_t_current := now\<rparr>)"

section \<open>Discard, re-establishment, deletion\<close>

definition nr_rlc_entity_um_discard_sdu :: "nr_rlc_entity_um_t \<Rightarrow> int \<Rightarrow> nr_rlc_entity_um_t" where
  "nr_rlc_entity_um_discard_sdu e sdu_id =
     (let other = (\<lambda>g. sdu_upper_layer_id (sdu_at (store e) g) \<noteq> sdu_id) in
      case dropWhile other (um_tx_list e) of
        [] \<Rightarrow> e
      | cur # rest \<Rightarrow>
          if \<not> seg_is_first cur \<or> \<not> seg_is_last cur then e
          else
            let e = e\<lparr>um_tx_list := takeWhile other (um_tx_list e) @ rest\<rparr>;
                e = add_bs_tx (- (um_compute_pdu_header_size e cur + seg_size cur)) e
            in e\<lparr>store := fst (nr_rlc_free_sdu_segment (store e) cur)\<rparr>)"

definition um_clear_entity :: "nr_rlc_entity_um_t \<Rightarrow> nr_rlc_entity_um_t" where
  "um_clear_entity e =
     e\<lparr>um_rx_next_highest := 0, um_rx_next_reassembly := 0, um_rx_timer_trigger := 0,
       um_tx_next := 0, um_t_current := 0, um_t_log_buffer_full := 0, um_sdu_rejected := 0,
       um_t_reassembly_start := 0, um_rx_list := [], um_rx_size := 0,
       store := nr_rlc_free_sdu_segment_list (store e) (um_tx_list e),
       um_tx_list := [], um_tx_size := 0, bstatus := (bstatus e)\<lparr>bs_tx_size := 0\<rparr>\<rparr>"

definition nr_rlc_entity_um_reestablishment :: "nr_rlc_entity_um_t \<Rightarrow> nr_rlc_entity_um_t" where
  "nr_rlc_entity_um_reestablishment e = um_clear_entity e"

text \<open>Deleting an entity clears it and frees it; what is left is the memory of its SDUs.\<close>

definition nr_rlc_entity_um_delete :: "nr_rlc_entity_um_t \<Rightarrow> sdu_store" where
  "nr_rlc_entity_um_delete e = store (um_clear_entity e)"

definition nr_rlc_entity_um_available_tx_space :: "nr_rlc_entity_um_t \<Rightarrow> int" where
  "nr_rlc_entity_um_available_tx_space e = um_tx_maxsize e - um_tx_size e"

end
