(* ===== verification/RLC_Rx_Manager.thy ===== *)
theory RLC_Rx_Manager
  imports RLC_Pdu
begin

text \<open>
  Model of \<open>openair2/LAYER2/nr_rlc/nr_rlc_rx_manager.c\<close>: the circular buffer in which an AM
  entity keeps the PDUs of its reception window, one list per SN, each sorted by SO. The buffer
  has half as many slots as there are sequence numbers, so two SNs can fall on one slot; the
  interface \<open>rx_window\<close> states what the AM entity relies on (inside the window every SN has its
  own slot, and moving the window keeps the SNs that stay inside), and the interpretation at the
  end shows that the circular buffer provides it.
\<close>

section \<open>The circular buffer\<close>

record nr_rlc_rx_manager_t =
  rxm_list :: "nr_rlc_pdu_t list list"
  rxm_size :: int
  rxm_start :: int
  rxm_sn_start :: int

definition nr_rlc_new_rx_manager :: "int \<Rightarrow> nr_rlc_rx_manager_t" where
  "nr_rlc_new_rx_manager n =
     \<lparr>rxm_list = replicate (nat n) [], rxm_size = n, rxm_start = 0, rxm_sn_start = 0\<rparr>"

definition nr_rlc_clear_rx_manager :: "nr_rlc_rx_manager_t \<Rightarrow> nr_rlc_rx_manager_t" where
  "nr_rlc_clear_rx_manager m =
     m\<lparr>rxm_list := replicate (length (rxm_list m)) [], rxm_start := 0, rxm_sn_start := 0\<rparr>"

definition get_pos :: "nr_rlc_rx_manager_t \<Rightarrow> int \<Rightarrow> int" where
  "get_pos m sn = (rxm_start m + (sn - rxm_sn_start m + rxm_size m * 2)) mod rxm_size m"

definition nr_rlc_rx_manager_get_pdu_from_sn ::
    "nr_rlc_rx_manager_t \<Rightarrow> int \<Rightarrow> nr_rlc_pdu_t list" where
  "nr_rlc_rx_manager_get_pdu_from_sn m sn = rxm_list m ! nat (get_pos m sn)"

definition nr_rlc_rx_manager_clear_pdu ::
    "nr_rlc_rx_manager_t \<Rightarrow> int \<Rightarrow> nr_rlc_rx_manager_t" where
  "nr_rlc_rx_manager_clear_pdu m sn = m\<lparr>rxm_list := (rxm_list m)[nat (get_pos m sn) := []]\<rparr>"

definition nr_rlc_rx_manager_advance :: "nr_rlc_rx_manager_t \<Rightarrow> int \<Rightarrow> nr_rlc_rx_manager_t" where
  "nr_rlc_rx_manager_advance m c = m\<lparr>rxm_start := (rxm_start m + c) mod rxm_size m\<rparr>"

definition nr_rlc_rx_manager_set_start ::
    "nr_rlc_rx_manager_t \<Rightarrow> int \<Rightarrow> nr_rlc_rx_manager_t" where
  "nr_rlc_rx_manager_set_start m sn_start = m\<lparr>rxm_sn_start := sn_start\<rparr>"

definition nr_rlc_rx_manager_add_pdu ::
    "nr_rlc_rx_manager_t \<Rightarrow> nr_rlc_pdu_t \<Rightarrow> nr_rlc_rx_manager_t" where
  "nr_rlc_rx_manager_add_pdu m p =
     (let pos = nat (get_pos m (pdu_sn p))
      in m\<lparr>rxm_list := (rxm_list m)[pos :=
             insert_before (\<lambda>cur. pdu_so cur > pdu_so p) p (rxm_list m ! pos)]\<rparr>)"

text \<open>
  In-place change of the segments of one SN, as \<open>reassemble_and_deliver\<close> makes it through the
  pointers it got from \<open>nr_rlc_rx_manager_get_pdu_from_sn\<close>.
\<close>

definition rx_manager_map_pdus ::
    "(nr_rlc_pdu_t \<Rightarrow> nr_rlc_pdu_t) \<Rightarrow> nr_rlc_rx_manager_t \<Rightarrow> int \<Rightarrow> nr_rlc_rx_manager_t" where
  "rx_manager_map_pdus f m sn =
     (let pos = nat (get_pos m sn) in m\<lparr>rxm_list := (rxm_list m)[pos := map f (rxm_list m ! pos)]\<rparr>)"

section \<open>The interface: a window of per-SN lists\<close>

text \<open>Sequence numbers modulo \<open>2 w\<close>, and the window of \<open>w\<close> of them that starts at \<open>b\<close>.\<close>

definition sn_in_window :: "int \<Rightarrow> int \<Rightarrow> int \<Rightarrow> bool" where
  "sn_in_window b w sn \<longleftrightarrow> 0 \<le> sn \<and> sn < 2 * w \<and> (sn - b) mod (2 * w) < w"

locale rx_window =
  fixes lookup :: "'m \<Rightarrow> int \<Rightarrow> 'p list"
    and key :: "'p \<Rightarrow> int"
    and ins :: "'p \<Rightarrow> 'p list \<Rightarrow> 'p list"
    and add :: "'m \<Rightarrow> 'p \<Rightarrow> 'm"
    and touch :: "('p \<Rightarrow> 'p) \<Rightarrow> 'm \<Rightarrow> int \<Rightarrow> 'm"
    and clear :: "'m \<Rightarrow> int \<Rightarrow> 'm"
    and move :: "'m \<Rightarrow> int \<Rightarrow> 'm"
    and base :: "'m \<Rightarrow> int"
    and width :: "'m \<Rightarrow> int"
    and invar :: "'m \<Rightarrow> bool"
  assumes width_pos: "invar m \<Longrightarrow> 0 < width m"
    and base_range: "invar m \<Longrightarrow> 0 \<le> base m \<and> base m < 2 * width m"
    and add_invar: "invar m \<Longrightarrow>
        invar (add m p) \<and> base (add m p) = base m \<and> width (add m p) = width m"
    and add_lookup: "invar m \<Longrightarrow> sn_in_window (base m) (width m) (key p) \<Longrightarrow>
        sn_in_window (base m) (width m) sn \<Longrightarrow>
        lookup (add m p) sn = (if sn = key p then ins p (lookup m sn) else lookup m sn)"
    and touch_invar: "invar m \<Longrightarrow>
        invar (touch f m sn) \<and> base (touch f m sn) = base m \<and> width (touch f m sn) = width m"
    and touch_lookup: "invar m \<Longrightarrow> sn_in_window (base m) (width m) sn \<Longrightarrow>
        sn_in_window (base m) (width m) sn' \<Longrightarrow>
        lookup (touch f m sn) sn' = (if sn' = sn then map f (lookup m sn) else lookup m sn')"
    and clear_invar: "invar m \<Longrightarrow>
        invar (clear m sn) \<and> base (clear m sn) = base m \<and> width (clear m sn) = width m"
    and clear_lookup: "invar m \<Longrightarrow> sn_in_window (base m) (width m) sn \<Longrightarrow>
        sn_in_window (base m) (width m) sn' \<Longrightarrow>
        lookup (clear m sn) sn' = (if sn' = sn then [] else lookup m sn')"
    and move_invar: "invar m \<Longrightarrow> 0 \<le> c \<Longrightarrow> c \<le> width m \<Longrightarrow>
        invar (move m c) \<and> base (move m c) = (base m + c) mod (2 * width m)
        \<and> width (move m c) = width m"
    and move_lookup: "invar m \<Longrightarrow> 0 \<le> c \<Longrightarrow> c \<le> width m \<Longrightarrow> 0 \<le> k \<Longrightarrow> k < width m \<Longrightarrow>
        lookup (move m c) ((base m + c + k) mod (2 * width m))
        = (if c + k < width m then lookup m ((base m + c + k) mod (2 * width m))
           else lookup m ((base m + c + k - width m) mod (2 * width m)))"
begin

text \<open>The \<open>k\<close>-th SN of the window.\<close>

definition at :: "'m \<Rightarrow> int \<Rightarrow> int" where
  "at m k = (base m + k) mod (2 * width m)"

lemma at_in_window:
  assumes "invar m" and "0 \<le> k" and "k < width m"
  shows "sn_in_window (base m) (width m) (at m k)"
proof -
  have w: "0 < width m" using assms(1) by (rule width_pos)
  have "((base m + k) mod (2 * width m) - base m) mod (2 * width m) = k mod (2 * width m)"
    by (simp add: mod_diff_left_eq)
  then show ?thesis using assms w by (simp add: sn_in_window_def at_def)
qed

lemma at_inject:
  assumes "invar m" and "0 \<le> j" "j < width m" and "0 \<le> k" "k < width m" and "at m j = at m k"
  shows "j = k"
proof -
  have w: "0 < width m" using assms(1) by (rule width_pos)
  have "(at m j - base m) mod (2 * width m) = (at m k - base m) mod (2 * width m)"
    using assms(6) by simp
  then have "j mod (2 * width m) = k mod (2 * width m)"
    by (simp add: at_def mod_diff_left_eq)
  then show ?thesis using assms w by simp
qed

lemma in_window_at:
  assumes "invar m" and "sn_in_window (base m) (width m) sn"
  shows "sn = at m ((sn - base m) mod (2 * width m)) \<and> 0 \<le> (sn - base m) mod (2 * width m)
     \<and> (sn - base m) mod (2 * width m) < width m"
proof -
  have w: "0 < width m" using assms(1) by (rule width_pos)
  have "(base m + (sn - base m) mod (2 * width m)) mod (2 * width m) = sn mod (2 * width m)"
    by (simp add: mod_add_right_eq)
  then show ?thesis using assms w by (simp add: sn_in_window_def at_def)
qed

text \<open>Clearing the first \<open>n\<close> SNs of the window, and then moving past them.\<close>

fun clear_first :: "'m \<Rightarrow> nat \<Rightarrow> 'm" where
  "clear_first m 0 = m"
| "clear_first m (Suc n) = clear (clear_first m n) (at m (int n))"

lemma clear_first_invar:
  assumes "invar m" and "int n \<le> width m"
  shows "invar (clear_first m n) \<and> base (clear_first m n) = base m \<and> width (clear_first m n) = width m"
  using assms
proof (induction n)
  case (Suc n)
  then have IH: "invar (clear_first m n)" "base (clear_first m n) = base m"
    "width (clear_first m n) = width m" by auto
  then show ?case using clear_invar[of "clear_first m n" "at m (int n)"] by simp
qed simp

lemma clear_first_lookup:
  assumes "invar m" and "int n \<le> width m" and "0 \<le> k" and "k < width m"
  shows "lookup (clear_first m n) (at m k) = (if k < int n then [] else lookup m (at m k))"
  using assms
proof (induction n)
  case (Suc n)
  have inv: "invar (clear_first m n)" "base (clear_first m n) = base m"
    "width (clear_first m n) = width m"
    using Suc.prems clear_first_invar[of m n] by auto
  have win: "sn_in_window (base m) (width m) (at m (int n))" "sn_in_window (base m) (width m) (at m k)"
    using Suc.prems by (auto intro: at_in_window)
  have eq: "at m k = at m (int n) \<longleftrightarrow> k = int n"
    using at_inject[of m k "int n"] Suc.prems by auto
  show ?case
    using Suc inv win clear_lookup[of "clear_first m n" "at m (int n)" "at m k"] eq by auto
qed simp

text \<open>
  What the AM entity does when \<open>RX_Next\<close> advances by \<open>n\<close>: the SNs left behind disappear, the SNs
  that stay keep their lists, and the SNs that come into the window are empty.
\<close>

lemma drain_lookup:
  assumes inv: "invar m" and n: "int n \<le> width m" and k: "0 \<le> k" "k < width m"
  shows "lookup (move (clear_first m n) (int n)) (at m (int n + k))
    = (if int n + k < width m then lookup m (at m (int n + k)) else [])"
proof -
  let ?c = "clear_first m n"
  have c: "invar ?c" "base ?c = base m" "width ?c = width m"
    using clear_first_invar[OF inv n] by auto
  have mv: "lookup (move ?c (int n)) (at m (int n + k))
    = (if int n + k < width m then lookup ?c (at m (int n + k))
       else lookup ?c (at m (int n + k - width m)))"
    using move_lookup[of ?c "int n" k] c n k by (simp add: at_def add.assoc add_diff_eq)
  show ?thesis
  proof (cases "int n + k < width m")
    case True
    then show ?thesis using mv clear_first_lookup[OF inv n, of "int n + k"] k by simp
  next
    case False
    then have "0 \<le> int n + k - width m" "int n + k - width m < int n" using k by auto
    then show ?thesis using mv False clear_first_lookup[OF inv n, of "int n + k - width m"] n by simp
  qed
qed

end

section \<open>The circular buffer provides the interface\<close>

definition rxm_inv :: "nr_rlc_rx_manager_t \<Rightarrow> bool" where
  "rxm_inv m \<longleftrightarrow> 0 < rxm_size m \<and> int (length (rxm_list m)) = rxm_size m
     \<and> 0 \<le> rxm_start m \<and> rxm_start m < rxm_size m
     \<and> 0 \<le> rxm_sn_start m \<and> rxm_sn_start m < 2 * rxm_size m"

definition rxm_move :: "nr_rlc_rx_manager_t \<Rightarrow> int \<Rightarrow> nr_rlc_rx_manager_t" where
  "rxm_move m c = nr_rlc_rx_manager_set_start (nr_rlc_rx_manager_advance m c)
     ((rxm_sn_start m + c) mod (2 * rxm_size m))"

lemma get_pos_range: "rxm_inv m \<Longrightarrow> 0 \<le> get_pos m sn \<and> get_pos m sn < rxm_size m"
  by (simp add: get_pos_def rxm_inv_def)

lemma get_pos_nat: "rxm_inv m \<Longrightarrow> nat (get_pos m sn) < length (rxm_list m)"
  using get_pos_range[of m sn] by (simp add: rxm_inv_def nat_less_iff)

lemma get_pos_mod: "get_pos m sn = (rxm_start m + (sn - rxm_sn_start m)) mod rxm_size m"
proof -
  have "rxm_start m + (sn - rxm_sn_start m + rxm_size m * 2)
      = rxm_start m + (sn - rxm_sn_start m) + rxm_size m * 2" by simp
  then show ?thesis unfolding get_pos_def by (simp only: mod_mult_self2)
qed

text \<open>Inside the window the slot determines the SN.\<close>

lemma get_pos_inject:
  assumes inv: "rxm_inv m" and a: "sn_in_window (rxm_sn_start m) (rxm_size m) sn"
    and b: "sn_in_window (rxm_sn_start m) (rxm_size m) sn'" and eq: "get_pos m sn = get_pos m sn'"
  shows "sn = sn'"
proof -
  let ?w = "rxm_size m" and ?b = "rxm_sn_start m"
  have w: "0 < ?w" using inv by (simp add: rxm_inv_def)
  have "(get_pos m sn - rxm_start m) mod ?w = (get_pos m sn' - rxm_start m) mod ?w"
    using eq by simp
  then have "(sn - ?b) mod ?w = (sn' - ?b) mod ?w"
    by (simp add: get_pos_mod mod_diff_left_eq)
  moreover have "(x - ?b) mod ?w = (x - ?b) mod (2 * ?w)"
    if "sn_in_window ?b ?w x" for x
  proof -
    have "(x - ?b) mod (2 * ?w) mod ?w = (x - ?b) mod ?w" by (rule mod_mod_cancel) simp
    moreover have "0 \<le> (x - ?b) mod (2 * ?w)" using w by simp
    ultimately show ?thesis using that by (simp add: sn_in_window_def)
  qed
  ultimately have "(sn - ?b) mod (2 * ?w) = (sn' - ?b) mod (2 * ?w)" using a b by simp
  then have "((sn - ?b) mod (2 * ?w) + ?b) mod (2 * ?w) = ((sn' - ?b) mod (2 * ?w) + ?b) mod (2 * ?w)"
    by simp
  then have "sn mod (2 * ?w) = sn' mod (2 * ?w)"
    by (simp add: mod_add_left_eq)
  then show ?thesis using a b by (simp add: sn_in_window_def)
qed

lemma nat_get_pos_inject:
  "rxm_inv m \<Longrightarrow> sn_in_window (rxm_sn_start m) (rxm_size m) sn \<Longrightarrow>
   sn_in_window (rxm_sn_start m) (rxm_size m) sn' \<Longrightarrow>
   nat (get_pos m sn) = nat (get_pos m sn') \<longleftrightarrow> sn = sn'"
  using get_pos_range[of m sn] get_pos_range[of m sn'] get_pos_inject[of m sn sn'] by auto

lemma get_pos_list_upd [simp]: "get_pos (m\<lparr>rxm_list := l\<rparr>) sn = get_pos m sn"
  by (simp add: get_pos_def)

text \<open>Changing one slot, whatever the change.\<close>

lemma rxm_upd_inv:
  "rxm_inv m \<Longrightarrow> rxm_inv (m\<lparr>rxm_list := (rxm_list m)[i := x]\<rparr>)"
  by (simp add: rxm_inv_def)

lemma rxm_upd_lookup:
  assumes "rxm_inv m" and "sn_in_window (rxm_sn_start m) (rxm_size m) sn"
    and "sn_in_window (rxm_sn_start m) (rxm_size m) sn'"
  shows "nr_rlc_rx_manager_get_pdu_from_sn
      (m\<lparr>rxm_list := (rxm_list m)[nat (get_pos m sn) := x]\<rparr>) sn'
    = (if sn' = sn then x else nr_rlc_rx_manager_get_pdu_from_sn m sn')"
  using assms get_pos_nat[of m sn] nat_get_pos_inject[of m sn sn']
  by (auto simp: nr_rlc_rx_manager_get_pdu_from_sn_def)

lemma rxm_move_pos:
  assumes inv: "rxm_inv m" and "0 \<le> c"
  shows "get_pos (rxm_move m c) ((rxm_sn_start m + c + k) mod (2 * rxm_size m))
    = (rxm_start m + c + k) mod rxm_size m"
proof -
  let ?w = "rxm_size m" and ?b = "rxm_sn_start m" and ?s = "rxm_start m"
  have m2: "x mod (2 * ?w) mod ?w = x mod ?w" for x by (rule mod_mod_cancel) simp
  have "((?b + c + k) mod (2 * ?w) - (?b + c) mod (2 * ?w)) mod ?w
      = ((?b + c + k) mod (2 * ?w) mod ?w - (?b + c) mod (2 * ?w) mod ?w) mod ?w"
    by (simp add: mod_diff_eq)
  also have "\<dots> = k mod ?w" by (simp add: m2 mod_diff_eq)
  finally have d: "((?b + c + k) mod (2 * ?w) - (?b + c) mod (2 * ?w)) mod ?w = k mod ?w" .
  have "(((?s + c) mod ?w) + ((?b + c + k) mod (2 * ?w) - (?b + c) mod (2 * ?w))) mod ?w
      = ((?s + c) mod ?w + ((?b + c + k) mod (2 * ?w) - (?b + c) mod (2 * ?w)) mod ?w) mod ?w"
    by (simp only: mod_add_right_eq)
  also have "\<dots> = (?s + c + k) mod ?w" unfolding d by (simp only: mod_add_eq)
  finally have "(((?s + c) mod ?w) + ((?b + c + k) mod (2 * ?w) - (?b + c) mod (2 * ?w))) mod ?w
      = (?s + c + k) mod ?w" .
  then show ?thesis
    by (simp add: get_pos_mod rxm_move_def nr_rlc_rx_manager_set_start_def
        nr_rlc_rx_manager_advance_def)
qed

lemma get_pos_shift:
  assumes "rxm_inv m"
  shows "get_pos m ((rxm_sn_start m + k) mod (2 * rxm_size m)) = (rxm_start m + k) mod rxm_size m"
  using rxm_move_pos[OF assms, of 0 k] assms
  by (simp add: rxm_move_def nr_rlc_rx_manager_set_start_def nr_rlc_rx_manager_advance_def
      rxm_inv_def)

lemma rxm_move_lookup:
  assumes inv: "rxm_inv m" and c: "0 \<le> c" "c \<le> rxm_size m" and k: "0 \<le> k" "k < rxm_size m"
  shows "nr_rlc_rx_manager_get_pdu_from_sn (rxm_move m c)
      ((rxm_sn_start m + c + k) mod (2 * rxm_size m))
    = (if c + k < rxm_size m
       then nr_rlc_rx_manager_get_pdu_from_sn m ((rxm_sn_start m + c + k) mod (2 * rxm_size m))
       else nr_rlc_rx_manager_get_pdu_from_sn m
              ((rxm_sn_start m + c + k - rxm_size m) mod (2 * rxm_size m)))"
proof -
  let ?w = "rxm_size m"
  have same: "rxm_list (rxm_move m c) = rxm_list m"
    by (simp add: rxm_move_def nr_rlc_rx_manager_set_start_def nr_rlc_rx_manager_advance_def)
  have "(rxm_start m + (c + k)) mod ?w = (rxm_start m + (c + k - ?w)) mod ?w"
    using mod_add_self2[of "rxm_start m + (c + k - ?w)" ?w] by (simp add: algebra_simps)
  then show ?thesis
    using rxm_move_pos[OF inv c(1), of k] get_pos_shift[OF inv, of "c + k"]
      get_pos_shift[OF inv, of "c + k - ?w"]
    by (simp add: nr_rlc_rx_manager_get_pdu_from_sn_def same add.assoc add_diff_eq)
qed

text \<open>The slot lists are filled by SO.\<close>

definition ins_by_so :: "nr_rlc_pdu_t \<Rightarrow> nr_rlc_pdu_t list \<Rightarrow> nr_rlc_pdu_t list" where
  "ins_by_so p l = insert_before (\<lambda>cur. pdu_so cur > pdu_so p) p l"

lemmas rx_manager_defs = nr_rlc_rx_manager_add_pdu_def nr_rlc_rx_manager_clear_pdu_def
  rx_manager_map_pdus_def ins_by_so_def

interpretation rxm: rx_window nr_rlc_rx_manager_get_pdu_from_sn pdu_sn ins_by_so
  nr_rlc_rx_manager_add_pdu rx_manager_map_pdus nr_rlc_rx_manager_clear_pdu rxm_move
  rxm_sn_start rxm_size rxm_inv
proof unfold_locales
  fix m assume inv: "rxm_inv m"
  show "0 < rxm_size m" "0 \<le> rxm_sn_start m \<and> rxm_sn_start m < 2 * rxm_size m"
    using inv by (auto simp: rxm_inv_def)
  fix p f sn sn' c k
  show "rxm_inv (nr_rlc_rx_manager_add_pdu m p)
      \<and> rxm_sn_start (nr_rlc_rx_manager_add_pdu m p) = rxm_sn_start m
      \<and> rxm_size (nr_rlc_rx_manager_add_pdu m p) = rxm_size m"
    "rxm_inv (rx_manager_map_pdus f m sn)
      \<and> rxm_sn_start (rx_manager_map_pdus f m sn) = rxm_sn_start m
      \<and> rxm_size (rx_manager_map_pdus f m sn) = rxm_size m"
    "rxm_inv (nr_rlc_rx_manager_clear_pdu m sn)
      \<and> rxm_sn_start (nr_rlc_rx_manager_clear_pdu m sn) = rxm_sn_start m
      \<and> rxm_size (nr_rlc_rx_manager_clear_pdu m sn) = rxm_size m"
    using rxm_upd_inv[OF inv] by (simp_all add: rx_manager_defs Let_def)
  assume win': "sn_in_window (rxm_sn_start m) (rxm_size m) sn'"
  show "sn_in_window (rxm_sn_start m) (rxm_size m) (pdu_sn p) \<Longrightarrow>
      nr_rlc_rx_manager_get_pdu_from_sn (nr_rlc_rx_manager_add_pdu m p) sn' =
      (if sn' = pdu_sn p then ins_by_so p (nr_rlc_rx_manager_get_pdu_from_sn m sn')
       else nr_rlc_rx_manager_get_pdu_from_sn m sn')"
    "sn_in_window (rxm_sn_start m) (rxm_size m) sn \<Longrightarrow>
      nr_rlc_rx_manager_get_pdu_from_sn (rx_manager_map_pdus f m sn) sn' =
      (if sn' = sn then map f (nr_rlc_rx_manager_get_pdu_from_sn m sn)
       else nr_rlc_rx_manager_get_pdu_from_sn m sn')"
    "sn_in_window (rxm_sn_start m) (rxm_size m) sn \<Longrightarrow>
      nr_rlc_rx_manager_get_pdu_from_sn (nr_rlc_rx_manager_clear_pdu m sn) sn' =
      (if sn' = sn then [] else nr_rlc_rx_manager_get_pdu_from_sn m sn')"
    using rxm_upd_lookup[OF inv _ win']
    by (auto simp: rx_manager_defs Let_def nr_rlc_rx_manager_get_pdu_from_sn_def)
next
  fix m c assume inv: "rxm_inv m" and c: "0 \<le> c" "c \<le> rxm_size m"
  show "rxm_inv (rxm_move m c)
      \<and> rxm_sn_start (rxm_move m c) = (rxm_sn_start m + c) mod (2 * rxm_size m)
      \<and> rxm_size (rxm_move m c) = rxm_size m"
    using inv by (simp add: rxm_inv_def rxm_move_def nr_rlc_rx_manager_set_start_def
        nr_rlc_rx_manager_advance_def)
next
  fix m c k assume "rxm_inv m" and "0 \<le> c" "c \<le> rxm_size m" and "0 \<le> k" "k < rxm_size m"
  then show "nr_rlc_rx_manager_get_pdu_from_sn (rxm_move m c)
      ((rxm_sn_start m + c + k) mod (2 * rxm_size m))
    = (if c + k < rxm_size m
       then nr_rlc_rx_manager_get_pdu_from_sn m ((rxm_sn_start m + c + k) mod (2 * rxm_size m))
       else nr_rlc_rx_manager_get_pdu_from_sn m
              ((rxm_sn_start m + c + k - rxm_size m) mod (2 * rxm_size m)))"
    by (rule rxm_move_lookup)
qed

lemma new_rx_manager_inv [inv_intros]: "0 < n \<Longrightarrow> rxm_inv (nr_rlc_new_rx_manager n)"
  by (simp add: rxm_inv_def nr_rlc_new_rx_manager_def)

lemma clear_rx_manager_inv [inv_intros]: "rxm_inv m \<Longrightarrow> rxm_inv (nr_rlc_clear_rx_manager m)"
  by (simp add: rxm_inv_def nr_rlc_clear_rx_manager_def)

lemma new_rx_manager_lookup [simp]:
  "0 < n \<Longrightarrow> nr_rlc_rx_manager_get_pdu_from_sn (nr_rlc_new_rx_manager n) sn = []"
  using get_pos_nat[OF new_rx_manager_inv, of n sn]
  by (simp add: nr_rlc_rx_manager_get_pdu_from_sn_def nr_rlc_new_rx_manager_def)

lemma clear_rx_manager_lookup [simp]:
  "rxm_inv m \<Longrightarrow> nr_rlc_rx_manager_get_pdu_from_sn (nr_rlc_clear_rx_manager m) sn = []"
  using get_pos_nat[OF clear_rx_manager_inv, of m sn]
  by (simp add: nr_rlc_rx_manager_get_pdu_from_sn_def nr_rlc_clear_rx_manager_def)

text \<open>
  Advancing the reception window by \<open>n\<close>, as the entity does it (clear the first
  \<open>n\<close> SNs, \<open>nr_rlc_rx_manager_advance\<close>, \<open>nr_rlc_rx_manager_set_start\<close>): every SN that stays in
  the window keeps its PDUs although two SNs share each slot, and every SN that comes into the
  window is empty.
\<close>

theorem rx_manager_drain:
  assumes "rxm_inv m" and "int n \<le> rxm_size m" and "0 \<le> k" and "k < rxm_size m"
  shows "nr_rlc_rx_manager_get_pdu_from_sn (rxm_move (rxm.clear_first m n) (int n)) (rxm.at m (int n + k))
    = (if int n + k < rxm_size m then nr_rlc_rx_manager_get_pdu_from_sn m (rxm.at m (int n + k)) else [])"
  using assms by (rule rxm.drain_lookup)

theorem rx_manager_drain_witness:
  "rxm_inv \<lparr>rxm_list = [[], [nr_rlc_new_pdu 3 0 True True [7]]], rxm_size = 2, rxm_start = 0, rxm_sn_start = 2\<rparr>
   \<and> nr_rlc_rx_manager_get_pdu_from_sn
      (rxm_move (rxm.clear_first
        \<lparr>rxm_list = [[], [nr_rlc_new_pdu 3 0 True True [7]]], rxm_size = 2, rxm_start = 0, rxm_sn_start = 2\<rparr> 1) 1) 3
     = [nr_rlc_new_pdu 3 0 True True [7]]"
proof -
  let ?m = "\<lparr>rxm_list = [[], [nr_rlc_new_pdu 3 0 True True [7]]], rxm_size = 2, rxm_start = 0, rxm_sn_start = 2\<rparr>"
  have inv: "rxm_inv ?m" by (simp add: rxm_inv_def)
  have at: "rxm.at ?m 1 = 3" by (simp add: rxm.at_def)
  from rx_manager_drain[OF inv, of 1 0] at inv show ?thesis
    by (simp add: nr_rlc_rx_manager_get_pdu_from_sn_def get_pos_def)
qed

end
