(* ===== verification/RLC_Am.thy ===== *)
theory RLC_Am
  imports RLC_Segments RLC_Rx_Manager
begin

text \<open>
  Model of the acknowledged-mode entity (\<open>nr_rlc_entity_am.c\<close>), in the order of the source:
  reception of data PDUs, processing of STATUS PDUs, transmission with segmentation, polling and
  retransmission, generation of STATUS PDUs, timers, discard and re-establishment. Names that
  clash with the UM entity's carry the prefix \<open>am_\<close>.

  The three segment lists \<open>tx_list\<close>, \<open>wait_list\<close> and \<open>retransmit_list\<close> are HOL lists, together
  with their tail pointers. A pointer to a received PDU is the non-empty rest of its slot list
  that starts there, so \<open>cur->next\<close> is the tail and NULL is the empty list. Loops whose end
  depends on the state are \<open>while_option\<close> (\<open>skip_while\<close> for a search over SNs) or
  \<open>partial_function (option)\<close>: not returning is \<open>None\<close>, and becomes the error \<open>Diverges\<close> at
  the operation.
\<close>

record nr_rlc_entity_am_t = nr_rlc_entity_t +
  am_t_poll_retransmit :: int
  am_t_reassembly :: int
  am_t_status_prohibit :: int
  am_poll_pdu :: int
  am_poll_byte :: int
  am_max_retx_threshold :: int
  am_sn_field_length :: nat
  am_sn_modulus :: int
  am_window_size :: int
  am_rx_next :: int
  am_rx_next_status_trigger :: int
  am_rx_highest_status :: int
  am_rx_next_highest :: int
  am_status_triggered :: bool
  am_tx_next :: int
  am_tx_next_ack :: int
  am_poll_sn :: int
  am_pdu_without_poll :: int
  am_byte_without_poll :: int
  am_force_poll :: bool
  am_t_current :: u64
  am_t_log_buffer_full :: u64
  am_sdu_rejected :: int
  am_t_poll_retransmit_start :: u64
  am_t_reassembly_start :: u64
  am_t_status_prohibit_start :: u64
  am_rx :: nr_rlc_rx_manager_t
  am_rx_size :: int
  am_rx_maxsize :: int
  am_tx_list :: "nr_rlc_sdu_segment_t list"
  am_tx_size :: int
  am_tx_maxsize :: int
  am_wait_list :: "nr_rlc_sdu_segment_t list"
  am_retransmit_list :: "nr_rlc_sdu_segment_t list"

text \<open>
  The constructor, \<open>new_nr_rlc_entity_am\<close> of \<open>nr_rlc_entity.c\<close>. Everything it does not set is zero
  (\<open>calloc\<close>); the callbacks are the events of the model.
\<close>

definition new_nr_rlc_entity_am ::
    "int \<Rightarrow> int \<Rightarrow> int \<Rightarrow> int \<Rightarrow> int \<Rightarrow> int \<Rightarrow> int \<Rightarrow> int \<Rightarrow> nat \<Rightarrow> nr_rlc_entity_am_t res" where
  "new_nr_rlc_entity_am rx_maxsize tx_maxsize t_poll_retransmit t_reassembly t_status_prohibit
       poll_pdu poll_byte max_retx_threshold sn_field_length =
     (if sn_field_length \<noteq> 12 \<and> sn_field_length \<noteq> 18 then Inl Assert_Fatal
      else
        let sn_modulus = push_bit sn_field_length 1 in
        Inr \<lparr>bstatus = \<lparr>bs_status_size = 0, bs_tx_size = 0, bs_retx_size = 0\<rparr>,
             stats = zero_stats NR_RLC_AM, avg_time_is_on = False, events = [], store = empty_store,
             am_t_poll_retransmit = t_poll_retransmit, am_t_reassembly = t_reassembly,
             am_t_status_prohibit = t_status_prohibit, am_poll_pdu = poll_pdu, am_poll_byte = poll_byte,
             am_max_retx_threshold = max_retx_threshold, am_sn_field_length = sn_field_length,
             am_sn_modulus = sn_modulus, am_window_size = sn_modulus div 2,
             am_rx_next = 0, am_rx_next_status_trigger = 0, am_rx_highest_status = 0,
             am_rx_next_highest = 0, am_status_triggered = False, am_tx_next = 0, am_tx_next_ack = 0,
             am_poll_sn = 0, am_pdu_without_poll = 0, am_byte_without_poll = 0, am_force_poll = False,
             am_t_current = 0, am_t_log_buffer_full = 0, am_sdu_rejected = 0,
             am_t_poll_retransmit_start = 0, am_t_reassembly_start = 0, am_t_status_prohibit_start = 0,
             am_rx = nr_rlc_new_rx_manager (push_bit (sn_field_length - 1) 1), am_rx_size = 0,
             am_rx_maxsize = rx_maxsize * 5, am_tx_list = [], am_tx_size = 0,
             am_tx_maxsize = tx_maxsize * 5, am_wait_list = [], am_retransmit_list = []\<rparr>)"

definition am_compute_pdu_header_size :: "nr_rlc_entity_am_t \<Rightarrow> nr_rlc_sdu_segment_t \<Rightarrow> int" where
  "am_compute_pdu_header_size e g =
     2 + (if am_sn_field_length e = 18 then 1 else 0) + (if \<not> seg_is_first g then 2 else 0)"

section \<open>PDU RX functions\<close>

definition am_modulus_rx :: "nr_rlc_entity_am_t \<Rightarrow> int \<Rightarrow> int" where
  "am_modulus_rx e a = (let r = a - am_rx_next e in if r < 0 then r + am_sn_modulus e else r)"

definition am_modulus_tx :: "nr_rlc_entity_am_t \<Rightarrow> int \<Rightarrow> int" where
  "am_modulus_tx e a = (let r = a - am_tx_next_ack e in if r < 0 then r + am_sn_modulus e else r)"

definition am_sn_in_recv_window :: "nr_rlc_entity_am_t \<Rightarrow> int \<Rightarrow> bool" where
  "am_sn_in_recv_window e sn \<longleftrightarrow> am_modulus_rx e sn < am_window_size e"

definition am_sn_compare_rx :: "nr_rlc_entity_am_t \<Rightarrow> int \<Rightarrow> int \<Rightarrow> int" where
  "am_sn_compare_rx e a b = am_modulus_rx e a - am_modulus_rx e b"

definition am_sn_compare_tx :: "nr_rlc_entity_am_t \<Rightarrow> int \<Rightarrow> int \<Rightarrow> int" where
  "am_sn_compare_tx e a b = am_modulus_tx e a - am_modulus_tx e b"

text \<open>The SN of a segment's SDU, read through the segment.\<close>

definition am_seg_sn :: "nr_rlc_entity_am_t \<Rightarrow> nr_rlc_sdu_segment_t \<Rightarrow> int" where
  "am_seg_sn e g = sdu_sn (sdu_at (store e) g)"

definition nr_rlc_tx_sdu_segment_list_add ::
    "nr_rlc_entity_am_t \<Rightarrow> nr_rlc_sdu_segment_t list \<Rightarrow> nr_rlc_sdu_segment_t \<Rightarrow> nr_rlc_sdu_segment_t list" where
  "nr_rlc_tx_sdu_segment_list_add e list g =
     insert_before (\<lambda>cur. am_sn_compare_tx e (am_seg_sn e cur) (am_seg_sn e g) > 0
       \<or> (am_seg_sn e cur = am_seg_sn e g \<and> seg_so cur > seg_so g)) g list"

definition am_segment_already_received :: "nr_rlc_entity_am_t \<Rightarrow> int \<Rightarrow> int \<Rightarrow> int \<Rightarrow> bool" where
  "am_segment_already_received e sn so n =
     segment_received_loop (nr_rlc_rx_manager_get_pdu_from_sn (am_rx e) sn) so n"

definition am_sdu_full :: "nr_rlc_entity_am_t \<Rightarrow> int \<Rightarrow> bool" where
  "am_sdu_full e sn =
     (let l = nr_rlc_rx_manager_get_pdu_from_sn (am_rx e) sn
      in if pdus_processed l then False else sdu_full_loop l (-1))"

definition am_sdu_delivered :: "nr_rlc_entity_am_t \<Rightarrow> int \<Rightarrow> bool" where
  "am_sdu_delivered e sn = pdus_processed (nr_rlc_rx_manager_get_pdu_from_sn (am_rx e) sn)"

definition am_sdu_has_missing_bytes :: "nr_rlc_entity_am_t \<Rightarrow> int \<Rightarrow> bool" where
  "am_sdu_has_missing_bytes e sn =
     (let l = nr_rlc_rx_manager_get_pdu_from_sn (am_rx e) sn
      in if pdus_processed l then False else missing_bytes_loop l (-1))"

definition am_reassemble_and_deliver :: "nr_rlc_entity_am_t \<Rightarrow> int \<Rightarrow> nr_rlc_entity_am_t res" where
  "am_reassemble_and_deliver e sn =
     bindE (reassemble_loop (nr_rlc_rx_manager_get_pdu_from_sn (am_rx e) sn) [] False (am_rx_size e))
       (\<lambda>(sdu, bad_sdu, rxs).
          let e = e\<lparr>am_rx := rx_manager_map_pdus (\<lambda>p. p\<lparr>pdu_data := None\<rparr>) (am_rx e) sn,
                    am_rx_size := rxs\<rparr>
          in if bad_sdu then Inr e
             else Inr (upd_stats (\<lambda>s. s\<lparr>txsdu_pkts := txsdu_pkts s + 1\<rparr>) (emit (Deliver_Sdu sdu) e)))"

text \<open>\<open>while (sdu_delivered(entity, sn)) sn = (sn + 1) % entity->sn_modulus;\<close>\<close>

definition am_skip_delivered :: "nr_rlc_entity_am_t \<Rightarrow> int \<Rightarrow> int option" where
  "am_skip_delivered e sn =
     skip_while (\<lambda>sn. am_sdu_delivered e sn) (am_sn_modulus e) sn"

text \<open>
  Update of \<open>rx_next\<close>: free the delivered SDUs at the head of the window. The loop runs on the
  rx manager, the candidate \<open>rx_next\<close> and the count of freed SDUs.
\<close>

definition am_drain :: "int \<Rightarrow> nr_rlc_rx_manager_t \<Rightarrow> int \<Rightarrow> (nr_rlc_rx_manager_t \<times> int \<times> int) option" where
  "am_drain modulus m rx_next =
     while_option (\<lambda>(m, sn, c). pdus_processed (nr_rlc_rx_manager_get_pdu_from_sn m sn))
       (\<lambda>(m, sn, c). (nr_rlc_rx_manager_clear_pdu m sn, (sn + 1) mod modulus, c + 1))
       (m, rx_next, 0)"

definition am_advance_rx_next :: "nr_rlc_entity_am_t \<Rightarrow> nr_rlc_entity_am_t res" where
  "am_advance_rx_next e =
     (case am_drain (am_sn_modulus e) (am_rx e) (am_rx_next e) of
        None \<Rightarrow> Inl Diverges
      | Some (m, rx_next, c) \<Rightarrow>
          Inr (e\<lparr>am_rx_next := rx_next,
                 am_rx := nr_rlc_rx_manager_set_start (nr_rlc_rx_manager_advance m c) rx_next\<rparr>))"

text \<open>The two paragraphs on \<open>t_reassembly\<close> that end \<open>reception_actions\<close>.\<close>

definition am_update_t_reassembly :: "nr_rlc_entity_am_t \<Rightarrow> nr_rlc_entity_am_t" where
  "am_update_t_reassembly e =
     (let m = am_sn_modulus e;
          e = (if am_t_reassembly_start e \<noteq> 0
                  \<and> (am_rx_next_status_trigger e = am_rx_next e
                     \<or> (am_rx_next_status_trigger e = (am_rx_next e + 1) mod m
                        \<and> \<not> am_sdu_has_missing_bytes e (am_rx_next e))
                     \<or> (\<not> am_sn_in_recv_window e (am_rx_next_status_trigger e)
                        \<and> am_rx_next_status_trigger e \<noteq> (am_rx_next e + am_window_size e) mod m))
               then e\<lparr>am_t_reassembly_start := 0\<rparr> else e)
      in if am_t_reassembly_start e = 0
            \<and> (am_sn_compare_rx e (am_rx_next_highest e) ((am_rx_next e + 1) mod m) > 0
               \<or> (am_rx_next_highest e = (am_rx_next e + 1) mod m
                  \<and> am_sdu_has_missing_bytes e (am_rx_next e)))
         then e\<lparr>am_t_reassembly_start := am_t_current e,
                am_rx_next_status_trigger := am_rx_next_highest e\<rparr>
         else e)"

definition am_reception_actions :: "nr_rlc_entity_am_t \<Rightarrow> nr_rlc_pdu_t \<Rightarrow> nr_rlc_entity_am_t res" where
  "am_reception_actions e pdu =
     (let x = pdu_sn pdu;
          e = (if am_sn_compare_rx e x (am_rx_next_highest e) \<ge> 0
               then e\<lparr>am_rx_next_highest := (x + 1) mod am_sn_modulus e\<rparr> else e)
      in bindE
           (if am_sdu_full e x then
              bindE (am_reassemble_and_deliver e x) (\<lambda>e.
              bindE (if x = am_rx_highest_status e
                     then (case am_skip_delivered e (am_rx_highest_status e) of
                             None \<Rightarrow> Inl Diverges
                           | Some sn \<Rightarrow> Inr (e\<lparr>am_rx_highest_status := sn\<rparr>))
                     else Inr e) (\<lambda>e.
              if x = am_rx_next e then am_advance_rx_next e else Inr e))
            else Inr e)
           (\<lambda>e. Inr (am_update_t_reassembly e)))"

definition so_overlap :: "int \<Rightarrow> int \<Rightarrow> int \<Rightarrow> int \<Rightarrow> bool" where
  "so_overlap s1 e1 s2 e2 =
     (if s1 < s2 then e1 = -1 \<or> e1 \<ge> s2 else e2 = -1 \<or> s1 \<le> e2)"

section \<open>STATUS PDU reception\<close>

text \<open>One NACK block as read from the PDU; \<open>nk_so_end = -1\<close> is "all bytes to the end".\<close>

record nack_t =
  nk_sn :: int
  nk_so_start :: int
  nk_so_end :: int
  nk_range :: int

text \<open>
  Reading one NACK block; the result carries the bit E1 that says whether another block follows.
  \<open>Inr None\<close> is \<open>goto err\<close>.
\<close>

definition am_read_nack ::
    "nat \<Rightarrow> nr_rlc_pdu_decoder_t \<Rightarrow> (nack_t \<times> int \<times> nr_rlc_pdu_decoder_t) option res" where
  "am_read_nack len d =
     get_bits_R d len (Inr None) (\<lambda>nack_sn d.
     get_bits_R d 1 (Inr None) (\<lambda>e1 d.
     get_bits_R d 1 (Inr None) (\<lambda>e2 d.
     get_bits_R d 1 (Inr None) (\<lambda>e3 d.
     get_bits_R d (if len = 18 then 3 else 1) (Inr None) (\<lambda>_ d.
     let tail = (\<lambda>so_start so_end d.
           let so_end = (if so_end = 0xffff then -1 else so_end) in
           if e3 \<noteq> 0 then
             get_bits_R d 8 (Inr None) (\<lambda>range d.
               Inr (Some (\<lparr>nk_sn = nack_sn, nk_so_start = so_start, nk_so_end = so_end, nk_range = range\<rparr>, e1, d)))
           else Inr (Some (\<lparr>nk_sn = nack_sn, nk_so_start = so_start, nk_so_end = so_end, nk_range = 1\<rparr>, e1, d)))
     in if e2 \<noteq> 0 then
          get_bits_R d 16 (Inr None) (\<lambda>so_start d.
          get_bits_R d 16 (Inr None) (\<lambda>so_end d. tail so_start so_end d))
        else tail 0 0xffff d)))))"

text \<open>
  \<open>while (e1)\<close>. Every round reads at least one bit, so the number of bits of the PDU is enough
  fuel (lemma \<open>am_read_nacks_enough\<close>).
\<close>

fun am_read_nacks :: "nat \<Rightarrow> nat \<Rightarrow> int \<Rightarrow> nr_rlc_pdu_decoder_t \<Rightarrow> nack_t list option res" where
  "am_read_nacks 0 len e1 d = (if e1 = 0 then Inr (Some []) else Inl Diverges)"
| "am_read_nacks (Suc fuel) len e1 d =
     (if e1 = 0 then Inr (Some [])
      else bindE (am_read_nack len d) (\<lambda>r.
        case r of None \<Rightarrow> Inr None
        | Some (n, e1, d) \<Rightarrow> bindE (am_read_nacks fuel len e1 d) (\<lambda>ns. Inr (map_option ((#) n) ns))))"

text \<open>
  The whole STATUS PDU: ACK_SN and the NACK blocks. The source decodes the PDU twice, first to
  validate and then to process it; the second pass reads the same values, as the first one got to
  the end without error.
\<close>

definition am_decode_control :: "nr_rlc_entity_am_t \<Rightarrow> buffer \<Rightarrow> (int \<times> nack_t list) option res" where
  "am_decode_control e buf =
     (let len = am_sn_field_length e; d = nr_rlc_pdu_decoder_init buf (length buf) in
      get_bits_R d 1 (Inr None) (\<lambda>dc d.
      get_bits_R d 3 (Inr None) (\<lambda>cpt d.
      if cpt \<noteq> 0 then Inr None else
      get_bits_R d len (Inr None) (\<lambda>ack_sn d.
      get_bits_R d 1 (Inr None) (\<lambda>e1 d.
      get_bits_R d (if len = 18 then 1 else 7) (Inr None) (\<lambda>_ d.
      bindE (am_read_nacks (8 * length buf) len e1 d) (\<lambda>ns.
        Inr (map_option (\<lambda>ns. (ack_sn, ns)) ns))))))))"

text \<open>A NACK with a range stands for one NACK per SN of the range.\<close>

definition am_expand_nack :: "nr_rlc_entity_am_t \<Rightarrow> nack_t \<Rightarrow> (int \<times> int \<times> int) list" where
  "am_expand_nack e n =
     map (\<lambda>i. ((nk_sn n + i) mod am_sn_modulus e,
               if i = 0 then nk_so_start n else 0,
               if i = nk_range n - 1 then nk_so_end n else -1)) [0..nk_range n - 1]"

text \<open>
  The validation of one NACK. \<open>prev\<close> is the triple (\<open>prev_nack_sn\<close>, \<open>prev_so_start\<close>,
  \<open>prev_so_end\<close>), which starts as \<open>(-1, 0, 0)\<close>. The validation pass never assigns these three
  variables (only the processing pass does, at \<open>done_nack\<close>), so every NACK is checked against
  the initial triple.
\<close>

definition am_nack_valid ::
    "nr_rlc_entity_am_t \<Rightarrow> int \<Rightarrow> int \<times> int \<times> int \<Rightarrow> int \<times> int \<times> int \<Rightarrow> bool" where
  "am_nack_valid e ack_sn prev cur =
     (case prev of (prev_nack_sn, prev_so_start, prev_so_end) \<Rightarrow>
      case cur of (cur_nack_sn, cur_so_start, cur_so_end) \<Rightarrow>
        \<not> (prev_nack_sn \<noteq> -1
           \<and> (let cmp = am_sn_compare_tx e cur_nack_sn prev_nack_sn
              in cmp < 0 \<or> (cmp = 0 \<and> (prev_so_end = -1 \<or> cur_so_start \<le> prev_so_end))))
        \<and> \<not> am_sn_compare_tx e cur_nack_sn ack_sn > 0)"

definition am_nacks_valid :: "nr_rlc_entity_am_t \<Rightarrow> int \<Rightarrow> nack_t list \<Rightarrow> bool" where
  "am_nacks_valid e ack_sn ns =
     list_all (am_nack_valid e ack_sn (-1, 0, 0)) (concat (map (am_expand_nack e) ns))"

text \<open>
  The state of the processing pass: the entity, the wait list as the part already walked over
  (up to \<open>prev_wait_list\<close>) and the part from \<open>cur_wait_list\<close> on, and the new and the remaining
  retransmit list.
\<close>

record ctl_t =
  ct_e :: nr_rlc_entity_am_t
  ct_wait_done :: "nr_rlc_sdu_segment_t list"
  ct_wait :: "nr_rlc_sdu_segment_t list"
  ct_retx_new :: "nr_rlc_sdu_segment_t list"
  ct_retx :: "nr_rlc_sdu_segment_t list"

datatype ctl_jump = Process_Next_Pdu | Done_Nack | Lists_Over

text \<open>Freeing an acknowledged segment, with the report of an SDU that is fully acknowledged.\<close>

definition am_ack_segment :: "nr_rlc_sdu_segment_t \<Rightarrow> nr_rlc_entity_am_t \<Rightarrow> nr_rlc_entity_am_t" where
  "am_ack_segment g e =
     (let upper_layer_id = sdu_upper_layer_id (sdu_at (store e) g);
          n = sdu_size (sdu_at (store e) g);
          (st, freed) = nr_rlc_free_sdu_segment (store e) g;
          e = e\<lparr>store := st\<rparr>
      in if freed then
           emit (Sdu_Successful_Delivery upper_layer_id)
             (upd_stats (\<lambda>s. s\<lparr>txsdu_bytes := txsdu_bytes s + word_of_int n\<rparr>)
               (e\<lparr>am_tx_size := am_tx_size e - n\<rparr>))
         else e)"

definition am_seg_pdu_size :: "nr_rlc_entity_am_t \<Rightarrow> nr_rlc_sdu_segment_t \<Rightarrow> int" where
  "am_seg_pdu_size e g = am_compute_pdu_header_size e g + seg_size g"

text \<open>A NACKed segment goes to the retransmit list.\<close>

definition am_nack_segment :: "nr_rlc_sdu_segment_t \<Rightarrow> nr_rlc_entity_am_t \<Rightarrow> nr_rlc_entity_am_t" where
  "am_nack_segment g e =
     (let e = e\<lparr>store := sdu_upd (store e) g (\<lambda>s. s\<lparr>sdu_retx_count := sdu_retx_count s + 1\<rparr>)\<rparr>;
          e = (if sdu_retx_count (sdu_at (store e) g)
                    \<ge> am_max_retx_threshold e * sdu_ref_count (sdu_at (store e) g)
               then emit Max_Retx_Reached e else e)
      in add_bs_retx (am_seg_pdu_size e g) e)"

text \<open>Label \<open>process_wait_list_head\<close>.\<close>

definition am_wait_list_head ::
    "int \<Rightarrow> int \<times> int \<times> int \<Rightarrow> ctl_t \<Rightarrow> nr_rlc_sdu_segment_t \<Rightarrow> nr_rlc_sdu_segment_t list \<Rightarrow> ctl_jump \<times> ctl_t" where
  "am_wait_list_head ack_sn nack c g rest =
     (case nack of (cur_nack_sn, cur_so_start, cur_so_end) \<Rightarrow>
      let e = ct_e c; sn = am_seg_sn e g; cmp = am_sn_compare_tx e sn cur_nack_sn in
      if sn = cur_nack_sn \<and> so_overlap cur_so_start cur_so_end (seg_so g) (seg_so g + seg_size g - 1) then
        (Process_Next_Pdu, c\<lparr>ct_e := am_nack_segment g e, ct_wait := rest,
                             ct_retx_new := ct_retx_new c @ [g]\<rparr>)
      else if cmp > 0 \<or> (cmp = 0 \<and> seg_so g > cur_so_start) then (Done_Nack, c)
      else if am_sn_compare_tx e sn ack_sn < 0 then
        (Process_Next_Pdu, c\<lparr>ct_e := am_ack_segment g e, ct_wait := rest\<rparr>)
      else if am_sn_compare_tx e sn ack_sn > 0 then
        (Process_Next_Pdu, c\<lparr>ct_wait_done := ct_wait_done c @ g # rest, ct_wait := []\<rparr>)
      else (Process_Next_Pdu, c\<lparr>ct_wait_done := ct_wait_done c @ [g], ct_wait := rest\<rparr>))"

text \<open>
  Label \<open>process_retransmit_list_head\<close>. In the branch for an empty wait list the rest of the
  retransmit list is linked behind \<open>new_retransmit_list\<close> and \<open>cur_retransmit_list\<close> becomes NULL;
  the final \<open>new_retransmit_list->next = cur_retransmit_list\<close> then overwrites that link with NULL,
  since \<open>new_retransmit_list\<close> still points at the same element. The rest of the list is lost.
\<close>

definition am_retransmit_list_head ::
    "int \<Rightarrow> int \<times> int \<times> int \<Rightarrow> ctl_t \<Rightarrow> nr_rlc_sdu_segment_t \<Rightarrow> nr_rlc_sdu_segment_t list \<Rightarrow> ctl_jump \<times> ctl_t" where
  "am_retransmit_list_head ack_sn nack c g rest =
     (case nack of (cur_nack_sn, cur_so_start, cur_so_end) \<Rightarrow>
      let e = ct_e c; sn = am_seg_sn e g; cmp = am_sn_compare_tx e sn cur_nack_sn in
      if sn = cur_nack_sn \<and> so_overlap cur_so_start cur_so_end (seg_so g) (seg_so g + seg_size g - 1) then
        (Process_Next_Pdu, c\<lparr>ct_retx := rest, ct_retx_new := ct_retx_new c @ [g]\<rparr>)
      else if cmp > 0 \<or> (cmp = 0 \<and> seg_so g > cur_so_start) then (Done_Nack, c)
      else if am_sn_compare_tx e sn ack_sn < 0 then
        (Process_Next_Pdu, c\<lparr>ct_e := am_ack_segment g (add_bs_retx (- am_seg_pdu_size e g) e), ct_retx := rest\<rparr>)
      else if ct_wait c = [] then (Lists_Over, c\<lparr>ct_retx := []\<rparr>)
      else (Process_Next_Pdu, c\<lparr>ct_retx := rest, ct_retx_new := ct_retx_new c @ [g]\<rparr>))"

text \<open>Label \<open>process_next_pdu\<close>: the smallest SN either from the wait list or the retransmit list.\<close>

definition am_nack_step :: "int \<Rightarrow> int \<times> int \<times> int \<Rightarrow> ctl_t \<Rightarrow> ctl_jump \<times> ctl_t" where
  "am_nack_step ack_sn nack c =
     (case ct_wait c of
        [] \<Rightarrow> (case ct_retx c of
                 [] \<Rightarrow> (Lists_Over, c)
               | r # rs \<Rightarrow> am_retransmit_list_head ack_sn nack c r rs)
      | w # ws \<Rightarrow> (case ct_retx c of
                 [] \<Rightarrow> am_wait_list_head ack_sn nack c w ws
               | r # rs \<Rightarrow>
                   let e = ct_e c; cmp = am_sn_compare_tx e (am_seg_sn e w) (am_seg_sn e r) in
                   if cmp < 0 \<or> (cmp = 0 \<and> seg_so w < seg_so r)
                   then am_wait_list_head ack_sn nack c w ws
                   else am_retransmit_list_head ack_sn nack c r rs))"

lemma am_nack_step_decreases:
  "am_nack_step ack_sn nack c = (Process_Next_Pdu, c') \<Longrightarrow>
   length (ct_wait c') + length (ct_retx c') < length (ct_wait c) + length (ct_retx c)"
  by (auto simp: am_nack_step_def am_wait_list_head_def am_retransmit_list_head_def Let_def
      split: list.splits if_splits prod.splits)

text \<open>The rounds for one NACK; the flag says whether the loop left by \<open>lists_over\<close>.\<close>

function am_nack_loop :: "int \<Rightarrow> int \<times> int \<times> int \<Rightarrow> ctl_t \<Rightarrow> bool \<times> ctl_t" where
  "am_nack_loop ack_sn nack c =
     (case am_nack_step ack_sn nack c of
        (Process_Next_Pdu, c') \<Rightarrow> am_nack_loop ack_sn nack c'
      | (Done_Nack, c') \<Rightarrow> (False, c')
      | (Lists_Over, c') \<Rightarrow> (True, c'))"
  by pat_completeness auto
termination
  by (relation "measure (\<lambda>(a, n, c). length (ct_wait c) + length (ct_retx c))")
    (auto dest!: am_nack_step_decreases[OF sym])

declare am_nack_loop.simps [simp del]

fun am_nack_range_loop :: "int \<Rightarrow> (int \<times> int \<times> int) list \<Rightarrow> ctl_t \<Rightarrow> ctl_t" where
  "am_nack_range_loop ack_sn [] c = c"
| "am_nack_range_loop ack_sn (n # ns) c =
     (case am_nack_loop ack_sn n c of
        (lists_over, c') \<Rightarrow> if lists_over then c' else am_nack_range_loop ack_sn ns c')"

definition am_process_one_nack :: "int \<Rightarrow> nack_t \<Rightarrow> ctl_t \<Rightarrow> ctl_t" where
  "am_process_one_nack ack_sn n c =
     (let c = am_nack_range_loop ack_sn (am_expand_nack (ct_e c) n) c; e = ct_e c in
      if am_sn_compare_tx e (nk_sn n) (am_poll_sn e) \<le> 0
         \<and> am_sn_compare_tx e (am_poll_sn e) ((nk_sn n + nk_range n) mod am_sn_modulus e) < 0
      then c\<lparr>ct_e := e\<lparr>am_t_poll_retransmit_start := 0\<rparr>\<rparr> else c)"

text \<open>The two loops after the NACKs: acknowledge what is left below \<open>ack_sn\<close>.\<close>

fun am_ack_wait_list ::
    "int \<Rightarrow> nr_rlc_sdu_segment_t list \<Rightarrow> nr_rlc_entity_am_t \<Rightarrow> nr_rlc_sdu_segment_t list \<times> nr_rlc_entity_am_t" where
  "am_ack_wait_list ack_sn [] e = ([], e)"
| "am_ack_wait_list ack_sn (g # gs) e =
     (if am_sn_compare_tx e (am_seg_sn e g) ack_sn < 0
      then am_ack_wait_list ack_sn gs (am_ack_segment g e) else (g # gs, e))"

fun am_ack_retransmit_list ::
    "int \<Rightarrow> nr_rlc_sdu_segment_t list \<Rightarrow> nr_rlc_entity_am_t \<Rightarrow> nr_rlc_sdu_segment_t list \<times> nr_rlc_entity_am_t" where
  "am_ack_retransmit_list ack_sn [] e = ([], e)"
| "am_ack_retransmit_list ack_sn (g # gs) e =
     (if am_sn_compare_tx e (am_seg_sn e g) ack_sn < 0
      then am_ack_retransmit_list ack_sn gs (am_ack_segment g (add_bs_retx (- am_seg_pdu_size e g) e))
      else (g # gs, e))"

definition am_update_tx_next_ack :: "int \<Rightarrow> nr_rlc_entity_am_t \<Rightarrow> nr_rlc_entity_am_t" where
  "am_update_tx_next_ack ack_sn e =
     (let t = am_tx_next e;
          t = (case am_wait_list e of [] \<Rightarrow> t
               | g # _ \<Rightarrow> if am_sn_compare_tx e (am_seg_sn e g) t < 0 then am_seg_sn e g else t);
          t = (case am_retransmit_list e of [] \<Rightarrow> t
               | g # _ \<Rightarrow> if am_sn_compare_tx e (am_seg_sn e g) t < 0 then am_seg_sn e g else t);
          t = (if am_sn_compare_tx e ack_sn t < 0 then ack_sn else t)
      in e\<lparr>am_tx_next_ack := t\<rparr>)"

text \<open>The processing pass of \<open>process_control_pdu\<close>.\<close>

definition am_process_status :: "nr_rlc_entity_am_t \<Rightarrow> int \<Rightarrow> nack_t list \<Rightarrow> nr_rlc_entity_am_t" where
  "am_process_status e ack_sn nacks =
     (let e = (if am_sn_compare_tx e (am_poll_sn e) ack_sn < 0
               then e\<lparr>am_t_poll_retransmit_start := 0\<rparr> else e);
          c = \<lparr>ct_e = e, ct_wait_done = [], ct_wait = am_wait_list e,
               ct_retx_new = [], ct_retx = am_retransmit_list e\<rparr>;
          c = fold (am_process_one_nack ack_sn) nacks c;
          (w, e) = am_ack_wait_list ack_sn (ct_wait c) (ct_e c);
          (r, e) = am_ack_retransmit_list ack_sn (ct_retx c) e;
          e = e\<lparr>am_wait_list := ct_wait_done c @ w, am_retransmit_list := ct_retx_new c @ r\<rparr>
      in am_update_tx_next_ack ack_sn e)"

definition am_process_control_pdu :: "nr_rlc_entity_am_t \<Rightarrow> buffer \<Rightarrow> nr_rlc_entity_am_t res" where
  "am_process_control_pdu e buf =
     bindE (am_decode_control e buf) (\<lambda>r.
       case r of
         None \<Rightarrow> Inr e
       | Some (ack_sn, nacks) \<Rightarrow>
           if am_sn_compare_tx e ack_sn (am_tx_next e) > 0 then Inr e
           else if \<not> am_nacks_valid e ack_sn nacks then Inr e
           else Inr (am_process_status e ack_sn nacks))"

section \<open>Data PDU reception\<close>

text \<open>Label \<open>discard\<close>, reached with the poll bit \<open>p\<close> read so far.\<close>

definition am_discard :: "int \<Rightarrow> int \<Rightarrow> nr_rlc_entity_am_t \<Rightarrow> nr_rlc_entity_am_t res" where
  "am_discard p n e =
     Inr (upd_stats (count_rxpdu_dd n) (if p \<noteq> 0 then e\<lparr>am_status_triggered := True\<rparr> else e))"

text \<open>From \<open>data_size = size - decoder.byte\<close> to the end of the function.\<close>

definition am_recv_data ::
    "nr_rlc_entity_am_t \<Rightarrow> buffer \<Rightarrow> nat \<Rightarrow> int \<Rightarrow> bool \<Rightarrow> bool \<Rightarrow> int \<Rightarrow> int \<Rightarrow> nr_rlc_entity_am_t res" where
  "am_recv_data e buf hdr p is_first is_last sn so =
     (let n = int (length buf); data_size = n - int hdr in
      if data_size \<le> 0 then am_discard p n e
      else if am_rx_size e + data_size > am_rx_maxsize e then am_discard p n e
      else if \<not> am_sn_in_recv_window e sn then am_discard p n (upd_stats (count_rxpdu_ow n) e)
      else if am_segment_already_received e sn so data_size then
        am_discard p n (upd_stats (count_rxpdu_dup n) e)
      else
        let pdu = nr_rlc_new_pdu sn so is_first is_last (drop hdr buf);
            e = e\<lparr>am_rx_size := am_rx_size e + data_size,
                  am_rx := nr_rlc_rx_manager_add_pdu (am_rx e) pdu\<rparr>
        in bindE (am_reception_actions e pdu) (\<lambda>e.
             Inr (if p \<noteq> 0 then e\<lparr>am_status_triggered := True\<rparr> else e)))"

text \<open>
  \<open>p\<close> is 0 until its bit is read; a read that fails returns -1 into it. (That branch is not
  reachable, as the D/C bit comes from the same byte.)
\<close>

definition nr_rlc_entity_am_recv_pdu :: "nr_rlc_entity_am_t \<Rightarrow> buffer \<Rightarrow> nr_rlc_entity_am_t res" where
  "nr_rlc_entity_am_recv_pdu e buf =
     (let n = int (length buf);
          e = upd_stats (count_rxpdu n) e;
          d = nr_rlc_pdu_decoder_init buf (length buf) in
      get_bits_R d 1 (am_discard 0 n e) (\<lambda>dc d.
      if dc = 0 then am_process_control_pdu e buf else
      get_bits_R d 1 (am_discard (-1) n e) (\<lambda>p d.
      get_bits_R d 2 (am_discard p n e) (\<lambda>si d.
      let is_first = \<not> bit si 1; is_last = \<not> bit si 0;
          after_r = (\<lambda>d.
            get_bits_R d (am_sn_field_length e) (am_discard p n e) (\<lambda>sn d.
            if \<not> is_first then
              get_bits_R d 16 (am_discard p n e) (\<lambda>so d.
                if so = 0 then am_discard p n e
                else am_recv_data e buf (dec_byte d) p is_first is_last sn so)
            else am_recv_data e buf (dec_byte d) p is_first is_last sn 0))
      in if am_sn_field_length e = 18 then get_bits_R d 2 (am_discard p n e) (\<lambda>_ d. after_r d)
         else after_r d))))"

end
