(* ===== verification/RLC_Am_Tx.thy ===== *)
theory RLC_Am_Tx
  imports RLC_Am
begin

text \<open>
  Transmission half of the acknowledged-mode entity (\<open>nr_rlc_entity_am.c\<close> from the section "TX
  functions" on): window stalling and polling, serialisation and segmentation, generation of
  STATUS PDUs and of their announced size, retransmission and transmission of data, reception of
  SDUs, the two timers, discard, re-establishment and deletion.

  A buffer given by the MAC is a list of \<open>size\<close> bytes; an operation that fills it returns the
  entity, the buffer and the number of bytes used.
\<close>

section \<open>TX functions\<close>

definition am_is_window_stalling :: "nr_rlc_entity_am_t \<Rightarrow> bool" where
  "am_is_window_stalling e \<longleftrightarrow>
     \<not> (am_sn_compare_tx e (am_tx_next_ack e) (am_tx_next e) \<le> 0
        \<and> am_sn_compare_tx e (am_tx_next e)
             ((am_tx_next_ack e + am_window_size e) mod am_sn_modulus e) < 0)"

text \<open>\<open>buffer[i] |= v\<close>\<close>

definition buf_or :: "buffer \<Rightarrow> nat \<Rightarrow> byte \<Rightarrow> buffer res" where
  "buf_or b i v = (if i < length b then Inr (b[i := b ! i OR v]) else Inl Out_Of_Bounds)"

definition am_include_poll :: "nr_rlc_entity_am_t \<Rightarrow> buffer \<Rightarrow> (nr_rlc_entity_am_t \<times> buffer) res" where
  "am_include_poll e buf =
     bindE (buf_or buf 0 0x40) (\<lambda>buf.
       Inr (e\<lparr>am_pdu_without_poll := 0, am_byte_without_poll := 0,
              am_poll_sn := (am_tx_next e - 1 + am_sn_modulus e) mod am_sn_modulus e,
              am_t_poll_retransmit_start := am_t_current e\<rparr>, buf))"

definition am_check_poll_after_pdu_assembly :: "nr_rlc_entity_am_t \<Rightarrow> bool" where
  "am_check_poll_after_pdu_assembly e \<longleftrightarrow>
     (am_tx_list e = [] \<and> am_retransmit_list e = []) \<or> am_is_window_stalling e"

text \<open>The calls of the encoder: D/C, P (set later), the two bits of SI, R, SN, SO.\<close>

definition am_header_fields :: "nr_rlc_entity_am_t \<Rightarrow> nr_rlc_sdu_segment_t \<Rightarrow> (int \<times> nat) list" where
  "am_header_fields e g =
     [(1, 1), (0, 1), (1 - of_bool (seg_is_first g), 1), (1 - of_bool (seg_is_last g), 1)]
     @ (if am_sn_field_length e = 18 then [(0, 2)] else [])
     @ [(am_seg_sn e g, am_sn_field_length e)]
     @ (if \<not> seg_is_first g then [(seg_so g, 16)] else [])"

definition am_serialize_sdu ::
    "nr_rlc_entity_am_t \<Rightarrow> nr_rlc_sdu_segment_t \<Rightarrow> buffer \<Rightarrow> bool \<Rightarrow> (nr_rlc_entity_am_t \<times> buffer \<times> int) res" where
  "am_serialize_sdu e g buf p =
     bindE (put_fields (nr_rlc_pdu_encoder_init buf (length buf)) (am_header_fields e g)) (\<lambda>enc.
     bindE (mem_read (sdu_data (sdu_at (store e) g)) (seg_so g) (seg_size g)) (\<lambda>data.
     bindE (mem_write (enc_buffer enc) (enc_byte enc) data) (\<lambda>buf.
     bindE (if p then am_include_poll e buf else Inr (e, buf)) (\<lambda>(e, buf).
       Inr (e, buf, int (enc_byte enc) + seg_size g)))))"

text \<open>
  The result is the entity (whose store has one more reference to the SDU), the shortened segment
  and the new segment with the remaining bytes.
\<close>

definition am_resegment ::
    "nr_rlc_sdu_segment_t \<Rightarrow> nr_rlc_entity_am_t \<Rightarrow> int
      \<Rightarrow> nr_rlc_entity_am_t \<times> nr_rlc_sdu_segment_t \<times> nr_rlc_sdu_segment_t" where
  "am_resegment g e size_pdu =
     (let e = e\<lparr>store := sdu_upd (store e) g (\<lambda>s. s\<lparr>sdu_ref_count := sdu_ref_count s + 1\<rparr>)\<rparr>;
          pdu_header_size = am_compute_pdu_header_size e g;
          over_size = pdu_header_size + seg_size g - size_pdu;
          g' = g\<lparr>seg_size := seg_size g - over_size, seg_is_last := False\<rparr>;
          nxt = g\<lparr>seg_size := over_size, seg_so := seg_so g' + seg_size g', seg_is_first := False\<rparr>
      in (e, g', nxt))"

section \<open>Status reporting\<close>

text \<open>\<open>ms_next\<close> is the PDU to use for the next call; \<open>ms_sn_start = -1\<close> is "nothing more to report".\<close>

record missing_data_t =
  ms_sn_start :: int
  ms_so_start :: int
  ms_sn_end :: int
  ms_so_end :: int
  ms_next :: "nr_rlc_pdu_t list"

definition no_missing :: missing_data_t where
  "no_missing = \<lparr>ms_sn_start = -1, ms_so_start = 0, ms_sn_end = 0, ms_so_end = 0, ms_next = []\<rparr>"

text \<open>
  The search of \<open>get_first_rx_pdu\<close> and \<open>get_next_rx_pdu\<close>: from \<open>sn\<close> to the first SN with a PDU,
  at most to \<open>rx_highest_status\<close>.
\<close>

definition am_find_rx_pdu :: "nr_rlc_entity_am_t \<Rightarrow> int \<Rightarrow> nr_rlc_pdu_t list option" where
  "am_find_rx_pdu e sn =
     map_option (nr_rlc_rx_manager_get_pdu_from_sn (am_rx e))
       (skip_while
         (\<lambda>sn. sn \<noteq> am_rx_highest_status e \<and> nr_rlc_rx_manager_get_pdu_from_sn (am_rx e) sn = [])
         (am_sn_modulus e) sn)"

definition am_get_first_rx_pdu :: "nr_rlc_entity_am_t \<Rightarrow> nr_rlc_pdu_t list option" where
  "am_get_first_rx_pdu e = am_find_rx_pdu e (am_rx_next e)"

definition am_get_next_rx_pdu ::
    "nr_rlc_entity_am_t \<Rightarrow> nr_rlc_pdu_t \<Rightarrow> nr_rlc_pdu_t list \<Rightarrow> nr_rlc_pdu_t list option" where
  "am_get_next_rx_pdu e cur rest =
     (if rest \<noteq> [] then Some rest
      else if pdu_sn cur = am_rx_highest_status e then Some []
      else am_find_rx_pdu e ((pdu_sn cur + 1) mod am_sn_modulus e))"

text \<open>"Don't report if out of reporting window".\<close>

definition am_out_of_report :: "nr_rlc_entity_am_t \<Rightarrow> int \<Rightarrow> bool" where
  "am_out_of_report e sn \<longleftrightarrow> am_sn_compare_rx e (am_rx_highest_status e) sn \<le> 0"

definition am_last_reportable :: "nr_rlc_entity_am_t \<Rightarrow> int" where
  "am_last_reportable e = (am_rx_highest_status e - 1 + am_sn_modulus e) mod am_sn_modulus e"

text \<open>Label \<open>set_end_different_sdu\<close>.\<close>

definition am_set_end_different_sdu ::
    "nr_rlc_entity_am_t \<Rightarrow> nr_rlc_pdu_t \<Rightarrow> missing_data_t \<Rightarrow> missing_data_t" where
  "am_set_end_different_sdu e cur r =
     (let r = (if pdu_is_first cur
               then r\<lparr>ms_sn_end := (pdu_sn cur - 1 + am_sn_modulus e) mod am_sn_modulus e, ms_so_end := 0xffff\<rparr>
               else r\<lparr>ms_sn_end := pdu_sn cur, ms_so_end := pdu_so cur - 1\<rparr>)
      in if am_out_of_report e (ms_sn_end r)
         then r\<lparr>ms_sn_end := am_last_reportable e, ms_so_end := 0xffff, ms_next := []\<rparr> else r)"

text \<open>The branch "no next?".\<close>

definition am_missing_at_end ::
    "nr_rlc_entity_am_t \<Rightarrow> nr_rlc_pdu_t \<Rightarrow> int \<Rightarrow> bool \<Rightarrow> missing_data_t" where
  "am_missing_at_end e cur max_so last_reached =
     (let next_sn = (pdu_sn cur + 1) mod am_sn_modulus e;
          (sn_start, so_start) =
            (if pdu_data cur = None then (next_sn, 0)
             else if last_reached then (next_sn, 0)
             else (pdu_sn cur, max_so + 1))
      in if am_out_of_report e sn_start then no_missing
         else \<lparr>ms_sn_start = sn_start, ms_so_start = so_start, ms_sn_end = am_last_reportable e,
               ms_so_end = 0xffff, ms_next = []\<rparr>)"

text \<open>
  The loop \<open>next_pdu\<close>. \<open>None\<close> is not returning; the callers never pass the NULL pointer, which
  would not return either.
\<close>

partial_function (option) am_next_pdu_loop ::
    "nr_rlc_entity_am_t \<Rightarrow> nr_rlc_pdu_t list \<Rightarrow> int \<Rightarrow> bool \<Rightarrow> missing_data_t option" where
  "am_next_pdu_loop e l max_so last_reached =
     (case l of [] \<Rightarrow> None
      | p # rest \<Rightarrow>
        let sn = pdu_sn p;
            cur_max_so = pdu_so p + pdu_size p - 1;
            max_so = (if cur_max_so > max_so then cur_max_so else max_so);
            last_reached = (last_reached \<or> pdu_is_last p)
        in Option.bind (am_get_next_rx_pdu e p rest) (\<lambda>nxt.
          case nxt of [] \<Rightarrow> Some (am_missing_at_end e p max_so last_reached)
          | cur # _ \<Rightarrow>
            if pdu_sn cur = sn \<and> max_so \<ge> pdu_so cur - 1 then
              am_next_pdu_loop e nxt max_so last_reached
            else if pdu_sn cur = (sn + 1) mod am_sn_modulus e \<and> last_reached \<and> pdu_is_first cur then
              am_next_pdu_loop e nxt 0 False
            else if pdu_sn cur = sn then
              Some (if am_out_of_report e sn then no_missing
                    else \<lparr>ms_sn_start = sn, ms_so_start = max_so + 1, ms_sn_end = sn,
                          ms_so_end = pdu_so cur - 1, ms_next = nxt\<rparr>)
            else
              let (sn_start, so_start) =
                    (if last_reached then ((sn + 1) mod am_sn_modulus e, 0) else (sn, max_so + 1))
              in Some (if am_out_of_report e sn_start then no_missing
                       else am_set_end_different_sdu e cur
                         \<lparr>ms_sn_start = sn_start, ms_so_start = so_start, ms_sn_end = 0,
                          ms_so_end = 0, ms_next = nxt\<rparr>)))"

definition am_next_missing ::
    "nr_rlc_entity_am_t \<Rightarrow> nr_rlc_pdu_t list \<Rightarrow> bool \<Rightarrow> missing_data_t option" where
  "am_next_missing e l check_head =
     (case l of [] \<Rightarrow> None
      | cur # _ \<Rightarrow>
        if check_head \<and> (pdu_sn cur \<noteq> am_rx_next e \<or> \<not> pdu_is_first cur) then
          Some (if am_out_of_report e (am_rx_next e) then no_missing
                else am_set_end_different_sdu e cur
                  \<lparr>ms_sn_start = am_rx_next e, ms_so_start = 0, ms_sn_end = 0, ms_so_end = 0, ms_next = l\<rparr>)
        else am_next_pdu_loop e l 0 False)"

definition am_nack_size :: "nr_rlc_entity_am_t \<Rightarrow> missing_data_t \<Rightarrow> int" where
  "am_nack_size e m =
     (let nack_length = 2 + (if am_sn_field_length e = 18 then 1 else 0);
          whole = (ms_so_start m = 0 \<and> ms_so_end m = 0xffff)
      in if ms_sn_start m = ms_sn_end m then (if whole then nack_length else nack_length + 4)
         else if whole then nack_length + 1 else nack_length + 5)"

definition am_get_e1_position :: "nr_rlc_entity_am_t \<Rightarrow> nr_rlc_pdu_encoder_t \<Rightarrow> nat \<times> nat" where
  "am_get_e1_position e enc =
     (if am_sn_field_length e = 18 then (enc_byte enc + 2, 5) else (enc_byte enc + 1, 3))"

text \<open>
  The range that one round of \<open>generate_missing\<close> (and of \<open>missing_size\<close>) reports, cut at 255 SNs:
  \<open>n\<close> is \<open>sn_count\<close>, \<open>s\<close> the running \<open>sn_start\<close>.
\<close>

definition am_nack_range :: "nr_rlc_entity_am_t \<Rightarrow> missing_data_t \<Rightarrow> nat \<Rightarrow> int \<Rightarrow> missing_data_t" where
  "am_nack_range e m n s =
     \<lparr>ms_sn_start = s,
      ms_so_start = (if s = ms_sn_start m then ms_so_start m else 0),
      ms_sn_end = (if n \<le> 255 then ms_sn_end m else (s + 254) mod am_sn_modulus e),
      ms_so_end = (if n \<le> 255 then ms_so_end m else 0xffff),
      ms_next = []\<rparr>"

definition am_sn_count :: "nr_rlc_entity_am_t \<Rightarrow> missing_data_t \<Rightarrow> nat" where
  "am_sn_count e m =
     nat ((ms_sn_end m - ms_sn_start m + am_sn_modulus e) mod am_sn_modulus e + 1)"

text \<open>
  What \<open>generate_missing\<close> reads and writes through its pointer arguments: the encoder, the position
  of the last E1 bit, the address of the last SOend, and its local \<open>last_nack_generated\<close>.
\<close>

record status_gen =
  sg_enc :: nr_rlc_pdu_encoder_t
  sg_e1_byte :: nat
  sg_e1_bit :: nat
  sg_so_end :: "nat option"
  sg_truncated :: bool
  sg_last_nack :: int

text \<open>One NACK block: NACK_SN, E1, E2, E3, R, then SOstart, SOend and the range when present.\<close>

definition am_put_nack ::
    "nr_rlc_entity_am_t \<Rightarrow> missing_data_t \<Rightarrow> int \<Rightarrow> status_gen \<Rightarrow> status_gen res" where
  "am_put_nack e r cur_sn_count s =
     (let r_bits = (if am_sn_field_length e = 18 then 3 else 1);
          whole = (ms_so_start r = 0 \<and> ms_so_end r = 0xffff);
          e2 = \<not> whole; e3 = (ms_sn_start r \<noteq> ms_sn_end r);
          (e1_byte, e1_bit) = am_get_e1_position e (sg_enc s)
      in bindE (buf_or (enc_buffer (sg_enc s)) (sg_e1_byte s) (push_bit (sg_e1_bit s) 1)) (\<lambda>buf.
         bindE (put_fields ((sg_enc s)\<lparr>enc_buffer := buf\<rparr>)
                  [(ms_sn_start r, am_sn_field_length e), (0, 1), (of_bool e2, 1), (of_bool e3, 1), (0, r_bits)])
           (\<lambda>enc.
         bindE (if e2 then
                  bindE (put_fields enc [(ms_so_start r, 16)]) (\<lambda>enc.
                  bindE (put_fields enc [(ms_so_end r, 16)]) (\<lambda>enc'. Inr (enc', Some (enc_byte enc))))
                else Inr (enc, None)) (\<lambda>(enc, so_end).
         bindE (if e3 then put_fields enc [(cur_sn_count, 8)] else Inr enc) (\<lambda>enc.
           Inr (s\<lparr>sg_enc := enc, sg_e1_byte := e1_byte, sg_e1_bit := e1_bit, sg_so_end := so_end,
                  sg_last_nack := ms_sn_start r + (if e3 then cur_sn_count - 1 else 0)\<rparr>))))))"

function am_generate_missing_loop ::
    "nr_rlc_entity_am_t \<Rightarrow> missing_data_t \<Rightarrow> nat \<Rightarrow> int \<Rightarrow> status_gen \<Rightarrow> status_gen res" where
  "am_generate_missing_loop e m n s g =
     (if n = 0 then Inr g
      else
        let cur = min n 255; r = am_nack_range e m n s in
        if int (enc_byte (sg_enc g)) + am_nack_size e r > int (enc_size (sg_enc g))
        then Inr (g\<lparr>sg_truncated := True\<rparr>)
        else bindE (am_put_nack e r (int cur) g) (\<lambda>g.
          am_generate_missing_loop e m (n - cur) ((s + int cur) mod am_sn_modulus e) g))"
  by pat_completeness auto
termination by (relation "measure (\<lambda>(e, m, n, s, g). n)") auto

declare am_generate_missing_loop.simps [simp del]

definition am_generate_missing ::
    "nr_rlc_entity_am_t \<Rightarrow> missing_data_t \<Rightarrow> status_gen \<Rightarrow> status_gen res" where
  "am_generate_missing e m g =
     am_generate_missing_loop e m (am_sn_count e m) (ms_sn_start m)
       (g\<lparr>sg_truncated := False, sg_last_nack := -1\<rparr>)"

text \<open>The forced SOend of a truncated report.\<close>

definition am_force_so_end :: "status_gen \<Rightarrow> status_gen res" where
  "am_force_so_end g =
     (case sg_so_end g of
        None \<Rightarrow> Inr g
      | Some a \<Rightarrow>
          if sg_truncated g then
            bindE (mem_write (enc_buffer (sg_enc g)) a [0xff, 0xff]) (\<lambda>buf.
              Inr (g\<lparr>sg_enc := (sg_enc g)\<lparr>enc_buffer := buf\<rparr>\<rparr>))
          else Inr g)"

partial_function (option) am_status_loop ::
    "nr_rlc_entity_am_t \<Rightarrow> nr_rlc_pdu_t list \<Rightarrow> bool \<Rightarrow> status_gen \<Rightarrow> int \<Rightarrow> (status_gen \<times> int) res option" where
  "am_status_loop e cur check_head g last_nack =
     (if cur = [] then Some (Inr (g, last_nack))
      else Option.bind (am_next_missing e cur check_head) (\<lambda>m.
        if ms_sn_start m = -1 then Some (Inr (g, last_nack))
        else
          case bindE (am_generate_missing e m g) am_force_so_end of
            Inl x \<Rightarrow> Some (Inl x)
          | Inr g \<Rightarrow>
              am_status_loop e (if sg_truncated g then [] else ms_next m) False g
                (if sg_last_nack g \<noteq> -1 then sg_last_nack g else last_nack)))"

definition am_put_ack_sn :: "nr_rlc_entity_am_t \<Rightarrow> int \<Rightarrow> buffer \<Rightarrow> buffer res" where
  "am_put_ack_sn e ack_sn buf =
     (if am_sn_field_length e = 12 then
        mem_write buf 0 [word_of_int (drop_bit 8 ack_sn), word_of_int (ack_sn AND 255)]
      else
        bindE (mem_write buf 0 [word_of_int (drop_bit 14 ack_sn), word_of_int (drop_bit 6 ack_sn AND 255)])
          (\<lambda>buf. buf_or buf 2 (word_of_int (push_bit 2 (ack_sn AND 0x3f)))))"

definition am_generate_status ::
    "nr_rlc_entity_am_t \<Rightarrow> buffer \<Rightarrow> (nr_rlc_entity_am_t \<times> buffer \<times> int) res" where
  "am_generate_status e buf =
     (if length buf < 3 then Inr (e, buf, 0)
      else
        bindE (put_fields (nr_rlc_pdu_encoder_init buf (length buf)) [(0, 8 * 3)]) (\<lambda>enc.
        let g = \<lparr>sg_enc = enc, sg_e1_byte = 2, sg_e1_bit = (if am_sn_field_length e = 18 then 1 else 7),
                 sg_so_end = None, sg_truncated = False, sg_last_nack = -1\<rparr>;
            last_nack = (am_rx_next e - 1 + am_sn_modulus e) mod am_sn_modulus e
        in case Option.bind (am_get_first_rx_pdu e) (\<lambda>cur. am_status_loop e cur True g last_nack) of
             None \<Rightarrow> Inl Diverges
           | Some r \<Rightarrow>
               bindE r (\<lambda>(g, last_nack).
               bindE (am_put_ack_sn e ((last_nack + 1) mod am_sn_modulus e) (enc_buffer (sg_enc g))) (\<lambda>buf.
                 let n = int (enc_byte (sg_enc g));
                     e = e\<lparr>am_status_triggered := False, am_t_status_prohibit_start := am_t_current e\<rparr>;
                     e = upd_stats (\<lambda>s. (count_txpdu n s)\<lparr>txpdu_status_pkts := txpdu_status_pkts s + 1,
                           txpdu_status_bytes := txpdu_status_bytes s + word_of_int n\<rparr>) e
                 in Inr (e, buf, n)))))"

definition am_status_to_report :: "nr_rlc_entity_am_t \<Rightarrow> bool" where
  "am_status_to_report e \<longleftrightarrow>
     am_status_triggered e
     \<and> (am_t_status_prohibit_start e = 0
        \<or> am_t_current e - am_t_status_prohibit_start e > word_of_int (am_t_status_prohibit e))"

text \<open>The size of one NACK block, from the field widths.\<close>

definition am_range_bytes :: "nr_rlc_entity_am_t \<Rightarrow> missing_data_t \<Rightarrow> int" where
  "am_range_bytes e r =
     (let r_bits = (if am_sn_field_length e = 18 then 3 else 1);
          base = int (am_sn_field_length e) + 3 + r_bits;
          whole = (ms_so_start r = 0 \<and> ms_so_end r = 0xffff)
      in if ms_sn_start r = ms_sn_end r
         then (if whole then base div 8 else (base + 16 * 2) div 8)
         else (if whole then (base + 8) div 8 else (base + 16 * 2 + 8) div 8))"

text \<open>The result: the size, the number of ranges, and whether the report was cut.\<close>

function am_missing_size_loop ::
    "nr_rlc_entity_am_t \<Rightarrow> missing_data_t \<Rightarrow> nat \<Rightarrow> int \<Rightarrow> int \<Rightarrow> int \<Rightarrow> int \<Rightarrow> int \<times> int \<times> bool" where
  "am_missing_size_loop e m n s sz cnt maxsize =
     (if n = 0 then (sz, cnt, False)
      else
        let cur = min n 255; r = am_nack_range e m n s in
        if sz + am_nack_size e r > maxsize then (sz, cnt, True)
        else am_missing_size_loop e m (n - cur) ((s + int cur) mod am_sn_modulus e)
               (sz + am_range_bytes e r) (cnt + 1) maxsize)"
  by pat_completeness auto
termination by (relation "measure (\<lambda>(e, m, n, s, sz, c, mx). n)") auto

declare am_missing_size_loop.simps [simp del]

definition am_missing_size ::
    "nr_rlc_entity_am_t \<Rightarrow> missing_data_t \<Rightarrow> int \<Rightarrow> int \<Rightarrow> int \<times> int \<times> bool" where
  "am_missing_size e m sz maxsize =
     am_missing_size_loop e m (am_sn_count e m) (ms_sn_start m) sz 0 maxsize"

partial_function (option) am_status_size_loop ::
    "nr_rlc_entity_am_t \<Rightarrow> nr_rlc_pdu_t list \<Rightarrow> int \<Rightarrow> int \<Rightarrow> int \<Rightarrow> int option" where
  "am_status_size_loop e cur nack_count sz maxsize =
     (if cur = [] then Some sz
      else Option.bind (am_next_missing e cur (nack_count = 0)) (\<lambda>m.
        if ms_sn_start m = -1 then Some sz
        else
          let r = am_missing_size e m sz maxsize
          in am_status_size_loop e (if snd (snd r) then [] else ms_next m)
               (nack_count + fst (snd r)) (fst r) maxsize))"

definition am_status_size :: "nr_rlc_entity_am_t \<Rightarrow> int \<Rightarrow> int res" where
  "am_status_size e maxsize =
     (if maxsize < 3 then Inr 0
      else case Option.bind (am_get_first_rx_pdu e) (\<lambda>cur. am_status_size_loop e cur 0 3 maxsize) of
             None \<Rightarrow> Inl Diverges | Some sz \<Rightarrow> Inr sz)"

declare am_next_pdu_loop.simps [code] am_status_loop.simps [code] am_status_size_loop.simps [code]

section \<open>Transmission and retransmission of data\<close>

text \<open>
  Putting a segment into the wait list: behind the tail when it comes after it, at its sorted
  place otherwise.
\<close>

definition am_put_in_wait_list :: "nr_rlc_sdu_segment_t \<Rightarrow> nr_rlc_entity_am_t \<Rightarrow> nr_rlc_entity_am_t" where
  "am_put_in_wait_list g e =
     (if am_wait_list e = []
         \<or> am_sn_compare_tx e (am_seg_sn e g) (am_seg_sn e (last (am_wait_list e))) > 0
         \<or> (am_sn_compare_tx e (am_seg_sn e g) (am_seg_sn e (last (am_wait_list e))) = 0
            \<and> seg_so g > seg_so (last (am_wait_list e)))
      then e\<lparr>am_wait_list := nr_rlc_sdu_segment_list_append (am_wait_list e) g\<rparr>
      else e\<lparr>am_wait_list := nr_rlc_tx_sdu_segment_list_add e (am_wait_list e) g\<rparr>)"

definition am_generate_retx_pdu ::
    "nr_rlc_entity_am_t \<Rightarrow> buffer \<Rightarrow> (nr_rlc_entity_am_t \<times> buffer \<times> int) res" where
  "am_generate_retx_pdu e buf =
     (case am_retransmit_list e of
        [] \<Rightarrow> Inl Null_Deref
      | g # rest \<Rightarrow>
          let n = int (length buf);
              pdu_header_size = am_compute_pdu_header_size e g in
          if pdu_header_size + 1 > n then Inr (e, buf, 0)
          else
            let e = e\<lparr>am_retransmit_list := rest\<rparr>;
                size_pdu = pdu_header_size + seg_size g;
                e = add_bs_retx (- size_pdu) e;
                (e, g) =
                  (if size_pdu > n then
                     let (e, g, nxt) = am_resegment g e n;
                         e = e\<lparr>am_retransmit_list := nxt # am_retransmit_list e\<rparr>;
                         e = add_bs_retx (am_compute_pdu_header_size e nxt + seg_size nxt) e
                     in (upd_stats (\<lambda>s. s\<lparr>txpdu_segmented := txpdu_segmented s + 1\<rparr>) e, g)
                   else (e, g));
                e = am_put_in_wait_list g e;
                p = (am_check_poll_after_pdu_assembly e \<or> am_force_poll e);
                e = e\<lparr>am_force_poll := False\<rparr>
            in bindE (am_serialize_sdu e g buf p) (\<lambda>(e, buf, ret).
                 Inr (upd_stats (\<lambda>s. (count_txpdu ret s)\<lparr>txpdu_retx_pkts := txpdu_retx_pkts s + 1,
                        txpdu_retx_bytes := txpdu_retx_bytes s + word_of_int ret\<rparr>) e, buf, ret)))"

text \<open>"Assign SN to SDU".\<close>

definition am_assign_sn :: "nr_rlc_sdu_segment_t \<Rightarrow> nr_rlc_entity_am_t \<Rightarrow> nr_rlc_entity_am_t" where
  "am_assign_sn g e =
     (if am_seg_sn e g = -1
      then e\<lparr>store := sdu_upd (store e) g (\<lambda>s. s\<lparr>sdu_sn := am_tx_next e\<rparr>),
             am_tx_next := (am_tx_next e + 1) mod am_sn_modulus e\<rparr>
      else e)"

definition am_generate_tx_pdu ::
    "nr_rlc_entity_am_t \<Rightarrow> buffer \<Rightarrow> u64 \<Rightarrow> (nr_rlc_entity_am_t \<times> buffer \<times> int) res" where
  "am_generate_tx_pdu e buf time_now =
     (if am_is_window_stalling e then Inr (e, buf, 0)
      else case am_tx_list e of
        [] \<Rightarrow> Inr (e, buf, 0)
      | g # rest \<Rightarrow>
          let n = int (length buf);
              pdu_header_size = am_compute_pdu_header_size e g in
          if pdu_header_size + 1 > n then Inr (e, buf, 0)
          else
            let e = e\<lparr>am_tx_list := rest\<rparr>;
                size_pdu = pdu_header_size + seg_size g;
                e = add_bs_tx (- size_pdu) e;
                e = am_assign_sn g e;
                (e, g) =
                  (if size_pdu > n then
                     let (e, g, nxt) = am_resegment g e n;
                         e = e\<lparr>am_tx_list := nxt # am_tx_list e\<rparr>;
                         e = upd_stats (\<lambda>s. s\<lparr>txpdu_segmented := txpdu_segmented s + 1\<rparr>) e
                     in (add_bs_tx (am_compute_pdu_header_size e nxt + seg_size nxt) e, g)
                   else (e, g));
                e = am_put_in_wait_list g e;
                e = e\<lparr>am_pdu_without_poll := am_pdu_without_poll e + 1,
                      am_byte_without_poll := am_byte_without_poll e + seg_size g\<rparr>;
                p = ((am_poll_pdu e \<noteq> -1 \<and> am_pdu_without_poll e \<ge> am_poll_pdu e)
                     \<or> (am_poll_byte e \<noteq> -1 \<and> am_byte_without_poll e \<ge> am_poll_byte e)
                     \<or> am_check_poll_after_pdu_assembly e \<or> am_force_poll e);
                e = e\<lparr>am_force_poll := False\<rparr>
            in bindE (am_serialize_sdu e g buf p) (\<lambda>(e, buf, ret).
                 Inr (record_waiting_time time_now g (upd_stats (count_txpdu ret) e), buf, ret)))"

definition nr_rlc_entity_am_buffer_status ::
    "nr_rlc_entity_am_t \<Rightarrow> int \<Rightarrow> nr_rlc_entity_buffer_status_t res" where
  "nr_rlc_entity_am_buffer_status e maxsize =
     bindE (if am_status_to_report e then am_status_size e maxsize else Inr 0) (\<lambda>n.
       Inr \<lparr>bs_status_size = n, bs_tx_size = bs_tx_size (bstatus e), bs_retx_size = bs_retx_size (bstatus e)\<rparr>)"

definition nr_rlc_entity_am_generate_pdu ::
    "nr_rlc_entity_am_t \<Rightarrow> buffer \<Rightarrow> u64 \<Rightarrow> (nr_rlc_entity_am_t \<times> buffer \<times> int) res" where
  "nr_rlc_entity_am_generate_pdu e buf time_now =
     bindE (if am_status_to_report e then am_generate_status e buf else Inr (e, buf, 0)) (\<lambda>(e, buf, ret).
     if ret \<noteq> 0 then Inr (e, buf, ret) else
     bindE (if am_retransmit_list e \<noteq> [] then am_generate_retx_pdu e buf else Inr (e, buf, 0)) (\<lambda>(e, buf, ret).
     if ret \<noteq> 0 then Inr (e, buf, ret) else am_generate_tx_pdu e buf time_now))"

section \<open>SDU RX functions\<close>

definition am_log_rejected :: "nr_rlc_entity_am_t \<Rightarrow> nr_rlc_entity_am_t" where
  "am_log_rejected e =
     (if am_sdu_rejected e \<noteq> 0 \<and> am_t_current e > am_t_log_buffer_full e + 1000
      then e\<lparr>am_sdu_rejected := 0, am_t_log_buffer_full := am_t_current e\<rparr> else e)"

definition nr_rlc_entity_am_recv_sdu ::
    "nr_rlc_entity_am_t \<Rightarrow> buffer \<Rightarrow> int \<Rightarrow> u64 \<Rightarrow> nr_rlc_entity_am_t res" where
  "nr_rlc_entity_am_recv_sdu e buf sdu_id time_now =
     (let n = int (length buf);
          e = upd_stats (\<lambda>s. s\<lparr>rxsdu_pkts := rxsdu_pkts s + 1\<rparr>) e
      in if n > NR_SDU_MAX then Inl Assert_Fatal
         else
           let e = am_log_rejected e in
           if am_tx_size e + n > am_tx_maxsize e then
             Inr (upd_stats (\<lambda>s. s\<lparr>txpdu_dd_pkts := txpdu_dd_pkts s + 1,
                    txpdu_dd_bytes := txpdu_dd_bytes s + word_of_int n\<rparr>)
                  (e\<lparr>am_sdu_rejected := am_sdu_rejected e + 1\<rparr>))
           else
             let e = e\<lparr>am_tx_size := am_tx_size e + n\<rparr>;
                 e = upd_stats (\<lambda>s. s\<lparr>rxsdu_bytes := rxsdu_bytes s + word_of_int n\<rparr>) e;
                 (st, g) = nr_rlc_new_sdu (store e) buf sdu_id;
                 e = e\<lparr>store := st, am_tx_list := nr_rlc_sdu_segment_list_append (am_tx_list e) g\<rparr>;
                 e = add_bs_tx (am_compute_pdu_header_size e g + seg_size g) e
             in Inr (stamp_arrival time_now g e))"

section \<open>Time and timers\<close>

text \<open>
  The \<open>do\<close> loop of \<open>check_t_poll_retransmit\<close>: \<open>cur\<close> and the following segments with the same SN
  move from the wait list to the retransmit list. The argument is the wait list that is left.
\<close>

definition am_move_to_retransmit :: "nr_rlc_sdu_segment_t \<Rightarrow> nr_rlc_entity_am_t \<Rightarrow> nr_rlc_entity_am_t" where
  "am_move_to_retransmit g e =
     (let e = add_bs_retx (am_compute_pdu_header_size e g + seg_size g) e
      in e\<lparr>am_retransmit_list := nr_rlc_tx_sdu_segment_list_add e (am_retransmit_list e) g\<rparr>)"

fun am_poll_retransmit_loop ::
    "int \<Rightarrow> nr_rlc_sdu_segment_t list \<Rightarrow> nr_rlc_entity_am_t \<Rightarrow> nr_rlc_entity_am_t" where
  "am_poll_retransmit_loop sn [] e = e\<lparr>am_wait_list := []\<rparr>"
| "am_poll_retransmit_loop sn (g # rest) e =
     (if am_seg_sn e g = sn then am_poll_retransmit_loop sn rest (am_move_to_retransmit g e)
      else e\<lparr>am_wait_list := g # rest\<rparr>)"

definition am_check_t_poll_retransmit :: "nr_rlc_entity_am_t \<Rightarrow> nr_rlc_entity_am_t res" where
  "am_check_t_poll_retransmit e =
     (if am_t_poll_retransmit_start e = 0
         \<or> am_t_current e \<le> am_t_poll_retransmit_start e + word_of_int (am_t_poll_retransmit e)
      then Inr e
      else
        let e = e\<lparr>am_t_poll_retransmit_start := 0, am_force_poll := True\<rparr> in
        if \<not> am_check_poll_after_pdu_assembly e then Inr e
        else case am_wait_list e of
          [] \<Rightarrow> Inl Null_Deref
        | cur # rest \<Rightarrow>
            let e = e\<lparr>store := sdu_upd (store e) cur (\<lambda>s. s\<lparr>sdu_retx_count := sdu_retx_count s + 1\<rparr>)\<rparr>;
                retx_count = sdu_retx_count (sdu_at (store e) cur);
                retransmit_sn = am_seg_sn e cur;
                e = am_poll_retransmit_loop retransmit_sn rest (am_move_to_retransmit cur e)
            in Inr (if retx_count \<ge> am_max_retx_threshold e then emit Max_Retx_Reached e else e))"

definition am_check_t_reassembly :: "nr_rlc_entity_am_t \<Rightarrow> nr_rlc_entity_am_t res" where
  "am_check_t_reassembly e =
     (if am_t_reassembly_start e = 0
         \<or> am_t_current e \<le> am_t_reassembly_start e + word_of_int (am_t_reassembly e)
      then Inr e
      else
        let e = e\<lparr>am_t_reassembly_start := 0\<rparr> in
        case am_skip_delivered e (am_rx_next_status_trigger e) of
          None \<Rightarrow> Inl Diverges
        | Some sn \<Rightarrow>
            let e = e\<lparr>am_rx_highest_status := sn, am_status_triggered := True\<rparr>;
                v = (am_rx_highest_status e + 1) mod am_sn_modulus e
            in Inr (if am_sn_compare_rx e (am_rx_next_highest e) v > 0
                       \<or> (am_rx_next_highest e = v \<and> am_sdu_has_missing_bytes e (am_rx_highest_status e))
                    then e\<lparr>am_t_reassembly_start := am_t_current e,
                           am_rx_next_status_trigger := am_rx_next_highest e\<rparr>
                    else e))"

definition nr_rlc_entity_am_set_time :: "nr_rlc_entity_am_t \<Rightarrow> u64 \<Rightarrow> nr_rlc_entity_am_t res" where
  "nr_rlc_entity_am_set_time e now =
     bindE (am_check_t_poll_retransmit (e\<lparr>am_t_current := now\<rparr>)) am_check_t_reassembly"

section \<open>Discard, re-establishment, deletion\<close>

definition nr_rlc_entity_am_discard_sdu :: "nr_rlc_entity_am_t \<Rightarrow> int \<Rightarrow> nr_rlc_entity_am_t" where
  "nr_rlc_entity_am_discard_sdu e sdu_id =
     (let other = (\<lambda>g. sdu_upper_layer_id (sdu_at (store e) g) \<noteq> sdu_id) in
      case dropWhile other (am_tx_list e) of
        [] \<Rightarrow> e
      | cur # rest \<Rightarrow>
          if \<not> seg_is_first cur \<or> \<not> seg_is_last cur then e
          else
            let e = e\<lparr>am_tx_list := takeWhile other (am_tx_list e) @ rest\<rparr>;
                e = add_bs_tx (- (am_compute_pdu_header_size e cur + seg_size cur)) e;
                e = e\<lparr>am_tx_size := am_tx_size e - sdu_size (sdu_at (store e) cur)\<rparr>
            in e\<lparr>store := fst (nr_rlc_free_sdu_segment (store e) cur)\<rparr>)"

definition am_clear_entity :: "nr_rlc_entity_am_t \<Rightarrow> nr_rlc_entity_am_t" where
  "am_clear_entity e =
     e\<lparr>am_rx_next := 0, am_rx_next_status_trigger := 0, am_rx_highest_status := 0,
       am_rx_next_highest := 0, am_status_triggered := False,
       am_tx_next := 0, am_tx_next_ack := 0, am_poll_sn := 0, am_pdu_without_poll := 0,
       am_byte_without_poll := 0, am_force_poll := False, am_t_current := 0,
       am_t_log_buffer_full := 0, am_sdu_rejected := 0, am_t_poll_retransmit_start := 0,
       am_t_reassembly_start := 0, am_t_status_prohibit_start := 0,
       am_rx := nr_rlc_clear_rx_manager (am_rx e), am_rx_size := 0,
       store := nr_rlc_free_sdu_segment_list
                  (nr_rlc_free_sdu_segment_list
                    (nr_rlc_free_sdu_segment_list (store e) (am_tx_list e)) (am_wait_list e))
                  (am_retransmit_list e),
       am_tx_list := [], am_tx_size := 0, am_wait_list := [], am_retransmit_list := [],
       bstatus := (bstatus e)\<lparr>bs_tx_size := 0, bs_retx_size := 0\<rparr>\<rparr>"

definition nr_rlc_entity_am_reestablishment :: "nr_rlc_entity_am_t \<Rightarrow> nr_rlc_entity_am_t" where
  "nr_rlc_entity_am_reestablishment e = am_clear_entity e"

text \<open>Deleting an entity clears it and frees it; what is left is the memory of its SDUs.\<close>

definition nr_rlc_entity_am_delete :: "nr_rlc_entity_am_t \<Rightarrow> sdu_store" where
  "nr_rlc_entity_am_delete e = store (am_clear_entity e)"

definition nr_rlc_entity_am_available_tx_space :: "nr_rlc_entity_am_t \<Rightarrow> int" where
  "nr_rlc_entity_am_available_tx_space e = am_tx_maxsize e - am_tx_size e"

end
