(* ===== verification/RLC_Am_Rx.thy ===== *)
theory RLC_Am_Rx
  imports RLC_Am
begin

text \<open>
  Correctness of the reception half of the AM entity: the invariant of the reception window and
  its preservation, the movement of the window, the termination of its loops, reassembly of
  exactly what was sent, and the treatment of malformed input.
\<close>

section \<open>The window of an rx manager\<close>

abbreviation rx_lookup :: "nr_rlc_rx_manager_t \<Rightarrow> int \<Rightarrow> nr_rlc_pdu_t list" where
  "rx_lookup \<equiv> nr_rlc_rx_manager_get_pdu_from_sn"

text \<open>The \<open>k\<close>-th SN of the window.\<close>

definition rx_at :: "nr_rlc_rx_manager_t \<Rightarrow> int \<Rightarrow> int" where
  "rx_at m k = (rxm_sn_start m + k) mod (2 * rxm_size m)"

lemma rxm_at_eq: "rxm.at m k = rx_at m k"
  by (simp add: rxm.at_def rx_at_def)

lemmas rx_at_in_window = rxm.at_in_window[unfolded rxm_at_eq]
lemmas rx_in_window_at = rxm.in_window_at[unfolded rxm_at_eq]
lemmas rx_at_inject = rxm.at_inject[unfolded rxm_at_eq]

text \<open>Slots repeat with the size of the window.\<close>

lemma rx_lookup_mod: "rx_lookup m (x mod (2 * rxm_size m)) = rx_lookup m x"
proof -
  let ?w = "rxm_size m"
  have "(x mod (2 * ?w) - rxm_sn_start m) mod ?w = (x mod (2 * ?w) mod ?w - rxm_sn_start m) mod ?w"
    by (simp add: mod_diff_left_eq)
  also have "\<dots> = (x - rxm_sn_start m) mod ?w" by (simp add: mod_mod_cancel mod_diff_left_eq)
  finally have "(rxm_start m + (x mod (2 * ?w) - rxm_sn_start m)) mod ?w
      = (rxm_start m + (x - rxm_sn_start m)) mod ?w" by (metis mod_add_right_eq)
  then show ?thesis by (simp add: nr_rlc_rx_manager_get_pdu_from_sn_def get_pos_mod)
qed

lemma rx_lookup_wrap: "rx_lookup m (x + rxm_size m) = rx_lookup m x"
proof -
  have "rxm_start m + (x + rxm_size m - rxm_sn_start m) = rxm_start m + (x - rxm_sn_start m) + rxm_size m"
    by simp
  then show ?thesis
    unfolding nr_rlc_rx_manager_get_pdu_from_sn_def get_pos_mod by (metis mod_add_self2)
qed

lemma rx_lookup_at_wrap: "rx_lookup m (rx_at m (k + rxm_size m)) = rx_lookup m (rx_at m k)"
  using rx_lookup_wrap[of m "rxm_sn_start m + k"] by (simp add: rx_at_def rx_lookup_mod add.assoc)

lemma rx_lookup_nth:
  assumes "rxm_inv m"
  shows "rx_lookup m sn \<in> set (rxm_list m)"
  using get_pos_nat[OF assms] by (simp add: nr_rlc_rx_manager_get_pdu_from_sn_def)

section \<open>Slots\<close>

text \<open>
  A slot holds the segments of one SDU by increasing SO. As long as the SDU is not delivered all
  segments have their bytes; once it is, the first one has SO 0 and no bytes.
\<close>

definition slot_ok :: "nr_rlc_pdu_t list \<Rightarrow> bool" where
  "slot_ok l \<longleftrightarrow> sorted (map pdu_so l)
     \<and> (\<forall>p \<in> set l. 0 \<le> pdu_so p \<and> 0 < pdu_size p
          \<and> (case pdu_data p of None \<Rightarrow> True | Some d \<Rightarrow> int (length d) = pdu_size p))
     \<and> (if pdus_processed l then pdu_so (hd l) = 0 else \<forall>p \<in> set l. pdu_data p \<noteq> None)"

definition pending :: "nr_rlc_pdu_t list \<Rightarrow> int" where
  "pending l = sum_list (map (\<lambda>p. if pdu_data p = None then 0 else pdu_size p) l)"

definition rx_pending :: "nr_rlc_rx_manager_t \<Rightarrow> int" where
  "rx_pending m = sum_list (map pending (rxm_list m))"

definition rxm_ok :: "nr_rlc_rx_manager_t \<Rightarrow> bool" where
  "rxm_ok m \<longleftrightarrow> rxm_inv m \<and> (\<forall>l \<in> set (rxm_list m). slot_ok l)
     \<and> (\<forall>k. 0 \<le> k \<and> k < rxm_size m \<longrightarrow> (\<forall>p \<in> set (rx_lookup m (rx_at m k)). pdu_sn p = rx_at m k))"

lemma slot_ok_Nil [simp]: "slot_ok []"
  by (simp add: slot_ok_def pdus_processed_def)

lemma pending_Nil [simp]: "pending [] = 0"
  by (simp add: pending_def)

lemma pending_nonneg: "slot_ok l \<Longrightarrow> 0 \<le> pending l"
  unfolding pending_def by (rule sum_list_nonneg) (auto simp: slot_ok_def less_imp_le)

lemma pending_all:
  "slot_ok l \<Longrightarrow> \<not> pdus_processed l \<Longrightarrow> pending l = sum_list (map pdu_size l)"
  unfolding pending_def by (rule arg_cong[of _ _ sum_list], rule map_cong) (auto simp: slot_ok_def)

lemma rx_pending_nonneg: "rxm_ok m \<Longrightarrow> 0 \<le> rx_pending m"
  unfolding rx_pending_def by (rule sum_list_nonneg) (auto simp: rxm_ok_def intro: pending_nonneg)

lemma rxm_okD:
  assumes "rxm_ok m"
  shows "rxm_inv m" and "slot_ok (rx_lookup m sn)"
  using assms rx_lookup_nth[of m sn] by (auto simp: rxm_ok_def)

lemma pdus_processed_insert:
  assumes "slot_ok l" and "0 \<le> pdu_so p" and "pdu_data p \<noteq> None"
  shows "pdus_processed (ins_by_so p l) = pdus_processed l"
proof (cases l)
  case (Cons q qs)
  show ?thesis
  proof (cases "pdus_processed l")
    case True
    then have "pdu_so q = 0" using assms(1) Cons by (simp add: slot_ok_def)
    then show ?thesis using True Cons assms(2) by (simp add: ins_by_so_def pdus_processed_def)
  next
    case False
    then show ?thesis using Cons assms(3) by (auto simp: ins_by_so_def pdus_processed_def)
  qed
qed (use assms in \<open>simp add: ins_by_so_def pdus_processed_def\<close>)

lemma slot_ok_insert:
  assumes ok: "slot_ok l" and p: "0 \<le> pdu_so p" "0 < pdu_size p" "pdu_data p = Some d" "int (length d) = pdu_size p"
  shows "slot_ok (ins_by_so p l)" and "pending (ins_by_so p l) = pending l + pdu_size p"
proof -
  have s: "sorted (map pdu_so (ins_by_so p l))"
    unfolding ins_by_so_def using ok by (intro insert_before_sorted) (auto simp: slot_ok_def)
  have set: "set (ins_by_so p l) = insert p (set l)" by (simp add: ins_by_so_def)
  have "pdu_so (hd (ins_by_so p l)) = 0" if pr: "pdus_processed l"
  proof -
    obtain q qs where "l = q # qs" using pr by (cases l) (auto simp: pdus_processed_def)
    then show ?thesis using ok pr p(1) by (auto simp: ins_by_so_def slot_ok_def)
  qed
  then show "slot_ok (ins_by_so p l)"
    using s ok p pdus_processed_insert[OF ok p(1)] by (auto simp: slot_ok_def set)
  show "pending (ins_by_so p l) = pending l + pdu_size p"
    using p by (simp add: pending_def ins_by_so_def sum_list_insert_before)
qed

text \<open>The slot of a delivered SDU.\<close>

definition mark_delivered :: "nr_rlc_pdu_t \<Rightarrow> nr_rlc_pdu_t" where
  "mark_delivered p = p\<lparr>pdu_data := None\<rparr>"

lemma slot_ok_delivered:
  assumes "slot_ok l" and "sdu_full_loop l (-1)"
  shows "slot_ok (map mark_delivered l)" and "pending (map mark_delivered l) = 0"
    and "pdus_processed (map mark_delivered l)"
proof -
  obtain q qs where l: "l = q # qs" using assms(2) by (cases l) auto
  have so: "pdu_so \<circ> mark_delivered = pdu_so" by (simp add: fun_eq_iff mark_delivered_def)
  have "pdu_so q \<le> 0" using assms(2) l by (auto split: if_splits)
  then have q: "pdu_so q = 0" using assms(1) l by (simp add: slot_ok_def)
  show pr: "pdus_processed (map mark_delivered l)" by (simp add: l pdus_processed_def mark_delivered_def)
  show "slot_ok (map mark_delivered l)"
    using assms(1) pr q unfolding slot_ok_def map_map so by (auto simp: l mark_delivered_def)
  show "pending (map mark_delivered l) = 0"
    by (induction l) (auto simp: pending_def mark_delivered_def)
qed

section \<open>Operations on the rx manager\<close>

text \<open>Replacing the contents of one slot of the window.\<close>

lemma rxm_ok_update:
  assumes ok: "rxm_ok m" and win: "sn_in_window (rxm_sn_start m) (rxm_size m) sn"
    and l: "slot_ok l" "\<forall>p \<in> set l. pdu_sn p = sn"
    and m': "m' = m\<lparr>rxm_list := (rxm_list m)[nat (get_pos m sn) := l]\<rparr>"
  shows "rxm_ok m'" and "rx_pending m' = rx_pending m - pending (rx_lookup m sn) + pending l"
    and "\<And>sn'. sn_in_window (rxm_sn_start m) (rxm_size m) sn' \<Longrightarrow>
      rx_lookup m' sn' = (if sn' = sn then l else rx_lookup m sn')"
    and "rxm_sn_start m' = rxm_sn_start m" and "rxm_size m' = rxm_size m"
proof -
  have inv: "rxm_inv m" using ok by (rule rxm_okD)
  show look: "\<And>sn'. sn_in_window (rxm_sn_start m) (rxm_size m) sn' \<Longrightarrow>
      rx_lookup m' sn' = (if sn' = sn then l else rx_lookup m sn')"
    using rxm_upd_lookup[OF inv win] m' by simp
  show st: "rxm_sn_start m' = rxm_sn_start m" "rxm_size m' = rxm_size m" using m' by simp_all
  have at: "rx_at m' k = rx_at m k" for k by (simp add: rx_at_def st)
  have "set (rxm_list m') \<subseteq> insert l (set (rxm_list m))"
    using m' by (simp add: set_update_subset_insert)
  moreover have "rxm_inv m'" using rxm_upd_inv[OF inv] m' by simp
  ultimately show "rxm_ok m'"
    using ok l look rx_at_in_window[OF inv] by (auto simp: rxm_ok_def at st)
  show "rx_pending m' = rx_pending m - pending (rx_lookup m sn) + pending l"
    using sum_list_update_int[OF get_pos_nat[OF inv], of pending sn l] m'
    by (simp add: rx_pending_def nr_rlc_rx_manager_get_pdu_from_sn_def)
qed

lemma rxm_slot_sn:
  assumes "rxm_ok m" and "sn_in_window (rxm_sn_start m) (rxm_size m) sn"
  shows "\<forall>p \<in> set (rx_lookup m sn). pdu_sn p = sn"
proof -
  have inv: "rxm_inv m" using assms(1) by (rule rxm_okD)
  from rx_in_window_at[OF inv assms(2)] assms(1) show ?thesis
    unfolding rxm_ok_def by metis
qed

lemma rxm_add_ok:
  assumes ok: "rxm_ok m" and win: "sn_in_window (rxm_sn_start m) (rxm_size m) (pdu_sn p)"
    and p: "0 \<le> pdu_so p" "0 < pdu_size p" "pdu_data p = Some d" "int (length d) = pdu_size p"
  shows "rxm_ok (nr_rlc_rx_manager_add_pdu m p)"
    and "rx_pending (nr_rlc_rx_manager_add_pdu m p) = rx_pending m + pdu_size p"
proof -
  let ?l = "ins_by_so p (rx_lookup m (pdu_sn p))"
  have eq: "nr_rlc_rx_manager_add_pdu m p = m\<lparr>rxm_list := (rxm_list m)[nat (get_pos m (pdu_sn p)) := ?l]\<rparr>"
    by (simp add: nr_rlc_rx_manager_add_pdu_def Let_def ins_by_so_def nr_rlc_rx_manager_get_pdu_from_sn_def)
  note l = slot_ok_insert[OF rxm_okD(2)[OF ok] p, of "pdu_sn p"]
  have "\<forall>q \<in> set ?l. pdu_sn q = pdu_sn p" using rxm_slot_sn[OF ok win] by (simp add: ins_by_so_def)
  note u = rxm_ok_update[OF ok win l(1) this eq]
  show "rxm_ok (nr_rlc_rx_manager_add_pdu m p)"
    "rx_pending (nr_rlc_rx_manager_add_pdu m p) = rx_pending m + pdu_size p"
    using u(1,2) l(2) by auto
qed

lemma rxm_deliver_ok:
  assumes ok: "rxm_ok m" and win: "sn_in_window (rxm_sn_start m) (rxm_size m) sn"
    and full: "sdu_full_loop (rx_lookup m sn) (-1)" and np: "\<not> pdus_processed (rx_lookup m sn)"
  shows "rxm_ok (rx_manager_map_pdus mark_delivered m sn)"
    and "rx_pending (rx_manager_map_pdus mark_delivered m sn)
      = rx_pending m - sum_list (map pdu_size (rx_lookup m sn))"
proof -
  let ?l = "map mark_delivered (rx_lookup m sn)"
  have eq: "rx_manager_map_pdus mark_delivered m sn = m\<lparr>rxm_list := (rxm_list m)[nat (get_pos m sn) := ?l]\<rparr>"
    by (simp add: rx_manager_map_pdus_def Let_def nr_rlc_rx_manager_get_pdu_from_sn_def)
  note l = slot_ok_delivered[OF rxm_okD(2)[OF ok] full]
  have "\<forall>q \<in> set ?l. pdu_sn q = sn" using rxm_slot_sn[OF ok win] by (simp add: mark_delivered_def)
  note u = rxm_ok_update[OF ok win l(1) this eq]
  show "rxm_ok (rx_manager_map_pdus mark_delivered m sn)" by (rule u(1))
  show "rx_pending (rx_manager_map_pdus mark_delivered m sn)
      = rx_pending m - sum_list (map pdu_size (rx_lookup m sn))"
    using u(2) l(2) pending_all[OF rxm_okD(2)[OF ok] np] by simp
qed

lemma rxm_clear_ok:
  assumes ok: "rxm_ok m" and win: "sn_in_window (rxm_sn_start m) (rxm_size m) sn"
  shows "rxm_ok (nr_rlc_rx_manager_clear_pdu m sn)"
    and "rx_pending (nr_rlc_rx_manager_clear_pdu m sn) \<le> rx_pending m"
proof -
  have eq: "nr_rlc_rx_manager_clear_pdu m sn = m\<lparr>rxm_list := (rxm_list m)[nat (get_pos m sn) := []]\<rparr>"
    by (simp add: nr_rlc_rx_manager_clear_pdu_def)
  note u = rxm_ok_update[OF ok win slot_ok_Nil _ eq]
  show "rxm_ok (nr_rlc_rx_manager_clear_pdu m sn)"
    "rx_pending (nr_rlc_rx_manager_clear_pdu m sn) \<le> rx_pending m"
    using u(1,2) pending_nonneg[OF rxm_okD(2)[OF ok], of sn] by auto
qed

lemma rxm_clear_first_ok:
  assumes ok: "rxm_ok m" and n: "int n \<le> rxm_size m"
  shows "rxm_ok (rxm.clear_first m n) \<and> rx_pending (rxm.clear_first m n) \<le> rx_pending m"
  using n
proof (induction n)
  case (Suc n)
  let ?c = "rxm.clear_first m n"
  have c: "rxm_inv ?c" "rxm_sn_start ?c = rxm_sn_start m" "rxm_size ?c = rxm_size m"
    using rxm.clear_first_invar[OF rxm_okD(1)[OF ok], of n] Suc.prems by auto
  have "sn_in_window (rxm_sn_start ?c) (rxm_size ?c) (rx_at m (int n))"
    using rx_at_in_window[OF rxm_okD(1)[OF ok], of "int n"] Suc.prems c by simp
  then show ?case
    using rxm_clear_ok[of ?c "rx_at m (int n)"] Suc by (auto simp: rxm_at_eq)
qed (use ok in simp)

lemma rxm_drain_lookup:
  assumes "rxm_inv m" and "int n \<le> rxm_size m" and "0 \<le> k" and "k < rxm_size m"
  shows "rx_lookup (rxm_move (rxm.clear_first m n) (int n)) (rx_at m (int n + k))
    = (if int n + k < rxm_size m then rx_lookup m (rx_at m (int n + k)) else [])"
  using rxm.drain_lookup[OF assms] by (simp add: rxm_at_eq)

lemma rx_at_move:
  assumes "rxm_inv m" and "int n \<le> rxm_size m"
  shows "rxm_inv (rxm_move (rxm.clear_first m n) (int n))"
    and "rxm_size (rxm_move (rxm.clear_first m n) (int n)) = rxm_size m"
    and "rxm_sn_start (rxm_move (rxm.clear_first m n) (int n)) = rx_at m (int n)"
    and "rx_at (rxm_move (rxm.clear_first m n) (int n)) k = rx_at m (int n + k)"
proof -
  have c: "rxm_inv (rxm.clear_first m n)" "rxm_sn_start (rxm.clear_first m n) = rxm_sn_start m"
    "rxm_size (rxm.clear_first m n) = rxm_size m"
    using rxm.clear_first_invar[OF assms] by auto
  show mv: "rxm_inv (rxm_move (rxm.clear_first m n) (int n))"
    "rxm_size (rxm_move (rxm.clear_first m n) (int n)) = rxm_size m"
    "rxm_sn_start (rxm_move (rxm.clear_first m n) (int n)) = rx_at m (int n)"
    using rxm.move_invar[OF c(1), of "int n"] c assms(2) by (auto simp: rx_at_def)
  show "rx_at (rxm_move (rxm.clear_first m n) (int n)) k = rx_at m (int n + k)"
    unfolding rx_at_def[of "rxm_move _ _"] mv by (simp add: rx_at_def mod_add_left_eq add.assoc)
qed

lemma rxm_drain_ok:
  assumes ok: "rxm_ok m" and n: "int n \<le> rxm_size m"
  shows "rxm_ok (rxm_move (rxm.clear_first m n) (int n))"
    and "rx_pending (rxm_move (rxm.clear_first m n) (int n)) \<le> rx_pending m"
proof -
  let ?c = "rxm.clear_first m n"
  have inv: "rxm_inv m" using ok by (rule rxm_okD)
  note c = rxm_clear_first_ok[OF ok n] and mv = rx_at_move[OF inv n]
  have list: "rxm_list (rxm_move ?c (int n)) = rxm_list ?c"
    by (simp add: rxm_move_def nr_rlc_rx_manager_set_start_def nr_rlc_rx_manager_advance_def)
  have "pdu_sn p = rx_at m (int n + k)"
    if "0 \<le> k" "k < rxm_size m" "p \<in> set (rx_lookup (rxm_move ?c (int n)) (rx_at m (int n + k)))" for k p
    using that rxm_drain_lookup[OF inv n that(1,2)] ok by (auto simp: rxm_ok_def split: if_splits)
  then show "rxm_ok (rxm_move ?c (int n))" using c mv list by (auto simp: rxm_ok_def)
  show "rx_pending (rxm_move ?c (int n)) \<le> rx_pending m" using c by (simp add: rx_pending_def list)
qed

section \<open>Termination of the loops over the window\<close>

text \<open>
  The loop that frees the delivered SDUs at the head of the window: it always ends, after at most
  one round per slot, because the slots it clears are the ones it meets again.
\<close>

lemma drain_funpow:
  assumes "rxm_inv m"
  shows "((\<lambda>(m', sn, c). (nr_rlc_rx_manager_clear_pdu m' sn, (sn + 1) mod (2 * rxm_size m), c + 1)) ^^ k)
      (m, rxm_sn_start m, 0) = (rxm.clear_first m k, rx_at m (int k), int k)"
proof (induction k)
  case 0
  then show ?case using assms by (simp add: rx_at_def rxm_inv_def)
next
  case (Suc k)
  have "(rx_at m (int k) + 1) mod (2 * rxm_size m) = rx_at m (int (Suc k))"
    by (simp add: rx_at_def mod_add_left_eq ac_simps mod_add_right_eq)
  then show ?case using Suc by (simp add: rxm_at_eq)
qed

lemma am_drain_result:
  assumes inv: "rxm_inv m"
  shows "\<exists>n. int n \<le> rxm_size m
    \<and> am_drain (2 * rxm_size m) m (rxm_sn_start m) = Some (rxm.clear_first m n, rx_at m (int n), int n)
    \<and> (\<forall>k < n. pdus_processed (rx_lookup m (rx_at m (int k))))
    \<and> (int n < rxm_size m \<longrightarrow> \<not> pdus_processed (rx_lookup m (rx_at m (int n))))"
proof -
  let ?c = "rxm.clear_first m"
  let ?f = "\<lambda>(m', sn, c). (nr_rlc_rx_manager_clear_pdu m' sn, (sn + 1) mod (2 * rxm_size m), c + (1::int))"
  let ?b = "\<lambda>k. pdus_processed (rx_lookup (?c k) (rx_at m (int k)))"
  have w: "0 < rxm_size m" using inv by (simp add: rxm_inv_def)
  have iter: "(?f ^^ k) (m, rxm_sn_start m, 0) = (?c k, rx_at m (int k), int k)" for k
    using drain_funpow[OF inv] .
  have look: "rx_lookup (?c n) (rx_at m (int k)) = (if k < n then [] else rx_lookup m (rx_at m (int k)))"
    if "int n \<le> rxm_size m" "int k < rxm_size m" for k n
    using rxm.clear_first_lookup[OF inv that(1), of "int k"] that(2) by (simp add: rxm_at_eq)
  have size: "rxm_size (?c n) = rxm_size m" "rxm_sn_start (?c n) = rxm_sn_start m" if "int n \<le> rxm_size m" for n
    using rxm.clear_first_invar[OF inv that] by auto
  have "\<not> ?b (nat (rxm_size m))"
  proof -
    let ?W = "nat (rxm_size m)"
    have "rx_at m (int ?W) = rx_at (?c ?W) (0 + rxm_size (?c ?W))" using w size[of ?W] by (simp add: rx_at_def)
    then have "rx_lookup (?c ?W) (rx_at m (int ?W)) = rx_lookup (?c ?W) (rx_at (?c ?W) 0)"
      by (simp only: rx_lookup_at_wrap)
    also have "rx_at (?c ?W) 0 = rx_at m (int 0)" using w size[of ?W] by (simp add: rx_at_def)
    finally show ?thesis using look[of ?W 0] w by (simp add: pdus_processed_def)
  qed
  then have ex: "\<exists>k. \<not> ?b k" by blast
  define n where "n = (LEAST k. \<not> ?b k)"
  have n1: "\<not> ?b n" unfolding n_def using ex by (rule LeastI_ex)
  have n2: "n \<le> nat (rxm_size m)" unfolding n_def using \<open>\<not> ?b (nat (rxm_size m))\<close> by (rule Least_le)
  have n3: "?b k" if "k < n" for k using that not_less_Least unfolding n_def by blast
  have nW: "int n \<le> rxm_size m" using n2 w by linarith
  have "am_drain (2 * rxm_size m) m (rxm_sn_start m) = Some (?c n, rx_at m (int n), int n)"
    unfolding am_drain_def while_option_def iter using ex by (simp add: n_def)
  moreover have "pdus_processed (rx_lookup m (rx_at m (int k)))" if "k < n" for k
    using n3[OF that] look[of k k] that nW by simp
  moreover have "\<not> pdus_processed (rx_lookup m (rx_at m (int n)))" if "int n < rxm_size m"
    using n1 look[of n n] that by simp
  ultimately show ?thesis using nW by blast
qed

text \<open>
  The search for the first SDU not delivered ends exactly when some slot of the window is not
  delivered.
\<close>

lemma am_skip_delivered_cases:
  assumes inv: "rxm_inv (am_rx e)" and M: "am_sn_modulus e = 2 * rxm_size (am_rx e)"
    and sn: "0 \<le> sn" "sn < am_sn_modulus e"
  shows "(\<exists>k. 0 \<le> k \<and> k < rxm_size (am_rx e) \<and> \<not> am_sdu_delivered e (rx_at (am_rx e) k)) \<Longrightarrow>
      \<exists>sn'. am_skip_delivered e sn = Some sn' \<and> \<not> am_sdu_delivered e sn' \<and> 0 \<le> sn' \<and> sn' < am_sn_modulus e"
    and "(\<forall>k. 0 \<le> k \<and> k < rxm_size (am_rx e) \<longrightarrow> am_sdu_delivered e (rx_at (am_rx e) k)) \<Longrightarrow>
      am_skip_delivered e sn = None"
proof -
  let ?m = "am_rx e" and ?w = "rxm_size (am_rx e)"
  have w: "0 < ?w" using inv by (simp add: rxm_inv_def)
  have slot: "am_sdu_delivered e ((sn + int j) mod am_sn_modulus e)
      = am_sdu_delivered e (rx_at ?m ((sn + int j - rxm_sn_start ?m) mod ?w))" for j
  proof -
    let ?x = "sn + int j"
    have "?x = rxm_sn_start ?m + (?x - rxm_sn_start ?m) mod ?w + (?x - rxm_sn_start ?m) div ?w * ?w"
      using div_mult_mod_eq[of "?x - rxm_sn_start ?m" ?w] by linarith
    moreover have "rx_lookup ?m (y + i * ?w) = rx_lookup ?m y" for y i
    proof -
      have "rxm_start ?m + (y + i * ?w - rxm_sn_start ?m) = rxm_start ?m + (y - rxm_sn_start ?m) + i * ?w" by simp
      then show ?thesis unfolding nr_rlc_rx_manager_get_pdu_from_sn_def get_pos_mod by (metis mod_mult_self1)
    qed
    ultimately have "rx_lookup ?m ?x = rx_lookup ?m (rxm_sn_start ?m + (?x - rxm_sn_start ?m) mod ?w)" by metis
    then show ?thesis by (simp add: am_sdu_delivered_def M rx_lookup_mod rx_at_def)
  qed
  show "\<exists>sn'. am_skip_delivered e sn = Some sn' \<and> \<not> am_sdu_delivered e sn' \<and> 0 \<le> sn' \<and> sn' < am_sn_modulus e"
    if ex: "\<exists>k. 0 \<le> k \<and> k < ?w \<and> \<not> am_sdu_delivered e (rx_at ?m k)"
  proof -
    obtain k where k: "0 \<le> k" "k < ?w" "\<not> am_sdu_delivered e (rx_at ?m k)" using ex by blast
    define j where "j = nat ((rxm_sn_start ?m + k - sn) mod ?w)"
    have "int j = (rxm_sn_start ?m + k - sn) mod ?w" using w by (simp add: j_def)
    then have "(sn + int j - rxm_sn_start ?m) mod ?w
        = (sn + (rxm_sn_start ?m + k - sn) mod ?w - rxm_sn_start ?m) mod ?w" by simp
    also have "\<dots> = (sn + (rxm_sn_start ?m + k - sn) - rxm_sn_start ?m) mod ?w"
      by (metis mod_add_right_eq mod_diff_left_eq)
    also have "\<dots> = k" using k by simp
    finally have "(sn + int j - rxm_sn_start ?m) mod ?w = k" .
    then have "\<not> am_sdu_delivered e ((sn + int j) mod am_sn_modulus e)" using slot[of j] k by simp
    from skip_while_Some[where b = "am_sdu_delivered e", OF sn this] show ?thesis
      using M w by (fastforce simp: am_skip_delivered_def)
  qed
  show "am_skip_delivered e sn = None" if "\<forall>k. 0 \<le> k \<and> k < ?w \<longrightarrow> am_sdu_delivered e (rx_at ?m k)"
    unfolding am_skip_delivered_def using that slot w by (intro skip_while_None[OF sn]) simp
qed

section \<open>The invariant of the reception half\<close>

text \<open>
  The rx manager holds the window that starts at \<open>rx_next\<close>, all its slots are well formed, the
  bytes it holds are within \<open>rx_size\<close>, and \<open>rx_size\<close> is within its limit.
\<close>

definition am_rx_inv :: "nr_rlc_entity_am_t \<Rightarrow> bool" where
  "am_rx_inv e \<longleftrightarrow> rxm_ok (am_rx e) \<and> rxm_size (am_rx e) = am_window_size e
     \<and> rxm_sn_start (am_rx e) = am_rx_next e \<and> am_sn_modulus e = 2 * am_window_size e
     \<and> am_sn_modulus e = 2 ^ am_sn_field_length e \<and> am_sn_field_length e \<le> 31
     \<and> rx_pending (am_rx e) \<le> am_rx_size e \<and> am_rx_size e \<le> am_rx_maxsize e
     \<and> 0 \<le> am_rx_highest_status e \<and> am_rx_highest_status e < am_sn_modulus e
     \<and> 0 \<le> am_rx_next_highest e \<and> am_rx_next_highest e < am_sn_modulus e
     \<and> 0 \<le> am_rx_next_status_trigger e \<and> am_rx_next_status_trigger e < am_sn_modulus e"

text \<open>The fields the invariant reads.\<close>

definition rx_part where
  "rx_part e = (am_rx e, am_rx_size e, am_rx_maxsize e, am_window_size e, am_sn_modulus e,
     am_sn_field_length e, am_rx_next e, am_rx_highest_status e, am_rx_next_highest e,
     am_rx_next_status_trigger e)"

lemma am_rx_inv_cong: "rx_part e' = rx_part e \<Longrightarrow> am_rx_inv e' = am_rx_inv e"
  by (simp add: rx_part_def am_rx_inv_def)

lemma am_rx_invD:
  assumes "am_rx_inv e"
  shows "rxm_ok (am_rx e)" "rxm_inv (am_rx e)" "rxm_size (am_rx e) = am_window_size e"
    "rxm_sn_start (am_rx e) = am_rx_next e" "am_sn_modulus e = 2 * am_window_size e"
    "0 < am_window_size e" "0 \<le> am_rx_next e" "am_rx_next e < am_sn_modulus e"
  using assms rxm_okD(1)[of "am_rx e"] by (auto simp: am_rx_inv_def rxm_inv_def)

lemma am_modulus_rx_mod:
  assumes "am_rx_inv e" and "0 \<le> sn" and "sn < am_sn_modulus e"
  shows "am_modulus_rx e sn = (sn - am_rx_next e) mod am_sn_modulus e"
proof -
  have r: "0 \<le> am_rx_next e" "am_rx_next e < am_sn_modulus e" using am_rx_invD[OF assms(1)] by auto
  show ?thesis
  proof (cases "sn - am_rx_next e < 0")
    case True
    then have "(sn - am_rx_next e + am_sn_modulus e) mod am_sn_modulus e = sn - am_rx_next e + am_sn_modulus e"
      using r assms by (intro mod_pos_pos_trivial) auto
    then show ?thesis using True by (simp add: am_modulus_rx_def)
  next
    case False
    then show ?thesis using r assms by (simp add: am_modulus_rx_def mod_pos_pos_trivial)
  qed
qed

text \<open>The window test of the entity is the window of the rx manager.\<close>

lemma am_recv_window_iff:
  assumes "am_rx_inv e" and "0 \<le> sn" and "sn < am_sn_modulus e"
  shows "am_sn_in_recv_window e sn \<longleftrightarrow> sn_in_window (rxm_sn_start (am_rx e)) (rxm_size (am_rx e)) sn"
  using assms am_rx_invD[OF assms(1)]
  by (simp add: am_sn_in_recv_window_def sn_in_window_def am_modulus_rx_mod)

section \<open>Delivery\<close>

lemma reassemble_no_null:
  "\<forall>p \<in> set l. pdu_data p \<noteq> None \<Longrightarrow> reassemble_loop l acc bad rxs = Inl x \<Longrightarrow> x = Out_Of_Bounds"
proof (induction l arbitrary: acc bad rxs)
  case (Cons p l)
  then obtain d where "pdu_data p = Some d" by auto
  then show ?case
    using Cons by (auto simp: Let_def mem_read_def bindE_def split: if_splits)
qed simp

text \<open>Storing one segment.\<close>

lemma am_store_pdu:
  assumes inv: "am_rx_inv e" and win: "sn_in_window (am_rx_next e) (am_window_size e) (pdu_sn p)"
    and p: "0 \<le> pdu_so p" "0 < pdu_size p" "pdu_data p = Some d" "int (length d) = pdu_size p"
    and room: "am_rx_size e + pdu_size p \<le> am_rx_maxsize e"
  shows "am_rx_inv (e\<lparr>am_rx_size := am_rx_size e + pdu_size p, am_rx := nr_rlc_rx_manager_add_pdu (am_rx e) p\<rparr>)"
proof -
  note D = am_rx_invD[OF inv]
  have win': "sn_in_window (rxm_sn_start (am_rx e)) (rxm_size (am_rx e)) (pdu_sn p)" using win D by simp
  note a = rxm_add_ok[OF D(1) win' p] rxm.add_invar[OF D(2), of p]
  then show ?thesis using inv room by (auto simp: am_rx_inv_def)
qed

text \<open>
  Reassembly of a full SDU: the only possible failure is a read outside a segment, excluded below
  for the segments a correct peer sends; otherwise the slot becomes a delivered one, the bytes are
  given back to \<open>rx_size\<close> and at most one SDU is handed up.
\<close>

lemma am_deliver_step:
  assumes inv: "am_rx_inv e" and win: "sn_in_window (am_rx_next e) (am_window_size e) sn"
    and full: "am_sdu_full e sn"
  shows "am_reassemble_and_deliver e sn = Inl Out_Of_Bounds
    \<or> (\<exists>e' sdu. am_reassemble_and_deliver e sn = Inr e' \<and> am_rx_inv e'
        \<and> am_rx e' = rx_manager_map_pdus mark_delivered (am_rx e) sn
        \<and> (events e' = events e \<or> (events e' = events e @ [Deliver_Sdu sdu] \<and> int (length sdu) \<le> NR_SDU_MAX))
        \<and> am_rx_next e' = am_rx_next e \<and> am_rx_highest_status e' = am_rx_highest_status e
        \<and> am_window_size e' = am_window_size e)"
proof (cases "reassemble_loop (rx_lookup (am_rx e) sn) [] False (am_rx_size e)")
  case (Inl x)
  let ?l = "rx_lookup (am_rx e) sn"
  have "slot_ok ?l" using am_rx_invD(1)[OF inv] by (rule rxm_okD)
  moreover have "\<not> pdus_processed ?l" using full by (simp add: am_sdu_full_def Let_def split: if_splits)
  ultimately have "\<forall>p \<in> set ?l. pdu_data p \<noteq> None" by (simp add: slot_ok_def)
  then have "x = Out_Of_Bounds" using Inl by (rule reassemble_no_null)
  then show ?thesis using Inl by (simp add: am_reassemble_and_deliver_def)
next
  case (Inr r)
  let ?l = "rx_lookup (am_rx e) sn"
  obtain sdu bad rxs where r: "r = (sdu, bad, rxs)" by (cases r) auto
  note D = am_rx_invD[OF inv]
  have f: "sdu_full_loop ?l (-1)" "\<not> pdus_processed ?l"
    using full by (simp_all add: am_sdu_full_def Let_def split: if_splits)
  have win': "sn_in_window (rxm_sn_start (am_rx e)) (rxm_size (am_rx e)) sn" using win D by simp
  note d = rxm_deliver_ok[OF D(1) win' f] rxm.touch_invar[OF D(2), of mark_delivered sn]
  have rxs: "rxs = am_rx_size e - sum_list (map pdu_size ?l)" using reassemble_rx_size Inr r by blast
  have nn: "0 \<le> sum_list (map pdu_size ?l)"
    using rxm_okD(2)[OF D(1), of sn] by (intro sum_list_nonneg) (auto simp: slot_ok_def less_imp_le)
  have max: "\<not> bad \<Longrightarrow> int (length sdu) \<le> NR_SDU_MAX"
    using reassemble_max[of ?l "[]" False "am_rx_size e" sdu rxs] Inr r by (simp add: NR_SDU_MAX_def)
  define e1 where "e1 = e\<lparr>am_rx := rx_manager_map_pdus mark_delivered (am_rx e) sn, am_rx_size := rxs\<rparr>"
  define e2 where "e2 = (if bad then e1 else
      upd_stats (\<lambda>s. s\<lparr>txsdu_pkts := txsdu_pkts s + 1\<rparr>) (emit (Deliver_Sdu sdu) e1))"
  have res: "am_reassemble_and_deliver e sn = Inr e2"
    using Inr r by (simp add: am_reassemble_and_deliver_def Let_def e2_def e1_def mark_delivered_def[abs_def])
  have part: "rx_part e2 = rx_part e1" by (simp add: e2_def rx_part_def upd_stats_def emit_def)
  have "am_rx_inv e1" using inv d rxs nn by (auto simp: am_rx_inv_def e1_def)
  then have "am_rx_inv e2" using am_rx_inv_cong[OF part] by simp
  moreover have "events e2 = (if bad then events e else events e @ [Deliver_Sdu sdu])"
    by (simp add: e2_def e1_def)
  ultimately show ?thesis using res part max by (auto simp: rx_part_def e1_def)
qed

section \<open>Movement of the window\<close>

lemma am_advance_rx_next_step:
  assumes inv: "am_rx_inv e"
  shows "\<exists>n e'. am_advance_rx_next e = Inr e' \<and> int n \<le> am_window_size e
    \<and> e' = e\<lparr>am_rx_next := rx_at (am_rx e) (int n), am_rx := rxm_move (rxm.clear_first (am_rx e) n) (int n)\<rparr>
    \<and> (\<forall>k < n. am_sdu_delivered e (rx_at (am_rx e) (int k)))
    \<and> (int n < am_window_size e \<longrightarrow> \<not> am_sdu_delivered e (rx_at (am_rx e) (int n)))
    \<and> am_rx_inv e'"
proof -
  note D = am_rx_invD[OF inv]
  obtain n where n: "int n \<le> rxm_size (am_rx e)"
    "am_drain (2 * rxm_size (am_rx e)) (am_rx e) (rxm_sn_start (am_rx e))
      = Some (rxm.clear_first (am_rx e) n, rx_at (am_rx e) (int n), int n)"
    "\<forall>k < n. pdus_processed (rx_lookup (am_rx e) (rx_at (am_rx e) (int k)))"
    "int n < rxm_size (am_rx e) \<longrightarrow> \<not> pdus_processed (rx_lookup (am_rx e) (rx_at (am_rx e) (int n)))"
    using am_drain_result[OF D(2)] by blast
  let ?c = "rxm.clear_first (am_rx e) n"
  have c: "rxm_sn_start ?c = rxm_sn_start (am_rx e)" "rxm_size ?c = rxm_size (am_rx e)"
    using rxm.clear_first_invar[OF D(2) n(1)] by auto
  have mv: "nr_rlc_rx_manager_set_start (nr_rlc_rx_manager_advance ?c (int n)) (rx_at (am_rx e) (int n))
      = rxm_move ?c (int n)"
    by (simp add: rxm_move_def c rx_at_def)
  let ?e = "e\<lparr>am_rx_next := rx_at (am_rx e) (int n), am_rx := rxm_move ?c (int n)\<rparr>"
  have res: "am_advance_rx_next e = Inr ?e"
    using n(2) D mv by (simp add: am_advance_rx_next_def)
  note ok = rxm_drain_ok[OF D(1) n(1)] and at = rx_at_move[OF D(2) n(1)]
  have "am_rx_inv ?e" using inv ok at by (auto simp: am_rx_inv_def)
  moreover have "\<forall>k < n. am_sdu_delivered e (rx_at (am_rx e) (int k))"
    "int n < am_window_size e \<longrightarrow> \<not> am_sdu_delivered e (rx_at (am_rx e) (int n))"
    using n(3,4) D(3) by (simp_all add: am_sdu_delivered_def)
  ultimately show ?thesis using n(1) res D(3) by metis
qed

lemma am_update_t_reassembly_form:
  "\<exists>s t. am_update_t_reassembly e = e\<lparr>am_t_reassembly_start := s, am_rx_next_status_trigger := t\<rparr>
     \<and> (t = am_rx_next_status_trigger e \<or> t = am_rx_next_highest e)"
proof -
  have upd: "\<exists>s t. (if c2 e' then e'\<lparr>am_t_reassembly_start := am_t_current e',
        am_rx_next_status_trigger := am_rx_next_highest e'\<rparr> else e')
      = e\<lparr>am_t_reassembly_start := s, am_rx_next_status_trigger := t\<rparr>
      \<and> (t = am_rx_next_status_trigger e \<or> t = am_rx_next_highest e)"
    if "e' = (if c1 then e\<lparr>am_t_reassembly_start := 0\<rparr> else e)" for c1 c2 e'
  proof -
    have "e' = e\<lparr>am_t_reassembly_start := (if c1 then 0 else am_t_reassembly_start e)\<rparr>"
      using that by simp
    then obtain s where e': "e' = e\<lparr>am_t_reassembly_start := s\<rparr>" by blast
    let ?c = "c2 (e\<lparr>am_t_reassembly_start := s\<rparr>)"
    show ?thesis unfolding e'
      by (intro exI[of _ "if ?c then am_t_current e else s"]
          exI[of _ "if ?c then am_rx_next_highest e else am_rx_next_status_trigger e"]) simp
  qed
  show ?thesis unfolding am_update_t_reassembly_def Let_def by (rule upd, rule refl)
qed

lemma am_update_t_reassembly_inv:
  "am_rx_inv e \<Longrightarrow> am_rx_inv (am_update_t_reassembly e)"
  using am_update_t_reassembly_form[of e] by (auto simp: am_rx_inv_def)

lemma am_update_t_reassembly_frame [simp]:
  "am_rx (am_update_t_reassembly e) = am_rx e" "events (am_update_t_reassembly e) = events e"
  "am_rx_next (am_update_t_reassembly e) = am_rx_next e"
  "am_window_size (am_update_t_reassembly e) = am_window_size e"
  using am_update_t_reassembly_form[of e] by auto

section \<open>Reception actions\<close>

text \<open>The SDUs handed to the upper layer, in order.\<close>

definition delivered_sdus :: "rlc_event list \<Rightarrow> buffer list" where
  "delivered_sdus evs = concat (map (\<lambda>ev. case ev of Deliver_Sdu b \<Rightarrow> [b] | _ \<Rightarrow> []) evs)"

lemma delivered_sdus_simps [simp]:
  "delivered_sdus [] = []" "delivered_sdus (xs @ ys) = delivered_sdus xs @ delivered_sdus ys"
  "delivered_sdus (Deliver_Sdu b # xs) = b # delivered_sdus xs"
  "delivered_sdus (Sdu_Successful_Delivery i # xs) = delivered_sdus xs"
  "delivered_sdus (Max_Retx_Reached # xs) = delivered_sdus xs"
  "delivered_sdus (Time_Average_Add t w # xs) = delivered_sdus xs"
  by (simp_all add: delivered_sdus_def)

text \<open>What one reception may do: fail in the two ways shown possible, or keep the invariant and
  hand up at most one SDU of legal size.\<close>

definition am_rx_post :: "nr_rlc_entity_am_t \<Rightarrow> nr_rlc_entity_am_t res \<Rightarrow> bool" where
  "am_rx_post e r \<longleftrightarrow> r = Inl Out_Of_Bounds \<or> r = Inl Diverges
     \<or> (\<exists>e'. r = Inr e' \<and> am_rx_inv e'
          \<and> (delivered_sdus (events e') = delivered_sdus (events e)
             \<or> (\<exists>sdu. delivered_sdus (events e') = delivered_sdus (events e) @ [sdu]
                  \<and> int (length sdu) \<le> NR_SDU_MAX)))"

lemma am_rx_post_cong:
  "delivered_sdus (events e1) = delivered_sdus (events e2) \<Longrightarrow> am_rx_post e1 = am_rx_post e2"
  by (simp add: fun_eq_iff am_rx_post_def)

text \<open>The two steps after a delivery: \<open>rx_highest_status\<close> and \<open>rx_next\<close>.\<close>

definition am_after_delivery :: "nr_rlc_entity_am_t \<Rightarrow> int \<Rightarrow> nr_rlc_entity_am_t res" where
  "am_after_delivery e x =
     bindE (if x = am_rx_highest_status e
            then (case am_skip_delivered e (am_rx_highest_status e) of
                    None \<Rightarrow> Inl Diverges
                  | Some sn \<Rightarrow> Inr (e\<lparr>am_rx_highest_status := sn\<rparr>))
            else Inr e) (\<lambda>e.
     if x = am_rx_next e then am_advance_rx_next e else Inr e)"

lemma am_after_delivery_cases:
  assumes inv: "am_rx_inv e"
  shows "(am_after_delivery e x = Inl Diverges
        \<and> (\<forall>k. 0 \<le> k \<and> k < am_window_size e \<longrightarrow> am_sdu_delivered e (rx_at (am_rx e) k)))
    \<or> (\<exists>e' n. am_after_delivery e x = Inr e' \<and> am_rx_inv e' \<and> events e' = events e \<and> int n \<le> am_window_size e
        \<and> am_rx e' = rxm_move (rxm.clear_first (am_rx e) n) (int n) \<and> am_window_size e' = am_window_size e)"
proof -
  note D = am_rx_invD[OF inv]
  have hs: "0 \<le> am_rx_highest_status e" "am_rx_highest_status e < am_sn_modulus e"
    using inv by (auto simp: am_rx_inv_def)
  have M: "am_sn_modulus e = 2 * rxm_size (am_rx e)" using D by simp
  note sk = am_skip_delivered_cases[OF D(2) M hs]
  define e1 where "e1 = (if x = am_rx_highest_status e
      then case am_skip_delivered e (am_rx_highest_status e) of
             None \<Rightarrow> Inl Diverges | Some sn \<Rightarrow> Inr (e\<lparr>am_rx_highest_status := sn\<rparr>)
      else Inr e :: nr_rlc_entity_am_t res)"
  have step: "(e1 = Inl Diverges \<and> (\<forall>k. 0 \<le> k \<and> k < am_window_size e \<longrightarrow> am_sdu_delivered e (rx_at (am_rx e) k)))
    \<or> (\<exists>sn. e1 = Inr (e\<lparr>am_rx_highest_status := sn\<rparr>) \<and> 0 \<le> sn \<and> sn < am_sn_modulus e)"
  proof (cases "x = am_rx_highest_status e \<and>
      (\<forall>k. 0 \<le> k \<and> k < am_window_size e \<longrightarrow> am_sdu_delivered e (rx_at (am_rx e) k))")
    case True
    then show ?thesis using sk(2) D(3) by (simp add: e1_def)
  next
    case False
    show ?thesis
    proof (cases "x = am_rx_highest_status e")
      case True
      then obtain sn where "am_skip_delivered e (am_rx_highest_status e) = Some sn" "0 \<le> sn" "sn < am_sn_modulus e"
        using sk(1) False D(3) by auto
      then show ?thesis using True by (auto simp: e1_def)
    next
      case no: False
      then show ?thesis
        using hs by (intro disjI2 exI[of _ "am_rx_highest_status e"]) (simp add: e1_def)
    qed
  qed
  have after: "am_after_delivery e x = bindE e1 (\<lambda>e. if x = am_rx_next e then am_advance_rx_next e else Inr e)"
    by (simp add: am_after_delivery_def e1_def)
  from step show ?thesis
  proof
    assume "\<exists>sn. e1 = Inr (e\<lparr>am_rx_highest_status := sn\<rparr>) \<and> 0 \<le> sn \<and> sn < am_sn_modulus e"
    then obtain sn where sn: "e1 = Inr (e\<lparr>am_rx_highest_status := sn\<rparr>)" "0 \<le> sn" "sn < am_sn_modulus e" by blast
    let ?e = "e\<lparr>am_rx_highest_status := sn\<rparr>"
    have inv': "am_rx_inv ?e" using inv sn by (simp add: am_rx_inv_def)
    show ?thesis
    proof (cases "x = am_rx_next e")
      case True
      obtain n e' where adv: "am_advance_rx_next ?e = Inr e'" "int n \<le> am_window_size ?e" "am_rx_inv e'"
        "e' = ?e\<lparr>am_rx_next := rx_at (am_rx ?e) (int n), am_rx := rxm_move (rxm.clear_first (am_rx ?e) n) (int n)\<rparr>"
        using am_advance_rx_next_step[OF inv'] by blast
      have "am_after_delivery e x = Inr e'" using after sn(1) True adv(1) by simp
      then show ?thesis using adv(2,3,4) by (intro disjI2 exI[of _ e'] exI[of _ n]) simp
    next
      case False
      have "rxm_move (rxm.clear_first (am_rx e) 0) (int 0) = am_rx e"
        using D(2) by (simp add: rxm_move_def nr_rlc_rx_manager_set_start_def
            nr_rlc_rx_manager_advance_def rxm_inv_def)
      then show ?thesis
        using False after sn(1) inv' am_rx_invD(6)[OF inv]
        by (intro disjI2 exI[of _ ?e] exI[of _ 0]) simp
    qed
  qed (use after in simp)
qed

lemma am_reception_actions_eq:
  "am_reception_actions e pdu =
     (let x = pdu_sn pdu;
          e = (if am_sn_compare_rx e x (am_rx_next_highest e) \<ge> 0
               then e\<lparr>am_rx_next_highest := (x + 1) mod am_sn_modulus e\<rparr> else e)
      in bindE (if am_sdu_full e x then bindE (am_reassemble_and_deliver e x) (\<lambda>e. am_after_delivery e x)
                else Inr e) (\<lambda>e. Inr (am_update_t_reassembly e)))"
  unfolding am_reception_actions_def am_after_delivery_def ..

lemma am_reception_actions_post:
  assumes inv: "am_rx_inv e" and win: "sn_in_window (am_rx_next e) (am_window_size e) (pdu_sn p)"
  shows "am_rx_post e (am_reception_actions e p)"
proof -
  let ?x = "pdu_sn p"
  define e0 where "e0 = (if am_sn_compare_rx e ?x (am_rx_next_highest e) \<ge> 0
               then e\<lparr>am_rx_next_highest := (?x + 1) mod am_sn_modulus e\<rparr> else e)"
  have inv0: "am_rx_inv e0" using inv am_rx_invD(5,6)[OF inv] by (simp add: e0_def am_rx_inv_def)
  have fr: "am_rx_next e0 = am_rx_next e" "am_window_size e0 = am_window_size e" "events e0 = events e"
    by (simp_all add: e0_def)
  have eq: "am_reception_actions e p = bindE (if am_sdu_full e0 ?x
      then bindE (am_reassemble_and_deliver e0 ?x) (\<lambda>e. am_after_delivery e ?x) else Inr e0)
      (\<lambda>e. Inr (am_update_t_reassembly e))"
    by (simp add: am_reception_actions_eq Let_def e0_def)
  show ?thesis
  proof (cases "am_sdu_full e0 ?x")
    case False
    then show ?thesis using eq am_update_t_reassembly_inv[OF inv0] fr by (simp add: am_rx_post_def)
  next
    case True
    have win0: "sn_in_window (am_rx_next e0) (am_window_size e0) ?x" using win fr by simp
    from am_deliver_step[OF inv0 win0 True] show ?thesis
    proof
      assume "\<exists>e' sdu. am_reassemble_and_deliver e0 ?x = Inr e' \<and> am_rx_inv e'
        \<and> am_rx e' = rx_manager_map_pdus mark_delivered (am_rx e0) ?x
        \<and> (events e' = events e0 \<or> (events e' = events e0 @ [Deliver_Sdu sdu] \<and> int (length sdu) \<le> NR_SDU_MAX))
        \<and> am_rx_next e' = am_rx_next e0 \<and> am_rx_highest_status e' = am_rx_highest_status e0
        \<and> am_window_size e' = am_window_size e0"
      then obtain e1 sdu where e1: "am_reassemble_and_deliver e0 ?x = Inr e1" "am_rx_inv e1"
        "events e1 = events e0 \<or> (events e1 = events e0 @ [Deliver_Sdu sdu] \<and> int (length sdu) \<le> NR_SDU_MAX)"
        by blast
      from am_after_delivery_cases[OF e1(2), of ?x] show ?thesis
        using eq True e1 fr by (auto simp: am_rx_post_def am_update_t_reassembly_inv)
    qed (use eq True in \<open>simp add: am_rx_post_def\<close>)
  qed
qed

section \<open>Reception of any PDU\<close>

lemma am_discard_post:
  assumes "am_rx_inv e" and "rx_part e1 = rx_part e" and "events e1 = events e"
  shows "am_rx_post e (am_discard p n e1)"
proof -
  let ?e = "upd_stats (count_rxpdu_dd n) (if p \<noteq> 0 then e1\<lparr>am_status_triggered := True\<rparr> else e1)"
  have "rx_part ?e = rx_part e" using assms(2) by (simp add: rx_part_def upd_stats_def)
  then have "am_rx_inv ?e" using assms(1) am_rx_inv_cong by blast
  then show ?thesis using assms(3) by (simp add: am_discard_def am_rx_post_def upd_stats_def)
qed

lemma am_recv_data_post:
  assumes inv: "am_rx_inv e" and sn: "0 \<le> sn" "sn < am_sn_modulus e" and so: "0 \<le> so"
  shows "am_rx_post e (am_recv_data e buf hdr p is_first is_last sn so)"
proof -
  let ?n = "int (length buf)"
  note disc = am_discard_post[OF inv]
  show ?thesis
  proof (cases "?n - int hdr \<le> 0 \<or> am_rx_size e + (?n - int hdr) > am_rx_maxsize e
      \<or> \<not> am_sn_in_recv_window e sn \<or> am_segment_already_received e sn so (?n - int hdr)")
    case True
    then show ?thesis
      using disc[OF refl refl, of p ?n] disc[of "upd_stats (count_rxpdu_ow ?n) e" p ?n]
        disc[of "upd_stats (count_rxpdu_dup ?n) e" p ?n]
      by (auto simp: am_recv_data_def Let_def rx_part_def upd_stats_def)
  next
    case False
    let ?p = "nr_rlc_new_pdu sn so is_first is_last (drop hdr buf)"
    let ?e = "e\<lparr>am_rx_size := am_rx_size e + (?n - int hdr), am_rx := nr_rlc_rx_manager_add_pdu (am_rx e) ?p\<rparr>"
    have sz: "pdu_size ?p = ?n - int hdr" "pdu_sn ?p = sn" using False by (simp_all add: nr_rlc_new_pdu_def)
    have win: "sn_in_window (am_rx_next e) (am_window_size e) sn"
      using False am_recv_window_iff[OF inv sn] am_rx_invD[OF inv] by simp
    have inv': "am_rx_inv ?e"
      using am_store_pdu[OF inv, of ?p "drop hdr buf"] win False so sz by (simp add: nr_rlc_new_pdu_def)
    have "am_rx_post e (am_reception_actions ?e ?p)"
      using am_reception_actions_post[OF inv', of ?p] win sz am_rx_post_cong[of ?e e] by simp
    moreover have "am_recv_data e buf hdr p is_first is_last sn so
        = bindE (am_reception_actions ?e ?p) (\<lambda>e. Inr (if p \<noteq> 0 then e\<lparr>am_status_triggered := True\<rparr> else e))"
      using False by (simp add: am_recv_data_def Let_def)
    moreover have "am_rx_inv (e\<lparr>am_status_triggered := b\<rparr>) = am_rx_inv e" for e b
      by (rule am_rx_inv_cong) (simp add: rx_part_def)
    ultimately show ?thesis by (auto simp: am_rx_post_def)
  qed
qed

text \<open>A STATUS PDU changes nothing in the reception half and delivers no SDU.\<close>

definition rx_view where
  "rx_view e = (rx_part e, am_t_reassembly_start e, delivered_sdus (events e))"

lemma rx_view_ack [simp]: "rx_view (am_ack_segment g e) = rx_view e"
  by (simp add: rx_view_def rx_part_def am_ack_segment_def Let_def split_def upd_stats_def emit_def)

lemma rx_view_nack [simp]: "rx_view (am_nack_segment g e) = rx_view e"
  by (simp add: rx_view_def rx_part_def am_nack_segment_def Let_def add_bs_retx_def emit_def)

lemma rx_view_bs [simp]: "rx_view (add_bs_retx n e) = rx_view e" "rx_view (add_bs_tx n e) = rx_view e"
  by (simp_all add: rx_view_def rx_part_def add_bs_retx_def add_bs_tx_def)

lemma rx_view_step: "am_nack_step ack_sn nack c = (j, c') \<Longrightarrow> rx_view (ct_e c') = rx_view (ct_e c)"
  by (auto simp: am_nack_step_def am_wait_list_head_def am_retransmit_list_head_def Let_def
      split: list.splits if_splits prod.splits)

lemma rx_view_loop: "rx_view (ct_e (snd (am_nack_loop ack_sn nack c))) = rx_view (ct_e c)"
proof (induction ack_sn nack c rule: am_nack_loop.induct)
  case (1 ack_sn nack c)
  obtain j c' where st: "am_nack_step ack_sn nack c = (j, c')" by force
  show ?case
    using 1[OF st[symmetric]] rx_view_step[OF st]
    by (subst am_nack_loop.simps) (cases j; simp add: st)
qed

lemma rx_view_range: "rx_view (ct_e (am_nack_range_loop ack_sn ns c)) = rx_view (ct_e c)"
proof (induction ns arbitrary: c)
  case (Cons n ns)
  then show ?case using rx_view_loop[of ack_sn n c] by (simp add: split_def)
qed simp

lemma rx_view_one: "rx_view (ct_e (am_process_one_nack ack_sn n c)) = rx_view (ct_e c)"
proof -
  have "rx_view (e\<lparr>am_t_poll_retransmit_start := t\<rparr>) = rx_view e" for e :: nr_rlc_entity_am_t and t
    by (simp add: rx_view_def rx_part_def)
  then show ?thesis by (simp add: am_process_one_nack_def Let_def rx_view_range)
qed

lemma rx_view_fold: "rx_view (ct_e (fold (am_process_one_nack ack_sn) ns c)) = rx_view (ct_e c)"
  by (induction ns arbitrary: c) (simp_all add: rx_view_one)

lemma rx_view_ack_lists:
  "rx_view (snd (am_ack_wait_list ack_sn l e)) = rx_view e"
  "rx_view (snd (am_ack_retransmit_list ack_sn l e)) = rx_view e"
  by (induction l arbitrary: e) simp_all

lemma rx_view_status: "rx_view (am_process_status e ack_sn nacks) = rx_view e"
proof -
  define e1 where "e1 = (if am_sn_compare_tx e (am_poll_sn e) ack_sn < 0 then e\<lparr>am_t_poll_retransmit_start := 0\<rparr> else e)"
  define c where "c = fold (am_process_one_nack ack_sn) nacks
    \<lparr>ct_e = e1, ct_wait_done = [], ct_wait = am_wait_list e1, ct_retx_new = [], ct_retx = am_retransmit_list e1\<rparr>"
  obtain w e2 where w: "am_ack_wait_list ack_sn (ct_wait c) (ct_e c) = (w, e2)" by force
  obtain r e3 where r: "am_ack_retransmit_list ack_sn (ct_retx c) e2 = (r, e3)" by force
  have "rx_view e1 = rx_view e" by (simp add: e1_def rx_view_def rx_part_def)
  moreover have "rx_view (ct_e c) = rx_view e1" unfolding c_def rx_view_fold by simp
  moreover have "rx_view e2 = rx_view (ct_e c)" "rx_view e3 = rx_view e2"
    using rx_view_ack_lists(1)[of ack_sn "ct_wait c" "ct_e c"]
      rx_view_ack_lists(2)[of ack_sn "ct_retx c" e2] w r by simp_all
  moreover have "am_process_status e ack_sn nacks = am_update_tx_next_ack ack_sn
      (e3\<lparr>am_wait_list := ct_wait_done c @ w, am_retransmit_list := ct_retx_new c @ r\<rparr>)"
    by (simp add: am_process_status_def Let_def e1_def[symmetric] c_def[symmetric] w r)
  moreover have "rx_view (am_update_tx_next_ack ack_sn (e3\<lparr>am_wait_list := x, am_retransmit_list := y\<rparr>)) = rx_view e3" for x y
    by (simp add: am_update_tx_next_ack_def Let_def rx_view_def rx_part_def)
  ultimately show ?thesis by metis
qed

text \<open>
  Reading the NACK blocks: every block consumes bits, so the number of bits left is enough fuel,
  and the loop always ends.
\<close>

lemma am_read_nack_progress:
  assumes "dec_wf d" and "len \<le> 31"
  shows "\<exists>r. am_read_nack len d = Inr r \<and>
    (case r of None \<Rightarrow> True | Some (n, e1, d') \<Rightarrow>
       dec_wf d' \<and> dec_size d' = dec_size d \<and> dec_pos d < dec_pos d' \<and> 0 \<le> nk_sn n \<and> nk_sn n < 2 ^ len)"
    (is "?P (am_read_nack len d)")
  unfolding am_read_nack_def Let_def using assms
  by (intro get_bits_R_rule[where P = ?P]) (auto simp: Let_def intro!: get_bits_R_rule[where P = ?P])

lemma am_read_nacks_enough:
  assumes "dec_wf d" and "len \<le> 31" and "8 * dec_size d - dec_pos d < fuel"
  shows "\<exists>r. am_read_nacks fuel len e1 d = Inr r"
  using assms
proof (induction fuel arbitrary: e1 d)
  case (Suc fuel)
  show ?case
  proof (cases "e1 = 0")
    case False
    obtain r where r: "am_read_nack len d = Inr r" "case r of None \<Rightarrow> True | Some (n, e1, d') \<Rightarrow>
       dec_wf d' \<and> dec_size d' = dec_size d \<and> dec_pos d < dec_pos d' \<and> 0 \<le> nk_sn n \<and> nk_sn n < 2 ^ len"
      using am_read_nack_progress[OF Suc.prems(1,2)] by blast
    show ?thesis
    proof (cases r)
      case None
      then show ?thesis using False r by simp
    next
      case (Some a)
      obtain n e1' d' where a: "a = (n, e1', d')" by (cases a) auto
      then have d': "dec_wf d'" "dec_size d' = dec_size d" "dec_pos d < dec_pos d'" using r Some by auto
      then have "dec_pos d' \<le> 8 * dec_size d'" by (simp add: dec_wf_def)
      then have "8 * dec_size d' - dec_pos d' < fuel" using d' Suc.prems(3) by linarith
      then obtain ns where "am_read_nacks fuel len e1' d' = Inr ns"
        using Suc.IH[OF d'(1) Suc.prems(2)] by blast
      then show ?thesis using False r Some a by simp
    qed
  qed simp
qed simp

text \<open>Decoding a STATUS PDU never fails: a malformed one gives \<open>None\<close>.\<close>

lemma am_decode_control_total:
  assumes "am_sn_field_length e \<le> 31"
  shows "\<exists>r. am_decode_control e buf = Inr r"
proof -
  let ?P = "\<lambda>r :: (int \<times> nack_t list) option res. \<exists>x. r = Inr x"
  have "?P (bindE (am_read_nacks (8 * length buf) (am_sn_field_length e) e1 d)
      (\<lambda>ns. Inr (map_option (\<lambda>ns. (ack_sn, ns)) ns)))"
    if d: "dec_wf d" "dec_size d = length buf" "0 < dec_pos d" for e1 d ack_sn
  proof -
    have "8 * dec_size d - dec_pos d < 8 * length buf" using d by (auto simp: dec_wf_def)
    then obtain ns where "am_read_nacks (8 * length buf) (am_sn_field_length e) e1 d = Inr ns"
      using am_read_nacks_enough[OF d(1) assms] by blast
    then show ?thesis by simp
  qed
  then show ?thesis
    unfolding am_decode_control_def Let_def using assms
    by (intro get_bits_R_rule[where P = ?P]) (auto intro!: get_bits_R_rule[where P = ?P])
qed

lemma am_process_control_post:
  assumes inv: "am_rx_inv e" and part: "rx_part e1 = rx_part e" "events e1 = events e"
  shows "am_rx_post e (am_process_control_pdu e1 buf)"
proof -
  have inv1: "am_rx_inv e1" using inv part am_rx_inv_cong by blast
  obtain r where r: "am_decode_control e1 buf = Inr r"
    using am_decode_control_total inv1 by (auto simp: am_rx_inv_def)
  have "\<exists>e'. am_process_control_pdu e1 buf = Inr e' \<and> rx_view e' = rx_view e1"
    using r rx_view_status by (auto simp: am_process_control_pdu_def split: option.splits)
  then obtain e' where e': "am_process_control_pdu e1 buf = Inr e'" "rx_view e' = rx_view e1" by blast
  then have "am_rx_inv e'" using inv1 am_rx_inv_cong[of e' e1] by (simp add: rx_view_def)
  then show ?thesis using e' part by (simp add: am_rx_post_def rx_view_def)
qed

text \<open>A new entity satisfies the invariant.\<close>

lemma new_am_rx_inv [inv_intros]:
  assumes "new_nr_rlc_entity_am rxm txm tp tr ts pp pb mr len = Inr e" and "0 \<le> rxm"
  shows "am_rx_inv e" and "rx_lookup (am_rx e) sn = []" and "am_rx_next e = 0" and "events e = []"
proof -
  have len: "len = 12 \<or> len = 18" using assms(1) by (auto simp: new_nr_rlc_entity_am_def split: if_splits)
  let ?w = "push_bit (len - 1) 1 :: int"
  have w: "0 < ?w" "push_bit len 1 = 2 * ?w" "push_bit len (1 :: int) = 2 ^ len" using len by auto
  have rx: "am_rx e = nr_rlc_new_rx_manager ?w" "am_rx_next e = 0" "am_window_size e = ?w"
    "am_sn_modulus e = 2 * ?w" "am_sn_field_length e = len" "am_rx_size e = 0" "am_rx_maxsize e = rxm * 5"
    "am_rx_highest_status e = 0" "am_rx_next_highest e = 0" "am_rx_next_status_trigger e = 0" "events e = []"
    using assms(1) w by (auto simp: new_nr_rlc_entity_am_def Let_def split: if_splits)
  have "rxm_ok (nr_rlc_new_rx_manager ?w)"
    using new_rx_manager_inv[OF w(1)] new_rx_manager_lookup[OF w(1)]
    by (auto simp: rxm_ok_def nr_rlc_new_rx_manager_def)
  moreover have "rx_pending (nr_rlc_new_rx_manager ?w) = 0"
    by (simp add: rx_pending_def nr_rlc_new_rx_manager_def sum_list_replicate)
  ultimately show "am_rx_inv e"
    using rx w assms(2) len by (auto simp: am_rx_inv_def nr_rlc_new_rx_manager_def)
  show "rx_lookup (am_rx e) sn = []" using rx new_rx_manager_lookup[OF w(1)] by simp
  show "am_rx_next e = 0" "events e = []" using rx by simp_all
qed

definition am_example :: "nr_rlc_entity_am_t res" where
  "am_example = new_nr_rlc_entity_am 1000 1000 45 35 0 (-1) (-1) 8 12"

lemma am_example_new:
  "\<exists>e. am_example = Inr e \<and> am_rx_inv e \<and> (\<forall>sn. rx_lookup (am_rx e) sn = []) \<and> am_rx_next e = 0
     \<and> events e = [] \<and> am_rx_size e = 0 \<and> am_rx_maxsize e = 5000 \<and> am_window_size e = 2048"
proof -
  obtain e where e: "am_example = Inr e"
    by (simp add: am_example_def new_nr_rlc_entity_am_def Let_def)
  then have "am_rx_size e = 0" "am_rx_maxsize e = 5000" "am_window_size e = 2048"
    by (auto simp: am_example_def new_nr_rlc_entity_am_def Let_def)
  with e new_am_rx_inv[OF e[unfolded am_example_def]] show ?thesis by auto
qed

lemma am_recv_pdu_rx_post:
  assumes "am_rx_inv e"
  shows "am_rx_post e (nr_rlc_entity_am_recv_pdu e buf)"
proof -
  let ?e = "upd_stats (count_rxpdu (int (length buf))) e" and ?P = "am_rx_post e"
  have part: "rx_part ?e = rx_part e" "events ?e = events e" by (simp_all add: rx_part_def upd_stats_def)
  have inv: "am_rx_inv ?e" using assms part am_rx_inv_cong by blast
  have len: "am_sn_field_length ?e \<le> 31" "am_sn_modulus ?e = 2 ^ am_sn_field_length ?e"
    using inv by (simp_all add: am_rx_inv_def)
  have post: "am_rx_post ?e = ?P" by (rule am_rx_post_cong) simp
  have disc: "?P (am_discard p (int (length buf)) ?e)" for p
    using am_discard_post[OF assms part] .
  have data: "?P (am_recv_data ?e buf h p f l sn so)" if "0 \<le> sn" "sn < 2 ^ am_sn_field_length ?e" "0 \<le> so" for h p f l sn so
    using am_recv_data_post[OF inv] that post len by simp
  note ctl = am_process_control_post[OF assms part]
  show ?thesis
    unfolding nr_rlc_entity_am_recv_pdu_def Let_def
    by (intro get_bits_R_rule[where P = ?P])
      (use len disc data ctl in \<open>auto intro!: get_bits_R_rule[where P = ?P]\<close>)
qed

text \<open>
  Property C1. Whatever bytes arrive, the reception half stays consistent: the invariant of the
  window and of the buffer limit is kept and at most one SDU, of legal size, is handed up. The only
  abnormal ends are a read outside a segment during reassembly and a loop that does not end.
\<close>

theorem am_recv_pdu_post:
  assumes "am_rx_inv e"
  shows "am_rx_post e (nr_rlc_entity_am_recv_pdu e buf)"
  using assms by (rule am_recv_pdu_rx_post)

theorem am_recv_pdu_post_witness:
  "\<exists>e. am_example = Inr e \<and> am_rx_inv e \<and> am_rx_post e (nr_rlc_entity_am_recv_pdu e [0x80, 0, 1, 2])"
  using am_example_new am_recv_pdu_post by blast


section \<open>A correct peer's SDUs are delivered unchanged\<close>

text \<open>
  \<open>D\<close> gives the SDU the peer numbered with each SN. Every undelivered slot of the window holds
  pieces of the SDU of its SN.
\<close>

definition rx_honest :: "(int \<Rightarrow> buffer) \<Rightarrow> nr_rlc_rx_manager_t \<Rightarrow> bool" where
  "rx_honest D m \<longleftrightarrow> (\<forall>k. 0 \<le> k \<and> k < rxm_size m \<longrightarrow> \<not> pdus_processed (rx_lookup m (rx_at m k)) \<longrightarrow>
     list_all (piece_of (D (rx_at m k))) (rx_lookup m (rx_at m k)))"

lemma rx_honestD:
  assumes "rx_honest D m" and "rxm_inv m" and "sn_in_window (rxm_sn_start m) (rxm_size m) sn"
    and "\<not> pdus_processed (rx_lookup m sn)"
  shows "list_all (piece_of (D sn)) (rx_lookup m sn)"
  using assms rx_in_window_at[OF assms(2,3)] unfolding rx_honest_def by metis

lemma rx_honestI:
  assumes "rxm_inv m" and "\<And>sn. sn_in_window (rxm_sn_start m) (rxm_size m) sn \<Longrightarrow>
    \<not> pdus_processed (rx_lookup m sn) \<Longrightarrow> list_all (piece_of (D sn)) (rx_lookup m sn)"
  shows "rx_honest D m"
  unfolding rx_honest_def using assms rx_at_in_window[OF assms(1)] by blast

lemma rx_honest_add:
  assumes hon: "rx_honest D m" and inv: "rxm_inv m"
    and win: "sn_in_window (rxm_sn_start m) (rxm_size m) (pdu_sn p)"
    and p: "piece_of (D (pdu_sn p)) p" and np: "\<not> pdus_processed (rx_lookup m (pdu_sn p))"
  shows "rx_honest D (nr_rlc_rx_manager_add_pdu m p)"
proof -
  note a = rxm.add_invar[OF inv, of p]
  show ?thesis
  proof (rule rx_honestI)
    show "rxm_inv (nr_rlc_rx_manager_add_pdu m p)" using a by simp
    fix sn assume sn: "sn_in_window (rxm_sn_start (nr_rlc_rx_manager_add_pdu m p))
        (rxm_size (nr_rlc_rx_manager_add_pdu m p)) sn"
      and u: "\<not> pdus_processed (rx_lookup (nr_rlc_rx_manager_add_pdu m p) sn)"
    have look: "rx_lookup (nr_rlc_rx_manager_add_pdu m p) sn
        = (if sn = pdu_sn p then ins_by_so p (rx_lookup m sn) else rx_lookup m sn)"
      using rxm.add_lookup[OF inv win, of sn] sn a by simp
    show "list_all (piece_of (D sn)) (rx_lookup (nr_rlc_rx_manager_add_pdu m p) sn)"
      using look u np p rx_honestD[OF hon inv, of sn] sn a
      by (auto simp: list_all_iff ins_by_so_def)
  qed
qed

lemma rx_honest_deliver:
  assumes hon: "rx_honest D m" and inv: "rxm_inv m"
    and win: "sn_in_window (rxm_sn_start m) (rxm_size m) sn"
    and full: "rx_lookup m sn \<noteq> []"
  shows "rx_honest D (rx_manager_map_pdus mark_delivered m sn)"
proof -
  note a = rxm.touch_invar[OF inv, of mark_delivered sn]
  show ?thesis
  proof (rule rx_honestI)
    show "rxm_inv (rx_manager_map_pdus mark_delivered m sn)" using a by simp
    fix sn' assume sn': "sn_in_window (rxm_sn_start (rx_manager_map_pdus mark_delivered m sn))
        (rxm_size (rx_manager_map_pdus mark_delivered m sn)) sn'"
      and u: "\<not> pdus_processed (rx_lookup (rx_manager_map_pdus mark_delivered m sn) sn')"
    have look: "rx_lookup (rx_manager_map_pdus mark_delivered m sn) sn'
        = (if sn' = sn then map mark_delivered (rx_lookup m sn) else rx_lookup m sn')"
      using rxm.touch_lookup[OF inv win, of sn'] sn' a by simp
    then have "sn' \<noteq> sn"
      using u full by (cases "rx_lookup m sn") (auto simp: pdus_processed_def mark_delivered_def)
    then show "list_all (piece_of (D sn')) (rx_lookup (rx_manager_map_pdus mark_delivered m sn) sn')"
      using look u rx_honestD[OF hon inv, of sn'] sn' a by auto
  qed
qed

lemma rx_honest_drain:
  assumes hon: "rx_honest D m" and inv: "rxm_inv m" and n: "int n \<le> rxm_size m"
  shows "rx_honest D (rxm_move (rxm.clear_first m n) (int n))"
  using hon rxm_drain_lookup[OF inv n] n
  by (simp add: rx_honest_def rx_at_move[OF inv n])

text \<open>What reassembly does with the segments of a correct peer.\<close>

lemma am_deliver_honest:
  assumes inv: "am_rx_inv e" and hon: "rx_honest D (am_rx e)"
    and win: "sn_in_window (am_rx_next e) (am_window_size e) sn" and full: "am_sdu_full e sn"
    and D: "0 < length (D sn)" "int (length (D sn)) \<le> NR_SDU_MAX"
  shows "\<exists>e'. am_reassemble_and_deliver e sn = Inr e' \<and> am_rx_inv e' \<and> rx_honest D (am_rx e')
    \<and> am_rx e' = rx_manager_map_pdus mark_delivered (am_rx e) sn
    \<and> events e' = events e @ [Deliver_Sdu (D sn)] \<and> am_window_size e' = am_window_size e
    \<and> am_rx_highest_status e' = am_rx_highest_status e"
proof -
  let ?l = "rx_lookup (am_rx e) sn"
  note d = am_rx_invD[OF inv]
  have win': "sn_in_window (rxm_sn_start (am_rx e)) (rxm_size (am_rx e)) sn" using win d by simp
  have f: "sdu_full_loop ?l (-1)" "\<not> pdus_processed ?l"
    using full by (simp_all add: am_sdu_full_def Let_def split: if_splits)
  have sorted: "sorted (map pdu_so ?l)" using rxm_okD(2)[OF d(1), of sn] by (simp add: slot_ok_def)
  have pieces: "list_all (piece_of (D sn)) ?l" using rx_honestD[OF hon d(2) win' f(2)] .
  have "all_covered ?l 0 (int (length (D sn)))"
    using sdu_full_iff[OF sorted pieces, of "-1"] f(1) D(1) by simp
  then have re: "reassemble_loop ?l [] False (am_rx_size e)
      = Inr (D sn, False, am_rx_size e - sum_list (map pdu_size ?l))"
    using reassemble_pieces[OF sorted pieces, of 0 "am_rx_size e"] D(2) by simp
  then obtain e' where e': "am_reassemble_and_deliver e sn = Inr e'" "am_rx_inv e'"
    "am_rx e' = rx_manager_map_pdus mark_delivered (am_rx e) sn" "am_window_size e' = am_window_size e"
    "am_rx_highest_status e' = am_rx_highest_status e"
    using am_deliver_step[OF inv win full] by (auto simp: am_reassemble_and_deliver_def Let_def)
  moreover have "events e' = events e @ [Deliver_Sdu (D sn)]"
    using e'(1) re by (auto simp: am_reassemble_and_deliver_def Let_def)
  moreover have "?l \<noteq> []" using f(1) by auto
  ultimately show ?thesis using rx_honest_deliver[OF hon d(2) win'] by auto
qed

lemma am_store_lookup:
  assumes inv: "am_rx_inv e" and win: "sn_in_window (am_rx_next e) (am_window_size e) (pdu_sn p)"
    and "sn_in_window (am_rx_next e) (am_window_size e) sn"
  shows "rx_lookup (nr_rlc_rx_manager_add_pdu (am_rx e) p) sn
    = (if sn = pdu_sn p then ins_by_so p (rx_lookup (am_rx e) sn) else rx_lookup (am_rx e) sn)"
  using rxm.add_lookup[OF am_rx_invD(2)[OF inv], of p sn] assms am_rx_invD[OF inv] by simp

text \<open>Some SN of the window other than \<open>sn\<close> is not delivered yet.\<close>

definition am_other_open :: "nr_rlc_entity_am_t \<Rightarrow> int \<Rightarrow> bool" where
  "am_other_open e sn \<longleftrightarrow> (\<exists>sn'. sn_in_window (am_rx_next e) (am_window_size e) sn' \<and> sn' \<noteq> sn
     \<and> \<not> am_sdu_delivered e sn')"

lemma am_reception_honest:
  assumes inv: "am_rx_inv e" and hon: "rx_honest D (am_rx e)"
    and win: "sn_in_window (am_rx_next e) (am_window_size e) (pdu_sn p)"
    and D: "0 < length (D (pdu_sn p))" "int (length (D (pdu_sn p))) \<le> NR_SDU_MAX"
    and other: "am_other_open e (pdu_sn p)"
  shows "\<exists>e'. am_reception_actions e p = Inr e' \<and> am_rx_inv e' \<and> rx_honest D (am_rx e')
    \<and> events e' = events e @ (if am_sdu_full e (pdu_sn p) then [Deliver_Sdu (D (pdu_sn p))] else [])"
proof -
  let ?x = "pdu_sn p"
  define e0 where "e0 = (if am_sn_compare_rx e ?x (am_rx_next_highest e) \<ge> 0
               then e\<lparr>am_rx_next_highest := (?x + 1) mod am_sn_modulus e\<rparr> else e)"
  have inv0: "am_rx_inv e0" using inv am_rx_invD(5,6)[OF inv] by (simp add: e0_def am_rx_inv_def)
  have fr: "am_rx_next e0 = am_rx_next e" "am_window_size e0 = am_window_size e" "events e0 = events e"
    "am_rx e0 = am_rx e" by (simp_all add: e0_def)
  have full: "am_sdu_full e0 ?x = am_sdu_full e ?x" by (simp add: am_sdu_full_def fr)
  have eq: "am_reception_actions e p = bindE (if am_sdu_full e0 ?x
      then bindE (am_reassemble_and_deliver e0 ?x) (\<lambda>e. am_after_delivery e ?x) else Inr e0)
      (\<lambda>e. Inr (am_update_t_reassembly e))"
    by (simp add: am_reception_actions_eq Let_def e0_def)
  show ?thesis
  proof (cases "am_sdu_full e ?x")
    case False
    then show ?thesis using eq full am_update_t_reassembly_inv[OF inv0] fr hon by simp
  next
    case True
    have win0: "sn_in_window (am_rx_next e0) (am_window_size e0) ?x" using win fr by simp
    obtain e1 where e1: "am_reassemble_and_deliver e0 ?x = Inr e1" "am_rx_inv e1" "rx_honest D (am_rx e1)"
      "am_rx e1 = rx_manager_map_pdus mark_delivered (am_rx e0) ?x"
      "events e1 = events e0 @ [Deliver_Sdu (D ?x)]" "am_window_size e1 = am_window_size e0"
      using am_deliver_honest[OF inv0 _ win0, of D] hon True full fr D by auto
    obtain sn' where sn': "sn_in_window (am_rx_next e) (am_window_size e) sn'" "sn' \<noteq> ?x" "\<not> am_sdu_delivered e sn'"
      using other by (auto simp: am_other_open_def)
    note d = am_rx_invD[OF inv] and d1 = am_rx_invD[OF e1(2)]
    have base: "rxm_sn_start (am_rx e1) = rxm_sn_start (am_rx e)" "rxm_size (am_rx e1) = rxm_size (am_rx e)"
      using e1(4) fr(4) rxm.touch_invar[OF d(2), of mark_delivered ?x] by auto
    have "rx_lookup (am_rx e1) sn' = rx_lookup (am_rx e) sn'"
      using rxm.touch_lookup[OF d(2), of ?x sn' mark_delivered] win sn' d e1(4) fr(4) by simp
    then have open1: "\<not> am_sdu_delivered e1 sn'" using sn'(3) by (simp add: am_sdu_delivered_def)
    have "\<exists>k. 0 \<le> k \<and> k < am_window_size e1 \<and> \<not> am_sdu_delivered e1 (rx_at (am_rx e1) k)"
      using rx_in_window_at[OF d1(2), of sn'] sn'(1) base d d1 open1 by metis
    then obtain e2 n where e2: "am_after_delivery e1 ?x = Inr e2" "am_rx_inv e2" "events e2 = events e1"
      "int n \<le> am_window_size e1" "am_rx e2 = rxm_move (rxm.clear_first (am_rx e1) n) (int n)"
      using am_after_delivery_cases[OF e1(2), of ?x] by blast
    have "rx_honest D (am_rx e2)"
      using rx_honest_drain[OF e1(3) d1(2), of n] e2(4,5) d1(3) by simp
    then show ?thesis
      using eq True full e1 e2 am_update_t_reassembly_inv[OF e2(2)] fr by simp
  qed
qed

lemma am_reception_diverges:
  assumes inv: "am_rx_inv e" and hon: "rx_honest D (am_rx e)"
    and win: "sn_in_window (am_rx_next e) (am_window_size e) (pdu_sn p)"
    and D: "0 < length (D (pdu_sn p))" "int (length (D (pdu_sn p))) \<le> NR_SDU_MAX"
    and full: "am_sdu_full e (pdu_sn p)" and other: "\<not> am_other_open e (pdu_sn p)"
    and hs: "pdu_sn p = am_rx_highest_status e"
  shows "am_reception_actions e p = Inl Diverges"
proof -
  let ?x = "pdu_sn p"
  define e0 where "e0 = (if am_sn_compare_rx e ?x (am_rx_next_highest e) \<ge> 0
               then e\<lparr>am_rx_next_highest := (?x + 1) mod am_sn_modulus e\<rparr> else e)"
  have inv0: "am_rx_inv e0" using inv am_rx_invD(5,6)[OF inv] by (simp add: e0_def am_rx_inv_def)
  have fr: "am_rx_next e0 = am_rx_next e" "am_window_size e0 = am_window_size e" "am_rx e0 = am_rx e"
    "am_rx_highest_status e0 = am_rx_highest_status e" by (simp_all add: e0_def)
  have full0: "am_sdu_full e0 ?x" using full by (simp add: am_sdu_full_def fr)
  have win0: "sn_in_window (am_rx_next e0) (am_window_size e0) ?x" using win fr by simp
  obtain e1 where e1: "am_reassemble_and_deliver e0 ?x = Inr e1" "am_rx_inv e1"
    "am_rx e1 = rx_manager_map_pdus mark_delivered (am_rx e0) ?x" "am_window_size e1 = am_window_size e0"
    "am_rx_highest_status e1 = am_rx_highest_status e0"
    using am_deliver_honest[OF inv0 _ win0 full0, of D] hon fr D by auto
  note d = am_rx_invD[OF inv] and d1 = am_rx_invD[OF e1(2)]
  have base: "rxm_sn_start (am_rx e1) = rxm_sn_start (am_rx e)" "rxm_size (am_rx e1) = rxm_size (am_rx e)"
    using e1(3) fr(3) rxm.touch_invar[OF d(2), of mark_delivered ?x] by auto
  have ne: "rx_lookup (am_rx e) ?x \<noteq> []" using full by (auto simp: am_sdu_full_def Let_def split: if_splits)
  have all: "am_sdu_delivered e1 sn" if "sn_in_window (am_rx_next e) (am_window_size e) sn" for sn
  proof -
    have "rx_lookup (am_rx e1) sn = (if sn = ?x then map mark_delivered (rx_lookup (am_rx e) ?x) else rx_lookup (am_rx e) sn)"
      using rxm.touch_lookup[OF d(2), of ?x sn mark_delivered] win that d e1(3) fr(3) by simp
    then show ?thesis
      using other that ne
      by (cases "rx_lookup (am_rx e) ?x")
        (auto simp: am_other_open_def am_sdu_delivered_def pdus_processed_def mark_delivered_def)
  qed
  have "am_sdu_delivered e1 (rx_at (am_rx e1) k)" if "0 \<le> k" "k < rxm_size (am_rx e1)" for k
    using all rx_at_in_window[OF d1(2) that] base d by simp
  then have "am_skip_delivered e1 (am_rx_highest_status e1) = None"
    using am_skip_delivered_cases(2)[OF d1(2), of "am_rx_highest_status e1"] d1 e1(2)
    by (simp add: am_rx_inv_def)
  then have "am_after_delivery e1 ?x = Inl Diverges"
    using hs e1(5) fr(4) by (simp add: am_after_delivery_def)
  then show ?thesis
    using full0 e1(1) by (simp add: am_reception_actions_eq Let_def e0_def)
qed

text \<open>The entity after a segment was stored, and what holds then.\<close>

definition am_stored :: "nr_rlc_entity_am_t \<Rightarrow> nr_rlc_pdu_t \<Rightarrow> nr_rlc_entity_am_t" where
  "am_stored e p =
     e\<lparr>am_rx_size := am_rx_size e + pdu_size p, am_rx := nr_rlc_rx_manager_add_pdu (am_rx e) p\<rparr>"

lemma am_stored_frame [simp]:
  "am_rx_next (am_stored e p) = am_rx_next e" "am_window_size (am_stored e p) = am_window_size e"
  "events (am_stored e p) = events e" "am_rx_highest_status (am_stored e p) = am_rx_highest_status e"
  by (simp_all add: am_stored_def)

lemma am_recv_data_stored:
  assumes inv: "am_rx_inv e" and win: "sn_in_window (am_rx_next e) (am_window_size e) sn"
    and room: "am_rx_size e + (int (length buf) - int hdr) \<le> am_rx_maxsize e"
    and pos: "0 < int (length buf) - int hdr"
    and new: "\<not> am_segment_already_received e sn so (int (length buf) - int hdr)"
  shows "am_recv_data e buf hdr poll is_first is_last sn so =
    (let p = nr_rlc_new_pdu sn so is_first is_last (drop hdr buf) in
     bindE (am_reception_actions (am_stored e p) p) (\<lambda>e.
       Inr (if poll \<noteq> 0 then e\<lparr>am_status_triggered := True\<rparr> else e)))"
proof -
  note d = am_rx_invD[OF inv]
  have "0 \<le> sn" "sn < am_sn_modulus e" using win d by (auto simp: sn_in_window_def)
  then have "am_sn_in_recv_window e sn" using am_recv_window_iff[OF inv] win d by simp
  moreover have "int (length (drop hdr buf)) = int (length buf) - int hdr" using pos by simp
  ultimately show ?thesis
    using pos room new by (simp add: am_recv_data_def Let_def am_stored_def nr_rlc_new_pdu_def)
qed

lemma am_stored_honest:
  assumes inv: "am_rx_inv e" and hon: "rx_honest D (am_rx e)" and D: "0 < length (D (pdu_sn p))"
    and p: "piece_of (D (pdu_sn p)) p"
    and win: "sn_in_window (am_rx_next e) (am_window_size e) (pdu_sn p)"
    and room: "am_rx_size e + pdu_size p \<le> am_rx_maxsize e" and new: "\<not> am_sdu_delivered e (pdu_sn p)"
  shows "am_rx_inv (am_stored e p)" and "rx_honest D (am_rx (am_stored e p))"
    and "am_other_open (am_stored e p) (pdu_sn p) = am_other_open e (pdu_sn p)"
    and "am_sdu_full (am_stored e p) (pdu_sn p)
      = all_covered (p # rx_lookup (am_rx e) (pdu_sn p)) 0 (int (length (D (pdu_sn p))))"
proof -
  let ?sn = "pdu_sn p" and ?e = "am_stored e p"
  note d = am_rx_invD[OF inv]
  have win': "sn_in_window (rxm_sn_start (am_rx e)) (rxm_size (am_rx e)) ?sn" using win d by simp
  obtain b where b: "0 \<le> pdu_so p" "0 < pdu_size p" "pdu_data p = Some b" "int (length b) = pdu_size p"
    using p by (auto simp: piece_of_def)
  have np: "\<not> pdus_processed (rx_lookup (am_rx e) ?sn)" using new by (simp add: am_sdu_delivered_def)
  show inv': "am_rx_inv ?e" using am_store_pdu[OF inv win b room] by (simp add: am_stored_def)
  show hon': "rx_honest D (am_rx ?e)" using rx_honest_add[OF hon d(2) win' p np] by (simp add: am_stored_def)
  have look: "rx_lookup (am_rx ?e) sn' = (if sn' = ?sn then ins_by_so p (rx_lookup (am_rx e) sn') else rx_lookup (am_rx e) sn')"
    if "sn_in_window (am_rx_next e) (am_window_size e) sn'" for sn'
    using am_store_lookup[OF inv win that] by (simp add: am_stored_def)
  show "am_other_open ?e ?sn = am_other_open e ?sn"
    using look by (auto simp: am_other_open_def am_sdu_delivered_def)
  have np': "\<not> pdus_processed (rx_lookup (am_rx ?e) ?sn)"
    using look[OF win] pdus_processed_insert[OF rxm_okD(2)[OF d(1)] b(1), of ?sn] np b by simp
  have "sorted (map pdu_so (rx_lookup (am_rx ?e) ?sn))"
    using rxm_okD(2)[OF am_rx_invD(1)[OF inv'], of ?sn] by (simp add: slot_ok_def)
  moreover have "list_all (piece_of (D ?sn)) (rx_lookup (am_rx ?e) ?sn)"
    using rx_honestD[OF hon' am_rx_invD(2)[OF inv'], of ?sn] np' win am_rx_invD[OF inv'] by simp
  moreover have "all_covered (ins_by_so p l) a b = all_covered (p # l) a b" for l a b
    by (simp add: all_covered_def ins_by_so_def)
  ultimately show "am_sdu_full ?e ?sn = all_covered (p # rx_lookup (am_rx e) ?sn) 0 (int (length (D ?sn)))"
    using sdu_full_iff[of "rx_lookup (am_rx ?e) ?sn" "D ?sn" "-1"] D np' look[OF win]
    by (simp add: am_sdu_full_def Let_def)
qed



text \<open>
  Property C32. The loop that does not end: when every other SN of the window is delivered and the
  SN at \<open>rx_highest_status\<close> is completed, the search for the next undelivered SN finds every slot
  delivered and the entity hangs. The window has as many SNs as slots, so a correct peer that fills
  its window while the first SDU is missing brings the receiver there.
\<close>

theorem am_recv_full_window_diverges:
  assumes inv: "am_rx_inv e" and hon: "rx_honest D (am_rx e)"
    and D: "0 < length (D sn)" "int (length (D sn)) \<le> NR_SDU_MAX"
    and p: "piece_of (D sn) (nr_rlc_new_pdu sn so is_first is_last (drop hdr buf))"
    and win: "sn_in_window (am_rx_next e) (am_window_size e) sn"
    and room: "am_rx_size e + (int (length buf) - int hdr) \<le> am_rx_maxsize e"
    and new: "\<not> am_sdu_delivered e sn" "\<not> am_segment_already_received e sn so (int (length buf) - int hdr)"
    and full: "\<not> am_other_open e sn" "sn = am_rx_highest_status e"
    and cov: "all_covered (nr_rlc_new_pdu sn so is_first is_last (drop hdr buf)
              # nr_rlc_rx_manager_get_pdu_from_sn (am_rx e) sn) 0 (int (length (D sn)))"
  shows "am_recv_data e buf hdr poll is_first is_last sn so = Inl Diverges"
proof -
  let ?p = "nr_rlc_new_pdu sn so is_first is_last (drop hdr buf)"
  have pos: "0 < int (length buf) - int hdr" using p by (simp add: piece_of_def nr_rlc_new_pdu_def)
  then have pd: "pdu_sn ?p = sn" "pdu_size ?p = int (length buf) - int hdr" by (auto simp: nr_rlc_new_pdu_def)
  note st = am_stored_honest[OF inv hon, of ?p, unfolded pd, OF D(1) p win room new(1)]
  have "am_reception_actions (am_stored e ?p) ?p = Inl Diverges"
    using am_reception_diverges[OF st(1,2), of ?p] st(3,4) full cov win D pd by simp
  then show ?thesis using am_recv_data_stored[OF inv win room pos new(2)] by (simp add: Let_def)
qed

text \<open>A window of \<open>n\<close> slots in which everything but the first SN is delivered.\<close>

definition delivered_window :: "nat \<Rightarrow> nr_rlc_rx_manager_t" where
  "delivered_window n =
     \<lparr>rxm_list = map (\<lambda>i. if i = 0 then [] else
        [\<lparr>pdu_sn = int i, pdu_data = None, pdu_size = 1, pdu_so = 0, pdu_is_first = True, pdu_is_last = True\<rparr>])
        [0..<n], rxm_size = int n, rxm_start = 0, rxm_sn_start = 0\<rparr>"

lemma delivered_window_ok:
  assumes "0 < n"
  shows "rxm_ok (delivered_window n)" and "rx_pending (delivered_window n) = 0"
    and "0 \<le> k \<Longrightarrow> k < int n \<Longrightarrow> pdus_processed (rx_lookup (delivered_window n) k) \<longleftrightarrow> k \<noteq> 0"
    and "rx_lookup (delivered_window n) 0 = []"
proof -
  let ?m = "delivered_window n"
  have look: "rx_lookup ?m k = (if k = 0 then [] else
      [\<lparr>pdu_sn = k, pdu_data = None, pdu_size = 1, pdu_so = 0, pdu_is_first = True, pdu_is_last = True\<rparr>])"
    if "0 \<le> k" "k < int n" for k
    using that by (auto simp: delivered_window_def nr_rlc_rx_manager_get_pdu_from_sn_def get_pos_mod nat_less_iff)
  have at: "rx_at ?m k = k" if "0 \<le> k" "k < int n" for k
    using that by (simp add: rx_at_def delivered_window_def)
  have inv: "rxm_inv ?m" "rxm_size ?m = int n" using assms by (simp_all add: rxm_inv_def delivered_window_def)
  have "\<forall>l \<in> set (rxm_list ?m). slot_ok l"
    by (auto simp: delivered_window_def slot_ok_def pdus_processed_def)
  moreover have "\<forall>p \<in> set (rx_lookup ?m (rx_at ?m k)). pdu_sn p = rx_at ?m k" if "0 \<le> k" "k < int n" for k
    using that by (simp add: at look)
  ultimately show "rxm_ok ?m" using inv by (simp add: rxm_ok_def)
  have "\<forall>l \<in> set (rxm_list ?m). pending l = 0" by (auto simp: delivered_window_def pending_def)
  then have eq: "map pending (rxm_list ?m) = map (\<lambda>_. 0) (rxm_list ?m)" by (intro map_cong) auto
  show "rx_pending ?m = 0" unfolding rx_pending_def eq by simp
  show "0 \<le> k \<Longrightarrow> k < int n \<Longrightarrow> pdus_processed (rx_lookup ?m k) \<longleftrightarrow> k \<noteq> 0"
    by (simp add: look pdus_processed_def)
  show "rx_lookup ?m 0 = []" using look[of 0] assms by simp
qed

theorem am_recv_full_window_diverges_witness:
  "\<exists>e. am_example = Inr e \<and> am_rx_inv (e\<lparr>am_rx := delivered_window 2048\<rparr>)
     \<and> am_recv_data (e\<lparr>am_rx := delivered_window 2048\<rparr>) [0x80, 0, 1, 2, 3] 2 0 True True 0 0 = Inl Diverges"
proof -
  obtain e where e: "am_example = Inr e" "am_rx_inv e" "am_rx_next e = 0"
    "events e = []" "am_rx_size e = 0" "am_rx_maxsize e = 5000" "am_window_size e = 2048"
    using am_example_new by blast
  have hs: "am_rx_highest_status e = 0"
    using e(1) by (auto simp: am_example_def new_nr_rlc_entity_am_def Let_def)
  let ?D = "\<lambda>_ :: int. [1, 2, 3] :: buffer" and ?m = "delivered_window 2048"
  let ?e = "e\<lparr>am_rx := ?m\<rparr>" and ?p = "nr_rlc_new_pdu 0 0 True True (drop 2 [0x80, 0, 1, 2, 3])"
  note w = delivered_window_ok[of 2048]
  have am_rx_upd: "am_rx ?e = ?m" by simp
  have m: "rxm_size ?m = 2048" "rxm_sn_start ?m = 0" by (simp_all add: delivered_window_def)
  have inv: "am_rx_inv ?e" using e(2,3,5,6,7) w m by (simp add: am_rx_inv_def)
  have hon: "rx_honest ?D (am_rx ?e)"
  proof -
    have "rx_lookup ?m (rx_at ?m k) = []" if "0 \<le> k" "k < 2048" "\<not> pdus_processed (rx_lookup ?m (rx_at ?m k))" for k
      using that w(3)[of k] w(4) by (auto simp: rx_at_def m)
    then show ?thesis unfolding rx_honest_def by (metis am_rx_upd list.pred_inject(1) m(1))
  qed
  have p: "piece_of [1, 2, 3] ?p" by (simp add: piece_of_def nr_rlc_new_pdu_def)
  have closed: "\<not> am_other_open ?e 0"
    using w(3) e by (auto simp: am_other_open_def am_sdu_delivered_def sn_in_window_def)
  have "all_covered [?p] 0 3" by (simp add: all_covered_def covers_def nr_rlc_new_pdu_def)
  then have "am_recv_data ?e [0x80, 0, 1, 2, 3] 2 0 True True 0 0 = Inl Diverges"
    using am_recv_full_window_diverges[OF inv hon _ _ p _ _ _ _ closed, of 0] e hs w(4)
    by (simp add: NR_SDU_MAX_def sn_in_window_def am_sdu_delivered_def pdus_processed_def
        am_segment_already_received_def)
  then show ?thesis using e(1) inv by blast
qed

section \<open>The window, duplicates, control PDUs\<close>

text \<open>
  Property C25. Moving the window past the delivered SDUs at its head always ends. It frees exactly
  the leading delivered SNs, \<open>rx_next\<close> becomes the first SN not delivered, every SN that stays in the
  window keeps its segments although two SNs share each slot, and the SNs that come into the window
  are empty.
\<close>

theorem am_window_advance:
  assumes "am_rx_inv e"
  shows "\<exists>n e'. am_advance_rx_next e = Inr e' \<and> am_rx_inv e' \<and> int n \<le> am_window_size e
    \<and> am_rx_next e' = (am_rx_next e + int n) mod am_sn_modulus e
    \<and> (\<forall>k < n. am_sdu_delivered e ((am_rx_next e + int k) mod am_sn_modulus e))
    \<and> (int n < am_window_size e \<longrightarrow> \<not> am_sdu_delivered e (am_rx_next e'))
    \<and> (\<forall>k. 0 \<le> k \<and> k < am_window_size e \<longrightarrow>
        nr_rlc_rx_manager_get_pdu_from_sn (am_rx e') ((am_rx_next e' + k) mod am_sn_modulus e)
        = (if int n + k < am_window_size e
           then nr_rlc_rx_manager_get_pdu_from_sn (am_rx e) ((am_rx_next e' + k) mod am_sn_modulus e) else []))"
proof -
  note d = am_rx_invD[OF assms]
  obtain n e' where n: "am_advance_rx_next e = Inr e'" "int n \<le> am_window_size e"
    "e' = e\<lparr>am_rx_next := rx_at (am_rx e) (int n), am_rx := rxm_move (rxm.clear_first (am_rx e) n) (int n)\<rparr>"
    "\<forall>k < n. am_sdu_delivered e (rx_at (am_rx e) (int k))"
    "int n < am_window_size e \<longrightarrow> \<not> am_sdu_delivered e (rx_at (am_rx e) (int n))" "am_rx_inv e'"
    using am_advance_rx_next_step[OF assms] by blast
  have at: "rx_at (am_rx e) k = (am_rx_next e + k) mod am_sn_modulus e" for k using d by (simp add: rx_at_def)
  have next_at: "(am_rx_next e' + k) mod am_sn_modulus e = rx_at (am_rx e) (int n + k)" for k
    using n(3) by (simp add: at mod_add_left_eq add.assoc)
  have look: "\<forall>k. 0 \<le> k \<and> k < am_window_size e \<longrightarrow> rx_lookup (am_rx e') (rx_at (am_rx e) (int n + k))
      = (if int n + k < am_window_size e then rx_lookup (am_rx e) (rx_at (am_rx e) (int n + k)) else [])"
    using rxm_drain_lookup[OF d(2), of n] n(2,3) d(3) by simp
  have nx: "am_rx_next e' = rx_at (am_rx e) (int n)" using n(3) by simp
  have del: "\<forall>k < n. am_sdu_delivered e ((am_rx_next e + int k) mod am_sn_modulus e)" using n(4) by (simp add: at)
  have mv: "int n < am_window_size e \<longrightarrow> \<not> am_sdu_delivered e (am_rx_next e')" using n(5) nx by simp
  have nxt: "am_rx_next e' = (am_rx_next e + int n) mod am_sn_modulus e" using nx at by simp
  show ?thesis
    by (intro exI[of _ n] exI[of _ e'] conjI) (fact n(1) n(6) n(2) nxt del mv look[folded next_at])+
qed

theorem am_window_advance_witness:
  "\<exists>e. am_example = Inr e \<and> am_rx_inv e \<and> (\<exists>e'. am_advance_rx_next e = Inr e' \<and> am_rx_inv e')"
  using am_example_new am_window_advance by blast

text \<open>
  A segment is dropped as already received only if every one of its bytes is in a
  stored segment of its SN; and a segment that lies inside one stored segment, in particular a
  repetition, always is.
\<close>

lemma am_duplicate_detection:
  "(am_segment_already_received e sn so n \<longrightarrow>
      all_covered (nr_rlc_rx_manager_get_pdu_from_sn (am_rx e) sn) so (so + n))
   \<and> (\<forall>p \<in> set (nr_rlc_rx_manager_get_pdu_from_sn (am_rx e) sn).
        pdu_so p \<le> so \<and> so + n \<le> pdu_so p + pdu_size p \<longrightarrow> am_segment_already_received e sn so n)"
  using segment_received_sound segment_received_inside by (auto simp: am_segment_already_received_def)

lemma am_process_control_view:
  assumes "am_sn_field_length e \<le> 31"
  shows "\<exists>e'. am_process_control_pdu e buf = Inr e' \<and> rx_view e' = rx_view e"
proof -
  obtain r where "am_decode_control e buf = Inr r" using am_decode_control_total[OF assms] by blast
  then show ?thesis using rx_view_status by (auto simp: am_process_control_pdu_def split: option.splits)
qed

text \<open>
  Property C28. Processing a STATUS PDU always ends normally, for every byte string and every state
  of the two lists, and touches nothing of the reception half: no SDU is delivered, no window
  variable moves.
\<close>

theorem am_process_control_total:
  assumes "am_sn_field_length e \<le> 31"
  shows "\<exists>e'. am_process_control_pdu e buf = Inr e' \<and> rx_view e' = rx_view e"
  using assms by (rule am_process_control_view)

theorem am_process_control_total_witness:
  "\<exists>e e'. am_example = Inr e \<and> am_process_control_pdu e [0, 0, 0x80, 1, 2] = Inr e' \<and> rx_view e' = rx_view e"
proof -
  obtain e where e: "am_example = Inr e" using am_example_new by blast
  then have "am_sn_field_length e \<le> 31" by (auto simp: am_example_def new_nr_rlc_entity_am_def Let_def)
  from am_process_control_total[OF this] e show ?thesis by blast
qed

end
