(* ===== verification/RLC_Am_Tx_Props.thy ===== *)
theory RLC_Am_Tx_Props
  imports RLC_Am_Tx RLC_Am_Rx
begin

text \<open>
  Correctness of the transmission half of the AM entity: the invariant that ties the three segment
  lists to the SDU store, to \<open>tx_size\<close> and to the reported buffer status; its preservation by every
  operation; the generated PDUs fit their buffer and are read back by a peer.
\<close>

section \<open>The invariant of the transmission half\<close>

definition am_segs :: "nr_rlc_entity_am_t \<Rightarrow> nr_rlc_sdu_segment_t multiset" where
  "am_segs e = mset (am_tx_list e) + mset (am_wait_list e) + mset (am_retransmit_list e)"

definition am_list_bytes :: "nr_rlc_entity_am_t \<Rightarrow> nr_rlc_sdu_segment_t list \<Rightarrow> int" where
  "am_list_bytes e l = sum_list (map (\<lambda>g. am_compute_pdu_header_size e g + seg_size g) l)"

definition am_sn_ok :: "nr_rlc_entity_am_t \<Rightarrow> bool" where
  "am_sn_ok e \<longleftrightarrow> am_sn_modulus e = 2 ^ am_sn_field_length e
     \<and> (am_sn_field_length e = 12 \<or> am_sn_field_length e = 18)
     \<and> am_window_size e = am_sn_modulus e div 2
     \<and> 0 \<le> am_tx_next e \<and> am_tx_next e < am_sn_modulus e
     \<and> 0 \<le> am_tx_next_ack e \<and> am_tx_next_ack e < am_sn_modulus e"

definition am_sdu_ok :: "nr_rlc_entity_am_t \<Rightarrow> nr_rlc_sdu_t \<Rightarrow> bool" where
  "am_sdu_ok e s \<longleftrightarrow> (sdu_sn s = -1 \<or> (0 \<le> sdu_sn s \<and> sdu_sn s < am_sn_modulus e)) \<and> sdu_size s \<le> NR_SDU_MAX"

definition am_tx_inv :: "nr_rlc_entity_am_t \<Rightarrow> bool" where
  "am_tx_inv e \<longleftrightarrow> am_sn_ok e \<and> store_inv (store e) (am_segs e)
     \<and> am_tx_size e = live_bytes (store e) \<and> am_tx_size e \<le> am_tx_maxsize e
     \<and> bs_tx_size (bstatus e) = am_list_bytes e (am_tx_list e)
     \<and> bs_retx_size (bstatus e) = am_list_bytes e (am_retransmit_list e)
     \<and> (\<forall>a s. sdus (store e) a = Some s \<longrightarrow> am_sdu_ok e s)
     \<and> (\<forall>g \<in> set (am_wait_list e) \<union> set (am_retransmit_list e). am_seg_sn e g \<noteq> -1)"

lemma am_list_bytes_simps [simp]:
  "am_list_bytes e [] = 0"
  "am_list_bytes e (g # l) = am_compute_pdu_header_size e g + seg_size g + am_list_bytes e l"
  "am_list_bytes e (l @ l') = am_list_bytes e l + am_list_bytes e l'"
  by (simp_all add: am_list_bytes_def)

lemma am_list_bytes_insert [simp]:
  "am_list_bytes e (insert_before p g l) = am_compute_pdu_header_size e g + seg_size g + am_list_bytes e l"
  by (simp add: am_list_bytes_def sum_list_insert_before)

text \<open>Header sizes depend on the SN length only.\<close>

lemma am_header_cong:
  "am_sn_field_length e' = am_sn_field_length e \<Longrightarrow> am_compute_pdu_header_size e' = am_compute_pdu_header_size e"
  by (simp add: fun_eq_iff am_compute_pdu_header_size_def)

lemma am_list_bytes_cong:
  "am_sn_field_length e' = am_sn_field_length e \<Longrightarrow> am_list_bytes e' = am_list_bytes e"
  using am_header_cong[of e' e] by (simp add: fun_eq_iff am_list_bytes_def)

text \<open>The fields the invariant reads.\<close>

definition tx_part where
  "tx_part e = (am_sn_modulus e, am_sn_field_length e, am_window_size e, am_tx_next e, am_tx_next_ack e,
     store e, am_tx_list e, am_wait_list e, am_retransmit_list e, am_tx_size e, am_tx_maxsize e,
     bs_tx_size (bstatus e), bs_retx_size (bstatus e))"

lemma am_tx_inv_cong:
  assumes "tx_part e' = tx_part e"
  shows "am_tx_inv e' = am_tx_inv e"
proof -
  have "am_list_bytes e' = am_list_bytes e" using assms by (intro am_list_bytes_cong) (simp add: tx_part_def)
  then show ?thesis using assms
    by (simp add: am_tx_inv_def tx_part_def am_segs_def am_sn_ok_def am_sdu_ok_def am_seg_sn_def)
qed

lemma am_tx_invD:
  assumes "am_tx_inv e"
  shows "am_sn_ok e" "store_inv (store e) (am_segs e)" "am_tx_size e = live_bytes (store e)"
  using assms by (auto simp: am_tx_inv_def)

lemma am_seg_live:
  assumes "am_tx_inv e" and "g \<in># am_segs e"
  shows "sdus (store e) (seg_sdu g) = Some (sdu_at (store e) g)" and "seg_in_sdu (sdu_at (store e) g) g"
    and "am_sdu_ok e (sdu_at (store e) g)" and "int (length (sdu_data (sdu_at (store e) g))) = sdu_size (sdu_at (store e) g)"
  using assms store_invD_seg[OF am_tx_invD(2)[OF assms(1)] assms(2)]
    sdu_at_data_length[OF am_tx_invD(2)[OF assms(1)] assms(2)]
  by (auto simp: am_tx_inv_def)

section \<open>Serialisation\<close>

text \<open>The header of a segment, with the poll bit as it is in the end.\<close>

definition am_poll_fields :: "nr_rlc_entity_am_t \<Rightarrow> nr_rlc_sdu_segment_t \<Rightarrow> bool \<Rightarrow> (int \<times> nat) list" where
  "am_poll_fields e g p = (1, 1) # (of_bool p, 1) # drop 2 (am_header_fields e g)"

definition am_seg_ok :: "nr_rlc_entity_am_t \<Rightarrow> nr_rlc_sdu_segment_t \<Rightarrow> bool" where
  "am_seg_ok e g \<longleftrightarrow> am_sn_ok e \<and> 0 \<le> am_seg_sn e g \<and> am_seg_sn e g < am_sn_modulus e
     \<and> seg_in_sdu (sdu_at (store e) g) g \<and> sdu_size (sdu_at (store e) g) \<le> NR_SDU_MAX
     \<and> int (length (sdu_data (sdu_at (store e) g))) = sdu_size (sdu_at (store e) g)"

lemma am_header_ok:
  assumes "am_seg_ok e g"
  shows "list_all field_ok (am_header_fields e g)"
    and "sum_list (map snd (am_header_fields e g)) = 8 * nat (am_compute_pdu_header_size e g)"
proof -
  have so: "0 \<le> seg_so g" "seg_so g \<le> 16000"
    using assms by (auto simp: am_seg_ok_def seg_in_sdu_def NR_SDU_MAX_def)
  have sn: "0 \<le> am_seg_sn e g" "am_seg_sn e g < 2 ^ am_sn_field_length e"
    and len: "am_sn_field_length e = 12 \<or> am_sn_field_length e = 18"
    using assms by (auto simp: am_seg_ok_def am_sn_ok_def)
  show "list_all field_ok (am_header_fields e g)"
    using so sn len by (auto simp: am_header_fields_def field_ok_def)
  show "sum_list (map snd (am_header_fields e g)) = 8 * nat (am_compute_pdu_header_size e g)"
    using len by (auto simp: am_header_fields_def am_compute_pdu_header_size_def)
qed

text \<open>Setting the bit of weight \<open>0x40\<close> in the first byte sets the second bit of the stream.\<close>

lemma msb_bits_poll: "msb_bits 8 (w OR 0x40 :: byte) = (msb_bits 8 w)[Suc 0 := True]"
proof (rule nth_equalityI)
  fix i assume "i < length (msb_bits 8 (w OR 0x40))"
  then have i: "i < 8" by simp
  have b: "bit (0x40 :: byte) j \<longleftrightarrow> j = 6" if "j < 8" for j
  proof -
    have "(0x40 :: byte) = push_bit 6 1" by (simp add: push_bit_eq_mult)
    then show ?thesis using that by (simp only: bit_push_bit_iff) (auto simp: bit_1_iff)
  qed
  have "7 - i = 6 \<longleftrightarrow> i = 1" using i by linarith
  then show "msb_bits 8 (w OR 0x40) ! i = (msb_bits 8 w)[Suc 0 := True] ! i"
    using i b[of "7 - i"] by (auto simp: msb_bits_nth bit_or_iff nth_list_update)
qed simp

lemma am_poll_bits:
  assumes "bytes_bits (take k buf) = field_bits (am_header_fields e g)" and "0 < k" and "k \<le> length buf"
  shows "bytes_bits (take k (buf[0 := buf ! 0 OR 0x40])) = field_bits (am_poll_fields e g True)"
proof -
  obtain b bs where buf: "buf = b # bs" using assms(2,3) by (cases buf) auto
  obtain j where k: "k = Suc j" using assms(2) by (cases k) auto
  have "bytes_bits (take k (buf[0 := buf ! 0 OR 0x40])) = (bytes_bits (take k buf))[1 := True]"
    by (simp add: buf k list_update_append msb_bits_poll)
  also have "\<dots> = field_bits (am_poll_fields e g True)"
    unfolding assms(1) by (simp add: am_header_fields_def am_poll_fields_def)
  finally show ?thesis .
qed

lemma am_poll_fields_False: "am_poll_fields e g False = am_header_fields e g"
  by (simp add: am_poll_fields_def am_header_fields_def)

text \<open>
  Serialisation of a segment that fits: no error, the buffer keeps its size, and it holds the
  header followed by the bytes of the segment.
\<close>

lemma am_serialize_ok:
  assumes ok: "am_seg_ok e g" and fit: "am_compute_pdu_header_size e g + seg_size g \<le> int (length buf)"
  shows "\<exists>e' buf'. am_serialize_sdu e g buf p = Inr (e', buf', am_compute_pdu_header_size e g + seg_size g)
    \<and> tx_part e' = tx_part e \<and> rx_part e' = rx_part e \<and> events e' = events e \<and> length buf' = length buf
    \<and> bytes_bits (take (nat (am_compute_pdu_header_size e g)) buf') = field_bits (am_poll_fields e g p)
    \<and> take (nat (seg_size g)) (drop (nat (am_compute_pdu_header_size e g)) buf')
      = take (nat (seg_size g)) (drop (nat (seg_so g)) (sdu_data (sdu_at (store e) g)))"
proof -
  let ?h = "nat (am_compute_pdu_header_size e g)" and ?d = "sdu_data (sdu_at (store e) g)"
  have h: "2 \<le> ?h" "am_compute_pdu_header_size e g = int ?h" by (auto simp: am_compute_pdu_header_size_def)
  have seg: "0 \<le> seg_so g" "0 \<le> seg_size g" "seg_so g + seg_size g \<le> int (length ?d)"
    using ok by (auto simp: am_seg_ok_def seg_in_sdu_def)
  let ?bytes = "take (nat (seg_size g)) (drop (nat (seg_so g)) ?d)"
  have lb: "length ?bytes = nat (seg_size g)" using seg by simp
  obtain enc where enc: "put_fields (nr_rlc_pdu_encoder_init buf (length buf)) (am_header_fields e g) = Inr enc"
    "enc_byte enc = ?h" "length (enc_buffer enc) = length buf"
    "bytes_bits (take ?h (enc_buffer enc)) = field_bits (am_header_fields e g)"
    using put_header_ok[OF am_header_ok[OF ok], of buf] fit seg h by auto
  have rd: "mem_read ?d (seg_so g) (seg_size g) = Inr ?bytes" using seg by (simp add: mem_read_ok)
  define b1 where "b1 = take ?h (enc_buffer enc) @ ?bytes @ drop (?h + length ?bytes) (enc_buffer enc)"
  have fit': "?h + length ?bytes \<le> length buf" using fit lb seg h by linarith
  have wr: "mem_write (enc_buffer enc) (enc_byte enc) ?bytes = Inr b1"
    using fit' enc by (simp add: mem_write_ok b1_def)
  have b1: "length b1 = length buf" "take ?h b1 = take ?h (enc_buffer enc)" "drop ?h b1 = ?bytes @ drop (?h + length ?bytes) (enc_buffer enc)"
    using fit' enc(3) by (auto simp: b1_def)
  show ?thesis
  proof (cases p)
    case False
    then have "am_serialize_sdu e g buf p = Inr (e, b1, int ?h + seg_size g)"
      using enc(1,2) rd wr by (simp add: am_serialize_sdu_def)
    then show ?thesis
      using b1 enc(4) lb False h(2) by (auto simp: am_poll_fields_False)
  next
    case True
    define b2 where "b2 = b1[0 := b1 ! 0 OR 0x40]"
    define e2 where "e2 = e\<lparr>am_pdu_without_poll := 0, am_byte_without_poll := 0,
              am_poll_sn := (am_tx_next e - 1 + am_sn_modulus e) mod am_sn_modulus e,
              am_t_poll_retransmit_start := am_t_current e\<rparr>"
    have "0 < length b1" using b1(1) fit' h(1) by linarith
    then have poll: "am_include_poll e b1 = Inr (e2, b2)"
      by (simp add: am_include_poll_def buf_or_def b2_def e2_def)
    then have res: "am_serialize_sdu e g buf p = Inr (e2, b2, int ?h + seg_size g)"
      using enc(1,2) rd wr True by (simp add: am_serialize_sdu_def)
    have "bytes_bits (take ?h b2) = field_bits (am_poll_fields e g True)"
      unfolding b2_def using b1 enc(4) fit' h(1) by (intro am_poll_bits) auto
    moreover have "drop ?h b2 = drop ?h b1" using h(1) by (simp add: b2_def)
    moreover have "tx_part e2 = tx_part e" "rx_part e2 = rx_part e" "events e2 = events e"
      by (simp_all add: e2_def tx_part_def rx_part_def)
    ultimately show ?thesis
      using res b1 lb True h(2) by (auto simp: b2_def)
  qed
qed

section \<open>Segmentation\<close>

text \<open>Two stores with the same SDUs up to counters and times.\<close>

definition same_sdus :: "sdu_store \<Rightarrow> sdu_store \<Rightarrow> bool" where
  "same_sdus st st' \<longleftrightarrow> (\<forall>a. map_option (\<lambda>s. (sdu_sn s, sdu_size s, sdu_data s, sdu_upper_layer_id s)) (sdus st' a)
     = map_option (\<lambda>s. (sdu_sn s, sdu_size s, sdu_data s, sdu_upper_layer_id s)) (sdus st a))"

lemma same_sdus_upd:
  assumes "\<And>s. sdu_sn (f s) = sdu_sn s" "\<And>s. sdu_size (f s) = sdu_size s" "\<And>s. sdu_data (f s) = sdu_data s"
    "\<And>s. sdu_upper_layer_id (f s) = sdu_upper_layer_id s"
  shows "same_sdus st (sdu_upd st g f)"
  by (simp add: same_sdus_def sdu_upd_def assms option.map_comp comp_def)

lemma same_sdusD:
  assumes "same_sdus st st'"
  shows "sdu_sn (sdu_at st' g) = sdu_sn (sdu_at st g)" "sdu_size (sdu_at st' g) = sdu_size (sdu_at st g)"
    "sdu_data (sdu_at st' g) = sdu_data (sdu_at st g)"
    "sdus st' a = Some s' \<Longrightarrow> \<exists>s. sdus st a = Some s \<and> sdu_sn s' = sdu_sn s \<and> sdu_size s' = sdu_size s"
proof -
  have eq: "map_option (\<lambda>s. (sdu_sn s, sdu_size s, sdu_data s, sdu_upper_layer_id s)) (sdus st' b)
      = map_option (\<lambda>s. (sdu_sn s, sdu_size s, sdu_data s, sdu_upper_layer_id s)) (sdus st b)" for b
    using assms by (simp add: same_sdus_def)
  show "sdu_sn (sdu_at st' g) = sdu_sn (sdu_at st g)" "sdu_size (sdu_at st' g) = sdu_size (sdu_at st g)"
    "sdu_data (sdu_at st' g) = sdu_data (sdu_at st g)"
    using eq[of "seg_sdu g"] by (auto simp: sdu_at_def split: option.splits)
  show "\<exists>s. sdus st a = Some s \<and> sdu_sn s' = sdu_sn s \<and> sdu_size s' = sdu_size s" if "sdus st' a = Some s'"
    using eq[of a] that by (cases "sdus st a") auto
qed

lemma seg_in_sdu_size: "sdu_size s' = sdu_size s \<Longrightarrow> seg_in_sdu s' g = seg_in_sdu s g"
  by (simp add: seg_in_sdu_def)

lemma am_resegment_split:
  assumes re: "am_resegment g e n = (e1, g1, g2)" and seg: "seg_in_sdu s g"
    and fit: "am_compute_pdu_header_size e g + 1 \<le> n" "n < am_compute_pdu_header_size e g + seg_size g"
  shows "e1 = e\<lparr>store := sdu_upd (store e) g (\<lambda>s. s\<lparr>sdu_ref_count := sdu_ref_count s + 1\<rparr>)\<rparr>"
    and "seg_sdu g1 = seg_sdu g" "seg_sdu g2 = seg_sdu g" "seg_in_sdu s g1" "seg_in_sdu s g2"
    and "am_compute_pdu_header_size e g1 + seg_size g1 = n"
    and "seg_so g1 = seg_so g" "seg_so g2 = seg_so g + seg_size g1" "seg_size g1 + seg_size g2 = seg_size g"
    and "0 < seg_size g1" "0 < seg_size g2" "\<not> seg_whole g1" "\<not> seg_whole g2"
proof -
  have hc: "am_compute_pdu_header_size (e\<lparr>store := x\<rparr>) h = am_compute_pdu_header_size e h" for x h
    by (simp add: am_compute_pdu_header_size_def)
  let ?over = "am_compute_pdu_header_size e g + seg_size g - n"
  have defs: "e1 = e\<lparr>store := sdu_upd (store e) g (\<lambda>s. s\<lparr>sdu_ref_count := sdu_ref_count s + 1\<rparr>)\<rparr>"
    "g1 = g\<lparr>seg_size := seg_size g - ?over, seg_is_last := False\<rparr>"
    "g2 = g\<lparr>seg_size := ?over, seg_so := seg_so g + (seg_size g - ?over), seg_is_first := False\<rparr>"
    using re by (auto simp: am_resegment_def Let_def hc)
  show "e1 = e\<lparr>store := sdu_upd (store e) g (\<lambda>s. s\<lparr>sdu_ref_count := sdu_ref_count s + 1\<rparr>)\<rparr>"
    by (fact defs(1))
  show "seg_sdu g1 = seg_sdu g" "seg_sdu g2 = seg_sdu g" "seg_so g1 = seg_so g"
    "seg_so g2 = seg_so g + seg_size g1" "seg_size g1 + seg_size g2 = seg_size g"
    by (simp_all add: defs)
  show "am_compute_pdu_header_size e g1 + seg_size g1 = n"
    by (simp add: defs am_compute_pdu_header_size_def)
  show "0 < seg_size g1" "0 < seg_size g2" using fit by (simp_all add: defs)
  show "seg_in_sdu s g1" "seg_in_sdu s g2" using seg fit by (auto simp: defs seg_in_sdu_def)
  show "\<not> seg_whole g1" "\<not> seg_whole g2" by (simp_all add: defs seg_whole_def)
qed

section \<open>Transmission and retransmission keep the invariant\<close>

lemma am_put_in_wait_list_form:
  "\<exists>l. am_put_in_wait_list g e = e\<lparr>am_wait_list := l\<rparr> \<and> mset l = add_mset g (mset (am_wait_list e))"
  by (auto simp: am_put_in_wait_list_def nr_rlc_sdu_segment_list_append_def nr_rlc_tx_sdu_segment_list_add_def)

text \<open>
  The common end of both paths: \<open>e0\<close> is the entity once the segment \<open>g\<close> left its list and, if it
  had to be cut, its second part went back.
\<close>

definition am_pdu_bytes :: "nr_rlc_entity_am_t \<Rightarrow> nr_rlc_sdu_segment_t \<Rightarrow> bool \<Rightarrow> buffer \<Rightarrow> int \<Rightarrow> bool" where
  "am_pdu_bytes e g p buf n \<longleftrightarrow> n = am_compute_pdu_header_size e g + seg_size g
     \<and> bytes_bits (take (nat (am_compute_pdu_header_size e g)) buf) = field_bits (am_poll_fields e g p)
     \<and> take (nat (seg_size g)) (drop (nat (am_compute_pdu_header_size e g)) buf)
       = take (nat (seg_size g)) (drop (nat (seg_so g)) (sdu_data (sdu_at (store e) g)))"

definition am_sent :: "nr_rlc_entity_am_t \<Rightarrow> buffer \<Rightarrow> int \<Rightarrow> bool" where
  "am_sent e buf n \<longleftrightarrow> (\<exists>g p. g \<in> set (am_wait_list e) \<and> am_seg_ok e g \<and> am_pdu_bytes e g p buf n)"

lemma am_seg_okI:
  assumes "am_tx_inv e" and "g \<in> set (am_wait_list e)"
  shows "am_seg_ok e g"
proof -
  have "g \<in># am_segs e" using assms(2) by (simp add: am_segs_def)
  note l = am_seg_live[OF assms(1) this]
  have "am_seg_sn e g \<noteq> -1" using assms by (auto simp: am_tx_inv_def)
  then show ?thesis using l am_tx_invD(1)[OF assms(1)] by (auto simp: am_seg_ok_def am_sdu_ok_def am_seg_sn_def)
qed

lemma am_seg_ok_cong: "tx_part e' = tx_part e \<Longrightarrow> am_seg_ok e' g = am_seg_ok e g"
  by (simp add: am_seg_ok_def am_sn_ok_def am_seg_sn_def tx_part_def)

lemma am_pdu_bytes_cong: "tx_part e' = tx_part e \<Longrightarrow> am_pdu_bytes e' g p buf n = am_pdu_bytes e g p buf n"
  using am_header_cong[of e' e]
  by (simp add: am_pdu_bytes_def am_poll_fields_def am_header_fields_def tx_part_def am_seg_sn_def)

lemma am_serialize_sent:
  assumes inv: "am_tx_inv e" and g: "g \<in> set (am_wait_list e)"
    and fit: "am_compute_pdu_header_size e g + seg_size g \<le> int (length buf)"
  shows "\<exists>e' buf'. am_serialize_sdu e g buf p = Inr (e', buf', am_compute_pdu_header_size e g + seg_size g)
    \<and> tx_part e' = tx_part e \<and> rx_part e' = rx_part e \<and> events e' = events e \<and> length buf' = length buf
    \<and> am_sent e' buf' (am_compute_pdu_header_size e g + seg_size g)"
proof -
  have ok: "am_seg_ok e g" using am_seg_okI[OF inv g] .
  obtain e' buf' where r: "am_serialize_sdu e g buf p = Inr (e', buf', am_compute_pdu_header_size e g + seg_size g)"
    "tx_part e' = tx_part e" "rx_part e' = rx_part e" "events e' = events e" "length buf' = length buf"
    "am_pdu_bytes e g p buf' (am_compute_pdu_header_size e g + seg_size g)"
    using am_serialize_ok[OF ok fit] unfolding am_pdu_bytes_def by blast
  moreover have "am_sent e' buf' (am_compute_pdu_header_size e g + seg_size g)"
    unfolding am_sent_def using g ok r am_seg_ok_cong[OF r(2)] am_pdu_bytes_cong[OF r(2)]
    by (intro exI[of _ g] exI[of _ p]) (simp add: tx_part_def)
  ultimately show ?thesis by blast
qed

text \<open>
  What is needed of the state just before the wait list is extended: the invariant without the
  segment \<open>g\<close>, which is in no list.
\<close>

definition am_tx_inv_without :: "nr_rlc_entity_am_t \<Rightarrow> nr_rlc_sdu_segment_t \<Rightarrow> bool" where
  "am_tx_inv_without e g \<longleftrightarrow> am_tx_inv (e\<lparr>am_wait_list := g # am_wait_list e\<rparr>)"

lemma am_wait_list_frame [simp]:
  "am_sn_ok (e\<lparr>am_wait_list := l\<rparr>) = am_sn_ok e" "am_sdu_ok (e\<lparr>am_wait_list := l\<rparr>) = am_sdu_ok e"
  "am_seg_sn (e\<lparr>am_wait_list := l\<rparr>) = am_seg_sn e"
  "am_list_bytes (e\<lparr>am_wait_list := l\<rparr>) = am_list_bytes e"
  "am_compute_pdu_header_size (e\<lparr>am_wait_list := l\<rparr>) = am_compute_pdu_header_size e"
  by (simp_all add: fun_eq_iff am_sn_ok_def am_sdu_ok_def am_seg_sn_def am_list_bytes_def
      am_compute_pdu_header_size_def)

lemma am_tx_inv_put:
  assumes "am_tx_inv_without e g"
  shows "am_tx_inv (am_put_in_wait_list g e)" and "g \<in> set (am_wait_list (am_put_in_wait_list g e))"
proof -
  obtain l where l: "am_put_in_wait_list g e = e\<lparr>am_wait_list := l\<rparr>" "mset l = add_mset g (mset (am_wait_list e))"
    using am_put_in_wait_list_form by blast
  have set: "set l = insert g (set (am_wait_list e))" using l(2) by (metis set_mset_add_mset_insert set_mset_mset)
  then show "g \<in> set (am_wait_list (am_put_in_wait_list g e))" using l(1) by simp
  show "am_tx_inv (am_put_in_wait_list g e)"
    using assms l set unfolding am_tx_inv_without_def am_tx_inv_def am_segs_def by simp
qed

lemma am_without_cong: "tx_part e' = tx_part e \<Longrightarrow> am_tx_inv_without e' g = am_tx_inv_without e g"
  unfolding am_tx_inv_without_def by (rule am_tx_inv_cong) (simp add: tx_part_def)

lemma am_without_eq:
  "am_tx_inv_without e g \<longleftrightarrow> am_sn_ok e \<and> store_inv (store e) (add_mset g (am_segs e))
     \<and> am_tx_size e = live_bytes (store e) \<and> am_tx_size e \<le> am_tx_maxsize e
     \<and> bs_tx_size (bstatus e) = am_list_bytes e (am_tx_list e)
     \<and> bs_retx_size (bstatus e) = am_list_bytes e (am_retransmit_list e)
     \<and> (\<forall>a s. sdus (store e) a = Some s \<longrightarrow> am_sdu_ok e s) \<and> am_seg_sn e g \<noteq> -1
     \<and> (\<forall>g \<in> set (am_wait_list e) \<union> set (am_retransmit_list e). am_seg_sn e g \<noteq> -1)"
  unfolding am_tx_inv_without_def am_tx_inv_def by (auto simp: am_segs_def)

text \<open>Taking the head of the retransmit list, and of the transmission list.\<close>

lemma am_retx_head:
  assumes inv: "am_tx_inv e" and l: "am_retransmit_list e = g # rest"
  shows "am_tx_inv_without (add_bs_retx (- (am_compute_pdu_header_size e g + seg_size g)) (e\<lparr>am_retransmit_list := rest\<rparr>)) g"
proof -
  let ?e = "add_bs_retx (- (am_compute_pdu_header_size e g + seg_size g)) (e\<lparr>am_retransmit_list := rest\<rparr>)"
  have fr: "am_sn_ok ?e = am_sn_ok e" "am_sdu_ok ?e = am_sdu_ok e" "am_seg_sn ?e = am_seg_sn e"
    "am_list_bytes ?e = am_list_bytes e"
    by (simp_all add: fun_eq_iff add_bs_retx_def am_sn_ok_def am_sdu_ok_def am_seg_sn_def am_list_bytes_def
        am_compute_pdu_header_size_def)
  have "add_mset g (am_segs ?e) = am_segs e" using l by (simp add: am_segs_def add_bs_retx_def)
  then show ?thesis
    using inv l unfolding am_without_eq am_tx_inv_def fr by (simp add: add_bs_retx_def)
qed

lemma am_tx_head:
  assumes inv: "am_tx_inv e" and l: "am_tx_list e = g # rest"
    and e0: "e0 = am_assign_sn g (add_bs_tx (- (am_compute_pdu_header_size e g + seg_size g)) (e\<lparr>am_tx_list := rest\<rparr>))"
  shows "am_tx_inv_without e0 g"
proof -
  let ?e = "add_bs_tx (- (am_compute_pdu_header_size e g + seg_size g)) (e\<lparr>am_tx_list := rest\<rparr>)"
  have fr: "am_sn_ok ?e = am_sn_ok e" "am_sdu_ok ?e = am_sdu_ok e" "am_seg_sn ?e = am_seg_sn e"
    "am_list_bytes ?e = am_list_bytes e" "store ?e = store e" "am_tx_next ?e = am_tx_next e"
    "am_sn_modulus ?e = am_sn_modulus e"
    by (simp_all add: fun_eq_iff add_bs_tx_def am_sn_ok_def am_sdu_ok_def am_seg_sn_def am_list_bytes_def
        am_compute_pdu_header_size_def)
  have segs: "add_mset g (am_segs ?e) = am_segs e" using l by (simp add: am_segs_def add_bs_tx_def)
  show ?thesis
  proof (cases "am_seg_sn e g = -1")
    case False
    then have "e0 = ?e" unfolding e0 am_assign_sn_def fr by (rule if_not_P)
    then show ?thesis
      unfolding am_without_eq using inv l False segs by (simp only: fr) (simp add: am_tx_inv_def add_bs_tx_def)
  next
    case True
    let ?st = "sdu_upd (store e) g (\<lambda>s. s\<lparr>sdu_sn := am_tx_next e\<rparr>)"
    have e0': "e0 = ?e\<lparr>store := ?st, am_tx_next := (am_tx_next e + 1) mod am_sn_modulus e\<rparr>"
      using True unfolding e0 am_assign_sn_def fr by (rule if_P)
    have ok: "am_sn_ok e" and st: "store_inv (store e) (am_segs e)" using am_tx_invD[OF inv] by auto
    have g: "g \<in># am_segs e" using l by (simp add: am_segs_def)
    note u = store_inv_upd[OF st, of "\<lambda>s. s\<lparr>sdu_sn := am_tx_next e\<rparr>" g, simplified]
    have lb: "am_list_bytes e0 = am_list_bytes e" by (rule am_list_bytes_cong) (simp add: e0' add_bs_tx_def)
    have segs0: "am_segs e0 = am_segs ?e" by (simp add: e0' am_segs_def)
    have ok0: "am_sn_ok e0" using ok by (auto simp: e0' am_sn_ok_def add_bs_tx_def)
    have sdu_ok: "am_sdu_ok e0 s" if up: "sdus (store e0) a = Some s" for a s
    proof -
      obtain s0 where s0: "sdus (store e) a = Some s0" "s = s0 \<or> s = s0\<lparr>sdu_sn := am_tx_next e\<rparr>"
        using up by (auto simp: e0' sdu_upd_def split: if_splits)
      have "am_sdu_ok e s0" using inv s0(1) by (simp add: am_tx_inv_def)
      moreover have "0 \<le> am_tx_next e \<and> am_tx_next e < am_sn_modulus e" using ok by (simp add: am_sn_ok_def)
      moreover have "am_sn_modulus e0 = am_sn_modulus e" by (simp add: e0' add_bs_tx_def)
      ultimately show ?thesis using s0(2) by (auto simp: am_sdu_ok_def)
    qed
    have live: "sdus (store e) (seg_sdu g) \<noteq> None" using am_seg_live(1)[OF inv g] by simp
    have sn: "am_seg_sn e0 h \<noteq> -1" if "h = g \<or> am_seg_sn e h \<noteq> -1" for h
      using that ok sdu_at_upd[OF live] by (auto simp: am_seg_sn_def e0' am_sn_ok_def)
    have "store_inv (store e0) (add_mset g (am_segs e0))" using u(1) segs segs0 by (simp add: e0')
    moreover have "bs_tx_size (bstatus e0) = am_list_bytes e (am_tx_list e0)"
      "bs_retx_size (bstatus e0) = am_list_bytes e (am_retransmit_list e0)"
      using inv l by (auto simp: am_tx_inv_def e0' add_bs_tx_def)
    moreover have "am_tx_size e0 = live_bytes (store e0)" "am_tx_size e0 \<le> am_tx_maxsize e0"
      using inv u(2) by (auto simp: am_tx_inv_def e0' add_bs_tx_def)
    moreover have "\<forall>h \<in> set (am_wait_list e0) \<union> set (am_retransmit_list e0). am_seg_sn e0 h \<noteq> -1"
      using inv sn by (simp add: am_tx_inv_def e0' add_bs_tx_def)
    ultimately show ?thesis
      unfolding am_without_eq lb using ok0 sdu_ok sn[of g] by blast
  qed
qed

text \<open>Cutting the segment: the first part is still to be put, the second part goes back to its list.\<close>

lemma am_cut:
  assumes wo: "am_tx_inv_without e g" and re: "am_resegment g e n = (e1, g1, g2)"
    and fit: "am_compute_pdu_header_size e g + 1 \<le> n" "n < am_compute_pdu_header_size e g + seg_size g"
  shows "am_tx_inv_without (add_bs_tx (am_compute_pdu_header_size e g2 + seg_size g2) (e1\<lparr>am_tx_list := g2 # am_tx_list e1\<rparr>)) g1"
    and "am_tx_inv_without (add_bs_retx (am_compute_pdu_header_size e g2 + seg_size g2)
          (e1\<lparr>am_retransmit_list := g2 # am_retransmit_list e1\<rparr>)) g1"
proof -
  have inv: "store_inv (store e) (add_mset g (am_segs e))" using wo by (simp add: am_without_eq)
  have g: "sdus (store e) (seg_sdu g) = Some (sdu_at (store e) g)" "seg_in_sdu (sdu_at (store e) g) g"
    using store_invD_seg[OF inv, of g] by auto
  note s = am_resegment_split[OF re g(2) fit]
  let ?st = "sdu_upd (store e) g (\<lambda>s. s\<lparr>sdu_ref_count := sdu_ref_count s + 1\<rparr>)"
  note sp = store_inv_split[OF inv s(2,3,4,5,12,13)]
  have same: "same_sdus (store e) ?st" by (rule same_sdus_upd) simp_all
  have sn: "sdu_sn (sdu_at ?st h) = sdu_sn (sdu_at (store e) h)" for h using same_sdusD(1)[OF same] .
  have sng: "sdu_sn (sdu_at (store e) g1) \<noteq> -1" "sdu_sn (sdu_at (store e) g2) \<noteq> -1"
    using wo sdu_at_same[OF s(2)] sdu_at_same[OF s(3)] by (auto simp: am_without_eq am_seg_sn_def)
  have ok: "am_sdu_ok e s'" if up: "sdus ?st a = Some s'" for a s'
  proof -
    obtain s where s: "sdus (store e) a = Some s" "sdu_sn s' = sdu_sn s" "sdu_size s' = sdu_size s"
      using same_sdusD(4)[OF same up] by blast
    have "am_sdu_ok e s" using wo s(1) by (simp add: am_without_eq)
    then show ?thesis using s by (simp add: am_sdu_ok_def)
  qed
  let ?t = "add_bs_tx (am_compute_pdu_header_size e g2 + seg_size g2) (e1\<lparr>am_tx_list := g2 # am_tx_list e1\<rparr>)"
  let ?r = "add_bs_retx (am_compute_pdu_header_size e g2 + seg_size g2) (e1\<lparr>am_retransmit_list := g2 # am_retransmit_list e1\<rparr>)"
  have fr: "am_sn_ok ?t = am_sn_ok e" "am_sdu_ok ?t = am_sdu_ok e" "am_list_bytes ?t = am_list_bytes e"
    "am_sn_ok ?r = am_sn_ok e" "am_sdu_ok ?r = am_sdu_ok e" "am_list_bytes ?r = am_list_bytes e"
    "store ?t = ?st" "store ?r = ?st"
    by (simp_all add: fun_eq_iff s(1) add_bs_tx_def add_bs_retx_def am_sn_ok_def am_sdu_ok_def am_list_bytes_def
        am_compute_pdu_header_size_def)
  have segs: "am_segs ?t = add_mset g2 (am_segs e)" "am_segs ?r = add_mset g2 (am_segs e)"
    by (simp_all add: am_segs_def s(1) add_bs_tx_def add_bs_retx_def)
  show "am_tx_inv_without ?t g1"
    using wo sp sng ok unfolding am_without_eq fr segs am_seg_sn_def sn
    by (simp add: s(1) add_bs_tx_def)
  show "am_tx_inv_without ?r g1"
    using wo sp sng ok unfolding am_without_eq fr segs am_seg_sn_def sn
    by (simp add: s(1) add_bs_retx_def)
qed

text \<open>
  The two generators up to the serialisation: the entity and the segment to be sent.
\<close>

definition am_retx_prepare :: "nr_rlc_entity_am_t \<Rightarrow> int \<Rightarrow> nr_rlc_sdu_segment_t \<Rightarrow> nr_rlc_sdu_segment_t list
    \<Rightarrow> nr_rlc_entity_am_t \<times> nr_rlc_sdu_segment_t" where
  "am_retx_prepare e n g rest =
     (let size_pdu = am_compute_pdu_header_size e g + seg_size g;
          e = add_bs_retx (- size_pdu) (e\<lparr>am_retransmit_list := rest\<rparr>)
      in if size_pdu > n then
           let (e, g, nxt) = am_resegment g e n;
               e = e\<lparr>am_retransmit_list := nxt # am_retransmit_list e\<rparr>;
               e = add_bs_retx (am_compute_pdu_header_size e nxt + seg_size nxt) e
           in (upd_stats (\<lambda>s. s\<lparr>txpdu_segmented := txpdu_segmented s + 1\<rparr>) e, g)
         else (e, g))"

definition am_tx_prepare :: "nr_rlc_entity_am_t \<Rightarrow> int \<Rightarrow> nr_rlc_sdu_segment_t \<Rightarrow> nr_rlc_sdu_segment_t list
    \<Rightarrow> nr_rlc_entity_am_t \<times> nr_rlc_sdu_segment_t" where
  "am_tx_prepare e n g rest =
     (let size_pdu = am_compute_pdu_header_size e g + seg_size g;
          e = am_assign_sn g (add_bs_tx (- size_pdu) (e\<lparr>am_tx_list := rest\<rparr>))
      in if size_pdu > n then
           let (e, g, nxt) = am_resegment g e n;
               e = e\<lparr>am_tx_list := nxt # am_tx_list e\<rparr>;
               e = upd_stats (\<lambda>s. s\<lparr>txpdu_segmented := txpdu_segmented s + 1\<rparr>) e
           in (add_bs_tx (am_compute_pdu_header_size e nxt + seg_size nxt) e, g)
         else (e, g))"

lemma am_retx_prepare_ok:
  assumes inv: "am_tx_inv e" and l: "am_retransmit_list e = g # rest"
    and n: "am_compute_pdu_header_size e g + 1 \<le> n" and pr: "am_retx_prepare e n g rest = (e', g')"
  shows "am_tx_inv_without e' g' \<and> am_compute_pdu_header_size e' g' + seg_size g' \<le> n
    \<and> rx_part e' = rx_part e \<and> events e' = events e"
proof -
  let ?s = "am_compute_pdu_header_size e g + seg_size g"
  define e0 where "e0 = add_bs_retx (- ?s) (e\<lparr>am_retransmit_list := rest\<rparr>)"
  have wo: "am_tx_inv_without e0 g" unfolding e0_def using am_retx_head[OF inv l] .
  have hd: "am_compute_pdu_header_size e0 = am_compute_pdu_header_size e"
    by (rule am_header_cong) (simp add: e0_def add_bs_retx_def)
  have fr: "rx_part e0 = rx_part e" "events e0 = events e"
    by (simp_all add: e0_def rx_part_def add_bs_retx_def)
  show ?thesis
  proof (cases "?s > n")
    case False
    then have "e' = e0" "g' = g" using pr by (auto simp: am_retx_prepare_def Let_def e0_def)
    then show ?thesis using wo hd False fr by simp
  next
    case True
    obtain e1 g1 g2 where re: "am_resegment g e0 n = (e1, g1, g2)" by (metis prod_cases3)
    let ?e2 = "add_bs_retx (am_compute_pdu_header_size e0 g2 + seg_size g2) (e1\<lparr>am_retransmit_list := g2 # am_retransmit_list e1\<rparr>)"
    have fit: "am_compute_pdu_header_size e0 g + 1 \<le> n" "n < am_compute_pdu_header_size e0 g + seg_size g"
      using n True hd by auto
    have seg: "seg_in_sdu (sdu_at (store e0) g) g"
      using wo store_invD_seg[of "store e0" "add_mset g (am_segs e0)" g] by (simp add: am_without_eq)
    note sp = am_resegment_split[OF re seg fit]
    have hd1: "am_compute_pdu_header_size (e1\<lparr>am_retransmit_list := x\<rparr>) = am_compute_pdu_header_size e0" for x
      by (rule am_header_cong) (simp add: sp(1))
    have res: "e' = upd_stats (\<lambda>s. s\<lparr>txpdu_segmented := txpdu_segmented s + 1\<rparr>) ?e2" "g' = g1"
      using pr[unfolded am_retx_prepare_def Let_def, folded e0_def] True re hd1 by auto
    have "tx_part e' = tx_part ?e2" by (simp add: res tx_part_def upd_stats_def)
    then have "am_tx_inv_without e' g'" using am_cut(2)[OF wo re fit] am_without_cong res(2) by blast
    moreover have "am_compute_pdu_header_size e' = am_compute_pdu_header_size e0"
      by (rule am_header_cong) (simp add: res sp(1) upd_stats_def add_bs_retx_def)
    moreover have "rx_part e' = rx_part e0" "events e' = events e0"
      by (simp_all add: res sp(1) rx_part_def upd_stats_def add_bs_retx_def)
    ultimately show ?thesis using sp(6) res(2) fr by simp
  qed
qed

lemma am_assign_sn_frame:
  "rx_part (am_assign_sn g e) = rx_part e" "events (am_assign_sn g e) = events e"
  "am_sn_field_length (am_assign_sn g e) = am_sn_field_length e"
  by (simp_all add: am_assign_sn_def rx_part_def)

lemma am_tx_prepare_ok:
  assumes inv: "am_tx_inv e" and l: "am_tx_list e = g # rest"
    and n: "am_compute_pdu_header_size e g + 1 \<le> n" and pr: "am_tx_prepare e n g rest = (e', g')"
  shows "am_tx_inv_without e' g' \<and> am_compute_pdu_header_size e' g' + seg_size g' \<le> n
    \<and> rx_part e' = rx_part e \<and> events e' = events e"
proof -
  let ?s = "am_compute_pdu_header_size e g + seg_size g"
  define e0 where "e0 = am_assign_sn g (add_bs_tx (- ?s) (e\<lparr>am_tx_list := rest\<rparr>))"
  have wo: "am_tx_inv_without e0 g" using am_tx_head[OF inv l e0_def] .
  have hd: "am_compute_pdu_header_size e0 = am_compute_pdu_header_size e"
    by (rule am_header_cong) (simp add: e0_def am_assign_sn_frame add_bs_tx_def)
  have fr: "rx_part e0 = rx_part e" "events e0 = events e"
    by (simp_all add: e0_def am_assign_sn_frame) (simp add: rx_part_def add_bs_tx_def)
  show ?thesis
  proof (cases "?s > n")
    case False
    then have "e' = e0" "g' = g" using pr by (auto simp: am_tx_prepare_def Let_def e0_def)
    then show ?thesis using wo hd False fr by simp
  next
    case True
    obtain e1 g1 g2 where re: "am_resegment g e0 n = (e1, g1, g2)" by (metis prod_cases3)
    let ?e2 = "add_bs_tx (am_compute_pdu_header_size e0 g2 + seg_size g2) (e1\<lparr>am_tx_list := g2 # am_tx_list e1\<rparr>)"
    have fit: "am_compute_pdu_header_size e0 g + 1 \<le> n" "n < am_compute_pdu_header_size e0 g + seg_size g"
      using n True hd by auto
    have seg: "seg_in_sdu (sdu_at (store e0) g) g"
      using wo store_invD_seg[of "store e0" "add_mset g (am_segs e0)" g] by (simp add: am_without_eq)
    note sp = am_resegment_split[OF re seg fit]
    have hd1: "am_compute_pdu_header_size (upd_stats f (e1\<lparr>am_tx_list := x\<rparr>)) = am_compute_pdu_header_size e0" for x f
      by (rule am_header_cong) (simp add: sp(1) upd_stats_def)
    have res: "e' = add_bs_tx (am_compute_pdu_header_size e0 g2 + seg_size g2)
        (upd_stats (\<lambda>s. s\<lparr>txpdu_segmented := txpdu_segmented s + 1\<rparr>) (e1\<lparr>am_tx_list := g2 # am_tx_list e1\<rparr>))" "g' = g1"
      using pr[unfolded am_tx_prepare_def Let_def, folded e0_def] True re hd1 by auto
    have "tx_part e' = tx_part ?e2" by (simp add: res tx_part_def upd_stats_def add_bs_tx_def)
    then have "am_tx_inv_without e' g'" using am_cut(1)[OF wo re fit] am_without_cong res(2) by blast
    moreover have "am_compute_pdu_header_size e' = am_compute_pdu_header_size e0"
      by (rule am_header_cong) (simp add: res sp(1) upd_stats_def add_bs_tx_def)
    moreover have "rx_part e' = rx_part e0" "events e' = events e0"
      by (simp_all add: res sp(1) rx_part_def upd_stats_def add_bs_tx_def)
    ultimately show ?thesis using sp(6) res(2) fr by simp
  qed
qed

text \<open>The states of both halves that generating a PDU may change.\<close>

definition am_gen_post :: "nr_rlc_entity_am_t \<Rightarrow> buffer \<Rightarrow> (nr_rlc_entity_am_t \<times> buffer \<times> int) res \<Rightarrow> bool" where
  "am_gen_post e buf r \<longleftrightarrow> (\<exists>e' buf' n. r = Inr (e', buf', n) \<and> am_tx_inv e' \<and> rx_part e' = rx_part e
     \<and> delivered_sdus (events e') = delivered_sdus (events e)
     \<and> length buf' = length buf \<and> 0 \<le> n \<and> n \<le> int (length buf) \<and> (n = 0 \<or> am_sent e' buf' n))"

text \<open>From the prepared segment to the PDU; \<open>f\<close> is what the path still changes before serialising.\<close>

lemma am_send_prepared:
  assumes wo: "am_tx_inv_without e g" and fit: "am_compute_pdu_header_size e g + seg_size g \<le> int (length buf)"
    and f: "tx_part e1 = tx_part (am_put_in_wait_list g e)" "rx_part e1 = rx_part e" "events e1 = events e"
    and h: "\<And>e ret. tx_part (h ret e) = tx_part e" "\<And>e ret. rx_part (h ret e) = rx_part e"
      "\<And>e ret. delivered_sdus (events (h ret e)) = delivered_sdus (events e)"
  shows "am_gen_post e buf (bindE (am_serialize_sdu e1 g buf p) (\<lambda>(e, buf, ret). Inr (h ret e, buf, ret)))"
    and "\<exists>e' buf' n. bindE (am_serialize_sdu e1 g buf p) (\<lambda>(e, buf, ret). Inr (h ret e, buf, ret)) = Inr (e', buf', n)
      \<and> 0 < n \<and> tx_part e' = tx_part e1"
proof -
  let ?w = "am_put_in_wait_list g e" and ?n = "am_compute_pdu_header_size e1 g + seg_size g"
  note put = am_tx_inv_put[OF wo]
  have inv1: "am_tx_inv e1" using put(1) am_tx_inv_cong[OF f(1)] by simp
  have g1: "g \<in> set (am_wait_list e1)" using put(2) f(1) by (simp add: tx_part_def)
  obtain l where "?w = e\<lparr>am_wait_list := l\<rparr>" using am_put_in_wait_list_form by blast
  then have "am_sn_field_length e1 = am_sn_field_length e" using f(1) by (simp add: tx_part_def)
  then have hd: "am_compute_pdu_header_size e1 = am_compute_pdu_header_size e" by (rule am_header_cong)
  obtain e' buf' where r: "am_serialize_sdu e1 g buf p = Inr (e', buf', ?n)" "tx_part e' = tx_part e1"
    "rx_part e' = rx_part e1" "events e' = events e1" "length buf' = length buf" "am_sent e' buf' ?n"
    using am_serialize_sent[OF inv1 g1, of buf p] fit hd by auto
  have "am_tx_inv (h ?n e')" using inv1 r(2) h(1)[of ?n e'] am_tx_inv_cong by metis
  moreover have "am_sent (h ?n e') buf' ?n"
    using r(6) h(1)[of ?n e'] am_seg_ok_cong[of "h ?n e'" e'] am_pdu_bytes_cong[of "h ?n e'" e']
    by (simp add: am_sent_def tx_part_def)
  moreover have pos: "0 < ?n"
    using am_seg_okI[OF inv1 g1] by (simp add: am_compute_pdu_header_size_def am_seg_ok_def seg_in_sdu_def)
  ultimately show "am_gen_post e buf (bindE (am_serialize_sdu e1 g buf p) (\<lambda>(e, buf, ret). Inr (h ret e, buf, ret)))"
    using r f(2,3) h(2,3) fit hd by (simp add: am_gen_post_def)
  show "\<exists>e' buf' n. bindE (am_serialize_sdu e1 g buf p) (\<lambda>(e, buf, ret). Inr (h ret e, buf, ret)) = Inr (e', buf', n)
      \<and> 0 < n \<and> tx_part e' = tx_part e1"
    using r pos h(1)[of ?n e'] by simp
qed

lemma am_generate_retx_pdu_eq:
  "am_generate_retx_pdu e buf =
     (case am_retransmit_list e of
        [] \<Rightarrow> Inl Null_Deref
      | g # rest \<Rightarrow>
          if am_compute_pdu_header_size e g + 1 > int (length buf) then Inr (e, buf, 0)
          else
            let (e, g) = am_retx_prepare e (int (length buf)) g rest;
                e = am_put_in_wait_list g e;
                p = (am_check_poll_after_pdu_assembly e \<or> am_force_poll e);
                e = e\<lparr>am_force_poll := False\<rparr>
            in bindE (am_serialize_sdu e g buf p) (\<lambda>(e, buf, ret).
                 Inr (upd_stats (\<lambda>s. (count_txpdu ret s)\<lparr>txpdu_retx_pkts := txpdu_retx_pkts s + 1,
                        txpdu_retx_bytes := txpdu_retx_bytes s + word_of_int ret\<rparr>) e, buf, ret)))"
  unfolding am_generate_retx_pdu_def am_retx_prepare_def Let_def by simp

lemma am_generate_tx_pdu_eq:
  "am_generate_tx_pdu e buf time_now =
     (if am_is_window_stalling e then Inr (e, buf, 0)
      else case am_tx_list e of
        [] \<Rightarrow> Inr (e, buf, 0)
      | g # rest \<Rightarrow>
          if am_compute_pdu_header_size e g + 1 > int (length buf) then Inr (e, buf, 0)
          else
            let (e, g) = am_tx_prepare e (int (length buf)) g rest;
                e = am_put_in_wait_list g e;
                e = e\<lparr>am_pdu_without_poll := am_pdu_without_poll e + 1,
                      am_byte_without_poll := am_byte_without_poll e + seg_size g\<rparr>;
                p = ((am_poll_pdu e \<noteq> -1 \<and> am_pdu_without_poll e \<ge> am_poll_pdu e)
                     \<or> (am_poll_byte e \<noteq> -1 \<and> am_byte_without_poll e \<ge> am_poll_byte e)
                     \<or> am_check_poll_after_pdu_assembly e \<or> am_force_poll e);
                e = e\<lparr>am_force_poll := False\<rparr>
            in bindE (am_serialize_sdu e g buf p) (\<lambda>(e, buf, ret).
                 Inr (record_waiting_time time_now g (upd_stats (count_txpdu ret) e), buf, ret)))"
  unfolding am_generate_tx_pdu_def am_tx_prepare_def Let_def by simp

lemma am_gen_post_nothing: "am_tx_inv e \<Longrightarrow> am_gen_post e buf (Inr (e, buf, 0))"
  by (simp add: am_gen_post_def)

lemma am_gen_post_cong:
  "rx_part e' = rx_part e \<Longrightarrow> events e' = events e \<Longrightarrow> am_gen_post e' buf r = am_gen_post e buf r"
  by (simp add: am_gen_post_def)

lemma am_put_in_wait_list_frame:
  "rx_part (am_put_in_wait_list g e) = rx_part e" "events (am_put_in_wait_list g e) = events e"
  using am_put_in_wait_list_form[of g e] by (auto simp: rx_part_def)

lemma am_generate_retx_ok:
  assumes inv: "am_tx_inv e" and ne: "am_retransmit_list e \<noteq> []"
  shows "am_gen_post e buf (am_generate_retx_pdu e buf)"
proof -
  obtain g rest where l: "am_retransmit_list e = g # rest" using ne by (cases "am_retransmit_list e") auto
  obtain e0 g0 where pr: "am_retx_prepare e (int (length buf)) g rest = (e0, g0)" by force
  show ?thesis
  proof (cases "am_compute_pdu_header_size e g + 1 > int (length buf)")
    case True
    then show ?thesis using l am_gen_post_nothing[OF inv] by (simp add: am_generate_retx_pdu_eq)
  next
    case False
    then have n: "am_compute_pdu_header_size e g + 1 \<le> int (length buf)" by simp
    note ok = am_retx_prepare_ok[OF inv l n pr]
    let ?w = "am_put_in_wait_list g0 e0"
    let ?h = "\<lambda>ret. upd_stats (\<lambda>s. (count_txpdu ret s)\<lparr>txpdu_retx_pkts := txpdu_retx_pkts s + 1,
                        txpdu_retx_bytes := txpdu_retx_bytes s + word_of_int ret\<rparr>)"
    have "am_gen_post e0 buf (bindE (am_serialize_sdu (?w\<lparr>am_force_poll := False\<rparr>) g0 buf
        (am_check_poll_after_pdu_assembly ?w \<or> am_force_poll ?w)) (\<lambda>(e, buf, ret). Inr (?h ret e, buf, ret)))"
    proof (rule am_send_prepared(1))
      show "rx_part (?w\<lparr>am_force_poll := False\<rparr>) = rx_part e0" "events (?w\<lparr>am_force_poll := False\<rparr>) = events e0"
        using am_put_in_wait_list_frame[of g0 e0] by (simp_all add: rx_part_def)
    qed (use ok in \<open>simp_all add: tx_part_def rx_part_def upd_stats_def\<close>)
    then show ?thesis
      using False l pr ok am_gen_post_cong[of e0 e] by (simp add: am_generate_retx_pdu_eq Let_def)
  qed
qed

lemma am_generate_tx_ok:
  assumes inv: "am_tx_inv e"
  shows "am_gen_post e buf (am_generate_tx_pdu e buf t)"
proof (cases "am_tx_list e")
  case Nil
  then show ?thesis using am_gen_post_nothing[OF inv] by (simp add: am_generate_tx_pdu_eq)
next
  case l: (Cons g rest)
  obtain e0 g0 where pr: "am_tx_prepare e (int (length buf)) g rest = (e0, g0)" by force
  show ?thesis
  proof (cases "am_is_window_stalling e \<or> am_compute_pdu_header_size e g + 1 > int (length buf)")
    case True
    then show ?thesis using l am_gen_post_nothing[OF inv] by (auto simp: am_generate_tx_pdu_eq)
  next
    case False
    then have n: "am_compute_pdu_header_size e g + 1 \<le> int (length buf)" by simp
    note ok = am_tx_prepare_ok[OF inv l n pr]
    let ?w = "am_put_in_wait_list g0 e0"
    let ?w1 = "?w\<lparr>am_pdu_without_poll := am_pdu_without_poll ?w + 1,
                  am_byte_without_poll := am_byte_without_poll ?w + seg_size g0\<rparr>"
    let ?h = "\<lambda>ret e. record_waiting_time t g0 (upd_stats (count_txpdu ret) e)"
    have "am_gen_post e0 buf (bindE (am_serialize_sdu (?w1\<lparr>am_force_poll := False\<rparr>) g0 buf p)
        (\<lambda>(e, buf, ret). Inr (?h ret e, buf, ret)))" for p
    proof (rule am_send_prepared(1))
      show "rx_part (?w1\<lparr>am_force_poll := False\<rparr>) = rx_part e0" "events (?w1\<lparr>am_force_poll := False\<rparr>) = events e0"
        using am_put_in_wait_list_frame[of g0 e0] by (simp_all add: rx_part_def)
    qed (use ok in \<open>simp_all add: tx_part_def rx_part_def upd_stats_def record_waiting_time_def emit_def\<close>)
    then show ?thesis
      using False l pr ok am_gen_post_cong[of e0 e] by (simp add: am_generate_tx_pdu_eq Let_def)
  qed
qed

section \<open>STATUS PDUs keep the invariant\<close>

lemma free_segment_same:
  assumes inv: "store_inv st (add_mset g M)" and g': "g' \<in># M"
  shows "sdu_sn (sdu_at (fst (nr_rlc_free_sdu_segment st g)) g') = sdu_sn (sdu_at st g')"
proof (cases "seg_sdu g' = seg_sdu g")
  case False
  then show ?thesis by (simp add: sdu_at_free_other)
next
  case True
  then have "refs (seg_sdu g) M \<noteq> 0" using refs_pos[OF g'] by simp
  then have "\<not> snd (nr_rlc_free_sdu_segment st g)" using free_sdu_segment_result[OF inv] by simp
  then show ?thesis
    by (auto simp: nr_rlc_free_sdu_segment_def Let_def sdu_upd_def sdu_at_def split: if_splits option.splits)
qed

lemma free_segment_sdus:
  assumes "sdus (fst (nr_rlc_free_sdu_segment st g)) a = Some s'"
  shows "\<exists>s. sdus st a = Some s \<and> sdu_sn s' = sdu_sn s \<and> sdu_size s' = sdu_size s"
  using assms by (auto simp: nr_rlc_free_sdu_segment_def Let_def sdu_upd_def sdu_at_def split: if_splits)

text \<open>An acknowledged segment that has already left its list.\<close>

lemma am_ack_segment_inv:
  assumes wo: "am_tx_inv_without e g"
  shows "am_tx_inv (am_ack_segment g e)"
    and "am_tx_list (am_ack_segment g e) = am_tx_list e" "am_wait_list (am_ack_segment g e) = am_wait_list e"
    and "am_retransmit_list (am_ack_segment g e) = am_retransmit_list e"
proof -
  let ?e = "am_ack_segment g e" and ?st = "fst (nr_rlc_free_sdu_segment (store e) g)"
  have inv: "store_inv (store e) (add_mset g (am_segs e))" using wo by (simp add: am_without_eq)
  have st: "store ?e = ?st" by (simp add: am_ack_segment_def Let_def split_def)
  show fr: "am_tx_list ?e = am_tx_list e" "am_wait_list ?e = am_wait_list e" "am_retransmit_list ?e = am_retransmit_list e"
    by (simp_all add: am_ack_segment_def Let_def split_def upd_stats_def emit_def)
  have fr2: "am_sn_modulus ?e = am_sn_modulus e" "am_sn_field_length ?e = am_sn_field_length e"
    "am_window_size ?e = am_window_size e" "am_tx_next ?e = am_tx_next e" "am_tx_next_ack ?e = am_tx_next_ack e"
    "am_tx_maxsize ?e = am_tx_maxsize e" "bstatus ?e = bstatus e"
    by (simp_all add: am_ack_segment_def Let_def split_def upd_stats_def emit_def)
  have size: "am_tx_size ?e = am_tx_size e
      - (if snd (nr_rlc_free_sdu_segment (store e) g) then sdu_size (sdu_at (store e) g) else 0)"
    by (simp add: am_ack_segment_def Let_def split_def upd_stats_def emit_def)
  have g: "sdus (store e) (seg_sdu g) = Some (sdu_at (store e) g)" using store_invD_seg[OF inv, of g] by simp
  have nn: "0 \<le> sdu_size (sdu_at (store e) g)" using store_invD_sdu[OF inv g] by simp
  have lb: "am_list_bytes ?e = am_list_bytes e" by (rule am_list_bytes_cong) (simp add: fr2)
  have sdu_ok: "am_sdu_ok ?e s'" if up: "sdus ?st a = Some s'" for a s'
  proof -
    obtain s where s: "sdus (store e) a = Some s" "sdu_sn s' = sdu_sn s" "sdu_size s' = sdu_size s"
      using free_segment_sdus[OF up] by blast
    have "am_sdu_ok e s" using wo s(1) by (simp add: am_without_eq)
    then show ?thesis using s fr2 by (simp add: am_sdu_ok_def)
  qed
  have sn: "am_seg_sn ?e h = am_seg_sn e h" if "h \<in># am_segs e" for h
    using free_segment_same[OF inv that] by (simp add: am_seg_sn_def st)
  have segs: "am_segs ?e = am_segs e" by (simp add: am_segs_def fr)
  have sns: "am_seg_sn ?e h \<noteq> -1" if "h \<in> set (am_wait_list e) \<union> set (am_retransmit_list e)" for h
    using that wo sn[of h] by (auto simp: am_without_eq am_segs_def)
  show "am_tx_inv ?e"
    unfolding am_tx_inv_def segs lb st fr
    using wo sdu_ok sns size nn free_sdu_segment_inv[OF inv] free_sdu_segment_bytes[OF inv]
    by (simp add: am_without_eq am_sn_ok_def fr2)
qed

text \<open>The order inside the wait list and the retransmit list does not matter for the invariant.\<close>

lemma am_list_bytes_mset: "mset l = mset l' \<Longrightarrow> am_list_bytes e l = am_list_bytes e l'"
proof -
  let ?f = "\<lambda>g. am_compute_pdu_header_size e g + seg_size g"
  assume "mset l = mset l'"
  then have "mset (map ?f l) = mset (map ?f l')" by simp
  then have "sum_mset (mset (map ?f l)) = sum_mset (mset (map ?f l'))" by (rule arg_cong)
  then show ?thesis unfolding am_list_bytes_def sum_mset_sum_list .
qed

lemma am_lists_frame:
  "am_sn_ok (e\<lparr>am_wait_list := w, am_retransmit_list := r\<rparr>) = am_sn_ok e"
  "am_sdu_ok (e\<lparr>am_wait_list := w, am_retransmit_list := r\<rparr>) = am_sdu_ok e"
  "am_seg_sn (e\<lparr>am_wait_list := w, am_retransmit_list := r\<rparr>) = am_seg_sn e"
  "am_list_bytes (e\<lparr>am_wait_list := w, am_retransmit_list := r\<rparr>) = am_list_bytes e"
  "am_compute_pdu_header_size (e\<lparr>am_wait_list := w, am_retransmit_list := r\<rparr>) = am_compute_pdu_header_size e"
  by (simp_all add: fun_eq_iff am_sn_ok_def am_sdu_ok_def am_seg_sn_def am_list_bytes_def
      am_compute_pdu_header_size_def)

lemma am_lists_perm:
  assumes "mset w = mset w'" and "mset r = mset r'"
  shows "am_tx_inv (e\<lparr>am_wait_list := w, am_retransmit_list := r\<rparr>)
    = am_tx_inv (e\<lparr>am_wait_list := w', am_retransmit_list := r'\<rparr>)"
  using am_list_bytes_mset[OF assms(2), of e] mset_eq_setD[OF assms(1)] mset_eq_setD[OF assms(2)] assms
  unfolding am_tx_inv_def am_lists_frame by (simp add: am_segs_def)

lemma am_to_retx:
  assumes wo: "am_tx_inv_without e g"
  shows "am_tx_inv (add_bs_retx (am_compute_pdu_header_size e g + seg_size g) (e\<lparr>am_retransmit_list := g # am_retransmit_list e\<rparr>))"
proof -
  let ?e = "add_bs_retx (am_compute_pdu_header_size e g + seg_size g) (e\<lparr>am_retransmit_list := g # am_retransmit_list e\<rparr>)"
  have fr: "am_sn_ok ?e = am_sn_ok e" "am_sdu_ok ?e = am_sdu_ok e" "am_seg_sn ?e = am_seg_sn e"
    "am_list_bytes ?e = am_list_bytes e"
    by (simp_all add: fun_eq_iff add_bs_retx_def am_sn_ok_def am_sdu_ok_def am_seg_sn_def am_list_bytes_def
        am_compute_pdu_header_size_def)
  have "am_segs ?e = add_mset g (am_segs e)" by (simp add: am_segs_def add_bs_retx_def)
  then show ?thesis
    using wo unfolding am_without_eq am_tx_inv_def fr by (simp add: add_bs_retx_def)
qed

text \<open>An update of the counters of one SDU.\<close>

lemma am_without_upd:
  assumes wo: "am_tx_inv_without e g"
    and f: "\<And>s. sdu_sn (f s) = sdu_sn s" "\<And>s. sdu_size (f s) = sdu_size s" "\<And>s. sdu_data (f s) = sdu_data s"
      "\<And>s. sdu_upper_layer_id (f s) = sdu_upper_layer_id s"
      "\<And>s. sdu_ref_count (f s) - sdu_free_count (f s) = sdu_ref_count s - sdu_free_count s"
  shows "am_tx_inv_without (e\<lparr>store := sdu_upd (store e) h f\<rparr>) g"
proof -
  let ?st = "sdu_upd (store e) h f"
  have inv: "store_inv (store e) (add_mset g (am_segs e))" using wo by (simp add: am_without_eq)
  note u = store_inv_upd[OF inv, of f h, OF f(2) f(3) f(5)]
  have same: "same_sdus (store e) ?st" by (rule same_sdus_upd) (simp_all add: f)
  have fr: "am_sn_ok (e\<lparr>store := ?st\<rparr>) = am_sn_ok e" "am_sdu_ok (e\<lparr>store := ?st\<rparr>) = am_sdu_ok e"
    "am_list_bytes (e\<lparr>store := ?st\<rparr>) = am_list_bytes e" "am_segs (e\<lparr>store := ?st\<rparr>) = am_segs e"
    "am_seg_sn (e\<lparr>store := ?st\<rparr>) = am_seg_sn e"
    using same_sdusD(1)[OF same]
    by (simp_all add: fun_eq_iff am_sn_ok_def am_sdu_ok_def am_list_bytes_def am_segs_def am_seg_sn_def
        am_compute_pdu_header_size_def)
  have ok: "am_sdu_ok e s'" if up: "sdus ?st a = Some s'" for a s'
  proof -
    obtain s where s: "sdus (store e) a = Some s" "sdu_sn s' = sdu_sn s" "sdu_size s' = sdu_size s"
      using same_sdusD(4)[OF same up] by blast
    have "am_sdu_ok e s" using wo s(1) by (simp add: am_without_eq)
    then show ?thesis using s by (simp add: am_sdu_ok_def)
  qed
  show ?thesis using wo u ok unfolding am_without_eq fr by simp
qed

definition ctl_entity :: "ctl_t \<Rightarrow> nr_rlc_entity_am_t" where
  "ctl_entity c = (ct_e c)\<lparr>am_wait_list := ct_wait_done c @ ct_wait c,
     am_retransmit_list := ct_retx_new c @ ct_retx c\<rparr>"

definition ctl_inv :: "ctl_t \<Rightarrow> bool" where
  "ctl_inv c \<longleftrightarrow> am_tx_inv (ctl_entity c)"

text \<open>The three things that happen to a segment.\<close>

lemma ctl_take_wait:
  assumes "ctl_inv c" and "ct_wait c = g # ws"
  shows "am_tx_inv_without ((ct_e c)\<lparr>am_wait_list := ct_wait_done c @ ws, am_retransmit_list := ct_retx_new c @ ct_retx c\<rparr>) g"
proof -
  let ?R = "ct_retx_new c @ ct_retx c"
  have "am_tx_inv ((ct_e c)\<lparr>am_wait_list := g # ct_wait_done c @ ws, am_retransmit_list := ?R\<rparr>)"
    using assms am_lists_perm[of "ct_wait_done c @ g # ws" "g # ct_wait_done c @ ws" ?R ?R "ct_e c"]
    by (simp add: ctl_inv_def ctl_entity_def)
  then show ?thesis
    unfolding am_tx_inv_without_def
    by (rule am_tx_inv_cong[THEN iffD2, rotated]) (simp add: tx_part_def)
qed

lemma ctl_take_retx:
  assumes "ctl_inv c" and "ct_retx c = g # rs"
  shows "am_tx_inv_without ((add_bs_retx (- am_seg_pdu_size (ct_e c) g) (ct_e c))
      \<lparr>am_wait_list := ct_wait_done c @ ct_wait c, am_retransmit_list := ct_retx_new c @ rs\<rparr>) g"
proof -
  let ?e = "(ct_e c)\<lparr>am_wait_list := ct_wait_done c @ ct_wait c, am_retransmit_list := g # ct_retx_new c @ rs\<rparr>"
  have "am_tx_inv ?e"
    using assms am_lists_perm[of "ct_wait_done c @ ct_wait c" "ct_wait_done c @ ct_wait c"
        "ct_retx_new c @ g # rs" "g # ct_retx_new c @ rs" "ct_e c"]
    by (simp add: ctl_inv_def ctl_entity_def)
  from am_retx_head[OF this, of g "ct_retx_new c @ rs", unfolded am_lists_frame] show ?thesis
    by (rule am_without_cong[THEN iffD1, rotated]) (simp_all add: tx_part_def add_bs_retx_def am_seg_pdu_size_def)
qed

lemma am_ack_segment_lists:
  "am_ack_segment g (e\<lparr>am_wait_list := w, am_retransmit_list := r\<rparr>)
     = (am_ack_segment g e)\<lparr>am_wait_list := w, am_retransmit_list := r\<rparr>"
  by (simp add: am_ack_segment_def Let_def split_def upd_stats_def emit_def)

lemma ctl_ack_wait:
  assumes "ctl_inv c" and "ct_wait c = g # ws"
  shows "ctl_inv (c\<lparr>ct_e := am_ack_segment g (ct_e c), ct_wait := ws\<rparr>)"
  using am_ack_segment_inv(1)[OF ctl_take_wait[OF assms]]
  by (simp add: ctl_inv_def ctl_entity_def am_ack_segment_lists)

lemma ctl_ack_retx:
  assumes "ctl_inv c" and "ct_retx c = g # rs"
  shows "ctl_inv (c\<lparr>ct_e := am_ack_segment g (add_bs_retx (- am_seg_pdu_size (ct_e c) g) (ct_e c)), ct_retx := rs\<rparr>)"
  using am_ack_segment_inv(1)[OF ctl_take_retx[OF assms]]
  by (simp add: ctl_inv_def ctl_entity_def am_ack_segment_lists)

lemma ctl_nack_wait:
  assumes "ctl_inv c" and "ct_wait c = g # ws"
  shows "ctl_inv (c\<lparr>ct_e := am_nack_segment g (ct_e c), ct_wait := ws, ct_retx_new := ct_retx_new c @ [g]\<rparr>)"
proof -
  let ?f = "\<lambda>s. s\<lparr>sdu_retx_count := sdu_retx_count s + 1\<rparr>"
  let ?W = "ct_wait_done c @ ws" and ?R = "ct_retx_new c @ ct_retx c"
  let ?e = "(ct_e c)\<lparr>store := sdu_upd (store (ct_e c)) g ?f\<rparr>"
  let ?n = "am_seg_pdu_size (ct_e c) g"
  have wo: "am_tx_inv_without (?e\<lparr>am_wait_list := ?W, am_retransmit_list := ?R\<rparr>) g"
    using am_without_upd[OF ctl_take_wait[OF assms], of ?f g]
    by (rule am_without_cong[THEN iffD1, rotated]) (simp_all add: tx_part_def)
  have hd: "am_compute_pdu_header_size (?e\<lparr>am_wait_list := ?W, am_retransmit_list := ?R\<rparr>) g + seg_size g = ?n"
    by (simp add: am_seg_pdu_size_def am_compute_pdu_header_size_def)
  have a: "am_tx_inv ((add_bs_retx ?n ?e)\<lparr>am_wait_list := ?W, am_retransmit_list := g # ?R\<rparr>)"
    using am_to_retx[OF wo] unfolding hd
    by (rule am_tx_inv_cong[THEN iffD2, rotated]) (simp add: tx_part_def add_bs_retx_def)
  have "tx_part (am_nack_segment g (ct_e c)) = tx_part (add_bs_retx ?n ?e)"
    by (simp add: am_nack_segment_def Let_def tx_part_def add_bs_retx_def emit_def am_seg_pdu_size_def
        am_compute_pdu_header_size_def)
  then have "tx_part ((am_nack_segment g (ct_e c))\<lparr>am_wait_list := ?W, am_retransmit_list := g # ?R\<rparr>)
      = tx_part ((add_bs_retx ?n ?e)\<lparr>am_wait_list := ?W, am_retransmit_list := g # ?R\<rparr>)"
    by (simp add: tx_part_def)
  from am_tx_inv_cong[OF this] a
  have "am_tx_inv ((am_nack_segment g (ct_e c))\<lparr>am_wait_list := ?W, am_retransmit_list := g # ?R\<rparr>)" by simp
  then show ?thesis
    using am_lists_perm[of ?W ?W "g # ?R" "(ct_retx_new c @ [g]) @ ct_retx c" "am_nack_segment g (ct_e c)"]
    by (simp add: ctl_inv_def ctl_entity_def)
qed

text \<open>What the comparisons read does not change while a STATUS PDU is processed.\<close>

definition tx_base where
  "tx_base e = (am_tx_next_ack e, am_sn_modulus e, am_tx_next e)"

lemma am_compare_tx_cong: "tx_base e' = tx_base e \<Longrightarrow> am_sn_compare_tx e' = am_sn_compare_tx e"
  by (simp add: fun_eq_iff tx_base_def am_sn_compare_tx_def am_modulus_tx_def Let_def)

lemma tx_base_simps [simp]:
  "tx_base (am_ack_segment g e) = tx_base e" "tx_base (am_nack_segment g e) = tx_base e"
  "tx_base (add_bs_retx n e) = tx_base e"
  by (simp_all add: tx_base_def am_ack_segment_def am_nack_segment_def Let_def split_def upd_stats_def emit_def
      add_bs_retx_def)

lemma tx_base_step: "am_nack_step ack_sn nack c = (j, c') \<Longrightarrow> tx_base (ct_e c') = tx_base (ct_e c)"
  by (auto simp: am_nack_step_def am_wait_list_head_def am_retransmit_list_head_def Let_def
      split: list.splits if_splits prod.splits)

lemma ctl_wait_head:
  assumes inv: "ctl_inv c" and w: "ct_wait c = g # ws" and st: "am_wait_list_head ack_sn nack c g ws = (j, c')"
  shows "ctl_inv c'"
proof -
  obtain s a b where nack: "nack = (s, a, b)" by (cases nack) auto
  have keep: "ctl_inv (c\<lparr>ct_wait_done := x, ct_wait := y\<rparr>)" if "x @ y = ct_wait_done c @ ct_wait c" for x y
    using inv that by (simp add: ctl_inv_def ctl_entity_def)
  show ?thesis
    using st inv ctl_nack_wait[OF inv w] ctl_ack_wait[OF inv w] keep w
    by (auto simp: am_wait_list_head_def nack Let_def split: if_splits)
qed

text \<open>
  The same for the retransmit list, when the NACK is below \<open>ack_sn\<close>: the branch that loses the rest
  of the list is then never taken.
\<close>

lemma ctl_retx_head:
  assumes inv: "ctl_inv c" and r: "ct_retx c = g # rs" and st: "am_retransmit_list_head ack_sn nack c g rs = (j, c')"
    and below: "am_sn_compare_tx (ct_e c) (fst nack) ack_sn < 0"
  shows "ctl_inv c'"
proof -
  obtain s a b where nack: "nack = (s, a, b)" by (cases nack) auto
  have keep: "ctl_inv (c\<lparr>ct_retx := rs, ct_retx_new := ct_retx_new c @ [g]\<rparr>)"
    using inv r by (simp add: ctl_inv_def ctl_entity_def)
  have "am_sn_compare_tx (ct_e c) x s > 0 \<or> am_sn_compare_tx (ct_e c) x ack_sn < 0" for x
    using below by (auto simp: nack am_sn_compare_tx_def)
  then show ?thesis
    using st inv ctl_ack_retx[OF inv r] keep r
    by (auto simp: am_retransmit_list_head_def nack Let_def split: if_splits)
qed

lemma ctl_step:
  assumes "ctl_inv c" and "am_nack_step ack_sn nack c = (j, c')"
    and "am_sn_compare_tx (ct_e c) (fst nack) ack_sn < 0"
  shows "ctl_inv c'"
  using assms ctl_wait_head[OF assms(1)] ctl_retx_head[OF assms(1)]
  by (auto simp: am_nack_step_def Let_def split: list.splits if_splits)

lemma ctl_loop:
  assumes "ctl_inv c" and "am_sn_compare_tx (ct_e c) (fst nack) ack_sn < 0"
  shows "ctl_inv (snd (am_nack_loop ack_sn nack c)) \<and> tx_base (ct_e (snd (am_nack_loop ack_sn nack c))) = tx_base (ct_e c)"
  using assms
proof (induction ack_sn nack c rule: am_nack_loop.induct)
  case (1 ack_sn nack c)
  obtain j c' where st: "am_nack_step ack_sn nack c = (j, c')" by force
  have inv': "ctl_inv c'" and base: "tx_base (ct_e c') = tx_base (ct_e c)"
    using ctl_step[OF 1(2) st 1(3)] tx_base_step[OF st] by auto
  show ?case
    using 1(1)[OF st[symmetric]] inv' base am_compare_tx_cong[OF base] 1(3)
    by (subst (1 2) am_nack_loop.simps) (cases j; simp add: st)
qed

lemma ctl_range:
  assumes "ctl_inv c" and "\<forall>n \<in> set ns. am_sn_compare_tx (ct_e c) (fst n) ack_sn < 0"
  shows "ctl_inv (am_nack_range_loop ack_sn ns c) \<and> tx_base (ct_e (am_nack_range_loop ack_sn ns c)) = tx_base (ct_e c)"
  using assms
proof (induction ns arbitrary: c)
  case (Cons n ns)
  let ?c = "snd (am_nack_loop ack_sn n c)"
  have l: "ctl_inv ?c" "tx_base (ct_e ?c) = tx_base (ct_e c)" using ctl_loop[OF Cons.prems(1), of n] Cons.prems(2) by auto
  then have "\<forall>n \<in> set ns. am_sn_compare_tx (ct_e ?c) (fst n) ack_sn < 0"
    using Cons.prems(2) am_compare_tx_cong[OF l(2)] by simp
  from Cons.IH[OF l(1) this] show ?case using l by (simp add: split_def)
qed simp

text \<open>Every SN reported as missing is below \<open>ack_sn\<close>.\<close>

definition am_nacks_below :: "nr_rlc_entity_am_t \<Rightarrow> int \<Rightarrow> nack_t list \<Rightarrow> bool" where
  "am_nacks_below e ack_sn ns =
     list_all (\<lambda>n. am_sn_compare_tx e (fst n) ack_sn < 0) (concat (map (am_expand_nack e) ns))"

lemma am_expand_cong: "tx_base e' = tx_base e \<Longrightarrow> am_expand_nack e' = am_expand_nack e"
  by (simp add: fun_eq_iff am_expand_nack_def tx_base_def)

lemma ctl_one:
  assumes "ctl_inv c" and "am_nacks_below (ct_e c) ack_sn [n]"
  shows "ctl_inv (am_process_one_nack ack_sn n c) \<and> tx_base (ct_e (am_process_one_nack ack_sn n c)) = tx_base (ct_e c)"
proof -
  let ?c = "am_nack_range_loop ack_sn (am_expand_nack (ct_e c) n) c"
  have r: "ctl_inv ?c" "tx_base (ct_e ?c) = tx_base (ct_e c)"
    using ctl_range[OF assms(1), of "am_expand_nack (ct_e c) n" ack_sn] assms(2)
    by (auto simp: am_nacks_below_def list_all_iff)
  have "ctl_inv (?c\<lparr>ct_e := (ct_e ?c)\<lparr>am_t_poll_retransmit_start := 0\<rparr>\<rparr>)"
    using r(1) am_tx_inv_cong[of "ctl_entity (?c\<lparr>ct_e := (ct_e ?c)\<lparr>am_t_poll_retransmit_start := 0\<rparr>\<rparr>)" "ctl_entity ?c"]
    by (simp add: ctl_inv_def ctl_entity_def tx_part_def)
  then show ?thesis using r by (simp add: am_process_one_nack_def Let_def tx_base_def)
qed

lemma ctl_fold:
  assumes "ctl_inv c" and "am_nacks_below (ct_e c) ack_sn ns"
  shows "ctl_inv (fold (am_process_one_nack ack_sn) ns c)
    \<and> tx_base (ct_e (fold (am_process_one_nack ack_sn) ns c)) = tx_base (ct_e c)"
  using assms
proof (induction ns arbitrary: c)
  case (Cons n ns)
  have o: "ctl_inv (am_process_one_nack ack_sn n c)" "tx_base (ct_e (am_process_one_nack ack_sn n c)) = tx_base (ct_e c)"
    using ctl_one[OF Cons.prems(1), of ack_sn n] Cons.prems(2) by (auto simp: am_nacks_below_def)
  moreover have "am_nacks_below (ct_e (am_process_one_nack ack_sn n c)) ack_sn ns"
    using Cons.prems(2) am_compare_tx_cong[OF o(2)] am_expand_cong[OF o(2)] by (simp add: am_nacks_below_def)
  ultimately show ?case using Cons.IH by simp
qed simp

lemma ctl_ack_wait_list:
  "ctl_inv c \<Longrightarrow> ct_wait c = l \<Longrightarrow> am_ack_wait_list ack_sn l (ct_e c) = (w, e') \<Longrightarrow>
   ctl_inv (c\<lparr>ct_e := e', ct_wait := w\<rparr>) \<and> tx_base e' = tx_base (ct_e c)"
proof (induction l arbitrary: c)
  case (Cons g l)
  show ?case
  proof (cases "am_sn_compare_tx (ct_e c) (am_seg_sn (ct_e c) g) ack_sn < 0")
    case True
    let ?c = "c\<lparr>ct_e := am_ack_segment g (ct_e c), ct_wait := l\<rparr>"
    show ?thesis using Cons.IH[OF ctl_ack_wait[OF Cons.prems(1,2)]] Cons.prems(3) True by simp
  next
    case False
    then show ?thesis using Cons.prems by (auto simp: ctl_inv_def ctl_entity_def)
  qed
qed (auto simp: ctl_inv_def ctl_entity_def)

lemma ctl_ack_retx_list:
  "ctl_inv c \<Longrightarrow> ct_retx c = l \<Longrightarrow> am_ack_retransmit_list ack_sn l (ct_e c) = (r, e') \<Longrightarrow>
   ctl_inv (c\<lparr>ct_e := e', ct_retx := r\<rparr>) \<and> tx_base e' = tx_base (ct_e c)"
proof (induction l arbitrary: c)
  case (Cons g l)
  show ?case
  proof (cases "am_sn_compare_tx (ct_e c) (am_seg_sn (ct_e c) g) ack_sn < 0")
    case True
    show ?thesis using Cons.IH[OF ctl_ack_retx[OF Cons.prems(1,2)]] Cons.prems(3) True by simp
  next
    case False
    then show ?thesis using Cons.prems by (auto simp: ctl_inv_def ctl_entity_def)
  qed
qed (auto simp: ctl_inv_def ctl_entity_def)

lemma am_update_tx_next_ack_inv:
  assumes inv: "am_tx_inv e" and ack: "0 \<le> ack_sn" "ack_sn < am_sn_modulus e"
  shows "am_tx_inv (am_update_tx_next_ack ack_sn e)"
proof -
  have seg: "0 \<le> am_seg_sn e g \<and> am_seg_sn e g < am_sn_modulus e"
    if "g \<in> set (am_wait_list e) \<union> set (am_retransmit_list e)" for g
  proof -
    have "g \<in># am_segs e" using that by (auto simp: am_segs_def)
    moreover have "am_seg_sn e g \<noteq> -1" using inv that by (simp add: am_tx_inv_def)
    ultimately show ?thesis using am_seg_live(3)[OF inv] by (auto simp: am_sdu_ok_def am_seg_sn_def)
  qed
  let ?P = "\<lambda>t. 0 \<le> t \<and> t < am_sn_modulus e"
  have "\<exists>t. am_update_tx_next_ack ack_sn e = e\<lparr>am_tx_next_ack := t\<rparr> \<and> ?P t"
  proof -
    define t1 where "t1 = (case am_wait_list e of [] \<Rightarrow> am_tx_next e
      | g # _ \<Rightarrow> if am_sn_compare_tx e (am_seg_sn e g) (am_tx_next e) < 0 then am_seg_sn e g else am_tx_next e)"
    define t2 where "t2 = (case am_retransmit_list e of [] \<Rightarrow> t1
      | g # _ \<Rightarrow> if am_sn_compare_tx e (am_seg_sn e g) t1 < 0 then am_seg_sn e g else t1)"
    have "?P (am_tx_next e)" using inv by (simp add: am_tx_inv_def am_sn_ok_def)
    then have "?P t1" using seg unfolding t1_def by (auto split: list.splits)
    then have "?P t2" using seg unfolding t2_def by (auto split: list.splits)
    then have "?P (if am_sn_compare_tx e ack_sn t2 < 0 then ack_sn else t2)" using ack by simp
    moreover have "am_update_tx_next_ack ack_sn e
        = e\<lparr>am_tx_next_ack := (if am_sn_compare_tx e ack_sn t2 < 0 then ack_sn else t2)\<rparr>"
      unfolding am_update_tx_next_ack_def Let_def t2_def t1_def ..
    ultimately show ?thesis by blast
  qed
  then obtain t where t: "am_update_tx_next_ack ack_sn e = e\<lparr>am_tx_next_ack := t\<rparr>" "?P t" by blast
  have fr: "am_list_bytes (e\<lparr>am_tx_next_ack := t\<rparr>) = am_list_bytes e" "am_sdu_ok (e\<lparr>am_tx_next_ack := t\<rparr>) = am_sdu_ok e"
    "am_segs (e\<lparr>am_tx_next_ack := t\<rparr>) = am_segs e" "am_seg_sn (e\<lparr>am_tx_next_ack := t\<rparr>) = am_seg_sn e"
    by (simp_all add: fun_eq_iff am_list_bytes_def am_compute_pdu_header_size_def am_sdu_ok_def am_segs_def am_seg_sn_def)
  have "am_sn_ok (e\<lparr>am_tx_next_ack := t\<rparr>)" using am_tx_invD(1)[OF inv] t(2) by (simp add: am_sn_ok_def)
  then show ?thesis using inv unfolding t(1) am_tx_inv_def fr by simp
qed

lemma am_process_status_inv:
  assumes inv: "am_tx_inv e" and ack: "0 \<le> ack_sn" "ack_sn < am_sn_modulus e"
    and below: "am_nacks_below e ack_sn nacks"
  shows "am_tx_inv (am_process_status e ack_sn nacks)"
proof -
  define e1 where "e1 = (if am_sn_compare_tx e (am_poll_sn e) ack_sn < 0 then e\<lparr>am_t_poll_retransmit_start := 0\<rparr> else e)"
  define c0 where "c0 = \<lparr>ct_e = e1, ct_wait_done = [], ct_wait = am_wait_list e1, ct_retx_new = [], ct_retx = am_retransmit_list e1\<rparr>"
  define c where "c = fold (am_process_one_nack ack_sn) nacks c0"
  obtain w e2 where w: "am_ack_wait_list ack_sn (ct_wait c) (ct_e c) = (w, e2)" by force
  obtain r e3 where r: "am_ack_retransmit_list ack_sn (ct_retx c) e2 = (r, e3)" by force
  have part: "tx_part e1 = tx_part e" "tx_base e1 = tx_base e" by (simp_all add: e1_def tx_part_def tx_base_def)
  have "ctl_inv c0"
    using inv am_tx_inv_cong[of "ctl_entity c0" e] part(1) by (simp add: ctl_inv_def ctl_entity_def c0_def tx_part_def)
  moreover have "am_nacks_below (ct_e c0) ack_sn nacks"
    using below am_compare_tx_cong[OF part(2)] am_expand_cong[OF part(2)] by (simp add: c0_def am_nacks_below_def)
  ultimately have c: "ctl_inv c" "tx_base (ct_e c) = tx_base e"
    using ctl_fold[of c0 ack_sn nacks] part(2) by (auto simp: c_def c0_def)
  let ?c1 = "c\<lparr>ct_e := e2, ct_wait := w\<rparr>"
  have c1: "ctl_inv ?c1" "tx_base e2 = tx_base e" using ctl_ack_wait_list[OF c(1) refl w] c(2) by auto
  let ?c2 = "?c1\<lparr>ct_e := e3, ct_retx := r\<rparr>"
  have c2: "ctl_inv ?c2" "tx_base e3 = tx_base e" using ctl_ack_retx_list[OF c1(1) refl, of ack_sn r e3] r c1(2) by auto
  have "am_process_status e ack_sn nacks = am_update_tx_next_ack ack_sn (ctl_entity ?c2)"
    by (simp add: am_process_status_def Let_def e1_def[symmetric] c0_def[symmetric] c_def[symmetric] w r ctl_entity_def)
  moreover have "am_sn_modulus (ctl_entity ?c2) = am_sn_modulus e" using c2(2) by (simp add: ctl_entity_def tx_base_def)
  ultimately show ?thesis
    using am_update_tx_next_ack_inv[of "ctl_entity ?c2" ack_sn] c2(1) ack by (simp add: ctl_inv_def)
qed

definition ack_in_range :: "int \<Rightarrow> (int \<times> nack_t list) option res \<Rightarrow> bool" where
  "ack_in_range m r \<longleftrightarrow> (\<forall>a ns. r = Inr (Some (a, ns)) \<longrightarrow> 0 \<le> a \<and> a < m)"

lemma ack_in_range_simps:
  "ack_in_range m (Inr None)"
  "0 \<le> a \<Longrightarrow> a < m \<Longrightarrow> ack_in_range m (bindE x (\<lambda>ns. Inr (map_option (\<lambda>ns. (a, ns)) ns)))"
  by (auto simp: ack_in_range_def bindE_eq_Inr)

lemma am_decode_control_ack:
  assumes "am_sn_field_length e \<le> 31" and "am_decode_control e buf = Inr (Some (ack_sn, ns))"
  shows "0 \<le> ack_sn \<and> ack_sn < 2 ^ am_sn_field_length e"
proof -
  let ?P = "ack_in_range (2 ^ am_sn_field_length e)"
  have "?P (am_decode_control e buf)"
    unfolding am_decode_control_def Let_def using assms(1)
    by (intro get_bits_R_rule[where P = ?P])
      (auto simp: ack_in_range_simps intro!: get_bits_R_rule[where P = "ack_in_range m" for m])
  then show ?thesis using assms(2) by (simp add: ack_in_range_def)
qed

lemma am_process_control_inv:
  assumes inv: "am_tx_inv e"
    and below: "\<And>ack_sn nacks. am_decode_control e buf = Inr (Some (ack_sn, nacks)) \<Longrightarrow> am_nacks_below e ack_sn nacks"
  shows "\<exists>e'. am_process_control_pdu e buf = Inr e' \<and> am_tx_inv e'"
proof -
  have len: "am_sn_field_length e \<le> 31" "am_sn_modulus e = 2 ^ am_sn_field_length e"
    using am_tx_invD(1)[OF inv] by (auto simp: am_sn_ok_def)
  obtain r where r: "am_decode_control e buf = Inr r" using am_decode_control_total[OF len(1)] by blast
  show ?thesis
  proof (cases r)
    case None
    then show ?thesis using r inv by (simp add: am_process_control_pdu_def)
  next
    case (Some x)
    obtain ack_sn ns where x: "x = (ack_sn, ns)" by force
    have "am_tx_inv (am_process_status e ack_sn ns)"
      using am_process_status_inv[OF inv] am_decode_control_ack[OF len(1)] below r Some x len(2) by simp
    then show ?thesis using r Some x inv by (auto simp: am_process_control_pdu_def)
  qed
qed


end
