(* ===== verification/RLC_Am_Service.thy ===== *)
theory RLC_Am_Service
  imports RLC_Am_Tx_Props
begin

text \<open>
  The AM entity as its users see it: the transmission-buffer contract, the PDUs it generates and
  their way to a peer, the timers, discard and re-establishment, and the announced size of STATUS
  PDUs.
\<close>

section \<open>A new entity\<close>

lemma empty_store_None: "sdus empty_store a = None"
  by (simp add: empty_store_def)

lemma new_am_tx_inv [inv_intros]:
  assumes "new_nr_rlc_entity_am rxm txm tp tr ts pp pb mr len = Inr e" and "0 \<le> txm"
  shows "am_tx_inv e"
proof -
  have len: "len = 12 \<or> len = 18" using assms(1) by (auto simp: new_nr_rlc_entity_am_def split: if_splits)
  have f: "am_sn_modulus e = push_bit len 1" "am_sn_field_length e = len" "am_window_size e = push_bit len 1 div 2"
    "am_tx_next e = 0" "am_tx_next_ack e = 0" "store e = empty_store" "am_tx_list e = []" "am_wait_list e = []"
    "am_retransmit_list e = []" "am_tx_size e = 0" "am_tx_maxsize e = txm * 5"
    "bs_tx_size (bstatus e) = 0" "bs_retx_size (bstatus e) = 0"
    using assms(1) by (auto simp: new_nr_rlc_entity_am_def Let_def split: if_splits)
  have "am_sn_ok e" using len by (auto simp: am_sn_ok_def f)
  then show ?thesis
    using assms(2) store_inv_empty live_bytes_empty empty_store_None by (simp add: am_tx_inv_def f am_segs_def)
qed

section \<open>The transmission buffer\<close>

definition seg_bytes :: "sdu_store \<Rightarrow> nr_rlc_sdu_segment_t \<Rightarrow> buffer" where
  "seg_bytes st g = take (nat (seg_size g)) (drop (nat (seg_so g)) (sdu_data (sdu_at st g)))"

text \<open>The bytes not transmitted yet, one entry per SDU.\<close>

definition am_queue :: "nr_rlc_entity_am_t \<Rightarrow> buffer list" where
  "am_queue e = map (seg_bytes (store e)) (am_tx_list e)"

lemma upd_stats_am [simp]:
  "am_tx_size (upd_stats f e) = am_tx_size e" "am_tx_maxsize (upd_stats f e) = am_tx_maxsize e"
  "am_tx_list (upd_stats f e) = am_tx_list e" "am_sn_field_length (upd_stats f e) = am_sn_field_length e"
  by (simp_all add: upd_stats_def)

lemma am_log_rejected_simps [simp]:
  "am_tx_size (am_log_rejected e) = am_tx_size e" "am_tx_maxsize (am_log_rejected e) = am_tx_maxsize e"
  "am_tx_list (am_log_rejected e) = am_tx_list e" "store (am_log_rejected e) = store e"
  "am_sn_field_length (am_log_rejected e) = am_sn_field_length e"
  by (simp_all add: am_log_rejected_def)

lemma am_recv_sdu_refused:
  assumes "int (length b) \<le> NR_SDU_MAX" and "nr_rlc_entity_am_available_tx_space e < int (length b)"
  shows "\<exists>e'. nr_rlc_entity_am_recv_sdu e b i t = Inr e' \<and> tx_part e' = tx_part e"
  using assms
  by (auto simp: nr_rlc_entity_am_recv_sdu_def Let_def nr_rlc_entity_am_available_tx_space_def
      upd_stats_def am_log_rejected_def tx_part_def)

lemma am_recv_sdu_accepted:
  assumes inv: "am_tx_inv e" and sz: "int (length b) \<le> NR_SDU_MAX"
    and fit: "int (length b) \<le> nr_rlc_entity_am_available_tx_space e"
  shows "\<exists>e'. nr_rlc_entity_am_recv_sdu e b i t = Inr e' \<and> am_tx_inv e' \<and> am_queue e' = am_queue e @ [b]
    \<and> am_tx_size e' = am_tx_size e + int (length b) \<and> am_tx_maxsize e' = am_tx_maxsize e"
proof -
  obtain st g where new: "nr_rlc_new_sdu (store e) b i = (st, g)" by force
  have g: "seg_so g = 0" "seg_size g = int (length b)" "seg_is_first g" "sdu_data (sdu_at st g) = b"
    "seg_sdu g = next_addr (store e)"
    and stdef: "st = \<lparr>sdus = (sdus (store e))(next_addr (store e) := Some (sdu_at st g)), next_addr = Suc (next_addr (store e))\<rparr>"
    and sdu: "sdu_sn (sdu_at st g) = -1" "sdu_size (sdu_at st g) = int (length b)"
    using new by (auto simp: nr_rlc_new_sdu_def Let_def sdu_at_def)
  have s: "store_inv (store e) (am_segs e)" using am_tx_invD[OF inv] by simp
  note st = new_sdu_inv[OF s new] and old = sdu_at_new[OF s new]
  define e1 where "e1 = (am_log_rejected (upd_stats (\<lambda>s. s\<lparr>rxsdu_pkts := rxsdu_pkts s + 1\<rparr>) e))
     \<lparr>am_tx_size := am_tx_size e + int (length b)\<rparr>"
  define e2 where "e2 = (upd_stats (\<lambda>s. s\<lparr>rxsdu_bytes := rxsdu_bytes s + word_of_int (int (length b))\<rparr>) e1)
     \<lparr>store := st, am_tx_list := am_tx_list e @ [g]\<rparr>"
  let ?n = "am_compute_pdu_header_size e2 g + seg_size g"
  define e3 where "e3 = stamp_arrival t g (add_bs_tx ?n e2)"
  have fl: "am_sn_field_length e2 = am_sn_field_length e"
    by (simp add: e2_def e1_def upd_stats_def am_log_rejected_def)
  have res: "nr_rlc_entity_am_recv_sdu e b i t = Inr e3"
    using sz fit new
    by (simp add: nr_rlc_entity_am_recv_sdu_def Let_def nr_rlc_entity_am_available_tx_space_def e3_def e2_def e1_def
        nr_rlc_sdu_segment_list_append_def)
  have fr: "am_tx_list e3 = am_tx_list e @ [g]" "am_wait_list e3 = am_wait_list e"
    "am_retransmit_list e3 = am_retransmit_list e" "am_tx_size e3 = am_tx_size e + int (length b)"
    "am_tx_maxsize e3 = am_tx_maxsize e" "am_sn_modulus e3 = am_sn_modulus e" "am_sn_field_length e3 = am_sn_field_length e"
    "am_window_size e3 = am_window_size e" "am_tx_next e3 = am_tx_next e" "am_tx_next_ack e3 = am_tx_next_ack e"
    "bs_tx_size (bstatus e3) = bs_tx_size (bstatus e) + ?n" "bs_retx_size (bstatus e3) = bs_retx_size (bstatus e)"
    "store e2 = st"
    by (simp_all add: e3_def e2_def e1_def upd_stats_def am_log_rejected_def add_bs_tx_def stamp_arrival_def)
  have same: "same_sdus st (store e3)"
    using same_sdus_upd[of "\<lambda>s. s\<lparr>sdu_time_of_arrival := t\<rparr>" st g]
    using fr(13) by (simp add: e3_def stamp_arrival_def same_sdus_def)
  have segs: "am_segs e3 = add_mset g (am_segs e)" by (simp add: am_segs_def fr)
  have "store_inv (store (add_bs_tx ?n e2)) (add_mset g (am_segs e))" using st(1) fr(13) by simp
  note stamped = stamp_arrival_store[OF this, of t g, folded e3_def]
  have lb: "am_list_bytes e3 = am_list_bytes e" by (rule am_list_bytes_cong) (simp add: fr)
  have hd: "am_compute_pdu_header_size e2 = am_compute_pdu_header_size e" by (rule am_header_cong[OF fl])
  have ok: "am_sdu_ok e3 s'" if up: "sdus (store e3) a = Some s'" for a s'
  proof -
    obtain s0 where s0: "sdus st a = Some s0" "sdu_sn s' = sdu_sn s0" "sdu_size s' = sdu_size s0"
      using same_sdusD(4)[OF same up] by blast
    have "s0 = sdu_at st g \<or> sdus (store e) a = Some s0"
      using s0(1) arg_cong[OF stdef, of sdus] by (auto split: if_splits)
    then have "am_sdu_ok e s0" using inv sdu sz by (auto simp: am_tx_inv_def am_sdu_ok_def)
    then show ?thesis using s0 fr by (simp add: am_sdu_ok_def)
  qed
  have sn: "am_seg_sn e3 h \<noteq> -1" if "h \<in> set (am_wait_list e) \<union> set (am_retransmit_list e)" for h
  proof -
    have "h \<in># am_segs e" using that by (auto simp: am_segs_def)
    then have "am_seg_sn e3 h = am_seg_sn e h" using same_sdusD(1)[OF same] old(1) by (simp add: am_seg_sn_def)
    then show ?thesis using inv that by (simp add: am_tx_inv_def)
  qed
  have "am_tx_inv e3"
    unfolding am_tx_inv_def segs lb
    using stamped st(2) ok sn inv fit fr hd
    by (simp add: am_tx_inv_def am_sn_ok_def nr_rlc_entity_am_available_tx_space_def)
  moreover have "am_queue e3 = am_queue e @ [b]"
  proof -
    have "seg_bytes (store e3) h = seg_bytes (store e) h" if "h \<in> set (am_tx_list e)" for h
      using same_sdusD(3)[OF same] old(1)[of h] that by (simp add: seg_bytes_def am_segs_def)
    then show ?thesis using same_sdusD(3)[OF same, of g] g by (simp add: am_queue_def fr seg_bytes_def)
  qed
  ultimately show ?thesis using res fr by blast
qed

interpretation am_buf: tx_buffer nr_rlc_entity_am_recv_sdu nr_rlc_entity_am_available_tx_space
  am_queue am_tx_inv
proof unfold_locales
  fix e :: nr_rlc_entity_am_t and b :: buffer and i :: int and t :: u64
  assume "am_tx_inv e" "int (length b) \<le> NR_SDU_MAX" "int (length b) \<le> nr_rlc_entity_am_available_tx_space e"
  then show "\<exists>e'. nr_rlc_entity_am_recv_sdu e b i t = Inr e' \<and> am_tx_inv e'
      \<and> nr_rlc_entity_am_available_tx_space e' = nr_rlc_entity_am_available_tx_space e - int (length b)
      \<and> am_queue e' = am_queue e @ [b]"
    using am_recv_sdu_accepted[of e b i t] by (auto simp: nr_rlc_entity_am_available_tx_space_def)
next
  fix e :: nr_rlc_entity_am_t and b :: buffer and i :: int and t :: u64
  assume a: "am_tx_inv e" "int (length b) \<le> NR_SDU_MAX" "nr_rlc_entity_am_available_tx_space e < int (length b)"
  then obtain e' where e': "nr_rlc_entity_am_recv_sdu e b i t = Inr e'" "tx_part e' = tx_part e"
    using am_recv_sdu_refused[of b e i t] by blast
  then show "\<exists>e'. nr_rlc_entity_am_recv_sdu e b i t = Inr e' \<and> am_tx_inv e'
      \<and> nr_rlc_entity_am_available_tx_space e' = nr_rlc_entity_am_available_tx_space e
      \<and> am_queue e' = am_queue e"
    using a(1) am_tx_inv_cong[OF e'(2)] by (simp add: nr_rlc_entity_am_available_tx_space_def tx_part_def am_queue_def)
next
  fix b :: buffer and e :: nr_rlc_entity_am_t and i :: int and t :: u64
  assume "NR_SDU_MAX < int (length b)"
  then show "\<exists>x. nr_rlc_entity_am_recv_sdu e b i t = Inl x"
    by (simp add: nr_rlc_entity_am_recv_sdu_def Let_def)
qed

text \<open>
  Handing SDUs to an AM entity: a burst of SDUs of legal size that fits into the space
  the entity announces is accepted as a whole and queued in order, and the space shrinks by exactly
  its size.
\<close>

lemma am_burst_accepted:
  assumes "am_tx_inv e" and "\<forall>x \<in> set r. int (length (fst x)) \<le> NR_SDU_MAX"
    and "(\<Sum>x \<leftarrow> r. int (length (fst x))) \<le> nr_rlc_entity_am_available_tx_space e"
  shows "\<exists>e'. recv_all nr_rlc_entity_am_recv_sdu e r = Inr e' \<and> am_tx_inv e' \<and> am_queue e' = am_queue e @ map fst r
    \<and> nr_rlc_entity_am_available_tx_space e'
      = nr_rlc_entity_am_available_tx_space e - (\<Sum>x \<leftarrow> r. int (length (fst x)))"
  using assms by (rule am_buf.recv_all_accepted)

end
