(* ===== verification/RLC_Am_Status.thy ===== *)
theory RLC_Am_Status
  imports RLC_Am_Service
begin

text \<open>
  STATUS reporting of the AM entity. The report is built by two loops that walk over the received
  segments: one fills the PDU (\<open>generate_status\<close>), the other one only computes how large it would
  be (\<open>status_size\<close>, for the buffer status the MAC asks for). The theory shows that both end, that
  the PDU never gets out of its buffer, and that the announced size is the size of the PDU.
\<close>

section \<open>One NACK block\<close>

lemma am_nack_size_eq:
  "am_sn_field_length e = 12 \<or> am_sn_field_length e = 18 \<Longrightarrow> am_range_bytes e r = am_nack_size e r"
  by (auto simp: am_range_bytes_def am_nack_size_def Let_def)

lemma am_nack_size_pos: "2 \<le> am_nack_size e r"
  by (auto simp: am_nack_size_def Let_def)

text \<open>The encoder stands on a byte boundary; the places to patch later are behind it.\<close>

definition sg_ok :: "status_gen \<Rightarrow> bool" where
  "sg_ok g \<longleftrightarrow> enc_wf (sg_enc g) \<and> enc_bit (sg_enc g) = 0 \<and> sg_e1_byte g < enc_byte (sg_enc g)
     \<and> (\<forall>a. sg_so_end g = Some a \<longrightarrow> a + 2 \<le> enc_byte (sg_enc g))"

text \<open>Whole bytes written behind a byte boundary.\<close>

lemma put_bytes:
  assumes "enc_wf e" and "enc_bit e = 0" and "list_all (\<lambda>f. snd f \<le> 31) fs"
    and "sum_list (map snd fs) = 8 * k" and "enc_byte e + k \<le> enc_size e"
  shows "\<exists>e'. put_fields e fs = Inr e' \<and> enc_wf e' \<and> enc_bit e' = 0 \<and> enc_byte e' = enc_byte e + k
    \<and> enc_size e' = enc_size e"
proof -
  obtain e' where e': "put_fields e fs = Inr e'" "enc_ext e (field_bits fs) e'"
    using put_fields_width[OF assms(1,3)] assms by (auto simp: length_field_bits enc_pos_def)
  then have "8 * enc_byte e' + enc_bit e' = 8 * (enc_byte e + k)" "enc_bit e' < 8"
    using assms by (auto simp: enc_ext_def length_field_bits enc_pos_def enc_wf_def)
  then have "enc_bit e' = 0" "enc_byte e' = enc_byte e + k" by presburger+
  then show ?thesis using e' by (auto simp: enc_ext_def)
qed

lemma buf_or_ok:
  assumes "enc_wf c" and "i < enc_size c"
  shows "\<exists>b. buf_or (enc_buffer c) i v = Inr b \<and> enc_wf (c\<lparr>enc_buffer := b\<rparr>)"
  using assms by (auto simp: buf_or_def enc_wf_def enc_pos_def)

lemma am_put_nack_ok:
  assumes len: "am_sn_field_length e = 12 \<or> am_sn_field_length e = 18" and g: "sg_ok g"
    and fit: "int (enc_byte (sg_enc g)) + am_nack_size e r \<le> int (enc_size (sg_enc g))"
  shows "\<exists>g'. am_put_nack e r c g = Inr g' \<and> sg_ok g' \<and> sg_truncated g' = sg_truncated g
    \<and> int (enc_byte (sg_enc g')) = int (enc_byte (sg_enc g)) + am_nack_size e r
    \<and> enc_size (sg_enc g') = enc_size (sg_enc g)"
proof -
  let ?len = "am_sn_field_length e" and ?e2 = "\<not> (ms_so_start r = 0 \<and> ms_so_end r = 0xffff)"
    and ?e3 = "ms_sn_start r \<noteq> ms_sn_end r"
  define h :: nat where "h = (if ?len = 18 then 3 else 2)"
  have h: "?len = 12 \<and> h = 2 \<or> ?len = 18 \<and> h = 3" using len by (auto simp: h_def)
  have sz: "am_nack_size e r = int h + (if ?e2 then 4 else 0) + (if ?e3 then 1 else 0)"
    by (auto simp: am_nack_size_def Let_def h_def)
  have room: "enc_byte (sg_enc g) + h + (if ?e2 then 4 else 0) + (if ?e3 then 1 else 0) \<le> enc_size (sg_enc g)"
    using fit sz by (auto split: if_splits)
  have b: "sg_e1_byte g < enc_size (sg_enc g)" "enc_wf (sg_enc g)" "enc_bit (sg_enc g) = 0"
    using g fit am_nack_size_pos[of e r] by (auto simp: sg_ok_def)
  obtain buf where buf: "buf_or (enc_buffer (sg_enc g)) (sg_e1_byte g) (push_bit (sg_e1_bit g) 1) = Inr buf"
    "enc_wf ((sg_enc g)\<lparr>enc_buffer := buf\<rparr>)" using buf_or_ok[OF b(2,1)] by blast
  obtain c1 where c1: "put_fields ((sg_enc g)\<lparr>enc_buffer := buf\<rparr>)
      [(ms_sn_start r, ?len), (0, 1), (of_bool ?e2, 1), (of_bool ?e3, 1), (0, if ?len = 18 then 3 else 1)] = Inr c1"
    "enc_wf c1" "enc_bit c1 = 0" "enc_byte c1 = enc_byte (sg_enc g) + h" "enc_size c1 = enc_size (sg_enc g)"
    using put_bytes[of "(sg_enc g)\<lparr>enc_buffer := buf\<rparr>" "[(ms_sn_start r, ?len), (0, 1), (of_bool ?e2, 1),
      (of_bool ?e3, 1), (0, if ?len = 18 then 3 else 1)]" h] buf(2) b room h by (auto split: if_splits)
  have "\<exists>c2 so. (if ?e2 then bindE (put_fields c1 [(ms_so_start r, 16)]) (\<lambda>enc.
                  bindE (put_fields enc [(ms_so_end r, 16)]) (\<lambda>enc'. Inr (enc', Some (enc_byte enc))))
                else Inr (c1, None)) = Inr (c2, so)
      \<and> enc_wf c2 \<and> enc_bit c2 = 0 \<and> enc_byte c2 = enc_byte c1 + (if ?e2 then 4 else 0) \<and> enc_size c2 = enc_size c1
      \<and> (\<forall>a. so = Some a \<longrightarrow> a + 2 \<le> enc_byte c2)"
  proof (cases ?e2)
    case True
    obtain d1 where d1: "put_fields c1 [(ms_so_start r, 16)] = Inr d1" "enc_wf d1" "enc_bit d1 = 0"
      "enc_byte d1 = enc_byte c1 + 2" "enc_size d1 = enc_size c1"
      using put_bytes[of c1 "[(ms_so_start r, 16)]" 2] c1 room True by (simp del: put_fields.simps) blast
    obtain d2 where d2: "put_fields d1 [(ms_so_end r, 16)] = Inr d2" "enc_wf d2" "enc_bit d2 = 0"
      "enc_byte d2 = enc_byte d1 + 2" "enc_size d2 = enc_size d1"
      using put_bytes[of d1 "[(ms_so_end r, 16)]" 2] d1 c1 room True by (simp del: put_fields.simps) blast
    show ?thesis using d1 d2 True by (simp del: put_fields.simps)
  qed (use c1 in simp)
  then obtain c2 so where c2: "(if ?e2 then bindE (put_fields c1 [(ms_so_start r, 16)]) (\<lambda>enc.
                  bindE (put_fields enc [(ms_so_end r, 16)]) (\<lambda>enc'. Inr (enc', Some (enc_byte enc))))
                else Inr (c1, None)) = Inr (c2, so)"
      "enc_wf c2" "enc_bit c2 = 0" "enc_byte c2 = enc_byte c1 + (if ?e2 then 4 else 0)" "enc_size c2 = enc_size c1"
      "\<forall>a. so = Some a \<longrightarrow> a + 2 \<le> enc_byte c2" by blast
  obtain c3 where c3: "(if ?e3 then put_fields c2 [(c, 8)] else Inr c2) = Inr c3" "enc_wf c3" "enc_bit c3 = 0"
      "enc_byte c3 = enc_byte c2 + (if ?e3 then 1 else 0)" "enc_size c3 = enc_size c2"
    using put_bytes[of c2 "[(c, 8)]" 1] c2 c1 room by (cases ?e3) (simp_all del: put_fields.simps split: if_splits)
  let ?e1 = "am_get_e1_position e (sg_enc g)"
  have "am_put_nack e r c g = Inr (g\<lparr>sg_enc := c3, sg_e1_byte := fst ?e1, sg_e1_bit := snd ?e1, sg_so_end := so,
      sg_last_nack := ms_sn_start r + (if ?e3 then c - 1 else 0)\<rparr>)"
    using buf(1) c1(1) c2(1) c3(1)
    by (cases ?e3) (simp_all add: am_put_nack_def Let_def split_def del: put_fields.simps)
  moreover have "fst ?e1 < enc_byte c1"
    using c1(4) h by (auto simp: am_get_e1_position_def)
  ultimately show ?thesis
    using c1 c2 c3 sz by (auto simp: sg_ok_def)
qed

section \<open>The blocks of one missing range\<close>

text \<open>
  The loop that writes the blocks and the loop that counts their bytes stay in step: same bytes,
  same decision to stop. At least one block is written, or the report is truncated.
\<close>

definition sg_step :: "status_gen \<Rightarrow> status_gen \<Rightarrow> bool" where
  "sg_step g g' \<longleftrightarrow> sg_ok g' \<and> enc_size (sg_enc g') = enc_size (sg_enc g)
     \<and> enc_byte (sg_enc g) \<le> enc_byte (sg_enc g')"

lemma sg_step_refl: "sg_ok g \<Longrightarrow> sg_step g g"
  by (simp add: sg_step_def)

lemma sg_step_trans: "sg_step g h \<Longrightarrow> sg_step h k \<Longrightarrow> sg_step g k"
  by (simp add: sg_step_def)

lemma am_generate_missing_loop_ok:
  assumes len: "am_sn_field_length e = 12 \<or> am_sn_field_length e = 18" and g: "sg_ok g" "\<not> sg_truncated g"
  shows "\<exists>g' c'. am_generate_missing_loop e m n s g = Inr g' \<and> sg_step g g'
    \<and> am_missing_size_loop e m n s (int (enc_byte (sg_enc g))) c (int (enc_size (sg_enc g)))
        = (int (enc_byte (sg_enc g')), c', sg_truncated g')
    \<and> c \<le> c' \<and> (0 < n \<longrightarrow> sg_truncated g' \<or> (c < c' \<and> enc_byte (sg_enc g) < enc_byte (sg_enc g')))"
  using g
proof (induction n arbitrary: s g c rule: less_induct)
  case (less n)
  let ?cur = "min n 255" and ?r = "am_nack_range e m n s"
  note gen = am_generate_missing_loop.simps[of e m n s g]
    and siz = am_missing_size_loop.simps[of e m n s "int (enc_byte (sg_enc g))" c "int (enc_size (sg_enc g))"]
  show ?case
  proof (cases "n = 0")
    case True
    then show ?thesis using gen siz less.prems by (simp add: sg_step_refl)
  next
    case n: False
    show ?thesis
    proof (cases "int (enc_byte (sg_enc g)) + am_nack_size e ?r > int (enc_size (sg_enc g))")
      case True
      then show ?thesis using gen siz n less.prems by (simp add: sg_step_def sg_ok_def Let_def)
    next
      case False
      then obtain g1 where g1: "am_put_nack e ?r (int ?cur) g = Inr g1" "sg_ok g1" "sg_truncated g1 = sg_truncated g"
        "int (enc_byte (sg_enc g1)) = int (enc_byte (sg_enc g)) + am_nack_size e ?r"
        "enc_size (sg_enc g1) = enc_size (sg_enc g)"
        using am_put_nack_ok[OF len less.prems(1), of ?r "int ?cur"] by auto
      have "n - ?cur < n" using n by auto
      from less.IH[OF this g1(2), where s = "(s + int ?cur) mod am_sn_modulus e" and c = "c + 1"]
      obtain g2 c2 where g2: "am_generate_missing_loop e m (n - ?cur) ((s + int ?cur) mod am_sn_modulus e) g1 = Inr g2"
        "sg_step g1 g2" "c + 1 \<le> c2"
        "am_missing_size_loop e m (n - ?cur) ((s + int ?cur) mod am_sn_modulus e) (int (enc_byte (sg_enc g1))) (c + 1)
          (int (enc_size (sg_enc g1))) = (int (enc_byte (sg_enc g2)), c2, sg_truncated g2)"
        using g1(3) less.prems(2) by blast
      have "enc_byte (sg_enc g) < enc_byte (sg_enc g1)" using g1(4) am_nack_size_pos[of e ?r] by linarith
      moreover have "am_generate_missing_loop e m n s g = Inr g2"
        using gen n False g1(1) g2(1) by (simp add: Let_def)
      moreover have "am_missing_size_loop e m n s (int (enc_byte (sg_enc g))) c (int (enc_size (sg_enc g)))
          = (int (enc_byte (sg_enc g2)), c2, sg_truncated g2)"
        using siz n False g1(4,5) g2(4) am_nack_size_eq[OF len] by (simp add: Let_def)
      ultimately show ?thesis using g1(5) g2 by (auto simp: sg_step_def)
    qed
  qed
qed

lemma am_sn_count_pos: "0 < am_sn_modulus e \<Longrightarrow> 0 < am_sn_count e m"
  by (simp add: am_sn_count_def add_nonneg_pos)

lemma am_generate_missing_ok:
  assumes len: "am_sn_field_length e = 12 \<or> am_sn_field_length e = 18" and M: "0 < am_sn_modulus e" and g: "sg_ok g"
  shows "\<exists>g' c'. bindE (am_generate_missing e m g) am_force_so_end = Inr g' \<and> sg_step g g'
    \<and> am_missing_size e m (int (enc_byte (sg_enc g))) (int (enc_size (sg_enc g)))
        = (int (enc_byte (sg_enc g')), c', sg_truncated g')
    \<and> 0 \<le> c' \<and> (sg_truncated g' \<or> (0 < c' \<and> enc_byte (sg_enc g) < enc_byte (sg_enc g')))"
proof -
  let ?g = "g\<lparr>sg_truncated := False, sg_last_nack := -1\<rparr>"
  obtain g1 c1 where g1: "am_generate_missing e m g = Inr g1" "sg_step ?g g1"
    "am_missing_size e m (int (enc_byte (sg_enc g))) (int (enc_size (sg_enc g)))
      = (int (enc_byte (sg_enc g1)), c1, sg_truncated g1)"
    "0 \<le> c1" "sg_truncated g1 \<or> (0 < c1 \<and> enc_byte (sg_enc g) < enc_byte (sg_enc g1))"
  proof -
    have "sg_ok ?g" using g by (simp add: sg_ok_def)
    from am_generate_missing_loop_ok[OF len this, of m "am_sn_count e m" "ms_sn_start m" 0]
    show ?thesis using that am_sn_count_pos[OF M, of m]
      unfolding am_generate_missing_def am_missing_size_def by fastforce
  qed
  obtain g2 where g2: "am_force_so_end g1 = Inr g2" "sg_step g1 g2" "enc_byte (sg_enc g2) = enc_byte (sg_enc g1)"
    "sg_truncated g2 = sg_truncated g1"
  proof (cases "sg_so_end g1")
    case None
    then show ?thesis using that[of g1] g1(2) by (simp add: am_force_so_end_def sg_step_def)
  next
    case (Some a)
    have "a + 2 \<le> length (enc_buffer (sg_enc g1))" "enc_wf (sg_enc g1)"
      using g1(2) Some by (simp_all add: sg_step_def sg_ok_def enc_wf_def enc_pos_def)
    then obtain b where b: "mem_write (enc_buffer (sg_enc g1)) a [0xff, 0xff] = Inr b"
      by (simp add: mem_write_def)
    note b = b mem_write_length[OF b]
    show ?thesis
    proof (cases "sg_truncated g1")
      case True
      show ?thesis
        using g1(2) Some b True
        by (intro that[of "g1\<lparr>sg_enc := (sg_enc g1)\<lparr>enc_buffer := b\<rparr>\<rparr>"])
          (simp_all add: am_force_so_end_def sg_step_def sg_ok_def enc_wf_def enc_pos_def)
    next
      case False
      then show ?thesis using that[of g1] g1(2) Some by (simp add: am_force_so_end_def sg_step_def)
    qed
  qed
  have "sg_step g g2" using g1(2) g2(2) by (simp add: sg_step_def)
  then show ?thesis using g1 g2 by auto
qed

section \<open>The search for missing bytes ends\<close>

text \<open>
  The report covers the SNs from \<open>rx_next\<close> to \<open>rx_highest_status\<close>; \<open>h\<close> is the distance of the
  two. When it is the whole window, the slot of \<open>rx_highest_status\<close> is that of \<open>rx_next\<close>, and the
  search stops there only if the slot before it is not empty.
\<close>

definition am_report_at :: "nr_rlc_entity_am_t \<Rightarrow> int \<Rightarrow> bool" where
  "am_report_at e h \<longleftrightarrow> am_rx_inv e \<and> (am_sn_field_length e = 12 \<or> am_sn_field_length e = 18)
     \<and> 0 \<le> h \<and> h \<le> am_window_size e \<and> am_rx_highest_status e = rx_at (am_rx e) h
     \<and> (h = am_window_size e \<longrightarrow> rx_lookup (am_rx e) (rx_at (am_rx e) (h - 1)) \<noteq> [])"

text \<open>What the walk can stand on: the end of a slot of the window.\<close>

definition rx_cursor :: "nr_rlc_entity_am_t \<Rightarrow> int \<Rightarrow> int \<Rightarrow> nr_rlc_pdu_t list \<Rightarrow> bool" where
  "rx_cursor e h i l \<longleftrightarrow> 0 \<le> i \<and> i < am_window_size e \<and> i \<le> h
     \<and> (\<exists>ps. rx_lookup (am_rx e) (rx_at (am_rx e) i) = ps @ l)"

lemma rx_cursor_tail:
  assumes "rx_cursor e h i (p # l)"
  shows "rx_cursor e h i l"
proof -
  obtain ps where "rx_lookup (am_rx e) (rx_at (am_rx e) i) = (ps @ [p]) @ l"
    using assms by (auto simp: rx_cursor_def)
  then show ?thesis using assms unfolding rx_cursor_def by blast
qed

lemma am_report_window:
  assumes "am_report_at e h"
  shows "rxm_inv (am_rx e)" and "rxm_size (am_rx e) = am_window_size e" and "1 < am_window_size e"
    and "am_sn_modulus e = 2 * am_window_size e"
proof -
  have inv: "am_rx_inv e" and len: "am_sn_field_length e = 12 \<or> am_sn_field_length e = 18"
    using assms by (auto simp: am_report_at_def)
  show "rxm_inv (am_rx e)" "rxm_size (am_rx e) = am_window_size e" "am_sn_modulus e = 2 * am_window_size e"
    using am_rx_invD[OF inv] by auto
  have "am_sn_modulus e = 2 ^ am_sn_field_length e" using inv by (simp add: am_rx_inv_def)
  then show "1 < am_window_size e" using len am_rx_invD(5)[OF inv] by auto
qed

lemma rx_at_eq_iff:
  assumes "am_report_at e h" and "0 \<le> i" "i < 2 * am_window_size e" "0 \<le> j" "j < 2 * am_window_size e"
  shows "rx_at (am_rx e) i = rx_at (am_rx e) j \<longleftrightarrow> i = j"
proof
  let ?m = "am_rx e" and ?M = "2 * am_window_size e"
  assume "rx_at ?m i = rx_at ?m j"
  then have "(rxm_sn_start ?m + i) mod ?M = (rxm_sn_start ?m + j) mod ?M"
    using am_report_window(2)[OF assms(1)] by (simp add: rx_at_def)
  then have "((rxm_sn_start ?m + i) - rxm_sn_start ?m) mod ?M = ((rxm_sn_start ?m + j) - rxm_sn_start ?m) mod ?M"
    by (metis mod_diff_left_eq)
  then show "i = j" using assms by simp
qed simp

lemma rx_at_next:
  assumes "am_report_at e h"
  shows "(rx_at (am_rx e) i + 1) mod am_sn_modulus e = rx_at (am_rx e) (i + 1)"
  using am_report_window[OF assms] by (simp add: rx_at_def mod_add_left_eq add.assoc)

lemma rx_cursor_sn:
  assumes "am_report_at e h" and "rx_cursor e h i l" and "p \<in> set l"
  shows "pdu_sn p = rx_at (am_rx e) i"
proof -
  have "rxm_ok (am_rx e)" using assms(1) am_rx_invD(1) by (auto simp: am_report_at_def)
  then show ?thesis
    using assms(2,3) am_report_window(2)[OF assms(1)] by (auto simp: rxm_ok_def rx_cursor_def)
qed

lemma am_find_rx_pdu_at:
  assumes ok: "am_report_at e h" and j: "0 \<le> j" "j \<le> h"
  shows "\<exists>k. j \<le> k \<and> k \<le> h \<and> am_find_rx_pdu e (rx_at (am_rx e) j) = Some (rx_lookup (am_rx e) (rx_at (am_rx e) k))
    \<and> (\<forall>i. j \<le> i \<and> i < k \<longrightarrow> rx_lookup (am_rx e) (rx_at (am_rx e) i) = [])"
proof -
  note w = am_report_window[OF ok]
  let ?b = "\<lambda>sn. sn \<noteq> am_rx_highest_status e \<and> rx_lookup (am_rx e) sn = []"
  have at: "(rx_at (am_rx e) j + int n) mod am_sn_modulus e = rx_at (am_rx e) (j + int n)" for n
    using w by (simp add: rx_at_def mod_add_left_eq add.assoc)
  have r: "0 \<le> rx_at (am_rx e) j" "rx_at (am_rx e) j < am_sn_modulus e" using w by (auto simp: rx_at_def)
  have "\<not> ?b ((rx_at (am_rx e) j + int (nat (h - j))) mod am_sn_modulus e)"
    using ok j unfolding at by (simp add: am_report_at_def)
  from skip_while_Some[where b = ?b, OF r this] obtain n where n: "n \<le> nat (h - j)"
    "skip_while ?b (am_sn_modulus e) (rx_at (am_rx e) j) = Some (rx_at (am_rx e) (j + int n))"
    "\<forall>i < n. ?b (rx_at (am_rx e) (j + int i))" unfolding at by blast
  have "rx_lookup (am_rx e) (rx_at (am_rx e) i) = []" if i: "j \<le> i" "i < j + int n" for i
  proof -
    have "i = j + int (nat (i - j))" "nat (i - j) < n" using i by auto
    then show ?thesis using n(3) by metis
  qed
  then show ?thesis
    using n j by (intro exI[of _ "j + int n"]) (auto simp: am_find_rx_pdu_def)
qed

text \<open>
  The next PDU of the walk is in the same slot, in a later slot, or, at the end of a report of the
  whole window, in the first slot again.
\<close>

lemma am_get_next_rx_pdu_at:
  assumes ok: "am_report_at e h" and cur: "rx_cursor e h i (p # rest)"
  shows "\<exists>nxt k. am_get_next_rx_pdu e p rest = Some nxt \<and> rx_cursor e h k nxt
    \<and> (nxt = [] \<or> (k = i \<and> nxt = rest) \<or> i < k \<or> (k = 0 \<and> i = am_window_size e - 1))"
proof (cases "rest = []")
  case False
  have "rx_cursor e h i rest" using rx_cursor_tail[OF cur] .
  then show ?thesis using False by (auto simp: am_get_next_rx_pdu_def)
next
  case rest: True
  note w = am_report_window[OF ok]
  have sn: "pdu_sn p = rx_at (am_rx e) i" using rx_cursor_sn[OF ok cur, of p] by simp
  have i: "0 \<le> i" "i < am_window_size e" "i \<le> h" using cur by (auto simp: rx_cursor_def)
  have h: "0 \<le> h" "h \<le> am_window_size e" "am_rx_highest_status e = rx_at (am_rx e) h"
    using ok by (auto simp: am_report_at_def)
  show ?thesis
  proof (cases "i = h")
    case True
    then have "rx_cursor e h i []" using i by (simp add: rx_cursor_def)
    then show ?thesis using True rest sn h by (auto simp: am_get_next_rx_pdu_def)
  next
    case False
    then have ne: "pdu_sn p \<noteq> am_rx_highest_status e" using rx_at_eq_iff[OF ok, of i h] i h w(3) sn by auto
    obtain k where k: "i + 1 \<le> k" "k \<le> h"
      "am_find_rx_pdu e (rx_at (am_rx e) (i + 1)) = Some (rx_lookup (am_rx e) (rx_at (am_rx e) k))"
      "\<forall>j. i + 1 \<le> j \<and> j < k \<longrightarrow> rx_lookup (am_rx e) (rx_at (am_rx e) j) = []"
      using am_find_rx_pdu_at[OF ok, of "i + 1"] i False by auto
    have nxt: "am_get_next_rx_pdu e p rest = Some (rx_lookup (am_rx e) (rx_at (am_rx e) k))"
      using rest ne k(3) rx_at_next[OF ok, of i] sn by (simp add: am_get_next_rx_pdu_def)
    show ?thesis
    proof (cases "k < am_window_size e")
      case True
      then have "rx_cursor e h k (rx_lookup (am_rx e) (rx_at (am_rx e) k))" using k i by (auto simp: rx_cursor_def)
      then show ?thesis using nxt k(1) by auto
    next
      case False
      then have kw: "k = am_window_size e" "h = am_window_size e" using k h by auto
      have "rx_lookup (am_rx e) (rx_at (am_rx e) (am_window_size e - 1)) \<noteq> []"
        using ok kw(2) by (simp add: am_report_at_def)
      then have "\<not> (i + 1 \<le> am_window_size e - 1 \<and> am_window_size e - 1 < k)" using k(4) by blast
      then have "i = am_window_size e - 1" using kw(1) i by linarith
      moreover have "rx_lookup (am_rx e) (rx_at (am_rx e) k) = rx_lookup (am_rx e) (rx_at (am_rx e) 0)"
        using rx_lookup_at_wrap[of "am_rx e" 0] w(2) kw(1) by simp
      moreover have "rx_cursor e h 0 (rx_lookup (am_rx e) (rx_at (am_rx e) 0))"
        using h w(3) by (auto simp: rx_cursor_def)
      ultimately show ?thesis using nxt by auto
    qed
  qed
qed

lemma am_next_pdu_loop_Cons:
  "am_next_pdu_loop e (p # rest) max_so last_reached =
     (let sn = pdu_sn p;
          cur_max_so = pdu_so p + pdu_size p - 1;
          max_so = (if cur_max_so > max_so then cur_max_so else max_so);
          last_reached = (last_reached \<or> pdu_is_last p)
      in Option.bind (am_get_next_rx_pdu e p rest) (\<lambda>nxt.
          case nxt of [] \<Rightarrow> Some (am_missing_at_end e p max_so last_reached)
          | cur # _ \<Rightarrow>
            if pdu_sn cur = sn \<and> max_so \<ge> pdu_so cur - 1 then
              am_next_pdu_loop e nxt max_so last_reached
            else if pdu_sn cur = (sn + 1) mod am_sn_modulus e \<and> last_reached \<and> pdu_is_first cur then
              am_next_pdu_loop e nxt 0 False
            else if pdu_sn cur = sn then
              Some (if am_out_of_report e sn then no_missing
                    else \<lparr>ms_sn_start = sn, ms_so_start = max_so + 1, ms_sn_end = sn,
                          ms_so_end = pdu_so cur - 1, ms_next = nxt\<rparr>)
            else
              let (sn_start, so_start) =
                    (if last_reached then ((sn + 1) mod am_sn_modulus e, 0) else (sn, max_so + 1))
              in Some (if am_out_of_report e sn_start then no_missing
                       else am_set_end_different_sdu e cur
                         \<lparr>ms_sn_start = sn_start, ms_so_start = so_start, ms_sn_end = 0,
                          ms_so_end = 0, ms_next = nxt\<rparr>)))"
  by (subst am_next_pdu_loop.simps) simp

lemma ms_next_simps [simp]:
  "ms_next no_missing = []" "ms_next (am_missing_at_end e p a b) = []"
  "ms_next (am_set_end_different_sdu e c r) = ms_next r \<or> ms_next (am_set_end_different_sdu e c r) = []"
  by (auto simp: no_missing_def am_missing_at_end_def am_set_end_different_sdu_def Let_def split: prod.splits if_splits)

definition rx_cursor_some :: "nr_rlc_entity_am_t \<Rightarrow> int \<Rightarrow> nr_rlc_pdu_t list \<Rightarrow> bool" where
  "rx_cursor_some e h l \<longleftrightarrow> l = [] \<or> (\<exists>i. rx_cursor e h i l)"

lemma am_next_pdu_loop_ends:
  assumes ok: "am_report_at e h" and cur: "rx_cursor e h i (p # rest)"
  shows "\<exists>m. am_next_pdu_loop e (p # rest) max_so last_reached = Some m \<and> rx_cursor_some e h (ms_next m)"
  using cur
proof (induction "nat (h - i)" arbitrary: i p rest max_so last_reached rule: less_induct)
  case outer: less
  show ?case
    using outer.prems
  proof (induction rest arbitrary: p max_so last_reached)
    case (Cons q rest)
    have "am_get_next_rx_pdu e p (q # rest) = Some (q # rest)" by (simp add: am_get_next_rx_pdu_def)
    moreover have "rx_cursor e h i (q # rest)"
      using rx_cursor_tail[OF Cons.prems] .
    moreover have "pdu_sn q = pdu_sn p" 
      using rx_cursor_sn[OF ok Cons.prems, of p] rx_cursor_sn[OF ok Cons.prems, of q] by simp
    moreover note Cons.IH[OF rx_cursor_tail[OF Cons.prems]]
    ultimately show ?case
      unfolding am_next_pdu_loop_Cons[of e p] Let_def rx_cursor_some_def
      by (simp split del: if_split) (simp split: if_split, blast)
  next
    case Nil
    note w = am_report_window[OF ok]
    have sn: "pdu_sn p = rx_at (am_rx e) i" using rx_cursor_sn[OF ok Nil.prems, of p] by simp
    have i: "0 \<le> i" "i < am_window_size e" using Nil.prems by (auto simp: rx_cursor_def)
    obtain nxt k where nxt: "am_get_next_rx_pdu e p [] = Some nxt" "rx_cursor e h k nxt"
      "nxt = [] \<or> i < k \<or> (k = 0 \<and> i = am_window_size e - 1)"
      using am_get_next_rx_pdu_at[OF ok Nil.prems] by blast
    show ?case
    proof (cases nxt)
      case Nil
      then show ?thesis using nxt(1) unfolding am_next_pdu_loop_Cons Let_def by (simp add: rx_cursor_some_def)
    next
      case (Cons c cs)
      have c: "pdu_sn c = rx_at (am_rx e) k" using rx_cursor_sn[OF ok nxt(2), of c] Cons by simp
      have k: "0 \<le> k" "k < am_window_size e" "k \<le> h" using nxt(2) by (auto simp: rx_cursor_def)
      have far: "i < k \<or> (k = 0 \<and> i = am_window_size e - 1)" using nxt(3) Cons by blast
      have ne: "pdu_sn c \<noteq> pdu_sn p"
        unfolding sn c by (subst rx_at_eq_iff[OF ok]) (use i k far w(3) in linarith)+
      have jump: "i < k" if "pdu_sn c = (pdu_sn p + 1) mod am_sn_modulus e"
      proof -
        have "rx_at (am_rx e) k = rx_at (am_rx e) (i + 1)" using that unfolding sn c rx_at_next[OF ok] .
        then have "k = i + 1" by (subst (asm) rx_at_eq_iff[OF ok]) (use i k w(3) in linarith)+
        then show ?thesis by simp
      qed
      have IH: "\<exists>m. am_next_pdu_loop e nxt 0 False = Some m \<and> rx_cursor_some e h (ms_next m)" if "i < k"
        using outer.hyps[of k c cs 0 False] nxt(2) Cons that k by auto
      have stop: "rx_cursor_some e h (ms_next (am_set_end_different_sdu e c r))" if "ms_next r = nxt" for r
        using ms_next_simps(3)[of e c r] nxt(2) that by (auto simp: rx_cursor_some_def)
      show ?thesis
      proof (cases "pdu_sn c = (pdu_sn p + 1) mod am_sn_modulus e \<and> (last_reached \<or> pdu_is_last p) \<and> pdu_is_first c")
        case True
        then show ?thesis
          using nxt(1) Cons ne IH[OF jump] unfolding am_next_pdu_loop_Cons[of e p] Let_def by simp
      next
        case False
        then show ?thesis
          using nxt(1) Cons ne stop unfolding am_next_pdu_loop_Cons[of e p] Let_def
          by (simp add: rx_cursor_some_def) blast
      qed
    qed
  qed
qed

lemma am_next_missing_ends:
  assumes ok: "am_report_at e h" and l: "rx_cursor_some e h l" "l \<noteq> []"
  shows "\<exists>m. am_next_missing e l check_head = Some m \<and> rx_cursor_some e h (ms_next m)"
proof -
  obtain p rest i where p: "l = p # rest" "rx_cursor e h i (p # rest)"
    using l by (cases l) (auto simp: rx_cursor_some_def)
  show ?thesis
    using am_next_pdu_loop_ends[OF ok p(2), of 0 False] p l(1)
      ms_next_simps(3)[of e p "\<lparr>ms_sn_start = am_rx_next e, ms_so_start = 0, ms_sn_end = 0, ms_so_end = 0, ms_next = l\<rparr>"]
    by (auto simp: am_next_missing_def rx_cursor_some_def)
qed

lemma am_get_first_rx_pdu_ends:
  assumes ok: "am_report_at e h"
  shows "\<exists>l. am_get_first_rx_pdu e = Some l \<and> rx_cursor_some e h l"
proof -
  note w = am_report_window[OF ok]
  have h: "0 \<le> h" "h \<le> am_window_size e" using ok by (auto simp: am_report_at_def)
  have start: "am_rx_next e = rx_at (am_rx e) 0"
    using ok am_rx_invD[of e] by (simp add: am_report_at_def rx_at_def)
  obtain k where k: "0 \<le> k" "k \<le> h" "am_get_first_rx_pdu e = Some (rx_lookup (am_rx e) (rx_at (am_rx e) k))"
    using am_find_rx_pdu_at[OF ok, of 0] h start by (auto simp: am_get_first_rx_pdu_def)
  show ?thesis
  proof (cases "k < am_window_size e")
    case True
    then have "rx_cursor e h k (rx_lookup (am_rx e) (rx_at (am_rx e) k))" using k by (auto simp: rx_cursor_def)
    then show ?thesis using k(3) by (auto simp: rx_cursor_some_def)
  next
    case False
    then have "k = am_window_size e" using k(2) h(2) by simp
    then have "rx_lookup (am_rx e) (rx_at (am_rx e) k) = rx_lookup (am_rx e) (rx_at (am_rx e) 0)"
      using rx_lookup_at_wrap[of "am_rx e" 0] w(2) by simp
    moreover have "rx_cursor e h 0 (rx_lookup (am_rx e) (rx_at (am_rx e) 0))"
      using h w(3) by (auto simp: rx_cursor_def)
    ultimately show ?thesis using k(3) by (auto simp: rx_cursor_some_def)
  qed
qed

section \<open>The report and its announced size\<close>

lemma am_status_loop_ok:
  assumes ok: "am_report_at e h" and "sg_ok g" and "rx_cursor_some e h cur"
    and "cur = [] \<or> (nc = 0) = check_head" and "0 \<le> nc"
  shows "\<exists>g' ln'. am_status_loop e cur check_head g ln = Some (Inr (g', ln')) \<and> sg_step g g'
    \<and> am_status_size_loop e cur nc (int (enc_byte (sg_enc g))) (int (enc_size (sg_enc g)))
      = Some (int (enc_byte (sg_enc g')))"
  using assms(2-)
proof (induction "enc_size (sg_enc g) - enc_byte (sg_enc g)" arbitrary: g cur nc check_head ln rule: less_induct)
  case less
  note gen = am_status_loop.simps[of e cur check_head g ln]
    and siz = am_status_size_loop.simps[of e cur nc "int (enc_byte (sg_enc g))" "int (enc_size (sg_enc g))"]
  have len: "am_sn_field_length e = 12 \<or> am_sn_field_length e = 18" and M: "0 < am_sn_modulus e"
    using ok am_report_window[OF ok] by (auto simp: am_report_at_def)
  show ?case
  proof (cases "cur = []")
    case True
    then show ?thesis using gen siz less.prems(1) by (simp add: sg_step_refl)
  next
    case cur: False
    then have head: "check_head = (nc = 0)" using less.prems(3) by blast
    obtain m where m: "am_next_missing e cur check_head = Some m" "rx_cursor_some e h (ms_next m)"
      using am_next_missing_ends[OF ok less.prems(2) cur] by blast
    show ?thesis
    proof (cases "ms_sn_start m = -1")
      case True
      then show ?thesis using gen siz cur m(1) head less.prems(1) by (simp add: sg_step_refl)
    next
      case False
      obtain g1 c1 where g1: "bindE (am_generate_missing e m g) am_force_so_end = Inr g1" "sg_step g g1"
        "am_missing_size e m (int (enc_byte (sg_enc g))) (int (enc_size (sg_enc g)))
          = (int (enc_byte (sg_enc g1)), c1, sg_truncated g1)"
        "0 \<le> c1" "sg_truncated g1 \<or> (0 < c1 \<and> enc_byte (sg_enc g) < enc_byte (sg_enc g1))"
        using am_generate_missing_ok[OF len M less.prems(1)] by blast
      have g1': "sg_ok g1" "enc_size (sg_enc g1) = enc_size (sg_enc g)" using g1(2) by (auto simp: sg_step_def)
      let ?cur = "if sg_truncated g1 then [] else ms_next m"
        and ?ln = "if sg_last_nack g1 \<noteq> -1 then sg_last_nack g1 else ln"
      have gen1: "am_status_loop e cur check_head g ln = am_status_loop e ?cur False g1 ?ln"
        using gen cur m(1) False g1(1) by simp
      have siz1: "am_status_size_loop e cur nc (int (enc_byte (sg_enc g))) (int (enc_size (sg_enc g)))
          = am_status_size_loop e ?cur (nc + c1) (int (enc_byte (sg_enc g1))) (int (enc_size (sg_enc g1)))"
        using siz cur m(1) False g1(3) g1'(2) head by (simp add: Let_def)
      show ?thesis
      proof (cases "sg_truncated g1")
        case True
        then show ?thesis
          using gen1 siz1 g1(2) am_status_loop.simps[of e "[]"] am_status_size_loop.simps[of e "[]"] by simp
      next
        case nt: False
        have "enc_byte (sg_enc g1) \<le> enc_size (sg_enc g1)" using g1'(1) by (simp add: sg_ok_def enc_wf_def enc_pos_def)
        then have "enc_size (sg_enc g1) - enc_byte (sg_enc g1) < enc_size (sg_enc g) - enc_byte (sg_enc g)"
          using g1(5) nt g1'(2) by linarith
        from less.hyps[OF this g1'(1), of "ms_next m" "nc + c1" False ?ln] obtain g2 ln2 where
          "am_status_loop e (ms_next m) False g1 ?ln = Some (Inr (g2, ln2))" "sg_step g1 g2"
          "am_status_size_loop e (ms_next m) (nc + c1) (int (enc_byte (sg_enc g1))) (int (enc_size (sg_enc g1)))
            = Some (int (enc_byte (sg_enc g2)))"
          using m(2) g1(4,5) nt less.prems(4) by auto
        then show ?thesis using gen1 siz1 nt sg_step_trans[OF g1(2)] by auto
      qed
    qed
  qed
qed

text \<open>What \<open>generate_status\<close> leaves alone.\<close>

lemma am_put_ack_sn_ok:
  assumes "3 \<le> length buf"
  shows "\<exists>b. am_put_ack_sn e a buf = Inr b \<and> length b = length buf"
  using assms by (auto simp: am_put_ack_sn_def mem_write_def buf_or_def)

lemma am_generate_status_ok:
  assumes ok: "am_report_at e h" and n: "3 \<le> length buf"
  shows "\<exists>e' buf' n. am_generate_status e buf = Inr (e', buf', n) \<and> am_status_size e (int (length buf)) = Inr n
    \<and> 3 \<le> n \<and> n \<le> int (length buf) \<and> length buf' = length buf
    \<and> tx_part e' = tx_part e \<and> rx_part e' = rx_part e \<and> events e' = events e
    \<and> \<not> am_status_triggered e' \<and> am_t_status_prohibit_start e' = am_t_current e \<and> am_t_current e' = am_t_current e"
proof -
  let ?enc0 = "nr_rlc_pdu_encoder_init buf (length buf)"
  obtain enc where enc: "put_fields ?enc0 [(0, 8 * 3)] = Inr enc" "enc_wf enc" "enc_bit enc = 0"
    "enc_byte enc = 3" "enc_size enc = length buf"
    using put_bytes[of ?enc0 "[(0, 8 * 3)]" 3] n by (auto simp: nr_rlc_pdu_encoder_init_def enc_wf_def enc_pos_def simp del: put_fields.simps)
  let ?g = "\<lparr>sg_enc = enc, sg_e1_byte = 2, sg_e1_bit = (if am_sn_field_length e = 18 then 1 else 7),
      sg_so_end = None, sg_truncated = False, sg_last_nack = -1\<rparr>"
  let ?ln = "(am_rx_next e - 1 + am_sn_modulus e) mod am_sn_modulus e"
  obtain l where l: "am_get_first_rx_pdu e = Some l" "rx_cursor_some e h l"
    using am_get_first_rx_pdu_ends[OF ok] by blast
  obtain g ln where g: "am_status_loop e l True ?g ?ln = Some (Inr (g, ln))" "sg_step ?g g"
    "am_status_size_loop e l 0 3 (int (length buf)) = Some (int (enc_byte (sg_enc g)))"
    using am_status_loop_ok[OF ok, of ?g l 0 True ?ln] l(2) enc by (auto simp: sg_ok_def)
  have len: "3 \<le> enc_byte (sg_enc g)" "enc_byte (sg_enc g) \<le> length buf" "length (enc_buffer (sg_enc g)) = length buf"
    using g(2) enc by (auto simp: sg_step_def sg_ok_def enc_wf_def enc_pos_def)
  obtain b where b: "am_put_ack_sn e ((ln + 1) mod am_sn_modulus e) (enc_buffer (sg_enc g)) = Inr b"
    "length b = length buf" using am_put_ack_sn_ok[of "enc_buffer (sg_enc g)"] n len(3) by auto
  show ?thesis
    using enc(1) l(1) g(1,3) b len n
    by (simp add: am_generate_status_def am_status_size_def Let_def upd_stats_def tx_part_def rx_part_def
        del: put_fields.simps)
qed

end
