(* ===== verification/RLC_Am_Order.thy ===== *)
theory RLC_Am_Order
  imports RLC_Am_Status
begin

text \<open>
  The state variables of AM reception (38.322 section 7.1) and their order
  \<open>rx_next \<le> rx_highest_status \<le> rx_next_highest \<le> rx_next + window\<close>, which the code relies on and
  never checks. It holds in a new entity, and every operation keeps it. It is what makes the search
  for missing bytes of a STATUS report end.
\<close>

section \<open>Offsets in the window\<close>

lemma am_at_modulus:
  assumes "am_rx_inv e"
  shows "am_modulus_rx e (rx_at (am_rx e) i) = i mod (2 * am_window_size e)"
proof -
  note D = am_rx_invD[OF assms]
  have "0 \<le> rx_at (am_rx e) i" "rx_at (am_rx e) i < am_sn_modulus e" using D by (auto simp: rx_at_def)
  from am_modulus_rx_mod[OF assms this] show ?thesis
    using D by (simp add: rx_at_def mod_diff_left_eq)
qed

lemma am_at_eq:
  assumes "am_rx_inv e"
  shows "rx_at (am_rx e) i = rx_at (am_rx e) j \<longleftrightarrow> i mod (2 * am_window_size e) = j mod (2 * am_window_size e)"
proof
  assume "rx_at (am_rx e) i = rx_at (am_rx e) j"
  then show "i mod (2 * am_window_size e) = j mod (2 * am_window_size e)" using am_at_modulus[OF assms] by metis
next
  assume "i mod (2 * am_window_size e) = j mod (2 * am_window_size e)"
  then show "rx_at (am_rx e) i = rx_at (am_rx e) j"
    using am_rx_invD(3)[OF assms] by (simp add: rx_at_def) (metis mod_add_right_eq)
qed

lemma am_at_eq_small:
  assumes "am_rx_inv e" "0 \<le> i" "i < 2 * am_window_size e" "0 \<le> j" "j < 2 * am_window_size e"
  shows "rx_at (am_rx e) i = rx_at (am_rx e) j \<longleftrightarrow> i = j"
  using am_at_eq[OF assms(1), of i j] assms by simp

lemma am_at_zero: "am_rx_inv e \<Longrightarrow> rx_at (am_rx e) 0 = am_rx_next e"
  using am_rx_invD[of e] by (simp add: rx_at_def)

lemma am_at_plus:
  assumes "am_rx_inv e"
  shows "(rx_at (am_rx e) i + j) mod am_sn_modulus e = rx_at (am_rx e) (i + j)"
  using am_rx_invD[OF assms] by (simp add: rx_at_def mod_add_left_eq add.assoc)

lemma am_at_window:
  assumes "am_rx_inv e" and "0 \<le> k" and "k < am_window_size e"
  shows "sn_in_window (am_rx_next e) (am_window_size e) (rx_at (am_rx e) k)"
  using rx_at_in_window[OF am_rx_invD(2)[OF assms(1)], of k] am_rx_invD(3,4)[OF assms(1)] assms by simp

lemma am_window_at:
  assumes "am_rx_inv e" and "sn_in_window (am_rx_next e) (am_window_size e) sn"
  obtains k where "0 \<le> k" "k < am_window_size e" "sn = rx_at (am_rx e) k"
  using rx_in_window_at[OF am_rx_invD(2)[OF assms(1)], of sn] am_rx_invD(3,4)[OF assms(1)] assms that by auto

definition am_slot :: "nr_rlc_entity_am_t \<Rightarrow> int \<Rightarrow> nr_rlc_pdu_t list" where
  "am_slot e k = nr_rlc_rx_manager_get_pdu_from_sn (am_rx e) (rx_at (am_rx e) k)"

lemma am_slot_wrap: "am_rx_inv e \<Longrightarrow> am_slot e (am_window_size e) = am_slot e 0"
  using rx_lookup_at_wrap[of "am_rx e" 0] am_rx_invD(3)[of e] by (simp add: am_slot_def)

lemma am_slot_delivered: "am_sdu_delivered e (rx_at (am_rx e) k) = pdus_processed (am_slot e k)"
  by (simp add: am_sdu_delivered_def am_slot_def)

lemma pdus_processed_Nil [simp]: "\<not> pdus_processed []"
  by (simp add: pdus_processed_def)

section \<open>The order\<close>

text \<open>
  \<open>h\<close> and \<open>n\<close> are the offsets of \<open>rx_highest_status\<close> and \<open>rx_next_highest\<close> from \<open>rx_next\<close>: nothing
  was received from \<open>rx_next_highest\<close> on, something was received just before it, and neither
  \<open>rx_next\<close> nor \<open>rx_highest_status\<close> is delivered.
\<close>

definition am_win :: "nr_rlc_entity_am_t \<Rightarrow> int \<Rightarrow> int \<Rightarrow> bool" where
  "am_win e h n \<longleftrightarrow> 0 \<le> h \<and> h \<le> n \<and> n \<le> am_window_size e
     \<and> am_rx_highest_status e = rx_at (am_rx e) h \<and> am_rx_next_highest e = rx_at (am_rx e) n
     \<and> (0 < n \<longrightarrow> am_slot e (n - 1) \<noteq> []) \<and> (\<forall>k. n \<le> k \<and> k < am_window_size e \<longrightarrow> am_slot e k = [])
     \<and> \<not> pdus_processed (am_slot e 0) \<and> (h < am_window_size e \<longrightarrow> \<not> pdus_processed (am_slot e h))"

text \<open>While \<open>t_reassembly\<close> runs, its trigger is between \<open>lo\<close> and \<open>rx_next_highest\<close>.\<close>

definition am_trig :: "nr_rlc_entity_am_t \<Rightarrow> int \<Rightarrow> int \<Rightarrow> bool" where
  "am_trig e lo n \<longleftrightarrow> (am_t_reassembly_start e \<noteq> 0 \<longrightarrow>
     (\<exists>t. lo < t \<and> t \<le> n \<and> am_rx_next_status_trigger e = rx_at (am_rx e) t))"

lemma am_trig_mono: "am_trig e lo n \<Longrightarrow> lo' \<le> lo \<Longrightarrow> am_trig e lo' n"
  unfolding am_trig_def by (meson le_less_trans)

definition am_rx_order :: "nr_rlc_entity_am_t \<Rightarrow> bool" where
  "am_rx_order e \<longleftrightarrow> (\<exists>h n. am_win e h n \<and> am_trig e 0 n)"

text \<open>The fields the order reads.\<close>

definition order_part where
  "order_part e = (rx_part e, am_t_reassembly_start e)"

lemma order_part_D:
  assumes "order_part e' = order_part e"
  shows "am_win e' h n = am_win e h n" and "am_trig e' lo n = am_trig e lo n" and "am_rx_inv e' = am_rx_inv e"
proof -
  have p: "rx_part e' = rx_part e" "am_t_reassembly_start e' = am_t_reassembly_start e"
    using assms by (simp_all add: order_part_def)
  show "am_win e' h n = am_win e h n" using p by (simp add: rx_part_def am_win_def am_slot_def)
  show "am_trig e' lo n = am_trig e lo n" using p by (simp add: rx_part_def am_trig_def)
  show "am_rx_inv e' = am_rx_inv e" by (rule am_rx_inv_cong[OF p(1)])
qed

lemma am_rx_order_cong:
  assumes "order_part e' = order_part e"
  shows "am_rx_order e' = am_rx_order e"
  unfolding am_rx_order_def order_part_D(1,2)[OF assms] by (rule refl)

lemma am_win_cong:
  assumes "rx_part e' = rx_part e"
  shows "am_win e' h n = am_win e h n"
  using assms by (simp add: rx_part_def am_win_def am_slot_def)

lemma am_win_report:
  assumes "am_rx_inv e" and "am_sn_field_length e = 12 \<or> am_sn_field_length e = 18" and "am_win e h n"
  shows "am_report_at e h"
  using assms am_rx_invD(6)[OF assms(1)] by (auto simp: am_win_def am_report_at_def am_slot_def)

section \<open>The timer\<close>

lemma am_update_t_reassembly_order:
  assumes inv: "am_rx_inv e" and win: "am_win e h n" and trig: "am_trig e (- am_window_size e) n"
  shows "am_rx_order (am_update_t_reassembly e)"
proof -
  let ?W = "am_window_size e" and ?m = "am_rx e"
  define stop where "stop \<longleftrightarrow> am_rx_next_status_trigger e = am_rx_next e
     \<or> (am_rx_next_status_trigger e = (am_rx_next e + 1) mod am_sn_modulus e
        \<and> \<not> am_sdu_has_missing_bytes e (am_rx_next e))
     \<or> (\<not> am_sn_in_recv_window e (am_rx_next_status_trigger e)
        \<and> am_rx_next_status_trigger e \<noteq> (am_rx_next e + am_window_size e) mod am_sn_modulus e)"
  define e1 where "e1 = (if am_t_reassembly_start e \<noteq> 0 \<and> stop then e\<lparr>am_t_reassembly_start := 0\<rparr> else e)"
  define start where "start \<longleftrightarrow> am_sn_compare_rx e1 (am_rx_next_highest e1) ((am_rx_next e1 + 1) mod am_sn_modulus e) > 0
     \<or> (am_rx_next_highest e1 = (am_rx_next e1 + 1) mod am_sn_modulus e \<and> am_sdu_has_missing_bytes e1 (am_rx_next e1))"
  have upd: "am_update_t_reassembly e = (if am_t_reassembly_start e1 = 0 \<and> start
      then e1\<lparr>am_t_reassembly_start := am_t_current e1, am_rx_next_status_trigger := am_rx_next_highest e1\<rparr> else e1)"
    unfolding am_update_t_reassembly_def Let_def start_def e1_def stop_def by (rule refl)
  have W: "0 < ?W" using am_rx_invD(6)[OF inv] .
  have n: "0 \<le> n" "n \<le> ?W" "am_rx_next_highest e = rx_at ?m n" using win by (auto simp: am_win_def)
  have p1: "rx_part e1 = rx_part e" by (simp add: e1_def rx_part_def)
  have inv1: "am_rx_inv e1" and win1: "am_win e1 h n" using am_rx_inv_cong[OF p1] am_win_cong[OF p1] inv win by auto
  have f1: "am_rx e1 = ?m" "am_rx_next_highest e1 = rx_at ?m n" "am_rx_next e1 = rx_at ?m 0"
    "am_window_size e1 = ?W" "am_sn_modulus e1 = am_sn_modulus e"
    using n am_at_zero[OF inv] by (auto simp: e1_def)
  have running: "0 < t" if "\<not> stop" "- ?W < t" "t \<le> n" "am_rx_next_status_trigger e = rx_at ?m t" for t
  proof (rule ccontr)
    assume neg: "\<not> 0 < t"
    have "t \<noteq> 0" using that(1,4) am_at_zero[OF inv] by (auto simp: stop_def)
    then have "(t + 2 * ?W) mod (2 * ?W) = t + 2 * ?W" using neg that(2) by (intro mod_pos_pos_trivial) auto
    then have t: "t mod (2 * ?W) = t + 2 * ?W" by simp
    then have "\<not> am_sn_in_recv_window e (rx_at ?m t)"
      using am_at_modulus[OF inv, of t] that(2) by (simp add: am_sn_in_recv_window_def)
    moreover have "rx_at ?m t \<noteq> rx_at ?m ?W" using am_at_eq[OF inv, of t ?W] t that(2) W by simp
    ultimately show False
      using that(1,4) am_at_plus[OF inv, of 0 ?W] am_at_zero[OF inv] by (simp add: stop_def)
  qed
  have trig1: "am_trig e1 0 n"
    using trig running f1(1) by (auto simp: am_trig_def e1_def)
  show ?thesis
  proof (cases "am_t_reassembly_start e1 = 0 \<and> start")
    case True
    have "n \<noteq> 0"
    proof
      assume "n = 0"
      then have "am_sn_compare_rx e1 (am_rx_next_highest e1) ((am_rx_next e1 + 1) mod am_sn_modulus e) \<le> 0"
        "am_rx_next_highest e1 \<noteq> (am_rx_next e1 + 1) mod am_sn_modulus e"
        using am_at_plus[OF inv1, of 0 1] am_at_modulus[OF inv1, of 0] am_at_modulus[OF inv1, of 1] f1 W
          am_at_eq_small[OF inv1, of 0 1] by (auto simp: am_sn_compare_rx_def)
      then show False using True by (simp add: start_def)
    qed
    let ?e = "e1\<lparr>am_t_reassembly_start := am_t_current e1, am_rx_next_status_trigger := am_rx_next_highest e1\<rparr>"
    have "am_win ?e h n" using win1 by (simp add: am_win_def am_slot_def)
    moreover have "am_trig ?e 0 n" using \<open>n \<noteq> 0\<close> n(1) f1(1,2) by (auto simp: am_trig_def intro!: exI[of _ n])
    ultimately show ?thesis using upd True by (auto simp: am_rx_order_def)
  next
    case False
    then have "am_update_t_reassembly e = e1" using upd by (simp only: if_False)
    then show ?thesis using win1 trig1 by (auto simp: am_rx_order_def)
  qed
qed

section \<open>Storing a segment\<close>

lemma rx_at_add [simp]: "rx_at (nr_rlc_rx_manager_add_pdu m p) = rx_at m"
  by (simp add: fun_eq_iff rx_at_def nr_rlc_rx_manager_add_pdu_def Let_def)

lemma rx_at_map [simp]: "rx_at (rx_manager_map_pdus f m sn) = rx_at m"
  by (simp add: fun_eq_iff rx_at_def rx_manager_map_pdus_def Let_def)

definition am_see_sn :: "int \<Rightarrow> nr_rlc_entity_am_t \<Rightarrow> nr_rlc_entity_am_t" where
  "am_see_sn x e = (if am_sn_compare_rx e x (am_rx_next_highest e) \<ge> 0
     then e\<lparr>am_rx_next_highest := (x + 1) mod am_sn_modulus e\<rparr> else e)"

lemma am_see_sn_frame:
  "am_rx (am_see_sn x e) = am_rx e" "am_window_size (am_see_sn x e) = am_window_size e"
  "am_rx_highest_status (am_see_sn x e) = am_rx_highest_status e" "am_rx_next (am_see_sn x e) = am_rx_next e"
  "am_t_reassembly_start (am_see_sn x e) = am_t_reassembly_start e"
  "am_rx_next_status_trigger (am_see_sn x e) = am_rx_next_status_trigger e" "events (am_see_sn x e) = events e"
  by (simp_all add: am_see_sn_def)

lemma am_see_sn_inv: "am_rx_inv e \<Longrightarrow> am_rx_inv (am_see_sn x e)"
  by (auto simp: am_see_sn_def am_rx_inv_def)

lemma am_stored_slot:
  assumes "am_rx_inv e" and "0 \<le> x" "x < am_window_size e" "pdu_sn p = rx_at (am_rx e) x"
    and "0 \<le> k" "k < am_window_size e"
  shows "am_slot (am_stored e p) k = (if k = x then ins_by_so p (am_slot e x) else am_slot e k)"
proof -
  have "rx_at (am_rx e) k = pdu_sn p \<longleftrightarrow> k = x"
    using am_at_eq_small[OF assms(1), of k x] assms by simp
  then show ?thesis
    using am_store_lookup[OF assms(1), of p "rx_at (am_rx e) k"] am_at_window[OF assms(1)] assms
    by (simp add: am_slot_def am_stored_def)
qed

lemma am_store_order:
  assumes inv: "am_rx_inv e" and win: "am_win e h n" and trig: "am_trig e 0 n"
    and x: "0 \<le> x" "x < am_window_size e" "pdu_sn p = rx_at (am_rx e) x" and p: "0 \<le> pdu_so p" "pdu_data p \<noteq> None"
    and inv1: "am_rx_inv (am_stored e p)"
  defines "e1 \<equiv> am_see_sn (pdu_sn p) (am_stored e p)"
  shows "am_win e1 h (max n (x + 1))" and "am_trig e1 0 (max n (x + 1))"
proof -
  let ?W = "am_window_size e" and ?m = "am_rx e"
  have w: "0 \<le> h" "h \<le> n" "n \<le> ?W" "am_rx_highest_status e = rx_at ?m h" "am_rx_next_highest e = rx_at ?m n"
    "0 < n \<longrightarrow> am_slot e (n - 1) \<noteq> []" "\<forall>k. n \<le> k \<and> k < ?W \<longrightarrow> am_slot e k = []"
    "\<not> pdus_processed (am_slot e 0)" "h < ?W \<longrightarrow> \<not> pdus_processed (am_slot e h)"
    using win by (auto simp: am_win_def)
  have slot: "am_slot e1 k = (if k = x then ins_by_so p (am_slot e x) else am_slot e k)" if "0 \<le> k" "k < ?W" for k
    using am_stored_slot[OF inv x that] by (simp add: e1_def am_slot_def am_see_sn_frame)
  have at: "am_rx e1 = nr_rlc_rx_manager_add_pdu ?m p" "am_window_size e1 = ?W" "am_rx_highest_status e1 = rx_at ?m h"
    using w(4) by (simp_all add: e1_def am_see_sn_frame am_stored_def)
  have proc: "pdus_processed (am_slot e1 k) = pdus_processed (am_slot e k)" if "0 \<le> k" "k < ?W" for k
    using slot[OF that] pdus_processed_insert[OF rxm_okD(2)[OF am_rx_invD(1)[OF inv]] p, of "rx_at ?m x"]
    by (simp add: am_slot_def)
  have "am_sn_compare_rx (am_stored e p) (pdu_sn p) (am_rx_next_highest (am_stored e p)) = x - n"
    using am_at_modulus[OF inv1] x w by (simp add: am_sn_compare_rx_def am_stored_def)
  then have "am_rx_next_highest e1 = (if n \<le> x then rx_at ?m (x + 1) else rx_at ?m n)"
    using am_at_plus[OF inv, of x 1] x(3) w(5) by (simp add: e1_def am_see_sn_def am_stored_def)
  moreover have "max n (x + 1) = (if n \<le> x then x + 1 else n)" by (simp add: max_def)
  ultimately have nh: "am_rx_next_highest e1 = rx_at ?m (max n (x + 1))" by (simp split: if_splits)
  have ne: "am_slot e1 k \<noteq> []" if "0 \<le> k" "k < ?W" "k = x \<or> am_slot e k \<noteq> []" for k
    using slot[OF that(1,2)] that(3) by (auto simp: ins_by_so_def)
  show "am_win e1 h (max n (x + 1))"
    unfolding am_win_def at(2)
  proof (intro conjI impI allI)
    show "am_slot e1 (max n (x + 1) - 1) \<noteq> []"
      using ne[of "max n (x + 1) - 1"] x w by (auto simp: max_def)
    show "am_slot e1 k = []" if "max n (x + 1) \<le> k \<and> k < ?W" for k
      using slot[of k] w(7) that x by auto
    show "\<not> pdus_processed (am_slot e1 0)" using proc[of 0] w(8) x by simp
    show "\<not> pdus_processed (am_slot e1 h)" if "h < ?W" using proc[of h] w(1,9) that by simp
  qed (use w x at nh in auto)
  show "am_trig e1 0 (max n (x + 1))"
    using trig by (force simp: am_trig_def e1_def am_see_sn_frame am_stored_def)
qed

section \<open>After a delivery\<close>

lemma am_skip_at:
  assumes inv: "am_rx_inv e" and i: "0 \<le> i" "i \<le> j" "\<not> pdus_processed (am_slot e j)"
  shows "\<exists>k. i \<le> k \<and> k \<le> j \<and> am_skip_delivered e (rx_at (am_rx e) i) = Some (rx_at (am_rx e) k)
    \<and> \<not> pdus_processed (am_slot e k)"
proof -
  note D = am_rx_invD[OF inv]
  have r: "0 \<le> rx_at (am_rx e) i" "rx_at (am_rx e) i < am_sn_modulus e" using D by (auto simp: rx_at_def)
  have at: "(rx_at (am_rx e) i + int n) mod am_sn_modulus e = rx_at (am_rx e) (i + int n)" for n
    by (rule am_at_plus[OF inv])
  have "\<not> am_sdu_delivered e ((rx_at (am_rx e) i + int (nat (j - i))) mod am_sn_modulus e)"
    using i unfolding at am_slot_delivered by simp
  from skip_while_Some[where b = "am_sdu_delivered e", OF r this] obtain n where n: "n \<le> nat (j - i)"
    "am_skip_delivered e (rx_at (am_rx e) i) = Some (rx_at (am_rx e) (i + int n))"
    "\<not> pdus_processed (am_slot e (i + int n))"
    unfolding at am_slot_delivered am_skip_delivered_def by blast
  then show ?thesis using i by (intro exI[of _ "i + int n"]) auto
qed

text \<open>
  Right after the SDU at offset \<open>x\<close> was delivered: the order still holds but for \<open>x\<close> itself, which
  may be the first SN of the window or \<open>rx_highest_status\<close>.
\<close>

definition am_win_at :: "nr_rlc_entity_am_t \<Rightarrow> int \<Rightarrow> int \<Rightarrow> int \<Rightarrow> bool" where
  "am_win_at e h n x \<longleftrightarrow> 0 \<le> x \<and> x < n \<and> 0 \<le> h \<and> h \<le> n \<and> n \<le> am_window_size e
     \<and> am_rx_highest_status e = rx_at (am_rx e) h \<and> am_rx_next_highest e = rx_at (am_rx e) n
     \<and> am_slot e (n - 1) \<noteq> [] \<and> (\<forall>k. n \<le> k \<and> k < am_window_size e \<longrightarrow> am_slot e k = [])
     \<and> (x \<noteq> 0 \<longrightarrow> \<not> pdus_processed (am_slot e 0))
     \<and> (h < am_window_size e \<longrightarrow> h \<noteq> x \<longrightarrow> \<not> pdus_processed (am_slot e h))"

lemma am_skip_highest:
  assumes inv: "am_rx_inv e" and win: "am_win_at e x n x"
    and sk: "am_skip_delivered e (rx_at (am_rx e) x) = Some sn"
  shows "\<exists>h'. 0 \<le> h' \<and> h' \<le> n \<and> sn = rx_at (am_rx e) h' \<and> (h' < am_window_size e \<longrightarrow> \<not> pdus_processed (am_slot e h'))"
proof -
  have x: "0 \<le> x" "x < n" "n \<le> am_window_size e" using win by (auto simp: am_win_at_def)
  have "\<exists>j. x \<le> j \<and> j \<le> n \<and> \<not> pdus_processed (am_slot e j)"
  proof (cases "n < am_window_size e \<or> x \<noteq> 0")
    case True
    then have "\<not> pdus_processed (am_slot e n)"
      using win am_slot_wrap[OF inv] x by (cases "n < am_window_size e") (auto simp: am_win_at_def)
    then show ?thesis using x by (intro exI[of _ n]) simp
  next
    case False
    then have n: "n = am_window_size e" "x = 0" using x by auto
    have "\<not> (\<forall>k. 0 \<le> k \<and> k < am_window_size e \<longrightarrow> pdus_processed (am_slot e k))"
    proof
      assume "\<forall>k. 0 \<le> k \<and> k < am_window_size e \<longrightarrow> pdus_processed (am_slot e k)"
      then have "am_skip_delivered e (rx_at (am_rx e) x) = None"
        using am_skip_delivered_cases(2)[OF am_rx_invD(2)[OF inv], of "rx_at (am_rx e) x"] am_rx_invD[OF inv]
        by (auto simp: am_slot_delivered rx_at_def[of _ x])
      then show False using sk by simp
    qed
    then show ?thesis using n by auto
  qed
  then obtain j where j: "x \<le> j" "j \<le> n" "\<not> pdus_processed (am_slot e j)" by blast
  from am_skip_at[OF inv x(1) j(1,3)] obtain k where "x \<le> k" "k \<le> j"
    "am_skip_delivered e (rx_at (am_rx e) x) = Some (rx_at (am_rx e) k)" "\<not> pdus_processed (am_slot e k)" by blast
  then show ?thesis using j(2) sk x(1) by (intro exI[of _ k]) simp
qed

lemma am_drain_slot:
  assumes inv: "am_rx_inv e" and d: "int d \<le> am_window_size e" and k: "0 \<le> k" "k < am_window_size e"
    and e': "am_rx e' = rxm_move (rxm.clear_first (am_rx e) d) (int d)"
  shows "am_slot e' k = (if int d + k < am_window_size e then am_slot e (int d + k) else [])"
    and "rx_at (am_rx e') i = rx_at (am_rx e) (int d + i)"
proof -
  note D = am_rx_invD[OF inv]
  have n: "int d \<le> rxm_size (am_rx e)" using d D(3) by simp
  show "rx_at (am_rx e') i = rx_at (am_rx e) (int d + i)" for i
    unfolding e' using rx_at_move(4)[OF D(2) n] .
  then show "am_slot e' k = (if int d + k < am_window_size e then am_slot e (int d + k) else [])"
    using rxm_drain_lookup[OF D(2) n, of k] k D(3) by (simp add: am_slot_def e')
qed

text \<open>Moving the window over what is delivered at its head.\<close>

lemma am_advance_order:
  assumes inv: "am_rx_inv e" and trig: "am_trig e 0 n" and adv: "am_advance_rx_next e = Inr e'"
    and w: "0 \<le> h" "h \<le> n" "n \<le> am_window_size e" "am_rx_highest_status e = rx_at (am_rx e) h"
      "am_rx_next_highest e = rx_at (am_rx e) n" "am_slot e (n - 1) \<noteq> []"
      "\<And>k. n \<le> k \<Longrightarrow> k < am_window_size e \<Longrightarrow> am_slot e k = []"
      "h < am_window_size e \<Longrightarrow> \<not> pdus_processed (am_slot e h)"
  shows "\<exists>h' n'. am_win e' h' n' \<and> am_trig e' (- am_window_size e') n'"
proof -
  let ?W = "am_window_size e" and ?m = "am_rx e"
  obtain d where d: "int d \<le> ?W" "\<forall>k < d. pdus_processed (am_slot e (int k))"
    "int d < ?W \<longrightarrow> \<not> pdus_processed (am_slot e (int d))"
    "e' = e\<lparr>am_rx_next := rx_at ?m (int d), am_rx := rxm_move (rxm.clear_first ?m d) (int d)\<rparr>"
    using am_advance_rx_next_step[OF inv] adv by (auto simp: am_slot_delivered)
  have dh: "int d \<le> h"
  proof (rule ccontr)
    assume "\<not> int d \<le> h"
    then have "nat h < d" "h < ?W" using w(1) d(1) by auto
    then show False using d(2) w(1,8) by (metis int_nat_eq)
  qed
  have at: "rx_at (am_rx e') i = rx_at ?m (int d + i)" for i
    using am_drain_slot(2)[OF inv d(1), of 0 e' i] d(4) am_rx_invD(6)[OF inv] by simp
  have slot: "am_slot e' k = (if int d + k < ?W then am_slot e (int d + k) else [])" if "0 \<le> k" "k < ?W" for k
    using am_drain_slot(1)[OF inv d(1) that, of e'] d(4) by simp
  have f: "am_rx_highest_status e' = rx_at (am_rx e') (h - int d)"
    "am_rx_next_highest e' = rx_at (am_rx e') (n - int d)" "am_window_size e' = ?W"
    unfolding at using d(4) w(4,5) by simp_all
  have "am_win e' (h - int d) (n - int d)"
    unfolding am_win_def f(3)
  proof (intro conjI impI allI)
    show "am_slot e' (n - int d - 1) \<noteq> []" if "0 < n - int d"
      using slot[of "n - int d - 1"] that w(2,3,6) dh by simp
    show "am_slot e' k = []" if "n - int d \<le> k \<and> k < ?W" for k
      using slot[of k] that w(2) w(7)[of "int d + k"] dh by auto
    show "\<not> pdus_processed (am_slot e' 0)" using slot[of 0] d(3) am_rx_invD(6)[OF inv] by simp
    show "\<not> pdus_processed (am_slot e' (h - int d))" if "h - int d < ?W"
      using slot[of "h - int d"] that w(8) dh by auto
  qed (use dh w f in auto)
  moreover have "am_trig e' (- ?W) (n - int d)"
  proof -
    have "\<exists>s. - ?W < s \<and> s \<le> n - int d \<and> rx_at ?m t = rx_at (am_rx e') s" if "0 < t" "t \<le> n" for t
      using that d(1) unfolding at by (intro exI[of _ "t - int d"]) simp
    then show ?thesis using trig d(4) by (auto simp: am_trig_def)
  qed
  ultimately show ?thesis using f(3) by auto
qed

lemma am_after_delivery_order:
  assumes inv: "am_rx_inv e" and win: "am_win_at e h n x" and trig: "am_trig e 0 n"
    and res: "am_after_delivery e (rx_at (am_rx e) x) = Inr e'"
  shows "\<exists>h' n'. am_win e' h' n' \<and> am_trig e' (- am_window_size e') n'"
proof -
  let ?x = "rx_at (am_rx e) x"
  have w: "0 \<le> x" "x < n" "0 \<le> h" "h \<le> n" "n \<le> am_window_size e" "am_rx_highest_status e = rx_at (am_rx e) h"
      "am_rx_next_highest e = rx_at (am_rx e) n" "am_slot e (n - 1) \<noteq> []"
      "\<And>k. n \<le> k \<Longrightarrow> k < am_window_size e \<Longrightarrow> am_slot e k = []"
      "x \<noteq> 0 \<Longrightarrow> \<not> pdus_processed (am_slot e 0)"
      "h < am_window_size e \<Longrightarrow> h \<noteq> x \<Longrightarrow> \<not> pdus_processed (am_slot e h)"
    using win by (auto simp: am_win_at_def)
  have xh: "?x = am_rx_highest_status e \<longleftrightarrow> x = h" and x0: "?x = am_rx_next e \<longleftrightarrow> x = 0"
    using am_at_eq_small[OF inv, of x h] am_at_eq_small[OF inv, of x 0] am_at_zero[OF inv] w by auto
  obtain h1 where h1: "0 \<le> h1" "h1 \<le> n" "h1 < am_window_size e \<longrightarrow> \<not> pdus_processed (am_slot e h1)"
    "(if x = 0 then am_advance_rx_next (e\<lparr>am_rx_highest_status := rx_at (am_rx e) h1\<rparr>)
      else Inr (e\<lparr>am_rx_highest_status := rx_at (am_rx e) h1\<rparr>)) = Inr e'"
  proof (cases "x = h")
    case True
    then obtain sn where sn: "am_skip_delivered e ?x = Some sn"
      using res xh by (auto simp: am_after_delivery_def split: option.splits)
    from am_skip_highest[OF inv _ this] win True obtain h' where h': "0 \<le> h'" "h' \<le> n"
      "sn = rx_at (am_rx e) h'" "h' < am_window_size e \<longrightarrow> \<not> pdus_processed (am_slot e h')" by auto
    show ?thesis using that[OF h'(1,2,4)] res xh x0 sn h'(3) True by (simp add: am_after_delivery_def)
  next
    case False
    have same: "e\<lparr>am_rx_highest_status := rx_at (am_rx e) h\<rparr> = e" using w(6) by simp
    have "(if x = 0 then am_advance_rx_next e else Inr e) = Inr e'"
      using False res xh x0 by (simp add: am_after_delivery_def)
    then show ?thesis using that[of h, unfolded same] w(3,4,11) False by blast
  qed
  let ?e1 = "e\<lparr>am_rx_highest_status := rx_at (am_rx e) h1\<rparr>"
  have inv1: "am_rx_inv ?e1"
    using inv am_rx_invD[OF inv] by (simp add: am_rx_inv_def rx_at_def)
  have slot1: "am_slot ?e1 = am_slot e" by (simp add: fun_eq_iff am_slot_def)
  have trig1: "am_trig ?e1 0 n" using trig by (simp add: am_trig_def)
  show ?thesis
  proof (cases "x = 0")
    case True
    then have "am_advance_rx_next ?e1 = Inr e'" using h1(4) by simp
    from am_advance_order[OF inv1 trig1 this, of h1] show ?thesis using h1 w slot1 by auto
  next
    case False
    then have e': "e' = ?e1" using h1(4) by simp
    have "am_win ?e1 h1 n" using h1(1-3) w(2-10) False by (simp add: am_win_def slot1)
    moreover have "am_trig ?e1 (- am_window_size ?e1) n"
      using am_rx_invD(6)[OF inv] by (intro am_trig_mono[OF trig1]) simp
    ultimately show ?thesis using e' by blast
  qed
qed

section \<open>Every operation keeps the order\<close>

lemma am_deliver_frame:
  assumes "am_reassemble_and_deliver e sn = Inr e'"
  shows "am_rx e' = rx_manager_map_pdus mark_delivered (am_rx e) sn" and "am_window_size e' = am_window_size e"
    and "am_rx_highest_status e' = am_rx_highest_status e" and "am_rx_next_highest e' = am_rx_next_highest e"
    and "am_rx_next_status_trigger e' = am_rx_next_status_trigger e" "am_t_reassembly_start e' = am_t_reassembly_start e"
proof -
  have eq: "(\<lambda>p. p\<lparr>pdu_data := None\<rparr>) = mark_delivered" by (simp add: fun_eq_iff mark_delivered_def)
  show "am_rx e' = rx_manager_map_pdus mark_delivered (am_rx e) sn" "am_window_size e' = am_window_size e"
    "am_rx_highest_status e' = am_rx_highest_status e" "am_rx_next_highest e' = am_rx_next_highest e"
    "am_rx_next_status_trigger e' = am_rx_next_status_trigger e" "am_t_reassembly_start e' = am_t_reassembly_start e"
    using assms unfolding am_reassemble_and_deliver_def eq
    by (auto simp: bindE_eq_Inr Let_def upd_stats_def emit_def split: if_splits)
qed

lemma am_deliver_slot:
  assumes inv: "am_rx_inv e" and x: "0 \<le> x" "x < am_window_size e"
    and e': "am_rx e' = rx_manager_map_pdus mark_delivered (am_rx e) (rx_at (am_rx e) x)"
    and k: "0 \<le> k" "k < am_window_size e"
  shows "am_slot e' k = (if k = x then map mark_delivered (am_slot e x) else am_slot e k)"
proof -
  have "rx_at (am_rx e) k = rx_at (am_rx e) x \<longleftrightarrow> k = x" using am_at_eq_small[OF inv, of k x] x k by simp
  then show ?thesis
    using rxm.touch_lookup[OF am_rx_invD(2)[OF inv], of "rx_at (am_rx e) x" "rx_at (am_rx e) k" mark_delivered]
      am_at_window[OF inv] am_rx_invD(3,4)[OF inv] x k
    by (simp add: am_slot_def e')
qed

lemma am_reception_order:
  assumes inv: "am_rx_inv e" and win: "am_win e h n" and trig: "am_trig e 0 n"
    and x: "0 \<le> x" "x < am_window_size e" "pdu_sn p = rx_at (am_rx e) x" and p: "0 \<le> pdu_so p" "pdu_data p \<noteq> None"
    and inv1: "am_rx_inv (am_stored e p)" and res: "am_reception_actions (am_stored e p) p = Inr e'"
  shows "am_rx_order e'"
proof -
  define e1 where "e1 = am_see_sn (pdu_sn p) (am_stored e p)"
  let ?n = "max n (x + 1)" and ?x = "pdu_sn p"
  have inv1: "am_rx_inv e1" unfolding e1_def by (rule am_see_sn_inv[OF inv1])
  note st = am_store_order[OF inv win trig x p assms(9), folded e1_def]
  have W: "am_window_size e1 = am_window_size e" and xe: "?x = rx_at (am_rx e1) x"
    using x(3) by (simp_all add: e1_def am_see_sn_frame am_stored_def)
  obtain e2 where e2: "(if am_sdu_full e1 ?x then bindE (am_reassemble_and_deliver e1 ?x) (\<lambda>e. am_after_delivery e ?x)
      else Inr e1) = Inr e2" "e' = am_update_t_reassembly e2"
    using res unfolding am_reception_actions_eq Let_def am_see_sn_def[symmetric] e1_def[symmetric]
    by (auto simp: bindE_eq_Inr)
  show ?thesis
  proof (cases "am_sdu_full e1 ?x")
    case False
    then have "e2 = e1" using e2(1) by simp
    moreover have "am_trig e1 (- am_window_size e1) ?n"
      using am_rx_invD(6)[OF inv1] by (intro am_trig_mono[OF st(2)]) simp
    ultimately show ?thesis using e2(2) am_update_t_reassembly_order[OF inv1 st(1)] by simp
  next
    case full: True
    then obtain e3 where e3: "am_reassemble_and_deliver e1 ?x = Inr e3" "am_after_delivery e3 ?x = Inr e2"
      using e2(1) by (auto simp: bindE_eq_Inr)
    have winx: "sn_in_window (am_rx_next e1) (am_window_size e1) ?x"
      unfolding xe using am_at_window[OF inv1 x(1)] x(2) W by simp
    have inv3: "am_rx_inv e3" using am_deliver_step[OF inv1 winx full] e3(1) by auto
    note fr = am_deliver_frame[OF e3(1)]
    have at: "rx_at (am_rx e3) = rx_at (am_rx e1)" unfolding fr(1) by simp
    have slot: "am_slot e3 k = (if k = x then map mark_delivered (am_slot e1 x) else am_slot e1 k)"
      if "0 \<le> k" "k < am_window_size e1" for k
      using am_deliver_slot[OF inv1 _ _ _ that, of x e3] x W fr(1) xe by simp
    have "am_win_at e3 h ?n x"
      unfolding am_win_at_def fr(2)
    proof (intro conjI impI allI)
      have "0 \<le> ?n - 1" "?n - 1 < am_window_size e1" "am_slot e1 (?n - 1) \<noteq> []"
        using st(1) x(1) by (auto simp: am_win_def)
      then show "am_slot e3 (?n - 1) \<noteq> []" using slot[of "?n - 1"] by (auto split: if_splits)
      show "am_slot e3 k = []" if "?n \<le> k \<and> k < am_window_size e1" for k
        using slot[of k] st(1) x(1) that by (auto simp: am_win_def)
      show "\<not> pdus_processed (am_slot e3 0)" if "x \<noteq> 0"
        using slot[of 0] st(1) that x W by (simp add: am_win_def)
      show "\<not> pdus_processed (am_slot e3 h)" if "h < am_window_size e1" "h \<noteq> x"
        using slot[of h] st(1) that by (simp add: am_win_def)
    qed (use st(1) x fr at in \<open>auto simp: am_win_def\<close>)
    moreover have "am_trig e3 0 ?n" using st(2) fr at by (simp add: am_trig_def)
    moreover have "am_after_delivery e3 (rx_at (am_rx e3) x) = Inr e2" using e3(2) xe at by simp
    ultimately obtain h' n' where w2: "am_win e2 h' n'" "am_trig e2 (- am_window_size e2) n'"
      using am_after_delivery_order[OF inv3] by blast
    have "am_rx_inv e2" using am_after_delivery_cases[OF inv3, of ?x] e3(2) by auto
    then show ?thesis using am_update_t_reassembly_order[OF _ w2] e2(2) by simp
  qed
qed

definition am_order_post :: "nr_rlc_entity_am_t res \<Rightarrow> bool" where
  "am_order_post r \<longleftrightarrow> (\<forall>e'. r = Inr e' \<longrightarrow> am_rx_order e')"

lemma am_order_post_discard:
  "am_rx_order e \<Longrightarrow> order_part e1 = order_part e \<Longrightarrow> am_order_post (am_discard p n e1)"
proof -
  assume a: "am_rx_order e" "order_part e1 = order_part e"
  have "order_part (upd_stats (count_rxpdu_dd n) (if p \<noteq> 0 then e1\<lparr>am_status_triggered := True\<rparr> else e1)) = order_part e"
    using a(2) by (simp add: order_part_def rx_part_def upd_stats_def)
  from am_rx_order_cong[OF this] a(1) show ?thesis by (simp add: am_order_post_def am_discard_def)
qed

lemma am_recv_data_order:
  assumes inv: "am_rx_inv e" and ord: "am_rx_order e" and sn: "0 \<le> sn" "sn < am_sn_modulus e" and so: "0 \<le> so"
  shows "am_order_post (am_recv_data e buf hdr p is_first is_last sn so)"
proof (cases "int (length buf) - int hdr \<le> 0 \<or> am_rx_size e + (int (length buf) - int hdr) > am_rx_maxsize e
    \<or> \<not> am_sn_in_recv_window e sn \<or> am_segment_already_received e sn so (int (length buf) - int hdr)")
  case True
  then show ?thesis
    using am_order_post_discard[OF ord]
    by (auto simp: am_recv_data_def Let_def order_part_def rx_part_def upd_stats_def)
next
  case False
  let ?p = "nr_rlc_new_pdu sn so is_first is_last (drop hdr buf)"
  have win: "sn_in_window (am_rx_next e) (am_window_size e) sn"
    using False am_recv_window_iff[OF inv sn] am_rx_invD[OF inv] by simp
  have p: "pdu_sn ?p = sn" "0 \<le> pdu_so ?p" "pdu_data ?p \<noteq> None"
    using so by (simp_all add: nr_rlc_new_pdu_def)
  have inv': "am_rx_inv (am_stored e ?p)"
    using am_store_pdu[OF inv, of ?p "drop hdr buf"] win False so by (simp add: nr_rlc_new_pdu_def am_stored_def)
  obtain h n where w: "am_win e h n" "am_trig e 0 n" using ord by (auto simp: am_rx_order_def)
  obtain x where x: "0 \<le> x" "x < am_window_size e" "sn = rx_at (am_rx e) x" using am_window_at[OF inv win] by blast
  have "am_rx_order e'" if r: "am_recv_data e buf hdr p is_first is_last sn so = Inr e'" for e'
  proof -
    obtain e1 where e1: "am_reception_actions (am_stored e ?p) ?p = Inr e1" "order_part e' = order_part e1"
      using r am_recv_data_stored[OF inv win] False
      by (auto simp: Let_def bindE_eq_Inr order_part_def rx_part_def)
    show ?thesis
      using am_reception_order[OF inv w x(1,2) _ p(2,3) inv' e1(1)] x(3) p(1) am_rx_order_cong[OF e1(2)] by simp
  qed
  then show ?thesis by (simp add: am_order_post_def)
qed

lemma am_process_control_order:
  assumes "am_sn_field_length e \<le> 31" and "am_rx_order e"
  shows "am_order_post (am_process_control_pdu e buf)"
proof -
  obtain r where r: "am_decode_control e buf = Inr r" using am_decode_control_total[OF assms(1)] by blast
  have "rx_view e' = rx_view e" if "am_process_control_pdu e buf = Inr e'" for e'
    using that r rx_view_status by (auto simp: am_process_control_pdu_def split: option.splits if_splits)
  then have "order_part e' = order_part e" if "am_process_control_pdu e buf = Inr e'" for e'
    using that by (simp add: rx_view_def order_part_def)
  then show ?thesis using am_rx_order_cong assms(2) unfolding am_order_post_def by blast
qed

lemma am_recv_pdu_order:
  assumes "am_rx_inv e" and "am_rx_order e"
  shows "am_order_post (nr_rlc_entity_am_recv_pdu e buf)"
proof -
  let ?e = "upd_stats (count_rxpdu (int (length buf))) e" and ?P = am_order_post
  have part: "order_part ?e = order_part e" by (simp add: order_part_def rx_part_def upd_stats_def)
  note inv = order_part_D(3)[OF part, THEN iffD2, OF assms(1)]
    and ord = am_rx_order_cong[OF part, THEN iffD2, OF assms(2)]
  have len: "am_sn_field_length ?e \<le> 31" "am_sn_modulus ?e = 2 ^ am_sn_field_length ?e"
    using inv by (simp_all add: am_rx_inv_def)
  have disc: "?P (am_discard p (int (length buf)) ?e)" for p
    using am_order_post_discard[OF assms(2) part] .
  have data: "?P (am_recv_data ?e buf h p f l sn so)" if "0 \<le> sn" "sn < 2 ^ am_sn_field_length ?e" "0 \<le> so" for h p f l sn so
    using am_recv_data_order[OF inv ord] that len by simp
  note ctl = am_process_control_order[OF len(1) ord]
  show ?thesis
    unfolding nr_rlc_entity_am_recv_pdu_def Let_def
    by (intro get_bits_R_rule[where P = ?P])
      (use len disc data ctl in \<open>auto intro!: get_bits_R_rule[where P = ?P]\<close>)
qed

text \<open>The expiry of \<open>t_reassembly\<close>: with the order, its loop always ends.\<close>

lemma am_check_t_reassembly_order:
  assumes inv: "am_rx_inv e" and ord: "am_rx_order e"
  shows "\<exists>e'. am_check_t_reassembly e = Inr e' \<and> am_rx_inv e' \<and> am_rx_order e'"
proof (cases "am_t_reassembly_start e = 0
    \<or> am_t_current e \<le> am_t_reassembly_start e + word_of_int (am_t_reassembly e)")
  case True
  then show ?thesis using inv ord by (simp add: am_check_t_reassembly_def)
next
  case run: False
  let ?W = "am_window_size e" and ?m = "am_rx e"
  obtain h n t where w: "am_win e h n" and t: "0 < t" "t \<le> n" "am_rx_next_status_trigger e = rx_at ?m t"
    using ord run by (auto simp: am_rx_order_def am_trig_def)
  have "\<not> pdus_processed (am_slot e n)"
    using w am_slot_wrap[OF inv] by (cases "n < ?W") (auto simp: am_win_def)
  then obtain k where k: "t \<le> k" "k \<le> n" "am_skip_delivered e (rx_at ?m t) = Some (rx_at ?m k)"
    "\<not> pdus_processed (am_slot e k)" using am_skip_at[OF inv _ t(2)] t(1) by auto
  let ?e0 = "e\<lparr>am_t_reassembly_start := 0\<rparr>"
  let ?e1 = "e\<lparr>am_t_reassembly_start := 0, am_rx_highest_status := rx_at ?m k, am_status_triggered := True\<rparr>"
  have skip: "am_skip_delivered ?e0 = am_skip_delivered e"
    by (simp add: fun_eq_iff am_skip_delivered_def am_sdu_delivered_def)
  define b where "b \<longleftrightarrow> am_sn_compare_rx ?e1 (am_rx_next_highest e) ((rx_at ?m k + 1) mod am_sn_modulus e) > 0
     \<or> (am_rx_next_highest e = (rx_at ?m k + 1) mod am_sn_modulus e \<and> am_sdu_has_missing_bytes ?e1 (rx_at ?m k))"
  have res: "am_check_t_reassembly e = Inr (if b then ?e1\<lparr>am_t_reassembly_start := am_t_current e,
      am_rx_next_status_trigger := am_rx_next_highest e\<rparr> else ?e1)"
    using run k(3) t(3) skip by (simp add: am_check_t_reassembly_def Let_def b_def)
  have r: "0 \<le> rx_at ?m i" "rx_at ?m i < am_sn_modulus e" for i using am_rx_invD[OF inv] by (auto simp: rx_at_def)
  have slot: "am_slot (if b then ?e1\<lparr>am_t_reassembly_start := am_t_current e,
      am_rx_next_status_trigger := am_rx_next_highest e\<rparr> else ?e1) = am_slot e" by (simp add: fun_eq_iff am_slot_def)
  have "am_win (if b then ?e1\<lparr>am_t_reassembly_start := am_t_current e,
      am_rx_next_status_trigger := am_rx_next_highest e\<rparr> else ?e1) k n"
    unfolding am_win_def slot using w k(1,2,4) t(1) by (simp add: am_win_def)
  moreover have "am_trig (if b then ?e1\<lparr>am_t_reassembly_start := am_t_current e,
      am_rx_next_status_trigger := am_rx_next_highest e\<rparr> else ?e1) 0 n"
    using w t(1,2) by (auto simp: am_trig_def am_win_def intro!: exI[of _ n])
  moreover have "am_rx_inv (if b then ?e1\<lparr>am_t_reassembly_start := am_t_current e,
      am_rx_next_status_trigger := am_rx_next_highest e\<rparr> else ?e1)"
    using inv r by (simp add: am_rx_inv_def)
  ultimately show ?thesis unfolding res am_rx_order_def by blast
qed

text \<open>A new or re-established entity.\<close>

lemma am_fresh_order:
  assumes "am_rx_inv e" and "\<And>sn. rx_lookup (am_rx e) sn = []" and "am_rx_next e = 0" "am_rx_highest_status e = 0"
    "am_rx_next_highest e = 0" "am_t_reassembly_start e = 0"
  shows "am_rx_order e"
proof -
  have "am_win e 0 0" "am_trig e 0 0"
    using am_at_zero[OF assms(1)] am_rx_invD(6)[OF assms(1)] assms(2-) by (auto simp: am_win_def am_slot_def am_trig_def)
  then show ?thesis by (auto simp: am_rx_order_def)
qed

end
