(* ===== verification/RLC_Am_Ops.thy ===== *)
theory RLC_Am_Ops
  imports RLC_Am_Order
begin

text \<open>
  The remaining operations of the AM entity and the invariants of its two halves: the poll timer,
  discard, re-establishment and deletion, PDU generation, and what reception leaves of the
  transmission half.
\<close>

section \<open>The poll timer\<close>

lemma am_move_to_retransmit_inv:
  assumes "am_tx_inv (e\<lparr>am_wait_list := g # rest\<rparr>)"
  shows "am_tx_inv ((am_move_to_retransmit g e)\<lparr>am_wait_list := rest\<rparr>)"
proof -
  let ?e = "e\<lparr>am_wait_list := rest\<rparr>" and ?n = "am_compute_pdu_header_size e g + seg_size g"
  have "am_tx_inv_without ?e g" using assms by (simp add: am_tx_inv_without_def)
  from am_to_retx[OF this] have inv: "am_tx_inv ((add_bs_retx ?n e)\<lparr>am_wait_list := rest,
      am_retransmit_list := g # am_retransmit_list e\<rparr>)"
    by (rule am_tx_inv_cong[THEN iffD1, rotated]) (simp add: tx_part_def add_bs_retx_def)
  have "mset (nr_rlc_tx_sdu_segment_list_add (add_bs_retx ?n e) (am_retransmit_list e) g)
      = mset (g # am_retransmit_list e)" by (simp add: nr_rlc_tx_sdu_segment_list_add_def)
  from am_lists_perm[OF refl this, of rest "add_bs_retx ?n e"] inv
  have "am_tx_inv ((add_bs_retx ?n e)\<lparr>am_wait_list := rest,
      am_retransmit_list := nr_rlc_tx_sdu_segment_list_add (add_bs_retx ?n e) (am_retransmit_list e) g\<rparr>)" by blast
  then show ?thesis
    by (rule am_tx_inv_cong[THEN iffD1, rotated]) (simp add: tx_part_def am_move_to_retransmit_def Let_def add_bs_retx_def)
qed

lemma am_poll_retransmit_loop_inv:
  "am_tx_inv (e\<lparr>am_wait_list := l\<rparr>) \<Longrightarrow> am_tx_inv (am_poll_retransmit_loop sn l e)"
proof (induction l arbitrary: e)
  case (Cons g rest)
  then show ?case using am_move_to_retransmit_inv[OF Cons.prems] by simp
qed simp

lemma am_poll_retransmit_loop_frame:
  "order_part (am_poll_retransmit_loop sn l e) = order_part e"
  "events (am_poll_retransmit_loop sn l e) = events e"
  by (induction l arbitrary: e)
    (simp_all add: order_part_def rx_part_def am_move_to_retransmit_def Let_def add_bs_retx_def)

lemma am_check_t_poll_retransmit_inv:
  assumes inv: "am_tx_inv e" and res: "am_check_t_poll_retransmit e = Inr e'"
  shows "am_tx_inv e'"
proof -
  let ?e0 = "e\<lparr>am_t_poll_retransmit_start := 0, am_force_poll := True\<rparr>"
  have inv0: "am_tx_inv ?e0" using am_tx_inv_cong[of ?e0 e] inv by (simp add: tx_part_def)
  show ?thesis
  proof (cases "am_wait_list ?e0 = [] \<or> \<not> am_check_poll_after_pdu_assembly ?e0 \<or> am_t_poll_retransmit_start e = 0
      \<or> am_t_current e \<le> am_t_poll_retransmit_start e + word_of_int (am_t_poll_retransmit e)")
    case True
    then show ?thesis using res inv inv0 by (auto simp: am_check_t_poll_retransmit_def Let_def split: if_splits)
  next
    case False
    then obtain cur rest where w: "am_wait_list ?e0 = cur # rest" by (cases "am_wait_list ?e0") auto
    let ?st = "sdu_upd (store ?e0) cur (\<lambda>s. s\<lparr>sdu_retx_count := sdu_retx_count s + 1\<rparr>)"
    have "am_tx_inv_without (?e0\<lparr>am_wait_list := rest\<rparr>) cur"
      unfolding am_tx_inv_without_def using inv0
      by (rule am_tx_inv_cong[THEN iffD1, rotated]) (use w in \<open>simp add: tx_part_def\<close>)
    from am_without_upd[OF this, of "\<lambda>s. s\<lparr>sdu_retx_count := sdu_retx_count s + 1\<rparr>" cur]
    have "am_tx_inv ((?e0\<lparr>store := ?st\<rparr>)\<lparr>am_wait_list := cur # rest\<rparr>)"
      unfolding am_tx_inv_without_def
      by (rule am_tx_inv_cong[THEN iffD1, rotated]) (simp_all add: tx_part_def)
    from am_poll_retransmit_loop_inv[OF am_move_to_retransmit_inv[OF this]]
    have loop: "am_tx_inv (am_poll_retransmit_loop sn rest (am_move_to_retransmit cur (?e0\<lparr>store := ?st\<rparr>)))" for sn .
    have emit: "am_tx_inv (emit ev x) = am_tx_inv x" for ev x
      by (rule am_tx_inv_cong) (simp add: tx_part_def emit_def)
    show ?thesis
      using res False w loop by (auto simp: am_check_t_poll_retransmit_def Let_def emit split: if_splits)
  qed
qed

lemma am_check_t_poll_retransmit_frame:
  assumes "am_check_t_poll_retransmit e = Inr e'"
  shows "order_part e' = order_part e" and "delivered_sdus (events e') = delivered_sdus (events e)"
proof -
  have mv: "order_part (am_move_to_retransmit g x) = order_part x" "events (am_move_to_retransmit g x) = events x" for g x
    by (simp_all add: order_part_def rx_part_def am_move_to_retransmit_def Let_def add_bs_retx_def)
  have up: "order_part (x\<lparr>store := s\<rparr>) = order_part x" "order_part (emit ev x) = order_part x"
    "order_part (x\<lparr>am_t_poll_retransmit_start := i, am_force_poll := b\<rparr>) = order_part x" for x s ev i b
    by (simp_all add: order_part_def rx_part_def emit_def)
  show "order_part e' = order_part e" "delivered_sdus (events e') = delivered_sdus (events e)"
    using assms
    by (auto simp: am_check_t_poll_retransmit_def Let_def mv up am_poll_retransmit_loop_frame split: if_splits list.splits)
qed

section \<open>Discard\<close>

lemma am_discard_sdu_inv:
  assumes inv: "am_tx_inv e"
  shows "am_tx_inv (nr_rlc_entity_am_discard_sdu e i)"
proof -
  let ?other = "\<lambda>g. sdu_upper_layer_id (sdu_at (store e) g) \<noteq> i"
  show ?thesis
  proof (cases "dropWhile ?other (am_tx_list e)")
    case Nil
    then show ?thesis using inv unfolding nr_rlc_entity_am_discard_sdu_def Let_def by (simp only: list.case)
  next
    case (Cons cur rest)
    show ?thesis
    proof (cases "seg_whole cur")
      case False
      then show ?thesis using inv Cons by (auto simp: nr_rlc_entity_am_discard_sdu_def Let_def seg_whole_def)
    next
      case whole: True
      let ?l = "takeWhile ?other (am_tx_list e) @ rest"
      have split: "am_tx_list e = takeWhile ?other (am_tx_list e) @ cur # rest"
        using takeWhile_dropWhile_id[of ?other "am_tx_list e"] Cons by simp
      define M where "M = mset ?l + mset (am_wait_list e) + mset (am_retransmit_list e)"
      have segs: "am_segs e = add_mset cur M" unfolding am_segs_def M_def by (subst split) simp
      have s: "store_inv (store e) (add_mset cur M)" using am_tx_invD(2)[OF inv] segs by simp
      have "refs (seg_sdu cur) M = 0" using store_invD_whole[OF s _ whole] by simp
      then have freed: "snd (nr_rlc_free_sdu_segment (store e) cur)" using free_sdu_segment_result[OF s] by simp
      let ?st = "fst (nr_rlc_free_sdu_segment (store e) cur)"
      have bytes: "am_list_bytes e (am_tx_list e)
          = am_compute_pdu_header_size e cur + seg_size cur + am_list_bytes e ?l"
        by (subst split) simp
      define e' where "e' = e\<lparr>am_tx_list := ?l,
        bstatus := (bstatus e)\<lparr>bs_tx_size := bs_tx_size (bstatus e) - (am_compute_pdu_header_size e cur + seg_size cur)\<rparr>,
        am_tx_size := am_tx_size e - sdu_size (sdu_at (store e) cur), store := ?st\<rparr>"
      have res: "nr_rlc_entity_am_discard_sdu e i = e'"
        using Cons whole by (simp add: nr_rlc_entity_am_discard_sdu_def Let_def seg_whole_def add_bs_tx_def
            am_compute_pdu_header_size_def e'_def)
      have fr: "am_sn_ok e' = am_sn_ok e" "am_sdu_ok e' = am_sdu_ok e" "am_list_bytes e' = am_list_bytes e"
        "am_segs e' = M" "am_tx_list e' = ?l" "am_wait_list e' = am_wait_list e"
        "am_retransmit_list e' = am_retransmit_list e" "am_tx_maxsize e' = am_tx_maxsize e" "store e' = ?st"
        by (simp_all add: e'_def fun_eq_iff am_sn_ok_def am_sdu_ok_def am_list_bytes_def am_compute_pdu_header_size_def
            am_segs_def M_def)
      have ok: "am_sdu_ok e s'" if up: "sdus ?st a = Some s'" for a s'
      proof -
        obtain s0 where s0: "sdus (store e) a = Some s0" "sdu_sn s' = sdu_sn s0" "sdu_size s' = sdu_size s0"
          using free_segment_sdus[OF up] by blast
        then have "am_sdu_ok e s0" using inv by (auto simp: am_tx_inv_def)
        then show ?thesis using s0 by (simp add: am_sdu_ok_def)
      qed
      have sn: "am_seg_sn e' g \<noteq> -1" if "g \<in> set (am_wait_list e) \<union> set (am_retransmit_list e)" for g
        using free_segment_same[OF s, of g] inv that by (auto simp: am_seg_sn_def fr M_def am_tx_inv_def)
      have len: "am_tx_size e - sdu_size (sdu_at (store e) cur) = live_bytes ?st"
        "0 \<le> sdu_size (sdu_at (store e) cur)"
        using free_sdu_segment_bytes[OF s] freed am_tx_invD(3)[OF inv] sdu_at_data_length[OF s, of cur] by auto
      show ?thesis
        unfolding res am_tx_inv_def fr
        using free_sdu_segment_inv[OF s] ok sn inv len bytes by (simp add: am_tx_inv_def e'_def)
    qed
  qed
qed

section \<open>Re-establishment and deletion\<close>

lemma free_list_append:
  "nr_rlc_free_sdu_segment_list (nr_rlc_free_sdu_segment_list st l) l' = nr_rlc_free_sdu_segment_list st (l @ l')"
  by (induction l arbitrary: st) simp_all

lemma am_clear_store:
  assumes "am_tx_inv e"
  shows "sdus (store (am_clear_entity e)) = (\<lambda>_. None)" and "store_inv (store (am_clear_entity e)) {#}"
    and "live_bytes (store (am_clear_entity e)) = 0"
proof -
  let ?l = "am_tx_list e @ am_wait_list e @ am_retransmit_list e"
  have st: "store (am_clear_entity e) = nr_rlc_free_sdu_segment_list (store e) ?l"
    by (simp add: am_clear_entity_def free_list_append)
  have "am_segs e = mset ?l" by (simp add: am_segs_def)
  then have s: "store_inv (store e) (mset ?l)" using am_tx_invD(2)[OF assms] by simp
  show "sdus (store (am_clear_entity e)) = (\<lambda>_. None)" "live_bytes (store (am_clear_entity e)) = 0"
    unfolding st using free_all_empty[OF s] by auto
  show "store_inv (store (am_clear_entity e)) {#}"
    unfolding st using free_sdu_segment_list_inv[of "store e" ?l "{#}"] s by simp
qed

lemma am_clear_tx_inv:
  assumes "am_tx_inv e"
  shows "am_tx_inv (am_clear_entity e)"
proof -
  note c = am_clear_store[OF assms]
  have "am_sn_ok (am_clear_entity e)" using am_tx_invD(1)[OF assms] by (simp add: am_sn_ok_def am_clear_entity_def)
  moreover have "0 \<le> am_tx_maxsize e"
    using assms live_bytes_nonneg[OF am_tx_invD(2)[OF assms]] by (simp add: am_tx_inv_def)
  moreover have "am_segs (am_clear_entity e) = {#}" "am_tx_list (am_clear_entity e) = []"
    "am_wait_list (am_clear_entity e) = []" "am_retransmit_list (am_clear_entity e) = []"
    "am_tx_size (am_clear_entity e) = 0" "am_tx_maxsize (am_clear_entity e) = am_tx_maxsize e"
    "bs_tx_size (bstatus (am_clear_entity e)) = 0" "bs_retx_size (bstatus (am_clear_entity e)) = 0"
    by (simp_all add: am_clear_entity_def am_segs_def)
  ultimately show ?thesis using c by (simp add: am_tx_inv_def)
qed

lemma am_clear_rx_inv:
  assumes inv: "am_rx_inv e"
  shows "am_rx_inv (am_clear_entity e)" and "am_rx_order (am_clear_entity e)"
proof -
  note D = am_rx_invD[OF inv]
  let ?m = "nr_rlc_clear_rx_manager (am_rx e)"
  have ok: "rxm_ok ?m"
    using clear_rx_manager_inv[OF D(2)] clear_rx_manager_lookup[OF D(2)]
    by (auto simp: rxm_ok_def nr_rlc_clear_rx_manager_def)
  have pend: "rx_pending ?m = 0" by (simp add: rx_pending_def nr_rlc_clear_rx_manager_def sum_list_replicate)
  have "0 \<le> am_rx_maxsize e" using inv rx_pending_nonneg[OF D(1)] by (simp add: am_rx_inv_def)
  then show i: "am_rx_inv (am_clear_entity e)"
    using inv ok pend D(5-) by (simp add: am_rx_inv_def am_clear_entity_def nr_rlc_clear_rx_manager_def)
  show "am_rx_order (am_clear_entity e)"
    by (rule am_fresh_order[OF i]) (use clear_rx_manager_lookup[OF D(2)] in \<open>simp_all add: am_clear_entity_def\<close>)
qed

section \<open>Generation of PDUs\<close>

lemma order_part_simps:
  "order_part (upd_stats f e) = order_part e" "order_part (emit ev e) = order_part e"
  "order_part (add_bs_tx n e) = order_part e" "order_part (add_bs_retx n e) = order_part e"
  "order_part (e\<lparr>store := st\<rparr>) = order_part e" "order_part (e\<lparr>am_wait_list := l\<rparr>) = order_part e"
  "order_part (e\<lparr>am_retransmit_list := l\<rparr>) = order_part e" "order_part (e\<lparr>am_tx_list := l\<rparr>) = order_part e"
  "order_part (e\<lparr>am_force_poll := b\<rparr>) = order_part e"
  "order_part (e\<lparr>am_pdu_without_poll := i, am_byte_without_poll := j\<rparr>) = order_part e"
  "order_part (record_waiting_time t g e) = order_part e"
  "order_part (am_put_in_wait_list g e) = order_part e" "order_part (am_assign_sn g e) = order_part e"
  "order_part (fst (am_resegment g e n)) = order_part e"
  by (simp_all add: order_part_def rx_part_def common_defs am_put_in_wait_list_def am_assign_sn_def
      am_resegment_def Let_def)

lemma am_serialize_order:
  "am_serialize_sdu e g buf p = Inr (e', b, n) \<Longrightarrow> order_part e' = order_part e"
  by (auto simp: am_serialize_sdu_def bindE_eq_Inr am_include_poll_def order_part_def rx_part_def split: if_splits)

lemma am_prepare_order:
  "order_part (fst (am_retx_prepare e n g rest)) = order_part e"
  "order_part (fst (am_tx_prepare e n g rest)) = order_part e"
  by (simp_all add: am_retx_prepare_def am_tx_prepare_def Let_def split_def order_part_simps)

lemma am_generate_order:
  shows "am_generate_retx_pdu e buf = Inr (e', b, n) \<Longrightarrow> order_part e' = order_part e"
    and "am_generate_tx_pdu e buf t = Inr (e', b, n) \<Longrightarrow> order_part e' = order_part e"
  unfolding am_generate_retx_pdu_eq am_generate_tx_pdu_eq Let_def split_def
  by (auto simp: bindE_eq_Inr order_part_simps am_prepare_order dest!: am_serialize_order split: list.splits if_splits)

lemma am_generate_status_order:
  assumes "am_generate_status e buf = Inr (e', b, n)"
  shows "order_part e' = order_part e" and "tx_part e' = tx_part e"
  using assms
  by (auto simp: am_generate_status_def bindE_eq_Inr Let_def order_part_def tx_part_def rx_part_def upd_stats_def
      split: if_splits option.splits)

lemma am_generate_pdu_order:
  assumes "nr_rlc_entity_am_generate_pdu e buf t = Inr (e', b, n)"
  shows "order_part e' = order_part e"
  using assms unfolding nr_rlc_entity_am_generate_pdu_def
  by (auto simp: bindE_eq_Inr split: if_splits dest!: am_generate_order am_generate_status_order(1))

text \<open>
  The whole of \<open>generate_pdu\<close>: it always returns, stays in the buffer, and what it returns is
  nothing, a STATUS PDU, or the PDU of a segment that is now waiting for its acknowledgement.
\<close>

lemma am_generate_pdu_ok:
  assumes inv: "am_tx_inv e" and rep: "am_report_at e h"
  shows "\<exists>e' buf' n. nr_rlc_entity_am_generate_pdu e buf t = Inr (e', buf', n) \<and> am_tx_inv e'
    \<and> length buf' = length buf \<and> 0 \<le> n \<and> n \<le> int (length buf)
    \<and> delivered_sdus (events e') = delivered_sdus (events e)
    \<and> (n = 0 \<or> am_sent e' buf' n \<or> (am_status_to_report e \<and> am_status_size e (int (length buf)) = Inr n))"
proof -
  have data: "am_gen_post e buf (bindE (if am_retransmit_list e \<noteq> [] then am_generate_retx_pdu e buf else Inr (e, buf, 0))
      (\<lambda>(e, buf, ret). if ret \<noteq> 0 then Inr (e, buf, ret) else am_generate_tx_pdu e buf t))"
  proof -
    have "am_gen_post e buf (if am_retransmit_list e \<noteq> [] then am_generate_retx_pdu e buf else Inr (e, buf, 0))"
      using am_generate_retx_ok[OF inv] am_gen_post_nothing[OF inv] by simp
    then obtain e1 buf1 n1 where r: "(if am_retransmit_list e \<noteq> [] then am_generate_retx_pdu e buf else Inr (e, buf, 0))
        = Inr (e1, buf1, n1)" "am_tx_inv e1" "rx_part e1 = rx_part e"
      "delivered_sdus (events e1) = delivered_sdus (events e)" "length buf1 = length buf" "0 \<le> n1"
      "n1 \<le> int (length buf)" "n1 = 0 \<or> am_sent e1 buf1 n1" by (auto simp: am_gen_post_def)
    show ?thesis
    proof (cases "n1 = 0")
      case False
      then show ?thesis unfolding r(1) using r(2-) by (simp add: am_gen_post_def)
    next
      case True
      from am_generate_tx_ok[OF r(2), of buf1 t] show ?thesis
        unfolding r(1) using True r(3-5) by (auto simp: am_gen_post_def)
    qed
  qed
  show ?thesis
  proof (cases "am_status_to_report e \<and> 3 \<le> length buf")
    case True
    then obtain e' b n where s: "am_generate_status e buf = Inr (e', b, n)" "am_status_size e (int (length buf)) = Inr n"
      "3 \<le> n" "n \<le> int (length buf)" "length b = length buf" "tx_part e' = tx_part e" "events e' = events e"
      using am_generate_status_ok[OF rep] by blast
    then show ?thesis
      using True inv am_tx_inv_cong[OF s(6)] by (simp add: nr_rlc_entity_am_generate_pdu_def)
  next
    case False
    then have "nr_rlc_entity_am_generate_pdu e buf t
        = bindE (if am_retransmit_list e \<noteq> [] then am_generate_retx_pdu e buf else Inr (e, buf, 0))
      (\<lambda>(e, buf, ret). if ret \<noteq> 0 then Inr (e, buf, ret) else am_generate_tx_pdu e buf t)"
      by (auto simp: nr_rlc_entity_am_generate_pdu_def am_generate_status_def)
    then show ?thesis using data by (auto simp: am_gen_post_def)
  qed
qed

section \<open>Reception leaves the transmission half alone\<close>

lemma am_recv_data_tx_part:
  assumes "am_recv_data e buf hdr p f l sn so = Inr e'"
  shows "tx_part e' = tx_part e"
proof -
  have del: "tx_part e2 = tx_part e1" if "am_reassemble_and_deliver e1 x = Inr e2" for e1 e2 x
    using that by (auto simp: am_reassemble_and_deliver_def bindE_eq_Inr Let_def tx_part_def upd_stats_def emit_def
        split: if_splits)
  have adv: "tx_part e2 = tx_part e1" if "am_advance_rx_next e1 = Inr e2" for e1 e2
    using that by (auto simp: am_advance_rx_next_def tx_part_def split: option.splits)
  have aft: "tx_part e2 = tx_part e1" if "am_after_delivery e1 x = Inr e2" for e1 e2 x
    using that by (auto simp: am_after_delivery_def bindE_eq_Inr tx_part_def dest!: adv split: if_splits option.splits)
  have upd: "tx_part (am_update_t_reassembly x) = tx_part x" for x
    by (simp add: am_update_t_reassembly_def tx_part_def Let_def)
  have see: "tx_part (x\<lparr>am_rx_next_highest := v\<rparr>) = tx_part x" "tx_part (x\<lparr>am_status_triggered := b\<rparr>) = tx_part x"
    "tx_part (upd_stats f x) = tx_part x" "tx_part (x\<lparr>am_rx_size := i, am_rx := m\<rparr>) = tx_part x"
    for x :: nr_rlc_entity_am_t and v b f i m
    by (simp_all add: tx_part_def upd_stats_def)
  have act: "tx_part e2 = tx_part e1" if "am_reception_actions e1 x = Inr e2" for e1 e2 x
    using that unfolding am_reception_actions_eq Let_def
    by (auto simp: bindE_eq_Inr upd see split: if_splits dest!: del aft)
  have disc: "tx_part e' = tx_part x" if "am_discard p n x = Inr e'" for n x
    using that by (auto simp: am_discard_def see)
  let ?e = "e\<lparr>am_rx_size := am_rx_size e + (int (length buf) - int hdr),
    am_rx := nr_rlc_rx_manager_add_pdu (am_rx e) (nr_rlc_new_pdu sn so f l (drop hdr buf))\<rparr>"
  have stored: "tx_part e' = tx_part e"
    if st: "bindE (am_reception_actions ?e (nr_rlc_new_pdu sn so f l (drop hdr buf))) (\<lambda>e.
             Inr (if p \<noteq> 0 then e\<lparr>am_status_triggered := True\<rparr> else e)) = Inr e'"
  proof -
    obtain e1 where "am_reception_actions ?e (nr_rlc_new_pdu sn so f l (drop hdr buf)) = Inr e1"
      "e' = (if p \<noteq> 0 then e1\<lparr>am_status_triggered := True\<rparr> else e1)"
      using st by (auto simp: bindE_eq_Inr)
    then show ?thesis using act[of ?e _ e1] see by simp
  qed
  show ?thesis
    using assms unfolding am_recv_data_def Let_def
    by (simp split: if_splits) (use disc see stored in \<open>metis (no_types, lifting)\<close>)+
qed

end
