(* ===== verification/RLC_Tm.thy ===== *)
theory RLC_Tm
  imports RLC_Entity_Common
begin

text \<open>
  Model of the transparent-mode entity (\<open>nr_rlc_entity_tm.c\<close>). It is a bounded FIFO of whole SDUs
  without header, segmentation or sequence number. The lemmas show this: \<open>recv_sdu\<close> enqueues,
  \<open>generate_pdu\<close> dequeues the oldest SDU when it fits, nothing leaks, and the interpretation at
  the end makes it an instance of the transmission-buffer contract.
\<close>

section \<open>The entity and its operations\<close>

record nr_rlc_entity_tm_t = nr_rlc_entity_t +
  tm_t_current :: u64
  tm_t_log_buffer_full :: u64
  tm_sdu_rejected :: int
  tm_tx_list :: "nr_rlc_sdu_segment_t list"
  tm_tx_size :: int
  tm_tx_maxsize :: int

text \<open>The constructor, \<open>new_nr_rlc_entity_tm\<close> of \<open>nr_rlc_entity.c\<close>.\<close>

definition new_nr_rlc_entity_tm :: "int \<Rightarrow> nr_rlc_entity_tm_t" where
  "new_nr_rlc_entity_tm tx_maxsize =
     \<lparr>bstatus = \<lparr>bs_status_size = 0, bs_tx_size = 0, bs_retx_size = 0\<rparr>,
      stats = zero_stats NR_RLC_TM, avg_time_is_on = False, events = [], store = empty_store,
      tm_t_current = 0, tm_t_log_buffer_full = 0, tm_sdu_rejected = 0, tm_tx_list = [],
      tm_tx_size = 0, tm_tx_maxsize = tx_maxsize\<rparr>"

definition nr_rlc_entity_tm_recv_pdu :: "nr_rlc_entity_tm_t \<Rightarrow> buffer \<Rightarrow> nr_rlc_entity_tm_t" where
  "nr_rlc_entity_tm_recv_pdu e buf =
     (let n = int (length buf);
          e = upd_stats (count_rxpdu n) e;
          e = emit (Deliver_Sdu buf) e
      in upd_stats (count_txsdu n) e)"

text \<open>
  The buffer the MAC provides has \<open>length buf\<close> bytes. The result is the entity, the buffer and
  the number of bytes put into it.
\<close>

definition tm_generate_tx_pdu ::
    "nr_rlc_entity_tm_t \<Rightarrow> buffer \<Rightarrow> u64 \<Rightarrow> (nr_rlc_entity_tm_t \<times> buffer \<times> int) res" where
  "tm_generate_tx_pdu e buf time_now =
     (case tm_tx_list e of
        [] \<Rightarrow> Inr (e, buf, 0)
      | g # rest \<Rightarrow>
          if seg_size g > int (length buf) then Inr (e, buf, 0)
          else
            let e = e\<lparr>tm_tx_list := rest\<rparr>; ret = seg_size g in
            bindE (mem_read (sdu_data (sdu_at (store e) g)) 0 (seg_size g)) (\<lambda>data.
            bindE (mem_write buf 0 data) (\<lambda>buf'.
              let e = e\<lparr>tm_tx_size := tm_tx_size e - seg_size g\<rparr>;
                  e = upd_stats (count_txpdu (int (length buf))) e;
                  e = record_waiting_time time_now g e;
                  e = add_bs_tx (- seg_size g) e;
                  e = e\<lparr>store := fst (nr_rlc_free_sdu_segment (store e) g)\<rparr>
              in Inr (e, buf', ret))))"

definition nr_rlc_entity_tm_buffer_status ::
    "nr_rlc_entity_tm_t \<Rightarrow> int \<Rightarrow> nr_rlc_entity_buffer_status_t" where
  "nr_rlc_entity_tm_buffer_status e maxsize =
     \<lparr>bs_status_size = 0, bs_tx_size = bs_tx_size (bstatus e), bs_retx_size = 0\<rparr>"

definition nr_rlc_entity_tm_generate_pdu ::
    "nr_rlc_entity_tm_t \<Rightarrow> buffer \<Rightarrow> u64 \<Rightarrow> (nr_rlc_entity_tm_t \<times> buffer \<times> int) res" where
  "nr_rlc_entity_tm_generate_pdu e buf time_now = tm_generate_tx_pdu e buf time_now"

definition tm_log_rejected :: "nr_rlc_entity_tm_t \<Rightarrow> nr_rlc_entity_tm_t" where
  "tm_log_rejected e =
     (if tm_sdu_rejected e \<noteq> 0 \<and> tm_t_current e > tm_t_log_buffer_full e + 1000
      then e\<lparr>tm_sdu_rejected := 0, tm_t_log_buffer_full := tm_t_current e\<rparr> else e)"

definition nr_rlc_entity_tm_recv_sdu ::
    "nr_rlc_entity_tm_t \<Rightarrow> buffer \<Rightarrow> int \<Rightarrow> u64 \<Rightarrow> nr_rlc_entity_tm_t res" where
  "nr_rlc_entity_tm_recv_sdu e buf sdu_id time_now =
     (let n = int (length buf);
          e = upd_stats (\<lambda>s. s\<lparr>rxsdu_pkts := rxsdu_pkts s + 1, rxsdu_bytes := rxsdu_bytes s + word_of_int n\<rparr>) e
      in if n > NR_SDU_MAX then Inl Exit_Failure
         else
           let e = tm_log_rejected e in
           if tm_tx_size e + n > tm_tx_maxsize e then
             Inr (upd_stats (count_rxsdu_dd n) (e\<lparr>tm_sdu_rejected := tm_sdu_rejected e + 1\<rparr>))
           else
             let e = e\<lparr>tm_tx_size := tm_tx_size e + n\<rparr>;
                 (st, g) = nr_rlc_new_sdu (store e) buf sdu_id;
                 e = e\<lparr>store := st, tm_tx_list := nr_rlc_sdu_segment_list_append (tm_tx_list e) g\<rparr>;
                 e = add_bs_tx (seg_size g) e
             in Inr (stamp_arrival time_now g e))"

definition nr_rlc_entity_tm_set_time :: "nr_rlc_entity_tm_t \<Rightarrow> u64 \<Rightarrow> nr_rlc_entity_tm_t" where
  "nr_rlc_entity_tm_set_time e now = e\<lparr>tm_t_current := now\<rparr>"

definition nr_rlc_entity_tm_discard_sdu :: "nr_rlc_entity_tm_t \<Rightarrow> int \<Rightarrow> nr_rlc_entity_tm_t" where
  "nr_rlc_entity_tm_discard_sdu e sdu_id = e"

definition tm_clear_entity :: "nr_rlc_entity_tm_t \<Rightarrow> nr_rlc_entity_tm_t" where
  "tm_clear_entity e =
     e\<lparr>tm_t_current := 0, tm_t_log_buffer_full := 0, tm_sdu_rejected := 0,
       store := nr_rlc_free_sdu_segment_list (store e) (tm_tx_list e),
       tm_tx_list := [], tm_tx_size := 0, bstatus := (bstatus e)\<lparr>bs_tx_size := 0\<rparr>\<rparr>"

definition nr_rlc_entity_tm_reestablishment :: "nr_rlc_entity_tm_t \<Rightarrow> nr_rlc_entity_tm_t" where
  "nr_rlc_entity_tm_reestablishment e = tm_clear_entity e"

text \<open>Deleting an entity clears it and frees it; what is left is the memory of its SDUs.\<close>

definition nr_rlc_entity_tm_delete :: "nr_rlc_entity_tm_t \<Rightarrow> sdu_store" where
  "nr_rlc_entity_tm_delete e = store (tm_clear_entity e)"

definition nr_rlc_entity_tm_available_tx_space :: "nr_rlc_entity_tm_t \<Rightarrow> int" where
  "nr_rlc_entity_tm_available_tx_space e = tm_tx_maxsize e - tm_tx_size e"

section \<open>Invariant and abstract queue\<close>

definition tm_queue :: "nr_rlc_entity_tm_t \<Rightarrow> buffer list" where
  "tm_queue e = map (\<lambda>g. sdu_data (sdu_at (store e) g)) (tm_tx_list e)"

definition tm_inv :: "nr_rlc_entity_tm_t \<Rightarrow> bool" where
  "tm_inv e \<longleftrightarrow> store_inv (store e) (mset (tm_tx_list e))
     \<and> distinct (map seg_sdu (tm_tx_list e))
     \<and> (\<forall>g \<in> set (tm_tx_list e). seg_so g = 0 \<and> seg_size g = sdu_size (sdu_at (store e) g))
     \<and> tm_tx_size e = live_bytes (store e) \<and> bs_tx_size (bstatus e) = tm_tx_size e
     \<and> tm_tx_size e \<le> tm_tx_maxsize e"

section \<open>Every operation keeps the invariant\<close>

lemma tm_log_rejected_frame [simp]:
  "tm_tx_list (tm_log_rejected e) = tm_tx_list e" "tm_tx_size (tm_log_rejected e) = tm_tx_size e"
  "tm_tx_maxsize (tm_log_rejected e) = tm_tx_maxsize e" "store (tm_log_rejected e) = store e"
  "bstatus (tm_log_rejected e) = bstatus e" "events (tm_log_rejected e) = events e"
  by (simp_all add: tm_log_rejected_def)

lemma tm_inv_cong:
  "tm_tx_list e' = tm_tx_list e \<Longrightarrow> tm_tx_size e' = tm_tx_size e \<Longrightarrow>
   tm_tx_maxsize e' = tm_tx_maxsize e \<Longrightarrow> store e' = store e \<Longrightarrow>
   bs_tx_size (bstatus e') = bs_tx_size (bstatus e) \<Longrightarrow> tm_inv e' = tm_inv e"
  by (simp add: tm_inv_def)

lemma tm_recv_sdu_refused:
  assumes "int (length b) \<le> NR_SDU_MAX" and "nr_rlc_entity_tm_available_tx_space e < int (length b)"
  shows "\<exists>e'. nr_rlc_entity_tm_recv_sdu e b i t = Inr e' \<and> tm_inv e' = tm_inv e
    \<and> tm_queue e' = tm_queue e \<and> tm_tx_size e' = tm_tx_size e \<and> tm_tx_maxsize e' = tm_tx_maxsize e"
  using assms
  by (auto simp: nr_rlc_entity_tm_recv_sdu_def Let_def nr_rlc_entity_tm_available_tx_space_def
      upd_stats_def tm_queue_def tm_log_rejected_def tm_inv_def)

lemma tm_recv_sdu_accepted:
  assumes inv: "tm_inv e" and sz: "int (length b) \<le> NR_SDU_MAX"
    and fit: "int (length b) \<le> nr_rlc_entity_tm_available_tx_space e"
  shows "\<exists>e'. nr_rlc_entity_tm_recv_sdu e b i t = Inr e' \<and> tm_inv e'
    \<and> tm_queue e' = tm_queue e @ [b] \<and> tm_tx_size e' = tm_tx_size e + int (length b)
    \<and> tm_tx_maxsize e' = tm_tx_maxsize e"
proof -
  obtain st g where new: "nr_rlc_new_sdu (store e) b i = (st, g)" by force
  have g: "seg_so g = 0" "seg_size g = int (length b)" "sdu_at st g = (sdu_at st g)\<lparr>sdu_data := b\<rparr>"
    "sdu_data (sdu_at st g) = b" "sdu_size (sdu_at st g) = int (length b)"
    using new by (auto simp: nr_rlc_new_sdu_def Let_def sdu_at_def)
  have s: "store_inv (store e) (mset (tm_tx_list e))" using inv by (simp add: tm_inv_def)
  note st = new_sdu_inv[OF s new]
  note old = sdu_at_new[OF s new]
  define e1 where "e1 = add_bs_tx (seg_size g)
    ((tm_log_rejected (upd_stats (\<lambda>s. s\<lparr>rxsdu_pkts := rxsdu_pkts s + 1,
        rxsdu_bytes := rxsdu_bytes s + word_of_int (int (length b))\<rparr>) e))
      \<lparr>tm_tx_size := tm_tx_size e + int (length b), store := st, tm_tx_list := tm_tx_list e @ [g]\<rparr>)"
  have e1: "store e1 = st" "tm_tx_list e1 = tm_tx_list e @ [g]"
    "tm_tx_size e1 = tm_tx_size e + int (length b)" "tm_tx_maxsize e1 = tm_tx_maxsize e"
    "bs_tx_size (bstatus e1) = bs_tx_size (bstatus e) + int (length b)"
    by (simp_all add: e1_def add_bs_tx_def upd_stats_def tm_log_rejected_def g)
  have res: "nr_rlc_entity_tm_recv_sdu e b i t = Inr (stamp_arrival t g e1)"
    using sz fit new
    by (auto simp: nr_rlc_entity_tm_recv_sdu_def Let_def nr_rlc_entity_tm_available_tx_space_def
        upd_stats_def tm_log_rejected_def e1_def nr_rlc_sdu_segment_list_append_def)
  have fr: "tm_tx_list (stamp_arrival t g e1) = tm_tx_list e1"
    "tm_tx_size (stamp_arrival t g e1) = tm_tx_size e1"
    "tm_tx_maxsize (stamp_arrival t g e1) = tm_tx_maxsize e1"
    by (simp_all add: stamp_arrival_def)
  have "store_inv (store e1) (mset (tm_tx_list e1))" using st e1 by simp
  note stamped = stamp_arrival_store[OF this, of t g]
  have fresh: "seg_sdu g \<notin> seg_sdu ` set (tm_tx_list e)" using old(2) by fastforce
  have "tm_inv (stamp_arrival t g e1)"
    unfolding tm_inv_def fr
    using stamped st(2) e1 g inv fit old(1) fresh
    by (auto simp: tm_inv_def nr_rlc_entity_tm_available_tx_space_def)
  moreover have "tm_queue (stamp_arrival t g e1) = tm_queue e @ [b]"
    using e1 g old by (auto simp: tm_queue_def fr)
  ultimately show ?thesis using res fr e1 by auto
qed

lemma tm_generate_empty:
  "tm_tx_list e = [] \<Longrightarrow> nr_rlc_entity_tm_generate_pdu e buf t = Inr (e, buf, 0)"
  by (simp add: nr_rlc_entity_tm_generate_pdu_def tm_generate_tx_pdu_def)

lemma tm_inv_head:
  assumes "tm_inv e" and "tm_tx_list e = g # rest"
  shows "seg_size g = int (length (sdu_data (sdu_at (store e) g)))"
    and "sdus (store e) (seg_sdu g) = Some (sdu_at (store e) g)"
proof -
  have s: "store_inv (store e) (mset (tm_tx_list e))" and "g \<in># mset (tm_tx_list e)"
    using assms by (auto simp: tm_inv_def)
  then show a: "sdus (store e) (seg_sdu g) = Some (sdu_at (store e) g)"
    using store_invD_seg by blast
  show "seg_size g = int (length (sdu_data (sdu_at (store e) g)))"
    using assms store_invD_sdu[OF s a] by (simp add: tm_inv_def)
qed

lemma tm_generate_dequeue:
  assumes inv: "tm_inv e" and l: "tm_tx_list e = g # rest"
    and fit: "length (sdu_data (sdu_at (store e) g)) \<le> length buf"
  shows "\<exists>e'. nr_rlc_entity_tm_generate_pdu e buf t = Inr (e',
        sdu_data (sdu_at (store e) g) @ drop (length (sdu_data (sdu_at (store e) g))) buf,
        int (length (sdu_data (sdu_at (store e) g))))
    \<and> tm_inv e' \<and> tm_queue e' = map (\<lambda>g. sdu_data (sdu_at (store e) g)) rest
    \<and> tm_tx_size e' = tm_tx_size e - int (length (sdu_data (sdu_at (store e) g)))"
proof -
  let ?d = "sdu_data (sdu_at (store e) g)"
  have sz: "seg_size g = int (length ?d)" and live: "sdus (store e) (seg_sdu g) = Some (sdu_at (store e) g)"
    using tm_inv_head[OF inv l] by auto
  have s: "store_inv (store e) (add_mset g (mset rest))" using inv l by (simp add: tm_inv_def)
  have rd: "mem_read ?d 0 (seg_size g) = Inr ?d" by (simp add: mem_read_def sz)
  have wr: "mem_write buf 0 ?d = Inr (?d @ drop (length ?d) buf)" using fit by (simp add: mem_write_def)
  define e0 where "e0 = upd_stats (count_txpdu (int (length buf)))
    (e\<lparr>tm_tx_list := rest, tm_tx_size := tm_tx_size e - seg_size g\<rparr>)"
  define e1 where "e1 = add_bs_tx (- seg_size g) (record_waiting_time t g e0)"
  define e2 where "e2 = e1\<lparr>store := fst (nr_rlc_free_sdu_segment (store e) g)\<rparr>"
  have st1: "store e1 = store e" by (simp add: e1_def e0_def upd_stats_def)
  have gen: "nr_rlc_entity_tm_generate_pdu e buf t = Inr (e2, ?d @ drop (length ?d) buf, seg_size g)"
    using l fit sz rd wr st1
    by (simp add: nr_rlc_entity_tm_generate_pdu_def tm_generate_tx_pdu_def Let_def e2_def e1_def e0_def
        upd_stats_def)
  have e2: "tm_tx_list e2 = rest" "tm_tx_size e2 = tm_tx_size e - seg_size g"
    "tm_tx_maxsize e2 = tm_tx_maxsize e" "bs_tx_size (bstatus e2) = bs_tx_size (bstatus e) - seg_size g"
    "store e2 = fst (nr_rlc_free_sdu_segment (store e) g)"
    by (simp_all add: e2_def e1_def e0_def common_defs)
  have nin: "seg_sdu g \<notin> seg_sdu ` set rest" and dis: "distinct (map seg_sdu rest)"
    using inv l by (auto simp: tm_inv_def)
  have freed: "snd (nr_rlc_free_sdu_segment (store e) g)"
    using free_sdu_segment_result[OF s] refs_distinct[OF dis nin] by simp
  have "sdu_size (sdu_at (store e) g) = seg_size g" using inv l by (simp add: tm_inv_def)
  then have lb: "live_bytes (store e2) = live_bytes (store e) - seg_size g"
    using free_sdu_segment_bytes[OF s] freed e2 by simp
  have same: "sdu_at (store e2) g' = sdu_at (store e) g'" if "g' \<in> set rest" for g'
    unfolding e2(5) using that nin by (intro sdu_at_free_other) (metis image_eqI)
  have "tm_inv e2"
    using free_sdu_segment_inv[OF s] inv l e2 lb same dis sz
    unfolding tm_inv_def by auto
  moreover have "tm_queue e2 = map (\<lambda>g. sdu_data (sdu_at (store e) g)) rest"
    using same e2 by (auto simp: tm_queue_def)
  ultimately show ?thesis using gen sz e2 by auto
qed

lemma tm_clear_inv:
  assumes "tm_inv e" and "0 \<le> tm_tx_maxsize e"
  shows "tm_inv (tm_clear_entity e)" and "sdus (nr_rlc_entity_tm_delete e) = (\<lambda>_. None)"
proof -
  have s: "store_inv (store e) (mset (tm_tx_list e))" using assms by (simp add: tm_inv_def)
  note fr = free_all_empty[OF s] free_sdu_segment_list_inv[of "store e" "tm_tx_list e" "{#}"]
  show "tm_inv (tm_clear_entity e)" using fr s assms by (simp add: tm_inv_def tm_clear_entity_def)
  show "sdus (nr_rlc_entity_tm_delete e) = (\<lambda>_. None)"
    using fr by (simp add: nr_rlc_entity_tm_delete_def tm_clear_entity_def)
qed

section \<open>The entity is a transmission buffer\<close>

interpretation tm_buf: tx_buffer nr_rlc_entity_tm_recv_sdu nr_rlc_entity_tm_available_tx_space
  tm_queue tm_inv
proof unfold_locales
  fix e :: nr_rlc_entity_tm_t and b :: buffer and i :: int and t :: u64
  assume "tm_inv e" "int (length b) \<le> NR_SDU_MAX" "int (length b) \<le> nr_rlc_entity_tm_available_tx_space e"
  then show "\<exists>e'. nr_rlc_entity_tm_recv_sdu e b i t = Inr e' \<and> tm_inv e'
      \<and> nr_rlc_entity_tm_available_tx_space e' = nr_rlc_entity_tm_available_tx_space e - int (length b)
      \<and> tm_queue e' = tm_queue e @ [b]"
    using tm_recv_sdu_accepted[of e b i t] by (auto simp: nr_rlc_entity_tm_available_tx_space_def)
next
  fix e :: nr_rlc_entity_tm_t and b :: buffer and i :: int and t :: u64
  assume "tm_inv e" "int (length b) \<le> NR_SDU_MAX" "nr_rlc_entity_tm_available_tx_space e < int (length b)"
  then show "\<exists>e'. nr_rlc_entity_tm_recv_sdu e b i t = Inr e' \<and> tm_inv e'
      \<and> nr_rlc_entity_tm_available_tx_space e' = nr_rlc_entity_tm_available_tx_space e
      \<and> tm_queue e' = tm_queue e"
    using tm_recv_sdu_refused[of b e i t] by (auto simp: nr_rlc_entity_tm_available_tx_space_def)
next
  fix b :: buffer and e :: nr_rlc_entity_tm_t and i :: int and t :: u64
  assume "NR_SDU_MAX < int (length b)"
  then show "\<exists>x. nr_rlc_entity_tm_recv_sdu e b i t = Inl x"
    by (simp add: nr_rlc_entity_tm_recv_sdu_def Let_def)
qed


text \<open>
  Property C27. A TM entity implements a FIFO queue of SDUs: in every consistent state a grant that
  is large enough returns the oldest SDU unchanged, byte for byte and without a header, and leaves
  the queue of the others; the buffer accounting and the memory stay exact, so no SDU is lost,
  duplicated, reordered or leaked.
\<close>

theorem tm_implements_fifo:
  assumes "tm_inv e" and "tm_queue e = b # bs" and "length b \<le> length buf"
  shows "\<exists>e'. nr_rlc_entity_tm_generate_pdu e buf t = Inr (e', b @ drop (length b) buf, int (length b))
    \<and> tm_inv e' \<and> tm_queue e' = bs \<and> tm_tx_size e' = tm_tx_size e - int (length b)"
proof -
  obtain g rest where l: "tm_tx_list e = g # rest" using assms(2) by (cases "tm_tx_list e") (auto simp: tm_queue_def)
  then have q: "b = sdu_data (sdu_at (store e) g)" "bs = map (\<lambda>g. sdu_data (sdu_at (store e) g)) rest"
    using assms(2) by (simp_all add: tm_queue_def)
  show ?thesis using tm_generate_dequeue[OF assms(1) l, of buf t] assms(3) unfolding q by blast
qed

lemma new_tm_inv [inv_intros]: "0 \<le> m \<Longrightarrow> tm_inv (new_nr_rlc_entity_tm m)"
  using store_inv_empty by (simp add: tm_inv_def new_nr_rlc_entity_tm_def)

theorem tm_implements_fifo_witness:
  "\<exists>e e'. recv_all nr_rlc_entity_tm_recv_sdu (new_nr_rlc_entity_tm 100) [([1, 2], 0, 0), ([3], 1, 0)] = Inr e
    \<and> nr_rlc_entity_tm_generate_pdu e [9, 9, 9] 0 = Inr (e', [1, 2, 9], 2) \<and> tm_queue e' = [[3]]"
proof -
  let ?e0 = "new_nr_rlc_entity_tm 100"
  have q0: "tm_queue ?e0 = []" "nr_rlc_entity_tm_available_tx_space ?e0 = 100"
    by (simp_all add: tm_queue_def new_nr_rlc_entity_tm_def nr_rlc_entity_tm_available_tx_space_def)
  obtain e where e: "recv_all nr_rlc_entity_tm_recv_sdu ?e0 [([1, 2], 0, 0), ([3], 1, 0)] = Inr e" "tm_inv e"
    "tm_queue e = [[1, 2], [3]]"
    using tm_buf.recv_all_accepted[OF new_tm_inv, of 100 "[([1, 2], 0, 0), ([3], 1, 0)]"] q0
    by (auto simp: NR_SDU_MAX_def simp del: recv_all.simps)
  then show ?thesis using tm_implements_fifo[OF e(2,3), of "[9, 9, 9]" 0] by auto
qed

end
