(* ===== verification/RLC_Entity.thy ===== *)
theory RLC_Entity
  imports RLC_Am_Ops RLC_Tm RLC_Um
begin

text \<open>
  The operations of \<open>nr_rlc_entity.c\<close> that are common to the three modes: reading the statistics and
  reconfiguring an AM or UM entity. (The constructors stand in the theory of their mode.)
\<close>

section \<open>Statistics\<close>

text \<open>
  \<open>hol\<close> is the head-of-line segment the code picks by mode. The average waiting time
  (\<open>txsdu_avg_time_to_tx\<close>, a \<open>double\<close>) is not part of the statistics of the model.
\<close>

definition nr_rlc_entity_get_stats ::
    "u64 \<Rightarrow> nr_rlc_sdu_segment_t list \<Rightarrow> 'a nr_rlc_entity_t_scheme \<Rightarrow> nr_rlc_statistics_t" where
  "nr_rlc_entity_get_stats time_now hol e =
     (stats e)\<lparr>txsdu_wt_us :=
        (case hol of [] \<Rightarrow> 0
         | g # _ \<Rightarrow> ucast (time_now - sdu_time_of_arrival (sdu_at (store e) g)))\<rparr>"

definition nr_rlc_entity_am_get_stats :: "nr_rlc_entity_am_t \<Rightarrow> u64 \<Rightarrow> nr_rlc_statistics_t" where
  "nr_rlc_entity_am_get_stats e time_now =
     nr_rlc_entity_get_stats time_now
       (if am_retransmit_list e \<noteq> [] then am_retransmit_list e else am_tx_list e) e"

definition nr_rlc_entity_um_get_stats :: "nr_rlc_entity_um_t \<Rightarrow> u64 \<Rightarrow> nr_rlc_statistics_t" where
  "nr_rlc_entity_um_get_stats e time_now = nr_rlc_entity_get_stats time_now (um_tx_list e) e"

definition nr_rlc_entity_tm_get_stats :: "nr_rlc_entity_tm_t \<Rightarrow> u64 \<Rightarrow> nr_rlc_statistics_t" where
  "nr_rlc_entity_tm_get_stats e time_now = nr_rlc_entity_get_stats time_now (tm_tx_list e) e"

section \<open>Reconfiguration\<close>

text \<open>\<open>None\<close> is the NULL pointer for \<open>sn_field_length\<close>.\<close>

definition nr_rlc_entity_um_reconfigure :: "nr_rlc_entity_um_t \<Rightarrow> int \<Rightarrow> nat option \<Rightarrow> nr_rlc_entity_um_t" where
  "nr_rlc_entity_um_reconfigure e t_reassembly sn_field_length =
     (let e = e\<lparr>um_t_reassembly := t_reassembly\<rparr>
      in case sn_field_length of None \<Rightarrow> e | Some n \<Rightarrow> e\<lparr>um_sn_field_length := n\<rparr>)"

definition nr_rlc_entity_am_reconfigure ::
    "nr_rlc_entity_am_t \<Rightarrow> int \<Rightarrow> int \<Rightarrow> int \<Rightarrow> int \<Rightarrow> int \<Rightarrow> int \<Rightarrow> nat option \<Rightarrow> nr_rlc_entity_am_t" where
  "nr_rlc_entity_am_reconfigure e t_poll_retransmit t_reassembly t_status_prohibit
       poll_pdu poll_byte max_retx_threshold sn_field_length =
     (let e = e\<lparr>am_t_poll_retransmit := t_poll_retransmit, am_t_reassembly := t_reassembly,
                am_t_status_prohibit := t_status_prohibit, am_poll_pdu := poll_pdu,
                am_poll_byte := poll_byte, am_max_retx_threshold := max_retx_threshold\<rparr>
      in case sn_field_length of None \<Rightarrow> e | Some n \<Rightarrow> e\<lparr>am_sn_field_length := n\<rparr>)"

end
