(* ===== verification/RLC_Am_Machine.thy ===== *)
theory RLC_Am_Machine
  imports RLC_Entity
begin

text \<open>
  The AM entity as a state machine: the states that its operations reach from a new entity, in any
  order and with any arguments, and what holds in all of them. The one restriction, for the
  transmission half only, is on STATUS PDUs that report an SN at or above their own ACK_SN as
  missing: these make the entity lose segments (\<open>am_nack_at_ack_loses_segments\<close>).
\<close>

section \<open>Reachable states\<close>

text \<open>A PDU is harmless for the transmission half if it is a data PDU or all its NACKs are below its ACK_SN.\<close>

definition am_status_sane :: "nr_rlc_entity_am_t \<Rightarrow> buffer \<Rightarrow> bool" where
  "am_status_sane e buf \<longleftrightarrow> (buf \<noteq> [] \<and> bit (hd buf) 7)
     \<or> (case am_decode_control e buf of Inr (Some (ack_sn, nacks)) \<Rightarrow> am_nacks_below e ack_sn nacks | _ \<Rightarrow> True)"

inductive am_reach :: "bool \<Rightarrow> nr_rlc_entity_am_t \<Rightarrow> bool" for sane where
  New: "am_reach sane e"
    if "new_nr_rlc_entity_am rx_max tx_max tp tr ts pp pb mr len = Inr e" "0 \<le> rx_max" "0 \<le> tx_max"
| Recv_Pdu: "am_reach sane e'"
    if "am_reach sane e" "sane \<longrightarrow> am_status_sane e buf" "nr_rlc_entity_am_recv_pdu e buf = Inr e'"
| Recv_Sdu: "am_reach sane e'" if "am_reach sane e" "nr_rlc_entity_am_recv_sdu e buf i t = Inr e'"
| Generate_Pdu: "am_reach sane e'" if "am_reach sane e" "nr_rlc_entity_am_generate_pdu e buf t = Inr (e', b, n)"
| Set_Time: "am_reach sane e'" if "am_reach sane e" "nr_rlc_entity_am_set_time e now = Inr e'"
| Discard_Sdu: "am_reach sane (nr_rlc_entity_am_discard_sdu e i)" if "am_reach sane e"
| Reestablishment: "am_reach sane (nr_rlc_entity_am_reestablishment e)" if "am_reach sane e"
| Reconfigure: "am_reach sane (nr_rlc_entity_am_reconfigure e tp tr ts pp pb mr None)" if "am_reach sane e"
| Activate_Avg_Time: "am_reach sane (e\<lparr>avg_time_is_on := b\<rparr>)" if "am_reach sane e"

section \<open>The reception half\<close>

definition am_rx_good :: "nr_rlc_entity_am_t \<Rightarrow> bool" where
  "am_rx_good e \<longleftrightarrow> am_rx_inv e \<and> am_rx_order e \<and> (am_sn_field_length e = 12 \<or> am_sn_field_length e = 18)"

lemma am_rx_good_cong:
  assumes "order_part e' = order_part e"
  shows "am_rx_good e' = am_rx_good e"
proof -
  have "am_sn_field_length e' = am_sn_field_length e" using assms by (simp add: order_part_def rx_part_def)
  then show ?thesis
    unfolding am_rx_good_def using order_part_D(3)[OF assms] am_rx_order_cong[OF assms] by simp
qed

lemma am_recv_sdu_order:
  "nr_rlc_entity_am_recv_sdu e buf i t = Inr e' \<Longrightarrow> order_part e' = order_part e"
  by (auto simp: nr_rlc_entity_am_recv_sdu_def Let_def am_log_rejected_def order_part_def rx_part_def common_defs
      split_def split: if_splits)

lemma am_discard_order: "order_part (nr_rlc_entity_am_discard_sdu e i) = order_part e"
  by (simp add: nr_rlc_entity_am_discard_sdu_def Let_def order_part_def rx_part_def add_bs_tx_def split: list.splits)

lemma am_reconfigure_parts:
  "order_part (nr_rlc_entity_am_reconfigure e tp tr ts pp pb mr None) = order_part e"
  "tx_part (nr_rlc_entity_am_reconfigure e tp tr ts pp pb mr None) = tx_part e"
  by (simp_all add: nr_rlc_entity_am_reconfigure_def Let_def order_part_def rx_part_def tx_part_def)


lemma get_first_bit:
  "get_bits_R (nr_rlc_pdu_decoder_init buf (length buf)) 1 err k =
     (if buf = [] then err else k (of_bool (bit (hd buf) 7)) (dec_at (nr_rlc_pdu_decoder_init buf (length buf)) 1))"
proof (cases buf)
  case Nil
  have "dec_wf (nr_rlc_pdu_decoder_init buf (length buf))" by simp
  from get_bits_R_short[OF this, of 1 err k] Nil show ?thesis by (simp add: bytes_bits_def)
next
  case (Cons b r)
  let ?d = "nr_rlc_pdu_decoder_init buf (length buf)"
  have wf: "dec_wf ?d" by simp
  have "dec_pos ?d = 0" by (simp add: nr_rlc_pdu_decoder_init_def dec_pos_def)
  moreover have "dec_buffer ?d = buf" by (simp add: nr_rlc_pdu_decoder_init_def)
  moreover have "take 1 (bytes_bits buf) = [bit b 7]" using Cons by (simp add: bytes_bits_def msb_bits_def numeral_eq_Suc)
  moreover have "1 \<le> length (bytes_bits buf)" using Cons by simp
  ultimately show ?thesis
    using Cons get_bits_R_ok[OF wf, of 1 err k] by simp
qed

definition am_keeps_tx :: "nr_rlc_entity_am_t \<Rightarrow> nr_rlc_entity_am_t res \<Rightarrow> bool" where
  "am_keeps_tx e r \<longleftrightarrow> (\<forall>e'. r = Inr e' \<longrightarrow> tx_part e' = tx_part e)"

text \<open>A data PDU, or a PDU that is discarded, leaves the transmission half alone.\<close>

lemma am_recv_pdu_halves:
  assumes inv: "am_rx_inv e" and res: "nr_rlc_entity_am_recv_pdu e buf = Inr e'"
  shows "tx_part e' = tx_part e
    \<or> (buf \<noteq> [] \<and> \<not> bit (hd buf) 7 \<and> am_process_control_pdu (upd_stats (count_rxpdu (int (length buf))) e) buf = Inr e')"
proof -
  let ?e = "upd_stats (count_rxpdu (int (length buf))) e"
  let ?P = "am_keeps_tx e"
  have part: "tx_part ?e = tx_part e" by (simp add: tx_part_def upd_stats_def)
  have len: "am_sn_field_length ?e \<le> 31" using inv by (simp add: am_rx_inv_def upd_stats_def)
  have disc: "?P (am_discard p n ?e)" for p n
    by (simp add: am_keeps_tx_def am_discard_def tx_part_def upd_stats_def)
  have data: "?P (am_recv_data ?e buf h p f l sn so)" for h p f l sn so
    using am_recv_data_tx_part part unfolding am_keeps_tx_def by metis
  have rest: "?P (nr_rlc_entity_am_recv_pdu e buf)" if "buf = [] \<or> bit (hd buf) 7"
    unfolding nr_rlc_entity_am_recv_pdu_def Let_def get_first_bit
    using that len disc data by (auto intro!: get_bits_R_rule[where P = ?P] dec_wf_at Suc_leI)
  show ?thesis
  proof (cases "buf = [] \<or> bit (hd buf) 7")
    case True
    then show ?thesis using rest res unfolding am_keeps_tx_def by blast
  next
    case False
    then show ?thesis
      using res unfolding nr_rlc_entity_am_recv_pdu_def Let_def get_first_bit by simp
  qed
qed


lemma am_recv_pdu_field_length:
  assumes inv: "am_rx_inv e" and res: "nr_rlc_entity_am_recv_pdu e buf = Inr e'"
  shows "am_sn_field_length e' = am_sn_field_length e"
  using am_recv_pdu_halves[OF inv res]
proof
  assume "tx_part e' = tx_part e"
  then show ?thesis by (simp add: tx_part_def)
next
  let ?e = "upd_stats (count_rxpdu (int (length buf))) e"
  assume "buf \<noteq> [] \<and> \<not> bit (hd buf) 7 \<and> am_process_control_pdu ?e buf = Inr e'"
  moreover have "am_sn_field_length ?e \<le> 31" using inv by (simp add: am_rx_inv_def upd_stats_def)
  ultimately have "rx_view e' = rx_view ?e" using am_process_control_view[of ?e buf] by (metis Inr_inject)
  then show ?thesis by (simp add: rx_view_def rx_part_def upd_stats_def)
qed

lemma am_check_t_reassembly_tx_part:
  assumes "am_check_t_reassembly e = Inr e'"
  shows "tx_part e' = tx_part e"
  using assms by (auto simp: am_check_t_reassembly_def Let_def tx_part_def split: if_splits option.splits)

lemma am_set_time_rx_good:
  assumes good: "am_rx_good e" and res: "nr_rlc_entity_am_set_time e now = Inr e'"
  shows "am_rx_good e'"
proof -
  obtain e1 where e1: "am_check_t_poll_retransmit (e\<lparr>am_t_current := now\<rparr>) = Inr e1" "am_check_t_reassembly e1 = Inr e'"
    using res by (auto simp: nr_rlc_entity_am_set_time_def bindE_eq_Inr)
  have "order_part (e\<lparr>am_t_current := now\<rparr>) = order_part e" by (simp add: order_part_def rx_part_def)
  with am_check_t_poll_retransmit_frame(1)[OF e1(1)] have g1: "am_rx_good e1"
    using am_rx_good_cong[of e1 e] good by simp
  have "am_sn_field_length e' = am_sn_field_length e1"
    using am_check_t_reassembly_tx_part[OF e1(2)] by (simp add: tx_part_def)
  then show ?thesis using am_check_t_reassembly_order[of e1] g1 e1(2) by (auto simp: am_rx_good_def)
qed

lemma new_am_rx_good:
  assumes new: "new_nr_rlc_entity_am rx_max tx_max tp tr ts pp pb mr len = Inr e" and "0 \<le> rx_max"
  shows "am_rx_good e"
proof -
  note n = new_am_rx_inv[OF assms]
  have "am_sn_field_length e = 12 \<or> am_sn_field_length e = 18" "am_rx_highest_status e = 0"
    "am_rx_next_highest e = 0" "am_t_reassembly_start e = 0"
    using new by (auto simp: new_nr_rlc_entity_am_def Let_def split: if_splits)
  then show ?thesis using n am_fresh_order[OF n(1)] by (simp add: am_rx_good_def)
qed

lemma am_reach_rx_good:
  assumes "am_reach sane e"
  shows "am_rx_good e"
  using assms
proof induction
  case (New rx_max tx_max tp tr ts pp pb mr len e)
  then show ?case using new_am_rx_good by blast
next
  case (Recv_Pdu e buf e')
  then have inv: "am_rx_inv e" and ord: "am_rx_order e" by (simp_all add: am_rx_good_def)
  have "am_rx_inv e'" using am_recv_pdu_rx_post[OF inv, of buf] Recv_Pdu.hyps(3) by (simp add: am_rx_post_def)
  moreover have "am_rx_order e'" using am_recv_pdu_order[OF inv ord, of buf] Recv_Pdu.hyps(3) by (simp add: am_order_post_def)
  ultimately show ?case
    using am_recv_pdu_field_length[OF inv Recv_Pdu.hyps(3)] Recv_Pdu.IH by (simp add: am_rx_good_def)
next
  case (Recv_Sdu e buf i t e')
  then show ?case using am_rx_good_cong am_recv_sdu_order by blast
next
  case (Generate_Pdu e buf t e' b n)
  then show ?case using am_rx_good_cong am_generate_pdu_order by blast
next
  case (Set_Time e now e')
  then show ?case using am_set_time_rx_good by blast
next
  case (Discard_Sdu e i)
  then show ?case using am_rx_good_cong am_discard_order by blast
next
  case (Reestablishment e)
  then show ?case
    using am_clear_rx_inv[of e] by (simp add: am_rx_good_def nr_rlc_entity_am_reestablishment_def am_clear_entity_def)
next
  case (Reconfigure e tp tr ts pp pb mr)
  then show ?case using am_rx_good_cong am_reconfigure_parts(1) by blast
next
  case (Activate_Avg_Time e b)
  then show ?case using am_rx_good_cong[of "e\<lparr>avg_time_is_on := b\<rparr>" e] by (simp add: order_part_def rx_part_def)
qed


section \<open>The transmission half\<close>

lemma am_status_sane_frame:
  assumes "am_status_sane e buf" and "buf \<noteq> []" "\<not> bit (hd buf) 7"
    and "am_decode_control (upd_stats f e) buf = Inr (Some (ack_sn, nacks))"
  shows "am_nacks_below (upd_stats f e) ack_sn nacks"
proof -
  have "am_decode_control (upd_stats f e) = am_decode_control e"
    by (simp add: am_decode_control_def fun_eq_iff upd_stats_def)
  moreover have "am_sn_compare_tx (upd_stats f e) = am_sn_compare_tx e" "am_expand_nack (upd_stats f e) = am_expand_nack e"
    by (simp_all add: fun_eq_iff am_sn_compare_tx_def am_modulus_tx_def am_expand_nack_def upd_stats_def Let_def)
  ultimately show ?thesis
    using assms by (simp add: am_status_sane_def am_nacks_below_def)
qed

lemma am_recv_pdu_tx_inv:
  assumes rx: "am_rx_inv e" and inv: "am_tx_inv e" and sane: "am_status_sane e buf"
    and res: "nr_rlc_entity_am_recv_pdu e buf = Inr e'"
  shows "am_tx_inv e'"
  using am_recv_pdu_halves[OF rx res]
proof
  assume "tx_part e' = tx_part e"
  then show ?thesis using am_tx_inv_cong inv by blast
next
  let ?e = "upd_stats (count_rxpdu (int (length buf))) e"
  assume c: "buf \<noteq> [] \<and> \<not> bit (hd buf) 7 \<and> am_process_control_pdu ?e buf = Inr e'"
  have "am_tx_inv ?e" using am_tx_inv_cong[of ?e e] inv by (simp add: tx_part_def upd_stats_def)
  from am_process_control_inv[OF this, of buf] c show ?thesis
    using am_status_sane_frame[OF sane] by (metis Inr_inject)
qed

lemma am_recv_sdu_tx_inv:
  assumes inv: "am_tx_inv e" and res: "nr_rlc_entity_am_recv_sdu e buf i t = Inr e'"
  shows "am_tx_inv e'"
proof -
  have sz: "int (length buf) \<le> NR_SDU_MAX"
    using res by (auto simp: nr_rlc_entity_am_recv_sdu_def Let_def split: if_splits)
  show ?thesis
  proof (cases "int (length buf) \<le> nr_rlc_entity_am_available_tx_space e")
    case True
    then show ?thesis using am_recv_sdu_accepted[OF inv sz True, of i t] res by auto
  next
    case False
    then obtain e1 where "nr_rlc_entity_am_recv_sdu e buf i t = Inr e1" "tx_part e1 = tx_part e"
      using am_recv_sdu_refused[OF sz, of e i t] by auto
    then show ?thesis using res inv am_tx_inv_cong[of e' e] by simp
  qed
qed

lemma am_rx_good_report: "am_rx_good e \<Longrightarrow> \<exists>h. am_report_at e h"
  using am_win_report by (auto simp: am_rx_good_def am_rx_order_def)

lemma am_set_time_tx_inv:
  assumes inv: "am_tx_inv e" and res: "nr_rlc_entity_am_set_time e now = Inr e'"
  shows "am_tx_inv e'"
proof -
  obtain e1 where e1: "am_check_t_poll_retransmit (e\<lparr>am_t_current := now\<rparr>) = Inr e1" "am_check_t_reassembly e1 = Inr e'"
    using res by (auto simp: nr_rlc_entity_am_set_time_def bindE_eq_Inr)
  have "am_tx_inv (e\<lparr>am_t_current := now\<rparr>)" using am_tx_inv_cong[of "e\<lparr>am_t_current := now\<rparr>" e] inv by (simp add: tx_part_def)
  then have "am_tx_inv e1" using am_check_t_poll_retransmit_inv e1(1) by blast
  then show ?thesis using am_tx_inv_cong am_check_t_reassembly_tx_part[OF e1(2)] by blast
qed

lemma am_reach_tx_inv:
  assumes "am_reach True e"
  shows "am_tx_inv e"
  using assms
proof induction
  case (New rx_max tx_max tp tr ts pp pb mr len e)
  then show ?case using new_am_tx_inv by blast
next
  case (Recv_Pdu e buf e')
  then show ?case using am_recv_pdu_tx_inv[of e buf e'] am_reach_rx_good[OF Recv_Pdu.hyps(1)] by (simp add: am_rx_good_def)
next
  case (Recv_Sdu e buf i t e')
  then show ?case using am_recv_sdu_tx_inv by blast
next
  case (Generate_Pdu e buf t e' b n)
  then obtain h where "am_report_at e h" using am_rx_good_report am_reach_rx_good by blast
  then show ?case using am_generate_pdu_ok[of e h buf t] Generate_Pdu by auto
next
  case (Set_Time e now e')
  then show ?case using am_set_time_tx_inv by blast
next
  case (Discard_Sdu e i)
  then show ?case using am_discard_sdu_inv by blast
next
  case (Reestablishment e)
  then show ?case using am_clear_tx_inv by (simp add: nr_rlc_entity_am_reestablishment_def)
next
  case (Reconfigure e tp tr ts pp pb mr)
  then show ?case using am_tx_inv_cong am_reconfigure_parts(2) by blast
next
  case (Activate_Avg_Time e b)
  then show ?case using am_tx_inv_cong[of "e\<lparr>avg_time_is_on := b\<rparr>" e] by (simp add: tx_part_def)
qed

end
