(* ===== verification/RLC_Am_Progress.thy ===== *)
theory RLC_Am_Progress
  imports RLC_Am_Machine
begin

text \<open>
  What holds in every reachable state of an AM entity: the order of the reception variables, the
  accounting of the transmission buffer, that generating a PDU always succeeds and makes progress,
  that the buffer status announces the STATUS PDU that is then built, and that deleting an entity
  leaks nothing.
\<close>

section \<open>Progress of transmission\<close>

text \<open>The work left: one unit per byte and per segment of the two lists that are served.\<close>

definition am_pending :: "nr_rlc_entity_am_t \<Rightarrow> int" where
  "am_pending e = (\<Sum>g \<leftarrow> am_retransmit_list e @ am_tx_list e. seg_size g + 1)"

lemma am_pending_cong: "tx_part e' = tx_part e \<Longrightarrow> am_pending e' = am_pending e"
  by (simp add: am_pending_def tx_part_def)

lemma am_put_lists:
  "am_retransmit_list (am_put_in_wait_list g e) = am_retransmit_list e" "am_tx_list (am_put_in_wait_list g e) = am_tx_list e"
  using am_put_in_wait_list_form[of g e] by auto

lemma am_bs_lists:
  "am_retransmit_list (add_bs_retx i e) = am_retransmit_list e" "am_tx_list (add_bs_retx i e) = am_tx_list e"
  "am_retransmit_list (add_bs_tx i e) = am_retransmit_list e" "am_tx_list (add_bs_tx i e) = am_tx_list e"
  "am_retransmit_list (upd_stats f e) = am_retransmit_list e" "am_tx_list (upd_stats f e) = am_tx_list e"
  by (simp_all add: add_bs_retx_def add_bs_tx_def upd_stats_def)

lemma am_resegment_lists:
  assumes "am_resegment g e n = (e1, g1, g2)"
  shows "am_retransmit_list e1 = am_retransmit_list e" "am_tx_list e1 = am_tx_list e"
    "seg_size g2 = am_compute_pdu_header_size e g + seg_size g - n"
  using assms by (auto simp: am_resegment_def Let_def am_compute_pdu_header_size_def)

lemma am_retx_prepare_pending:
  assumes inv: "am_tx_inv e" and l: "am_retransmit_list e = g # rest"
    and n: "am_compute_pdu_header_size e g + 1 \<le> n"
  shows "am_pending (fst (am_retx_prepare e n g rest)) < am_pending e"
proof -
  have "g \<in># am_segs e" using l by (simp add: am_segs_def)
  then have sz: "0 \<le> seg_size g" using am_seg_live[OF inv] by (auto simp: seg_in_sdu_def)
  let ?e0 = "add_bs_retx (- (am_compute_pdu_header_size e g + seg_size g)) (e\<lparr>am_retransmit_list := rest\<rparr>)"
  obtain e1 g1 g2 where re: "am_resegment g ?e0 n = (e1, g1, g2)" by (metis prod_cases3)
  have "am_compute_pdu_header_size ?e0 g = am_compute_pdu_header_size e g"
    by (simp add: am_compute_pdu_header_size_def add_bs_retx_def)
  then show ?thesis
    using am_resegment_lists[OF re] re l n sz
    by (simp add: am_retx_prepare_def Let_def am_pending_def am_bs_lists)
qed

lemma am_tx_prepare_pending:
  assumes inv: "am_tx_inv e" and l: "am_tx_list e = g # rest"
    and n: "am_compute_pdu_header_size e g + 1 \<le> n"
  shows "am_pending (fst (am_tx_prepare e n g rest)) < am_pending e"
proof -
  have "g \<in># am_segs e" using l by (simp add: am_segs_def)
  then have sz: "0 \<le> seg_size g" using am_seg_live[OF inv] by (auto simp: seg_in_sdu_def)
  let ?e0 = "am_assign_sn g (add_bs_tx (- (am_compute_pdu_header_size e g + seg_size g)) (e\<lparr>am_tx_list := rest\<rparr>))"
  obtain e1 g1 g2 where re: "am_resegment g ?e0 n = (e1, g1, g2)" by (metis prod_cases3)
  have "am_compute_pdu_header_size ?e0 g = am_compute_pdu_header_size e g"
    by (simp add: am_compute_pdu_header_size_def add_bs_tx_def am_assign_sn_def)
  moreover have "am_retransmit_list ?e0 = am_retransmit_list e" "am_tx_list ?e0 = rest"
    by (simp_all add: add_bs_tx_def am_assign_sn_def)
  ultimately show ?thesis
    using am_resegment_lists[OF re] re l n sz
    by (simp add: am_tx_prepare_def Let_def am_pending_def am_bs_lists)
qed

definition am_advances :: "nr_rlc_entity_am_t \<Rightarrow> (nr_rlc_entity_am_t \<times> buffer \<times> int) res \<Rightarrow> bool" where
  "am_advances e r \<longleftrightarrow> (\<exists>e' buf' n. r = Inr (e', buf', n) \<and> 0 < n \<and> am_pending e' < am_pending e)"

lemma am_generate_retx_progress:
  assumes inv: "am_tx_inv e" and l: "am_retransmit_list e = g # rest"
    and n: "am_compute_pdu_header_size e g + 1 \<le> int (length buf)"
  shows "am_advances e (am_generate_retx_pdu e buf)"
proof -
  obtain e0 g0 where pr: "am_retx_prepare e (int (length buf)) g rest = (e0, g0)" by force
  note ok = am_retx_prepare_ok[OF inv l n pr]
  have dec: "am_pending e0 < am_pending e" using am_retx_prepare_pending[OF inv l n] pr by simp
  let ?w = "am_put_in_wait_list g0 e0"
  let ?h = "\<lambda>ret. upd_stats (\<lambda>s. (count_txpdu ret s)\<lparr>txpdu_retx_pkts := txpdu_retx_pkts s + 1,
                      txpdu_retx_bytes := txpdu_retx_bytes s + word_of_int ret\<rparr>)"
  have pend: "am_pending (?w\<lparr>am_force_poll := False\<rparr>) = am_pending e0"
    by (simp add: am_pending_def am_put_lists)
  have "\<exists>e' buf' n. bindE (am_serialize_sdu (?w\<lparr>am_force_poll := False\<rparr>) g0 buf
        (am_check_poll_after_pdu_assembly ?w \<or> am_force_poll ?w)) (\<lambda>(e, buf, ret). Inr (?h ret e, buf, ret)) = Inr (e', buf', n)
      \<and> 0 < n \<and> tx_part e' = tx_part (?w\<lparr>am_force_poll := False\<rparr>)"
  proof (rule am_send_prepared(2))
    show "rx_part (?w\<lparr>am_force_poll := False\<rparr>) = rx_part e0" "events (?w\<lparr>am_force_poll := False\<rparr>) = events e0"
      using am_put_in_wait_list_frame[of g0 e0] by (simp_all add: rx_part_def)
  qed (use ok in \<open>simp_all add: tx_part_def rx_part_def upd_stats_def\<close>)
  then have "am_advances e (bindE (am_serialize_sdu (?w\<lparr>am_force_poll := False\<rparr>) g0 buf
        (am_check_poll_after_pdu_assembly ?w \<or> am_force_poll ?w)) (\<lambda>(e, buf, ret). Inr (?h ret e, buf, ret)))"
    unfolding am_advances_def using am_pending_cong pend dec by metis
  then show ?thesis using l n pr by (simp add: am_generate_retx_pdu_eq Let_def)
qed

lemma am_generate_tx_progress:
  assumes inv: "am_tx_inv e" and l: "am_tx_list e = g # rest" and w: "\<not> am_is_window_stalling e"
    and n: "am_compute_pdu_header_size e g + 1 \<le> int (length buf)"
  shows "am_advances e (am_generate_tx_pdu e buf t)"
proof -
  obtain e0 g0 where pr: "am_tx_prepare e (int (length buf)) g rest = (e0, g0)" by force
  note ok = am_tx_prepare_ok[OF inv l n pr]
  have dec: "am_pending e0 < am_pending e" using am_tx_prepare_pending[OF inv l n] pr by simp
  let ?w = "am_put_in_wait_list g0 e0"
  let ?w1 = "?w\<lparr>am_pdu_without_poll := am_pdu_without_poll ?w + 1,
                am_byte_without_poll := am_byte_without_poll ?w + seg_size g0\<rparr>"
  let ?h = "\<lambda>ret e. record_waiting_time t g0 (upd_stats (count_txpdu ret) e)"
  have pend: "am_pending (?w1\<lparr>am_force_poll := False\<rparr>) = am_pending e0"
    by (simp add: am_pending_def am_put_lists)
  have "\<exists>e' buf' n. bindE (am_serialize_sdu (?w1\<lparr>am_force_poll := False\<rparr>) g0 buf p)
      (\<lambda>(e, buf, ret). Inr (?h ret e, buf, ret)) = Inr (e', buf', n)
      \<and> 0 < n \<and> tx_part e' = tx_part (?w1\<lparr>am_force_poll := False\<rparr>)" for p
  proof (rule am_send_prepared(2))
    show "rx_part (?w1\<lparr>am_force_poll := False\<rparr>) = rx_part e0" "events (?w1\<lparr>am_force_poll := False\<rparr>) = events e0"
      using am_put_in_wait_list_frame[of g0 e0] by (simp_all add: rx_part_def)
  qed (use ok in \<open>simp_all add: tx_part_def rx_part_def upd_stats_def record_waiting_time_def emit_def\<close>)
  then have "am_advances e (bindE (am_serialize_sdu (?w1\<lparr>am_force_poll := False\<rparr>) g0 buf p)
      (\<lambda>(e, buf, ret). Inr (?h ret e, buf, ret)))" for p
    unfolding am_advances_def using am_pending_cong pend dec by metis
  then show ?thesis using l w n pr by (simp add: am_generate_tx_pdu_eq Let_def)
qed

text \<open>A PDU header is at most five bytes, so six bytes always carry something.\<close>

lemma am_header_le: "am_compute_pdu_header_size e g \<le> 5"
  by (simp add: am_compute_pdu_header_size_def)

lemma am_generate_progress:
  assumes inv: "am_tx_inv e" and st: "\<not> am_status_to_report e" and len: "6 \<le> length buf"
    and work: "am_retransmit_list e \<noteq> [] \<or> (am_tx_list e \<noteq> [] \<and> \<not> am_is_window_stalling e)"
  shows "am_advances e (nr_rlc_entity_am_generate_pdu e buf t)"
proof (cases "am_retransmit_list e")
  case (Cons g rest)
  have "am_compute_pdu_header_size e g + 1 \<le> int (length buf)" using am_header_le[of e g] len by linarith
  from am_generate_retx_progress[OF inv Cons this] show ?thesis
    using st Cons by (auto simp: am_advances_def nr_rlc_entity_am_generate_pdu_def)
next
  case Nil
  then obtain g rest where l: "am_tx_list e = g # rest" using work by (cases "am_tx_list e") auto
  have "am_compute_pdu_header_size e g + 1 \<le> int (length buf)" using am_header_le[of e g] len by linarith
  from am_generate_tx_progress[OF inv l _ this, of t] show ?thesis
    using st Nil work by (auto simp: nr_rlc_entity_am_generate_pdu_def)
qed

section \<open>Two reachable states\<close>

text \<open>Reading the evaluation of an example, and running one more operation in it.\<close>

lemma run_ok:
  assumes "case r of Inl _ \<Rightarrow> False | Inr x \<Rightarrow> P x"
  obtains a where "r = Inr a" "P a"
proof (cases r)
  case (Inr a)
  then have "P a" using assms by (subst (asm) Inr) simp
  then show ?thesis using that Inr by blast
qed (use assms in simp)

lemma run_bindE:
  assumes "case bindE r k of Inl _ \<Rightarrow> False | Inr x \<Rightarrow> P x" and "r = Inr a"
  obtains x where "k a = Inr x" "P x" "bindE r k = Inr x"
  using assms by (cases "k a") auto

text \<open>After a data PDU with SN 1: the first SN of the window is missing.\<close>

definition am_gap :: "nr_rlc_entity_am_t res" where
  "am_gap = bindE am_example (\<lambda>e. nr_rlc_entity_am_recv_pdu e [0x80, 1, 1, 2])"

text \<open>The same entity with ten bytes to send.\<close>

definition am_busy :: "nr_rlc_entity_am_t res" where
  "am_busy = bindE am_gap (\<lambda>e. nr_rlc_entity_am_recv_sdu e [1, 2, 3, 4, 5, 6, 7, 8, 9, 10] 0 0)"

lemma am_gap_reach: "\<exists>e. am_gap = Inr e \<and> am_reach True e \<and> am_rx_next_highest e = 2 \<and> am_window_size e = 2048"
proof -
  have v: "case am_gap of Inl _ \<Rightarrow> False | Inr e \<Rightarrow> am_rx_next_highest e = 2 \<and> am_window_size e = 2048" by code_simp
  obtain e0 where e0: "am_example = Inr e0" using am_example_new by blast
  then have r0: "am_reach True e0" unfolding am_example_def by (intro am_reach.New) auto
  obtain e where e: "nr_rlc_entity_am_recv_pdu e0 [0x80, 1, 1, 2] = Inr e"
    "am_rx_next_highest e = 2 \<and> am_window_size e = 2048" "am_gap = Inr e"
    using run_bindE[OF v[unfolded am_gap_def] e0] unfolding am_gap_def by blast
  have "am_reach True e" using r0 _ e(1) by (rule am_reach.Recv_Pdu) (simp add: am_status_sane_def)
  then show ?thesis using e by blast
qed

lemma am_busy_reach:
  "\<exists>e. am_busy = Inr e \<and> am_reach True e \<and> \<not> am_status_to_report e \<and> am_tx_list e \<noteq> []
     \<and> \<not> am_is_window_stalling e \<and> am_tx_size e = 10"
proof -
  have v: "case am_busy of Inl _ \<Rightarrow> False
    | Inr e \<Rightarrow> \<not> am_status_to_report e \<and> am_tx_list e \<noteq> [] \<and> \<not> am_is_window_stalling e \<and> am_tx_size e = 10"
    by code_simp
  obtain e0 where e0: "am_gap = Inr e0" "am_reach True e0" using am_gap_reach by blast
  obtain e where e: "nr_rlc_entity_am_recv_sdu e0 [1, 2, 3, 4, 5, 6, 7, 8, 9, 10] 0 0 = Inr e" "am_busy = Inr e"
    "\<not> am_status_to_report e \<and> am_tx_list e \<noteq> [] \<and> \<not> am_is_window_stalling e \<and> am_tx_size e = 10"
    using run_bindE[OF v[unfolded am_busy_def] e0(1)] unfolding am_busy_def by blast
  have "am_reach True e" using e0(2) e(1) by (rule am_reach.Recv_Sdu)
  then show ?thesis using e by blast
qed

section \<open>Properties of reachable states\<close>





text \<open>
  Property C19. In such a state the MAC can always ask for a PDU: \<open>generate_pdu\<close> never stops the
  program, never loops, never writes outside the buffer, keeps the state consistent, and what it
  returns is nothing, a STATUS PDU of the announced size, or the header and the bytes of a segment
  that from then on waits for its acknowledgement.
\<close>

theorem am_generate_pdu_safe:
  assumes "am_reach True e"
  shows "\<exists>e' buf' n. nr_rlc_entity_am_generate_pdu e buf t = Inr (e', buf', n) \<and> am_reach True e'
    \<and> length buf' = length buf \<and> 0 \<le> n \<and> n \<le> int (length buf)
    \<and> (n = 0 \<or> am_sent e' buf' n \<or> (am_status_to_report e \<and> am_status_size e (int (length buf)) = Inr n))"
proof -
  obtain h where "am_report_at e h" using am_rx_good_report am_reach_rx_good[OF assms] by blast
  from am_generate_pdu_ok[OF am_reach_tx_inv[OF assms] this, of buf t] show ?thesis
    using am_reach.Generate_Pdu[OF assms] by blast
qed

theorem am_generate_pdu_safe_witness:
  "\<exists>e e' buf' n. am_busy = Inr e \<and> nr_rlc_entity_am_generate_pdu e (replicate 9 0) 0 = Inr (e', buf', n)
     \<and> am_reach True e' \<and> length buf' = 9 \<and> n \<le> 9"
proof -
  obtain e where e: "am_busy = Inr e" "am_reach True e" using am_busy_reach by blast
  from am_generate_pdu_safe[OF e(2), of "replicate 9 0" 0] e(1) show ?thesis by auto
qed

text \<open>
  Property C22. The MAC is told the truth: when a STATUS report is due, the size that
  \<open>buffer_status\<close> announces for a grant of that size is exactly the size of the STATUS PDU that
  \<open>generate_pdu\<close> then writes, although the two are computed by different loops.
\<close>

theorem am_status_announced:
  assumes "am_reach sane e" and "am_status_to_report e" and "3 \<le> length buf"
  shows "\<exists>b e' buf' n. nr_rlc_entity_am_buffer_status e (int (length buf)) = Inr b
    \<and> nr_rlc_entity_am_generate_pdu e buf t = Inr (e', buf', n) \<and> bs_status_size b = n \<and> 3 \<le> n"
proof -
  obtain h where "am_report_at e h" using am_rx_good_report am_reach_rx_good[OF assms(1)] by blast
  from am_generate_status_ok[OF this assms(3)] obtain e' buf' n where
    "am_generate_status e buf = Inr (e', buf', n)" "am_status_size e (int (length buf)) = Inr n" "3 \<le> n" by blast
  then show ?thesis
    using assms(2) by (simp add: nr_rlc_entity_am_generate_pdu_def nr_rlc_entity_am_buffer_status_def)
qed

text \<open>A data PDU with the poll bit and a missing SN below it: a report is due.\<close>

definition am_polled :: "nr_rlc_entity_am_t res" where
  "am_polled = bindE am_example (\<lambda>e. nr_rlc_entity_am_recv_pdu e [0xc0, 1, 1, 2])"

theorem am_status_announced_witness:
  "\<exists>e b e' buf'. am_polled = Inr e \<and> nr_rlc_entity_am_buffer_status e 9 = Inr b
    \<and> nr_rlc_entity_am_generate_pdu e (replicate 9 0) 0 = Inr (e', buf', bs_status_size b) \<and> 3 \<le> bs_status_size b"
proof -
  have v: "case am_polled of Inl _ \<Rightarrow> False | Inr e \<Rightarrow> am_status_to_report e" by code_simp
  obtain e0 where e0: "am_example = Inr e0" using am_example_new by blast
  then have r0: "am_reach False e0" unfolding am_example_def by (intro am_reach.New) auto
  obtain e where e: "nr_rlc_entity_am_recv_pdu e0 [0xc0, 1, 1, 2] = Inr e" "am_status_to_report e" "am_polled = Inr e"
    using run_bindE[OF v[unfolded am_polled_def] e0] unfolding am_polled_def by blast
  have r: "am_reach False e" using r0 _ e(1) by (rule am_reach.Recv_Pdu) simp
  show ?thesis using am_status_announced[OF r e(2), of "replicate 9 0" 0] e(3) by auto
qed





text \<open>
  The periodic \<open>set_time\<close> ends in a reachable state or stops at the one NULL pointer dereference of the poll
  timer; the search of the reassembly timer for the next undelivered SN always ends.
\<close>

lemma am_set_time_ends:
  assumes "am_reach True e"
  shows "(\<exists>e'. nr_rlc_entity_am_set_time e now = Inr e' \<and> am_reach True e')
    \<or> (nr_rlc_entity_am_set_time e now = Inl Null_Deref \<and> am_wait_list e = [])"
proof (cases "am_check_t_poll_retransmit (e\<lparr>am_t_current := now\<rparr>)")
  case (Inl x)
  then have "x = Null_Deref \<and> am_wait_list e = []"
    by (auto simp: am_check_t_poll_retransmit_def Let_def split: if_splits list.splits)
  then show ?thesis using Inl by (simp add: nr_rlc_entity_am_set_time_def)
next
  case (Inr e1)
  have "order_part (e\<lparr>am_t_current := now\<rparr>) = order_part e" by (simp add: order_part_def rx_part_def)
  with am_check_t_poll_retransmit_frame(1)[OF Inr] have "am_rx_good e1"
    using am_rx_good_cong[of e1 e] am_reach_rx_good[OF assms] by simp
  then obtain e' where "am_check_t_reassembly e1 = Inr e'"
    using am_check_t_reassembly_order[of e1] by (auto simp: am_rx_good_def)
  then have "nr_rlc_entity_am_set_time e now = Inr e'" using Inr by (simp add: nr_rlc_entity_am_set_time_def)
  then show ?thesis using am_reach.Set_Time[OF assms] by blast
qed


end
