(* ===== verification/RLC_Am_Link.thy ===== *)
theory RLC_Am_Link
  imports RLC_Am_Progress
begin

text \<open>
  Two AM entities and the link between them: the PDU that one entity generates is decoded by its
  peer to the same SN, offset, flags and bytes; and the STATUS PDU path of the transmitting half.
\<close>

section \<open>The peer decodes what was serialised\<close>

text \<open>Reading one field at a known position of the PDU.\<close>

lemma read_at:
  assumes "m \<le> 8 * length buf" and "take n (drop m (bytes_bits buf)) = msb_bits n v"
    and "n \<le> 31" and "0 \<le> v" and "v < 2 ^ n"
  shows "get_bits_R (dec_at (nr_rlc_pdu_decoder_init buf (length buf)) m) n err k
    = k v (dec_at (nr_rlc_pdu_decoder_init buf (length buf)) (m + n))"
proof -
  let ?d = "dec_at (nr_rlc_pdu_decoder_init buf (length buf)) m"
  have "dec_rest ?d = drop m (bytes_bits buf)" by (simp add: dec_rest_def nr_rlc_pdu_decoder_init_def)
  then have rest: "dec_rest ?d = msb_bits n v @ drop n (drop m (bytes_bits buf))"
    using assms(2) by (metis append_take_drop_id)
  have "dec_wf ?d" using assms(1) by (intro dec_wf_at) auto
  from get_bits_R_field(1)[OF this rest assms(3-5), of err k] show ?thesis by simp
qed

lemma am_si_bits:
  "msb_bits (Suc 0) (1 - of_bool f :: int) @ msb_bits (Suc 0) (1 - of_bool l :: int) @ r
     = msb_bits 2 (2 * (1 - of_bool f) + (1 - of_bool l) :: int) @ r"
  "bit (2 * (1 - of_bool f) + (1 - of_bool l) :: int) 1 \<longleftrightarrow> \<not> f"
  "bit (2 * (1 - of_bool f) + (1 - of_bool l) :: int) 0 \<longleftrightarrow> \<not> l"
  by (cases f; cases l; simp add: numeral_2_eq_2 bit_0 bit_Suc)+

lemma am_recv_pdu_decodes:
  assumes ok: "am_seg_ok e g" and len: "am_sn_field_length r = am_sn_field_length e"
    and h: "h = nat (am_compute_pdu_header_size e g)" "h \<le> length buf"
    and bits: "bytes_bits (take h buf) = field_bits (am_poll_fields e g p)"
  shows "nr_rlc_entity_am_recv_pdu r buf
    = am_recv_data (upd_stats (count_rxpdu (int (length buf))) r) buf h (of_bool p)
        (seg_is_first g) (seg_is_last g) (am_seg_sn e g) (seg_so g)"
proof -
  let ?d = "\<lambda>n. dec_at (nr_rlc_pdu_decoder_init buf (length buf)) n" and ?L = "am_sn_field_length e"
  let ?si = "2 * (1 - of_bool (seg_is_first g)) + (1 - of_bool (seg_is_last g)) :: int"
  let ?so = "if seg_is_first g then [] else msb_bits 16 (seg_so g)" and ?rest = "bytes_bits (drop h buf)"
  let ?sn = "msb_bits ?L (am_seg_sn e g)" and ?r = "if ?L = 18 then msb_bits 2 (0 :: int) else []"
  let ?k = "4 + length ?r"
  have L: "?L = 12 \<or> ?L = 18" and sn: "0 \<le> am_seg_sn e g" "am_seg_sn e g < 2 ^ ?L"
    and so: "0 \<le> seg_so g" "seg_so g < 2 ^ 16" "seg_is_first g \<longleftrightarrow> seg_so g = 0"
    using ok by (auto simp: am_seg_ok_def am_sn_ok_def seg_in_sdu_def NR_SDU_MAX_def)
  have all: "bytes_bits buf = field_bits (am_poll_fields e g p) @ ?rest"
    using bits by (metis append_take_drop_id bytes_bits_def concat_append map_append)
  have fs: "field_bits (am_poll_fields e g p)
      = msb_bits 1 (1 :: int) @ msb_bits 1 (of_bool p :: int) @ msb_bits 2 ?si @ ?r @ ?sn @ ?so"
    by (simp add: am_poll_fields_def am_header_fields_def) (simp add: numeral_2_eq_2 bit_Suc bit_0)
  have init: "?d 0 = nr_rlc_pdu_decoder_init buf (length buf)"
    by (simp add: nr_rlc_pdu_decoder_init_def dec_at_def)
  have bound: "8 * h \<le> 8 * length buf" using h by simp
  have hk: "8 * h = ?k + ?L + length ?so" using L h(1) by (auto simp: am_compute_pdu_header_size_def)
  have rd: "get_bits_R (?d m) n err k = k v (?d (m + n))"
    if "m \<le> 8 * h" "take n (drop m (bytes_bits buf)) = msb_bits n v" "n \<le> 31" "0 \<le> v" "v < 2 ^ n"
    for m n v err and k :: "int \<Rightarrow> nr_rlc_pdu_decoder_t \<Rightarrow> nr_rlc_entity_am_t res"
    using read_at[of m buf n v err k] that bound by simp
  have s1: "get_bits_R (?d 0) 1 err k = k 1 (?d 1)" for err and k :: "int \<Rightarrow> nr_rlc_pdu_decoder_t \<Rightarrow> nr_rlc_entity_am_t res"
    using rd[of 0 1 1] by (simp add: all fs)
  have s2: "get_bits_R (?d 1) 1 err k = k (of_bool p) (?d 2)" for err and k :: "int \<Rightarrow> nr_rlc_pdu_decoder_t \<Rightarrow> nr_rlc_entity_am_t res"
    using rd[of 1 1 "of_bool p" err k] hk by (simp add: all fs) (simp add: numeral_2_eq_2)
  have s3: "get_bits_R (?d 2) 2 err k = k ?si (?d 4)" for err and k :: "int \<Rightarrow> nr_rlc_pdu_decoder_t \<Rightarrow> nr_rlc_entity_am_t res"
    using rd[of 2 2 ?si] hk by (simp add: all fs)
  have s4: "get_bits_R (?d 4) 2 err k = k 0 (?d 6)" if "?L = 18"
    for err and k :: "int \<Rightarrow> nr_rlc_pdu_decoder_t \<Rightarrow> nr_rlc_entity_am_t res"
    using rd[of 4 2 0] hk that by (simp add: all fs)
  have s5: "get_bits_R (?d ?k) ?L err k = k (am_seg_sn e g) (?d (?k + ?L))"
    for err and k :: "int \<Rightarrow> nr_rlc_pdu_decoder_t \<Rightarrow> nr_rlc_entity_am_t res"
  proof (rule rd)
    show "take ?L (drop ?k (bytes_bits buf)) = ?sn" unfolding all fs using L by auto
  qed (use hk sn L in auto)
  have s6: "get_bits_R (?d (?k + ?L)) 16 err k = k (seg_so g) (?d (8 * h))" if "\<not> seg_is_first g"
    for err and k :: "int \<Rightarrow> nr_rlc_pdu_decoder_t \<Rightarrow> nr_rlc_entity_am_t res"
  proof -
    have "take 16 (drop (?k + ?L) (bytes_bits buf)) = msb_bits 16 (seg_so g)" unfolding all fs using L that by auto
    from rd[OF _ this, of err k] show ?thesis using hk so that by simp
  qed
  have byte: "dec_byte (?d (8 * h)) = h" by simp
  have us: "am_sn_field_length (upd_stats (count_rxpdu (int (length buf))) r) = ?L" using len by (simp add: upd_stats_def)
  show ?thesis
  proof (cases "seg_is_first g")
    case True
    then have "?k + ?L = 8 * h" "seg_so g = 0" using hk so by simp_all
    then show ?thesis
      unfolding nr_rlc_entity_am_recv_pdu_def Let_def us s1[unfolded init] s2 s3
      using True L s4 s5 byte by (elim disjE) (simp_all add: am_si_bits)
  next
    case False
    then show ?thesis
      unfolding nr_rlc_entity_am_recv_pdu_def Let_def us s1[unfolded init] s2 s3
      using L s4 s5 s6[OF False] so byte by (elim disjE) (simp_all add: am_si_bits)
  qed
qed

lemma am_sent_decodes:
  assumes sent: "am_sent e buf n" and len: "am_sn_field_length r = am_sn_field_length e" and n: "n \<le> int (length buf)"
  shows "\<exists>g p. g \<in> set (am_wait_list e)
    \<and> nr_rlc_entity_am_recv_pdu r (take (nat n) buf)
      = am_recv_data (upd_stats (count_rxpdu n) r) (take (nat n) buf) (nat (am_compute_pdu_header_size e g))
          (of_bool p) (seg_is_first g) (seg_is_last g) (am_seg_sn e g) (seg_so g)
    \<and> drop (nat (am_compute_pdu_header_size e g)) (take (nat n) buf) = seg_bytes (store e) g
    \<and> am_seg_ok e g"
proof -
  obtain g p where g: "g \<in> set (am_wait_list e)" "am_seg_ok e g" "am_pdu_bytes e g p buf n"
    using sent by (auto simp: am_sent_def)
  let ?h = "nat (am_compute_pdu_header_size e g)"
  have sz: "0 \<le> seg_size g" "n = am_compute_pdu_header_size e g + seg_size g" "0 \<le> am_compute_pdu_header_size e g"
    using g by (auto simp: am_pdu_bytes_def am_seg_ok_def seg_in_sdu_def am_compute_pdu_header_size_def)
  then have hn: "?h \<le> nat n" "nat n = ?h + nat (seg_size g)" "nat n \<le> length buf" using n by linarith+
  have "bytes_bits (take ?h (take (nat n) buf)) = field_bits (am_poll_fields e g p)"
    using g(3) hn(1) by (simp add: am_pdu_bytes_def min_def)
  moreover have "drop ?h (take (nat n) buf) = seg_bytes (store e) g"
    using g(3) hn(2) by (simp add: am_pdu_bytes_def seg_bytes_def drop_take)
  moreover have "int (length (take (nat n) buf)) = n" using hn sz by simp
  ultimately show ?thesis
    using am_recv_pdu_decodes[OF g(2) len refl, of "take (nat n) buf" p] g hn by auto
qed

text \<open>
  Property C18. The link between two AM entities: every data PDU that an entity generates, from any
  reachable state and for any grant, is decoded by a peer with the same SN length as the data PDU of
  a segment that now waits for its acknowledgement: same SN, same offset, same first/last flags, the
  poll bit as 0 or 1, and as payload the bytes of the segment, which are a piece of the SDU in the
  sense the reception property asks of a correct peer.
\<close>

theorem am_link_roundtrip:
  assumes "am_reach True e" and "nr_rlc_entity_am_generate_pdu e buf t = Inr (e', buf', n)" and "n \<noteq> 0"
    and "\<not> am_status_to_report e" and "am_sn_field_length r = am_sn_field_length e"
  shows "\<exists>g p. g \<in> set (am_wait_list e')
    \<and> nr_rlc_entity_am_recv_pdu r (take (nat n) buf')
      = am_recv_data (upd_stats (count_rxpdu n) r) (take (nat n) buf') (nat (am_compute_pdu_header_size e' g))
          (of_bool p) (seg_is_first g) (seg_is_last g) (am_seg_sn e' g) (seg_so g)
    \<and> drop (nat (am_compute_pdu_header_size e' g)) (take (nat n) buf') = seg_bytes (store e') g
    \<and> (0 < seg_size g \<longrightarrow> piece_of (sdu_data (sdu_at (store e') g))
         (nr_rlc_new_pdu (am_seg_sn e' g) (seg_so g) (seg_is_first g) (seg_is_last g) (seg_bytes (store e') g)))"
proof -
  obtain h where "am_report_at e h" using am_rx_good_report am_reach_rx_good[OF assms(1)] by blast
  from am_generate_pdu_ok[OF am_reach_tx_inv[OF assms(1)] this, of buf t] assms(2-4)
  have sent: "am_sent e' buf' n" "n \<le> int (length buf')" by auto
  have "am_sn_field_length e' = am_sn_field_length e"
    using am_generate_pdu_order[OF assms(2)] by (simp add: order_part_def rx_part_def)
  then have len: "am_sn_field_length r = am_sn_field_length e'" using assms(5) by simp
  have piece: "piece_of (sdu_data (sdu_at (store e') g))
      (nr_rlc_new_pdu sn (seg_so g) (seg_is_first g) (seg_is_last g) (seg_bytes (store e') g))"
    if "am_seg_ok e' g" "0 < seg_size g" for g sn
    using that by (auto simp: piece_of_def nr_rlc_new_pdu_def seg_bytes_def am_seg_ok_def seg_in_sdu_def)
  show ?thesis using am_sent_decodes[OF sent(1) len sent(2)] piece by blast
qed

lemma am_busy_12: "\<exists>e. am_busy = Inr e \<and> am_sn_field_length e = 12"
proof -
  have "case am_busy of Inl _ \<Rightarrow> False | Inr e \<Rightarrow> am_sn_field_length e = 12" by code_simp
  then show ?thesis by (rule run_ok) blast
qed

theorem am_link_roundtrip_witness:
  "\<exists>e r e' buf' n g p. am_busy = Inr e \<and> am_example = Inr r
    \<and> nr_rlc_entity_am_generate_pdu e (replicate 6 0) 0 = Inr (e', buf', n) \<and> g \<in> set (am_wait_list e')
    \<and> nr_rlc_entity_am_recv_pdu r (take (nat n) buf')
      = am_recv_data (upd_stats (count_rxpdu n) r) (take (nat n) buf') (nat (am_compute_pdu_header_size e' g))
          (of_bool p) (seg_is_first g) (seg_is_last g) (am_seg_sn e' g) (seg_so g)"
proof -
  obtain e where e: "am_busy = Inr e" "am_reach True e" "\<not> am_status_to_report e" "am_tx_list e \<noteq> []"
    "\<not> am_is_window_stalling e" using am_busy_reach by blast
  then obtain e' buf' n where gen: "nr_rlc_entity_am_generate_pdu e (replicate 6 0) 0 = Inr (e', buf', n)" "0 < n"
    using am_generate_progress[OF am_reach_tx_inv[OF e(2)] e(3), of "replicate 6 0" 0] by (auto simp: am_advances_def)
  obtain r where r: "am_example = Inr r" using am_example_new by blast
  have "am_sn_field_length r = 12" using r by (auto simp: am_example_def new_nr_rlc_entity_am_def Let_def)
  moreover have "am_sn_field_length e = 12" using am_busy_12 e(1) by (metis Inr_inject)
  ultimately have "am_sn_field_length r = am_sn_field_length e" by simp
  moreover have "n \<noteq> 0" using gen(2) by simp
  ultimately show ?thesis using am_link_roundtrip[OF e(2) gen(1) _ e(3), of r] e(1) r gen(1) by blast
qed

section \<open>STATUS PDUs\<close>

text \<open>The SDU of the example is sent and waits for its acknowledgement.\<close>

definition am_waiting :: "nr_rlc_entity_am_t res" where
  "am_waiting = bindE am_busy (\<lambda>e. bindE (nr_rlc_entity_am_generate_pdu e (replicate 20 0) 0) (\<lambda>(e, _, _). Inr e))"

text \<open>
  A STATUS PDU whose NACKs are all below its ACK_SN, whatever else it contains, keeps
  the transmission half consistent: every SDU still has exactly the segments its reference counter
  says, none is leaked or freed twice, \<open>tx_size\<close> is the size of the live SDUs, and the reported
  retransmission size is that of the retransmit list.
\<close>

lemma am_status_keeps_tx_inv:
  assumes "am_tx_inv e"
    and "\<And>ack_sn nacks. am_decode_control e buf = Inr (Some (ack_sn, nacks)) \<Longrightarrow> am_nacks_below e ack_sn nacks"
  shows "\<exists>e'. am_process_control_pdu e buf = Inr e' \<and> am_tx_inv e'"
  using assms by (rule am_process_control_inv)

section \<open>Reconfiguration\<close>

text \<open>
  Property C37. Reconfiguring the SN length of a live AM entity breaks it: the modulus, the window
  size and the reception window keep their old values, so the entity is consistent afterwards only
  if the new length is the old one.
\<close>

theorem am_reconfigure_sn_length:
  assumes "am_tx_inv e"
  shows "am_tx_inv (nr_rlc_entity_am_reconfigure e tp tr ts pp pb mr (Some len)) \<longleftrightarrow> len = am_sn_field_length e"
proof
  have m: "am_sn_modulus e = 2 ^ am_sn_field_length e" using assms by (simp add: am_tx_inv_def am_sn_ok_def)
  assume "am_tx_inv (nr_rlc_entity_am_reconfigure e tp tr ts pp pb mr (Some len))"
  then have "am_sn_modulus e = 2 ^ len"
    by (simp add: am_tx_inv_def am_sn_ok_def nr_rlc_entity_am_reconfigure_def Let_def)
  then show "len = am_sn_field_length e" using m by simp
next
  assume "len = am_sn_field_length e"
  then have "tx_part (nr_rlc_entity_am_reconfigure e tp tr ts pp pb mr (Some len)) = tx_part e"
    by (simp add: tx_part_def nr_rlc_entity_am_reconfigure_def Let_def)
  then show "am_tx_inv (nr_rlc_entity_am_reconfigure e tp tr ts pp pb mr (Some len))" using assms am_tx_inv_cong by blast
qed

theorem am_reconfigure_sn_length_witness:
  "\<exists>e. am_busy = Inr e \<and> am_tx_inv e \<and> \<not> am_tx_inv (nr_rlc_entity_am_reconfigure e 45 35 0 (-1) (-1) 8 (Some 18))"
proof -
  obtain e where e: "am_busy = Inr e" "am_reach True e" using am_busy_reach by blast
  have "am_sn_field_length e = 12" using am_busy_12 e(1) by (metis Inr_inject)
  then have "am_sn_field_length e \<noteq> 18" by simp
  then show ?thesis using am_reconfigure_sn_length am_reach_tx_inv[OF e(2)] e(1) by metis
qed

end
