(* ===== verification/RLC_Um_Props.thy ===== *)
theory RLC_Um_Props
  imports RLC_Um RLC_Am_Link
begin

text \<open>
  The UM entity: the invariant of its transmission buffer, what a grant sends, the PDU as its peer
  reads it, and the reassembly of the segments of one SN.
\<close>

section \<open>The transmission buffer\<close>

definition um_sn_ok :: "nr_rlc_entity_um_t \<Rightarrow> bool" where
  "um_sn_ok e \<longleftrightarrow> (um_sn_field_length e = 6 \<or> um_sn_field_length e = 12)
     \<and> um_sn_modulus e = 2 ^ um_sn_field_length e \<and> 0 \<le> um_tx_next e \<and> um_tx_next e < um_sn_modulus e"

definition um_list_bytes :: "nr_rlc_entity_um_t \<Rightarrow> nr_rlc_sdu_segment_t list \<Rightarrow> int" where
  "um_list_bytes e l = (\<Sum>g \<leftarrow> l. um_compute_pdu_header_size e g + seg_size g)"

text \<open>\<open>L\<close> are the segments the entity still owns: the list to transmit, and one in flight.\<close>

definition um_owns :: "nr_rlc_entity_um_t \<Rightarrow> nr_rlc_sdu_segment_t list \<Rightarrow> bool" where
  "um_owns e L \<longleftrightarrow> um_sn_ok e \<and> store_inv (store e) (mset L)
     \<and> um_tx_size e = (\<Sum>g \<leftarrow> L. seg_size g) \<and> um_tx_size e \<le> um_tx_maxsize e
     \<and> bs_tx_size (bstatus e) = um_list_bytes e (um_tx_list e)
     \<and> (\<forall>a s. sdus (store e) a = Some s \<longrightarrow> sdu_size s \<le> NR_SDU_MAX)"

definition um_tx_inv :: "nr_rlc_entity_um_t \<Rightarrow> bool" where
  "um_tx_inv e \<longleftrightarrow> um_owns e (um_tx_list e)"

text \<open>The bytes still to transmit, segment by segment.\<close>

definition um_queue :: "nr_rlc_entity_um_t \<Rightarrow> buffer list" where
  "um_queue e = map (seg_bytes (store e)) (um_tx_list e)"

lemma um_header_cong:
  "um_sn_field_length e' = um_sn_field_length e \<Longrightarrow> um_compute_pdu_header_size e' = um_compute_pdu_header_size e"
  by (simp add: fun_eq_iff um_compute_pdu_header_size_def)

lemma um_list_bytes_cong:
  "um_sn_field_length e' = um_sn_field_length e \<Longrightarrow> um_list_bytes e' = um_list_bytes e"
  by (simp add: fun_eq_iff um_list_bytes_def um_header_cong[of e' e])

lemma um_list_bytes_simps [simp]:
  "um_list_bytes e [] = 0"
  "um_list_bytes e (g # l) = um_compute_pdu_header_size e g + seg_size g + um_list_bytes e l"
  "um_list_bytes e (l @ l') = um_list_bytes e l + um_list_bytes e l'"
  by (simp_all add: um_list_bytes_def)

text \<open>The data of an SDU do not depend on its counters.\<close>

lemma free_segment_bytes:
  assumes inv: "store_inv st (add_mset g M)" and g': "g' \<in># M"
  shows "seg_bytes (fst (nr_rlc_free_sdu_segment st g)) g' = seg_bytes st g'"
proof (cases "seg_sdu g' = seg_sdu g")
  case False
  then show ?thesis by (simp add: seg_bytes_def sdu_at_free_other)
next
  case True
  have "refs (seg_sdu g) M \<noteq> 0" using refs_pos[OF g'] True by simp
  then have "\<not> snd (nr_rlc_free_sdu_segment st g)" using free_sdu_segment_result[OF inv] by simp
  then have "fst (nr_rlc_free_sdu_segment st g) = sdu_upd st g (\<lambda>s. s\<lparr>sdu_free_count := sdu_free_count s + 1\<rparr>)"
    by (auto simp: nr_rlc_free_sdu_segment_def Let_def split: if_splits)
  then show ?thesis
    using same_sdusD(3)[OF same_sdus_upd[of "\<lambda>s. s\<lparr>sdu_free_count := sdu_free_count s + 1\<rparr>" st g], of g']
    by (simp add: seg_bytes_def)
qed

lemma free_segment_dom:
  assumes "sdus (fst (nr_rlc_free_sdu_segment st g)) a = Some s"
  shows "\<exists>s0. sdus st a = Some s0 \<and> sdu_size s = sdu_size s0"
  using assms by (auto simp: nr_rlc_free_sdu_segment_def Let_def sdu_upd_def split: if_splits)

section \<open>Accepting SDUs\<close>

lemma um_recv_sdu_refused:
  assumes "int (length b) \<le> NR_SDU_MAX" and "nr_rlc_entity_um_available_tx_space e < int (length b)"
  shows "\<exists>e'. nr_rlc_entity_um_recv_sdu e b i t = Inr e' \<and> um_tx_inv e' = um_tx_inv e
    \<and> um_queue e' = um_queue e \<and> um_tx_size e' = um_tx_size e \<and> um_tx_maxsize e' = um_tx_maxsize e"
  using assms
  by (auto simp: nr_rlc_entity_um_recv_sdu_def Let_def nr_rlc_entity_um_available_tx_space_def um_tx_inv_def
      upd_stats_def um_queue_def um_log_rejected_def um_owns_def um_sn_ok_def um_list_bytes_def um_compute_pdu_header_size_def)

lemma um_recv_sdu_accepted:
  assumes inv: "um_tx_inv e" and sz: "int (length b) \<le> NR_SDU_MAX"
    and fit: "int (length b) \<le> nr_rlc_entity_um_available_tx_space e"
  shows "\<exists>e'. nr_rlc_entity_um_recv_sdu e b i t = Inr e' \<and> um_tx_inv e'
    \<and> um_queue e' = um_queue e @ [b] \<and> um_tx_size e' = um_tx_size e + int (length b)
    \<and> um_tx_maxsize e' = um_tx_maxsize e"
proof -
  obtain st g where new: "nr_rlc_new_sdu (store e) b i = (st, g)" by force
  have g: "seg_so g = 0" "seg_size g = int (length b)" "sdu_data (sdu_at st g) = b" "sdu_size (sdu_at st g) = int (length b)"
    and stdef: "st = \<lparr>sdus = (sdus (store e))(next_addr (store e) := Some (sdu_at st g)), next_addr = Suc (next_addr (store e))\<rparr>"
    using new by (auto simp: nr_rlc_new_sdu_def Let_def sdu_at_def)
  have s: "store_inv (store e) (mset (um_tx_list e))" using inv by (simp add: um_tx_inv_def um_owns_def)
  note st = new_sdu_inv[OF s new] and old = sdu_at_new[OF s new]
  define e0 where "e0 = (um_log_rejected (upd_stats (\<lambda>s. s\<lparr>rxsdu_pkts := rxsdu_pkts s + 1,
        rxsdu_bytes := rxsdu_bytes s + word_of_int (int (length b))\<rparr>) e))
      \<lparr>um_tx_size := um_tx_size e + int (length b), store := st, um_tx_list := um_tx_list e @ [g]\<rparr>"
  define e1 where "e1 = stamp_arrival t g (add_bs_tx (um_compute_pdu_header_size e0 g + seg_size g) e0)"
  have fl: "um_sn_field_length e0 = um_sn_field_length e" "um_sn_field_length e1 = um_sn_field_length e"
    by (simp_all add: e1_def e0_def common_defs um_log_rejected_def)
  have fr: "um_tx_list e1 = um_tx_list e @ [g]" "um_tx_size e1 = um_tx_size e + int (length b)"
    "um_tx_maxsize e1 = um_tx_maxsize e" "um_sn_modulus e1 = um_sn_modulus e" "um_tx_next e1 = um_tx_next e"
    "bs_tx_size (bstatus e1) = bs_tx_size (bstatus e) + (um_compute_pdu_header_size e g + seg_size g)"
    using um_header_cong[OF fl(1)]
    by (simp_all add: e1_def e0_def common_defs um_log_rejected_def)
  have res: "nr_rlc_entity_um_recv_sdu e b i t = Inr e1"
    using sz fit new
    by (simp add: nr_rlc_entity_um_recv_sdu_def Let_def nr_rlc_entity_um_available_tx_space_def e1_def e0_def
        upd_stats_def um_log_rejected_def nr_rlc_sdu_segment_list_append_def)
  have st0: "store (add_bs_tx x e0) = st" for x by (simp add: e0_def)
  have same: "same_sdus st (store e1)"
    using same_sdus_upd[of "\<lambda>s. s\<lparr>sdu_time_of_arrival := t\<rparr>" st g]
    by (simp add: e1_def st0 stamp_arrival_def same_sdus_def e0_def)
  have stamped: "store_inv (store e1) (add_mset g (mset (um_tx_list e)))"
    using stamp_arrival_store(1)[of "add_bs_tx (um_compute_pdu_header_size e0 g + seg_size g) e0" "add_mset g (mset (um_tx_list e))" t g]
      st(1) st0 by (simp add: e1_def)
  have max: "sdu_size s' \<le> NR_SDU_MAX" if up: "sdus (store e1) a = Some s'" for a s'
  proof -
    obtain s0 where s0: "sdus st a = Some s0" "sdu_size s' = sdu_size s0" using same_sdusD(4)[OF same up] by blast
    have "s0 = sdu_at st g \<or> sdus (store e) a = Some s0" using s0(1) arg_cong[OF stdef, of sdus] by (auto split: if_splits)
    then show ?thesis using inv g sz s0 by (auto simp: um_tx_inv_def um_owns_def)
  qed
  have "um_tx_inv e1"
    using stamped max inv fr fl(2) fit g um_list_bytes_cong[OF fl(2)]
    by (simp add: um_tx_inv_def um_owns_def um_sn_ok_def nr_rlc_entity_um_available_tx_space_def)
  moreover have "um_queue e1 = um_queue e @ [b]"
  proof -
    have "seg_bytes (store e1) h = seg_bytes (store e) h" if "h \<in> set (um_tx_list e)" for h
      using same_sdusD(3)[OF same] old(1)[of h] that by (simp add: seg_bytes_def)
    then show ?thesis using same_sdusD(3)[OF same, of g] g by (simp add: um_queue_def fr seg_bytes_def)
  qed
  ultimately show ?thesis using res fr by blast
qed

interpretation um_buf: tx_buffer nr_rlc_entity_um_recv_sdu nr_rlc_entity_um_available_tx_space um_queue um_tx_inv
proof unfold_locales
  fix e :: nr_rlc_entity_um_t and b :: buffer and i :: int and t :: u64
  assume "um_tx_inv e" "int (length b) \<le> NR_SDU_MAX" "int (length b) \<le> nr_rlc_entity_um_available_tx_space e"
  then show "\<exists>e'. nr_rlc_entity_um_recv_sdu e b i t = Inr e' \<and> um_tx_inv e'
      \<and> nr_rlc_entity_um_available_tx_space e' = nr_rlc_entity_um_available_tx_space e - int (length b)
      \<and> um_queue e' = um_queue e @ [b]"
    using um_recv_sdu_accepted[of e b i t] by (auto simp: nr_rlc_entity_um_available_tx_space_def)
next
  fix e :: nr_rlc_entity_um_t and b :: buffer and i :: int and t :: u64
  assume "um_tx_inv e" "int (length b) \<le> NR_SDU_MAX" "nr_rlc_entity_um_available_tx_space e < int (length b)"
  then show "\<exists>e'. nr_rlc_entity_um_recv_sdu e b i t = Inr e' \<and> um_tx_inv e'
      \<and> nr_rlc_entity_um_available_tx_space e' = nr_rlc_entity_um_available_tx_space e
      \<and> um_queue e' = um_queue e"
    using um_recv_sdu_refused[of b e i t] by (auto simp: nr_rlc_entity_um_available_tx_space_def)
next
  fix b :: buffer and e :: nr_rlc_entity_um_t and i :: int and t :: u64
  assume "NR_SDU_MAX < int (length b)"
  then show "\<exists>x. nr_rlc_entity_um_recv_sdu e b i t = Inl x"
    by (simp add: nr_rlc_entity_um_recv_sdu_def Let_def)
qed

section \<open>Sending a segment\<close>

definition um_seg_ok :: "nr_rlc_entity_um_t \<Rightarrow> nr_rlc_sdu_segment_t \<Rightarrow> bool" where
  "um_seg_ok e g \<longleftrightarrow> um_sn_ok e \<and> 0 \<le> um_seg_sn e g \<and> um_seg_sn e g < um_sn_modulus e
     \<and> seg_in_sdu (sdu_at (store e) g) g \<and> sdu_size (sdu_at (store e) g) \<le> NR_SDU_MAX
     \<and> int (length (sdu_data (sdu_at (store e) g))) = sdu_size (sdu_at (store e) g)"

lemma um_header_ok:
  assumes "um_seg_ok e g"
  shows "list_all field_ok (um_header_fields e g)"
    and "sum_list (map snd (um_header_fields e g)) = 8 * nat (um_compute_pdu_header_size e g)"
proof -
  have so: "0 \<le> seg_so g" "seg_so g \<le> 16000"
    using assms by (auto simp: um_seg_ok_def seg_in_sdu_def NR_SDU_MAX_def)
  have sn: "0 \<le> um_seg_sn e g" "um_seg_sn e g < 2 ^ um_sn_field_length e"
    and len: "um_sn_field_length e = 6 \<or> um_sn_field_length e = 12"
    using assms by (auto simp: um_seg_ok_def um_sn_ok_def)
  show "list_all field_ok (um_header_fields e g)"
    using so sn len by (auto simp: um_header_fields_def field_ok_def)
  show "sum_list (map snd (um_header_fields e g)) = 8 * nat (um_compute_pdu_header_size e g)"
    using len by (auto simp: um_header_fields_def um_compute_pdu_header_size_def)
qed

text \<open>The PDU of a segment: the header fields, then its bytes.\<close>

definition um_pdu_bytes :: "nr_rlc_entity_um_t \<Rightarrow> nr_rlc_sdu_segment_t \<Rightarrow> buffer \<Rightarrow> int \<Rightarrow> bool" where
  "um_pdu_bytes e g buf n \<longleftrightarrow> n = um_compute_pdu_header_size e g + seg_size g \<and> n \<le> int (length buf)
     \<and> bytes_bits (take (nat (um_compute_pdu_header_size e g)) buf) = field_bits (um_header_fields e g)
     \<and> take (nat (seg_size g)) (drop (nat (um_compute_pdu_header_size e g)) buf) = seg_bytes (store e) g"

lemma um_serialize_ok:
  assumes ok: "um_seg_ok e g" and fit: "um_compute_pdu_header_size e g + seg_size g \<le> int (length buf)"
  shows "\<exists>buf'. um_serialize_sdu e g buf = Inr (buf', um_compute_pdu_header_size e g + seg_size g)
    \<and> length buf' = length buf \<and> um_pdu_bytes e g buf' (um_compute_pdu_header_size e g + seg_size g)"
proof -
  let ?h = "nat (um_compute_pdu_header_size e g)" and ?d = "sdu_data (sdu_at (store e) g)"
  let ?bytes = "take (nat (seg_size g)) (drop (nat (seg_so g)) ?d)"
  have h: "um_compute_pdu_header_size e g = int ?h" by (auto simp: um_compute_pdu_header_size_def)
  have seg: "0 \<le> seg_so g" "0 \<le> seg_size g" "seg_so g + seg_size g \<le> int (length ?d)"
    using ok by (auto simp: um_seg_ok_def seg_in_sdu_def)
  have lb: "length ?bytes = nat (seg_size g)" using seg by simp
  obtain enc where enc: "put_fields (nr_rlc_pdu_encoder_init buf (length buf)) (um_header_fields e g) = Inr enc"
    "enc_byte enc = ?h" "length (enc_buffer enc) = length buf"
    "bytes_bits (take ?h (enc_buffer enc)) = field_bits (um_header_fields e g)"
    using put_header_ok[OF um_header_ok[OF ok], of buf] fit seg h by auto
  have rd: "mem_read ?d (seg_so g) (seg_size g) = Inr ?bytes" using seg by (simp add: mem_read_ok)
  define b1 where "b1 = take ?h (enc_buffer enc) @ ?bytes @ drop (?h + length ?bytes) (enc_buffer enc)"
  have fit': "?h + length ?bytes \<le> length buf" using fit lb seg h by linarith
  have wr: "mem_write (enc_buffer enc) (enc_byte enc) ?bytes = Inr b1"
    using fit' enc by (simp add: mem_write_ok b1_def)
  have b1: "length b1 = length buf" "take ?h b1 = take ?h (enc_buffer enc)" "drop ?h b1 = ?bytes @ drop (?h + length ?bytes) (enc_buffer enc)"
    using fit' enc(3) by (auto simp: b1_def)
  have "um_serialize_sdu e g buf = Inr (b1, int ?h + seg_size g)"
    using enc(1,2) rd wr by (simp add: um_serialize_sdu_def)
  then show ?thesis
    using b1 enc(4) lb h(1) fit by (auto simp: um_pdu_bytes_def seg_bytes_def)
qed

text \<open>
  The end of \<open>generate_tx_pdu\<close>: the segment \<open>g\<close> in flight is written, counted and released.
\<close>

lemma um_send_segment_ok:
  assumes own: "um_owns e (g # um_tx_list e)" and sn: "0 \<le> um_seg_sn e g" "um_seg_sn e g < um_sn_modulus e"
    and fit: "um_compute_pdu_header_size e g + seg_size g \<le> int (length buf)"
  shows "\<exists>e' buf' n. um_send_segment g e buf t = Inr (e', buf', n) \<and> um_tx_inv e' \<and> length buf' = length buf
    \<and> um_pdu_bytes e g buf' n \<and> um_queue e' = um_queue e \<and> um_tx_list e' = um_tx_list e"
proof -
  define e0 where "e0 = (if \<not> seg_is_first g \<and> seg_is_last g
               then e\<lparr>um_tx_next := (um_tx_next e + 1) mod um_sn_modulus e\<rparr> else e)"
  have s: "store_inv (store e) (add_mset g (mset (um_tx_list e)))" using own by (simp add: um_owns_def)
  have live: "sdus (store e) (seg_sdu g) = Some (sdu_at (store e) g)" "seg_in_sdu (sdu_at (store e) g) g"
    using store_invD_seg[OF s, of g] by auto
  have okn: "um_sn_ok e" "sdu_size (sdu_at (store e) g) \<le> NR_SDU_MAX" using own live(1) by (auto simp: um_owns_def)
  have fr: "store e0 = store e" "um_sn_field_length e0 = um_sn_field_length e" "um_sn_modulus e0 = um_sn_modulus e"
    "um_tx_list e0 = um_tx_list e" "um_tx_size e0 = um_tx_size e" "um_tx_maxsize e0 = um_tx_maxsize e" "bstatus e0 = bstatus e"
    by (simp_all add: e0_def)
  have pos: "0 < um_sn_modulus e" using okn(1) by (auto simp: um_sn_ok_def)
  then have sn0: "um_sn_ok e0" using okn(1) by (auto simp: um_sn_ok_def e0_def)
  have "um_seg_ok e0 g"
    using sn0 sn live okn(2) store_invD_sdu[OF s live(1)] fr by (simp add: um_seg_ok_def um_seg_sn_def)
  moreover note hd = um_header_cong[OF fr(2)]
  moreover have "um_header_fields e0 g = um_header_fields e g" by (simp add: um_header_fields_def um_seg_sn_def fr)
  ultimately obtain buf' where ser: "um_serialize_sdu e0 g buf = Inr (buf', um_compute_pdu_header_size e g + seg_size g)"
    "length buf' = length buf" "um_pdu_bytes e g buf' (um_compute_pdu_header_size e g + seg_size g)"
    using um_serialize_ok[of e0 g buf] fit by (auto simp: um_pdu_bytes_def fr)
  define e1 where "e1 = record_waiting_time t g (upd_stats (count_txpdu (int (length buf))) (e0\<lparr>um_tx_size := um_tx_size e0 - seg_size g\<rparr>))"
  define e2 where "e2 = e1\<lparr>store := fst (nr_rlc_free_sdu_segment (store e1) g)\<rparr>"
  have st1: "store e1 = store e" by (simp add: e1_def fr upd_stats_def)
  have fl: "um_sn_field_length e2 = um_sn_field_length e" by (simp add: e2_def e1_def fr common_defs)
  have f2: "um_tx_list e2 = um_tx_list e" "um_tx_size e2 = um_tx_size e - seg_size g" "um_tx_maxsize e2 = um_tx_maxsize e"
    "bstatus e2 = bstatus e" "store e2 = fst (nr_rlc_free_sdu_segment (store e) g)" "um_sn_ok e2"
    using sn0 st1 by (simp_all add: e2_def e1_def fr common_defs um_sn_ok_def)
  have "um_send_segment g e buf t = Inr (e2, buf', um_compute_pdu_header_size e g + seg_size g)"
    using ser(1) st1 fr(1) by (simp add: um_send_segment_def Let_def e0_def[symmetric] e1_def[symmetric] e2_def)
  moreover
  have max: "sdu_size s' \<le> NR_SDU_MAX" if up: "sdus (fst (nr_rlc_free_sdu_segment (store e) g)) a = Some s'" for a s'
    using free_segment_dom[OF up] own by (auto simp: um_owns_def)
  have "um_tx_inv e2"
    unfolding um_tx_inv_def um_owns_def f2 um_list_bytes_cong[OF fl]
    using own free_sdu_segment_inv[OF s] live(2) max f2(6) by (simp add: um_owns_def seg_in_sdu_def)
  moreover have "um_queue e2 = um_queue e"
    using free_segment_bytes[OF s] by (simp add: um_queue_def f2)
  ultimately show ?thesis using ser(2,3) f2(1) by blast
qed

section \<open>Generating a PDU\<close>

text \<open>The entity once the head of its list is taken and the SN is set.\<close>

definition um_taken :: "nr_rlc_entity_um_t \<Rightarrow> nr_rlc_sdu_segment_t \<Rightarrow> nr_rlc_sdu_segment_t list \<Rightarrow> nr_rlc_entity_um_t" where
  "um_taken e g rest = add_bs_tx (- (um_compute_pdu_header_size e g + seg_size g))
     (e\<lparr>um_tx_list := rest, store := sdu_upd (store e) g (\<lambda>s. s\<lparr>sdu_sn := um_tx_next e\<rparr>)\<rparr>)"

lemma um_taken_frame:
  "um_sn_field_length (um_taken e g rest) = um_sn_field_length e" "um_tx_list (um_taken e g rest) = rest"
  "um_tx_next (um_taken e g rest) = um_tx_next e" "um_sn_modulus (um_taken e g rest) = um_sn_modulus e"
  by (simp_all add: um_taken_def add_bs_tx_def)

lemma um_taken_bytes: "seg_bytes (store (um_taken e g rest)) = seg_bytes (store e)"
  by (simp add: fun_eq_iff um_taken_def seg_bytes_def sdu_at_def sdu_upd_def split: option.splits)

lemma um_taken_owns:
  assumes inv: "um_tx_inv e" and l: "um_tx_list e = g # rest"
  shows "um_owns (um_taken e g rest) (g # rest)" and "um_seg_sn (um_taken e g rest) g = um_tx_next e"
    and "0 \<le> um_tx_next e" "um_tx_next e < um_sn_modulus e"
proof -
  have s: "store_inv (store e) (mset (g # rest))" using inv l by (simp add: um_tx_inv_def um_owns_def)
  have live: "sdus (store e) (seg_sdu g) \<noteq> None" using store_invD_seg[OF s, of g] by auto
  have st: "store (um_taken e g rest) = sdu_upd (store e) g (\<lambda>s. s\<lparr>sdu_sn := um_tx_next e\<rparr>)"
    by (simp add: um_taken_def)
  have "store_inv (store (um_taken e g rest)) (mset (g # rest))"
    unfolding st using s by (rule store_inv_upd(1)) auto
  moreover have "sdu_size s' \<le> NR_SDU_MAX" if "sdus (store (um_taken e g rest)) a = Some s'" for a s'
    using that inv unfolding st by (fastforce simp: sdu_upd_def um_tx_inv_def um_owns_def split: if_splits)
  ultimately show "um_owns (um_taken e g rest) (g # rest)"
    using inv l um_list_bytes_cong[OF um_taken_frame(1)]
    by (auto simp: um_tx_inv_def um_owns_def um_taken_frame um_sn_ok_def) (simp_all add: um_taken_def add_bs_tx_def)
  show "um_seg_sn (um_taken e g rest) g = um_tx_next e"
    using live by (simp add: um_seg_sn_def st sdu_at_upd)
  show "0 \<le> um_tx_next e" "um_tx_next e < um_sn_modulus e" using inv by (auto simp: um_tx_inv_def um_owns_def um_sn_ok_def)
qed

lemma seg_bytes_split:
  assumes "seg_sdu g1 = seg_sdu g" "seg_sdu g2 = seg_sdu g" "seg_so g1 = seg_so g" "seg_so g2 = seg_so g + seg_size g1"
    "seg_size g1 + seg_size g2 = seg_size g" "0 \<le> seg_so g" "0 \<le> seg_size g1" "0 \<le> seg_size g2"
  shows "seg_bytes st g = seg_bytes st g1 @ seg_bytes st g2"
proof -
  have sz: "nat (seg_size g) = nat (seg_size g1) + nat (seg_size g2)" using assms by linarith
  have so: "nat (seg_so g2) = nat (seg_size g1) + nat (seg_so g)" using assms by linarith
  have d: "sdu_at st g1 = sdu_at st g" "sdu_at st g2 = sdu_at st g" using assms by (auto intro: sdu_at_same)
  show ?thesis by (simp add: seg_bytes_def d assms(3) sz so take_add)
qed

text \<open>The cut: with five bytes or more a segment of at least one byte always fits.\<close>

lemma um_cut_ok:
  assumes own: "um_owns e (g # um_tx_list e)" and n: "5 \<le> n" "n < um_compute_pdu_header_size e g + seg_size g"
  shows "\<exists>e1 g1 g2. um_resegment g e n = (e1, Some (g1, g2))
    \<and> um_owns (add_bs_tx (um_compute_pdu_header_size (upd_stats f (e1\<lparr>um_tx_list := g2 # um_tx_list e1\<rparr>)) g2 + seg_size g2)
        (upd_stats f (e1\<lparr>um_tx_list := g2 # um_tx_list e1\<rparr>))) (g1 # g2 # um_tx_list e)
    \<and> um_tx_list e1 = um_tx_list e \<and> um_compute_pdu_header_size e g1 + seg_size g1 = n
    \<and> seg_sdu g1 = seg_sdu g \<and> um_sn_field_length e1 = um_sn_field_length e \<and> um_sn_modulus e1 = um_sn_modulus e
    \<and> (\<forall>h. seg_bytes (store e1) h = seg_bytes (store e) h) \<and> (\<forall>h. um_seg_sn e1 h = um_seg_sn e h)
    \<and> seg_bytes (store e) g = seg_bytes (store e) g1 @ seg_bytes (store e) g2 \<and> 0 < seg_size g1"
proof -
  let ?h = "um_compute_pdu_header_size e (g\<lparr>seg_is_last := False\<rparr>)"
  let ?up = "\<lambda>s. s\<lparr>sdu_ref_count := sdu_ref_count s + 1\<rparr>"
  let ?over = "?h + seg_size g - n"
  define g1 where "g1 = g\<lparr>seg_size := seg_size g - ?over, seg_is_last := False\<rparr>"
  define g2 where "g2 = g\<lparr>seg_size := ?over, seg_so := seg_so g1 + seg_size g1, seg_is_first := False\<rparr>"
  define e1 where "e1 = upd_stats (\<lambda>s. s\<lparr>txpdu_segmented := txpdu_segmented s + 1\<rparr>) (e\<lparr>store := sdu_upd (store e) g ?up\<rparr>)"
  have h: "um_compute_pdu_header_size e g \<le> ?h" "?h \<le> 4" "um_compute_pdu_header_size e g1 = ?h"
    by (auto simp: um_compute_pdu_header_size_def g1_def)
  have re: "um_resegment g e n = (e1, Some (g1, g2))"
    using h n(1) by (simp add: um_resegment_def Let_def um_compute_pdu_header_size_def e1_def g1_def g2_def)
  have s: "store_inv (store e) (add_mset g (mset (um_tx_list e)))" using own by (simp add: um_owns_def)
  have seg: "seg_in_sdu (sdu_at (store e) g) g" using store_invD_seg[OF s, of g] by simp
  have sizes: "seg_size g1 = n - ?h" "0 < seg_size g1" "0 < seg_size g2" "seg_size g1 + seg_size g2 = seg_size g"
    using h n by (simp_all add: g1_def g2_def)
  have in12: "seg_in_sdu (sdu_at (store e) g) g1" "seg_in_sdu (sdu_at (store e) g) g2" "\<not> seg_whole g1" "\<not> seg_whole g2"
    using seg sizes by (auto simp: seg_in_sdu_def g1_def g2_def seg_whole_def)
  have st: "store e1 = sdu_upd (store e) g ?up" by (simp add: e1_def)
  have inv1: "store_inv (store e1) (add_mset g1 (add_mset g2 (mset (um_tx_list e))))"
    unfolding st by (rule store_inv_split(1)[OF s _ _ in12]) (simp_all add: g1_def g2_def)
  note same = same_sdus_upd[of ?up "store e" g, folded st]
  have max: "sdu_size s' \<le> NR_SDU_MAX" if up: "sdus (store e1) a = Some s'" for a s'
    using same_sdusD(4)[OF same up] own by (fastforce simp: um_owns_def)
  have fl: "um_sn_field_length e1 = um_sn_field_length e" "um_sn_modulus e1 = um_sn_modulus e" "um_tx_list e1 = um_tx_list e"
    by (simp_all add: e1_def upd_stats_def)
  let ?e2 = "upd_stats f (e1\<lparr>um_tx_list := g2 # um_tx_list e1\<rparr>)"
  let ?e3 = "add_bs_tx (um_compute_pdu_header_size ?e2 g2 + seg_size g2) ?e2"
  have f3: "um_sn_field_length ?e3 = um_sn_field_length e" by (simp add: add_bs_tx_def upd_stats_def fl)
  have hd2: "um_compute_pdu_header_size ?e2 = um_compute_pdu_header_size e" by (rule um_header_cong) (simp add: upd_stats_def fl)
  have f4: "store ?e3 = store e1" "um_tx_list ?e3 = g2 # um_tx_list e" "um_tx_size ?e3 = um_tx_size e"
    "um_tx_maxsize ?e3 = um_tx_maxsize e" "um_sn_ok ?e3 = um_sn_ok e"
    "bs_tx_size (bstatus ?e3) = bs_tx_size (bstatus e) + (um_compute_pdu_header_size e g2 + seg_size g2)"
    unfolding hd2 by (simp_all add: add_bs_tx_def upd_stats_def e1_def um_sn_ok_def)
  have "um_owns ?e3 (g1 # g2 # um_tx_list e)"
    unfolding um_owns_def f4 um_list_bytes_cong[OF f3] using own inv1 max sizes by (simp add: um_owns_def)
  moreover have "seg_bytes (store e) g = seg_bytes (store e) g1 @ seg_bytes (store e) g2"
    using sizes seg by (intro seg_bytes_split) (simp_all add: g1_def g2_def seg_in_sdu_def)
  moreover have "seg_bytes (store e1) h = seg_bytes (store e) h" "um_seg_sn e1 h = um_seg_sn e h" for h
    using same_sdusD[OF same] by (simp_all add: seg_bytes_def um_seg_sn_def)
  ultimately show ?thesis
    using re fl sizes h by (intro exI[of _ e1] exI[of _ g1] exI[of _ g2]) (simp add: g1_def)
qed

text \<open>
  One grant: what is sent is a segment \<open>g\<close> with the next SN, and the bytes still to send are the
  old ones without it.
\<close>

lemma um_generate_ok:
  assumes inv: "um_tx_inv e" and l: "um_tx_list e \<noteq> []" and n: "5 \<le> length buf"
  shows "\<exists>e' buf' n g e1. nr_rlc_entity_um_generate_pdu e buf t = Inr (e', buf', n) \<and> um_tx_inv e'
    \<and> length buf' = length buf \<and> um_pdu_bytes e1 g buf' n \<and> um_seg_ok e1 g \<and> um_seg_sn e1 g = um_tx_next e
    \<and> um_sn_field_length e1 = um_sn_field_length e
    \<and> concat (um_queue e) = seg_bytes (store e1) g @ concat (um_queue e')"
proof -
  obtain g rest where l: "um_tx_list e = g # rest" using l by (cases "um_tx_list e") auto
  let ?e0 = "um_taken e g rest" and ?n = "int (length buf)"
  note tk = um_taken_owns[OF inv l] um_taken_frame[of e g rest] and hd = um_header_cong[OF um_taken_frame(1)]
  have q: "concat (um_queue e) = seg_bytes (store e) g @ concat (map (seg_bytes (store e)) rest)"
    by (simp add: um_queue_def l)
  have ok: "um_seg_ok e1 g1" if own: "um_owns e1 (g1 # um_tx_list e1)" "um_seg_sn e1 g1 = um_tx_next e" "um_sn_modulus e1 = um_sn_modulus e" for e1 g1
  proof -
    have s: "store_inv (store e1) (mset (g1 # um_tx_list e1))" using own(1) by (simp add: um_owns_def)
    show ?thesis
      using store_invD_seg[OF s, of g1] sdu_at_data_length[OF s, of g1] own tk(3,4)
      by (auto simp: um_seg_ok_def um_owns_def)
  qed
  have h: "um_compute_pdu_header_size e g \<le> 4" by (simp add: um_compute_pdu_header_size_def)
  have gen: "nr_rlc_entity_um_generate_pdu e buf t = (if um_compute_pdu_header_size e g + seg_size g > ?n then
       (case um_resegment g ?e0 ?n of
          (e, None) \<Rightarrow> Inr (e, buf, 0)
        | (e, Some (g, nxt)) \<Rightarrow>
            let e = e\<lparr>um_tx_list := nxt # um_tx_list e\<rparr>;
                e = upd_stats (\<lambda>s. s\<lparr>txpdu_segmented := txpdu_segmented s + 1\<rparr>) e;
                e = add_bs_tx (um_compute_pdu_header_size e nxt + seg_size nxt) e
            in um_send_segment g e buf t)
     else um_send_segment g ?e0 buf t)"
    unfolding nr_rlc_entity_um_generate_pdu_def um_generate_tx_pdu_def l Let_def um_taken_def using h n by simp
  show ?thesis
  proof (cases "um_compute_pdu_header_size e g + seg_size g > ?n")
    case False
    from um_send_segment_ok[of ?e0 g buf t] tk False hd obtain e' buf' n where
      r: "um_send_segment g ?e0 buf t = Inr (e', buf', n)" "um_tx_inv e'" "length buf' = length buf"
        "um_pdu_bytes ?e0 g buf' n" "um_queue e' = um_queue ?e0" by auto
    have "concat (um_queue e) = seg_bytes (store ?e0) g @ concat (um_queue e')"
      unfolding q r(5) by (simp add: um_queue_def tk um_taken_bytes)
    then show ?thesis using gen r(1-4) False ok[of ?e0 g] tk by (intro exI[of _ e'] exI[of _ buf'] exI[of _ n] exI[of _ g] exI[of _ ?e0]) simp
  next
    case True
    let ?f = "\<lambda>s. s\<lparr>txpdu_segmented := txpdu_segmented s + 1\<rparr>"
    have "um_owns ?e0 (g # um_tx_list ?e0)" using tk by simp
    from um_cut_ok[OF this, of ?n ?f] n True hd obtain e1 g1 g2 where c: "um_resegment g ?e0 ?n = (e1, Some (g1, g2))"
      "um_owns (add_bs_tx (um_compute_pdu_header_size (upd_stats ?f (e1\<lparr>um_tx_list := g2 # um_tx_list e1\<rparr>)) g2 + seg_size g2)
        (upd_stats ?f (e1\<lparr>um_tx_list := g2 # um_tx_list e1\<rparr>))) (g1 # g2 # um_tx_list ?e0)"
      "um_tx_list e1 = um_tx_list ?e0" "um_compute_pdu_header_size ?e0 g1 + seg_size g1 = ?n"
      "um_sn_field_length e1 = um_sn_field_length ?e0" "um_sn_modulus e1 = um_sn_modulus ?e0"
      "\<And>h. seg_bytes (store e1) h = seg_bytes (store ?e0) h" "\<And>h. um_seg_sn e1 h = um_seg_sn ?e0 h" "seg_sdu g1 = seg_sdu g"
      "seg_bytes (store ?e0) g = seg_bytes (store ?e0) g1 @ seg_bytes (store ?e0) g2" by auto
    have c7: "seg_bytes (store e1) = seg_bytes (store ?e0)" using c(7) by (simp add: fun_eq_iff)
    define e2 where "e2 = upd_stats ?f (e1\<lparr>um_tx_list := g2 # um_tx_list e1\<rparr>)"
    define e3 where "e3 = add_bs_tx (um_compute_pdu_header_size e2 g2 + seg_size g2) e2"
    have e3: "store e3 = store e1" "um_tx_list e3 = g2 # rest" "um_sn_field_length e3 = um_sn_field_length e"
      "um_sn_modulus e3 = um_sn_modulus e"
      using c(3,5,6) tk by (simp_all add: e3_def e2_def upd_stats_def add_bs_tx_def)
    have own3: "um_owns e3 (g1 # um_tx_list e3)" using c(2)[folded e2_def, folded e3_def] e3(2) tk by simp
    have sn3: "um_seg_sn e3 g1 = um_tx_next e"
      using c(8)[of g1] tk(2) c(9) by (simp add: um_seg_sn_def e3 sdu_at_same[OF c(9)])
    have h3: "um_compute_pdu_header_size e3 g1 + seg_size g1 \<le> ?n" using c(4) um_header_cong[of e3 ?e0] e3 tk by simp
    from um_send_segment_ok[OF own3 _ _ h3, of t] sn3 e3 tk obtain e' buf' n where
      r: "um_send_segment g1 e3 buf t = Inr (e', buf', n)" "um_tx_inv e'" "length buf' = length buf"
        "um_pdu_bytes e3 g1 buf' n" "um_queue e' = um_queue e3" by auto
    have "concat (um_queue e) = seg_bytes (store e3) g1 @ concat (um_queue e')"
      unfolding q r(5) using c(10) c7 by (simp add: um_queue_def e3 um_taken_bytes)
    moreover have "nr_rlc_entity_um_generate_pdu e buf t = Inr (e', buf', n)"
      using gen True c(1) r(1) by (simp add: Let_def e3_def e2_def)
    ultimately show ?thesis
      using r(2-4) ok[OF own3 sn3 e3(4)] e3(3) sn3 by (intro exI[of _ e'] exI[of _ buf'] exI[of _ n] exI[of _ g1] exI[of _ e3]) simp
  qed
qed

section \<open>The peer\<close>

text \<open>Decoding a PDU: a whole SDU is delivered at once, a segment goes to the reception list.\<close>

lemma um_recv_pdu_decodes:
  assumes ok: "um_seg_ok e g" and len: "um_sn_field_length r = um_sn_field_length e"
    and pdu: "um_pdu_bytes e g buf (int (length buf))" and pos: "0 < seg_size g"
  shows "nr_rlc_entity_um_recv_pdu r buf = (let r1 = upd_stats (count_rxpdu (int (length buf))) r in
      if seg_whole g then Inr (upd_stats (count_txsdu (seg_size g)) (emit (Deliver_Sdu (seg_bytes (store e) g)) r1))
      else um_recv_data r1 buf (nat (um_compute_pdu_header_size e g)) (seg_is_first g) (seg_is_last g) (um_seg_sn e g) (seg_so g))"
proof -
  let ?d = "\<lambda>n. dec_at (nr_rlc_pdu_decoder_init buf (length buf)) n" and ?L = "um_sn_field_length e"
  let ?si = "2 * (1 - of_bool (seg_is_first g)) + (1 - of_bool (seg_is_last g)) :: int"
  define h where "h = nat (um_compute_pdu_header_size e g)"
  let ?so = "if seg_is_first g then [] else msb_bits 16 (seg_so g)" and ?rest = "bytes_bits (drop h buf)"
  let ?sn = "msb_bits ?L (um_seg_sn e g)" and ?r = "if ?L = 12 then msb_bits 2 (0 :: int) else []"
  let ?k = "2 + length ?r"
  have L: "?L = 6 \<or> ?L = 12" and sn: "0 \<le> um_seg_sn e g" "um_seg_sn e g < 2 ^ ?L"
    and so: "0 \<le> seg_so g" "seg_so g < 2 ^ 16" "seg_is_first g \<longleftrightarrow> seg_so g = 0"
    using ok by (auto simp: um_seg_ok_def um_sn_ok_def seg_in_sdu_def NR_SDU_MAX_def)
  have n: "int (length buf) = um_compute_pdu_header_size e g + seg_size g" "h \<le> length buf" "0 \<le> um_compute_pdu_header_size e g"
    using pdu pos by (auto simp: um_pdu_bytes_def h_def um_compute_pdu_header_size_def)
  have bits: "bytes_bits (take h buf) = field_bits (um_header_fields e g)"
    and data: "drop h buf = seg_bytes (store e) g"
    using pdu n by (auto simp: um_pdu_bytes_def h_def)
  have all: "bytes_bits buf = field_bits (um_header_fields e g) @ ?rest"
    using bits by (metis append_take_drop_id bytes_bits_def concat_append map_append)
  have init: "?d 0 = nr_rlc_pdu_decoder_init buf (length buf)"
    by (simp add: nr_rlc_pdu_decoder_init_def dec_at_def)
  have us: "um_sn_field_length (upd_stats (count_rxpdu (int (length buf))) r) = ?L" using len by (simp add: upd_stats_def)
  have s1: "get_bits_R (?d 0) 2 err k = k ?si (?d 2)" for err and k :: "int \<Rightarrow> nr_rlc_pdu_decoder_t \<Rightarrow> nr_rlc_entity_um_t res"
  proof -
    have pre: "take 2 (drop 0 (bytes_bits buf)) = msb_bits 2 ?si"
      unfolding all by (simp add: um_header_fields_def am_si_bits)
        (simp add: numeral_2_eq_2 bit_Suc bit_0)
    have "0 \<le> ?si" "?si < 2 ^ 2" by auto
    then show ?thesis using read_at[OF _ pre, of err k] unfolding add_0 by force
  qed
  show ?thesis
  proof (cases "seg_whole g")
    case True
    then have "h = 1" "2 \<le> int (length buf)" "int (length buf) - 1 = seg_size g"
      using n pos by (auto simp: h_def seg_whole_def um_compute_pdu_header_size_def)
    then show ?thesis
      unfolding nr_rlc_entity_um_recv_pdu_def Let_def us s1[unfolded init] using True data
      by (simp add: am_si_bits seg_whole_def)
  next
    case False
    have fs: "field_bits (um_header_fields e g) = msb_bits 2 ?si @ ?r @ ?sn @ ?so"
      using False by (auto simp: um_header_fields_def seg_whole_def) (simp_all add: numeral_2_eq_2 bit_Suc bit_0)
    have hk: "8 * h = ?k + ?L + length ?so"
      using L False by (auto simp: h_def um_compute_pdu_header_size_def seg_whole_def)
    have bound: "8 * h \<le> 8 * length buf" using n by simp
    have s2: "get_bits_R (?d 2) 2 err k = k 0 (?d 4)" if "?L = 12"
      for err and k :: "int \<Rightarrow> nr_rlc_pdu_decoder_t \<Rightarrow> nr_rlc_entity_um_t res"
      using read_at[of 2 buf 2 0 err k] hk bound that by (simp add: all fs)
    have s3: "get_bits_R (?d ?k) ?L err k = k (um_seg_sn e g) (?d (?k + ?L))"
      for err and k :: "int \<Rightarrow> nr_rlc_pdu_decoder_t \<Rightarrow> nr_rlc_entity_um_t res"
    proof (rule read_at)
      show "take ?L (drop ?k (bytes_bits buf)) = ?sn" unfolding all fs using L by auto
    qed (use hk sn L bound in auto)
    have s4: "get_bits_R (?d (?k + ?L)) 16 err k = k (seg_so g) (?d (8 * h))" if "\<not> seg_is_first g"
      for err and k :: "int \<Rightarrow> nr_rlc_pdu_decoder_t \<Rightarrow> nr_rlc_entity_um_t res"
    proof -
      have "take 16 (drop (?k + ?L) (bytes_bits buf)) = msb_bits 16 (seg_so g)" unfolding all fs using L that by auto
      from read_at[OF _ this, of err k] show ?thesis using hk so that bound by simp
    qed
    have byte: "dec_byte (?d (8 * h)) = h" by simp
    show ?thesis
    proof (cases "seg_is_first g")
      case f: True
      then have "?k + ?L = 8 * h" "seg_so g = 0" "\<not> seg_is_last g" using hk so False by (simp_all add: seg_whole_def)
      then show ?thesis
        unfolding nr_rlc_entity_um_recv_pdu_def Let_def us s1[unfolded init]
        using f False L s2 s3 byte by (elim disjE) (simp_all add: am_si_bits h_def)
    next
      case f: False
      then show ?thesis
        unfolding nr_rlc_entity_um_recv_pdu_def Let_def us s1[unfolded init]
        using False L s2 s3 s4[OF f] so byte by (elim disjE) (simp_all add: am_si_bits h_def)
    qed
  qed
qed

lemma new_um_tx_inv [inv_intros]:
  assumes "new_nr_rlc_entity_um rxm txm tr len = Inr e" and "0 \<le> txm"
  shows "um_tx_inv e"
proof -
  have "len = 6 \<or> len = 12" using assms(1) by (auto simp: new_nr_rlc_entity_um_def split: if_splits)
  then show ?thesis
    using assms store_inv_empty
    by (auto simp: new_nr_rlc_entity_um_def Let_def um_tx_inv_def um_owns_def um_sn_ok_def empty_store_def)
qed

definition um_example :: "nr_rlc_entity_um_t res" where
  "um_example = new_nr_rlc_entity_um 1000 1000 35 12"

definition um_busy :: "nr_rlc_entity_um_t res" where
  "um_busy = bindE um_example (\<lambda>e. nr_rlc_entity_um_recv_sdu e [1, 2, 3, 4, 5, 6, 7, 8, 9, 10] 7 0)"

lemma um_busy_inv:
  "\<exists>e. um_busy = Inr e \<and> um_tx_inv e \<and> um_tx_list e \<noteq> [] \<and> um_queue e = [[1, 2, 3, 4, 5, 6, 7, 8, 9, 10]]
    \<and> um_sn_field_length e = 12"
proof -
  obtain e0 where e0: "um_example = Inr e0" by (simp add: um_example_def new_nr_rlc_entity_um_def Let_def)
  have inv: "um_tx_inv e0" using new_um_tx_inv[OF e0[unfolded um_example_def]] by simp
  have v: "case um_busy of Inl _ \<Rightarrow> False | Inr e \<Rightarrow> um_tx_list e \<noteq> [] \<and> um_sn_field_length e = 12" by code_simp
  obtain e where e: "nr_rlc_entity_um_recv_sdu e0 [1, 2, 3, 4, 5, 6, 7, 8, 9, 10] 7 0 = Inr e" "um_busy = Inr e"
    "um_tx_list e \<noteq> [] \<and> um_sn_field_length e = 12"
    using run_bindE[OF v[unfolded um_busy_def] e0] unfolding um_busy_def by blast
  have "um_queue e0 = []" "nr_rlc_entity_um_available_tx_space e0 = 1000"
    using e0 by (auto simp: um_example_def new_nr_rlc_entity_um_def Let_def um_queue_def nr_rlc_entity_um_available_tx_space_def)
  then have "um_tx_inv e" "um_queue e = [[1, 2, 3, 4, 5, 6, 7, 8, 9, 10]]"
    using um_recv_sdu_accepted[OF inv, of "[1, 2, 3, 4, 5, 6, 7, 8, 9, 10]" 7 0] e(1) by (auto simp: NR_SDU_MAX_def)
  then show ?thesis using e by blast
qed



text \<open>
  Handing SDUs to a UM entity: a burst of SDUs of legal size that fits into the space
  the entity announces is accepted as a whole and queued in order, and the space shrinks by exactly
  its size.
\<close>

lemma um_burst_accepted:
  assumes "um_tx_inv e" and "\<forall>x \<in> set r. int (length (fst x)) \<le> NR_SDU_MAX"
    and "(\<Sum>x \<leftarrow> r. int (length (fst x))) \<le> nr_rlc_entity_um_available_tx_space e"
  shows "\<exists>e'. recv_all nr_rlc_entity_um_recv_sdu e r = Inr e' \<and> um_tx_inv e' \<and> um_queue e' = um_queue e @ map fst r
    \<and> nr_rlc_entity_um_available_tx_space e'
      = nr_rlc_entity_um_available_tx_space e - (\<Sum>x \<leftarrow> r. int (length (fst x)))"
  using assms by (rule um_buf.recv_all_accepted)

section \<open>Reassembly\<close>

text \<open>
  Property C29. Reassembly in UM: when the stored segments of an SN are pieces of an SDU \<open>D\<close>, in the
  order of their offsets and not processed yet, the SDU is taken as complete exactly when every byte
  of \<open>D\<close> is covered (whatever the overlaps), and then exactly \<open>D\<close> is delivered and the bytes of the
  segments leave the reception buffer.
\<close>

theorem um_reassembles:
  assumes "sorted (map pdu_so (um_group (um_rx_list e) sn))" and "list_all (piece_of D) (um_group (um_rx_list e) sn)"
    and "0 < length D" and "int (length D) \<le> NR_SDU_MAX" and "um_group (um_rx_list e) sn \<noteq> []"
  shows "(um_sdu_full e sn \<longleftrightarrow> all_covered (um_group (um_rx_list e) sn) 0 (int (length D)))
    \<and> (um_sdu_full e sn \<longrightarrow> (\<exists>e'. um_reassemble_and_deliver e sn = Inr e'
        \<and> events e' = events e @ [Deliver_Sdu D]
        \<and> um_rx_size e' = um_rx_size e - (\<Sum>p \<leftarrow> um_group (um_rx_list e) sn. pdu_size p)))"
proof (intro conjI impI)
  let ?l = "um_group (um_rx_list e) sn" and ?f = "um_find_sn (um_rx_list e) sn"
  obtain p l where f: "?f = p # l" "p \<in> set ?l"
    using assms(5) by (cases ?f) (auto simp: um_group_def split: if_splits)
  then have np: "\<not> pdus_processed ?f"
    using assms(2) by (auto simp: pdus_processed_def list_all_iff piece_of_def)
  then show full: "um_sdu_full e sn \<longleftrightarrow> all_covered ?l 0 (int (length D))"
    using sdu_full_iff[OF assms(1,2), of "-1"] assms(3) by (simp add: um_sdu_full_def)
  assume "um_sdu_full e sn"
  then have "reassemble_loop ?l (take 0 D) False (um_rx_size e) = Inr (D, False, um_rx_size e - sum_list (map pdu_size ?l))"
    using full assms by (intro reassemble_pieces) auto
  then show "\<exists>e'. um_reassemble_and_deliver e sn = Inr e' \<and> events e' = events e @ [Deliver_Sdu D]
      \<and> um_rx_size e' = um_rx_size e - (\<Sum>p \<leftarrow> ?l. pdu_size p)"
    using f by (simp add: um_reassemble_and_deliver_def Let_def emit_def upd_stats_def)
qed

theorem um_reassembles_witness:
  "\<exists>e e'. um_example = Inr e \<and> um_reassemble_and_deliver
      (e\<lparr>um_rx_list := [nr_rlc_new_pdu 0 0 True False [1, 2], nr_rlc_new_pdu 0 1 False True [2, 3]]\<rparr>) 0 = Inr e'
    \<and> events e' = [Deliver_Sdu [1, 2, 3]]"
proof -
  obtain e where e: "um_example = Inr e" "events e = []"
    by (auto simp: um_example_def new_nr_rlc_entity_um_def Let_def)
  let ?l = "[nr_rlc_new_pdu 0 0 True False [1, 2], nr_rlc_new_pdu 0 1 False True [2, 3]]"
  let ?e = "e\<lparr>um_rx_list := ?l\<rparr>"
  have g: "um_group (um_rx_list ?e) 0 = ?l" by (simp add: um_group_def um_find_sn_def nr_rlc_new_pdu_def)
  have pc: "list_all (piece_of [1, 2, 3]) ?l" by (simp add: piece_of_def nr_rlc_new_pdu_def)
  have "um_sdu_full ?e 0"
    by (simp add: um_sdu_full_def g pdus_processed_def um_find_sn_def nr_rlc_new_pdu_def um_group_def)
  then show ?thesis using um_reassembles[of ?e 0 "[1, 2, 3]", unfolded g, OF _ pc] e
    by (auto simp: nr_rlc_new_pdu_def NR_SDU_MAX_def)
qed

section \<open>Two defects of the UM entity\<close>


text \<open>
  Discarding an SDU in UM never gives its bytes back: the SDU leaves the list and its
  memory, but \<open>tx_size\<close> keeps them, so the announced space shrinks with every discard.
\<close>

lemma um_discard_keeps_tx_size:
  "(case um_busy of Inl _ \<Rightarrow> False
    | Inr e \<Rightarrow> let e' = nr_rlc_entity_um_discard_sdu e 7 in
        um_tx_list e' = [] \<and> sdus (store e') 0 = None \<and> bs_tx_size (bstatus e') = 0 \<and> um_tx_size e' = 10)"
  by code_simp

end
