(* ===== verification/Snow3g.thy ===== *)
theory Snow3g
  imports Snow3g_Tables
begin

text \<open>
  SNOW 3G of \<open>openair3/SECU/snow3g.c\<close>, which PDCP uses for NEA1 and NIA1: the stream cipher with its
  shift register kept in a sliding window, and the integrity function with its precomputed
  multiplication table. Local arrays that the code does not initialise are arguments (\<open>junk\<close>).
\<close>

section \<open>The cipher\<close>

text \<open>\<open>sg_s\<close> is the array \<open>_s\<close>, \<open>sg_ptr\<close> the position of the pointer \<open>s\<close> in it.\<close>

record snow3g_t =
  sg_s :: "u32 list"
  sg_ptr :: nat
  sg_r1 :: u32
  sg_r2 :: u32
  sg_r3 :: u32

definition sg_at :: "snow3g_t \<Rightarrow> nat \<Rightarrow> u32" where
  "sg_at s i = sg_s s ! (sg_ptr s + i)"

text \<open>\<open>(w >> n) & 0xff\<close>\<close>

definition byte_of :: "nat \<Rightarrow> u32 \<Rightarrow> u32" where
  "byte_of n w = drop_bit n w AND 0xff"

definition s1 :: "u32 \<Rightarrow> u32" where
  "s1 w = s1_t0 ! unat (byte_of 0 w) XOR s1_t1 ! unat (byte_of 8 w)
     XOR s1_t2 ! unat (byte_of 16 w) XOR s1_t3 ! unat (byte_of 24 w)"

definition s2 :: "u32 \<Rightarrow> u32" where
  "s2 w = s2_t0 ! unat (byte_of 0 w) XOR s2_t1 ! unat (byte_of 8 w)
     XOR s2_t2 ! unat (byte_of 16 w) XOR s2_t3 ! unat (byte_of 24 w)"

definition MULa :: "u32 \<Rightarrow> u32" where
  "MULa c = mula ! unat c"

definition DIVa :: "u32 \<Rightarrow> u32" where
  "DIVa c = diva ! unat c"

text \<open>The value \<open>v\<close> that both clock functions compute from the register (before \<open>^ f\<close>).\<close>

definition lfsr_feedback :: "u32 \<Rightarrow> u32 \<Rightarrow> u32 \<Rightarrow> u32" where
  "lfsr_feedback x0 x2 x11 =
     (let v0 = push_bit 24 (byte_of 16 x0) OR push_bit 16 (byte_of 8 x0) OR push_bit 8 (byte_of 0 x0);
          v11 = push_bit 16 (byte_of 24 x11) OR push_bit 8 (byte_of 16 x11) OR byte_of 8 x11
      in v0 XOR MULa (byte_of 24 x0) XOR x2 XOR v11 XOR DIVa (byte_of 0 x11))"

text \<open>"we do this, much less memory movement"\<close>

definition lfsr_push :: "u32 \<Rightarrow> snow3g_t \<Rightarrow> snow3g_t" where
  "lfsr_push v s =
     (let p = sg_ptr s;
          s = s\<lparr>sg_s := (sg_s s)[p := v, p + 16 := v], sg_ptr := p + 1\<rparr>
      in if sg_ptr s = 16 then s\<lparr>sg_ptr := 0\<rparr> else s)"

definition lfsr_init :: "snow3g_t \<Rightarrow> u32 \<Rightarrow> snow3g_t" where
  "lfsr_init s f = lfsr_push (lfsr_feedback (sg_at s 0) (sg_at s 2) (sg_at s 11) XOR f) s"

definition lfsr_keystream :: "snow3g_t \<Rightarrow> snow3g_t" where
  "lfsr_keystream s = lfsr_push (lfsr_feedback (sg_at s 0) (sg_at s 2) (sg_at s 11)) s"

definition clock_fsm :: "snow3g_t \<Rightarrow> snow3g_t \<times> u32" where
  "clock_fsm s =
     (let f = (sg_at s 15 + sg_r1 s) XOR sg_r2 s;
          r = sg_r2 s + (sg_r3 s XOR sg_at s 5)
      in (s\<lparr>sg_r3 := s2 (sg_r2 s), sg_r2 := s1 (sg_r1 s), sg_r1 := r\<rparr>, f))"

definition GET32 :: "buffer \<Rightarrow> nat \<Rightarrow> u32" where
  "GET32 b i = push_bit 24 (ucast (b ! i)) OR push_bit 16 (ucast (b ! (i + 1)))
     OR push_bit 8 (ucast (b ! (i + 2))) OR ucast (b ! (i + 3))"

fun init_rounds :: "nat \<Rightarrow> snow3g_t \<Rightarrow> snow3g_t" where
  "init_rounds 0 s = s"
| "init_rounds (Suc n) s = (let (s, f) = clock_fsm s in init_rounds n (lfsr_init s f))"

text \<open>Sixteen words of the array are set; the others stay what they were.\<close>

definition snow3g_init :: "u32 list \<Rightarrow> buffer \<Rightarrow> buffer \<Rightarrow> snow3g_t" where
  "snow3g_init junk k_bytes iv_bytes =
     (let k = map (\<lambda>i. GET32 k_bytes (4 * i)) [0..<4];
          iv = map (\<lambda>i. GET32 iv_bytes (4 * i)) [0..<4];
          ones = 0xffffffff :: u32;
          regs = [k ! 0 XOR ones, k ! 1 XOR ones, k ! 2 XOR ones, k ! 3 XOR ones,
                  k ! 0, k ! 1, k ! 2, k ! 3,
                  k ! 0 XOR ones, k ! 1 XOR ones XOR iv ! 3, k ! 2 XOR ones XOR iv ! 2, k ! 3 XOR ones,
                  k ! 0 XOR iv ! 1, k ! 1, k ! 2, k ! 3 XOR iv ! 0];
          s = init_rounds 32 \<lparr>sg_s = regs @ drop 16 junk, sg_ptr = 0, sg_r1 = 0, sg_r2 = 0, sg_r3 = 0\<rparr>;
          s = fst (clock_fsm s)
      in lfsr_keystream s)"

definition generate_keystream_step :: "snow3g_t \<Rightarrow> snow3g_t \<times> u32" where
  "generate_keystream_step s =
     (let (s, f) = clock_fsm s; ret = f XOR sg_at s 0 in (lfsr_keystream s, ret))"

fun keystream_words :: "nat \<Rightarrow> snow3g_t \<Rightarrow> u32 list" where
  "keystream_words 0 s = []"
| "keystream_words (Suc n) s = (let (s, z) = generate_keystream_step s in z # keystream_words n s)"

text \<open>The four bytes of \<open>htonl(w)\<close> in memory.\<close>

definition be32 :: "u32 \<Rightarrow> buffer" where
  "be32 w = [ucast (drop_bit 24 w), ucast (drop_bit 16 w), ucast (drop_bit 8 w), ucast w]"

text \<open>The key is used from its last word to its first.\<close>

definition key_order :: "buffer \<Rightarrow> buffer" where
  "key_order key = map (\<lambda>i. key ! i) [12, 13, 14, 15, 8, 9, 10, 11, 4, 5, 6, 7, 0, 1, 2, 3]"

definition ciphering_iv :: "u32 \<Rightarrow> int \<Rightarrow> int \<Rightarrow> buffer" where
  "ciphering_iv cnt bearer direction =
     (let b0 = word_of_int (push_bit 3 bearer OR push_bit 2 direction)
      in b0 # [0, 0, 0] @ be32 cnt @ b0 # [0, 0, 0] @ be32 cnt)"

text \<open>\<open>length\<close> is the length of the input.\<close>

definition snow3g_ciphering :: "u32 list \<Rightarrow> u32 \<Rightarrow> int \<Rightarrow> int \<Rightarrow> buffer \<Rightarrow> buffer \<Rightarrow> buffer" where
  "snow3g_ciphering junk cnt bearer direction key input =
     (let s = snow3g_init junk (key_order key) (ciphering_iv cnt bearer direction);
          keystream = concat (map be32 (keystream_words ((length input + 3) div 4) s))
      in map2 (XOR) input (take (length input) keystream))"

section \<open>Integrity\<close>

text \<open>
  \<open>GET64(in + off, available_bytes)\<close>: a big-endian word, padded with zeros; nothing is read when
  the number of bytes is none of the cases.
\<close>

definition be64 :: "buffer \<Rightarrow> u64" where
  "be64 bs = foldl (\<lambda>v b. push_bit 8 v OR ucast b) 0 (bs @ replicate (8 - length bs) 0)"

definition GET64 :: "buffer \<Rightarrow> int \<Rightarrow> int \<Rightarrow> u64 res" where
  "GET64 input off available_bytes =
     (if 1 \<le> available_bytes \<and> available_bytes \<le> 8
      then bindE (mem_read input off available_bytes) (\<lambda>bs. Inr (be64 bs)) else Inr 0)"

definition MULx64 :: "u64 \<Rightarrow> u64 \<Rightarrow> u64" where
  "MULx64 v c = (if bit v 63 then push_bit 1 v XOR c else push_bit 1 v)"

fun MULxPOW64 :: "u64 \<Rightarrow> nat \<Rightarrow> u64 \<Rightarrow> u64" where
  "MULxPOW64 v 0 c = v"
| "MULxPOW64 v (Suc i) c = MULx64 (MULxPOW64 v i c) c"

definition MUL64 :: "u64 \<Rightarrow> u64 \<Rightarrow> u64 \<Rightarrow> u64" where
  "MUL64 v p c = fold (\<lambda>i r. if bit p i then r XOR MULxPOW64 v i c else r) [0..<64] 0"

type_synonym pm_t = "nat \<Rightarrow> nat \<Rightarrow> u64"

definition pm_set :: "nat \<Rightarrow> nat \<Rightarrow> u64 \<Rightarrow> pm_t \<Rightarrow> pm_t" where
  "pm_set i j v pm = pm(i := (pm i)(j := v))"

definition mul_p :: "pm_t \<Rightarrow> u64 \<Rightarrow> u64" where
  "mul_p pm x =
     (let b = (\<lambda>n. unat (drop_bit n x AND 255))
      in pm 0 (b 0) XOR pm 1 (b 8) XOR pm 2 (b 16) XOR pm 3 (b 24)
         XOR pm 4 (b 32) XOR pm 5 (b 40) XOR pm 6 (b 48) XOR pm 7 (b 56))"

text \<open>The precomputation table: the column 0, the powers of two, then all other bytes.\<close>

definition pm_power_step :: "nat \<Rightarrow> pm_t \<Rightarrow> pm_t" where
  "pm_power_step i pm =
     (let prev = pm ((i - 1) div 8) (2 ^ ((i - 1) mod 8));
          v = push_bit 1 prev;
          v = (if bit prev 63 then v XOR 0x1b else v)
      in pm_set (i div 8) (2 ^ (i mod 8)) v pm)"

definition pm_fill_step :: "nat \<Rightarrow> nat \<Rightarrow> nat \<Rightarrow> pm_t \<Rightarrow> pm_t" where
  "pm_fill_step i j k pm = pm_set i (2 ^ j + k) (pm i (2 ^ j) XOR pm i k) pm"

definition pm_table :: "pm_t \<Rightarrow> u64 \<Rightarrow> pm_t" where
  "pm_table junk p =
     (let pm = fold (\<lambda>i. pm_set i 0 0) [0..<8] junk;
          pm = pm_set 0 1 p pm;
          pm = fold pm_power_step [1..<64] pm
      in fold (\<lambda>i. fold (\<lambda>j. fold (pm_fill_step i j) [1..<2 ^ j]) [1..<8]) [0..<8] pm)"

definition integrity_iv :: "u32 \<Rightarrow> u32 \<Rightarrow> int \<Rightarrow> buffer" where
  "integrity_iv cnt fresh direction =
     (let c = be32 cnt; f = be32 fresh; d = word_of_int (push_bit 7 (direction AND 1))
      in [f ! 0, f ! 1, f ! 2 XOR d, f ! 3, c ! 0 XOR d, c ! 1, c ! 2, c ! 3] @ f @ c)"

text \<open>The loop over the whole 64-bit blocks; \<open>mul\<close> is the multiplication by \<open>P\<close>.\<close>

fun integrity_blocks :: "(u64 \<Rightarrow> u64) \<Rightarrow> buffer \<Rightarrow> nat \<Rightarrow> nat \<Rightarrow> u64 \<Rightarrow> u64 res" where
  "integrity_blocks mul input i 0 eval = Inr eval"
| "integrity_blocks mul input i (Suc n) eval =
     bindE (GET64 input (int (8 * i)) 8) (\<lambda>m. integrity_blocks mul input (i + 1) n (mul (eval XOR m)))"

text \<open>From \<open>eval = 0\<close> to the four bytes written.\<close>

definition integrity_eval :: "(u64 \<Rightarrow> u64) \<Rightarrow> u64 \<Rightarrow> u32 \<Rightarrow> buffer \<Rightarrow> buffer res" where
  "integrity_eval mul q otp input =
     (let len = int (length input); d = (len * 8 + 63) div 64 + 1 in
      bindE (integrity_blocks mul input 0 (nat (d - 2)) 0) (\<lambda>eval.
      bindE (GET64 input ((d - 2) * 8) (min 8 (len - (d - 2) * 8))) (\<lambda>m.
        let eval = mul (eval XOR m);
            eval = eval XOR word_of_int (len * 8);
            eval = MUL64 eval q 0x1b;
            eval = drop_bit 32 eval XOR ucast otp
        in Inr (be32 (ucast eval)))))"

definition snow3g_integrity_fresh ::
    "u32 list \<Rightarrow> pm_t \<Rightarrow> u32 \<Rightarrow> u32 \<Rightarrow> int \<Rightarrow> buffer \<Rightarrow> buffer \<Rightarrow> buffer res" where
  "snow3g_integrity_fresh junk pm_junk cnt fresh direction key input =
     (let s = snow3g_init junk (key_order key) (integrity_iv cnt fresh direction);
          z = keystream_words 5 s;
          p = push_bit 32 (ucast (z ! 0)) OR ucast (z ! 1);
          q = push_bit 32 (ucast (z ! 2)) OR ucast (z ! 3)
      in integrity_eval (mul_p (pm_table pm_junk p)) q (z ! 4) input)"

definition snow3g_integrity ::
    "u32 list \<Rightarrow> pm_t \<Rightarrow> u32 \<Rightarrow> int \<Rightarrow> int \<Rightarrow> buffer \<Rightarrow> buffer \<Rightarrow> buffer res" where
  "snow3g_integrity junk pm_junk cnt bearer direction key input =
     snow3g_integrity_fresh junk pm_junk cnt (push_bit 27 (word_of_int bearer)) direction key input"

end
