(* ===== verification/Snow3g_Props.thy ===== *)
theory Snow3g_Props
  imports Snow3g
begin

text \<open>
  What SNOW 3G promises to PDCP: the sliding window of the code is the shift register of the
  specification (the code under \<open>#if 0\<close>), the words of the array that are never initialised do not
  matter, ciphering is its own inverse, and the multiplication table computes the product in the
  field, so that the MAC is the one of the specification.
\<close>

section \<open>The shift register of the specification\<close>

record snow3g_spec =
  sp_s :: "u32 list"
  sp_r1 :: u32
  sp_r2 :: u32
  sp_r3 :: u32

definition spec_shift :: "u32 \<Rightarrow> snow3g_spec \<Rightarrow> snow3g_spec" where
  "spec_shift v s = s\<lparr>sp_s := tl (sp_s s) @ [v]\<rparr>"

definition spec_feedback :: "snow3g_spec \<Rightarrow> u32" where
  "spec_feedback s = lfsr_feedback (sp_s s ! 0) (sp_s s ! 2) (sp_s s ! 11)"

definition spec_fsm :: "snow3g_spec \<Rightarrow> snow3g_spec \<times> u32" where
  "spec_fsm s =
     (s\<lparr>sp_r1 := sp_r2 s + (sp_r3 s XOR sp_s s ! 5), sp_r2 := s1 (sp_r1 s), sp_r3 := s2 (sp_r2 s)\<rparr>,
      (sp_s s ! 15 + sp_r1 s) XOR sp_r2 s)"

definition spec_init_round :: "snow3g_spec \<Rightarrow> snow3g_spec" where
  "spec_init_round s = (let (t, f) = spec_fsm s in spec_shift (spec_feedback t XOR f) t)"

definition spec_step :: "snow3g_spec \<Rightarrow> snow3g_spec" where
  "spec_step s = (let t = fst (spec_fsm s) in spec_shift (spec_feedback t) t)"

definition spec_word :: "snow3g_spec \<Rightarrow> u32" where
  "spec_word s = snd (spec_fsm s) XOR sp_s s ! 0"

definition spec_load :: "u32 list \<Rightarrow> u32 list \<Rightarrow> snow3g_spec" where
  "spec_load k iv =
     \<lparr>sp_s = map NOT k @ k @ [NOT (k ! 0), NOT (k ! 1) XOR iv ! 3, NOT (k ! 2) XOR iv ! 2, NOT (k ! 3)]
        @ [k ! 0 XOR iv ! 1, k ! 1, k ! 2, k ! 3 XOR iv ! 0],
      sp_r1 = 0, sp_r2 = 0, sp_r3 = 0\<rparr>"

definition words_of :: "buffer \<Rightarrow> u32 list" where
  "words_of b = map (\<lambda>i. GET32 b (4 * i)) [0..<4]"

text \<open>The key stream: 32 rounds of initialisation, one step whose output is dropped, then a word per step.\<close>

definition spec_keystream :: "buffer \<Rightarrow> buffer \<Rightarrow> nat \<Rightarrow> u32 list" where
  "spec_keystream k iv n =
     (let s = spec_step ((spec_init_round ^^ 32) (spec_load (words_of k) (words_of iv)))
      in map (\<lambda>i. spec_word ((spec_step ^^ i) s)) [0..<n])"

section \<open>The sliding window\<close>

text \<open>
  Sixteen consecutive words from the pointer on are the register; the words before the pointer are
  copies of the words sixteen places later, so that the window may wrap.
\<close>

definition sg_inv :: "snow3g_t \<Rightarrow> bool" where
  "sg_inv s \<longleftrightarrow> length (sg_s s) = 32 \<and> sg_ptr s < 16
     \<and> (\<forall>i < sg_ptr s. sg_s s ! i = sg_s s ! (i + 16))"

definition sg_abs :: "snow3g_t \<Rightarrow> snow3g_spec" where
  "sg_abs s = \<lparr>sp_s = map (sg_at s) [0..<16], sp_r1 = sg_r1 s, sp_r2 = sg_r2 s, sp_r3 = sg_r3 s\<rparr>"

lemma lfsr_push_inv: "sg_inv s \<Longrightarrow> sg_inv (lfsr_push v s)"
  by (auto simp: sg_inv_def lfsr_push_def Let_def nth_list_update less_Suc_eq)

lemma lfsr_push_at:
  assumes "sg_inv s" and "i < 16"
  shows "sg_at (lfsr_push v s) i = (if i = 15 then v else sg_at s (i + 1))"
proof (cases "sg_ptr s = 15")
  case True
  with assms have "i < 15 \<Longrightarrow> sg_s s ! i = sg_s s ! (i + 16)" by (simp add: sg_inv_def)
  with assms True show ?thesis by (auto simp: sg_inv_def lfsr_push_def Let_def sg_at_def nth_list_update add.commute)
next
  case False
  with assms show ?thesis by (auto simp: sg_inv_def lfsr_push_def Let_def sg_at_def nth_list_update)
qed

lemma lfsr_push_abs:
  assumes "sg_inv s"
  shows "sg_abs (lfsr_push v s) = spec_shift v (sg_abs s)"
proof -
  have "map (sg_at (lfsr_push v s)) [0..<16] = tl (map (sg_at s) [0..<16]) @ [v]"
    by (rule nth_equalityI) (auto simp: lfsr_push_at[OF assms] nth_append nth_tl)
  then show ?thesis by (simp add: sg_abs_def spec_shift_def lfsr_push_def Let_def)
qed

lemma sg_abs_nth: "i < 16 \<Longrightarrow> sp_s (sg_abs s) ! i = sg_at s i"
  by (simp add: sg_abs_def)

lemma clock_fsm_inv: "sg_inv s \<Longrightarrow> sg_inv (fst (clock_fsm s))"
  by (simp add: sg_inv_def clock_fsm_def Let_def)

lemma sg_at_regs: "sg_at (s\<lparr>sg_r3 := a, sg_r2 := b, sg_r1 := c\<rparr>) = sg_at s"
  by (simp add: sg_at_def fun_eq_iff)

lemma clock_fsm_abs: "spec_fsm (sg_abs s) = (sg_abs (fst (clock_fsm s)), snd (clock_fsm s))"
  by (simp add: spec_fsm_def clock_fsm_def Let_def sg_abs_nth)
    (simp add: sg_abs_def sg_at_def)

lemma feedback_abs: "spec_feedback (sg_abs s) = lfsr_feedback (sg_at s 0) (sg_at s 2) (sg_at s 11)"
  by (simp add: spec_feedback_def sg_abs_nth)

lemma init_rounds_abs:
  "sg_inv s \<Longrightarrow> sg_inv (init_rounds n s) \<and> sg_abs (init_rounds n s) = (spec_init_round ^^ n) (sg_abs s)"
proof (induction n arbitrary: s)
  case (Suc n)
  obtain t f where t: "clock_fsm s = (t, f)" by force
  with Suc.prems clock_fsm_inv[of s] have "sg_inv t" by simp
  then have "sg_inv (lfsr_init t f)" and "sg_abs (lfsr_init t f) = spec_init_round (sg_abs s)"
    by (simp_all add: lfsr_init_def lfsr_push_inv lfsr_push_abs spec_init_round_def clock_fsm_abs t feedback_abs)
  with Suc.IH[of "lfsr_init t f"] show ?case by (simp add: t funpow_swap1)
qed simp

lemma keystream_clock_abs:
  "sg_inv s \<Longrightarrow> sg_inv (lfsr_keystream (fst (clock_fsm s)))
     \<and> sg_abs (lfsr_keystream (fst (clock_fsm s))) = spec_step (sg_abs s)"
  by (simp add: lfsr_keystream_def lfsr_push_inv lfsr_push_abs spec_step_def clock_fsm_abs
      clock_fsm_inv feedback_abs Let_def)

lemma keystream_step_abs:
  assumes "sg_inv s" and "generate_keystream_step s = (t, z)"
  shows "sg_inv t \<and> sg_abs t = spec_step (sg_abs s) \<and> z = spec_word (sg_abs s)"
proof -
  obtain u f where u: "clock_fsm s = (u, f)" by force
  have *: "t = lfsr_keystream u" "z = f XOR sg_at u 0" using assms(2) by (simp_all add: generate_keystream_step_def u)
  have "sg_inv u" using clock_fsm_inv[OF assms(1)] u by simp
  moreover have "sg_at u 0 = sg_at s 0" using u by (auto simp: clock_fsm_def Let_def sg_at_def)
  ultimately show ?thesis
    using keystream_clock_abs[OF assms(1)] by (simp add: * u spec_word_def clock_fsm_abs sg_abs_nth)
qed

lemma keystream_words_abs:
  "sg_inv s \<Longrightarrow> keystream_words n s = map (\<lambda>i. spec_word ((spec_step ^^ i) (sg_abs s))) [0..<n]"
proof (induction n arbitrary: s)
  case (Suc n)
  obtain t z where t: "generate_keystream_step s = (t, z)" by force
  from keystream_step_abs[OF Suc.prems t]
  have "sg_inv t" "sg_abs t = spec_step (sg_abs s)" "z = spec_word (sg_abs s)" by simp_all
  with Suc.IH[of t] have "keystream_words (Suc n) s
      = map (\<lambda>i. spec_word ((spec_step ^^ i) (sg_abs s))) (0 # map Suc [0..<n])"
    by (simp add: t funpow_swap1)
  then show ?case by (simp only: map_Suc_upt upt_conv_Cons zero_less_Suc)
qed simp

lemma ones_u32: "(0xffffffff :: u32) = - 1"
  by simp

lemma map_upt_4: "map f [0..<4] = [f 0, f 1, f 2, f 3]"
  by (simp add: upt_rec numeral_eq_Suc)

lemma map_upt_16: "map f [0..<16] =
   [f 0, f 1, f 2, f 3, f 4, f 5, f 6, f 7, f 8, f 9, f 10, f 11, f 12, f 13, f 14, f 15]"
  by (simp add: upt_rec numeral_eq_Suc)

lemma snow3g_init_abs:
  assumes "length junk = 32"
  shows "sg_inv (snow3g_init junk k iv) \<and> sg_abs (snow3g_init junk k iv)
     = spec_step ((spec_init_round ^^ 32) (spec_load (words_of k) (words_of iv)))"
proof -
  let ?k = "words_of k" and ?v = "words_of iv"
  let ?regs = "[?k ! 0 XOR 0xffffffff, ?k ! 1 XOR 0xffffffff, ?k ! 2 XOR 0xffffffff, ?k ! 3 XOR 0xffffffff,
      ?k ! 0, ?k ! 1, ?k ! 2, ?k ! 3,
      ?k ! 0 XOR 0xffffffff, ?k ! 1 XOR 0xffffffff XOR ?v ! 3, ?k ! 2 XOR 0xffffffff XOR ?v ! 2,
      ?k ! 3 XOR 0xffffffff, ?k ! 0 XOR ?v ! 1, ?k ! 1, ?k ! 2, ?k ! 3 XOR ?v ! 0]"
  let ?s = "\<lparr>sg_s = ?regs @ drop 16 junk, sg_ptr = 0, sg_r1 = 0, sg_r2 = 0, sg_r3 = 0\<rparr>"
  have inv: "sg_inv ?s" using assms by (simp add: sg_inv_def)
  have abs: "sg_abs ?s = spec_load ?k ?v"
    by (simp add: sg_abs_def spec_load_def sg_at_def map_upt_16 words_of_def map_upt_4 ones_u32)
  have s: "snow3g_init junk k iv = lfsr_keystream (fst (clock_fsm (init_rounds 32 ?s)))"
    by (simp only: snow3g_init_def Let_def words_of_def)
  show ?thesis unfolding s
    using init_rounds_abs[OF inv, of 32] keystream_clock_abs[of "init_rounds 32 ?s"] unfolding abs by metis
qed

lemma keystream_is_spec:
  assumes "length junk = 32"
  shows "keystream_words n (snow3g_init junk k iv) = spec_keystream k iv n"
  using snow3g_init_abs[OF assms, of k iv]
  by (simp add: keystream_words_abs spec_keystream_def)

section \<open>Ciphering\<close>

lemma length_be32 [simp]: "length (be32 w) = 4"
  by (simp add: be32_def)

lemma length_concat_be32 [simp]: "length (concat (map be32 ws)) = 4 * length ws"
  by (induction ws) auto

lemma xor_twice:
  fixes xs ks :: buffer
  shows "length xs \<le> length ks \<Longrightarrow> map2 (XOR) (map2 (XOR) xs ks) ks = xs"
proof (induction xs arbitrary: ks)
  case (Cons x xs)
  then show ?case by (cases ks) (auto simp: xor.assoc)
qed simp

lemma length_keystream [simp]: "length (keystream_words n s) = n"
  by (induction n arbitrary: s) (auto simp: Let_def split: prod.splits)

definition spec_ciphering :: "u32 \<Rightarrow> int \<Rightarrow> int \<Rightarrow> buffer \<Rightarrow> buffer \<Rightarrow> buffer" where
  "spec_ciphering cnt bearer direction key input =
     map2 (XOR) input (concat (map be32
       (spec_keystream (key_order key) (ciphering_iv cnt bearer direction) ((length input + 3) div 4))))"

lemma map2_take: "map2 f xs (take (length xs) ys) = map2 f xs ys"
proof (induction xs arbitrary: ys)
  case (Cons x xs)
  then show ?case by (cases ys) auto
qed simp

lemma whole_words: "n \<le> 4 * ((n + 3) div 4)" for n :: nat
  by presburger

lemma ciphering_is_spec:
  "length junk = 32 \<Longrightarrow>
   snow3g_ciphering junk cnt bearer direction key input = spec_ciphering cnt bearer direction key input"
  by (simp add: snow3g_ciphering_def spec_ciphering_def Let_def keystream_is_spec map2_take)

lemma ciphering_length [simp]:
  "length (snow3g_ciphering junk cnt bearer direction key input) = length input"
  by (simp add: snow3g_ciphering_def Let_def whole_words min_absorb1)

lemma ciphering_twice:
  "snow3g_ciphering junk cnt bearer direction key (snow3g_ciphering junk cnt bearer direction key input) = input"
  by (simp add: snow3g_ciphering_def Let_def whole_words min_absorb1 xor_twice)

section \<open>The product in the field\<close>

text \<open>Sums in the field of 64-bit words: the library's operators over a commutative monoid.\<close>

interpretation xor_sum: comm_monoid_set "(XOR)" "0 :: u64"
  by unfold_locales

abbreviation xsum :: "('b \<Rightarrow> u64) \<Rightarrow> 'b set \<Rightarrow> u64" where
  "xsum \<equiv> xor_sum.F"

lemma xsum_lessThan_Suc: "xsum f {..<Suc n} = xsum f {..<n} XOR f n"
  by (simp add: lessThan_Suc xor.commute)

lemma fold_xor_upt:
  "fold (\<lambda>i r. if b i then r XOR f i else r) [0..<n] 0 = xsum (\<lambda>i. if b i then f i else 0) {..<n}"
  by (induction n) (simp_all add: xsum_lessThan_Suc del: xor_sum.lessThan_Suc)

lemma MUL64_xsum: "MUL64 v p c = xsum (\<lambda>i. if bit p i then MULxPOW64 v i c else 0) {..<64}"
  by (simp add: MUL64_def fold_xor_upt)

lemma MULx64_xor: "MULx64 (a XOR b) c = MULx64 a c XOR MULx64 b c"
  by (auto simp: MULx64_def push_bit_xor bit_simps xor.assoc xor.commute xor.left_commute)

lemma MULxPOW64_xor: "MULxPOW64 (a XOR b) i c = MULxPOW64 a i c XOR MULxPOW64 b i c"
  by (induction i) (simp_all add: MULx64_xor)

lemma MULxPOW64_0 [simp]: "MULxPOW64 0 i c = 0"
  by (induction i) (simp_all add: MULx64_def)

lemma MULxPOW64_xsum:
  "finite A \<Longrightarrow> MULxPOW64 (xsum f A) i c = xsum (\<lambda>x. MULxPOW64 (f x) i c) A"
  by (induction A rule: finite_induct) (simp_all add: MULxPOW64_xor)

lemma MULxPOW64_add: "MULxPOW64 (MULxPOW64 v i c) j c = MULxPOW64 v (i + j) c"
  by (induction j) simp_all

lemma MULxPOW64_one: "i < 64 \<Longrightarrow> MULxPOW64 1 i c = push_bit i 1"
  by (induction i) (simp_all add: MULx64_def bit_simps)

lemma bits_xsum:
  "n \<le> 64 \<Longrightarrow> bit (xsum (\<lambda>i. if bit v i then push_bit i 1 else 0) {..<n}) k \<longleftrightarrow> k < n \<and> bit v k"
  for v :: u64
  by (induction n)
    (auto simp: xsum_lessThan_Suc bit_simps less_Suc_eq simp del: xor_sum.lessThan_Suc dest: bit_imp_le_length)

lemma word_xsum: "v = xsum (\<lambda>i. if bit v i then MULxPOW64 1 i c else 0) {..<64}"
proof -
  have "xsum (\<lambda>i. if bit v i then MULxPOW64 1 i c else 0) {..<64}
      = xsum (\<lambda>i. if bit v i then push_bit i 1 else 0) {..<64}"
    by (rule xor_sum.cong) (auto simp: MULxPOW64_one)
  also have "\<dots> = v" by (rule bit_word_eqI) (simp add: bits_xsum)
  finally show ?thesis by simp
qed

text \<open>The product as a double sum over the bits of both factors, which makes it commutative.\<close>

lemma MUL64_double:
  "MUL64 v p c = xsum (\<lambda>j. xsum (\<lambda>i. if bit v i \<and> bit p j then MULxPOW64 1 (i + j) c else 0) {..<64}) {..<64}"
proof -
  have "MULxPOW64 v j c = xsum (\<lambda>i. if bit v i then MULxPOW64 1 (i + j) c else 0) {..<64}" for j
  proof -
    have "MULxPOW64 v j c = xsum (\<lambda>i. MULxPOW64 (if bit v i then MULxPOW64 1 i c else 0) j c) {..<64}"
      by (subst word_xsum[of v c]) (rule MULxPOW64_xsum, simp)
    then show ?thesis by (simp add: if_distrib[of "\<lambda>x. MULxPOW64 x j c"] MULxPOW64_add cong: if_cong)
  qed
  then show ?thesis unfolding MUL64_xsum by (auto intro!: xor_sum.cong)
qed

lemma MUL64_commute: "MUL64 v p c = MUL64 p v c"
  unfolding MUL64_double by (subst xor_sum.swap) (auto intro!: xor_sum.cong simp: add.commute)

section \<open>The multiplication table\<close>

text \<open>What row \<open>i\<close> of the table holds for the byte \<open>b\<close>: the product of \<open>b\<close>, shifted to its place, with \<open>p\<close>.\<close>

definition row_value :: "u64 \<Rightarrow> nat \<Rightarrow> nat \<Rightarrow> u64" where
  "row_value p i b = xsum (\<lambda>t. if bit b t then MULxPOW64 p (8 * i + t) 0x1b else 0) {..<8}"

lemma row_value_0 [simp]: "row_value p i 0 = 0"
  by (simp add: row_value_def)

lemma bit_power_add:
  fixes k :: nat
  assumes "k < 2 ^ j"
  shows "bit (2 ^ j + k) t \<longleftrightarrow> t = j \<or> bit k t"
proof -
  have k: "take_bit j k = k" using assms by (simp add: take_bit_nat_eq_self)
  have "\<not> bit k n" if "j \<le> n" for n using that by (subst k[symmetric]) (simp add: bit_simps)
  then have "2 ^ j + k = 2 ^ j OR k"
    by (intro disjunctive_add) (auto simp: bit_simps)
  then show ?thesis by (auto simp: bit_simps)
qed

lemma row_value_add:
  assumes "k < 2 ^ j" and "j < 8"
  shows "row_value p i (2 ^ j + k) = MULxPOW64 p (8 * i + j) 0x1b XOR row_value p i k"
proof -
  have nb: "\<not> bit k j" using assms(1) by (metis bit_take_bit_iff less_irrefl take_bit_nat_eq_self)
  have "row_value p i (2 ^ j + k) = xsum (\<lambda>t. (if t = j then MULxPOW64 p (8 * i + j) 0x1b else 0)
      XOR (if bit k t then MULxPOW64 p (8 * i + t) 0x1b else 0)) {..<8}"
    unfolding row_value_def using assms(1) nb by (intro xor_sum.cong) (auto simp: bit_power_add)
  also have "\<dots> = MULxPOW64 p (8 * i + j) 0x1b XOR row_value p i k"
    using assms(2) by (simp add: xor_sum.distrib row_value_def)
  finally show ?thesis .
qed

lemma row_value_power: "j < 8 \<Longrightarrow> row_value p i (2 ^ j) = MULxPOW64 p (8 * i + j) 0x1b"
  using row_value_add[of 0 j p i] by simp

text \<open>The three loops that fill it, whose indices start at the numeral 1.\<close>

declare One_nat_def [simp del]

lemma pm_clear: "fold (\<lambda>i. pm_set i 0 0) [0..<n] pm i j = (if i < n \<and> j = 0 then 0 else pm i j)"
  by (induction n) (auto simp: pm_set_def)

lemma pm_powers:
  assumes "n \<le> 63" and "pm 0 1 = p" and "\<forall>i < 8. pm i 0 = 0"
  defines "pm' \<equiv> fold pm_power_step [1..<Suc n] pm"
  shows "(\<forall>i < 8. pm' i 0 = 0) \<and> (\<forall>m \<le> n. pm' (m div 8) (2 ^ (m mod 8)) = MULxPOW64 p m 0x1b)"
  using assms(1) unfolding pm'_def
proof (induction n)
  case 0
  then show ?case using assms by simp
next
  case (Suc n)
  let ?q = "fold pm_power_step [1..<Suc n] pm"
  from Suc have IH: "\<forall>i < 8. ?q i 0 = 0" "\<forall>m \<le> n. ?q (m div 8) (2 ^ (m mod 8)) = MULxPOW64 p m 0x1b"
    by simp_all
  have st: "fold pm_power_step [1..<Suc (Suc n)] pm = pm_power_step (Suc n) ?q" by simp
  have v: "pm_power_step (Suc n) ?q = pm_set (Suc n div 8) (2 ^ (Suc n mod 8)) (MULxPOW64 p (Suc n) 0x1b) ?q"
    using IH(2) by (simp add: pm_power_step_def MULx64_def Let_def)
  have new: "\<not> (m div 8 = Suc n div 8 \<and> (2::nat) ^ (m mod 8) = 2 ^ (Suc n mod 8))" if "m \<le> n" for m
  proof
    assume "m div 8 = Suc n div 8 \<and> (2::nat) ^ (m mod 8) = 2 ^ (Suc n mod 8)"
    then have "m div 8 = Suc n div 8" "m mod 8 = Suc n mod 8" by simp_all
    then have "m = Suc n" by (metis div_mult_mod_eq)
    with that show False by simp
  qed
  obtain q where q: "?q = q" by blast
  show ?case unfolding st v using IH new unfolding q pm_set_def by (auto simp: le_Suc_eq)
qed

lemma pm_fill_row:
  assumes "n \<le> 2 ^ j"
  shows "fold (pm_fill_step i j) [1..<n] pm i' b =
     (if i' = i \<and> 2 ^ j < b \<and> b < 2 ^ j + n then pm i (2 ^ j) XOR pm i (b - 2 ^ j) else pm i' b)"
  using assms
proof (induction n arbitrary: i' b)
  case (Suc n)
  show ?case
  proof (cases "n = 0")
    case False
    let ?q = "fold (pm_fill_step i j) [1..<n] pm"
    have q: "?q i (2 ^ j) = pm i (2 ^ j)" "?q i n = pm i n" using Suc.IH Suc.prems by simp_all
    have "fold (pm_fill_step i j) [1..<Suc n] pm = pm_fill_step i j n ?q" using False by simp
    then have "fold (pm_fill_step i j) [1..<Suc n] pm i' b
        = (if i' = i \<and> b = 2 ^ j + n then pm i (2 ^ j) XOR pm i n else ?q i' b)"
      by (simp add: pm_fill_step_def pm_set_def q)
    also have "?q i' b = (if i' = i \<and> 2 ^ j < b \<and> b < 2 ^ j + n then pm i (2 ^ j) XOR pm i (b - 2 ^ j) else pm i' b)"
      using Suc.IH Suc.prems by simp
    finally show ?thesis using False by auto
  qed auto
qed auto

definition row_done :: "u64 \<Rightarrow> nat \<Rightarrow> nat \<Rightarrow> pm_t \<Rightarrow> bool" where
  "row_done p i j pm \<longleftrightarrow> (\<forall>b < 2 ^ j. pm i b = row_value p i b)
     \<and> (\<forall>t < 8. pm i (2 ^ t) = row_value p i (2 ^ t))"

lemma row_done_step:
  assumes "row_done p i j pm" and "j < 8"
  shows "row_done p i (Suc j) (fold (pm_fill_step i j) [1..<2 ^ j] pm)"
proof -
  let ?q = "fold (pm_fill_step i j) [1..<2 ^ j] pm"
  have q: "?q i b = (if 2 ^ j < b \<and> b < 2 ^ Suc j then pm i (2 ^ j) XOR pm i (b - 2 ^ j) else pm i b)" for b
    by (simp add: pm_fill_row)
  have "?q i b = row_value p i b" if b: "b < 2 ^ Suc j" for b
  proof (cases "2 ^ j < b")
    case True
    define k where "k = b - 2 ^ j"
    have k: "b = 2 ^ j + k" "k < 2 ^ j" using True b by (auto simp: k_def)
    then show ?thesis using True assms b by (simp add: q row_done_def row_value_add row_value_power)
  next
    case False
    then show ?thesis using assms by (cases "b = 2 ^ j") (auto simp: q row_done_def)
  qed
  moreover have "\<not> (2 ^ j < (2::nat) ^ t \<and> (2::nat) ^ t < 2 ^ Suc j)" for t
    using power_less_imp_less_exp[of "2::nat" j t] power_less_imp_less_exp[of "2::nat" t "Suc j"] by auto
  ultimately show ?thesis using assms unfolding row_done_def by (auto simp: q)
qed

lemma row_done_fill:
  assumes "row_done p i 1 pm" and "n \<le> 7"
  shows "row_done p i (Suc n) (fold (\<lambda>j. fold (pm_fill_step i j) [1..<2 ^ j]) [1..<Suc n] pm)"
  using assms(2)
proof (induction n)
  case 0
  then show ?case using assms(1) by (simp add: One_nat_def)
next
  case (Suc n)
  then show ?case using row_done_step[of p i "Suc n"] by simp
qed

lemma fill_other_rows:
  "i' \<noteq> i \<Longrightarrow> fold (\<lambda>j. fold (pm_fill_step i j) [1..<2 ^ j]) js pm i' = pm i'"
proof (induction js arbitrary: pm)
  case (Cons j js)
  have "fold (pm_fill_step i j) [1..<2 ^ j] pm i' = pm i'"
    using Cons.prems by (auto simp: fun_eq_iff pm_fill_row)
  with Cons show ?case by simp
qed simp

lemma row_done_row: "pm i = q i \<Longrightarrow> row_done p i j pm = row_done p i j q"
  by (simp add: row_done_def)

lemma pm_fill_all:
  assumes "\<forall>i < 8. row_done p i 1 pm" and "n \<le> 8"
  defines "pm' \<equiv> fold (\<lambda>i. fold (\<lambda>j. fold (pm_fill_step i j) [1..<2 ^ j]) [1..<8]) [0..<n] pm"
  shows "\<forall>i < 8. row_done p i (if i < n then 8 else 1) pm'"
  using assms(2) unfolding pm'_def
proof (induction n)
  case (Suc n)
  let ?q = "fold (\<lambda>i. fold (\<lambda>j. fold (pm_fill_step i j) [1..<2 ^ j]) [1..<8]) [0..<n] pm"
  let ?r = "fold (\<lambda>j. fold (pm_fill_step n j) [1..<2 ^ j]) [1..<8] ?q"
  have IH: "\<forall>i < 8. row_done p i (if i < n then 8 else 1) ?q" using Suc by simp
  have "row_done p n 8 ?r"
    using row_done_fill[of p n ?q 7] IH[rule_format, of n] Suc.prems by (simp)
  moreover have "row_done p i j ?r = row_done p i j ?q" if "i \<noteq> n" for i j
    by (rule row_done_row) (simp add: fill_other_rows that)
  ultimately show ?case using IH by (auto simp: less_Suc_eq)
qed (use assms(1) in simp)

lemma pm_table_entry: "i < 8 \<Longrightarrow> b < 256 \<Longrightarrow> pm_table junk p i b = row_value p i b"
proof -
  assume i: "i < 8" and b: "b < 256"
  define pm where "pm = pm_set 0 1 p (fold (\<lambda>i. pm_set i 0 0) [0..<8] junk)"
  define pm' where "pm' = fold pm_power_step [1..<64] pm"
  have "pm 0 1 = p" "\<forall>i < 8. pm i 0 = 0" by (simp_all add: pm_def pm_set_def pm_clear)
  from pm_powers[of 63, OF _ this]
  have z: "\<forall>i < 8. pm' i 0 = 0" and pw: "\<forall>m \<le> 63. pm' (m div 8) (2 ^ (m mod 8)) = MULxPOW64 p m 0x1b"
    by (simp_all add: pm'_def)
  have pw8: "pm' i (2 ^ t) = row_value p i (2 ^ t)" if "i < 8" "t < 8" for i t
    using that pw[rule_format, of "8 * i + t"] by (simp add: row_value_power)
  have "row_done p i 1 pm'" if "i < 8" for i
    using z that pw8[OF that] pw8[OF that, of 0] by (auto simp: row_done_def less_2_cases_iff One_nat_def)
  then have "\<forall>i < 8. row_done p i 1 pm'" by simp
  from pm_fill_all[OF this, of 8] i b show ?thesis
    by (simp add: pm_table_def Let_def row_done_def flip: pm_def pm'_def)
qed

declare One_nat_def [simp]

text \<open>Eight bytes of eight bits are the sixty-four bits of the factor.\<close>

lemma xsum_bytes: "xsum (\<lambda>i. xsum (\<lambda>t. f (8 * i + t)) {..<8}) {..<n} = xsum f {..<8 * n}"
  for n :: nat
proof (induction n)
  case (Suc n)
  have "xsum (\<lambda>t. f (m + t)) {..<k} XOR xsum f {..<m} = xsum f {..<m + k}" for m k
    by (induction k) (simp_all add: xsum_lessThan_Suc xor.assoc xor.commute xor.left_commute
        del: xor_sum.lessThan_Suc)
  from this[of "8 * n" 8] Suc show ?case
    by (simp add: xsum_lessThan_Suc xor.commute add.commute del: xor_sum.lessThan_Suc)
qed simp

definition byte_at :: "u64 \<Rightarrow> nat \<Rightarrow> nat" where
  "byte_at x i = unat (drop_bit (8 * i) x AND 255)"

lemma byte_at_less: "byte_at x i < 256"
proof -
  have "drop_bit (8 * i) x AND 255 \<le> 255" by (rule word_and_le1)
  then have "byte_at x i \<le> 255" by (simp add: byte_at_def word_le_nat_alt)
  then show ?thesis by simp
qed

lemma bit_byte_at: "bit (byte_at x i) t \<longleftrightarrow> t < 8 \<and> bit x (8 * i + t)"
proof -
  have m: "drop_bit (8 * i) x AND 255 = drop_bit (8 * i) x AND mask 8" by (simp add: mask_eq_exp_minus_1)
  show ?thesis unfolding byte_at_def m
    by (auto simp: bit_unsigned_iff bit_and_iff bit_drop_bit_eq bit_mask_iff dest: bit_imp_le_length)
qed

lemma mul_p_bytes: "mul_p pm x = xsum (\<lambda>i. pm i (byte_at x i)) {..<8}"
  by (simp add: mul_p_def byte_at_def lessThan_nat_numeral lessThan_Suc Let_def xor.assoc xor.commute xor.left_commute)

lemma mul_p_is_MUL64: "mul_p (pm_table junk p) x = MUL64 x p 0x1b"
proof -
  let ?g = "\<lambda>m. if bit x m then MULxPOW64 p m 0x1b else 0"
  have "mul_p (pm_table junk p) x = xsum (\<lambda>i. row_value p i (byte_at x i)) {..<8}"
    unfolding mul_p_bytes by (rule xor_sum.cong) (auto simp: pm_table_entry byte_at_less)
  also have "\<dots> = xsum (\<lambda>i. xsum (\<lambda>t. ?g (8 * i + t)) {..<8}) {..<8}"
    unfolding row_value_def by (intro xor_sum.cong refl) (auto simp: bit_byte_at)
  also have "\<dots> = xsum ?g {..<8 * 8}" by (rule xsum_bytes)
  also have "\<dots> = MUL64 p x 0x1b" by (simp add: MUL64_xsum)
  finally show ?thesis by (simp add: MUL64_commute)
qed

section \<open>Integrity\<close>

text \<open>
  The message as 64-bit blocks, the last one padded with zeros, and the MAC of the specification:
  the polynomial with these coefficients evaluated at \<open>P\<close>, masked with the length, multiplied by
  \<open>Q\<close>, and its upper half encrypted with the last word of the key stream.
\<close>

definition blocks64 :: "buffer \<Rightarrow> u64 list" where
  "blocks64 m = map (\<lambda>i. be64 (take 8 (drop (8 * i) m))) [0..<(length m + 7) div 8]"

definition spec_mac :: "u32 list \<Rightarrow> buffer \<Rightarrow> buffer" where
  "spec_mac z m =
     (let p = push_bit 32 (ucast (z ! 0)) OR ucast (z ! 1);
          q = push_bit 32 (ucast (z ! 2)) OR ucast (z ! 3);
          eval = foldl (\<lambda>e b. MUL64 (e XOR b) p 0x1b) 0 (blocks64 m);
          eval = MUL64 (eval XOR word_of_int (int (length m) * 8)) q 0x1b
      in be32 (ucast (drop_bit 32 eval XOR ucast (z ! 4))))"

lemma GET64_block:
  assumes "8 * i < length m"
  shows "GET64 m (8 * int i) (min 8 (int (length m) - 8 * int i)) = Inr (be64 (take 8 (drop (8 * i) m)))"
proof -
  have "mem_read m (8 * int i) (min 8 (int (length m) - 8 * int i)) = Inr (take 8 (drop (8 * i) m))"
    using assms by (subst mem_read_ok) (auto simp: nat_mult_distrib min_def)
  then show ?thesis using assms by (simp add: GET64_def)
qed

lemma integrity_blocks_fold:
  "8 * (i + n) \<le> length m \<Longrightarrow>
   integrity_blocks mul m i n e = Inr (foldl (\<lambda>e b. mul (e XOR b)) e
     (map (\<lambda>j. be64 (take 8 (drop (8 * j) m))) [i..<i + n]))"
proof (induction n arbitrary: i e)
  case (Suc n)
  have "GET64 m (8 * int i) 8 = Inr (be64 (take 8 (drop (8 * i) m)))"
    using GET64_block[of i m] Suc.prems by (simp add: min_def)
  moreover have "[i..<i + Suc n] = i # [i + 1..<i + 1 + n]" by (simp add: upt_conv_Cons)
  ultimately show ?case using Suc.IH[of "i + 1"] Suc.prems by simp
qed simp

lemma integrity_eval_spec:
  assumes "m \<noteq> []"
  shows "integrity_eval mul q otp m = Inr (be32 (ucast (drop_bit 32 (MUL64
     (foldl (\<lambda>e b. mul (e XOR b)) 0 (blocks64 m) XOR word_of_int (int (length m) * 8)) q 0x1b) XOR ucast otp)))"
proof -
  define n where "n = (length m - 1) div 8"
  have pos: "0 < length m" using assms by simp
  define r where "r = Suc ((length m - 1) mod 8)"
  have r: "1 \<le> r" "r \<le> 8" "length m = 8 * n + r"
    using pos mult_div_mod_eq[of 8 "length m - 1"] by (simp_all add: n_def r_def Suc_leI)
  then have d: "(int (length m) * 8 + 63) div 64 + 1 - 2 = int n" by simp
  have n: "8 * n < length m" "(length m + 7) div 8 = Suc n" using r by simp_all
  have b: "blocks64 m = map (\<lambda>i. be64 (take 8 (drop (8 * i) m))) [0..<n] @ [be64 (take 8 (drop (8 * n) m))]"
    by (simp add: blocks64_def n(2))
  show ?thesis
    using integrity_blocks_fold[of 0 n m mul 0] n(1) GET64_block[OF n(1)]
    unfolding integrity_eval_def Let_def d by (simp add: b mult.commute[of "int n"])
qed

lemma integrity_eval_empty: "integrity_eval mul q otp [] = Inl Out_Of_Bounds"
  by (simp add: integrity_eval_def Let_def GET64_def mem_read_def)

lemma integrity_is_spec:
  assumes "length junk = 32"
  shows "snow3g_integrity junk pm_junk cnt bearer direction key m =
    (if m = [] then Inl Out_Of_Bounds
     else Inr (spec_mac (spec_keystream (key_order key)
       (integrity_iv cnt (push_bit 27 (word_of_int bearer)) direction) 5) m))"
  using assms
  by (simp add: snow3g_integrity_def snow3g_integrity_fresh_def Let_def keystream_is_spec
      mul_p_is_MUL64 integrity_eval_spec integrity_eval_empty spec_mac_def)

section \<open>Properties\<close>

text \<open>
  Property C16. Ciphering is the stream cipher of the specification, whatever the uninitialised half
  of the array contains: the input XOR the key stream that the 16-word shift register and the
  finite state machine produce from the reordered key and the initialisation vector. The code keeps
  the register as a window that slides over an array of 32 words.
\<close>

theorem snow3g_ciphering_refines:
  assumes "length junk = 32"
  shows "snow3g_ciphering junk cnt bearer direction key input
     = map2 (XOR) input (concat (map be32
         (spec_keystream (key_order key) (ciphering_iv cnt bearer direction) ((length input + 3) div 4))))"
  using ciphering_is_spec[OF assms] by (simp add: spec_ciphering_def)

theorem snow3g_ciphering_refines_witness:
  "length (replicate 32 (0x5a5a :: u32)) = 32
   \<and> snow3g_ciphering (replicate 32 0x5a5a) 7 1 0 (map word_of_nat [0..<16]) [1, 2, 3, 4, 5]
      = map2 (XOR) [1, 2, 3, 4, 5] (concat (map be32
         (spec_keystream (key_order (map word_of_nat [0..<16])) (ciphering_iv 7 1 0) ((length [1, 2, 3, 4, 5 :: byte] + 3) div 4))))"
  using snow3g_ciphering_refines[of "replicate 32 0x5a5a" 7 1 0 "map word_of_nat [0..<16]" "[1, 2, 3, 4, 5]"] by simp

text \<open>
  Property C17. The integrity function returns the MAC of the specification for every message that is
  not empty, whatever the uninitialised arrays contain: the table of 8 x 256 products that the code
  builds by shifts and additions computes the product by \<open>P\<close> in the field with 2^64 elements. For
  the empty message the last block is read eight bytes before the start of the message.
\<close>

theorem snow3g_integrity_is_spec:
  assumes "length junk = 32"
  shows "snow3g_integrity junk pm_junk cnt bearer direction key m =
    (if m = [] then Inl Out_Of_Bounds
     else Inr (spec_mac (spec_keystream (key_order key)
       (integrity_iv cnt (push_bit 27 (word_of_int bearer)) direction) 5) m))"
  by (rule integrity_is_spec[OF assms])

theorem snow3g_integrity_is_spec_witness:
  "length (replicate 32 (0 :: u32)) = 32
   \<and> snow3g_integrity (replicate 32 0) (\<lambda>i j. 0) 0 1 0 (map word_of_nat [0..<16]) [] = Inl Out_Of_Bounds
   \<and> snow3g_integrity (replicate 32 0) (\<lambda>i j. 0) 0 1 0 (map word_of_nat [0..<16]) [1]
      = Inr (spec_mac (spec_keystream (key_order (map word_of_nat [0..<16])) (integrity_iv 0 (push_bit 27 1) 0) 5) [1])"
  using snow3g_integrity_is_spec[of "replicate 32 0" "\<lambda>i j. 0" 0 1 0 "map word_of_nat [0..<16]" "[]"]
    snow3g_integrity_is_spec[of "replicate 32 0" "\<lambda>i j. 0" 0 1 0 "map word_of_nat [0..<16]" "[1]"] by simp

end
