(* ===== verification/Secu_Stream.thy ===== *)
theory Secu_Stream
  imports Snow3g_Props
begin

text \<open>
  The stream security layer of \<open>openair3/SECU\<close>: the parameters of a call
  (\<open>nas_stream_cipher_t\<close>), the algorithms behind the identifiers 0 (none), 1 (SNOW 3G) and 2 (AES),
  and the contexts of \<open>secu_defs.c\<close>. AES is the one of OpenSSL, which the sources only call: its
  counter mode and its CMAC are parameters (\<open>aes_128_ctr_f\<close>, \<open>cmac_f\<close>), as are the arrays that
  SNOW 3G leaves uninitialised on the stack.
\<close>

record crypto =
  aes_128_ctr_f :: "buffer \<Rightarrow> buffer \<Rightarrow> buffer \<Rightarrow> buffer"  \<comment> \<open>key, initialisation vector, message\<close>
  cmac_f :: "buffer \<Rightarrow> buffer \<Rightarrow> buffer"                   \<comment> \<open>key, message\<close>
  stack_words :: "u32 list"
  stack_pm :: pm_t

text \<open>
  What the code relies on: AES in counter mode is a stream cipher, so that encrypting again gives the
  message back, and the CMAC has the size of an AES block.
\<close>

definition crypto_ok :: "crypto \<Rightarrow> bool" where
  "crypto_ok cx \<longleftrightarrow>
     (\<forall>key iv m. length (aes_128_ctr_f cx key iv m) = length m
        \<and> aes_128_ctr_f cx key iv (aes_128_ctr_f cx key iv m) = m)
     \<and> (\<forall>key m. length (cmac_f cx key m) = 16)
     \<and> length (stack_words cx) = 32"

text \<open>A concrete library that satisfies the contract, for the examples.\<close>

definition xor_crypto :: crypto where
  "xor_crypto = \<lparr>aes_128_ctr_f = (\<lambda>key iv m. map (\<lambda>b. b XOR foldr (XOR) (key @ iv) 0) m),
     cmac_f = (\<lambda>key m. replicate 16 (foldr (+) m 0)), stack_words = replicate 32 0, stack_pm = (\<lambda>i j. 0)\<rparr>"

lemma xor_crypto_ok: "crypto_ok xor_crypto"
  by (simp add: crypto_ok_def xor_crypto_def comp_def xor.assoc)

section \<open>The call\<close>

text \<open>\<open>sc_context\<close> is the key that the context of the call holds.\<close>

record nas_stream_cipher =
  sc_context :: buffer
  sc_count :: u32
  sc_bearer :: byte
  sc_direction :: byte
  sc_message :: buffer
  sc_blength :: u32

definition dev_assert :: "bool \<Rightarrow> 'a res \<Rightarrow> 'a res" where
  "dev_assert b m = (if b then m else Inl Assert_Fatal)"

lemma dev_assert_simps [simp, res_simps]: "dev_assert True m = m" "dev_assert False m = Inl Assert_Fatal"
  by (simp_all add: dev_assert_def)

text \<open>
  \<open>data_iv8_t\<close> and \<open>data_iv16_t\<close> in memory, on a little-endian machine: COUNT in network order, then
  a byte with two bits of padding, the direction and five bits of bearer, then zeros.
\<close>

definition iv8 :: "u32 \<Rightarrow> int \<Rightarrow> int \<Rightarrow> buffer" where
  "iv8 cnt bearer direction =
     be32 cnt @ [word_of_int (8 * (bearer mod 32) + 4 * (direction mod 2)), 0, 0, 0]"

definition iv16 :: "u32 \<Rightarrow> int \<Rightarrow> int \<Rightarrow> buffer" where
  "iv16 cnt bearer direction = iv8 cnt bearer direction @ replicate 8 0"

definition aes_128_ctr :: "crypto \<Rightarrow> buffer \<Rightarrow> buffer \<Rightarrow> buffer \<Rightarrow> buffer" where
  "aes_128_ctr cx key iv msg = aes_128_ctr_f cx key iv msg"

definition cipher_aes_128_cbc_cmac :: "crypto \<Rightarrow> buffer \<Rightarrow> buffer \<Rightarrow> buffer \<Rightarrow> buffer" where
  "cipher_aes_128_cbc_cmac cx key iv msg = cmac_f cx key (iv @ msg)"

definition nas_stream_encrypt_eea0 :: "nas_stream_cipher \<Rightarrow> buffer res" where
  "nas_stream_encrypt_eea0 c = mem_read (sc_message c) 0 (uint (drop_bit 3 (sc_blength c + 7)))"

definition nas_stream_encrypt_eea1 :: "crypto \<Rightarrow> nas_stream_cipher \<Rightarrow> buffer res" where
  "nas_stream_encrypt_eea1 cx c =
     bindE (mem_read (sc_message c) 0 (uint (sc_blength c div 8))) (\<lambda>msg.
       Inr (snow3g_ciphering (stack_words cx) (sc_count c) (uint (sc_bearer c)) (uint (sc_direction c))
         (sc_context c) msg))"

definition nas_stream_encrypt_eea2 :: "crypto \<Rightarrow> nas_stream_cipher \<Rightarrow> buffer res" where
  "nas_stream_encrypt_eea2 cx c =
     dev_assert (sc_bearer c < 32) (dev_assert (sc_direction c < 2) (dev_assert (7 < sc_blength c)
       (dev_assert (sc_blength c AND 7 = 0)
         (bindE (mem_read (sc_message c) 0 (uint (drop_bit 3 (sc_blength c)))) (\<lambda>msg.
           Inr (aes_128_ctr cx (sc_context c)
             (iv16 (sc_count c) (uint (sc_bearer c)) (uint (sc_direction c))) msg))))))"

definition nas_stream_encrypt_eia1 :: "crypto \<Rightarrow> nas_stream_cipher \<Rightarrow> buffer res" where
  "nas_stream_encrypt_eia1 cx c =
     bindE (mem_read (sc_message c) 0 (uint (sc_blength c div 8))) (\<lambda>msg.
       snow3g_integrity (stack_words cx) (stack_pm cx) (sc_count c) (uint (sc_bearer c))
         (uint (sc_direction c)) (sc_context c) msg)"

definition nas_stream_encrypt_eia2 :: "crypto \<Rightarrow> nas_stream_cipher \<Rightarrow> buffer res" where
  "nas_stream_encrypt_eia2 cx c =
     dev_assert (sc_bearer c < 32) (dev_assert (sc_blength c AND 7 = 0)
       (bindE (mem_read (sc_message c) 0 (uint (drop_bit 3 (sc_blength c)))) (\<lambda>msg.
         Inr (take 4 (cipher_aes_128_cbc_cmac cx (sc_context c)
           (iv8 (sc_count c) (uint (sc_bearer c)) (uint (sc_direction c))) msg)))))"

text \<open>\<open>out\<close> is what the four bytes of the result held: the null algorithm leaves them.\<close>

definition stream_compute_integrity :: "crypto \<Rightarrow> int \<Rightarrow> nas_stream_cipher \<Rightarrow> buffer \<Rightarrow> buffer res" where
  "stream_compute_integrity cx alg c out =
     (if alg = 0 then Inr out
      else if alg = 1 then nas_stream_encrypt_eia1 cx c
      else if alg = 2 then nas_stream_encrypt_eia2 cx c
      else Inl Assert_Fatal)"

definition stream_compute_encrypt :: "crypto \<Rightarrow> int \<Rightarrow> nas_stream_cipher \<Rightarrow> buffer res" where
  "stream_compute_encrypt cx alg c =
     (if alg = 0 then nas_stream_encrypt_eea0 c
      else if alg = 1 then nas_stream_encrypt_eea1 cx c
      else if alg = 2 then nas_stream_encrypt_eea2 cx c
      else Inl Assert_Fatal)"

section \<open>Contexts\<close>

text \<open>A context holds a copy of the key; the null algorithm has none (NULL).\<close>

definition stream_integrity_init :: "int \<Rightarrow> buffer \<Rightarrow> buffer option res" where
  "stream_integrity_init alg key =
     (if alg = 0 then Inr None else if alg = 1 \<or> alg = 2 then Inr (Some (take 16 key)) else Inl Assert_Fatal)"

definition stream_ciphering_init :: "int \<Rightarrow> buffer \<Rightarrow> buffer option res" where
  "stream_ciphering_init alg key =
     (if alg = 0 then Inr None else if alg = 1 \<or> alg = 2 then Inr (Some (take 16 key)) else Inl Assert_Fatal)"

record stream_security_container =
  ct_integrity_algorithm :: int
  ct_ciphering_algorithm :: int
  ct_ciphering_context :: "buffer option"
  ct_integrity_context :: "buffer option"

definition stream_security_container_init ::
    "int \<Rightarrow> int \<Rightarrow> buffer \<Rightarrow> buffer \<Rightarrow> stream_security_container res" where
  "stream_security_container_init ciphering integrity ciphering_key integrity_key =
     bindE (stream_integrity_init integrity integrity_key) (\<lambda>ic.
     bindE (stream_ciphering_init ciphering ciphering_key) (\<lambda>cc.
       Inr \<lparr>ct_integrity_algorithm = integrity, ct_ciphering_algorithm = ciphering,
            ct_ciphering_context = cc, ct_integrity_context = ic\<rparr>))"

section \<open>Facts for the callers\<close>

lemma blength_bytes:
  assumes "n < 2 ^ 29"
  shows "uint ((word_of_nat n * 8 :: u32) div 8) = int n"
proof -
  have "unat (word_of_nat (n * 8) :: u32) = n * 8"
    using assms by (simp only: unat_of_nat take_bit_nat_eq_self_iff) simp
  then have "unat (word_of_nat n * 8 :: u32) = n * 8" by simp
  then have "unat ((word_of_nat n * 8 :: u32) div 8) = n" by (simp add: unat_div)
  then show ?thesis by (simp add: uint_nat)
qed

lemma eea1_whole:
  assumes "sc_blength c = word_of_nat (length (sc_message c)) * 8" and "length (sc_message c) < 2 ^ 29"
  shows "nas_stream_encrypt_eea1 cx c = Inr (snow3g_ciphering (stack_words cx) (sc_count c)
     (uint (sc_bearer c)) (uint (sc_direction c)) (sc_context c) (sc_message c))"
  using assms by (simp add: nas_stream_encrypt_eea1_def blength_bytes mem_read_ok)

lemma eia1_whole:
  assumes "sc_blength c = word_of_nat (length (sc_message c)) * 8" and "length (sc_message c) < 2 ^ 29"
  shows "nas_stream_encrypt_eia1 cx c = snow3g_integrity (stack_words cx) (stack_pm cx) (sc_count c)
     (uint (sc_bearer c)) (uint (sc_direction c)) (sc_context c) (sc_message c)"
  using assms by (simp add: nas_stream_encrypt_eia1_def blength_bytes mem_read_ok)

end
