(* ===== verification/PDCP_Security.thy ===== *)
theory PDCP_Security
  imports Secu_Stream
begin

text \<open>
  The ciphering and integrity functions of NR PDCP: \<open>nr_pdcp_security_nea1.c\<close>,
  \<open>nr_pdcp_security_nea2.c\<close>, \<open>nr_pdcp_integrity_nia1.c\<close>, \<open>nr_pdcp_integrity_nia2.c\<close>. A buffer stands
  for the pointer and the length that these functions get.
\<close>

section \<open>The functions\<close>

text \<open>
  A context is a heap cell with its own copy of the key, except for NEA2, where it is the address of
  the key inside the entity.
\<close>

datatype sec_context = Own_Key buffer | Entity_Key

definition nr_pdcp_security_nea1_init :: "buffer \<Rightarrow> sec_context" where
  "nr_pdcp_security_nea1_init key = Own_Key (take 16 key)"

definition nr_pdcp_security_nea2_init :: "buffer \<Rightarrow> sec_context" where
  "nr_pdcp_security_nea2_init key = Entity_Key"

definition nr_pdcp_integrity_nia1_init :: "buffer \<Rightarrow> sec_context" where
  "nr_pdcp_integrity_nia1_init key = Own_Key (take 16 key)"

definition nr_pdcp_integrity_nia2_init :: "buffer \<Rightarrow> sec_context" where
  "nr_pdcp_integrity_nia2_init key = Own_Key (take 16 key)"

text \<open>The fields that \<open>nea1_cipher\<close> and \<open>nia1_integrity\<close> set in the context, with their widths.\<close>

definition stream_call :: "buffer \<Rightarrow> int \<Rightarrow> u32 \<Rightarrow> int \<Rightarrow> buffer \<Rightarrow> nas_stream_cipher" where
  "stream_call key bearer cnt direction msg =
     \<lparr>sc_context = key, sc_count = cnt, sc_bearer = word_of_int (bearer - 1),
      sc_direction = word_of_int direction, sc_message = msg, sc_blength = word_of_nat (length msg) * 8\<rparr>"

definition nr_pdcp_security_nea1_cipher ::
    "crypto \<Rightarrow> buffer \<Rightarrow> int \<Rightarrow> u32 \<Rightarrow> int \<Rightarrow> buffer \<Rightarrow> buffer res" where
  "nr_pdcp_security_nea1_cipher cx key bearer cnt direction msg =
     stream_compute_encrypt cx 1 (stream_call key bearer cnt direction msg)"

definition nr_pdcp_security_nea2_cipher ::
    "crypto \<Rightarrow> buffer \<Rightarrow> int \<Rightarrow> u32 \<Rightarrow> int \<Rightarrow> buffer \<Rightarrow> buffer res" where
  "nr_pdcp_security_nea2_cipher cx key bearer cnt direction msg =
     dev_assert (0 < length msg) (dev_assert (-1 < bearer \<and> bearer < 32)
       (dev_assert (-1 < direction \<and> direction < 2)
         (Inr (aes_128_ctr cx (take 16 key) (iv16 cnt (bearer - 1) direction) msg))))"

definition nr_pdcp_integrity_nia1_integrity ::
    "crypto \<Rightarrow> buffer \<Rightarrow> int \<Rightarrow> u32 \<Rightarrow> int \<Rightarrow> buffer \<Rightarrow> buffer res" where
  "nr_pdcp_integrity_nia1_integrity cx key bearer cnt direction msg =
     stream_compute_integrity cx 1 (stream_call key bearer cnt direction msg) [0, 0, 0, 0]"

definition nr_pdcp_integrity_nia2_integrity ::
    "crypto \<Rightarrow> buffer \<Rightarrow> int \<Rightarrow> u32 \<Rightarrow> int \<Rightarrow> buffer \<Rightarrow> buffer res" where
  "nr_pdcp_integrity_nia2_integrity cx key bearer cnt direction msg =
     dev_assert (0 < bearer \<and> bearer < 33)
       (Inr (take 4 (cipher_aes_128_cbc_cmac cx key (iv8 cnt (bearer - 1) direction) msg)))"

section \<open>What the entity relies on\<close>

text \<open>
  A ciphering function applied in place to \<open>n\<close> bytes of a buffer.
\<close>

definition cipher_range :: "(buffer \<Rightarrow> buffer res) \<Rightarrow> buffer \<Rightarrow> int \<Rightarrow> int \<Rightarrow> buffer res" where
  "cipher_range f buf off n =
     bindE (mem_read buf off n) (\<lambda>m. bindE (f m) (\<lambda>c. mem_write buf (nat off) c))"

text \<open>
  The contract of a ciphering function: on the bearers and lengths it accepts it keeps the length
  and is its own inverse. \<open>legal\<close> says for which bearer and length.
\<close>

locale stream_cipher =
  fixes cipher :: "int \<Rightarrow> u32 \<Rightarrow> int \<Rightarrow> buffer \<Rightarrow> buffer res"
    and legal :: "int \<Rightarrow> nat \<Rightarrow> bool"
  assumes self_inverse: "legal bearer (length m) \<Longrightarrow> direction = 0 \<or> direction = 1 \<Longrightarrow>
    \<exists>c. cipher bearer cnt direction m = Inr c \<and> length c = length m \<and> cipher bearer cnt direction c = Inr m"
begin

lemma range_inverse:
  assumes "legal bearer (length m)" and "direction = 0 \<or> direction = 1"
  shows "\<exists>c. length c = length m \<and> (\<forall>a b.
      cipher_range (cipher bearer cnt direction) (a @ m @ b) (int (length a)) (int (length m)) = Inr (a @ c @ b)
    \<and> cipher_range (cipher bearer cnt direction) (a @ c @ b) (int (length a)) (int (length m)) = Inr (a @ m @ b))"
proof -
  obtain c where "cipher bearer cnt direction m = Inr c" "length c = length m"
    "cipher bearer cnt direction c = Inr m"
    using self_inverse[OF assms, of cnt] by auto
  then show ?thesis by (intro exI[of _ c]) (simp add: cipher_range_def mem_read_def mem_write_def)
qed

end

text \<open>NEA1 keeps the contract by the properties of SNOW 3G; the length in bits is 32 bits wide.\<close>

definition nea1_legal :: "int \<Rightarrow> nat \<Rightarrow> bool" where
  "nea1_legal bearer n \<longleftrightarrow> n < 2 ^ 29"

interpretation nea1: stream_cipher "nr_pdcp_security_nea1_cipher cx key" nea1_legal for cx key
proof unfold_locales
  fix bearer :: int and m :: buffer and direction :: int and cnt :: u32
  assume "nea1_legal bearer (length m)"
  then show "\<exists>c. nr_pdcp_security_nea1_cipher cx key bearer cnt direction m = Inr c \<and> length c = length m
     \<and> nr_pdcp_security_nea1_cipher cx key bearer cnt direction c = Inr m"
    by (simp add: nr_pdcp_security_nea1_cipher_def stream_compute_encrypt_def stream_call_def
        eea1_whole nea1_legal_def ciphering_twice)
qed

text \<open>NEA2 keeps it if OpenSSL does; it refuses the empty message and the bearer 32.\<close>

definition nea2_legal :: "int \<Rightarrow> nat \<Rightarrow> bool" where
  "nea2_legal bearer n \<longleftrightarrow> 0 < n \<and> -1 < bearer \<and> bearer < 32"

lemma nea2_stream_cipher:
  assumes "crypto_ok cx"
  shows "stream_cipher (nr_pdcp_security_nea2_cipher cx key) nea2_legal"
  using assms
  by unfold_locales
    (auto simp: nr_pdcp_security_nea2_cipher_def nea2_legal_def aes_128_ctr_def crypto_ok_def
      dev_assert_def simp del: length_greater_0_conv)

text \<open>The MAC has four bytes.\<close>

lemma length_spec_mac: "length (spec_mac z m) = 4"
  by (simp add: spec_mac_def Let_def)

lemma nia1_mac:
  assumes "crypto_ok cx" and "m \<noteq> []" and "length m < 2 ^ 29"
  shows "\<exists>mac. nr_pdcp_integrity_nia1_integrity cx key bearer cnt direction m = Inr mac \<and> length mac = 4"
proof -
  have "snow3g_integrity (stack_words cx) pm cnt b d key m =
      Inr (spec_mac (spec_keystream (key_order key) (integrity_iv cnt (push_bit 27 (word_of_int b)) d) 5) m)"
    for pm b d
    using assms by (simp add: crypto_ok_def integrity_is_spec)
  then show ?thesis using assms
    by (simp add: nr_pdcp_integrity_nia1_integrity_def stream_compute_integrity_def stream_call_def
        eia1_whole length_spec_mac)
qed

lemma nia2_mac:
  assumes "crypto_ok cx" and "0 < bearer" and "bearer < 33"
  shows "\<exists>mac. nr_pdcp_integrity_nia2_integrity cx key bearer cnt direction m = Inr mac \<and> length mac = 4"
  using assms by (simp add: nr_pdcp_integrity_nia2_integrity_def cipher_aes_128_cbc_cmac_def crypto_ok_def)

end
