(* ===== verification/PDCP_Entity.thy ===== *)
theory PDCP_Entity
  imports PDCP_Security
begin

text \<open>
  The NR PDCP entity: \<open>nr_pdcp_sdu.c\<close>, \<open>nr_pdcp_entity.c\<close> and their headers. COUNT values, the state
  variables and the statistics are 32-bit words, times are 64-bit words, as in the C code. Function
  pointers are values of a datatype or None (NULL); calling NULL is \<open>Null_Deref\<close>. Every operation
  that calls \<open>deliver_sdu\<close> returns, beside the entity, the SDUs it delivered, in order; the callback
  does not change the entity. Freeing memory is not modelled.
\<close>

section \<open>Data\<close>

record pdcp_integrity_data =
  id_count :: u32
  id_mac :: buffer
  id_header_size :: nat
  id_header :: buffer

record pdcp_sdu =
  ps_count :: u32
  ps_buffer :: buffer
  ps_integrity :: pdcp_integrity_data

definition ps_size :: "pdcp_sdu \<Rightarrow> int" where
  "ps_size s = int (length (ps_buffer s))"

definition nr_pdcp_new_sdu :: "u32 \<Rightarrow> buffer \<Rightarrow> int \<Rightarrow> int \<Rightarrow> pdcp_integrity_data \<Rightarrow> pdcp_sdu res" where
  "nr_pdcp_new_sdu cnt buf off sz mi =
     bindE (mem_read buf off sz) (\<lambda>bytes. Inr \<lparr>ps_count = cnt, ps_buffer = bytes, ps_integrity = mi\<rparr>)"

definition nr_pdcp_sdu_list_add :: "pdcp_sdu list \<Rightarrow> pdcp_sdu \<Rightarrow> pdcp_sdu list" where
  "nr_pdcp_sdu_list_add l sdu = insert_before (\<lambda>cur. ps_count sdu < ps_count cur) sdu l"

fun nr_pdcp_sdu_in_list :: "pdcp_sdu list \<Rightarrow> u32 \<Rightarrow> bool" where
  "nr_pdcp_sdu_in_list [] cnt = False"
| "nr_pdcp_sdu_in_list (s # l) cnt = (if ps_count s = cnt then True else nr_pdcp_sdu_in_list l cnt)"

datatype pdcp_type = NR_PDCP_DRB_AM | NR_PDCP_DRB_UM | NR_PDCP_SRB

record pdcp_keys =
  integrity_algorithm :: int
  ciphering_algorithm :: int
  integrity_key :: buffer
  ciphering_key :: buffer

text \<open>The counters of \<open>nr_pdcp_statistics_t\<close> that the code writes.\<close>

record pdcp_stats =
  txpdu_pkts :: u32
  txpdu_bytes :: u32
  txpdu_sn :: u32
  rxpdu_pkts :: u32
  rxpdu_bytes :: u32
  rxpdu_sn :: u32
  rxpdu_dd_pkts :: u32
  rxpdu_dd_bytes :: u32
  txsdu_pkts :: u32
  txsdu_bytes :: u32
  rxsdu_pkts :: u32
  rxsdu_bytes :: u32

datatype cipher_fn = Nea1_Cipher | Nea2_Cipher
datatype integrity_fn = Nia1_Integrity | Nia2_Integrity

record pdcp_entity =
  pe_type :: pdcp_type
  pe_rb_id :: int
  pe_pdusession_id :: int
  pe_has_sdap_rx :: bool
  pe_has_sdap_tx :: bool
  pe_sn_size :: nat
  pe_t_reordering :: int
  pe_discard_timer :: int
  pe_sn_max :: int
  pe_window_size :: int
  pe_tx_next :: u32
  pe_rx_next :: u32
  pe_rx_deliv :: u32
  pe_rx_reord :: u32
  pe_t_current :: u64
  pe_t_reordering_start :: u64
  pe_has_ciphering :: bool
  pe_has_integrity :: bool
  pe_keys :: pdcp_keys
  pe_security_context :: "sec_context option"
  pe_cipher :: "cipher_fn option"
  pe_decipher :: "cipher_fn option"
  pe_free_security :: "cipher_fn option"
  pe_integrity_context :: "sec_context option"
  pe_integrity :: "integrity_fn option"
  pe_free_integrity :: "integrity_fn option"
  pe_is_gnb :: bool
  pe_rx_list :: "pdcp_sdu list"
  pe_rx_size :: int
  pe_stats :: pdcp_stats
  pe_suspended :: bool

section \<open>Security calls\<close>

text \<open>
  The call of a ciphering function through its pointer. A context of the wrong kind would be read as
  something it is not.
\<close>

definition call_cipher ::
    "crypto \<Rightarrow> pdcp_entity \<Rightarrow> cipher_fn option \<Rightarrow> u32 \<Rightarrow> int \<Rightarrow> buffer \<Rightarrow> buffer res" where
  "call_cipher cx e fn cnt direction msg =
     (case (fn, pe_security_context e) of
        (None, _) \<Rightarrow> Inl Null_Deref
      | (Some Nea1_Cipher, Some (Own_Key k)) \<Rightarrow> nr_pdcp_security_nea1_cipher cx k (pe_rb_id e) cnt direction msg
      | (Some Nea2_Cipher, Some Entity_Key) \<Rightarrow>
          nr_pdcp_security_nea2_cipher cx (ciphering_key (pe_keys e)) (pe_rb_id e) cnt direction msg
      | (Some Nea1_Cipher, None) \<Rightarrow> Inl Null_Deref
      | (Some Nea2_Cipher, None) \<Rightarrow> Inl Assert_Fatal
      | _ \<Rightarrow> Inl Out_Of_Bounds)"

definition call_integrity :: "crypto \<Rightarrow> pdcp_entity \<Rightarrow> u32 \<Rightarrow> int \<Rightarrow> buffer \<Rightarrow> buffer res" where
  "call_integrity cx e cnt direction msg =
     (case (pe_integrity e, pe_integrity_context e) of
        (None, _) \<Rightarrow> Inl Null_Deref
      | (Some Nia1_Integrity, Some (Own_Key k)) \<Rightarrow>
          nr_pdcp_integrity_nia1_integrity cx k (pe_rb_id e) cnt direction msg
      | (Some Nia2_Integrity, Some (Own_Key k)) \<Rightarrow>
          nr_pdcp_integrity_nia2_integrity cx k (pe_rb_id e) cnt direction msg
      | (Some Nia1_Integrity, None) \<Rightarrow> Inl Null_Deref
      | (Some Nia2_Integrity, None) \<Rightarrow> Inl Assert_Fatal
      | _ \<Rightarrow> Inl Out_Of_Bounds)"

section \<open>Reception\<close>

definition nr_max_pdcp_pdu_size :: "int \<Rightarrow> int" where
  "nr_max_pdcp_pdu_size sdu_size = sdu_size + 3 + 4"

definition upd_pstats :: "(pdcp_stats \<Rightarrow> pdcp_stats) \<Rightarrow> pdcp_entity \<Rightarrow> pdcp_entity" where
  "upd_pstats f e = e\<lparr>pe_stats := f (pe_stats e)\<rparr>"

text \<open>\<open>rxpdu_dd_pkts++; rxpdu_dd_bytes += sz;\<close>\<close>

definition count_discard :: "int \<Rightarrow> pdcp_entity \<Rightarrow> pdcp_entity" where
  "count_discard sz = upd_pstats (\<lambda>s. s\<lparr>rxpdu_dd_pkts := rxpdu_dd_pkts s + 1,
     rxpdu_dd_bytes := rxpdu_dd_bytes s + word_of_int sz\<rparr>)"

definition header_size_of :: "pdcp_entity \<Rightarrow> nat" where
  "header_size_of e = (if pe_sn_size e = 12 then 2 else 3)"

definition integrity_size_of :: "pdcp_entity \<Rightarrow> nat" where
  "integrity_size_of e = (if pe_has_integrity e \<or> pe_type e = NR_PDCP_SRB then 4 else 0)"

text \<open>The sequence number in the header; the two or three bytes are read before any check of the size.\<close>

definition read_sn :: "pdcp_entity \<Rightarrow> buffer \<Rightarrow> int res" where
  "read_sn e buf =
     bindE (mem_read buf 0 (int (header_size_of e))) (\<lambda>h.
       if pe_sn_size e = 12 then Inr (256 * (uint (h ! 0) mod 16) + uint (h ! 1))
       else Inr (65536 * (uint (h ! 0) mod 4) + 256 * uint (h ! 1) + uint (h ! 2)))"

text \<open>The COUNT that belongs to a received sequence number.\<close>

definition rcvd_count_of :: "pdcp_entity \<Rightarrow> int \<Rightarrow> u32" where
  "rcvd_count_of e rcvd_sn =
     (let rx_deliv_sn = uint (pe_rx_deliv e AND word_of_int (pe_sn_max e));
          rx_deliv_hfn = drop_bit (pe_sn_size e) (pe_rx_deliv e);
          rcvd_hfn = (if rcvd_sn < rx_deliv_sn - pe_window_size e then rx_deliv_hfn + 1
                      else if rx_deliv_sn + pe_window_size e \<le> rcvd_sn then rx_deliv_hfn - 1
                      else rx_deliv_hfn)
      in push_bit (pe_sn_size e) rcvd_hfn OR word_of_int rcvd_sn)"

definition empty_integrity_data :: pdcp_integrity_data where
  "empty_integrity_data = \<lparr>id_count = 0, id_mac = [0, 0, 0, 0], id_header_size = 0, id_header = [0, 0, 0]\<rparr>"

definition store_integrity_data :: "pdcp_entity \<Rightarrow> u32 \<Rightarrow> buffer \<Rightarrow> int \<Rightarrow> pdcp_integrity_data res" where
  "store_integrity_data e cnt buf sz =
     (if pe_has_integrity e \<or> pe_type e = NR_PDCP_SRB then
        bindE (mem_read buf (sz - 4) 4) (\<lambda>mac.
        bindE (mem_read buf 0 (int (header_size_of e))) (\<lambda>h.
          Inr \<lparr>id_count = cnt, id_mac = mac, id_header_size = header_size_of e,
               id_header = h @ replicate (3 - header_size_of e) 0\<rparr>))
      else Inr empty_integrity_data)"

text \<open>The body of the delivery loops: hand over the first SDU of the list.\<close>

definition deliver_first :: "pdcp_sdu \<Rightarrow> pdcp_sdu list \<Rightarrow> pdcp_entity \<Rightarrow> pdcp_entity" where
  "deliver_first cur next_list e =
     upd_pstats (\<lambda>s. s\<lparr>txsdu_pkts := txsdu_pkts s + 1, txsdu_bytes := txsdu_bytes s + word_of_int (ps_size cur)\<rparr>)
       (e\<lparr>pe_rx_list := next_list, pe_rx_size := pe_rx_size e - ps_size cur\<rparr>)"

text \<open>\<open>while (rx_list != NULL && count == rx_list->count)\<close>, on the list of the entity\<close>

fun deliver_consecutive :: "pdcp_sdu list \<Rightarrow> u32 \<Rightarrow> pdcp_entity \<Rightarrow> pdcp_entity \<times> pdcp_sdu list \<times> u32" where
  "deliver_consecutive [] cnt e = (e, [], cnt)"
| "deliver_consecutive (cur # l) cnt e =
     (if cnt = ps_count cur
      then (let (e', out, cnt') = deliver_consecutive l (cnt + 1) (deliver_first cur l e) in (e', cur # out, cnt'))
      else (e, [], cnt))"

text \<open>\<open>while (rx_list != NULL && rx_list->count < rx_reord)\<close>\<close>

fun deliver_below :: "pdcp_sdu list \<Rightarrow> u32 \<Rightarrow> pdcp_entity \<Rightarrow> pdcp_entity \<times> pdcp_sdu list" where
  "deliver_below [] reord e = (e, [])"
| "deliver_below (cur # l) reord e =
     (if ps_count cur < reord
      then (let (e', out) = deliver_below l reord (deliver_first cur l e) in (e', cur # out))
      else (e, []))"

fun deliver_all_sdus_loop :: "pdcp_sdu list \<Rightarrow> pdcp_entity \<Rightarrow> pdcp_entity \<times> pdcp_sdu list" where
  "deliver_all_sdus_loop [] e = (e, [])"
| "deliver_all_sdus_loop (cur # l) e =
     (let (e', out) = deliver_all_sdus_loop l (deliver_first cur l e) in (e', cur # out))"

definition deliver_all_sdus :: "pdcp_entity \<Rightarrow> pdcp_entity \<times> pdcp_sdu list" where
  "deliver_all_sdus e = deliver_all_sdus_loop (pe_rx_list e) e"

text \<open>The end of \<open>recv_pdu\<close>: t-Reordering is stopped or started.\<close>

definition update_t_reordering :: "pdcp_entity \<Rightarrow> pdcp_entity" where
  "update_t_reordering e =
     (let e = (if pe_t_reordering_start e \<noteq> 0 \<and> pe_rx_reord e \<le> pe_rx_deliv e
               then e\<lparr>pe_t_reordering_start := 0\<rparr> else e)
      in if pe_t_reordering_start e = 0 \<and> pe_rx_deliv e < pe_rx_next e
         then e\<lparr>pe_rx_reord := pe_rx_next e, pe_t_reordering_start := pe_t_current e\<rparr> else e)"

text \<open>From \<open>nr_pdcp_sdu_list_add\<close> to the end of \<open>recv_pdu\<close>.\<close>

definition accept_sdu :: "int \<Rightarrow> int \<Rightarrow> pdcp_sdu \<Rightarrow> pdcp_entity \<Rightarrow> pdcp_entity \<times> pdcp_sdu list" where
  "accept_sdu sz header_size sdu e =
     (let cnt = ps_count sdu;
          e = e\<lparr>pe_rx_list := nr_pdcp_sdu_list_add (pe_rx_list e) sdu,
                pe_rx_size := pe_rx_size e + (sz - header_size)\<rparr>;
          e = (if pe_rx_next e \<le> cnt then e\<lparr>pe_rx_next := cnt + 1\<rparr> else e);
          (e, out) = (if cnt = pe_rx_deliv e
                      then (let (e, out, c) = deliver_consecutive (pe_rx_list e) (pe_rx_deliv e) e
                            in (e\<lparr>pe_rx_deliv := c\<rparr>, out))
                      else (e, []))
      in (update_t_reordering e, out))"

text \<open>The MAC of the PDU, compared with the one it carries.\<close>

definition integrity_accepts :: "crypto \<Rightarrow> pdcp_entity \<Rightarrow> u32 \<Rightarrow> buffer \<Rightarrow> int \<Rightarrow> bool res" where
  "integrity_accepts cx e cnt buf sz =
     (if pe_has_integrity e then
        bindE (mem_read buf 0 (sz - int (integrity_size_of e))) (\<lambda>m.
        bindE (call_integrity cx e cnt (if pe_is_gnb e then 0 else 1) m) (\<lambda>mac.
        bindE (mem_read buf (sz - int (integrity_size_of e)) 4) (\<lambda>got. Inr (mac = got))))
      else Inr True)"

text \<open>From the integrity check on: \<open>buf\<close> is deciphered.\<close>

definition recv_deciphered ::
    "crypto \<Rightarrow> pdcp_entity \<Rightarrow> u32 \<Rightarrow> pdcp_integrity_data \<Rightarrow> buffer \<Rightarrow> int \<Rightarrow> (pdcp_entity \<times> pdcp_sdu list) res" where
  "recv_deciphered cx e rcvd_count mi buf sz =
     bindE (integrity_accepts cx e rcvd_count buf sz) (\<lambda>ok.
       if \<not> ok then Inr (count_discard sz e, [])
       else if rcvd_count < pe_rx_deliv e \<or> nr_pdcp_sdu_in_list (pe_rx_list e) rcvd_count
       then Inr (count_discard sz e, [])
       else bindE (nr_pdcp_new_sdu rcvd_count buf (int (header_size_of e))
                    (sz - int (header_size_of e) - int (integrity_size_of e)) mi)
              (\<lambda>sdu. Inr (accept_sdu sz (int (header_size_of e)) sdu e)))"

definition decipher_pdu :: "crypto \<Rightarrow> pdcp_entity \<Rightarrow> u32 \<Rightarrow> buffer \<Rightarrow> int \<Rightarrow> int \<Rightarrow> buffer res" where
  "decipher_pdu cx e rcvd_count buf off n =
     (if pe_has_ciphering e
      then cipher_range (call_cipher cx e (pe_decipher e) rcvd_count (if pe_is_gnb e then 0 else 1)) buf off n
      else Inr buf)"

text \<open>From the check of the size on.\<close>

definition recv_data_pdu ::
    "crypto \<Rightarrow> pdcp_entity \<Rightarrow> buffer \<Rightarrow> int \<Rightarrow> int \<Rightarrow> (pdcp_entity \<times> pdcp_sdu list) res" where
  "recv_data_pdu cx e buf sz rcvd_sn =
     (let sdap_header_size = (if pe_has_sdap_rx e then 1 else 0 :: int);
          header_size = int (header_size_of e);
          integrity_size = int (integrity_size_of e)
      in if sz < header_size + sdap_header_size + integrity_size + 1
         then Inr (count_discard sz e, [])
         else
           let rcvd_count = rcvd_count_of e rcvd_sn in
           bindE (store_integrity_data e rcvd_count buf sz) (\<lambda>mi.
           bindE (decipher_pdu cx e rcvd_count buf (header_size + sdap_header_size)
                    (sz - (header_size + sdap_header_size))) (\<lambda>buf.
             recv_deciphered cx e rcvd_count mi buf sz)))"

text \<open>\<open>rxpdu_pkts++; rxpdu_bytes += size;\<close> and \<open>rxpdu_sn = rcvd_sn;\<close>\<close>

definition count_rxpdu :: "int \<Rightarrow> pdcp_entity \<Rightarrow> pdcp_entity" where
  "count_rxpdu sz = upd_pstats (\<lambda>s. s\<lparr>rxpdu_pkts := rxpdu_pkts s + 1, rxpdu_bytes := rxpdu_bytes s + word_of_int sz\<rparr>)"

definition set_rxpdu_sn :: "int \<Rightarrow> pdcp_entity \<Rightarrow> pdcp_entity" where
  "set_rxpdu_sn sn = upd_pstats (\<lambda>s. s\<lparr>rxpdu_sn := word_of_int sn\<rparr>)"

text \<open>The "hack": the D/C bit is set when it is not.\<close>

definition force_dc_bit :: "pdcp_entity \<Rightarrow> buffer \<Rightarrow> buffer" where
  "force_dc_bit e buf = (if pe_type e \<noteq> NR_PDCP_SRB \<and> \<not> bit (buf ! 0) 7 then buf[0 := buf ! 0 OR 128] else buf)"

definition nr_pdcp_entity_recv_pdu ::
    "crypto \<Rightarrow> pdcp_entity \<Rightarrow> buffer \<Rightarrow> int \<Rightarrow> (pdcp_entity \<times> pdcp_sdu list) res" where
  "nr_pdcp_entity_recv_pdu cx e buf sz =
     (if pe_suspended e then Inr (e, [])
      else if sz < 1 then Inr (e, [])
      else if buf = [] then Inl Out_Of_Bounds
      else
        let buf = force_dc_bit e buf; e = count_rxpdu sz e in
        bindE (read_sn e buf) (\<lambda>rcvd_sn. recv_data_pdu cx (set_rxpdu_sn rcvd_sn e) buf sz rcvd_sn))"

section \<open>Transmission\<close>

definition dc_bit_of :: "pdcp_entity \<Rightarrow> int" where
  "dc_bit_of e = (if pe_type e = NR_PDCP_DRB_AM \<or> pe_type e = NR_PDCP_DRB_UM then 128 else 0)"

definition tx_header :: "pdcp_entity \<Rightarrow> int \<Rightarrow> buffer" where
  "tx_header e sn =
     (if pe_sn_size e = 12
      then [word_of_int (dc_bit_of e OR (sn div 256) mod 16), word_of_int (sn mod 256)]
      else [word_of_int (dc_bit_of e OR (sn div 65536) mod 4), word_of_int ((sn div 256) mod 256),
            word_of_int (sn mod 256)])"

text \<open>The MAC-I behind the SDU: computed, or zero for an SRB without integrity, or absent.\<close>

definition write_mac :: "crypto \<Rightarrow> pdcp_entity \<Rightarrow> u32 \<Rightarrow> int \<Rightarrow> buffer \<Rightarrow> nat \<Rightarrow> buffer res" where
  "write_mac cx e cnt direction buf n =
     (if pe_has_integrity e
      then bindE (mem_read buf 0 (int n)) (\<lambda>m.
           bindE (call_integrity cx e cnt direction m) (\<lambda>mac. mem_write buf n mac))
      else if integrity_size_of e = 4 then mem_write buf n [0, 0, 0, 0]
      else Inr buf)"

text \<open>
  \<open>pdu_buffer\<close> is the memory that the result is written to; the result is the value returned and that
  memory. The SDU is \<open>sdu\<close>, its length \<open>sz\<close>.
\<close>

definition nr_pdcp_entity_process_sdu ::
    "crypto \<Rightarrow> pdcp_entity \<Rightarrow> buffer \<Rightarrow> buffer \<Rightarrow> int \<Rightarrow> (pdcp_entity \<times> int \<times> buffer) res" where
  "nr_pdcp_entity_process_sdu cx e sdu pdu_buffer pdu_max_size =
     (let sz = int (length sdu) in
      dev_assert (nr_max_pdcp_pdu_size sz \<le> pdu_max_size)
      (if pe_suspended e then Inr (e, -1, pdu_buffer)
       else
         let e = upd_pstats (\<lambda>s. s\<lparr>rxsdu_pkts := rxsdu_pkts s + 1, rxsdu_bytes := rxsdu_bytes s + word_of_int sz\<rparr>) e;
             cnt = pe_tx_next e;
             sn = uint (pe_tx_next e AND word_of_int (pe_sn_max e));
             sdap_header_size = (if pe_has_sdap_tx e then 1 else 0 :: int);
             direction = (if pe_is_gnb e then 1 else 0 :: int);
             header_size = header_size_of e;
             integrity_size = int (integrity_size_of e)
         in
         bindE (mem_write pdu_buffer 0 (tx_header e sn)) (\<lambda>buf.
         bindE (mem_write buf header_size sdu) (\<lambda>buf.
         bindE (write_mac cx e cnt direction buf (header_size + length sdu)) (\<lambda>buf.
         bindE (if pe_has_ciphering e
                then cipher_range (call_cipher cx e (pe_cipher e) cnt direction) buf
                       (int header_size + sdap_header_size) (sz + integrity_size - sdap_header_size)
                else Inr buf) (\<lambda>buf.
           Inr (upd_pstats (\<lambda>s. s\<lparr>txpdu_pkts := txpdu_pkts s + 1,
                  txpdu_bytes := txpdu_bytes s + word_of_int (int header_size + sz + integrity_size),
                  txpdu_sn := word_of_int sn\<rparr>) (e\<lparr>pe_tx_next := pe_tx_next e + 1\<rparr>),
                int header_size + sz + integrity_size, buf)))))))"

definition nr_pdcp_entity_check_integrity :: "crypto \<Rightarrow> pdcp_entity \<Rightarrow> buffer \<Rightarrow> pdcp_integrity_data \<Rightarrow> bool res" where
  "nr_pdcp_entity_check_integrity cx e buf mi =
     (if \<not> pe_has_integrity e then Inr False
      else bindE (mem_read (id_header mi) 0 (int (id_header_size mi))) (\<lambda>h.
           bindE (call_integrity cx e (id_count mi) (if pe_is_gnb e then 0 else 1) (h @ buf)) (\<lambda>mac.
             Inr (mac = id_mac mi))))"

section \<open>Security parameters\<close>

definition store_keys :: "pdcp_keys \<Rightarrow> pdcp_keys \<Rightarrow> pdcp_keys" where
  "store_keys p k =
     (let k = (if integrity_algorithm p \<noteq> -1
               then k\<lparr>integrity_algorithm := integrity_algorithm p, integrity_key := integrity_key p\<rparr> else k)
      in if ciphering_algorithm p \<noteq> -1
         then k\<lparr>ciphering_algorithm := ciphering_algorithm p, ciphering_key := ciphering_key p\<rparr> else k)"

definition set_integrity :: "int \<Rightarrow> pdcp_entity \<Rightarrow> pdcp_entity res" where
  "set_integrity alg e =
     (if alg = -1 then Inr e
      else if alg = 0 then Inr (e\<lparr>pe_has_integrity := False, pe_free_integrity := None\<rparr>)
      else let e = e\<lparr>pe_has_integrity := True\<rparr> in
        if alg = 2 then Inr (e\<lparr>pe_integrity_context := Some (nr_pdcp_integrity_nia2_init (integrity_key (pe_keys e))),
          pe_integrity := Some Nia2_Integrity, pe_free_integrity := Some Nia2_Integrity\<rparr>)
        else if alg = 1 then Inr (e\<lparr>pe_integrity_context := Some (nr_pdcp_integrity_nia1_init (integrity_key (pe_keys e))),
          pe_integrity := Some Nia1_Integrity, pe_free_integrity := Some Nia1_Integrity\<rparr>)
        else Inl Exit_Failure)"

definition set_ciphering :: "int \<Rightarrow> pdcp_entity \<Rightarrow> pdcp_entity res" where
  "set_ciphering alg e =
     (if alg = -1 then Inr e
      else if alg = 0 then Inr (e\<lparr>pe_has_ciphering := False, pe_free_security := None\<rparr>)
      else let e = e\<lparr>pe_has_ciphering := True\<rparr> in
        if alg = 2 then Inr (e\<lparr>pe_security_context := Some (nr_pdcp_security_nea2_init (ciphering_key (pe_keys e))),
          pe_cipher := Some Nea2_Cipher, pe_decipher := Some Nea2_Cipher, pe_free_security := Some Nea2_Cipher\<rparr>)
        else if alg = 1 then Inr (e\<lparr>pe_security_context := Some (nr_pdcp_security_nea1_init (ciphering_key (pe_keys e))),
          pe_cipher := Some Nea1_Cipher, pe_decipher := Some Nea1_Cipher, pe_free_security := Some Nea1_Cipher\<rparr>)
        else Inl Exit_Failure)"

definition nr_pdcp_entity_set_security :: "pdcp_keys \<Rightarrow> pdcp_entity \<Rightarrow> pdcp_entity res" where
  "nr_pdcp_entity_set_security p e =
     bindE (set_integrity (integrity_algorithm p) (e\<lparr>pe_keys := store_keys p (pe_keys e)\<rparr>))
       (set_ciphering (ciphering_algorithm p))"

section \<open>Timers, suspension, re-establishment\<close>

definition check_t_reordering :: "pdcp_entity \<Rightarrow> pdcp_entity \<times> pdcp_sdu list" where
  "check_t_reordering e =
     (if pe_t_reordering e = -1 then (e, [])
      else if pe_t_reordering_start e = 0
        \<or> pe_t_current e \<le> pe_t_reordering_start e + word_of_int (pe_t_reordering e) then (e, [])
      else
        let e = e\<lparr>pe_t_reordering_start := 0\<rparr>;
            (e, out1) = deliver_below (pe_rx_list e) (pe_rx_reord e) e;
            (e, out2, cnt) = deliver_consecutive (pe_rx_list e) (pe_rx_reord e) e;
            e = e\<lparr>pe_rx_deliv := cnt\<rparr>
        in (if pe_rx_deliv e < pe_rx_next e
            then e\<lparr>pe_rx_reord := pe_rx_next e, pe_t_reordering_start := pe_t_current e\<rparr> else e,
            out1 @ out2))"

definition nr_pdcp_entity_set_time :: "u64 \<Rightarrow> pdcp_entity \<Rightarrow> pdcp_entity \<times> pdcp_sdu list" where
  "nr_pdcp_entity_set_time now e = check_t_reordering (e\<lparr>pe_t_current := now\<rparr>)"

definition nr_pdcp_entity_suspend :: "pdcp_entity \<Rightarrow> pdcp_entity \<times> pdcp_sdu list" where
  "nr_pdcp_entity_suspend e =
     (let e = e\<lparr>pe_tx_next := 0\<rparr>;
          (e, out) = (if pe_t_reordering_start e \<noteq> 0
                      then deliver_all_sdus (e\<lparr>pe_t_reordering_start := 0\<rparr>) else (e, []))
      in (e\<lparr>pe_rx_next := 0, pe_rx_deliv := 0, pe_suspended := True\<rparr>, out))"

definition free_rx_list :: "pdcp_entity \<Rightarrow> pdcp_entity" where
  "free_rx_list e =
     (fold (\<lambda>cur. count_discard (ps_size cur)) (pe_rx_list e) e)\<lparr>pe_rx_list := [], pe_rx_size := 0\<rparr>"

definition reestablish_drb_am :: "pdcp_keys \<Rightarrow> pdcp_entity \<Rightarrow> (pdcp_entity \<times> pdcp_sdu list) res" where
  "reestablish_drb_am p e =
     bindE (nr_pdcp_entity_set_security p e) (\<lambda>e. Inr (e\<lparr>pe_suspended := False\<rparr>, []))"

definition reestablish_drb_um :: "pdcp_keys \<Rightarrow> pdcp_entity \<Rightarrow> (pdcp_entity \<times> pdcp_sdu list) res" where
  "reestablish_drb_um p e =
     (let e = e\<lparr>pe_tx_next := 0\<rparr>;
          (e, out) = (if pe_t_reordering_start e \<noteq> 0 then deliver_all_sdus e else (e, []));
          e = e\<lparr>pe_t_reordering_start := 0, pe_rx_next := 0, pe_rx_deliv := 0\<rparr>
      in bindE (nr_pdcp_entity_set_security p e) (\<lambda>e. Inr (e\<lparr>pe_suspended := False\<rparr>, out)))"

definition reestablish_srb :: "pdcp_keys \<Rightarrow> pdcp_entity \<Rightarrow> (pdcp_entity \<times> pdcp_sdu list) res" where
  "reestablish_srb p e =
     (let e = free_rx_list (e\<lparr>pe_tx_next := 0\<rparr>);
          e = e\<lparr>pe_t_reordering_start := 0, pe_rx_next := 0, pe_rx_deliv := 0\<rparr>
      in bindE (nr_pdcp_entity_set_security p e) (\<lambda>e. Inr (e\<lparr>pe_suspended := False\<rparr>, [])))"

text \<open>The pointer \<open>reestablish_entity\<close> that the constructor chooses by the type.\<close>

definition reestablish_entity :: "pdcp_keys \<Rightarrow> pdcp_entity \<Rightarrow> (pdcp_entity \<times> pdcp_sdu list) res" where
  "reestablish_entity p e =
     (case pe_type e of
        NR_PDCP_DRB_AM \<Rightarrow> reestablish_drb_am p e
      | NR_PDCP_DRB_UM \<Rightarrow> reestablish_drb_um p e
      | NR_PDCP_SRB \<Rightarrow> reestablish_srb p e)"

definition nr_pdcp_entity_release :: "pdcp_entity \<Rightarrow> pdcp_entity \<times> pdcp_sdu list" where
  "nr_pdcp_entity_release e = deliver_all_sdus e"

definition nr_pdcp_entity_get_stats :: "pdcp_entity \<Rightarrow> pdcp_stats" where
  "nr_pdcp_entity_get_stats e = pe_stats e"

definition zero_pdcp_stats :: pdcp_stats where
  "zero_pdcp_stats = \<lparr>txpdu_pkts = 0, txpdu_bytes = 0, txpdu_sn = 0, rxpdu_pkts = 0, rxpdu_bytes = 0,
     rxpdu_sn = 0, rxpdu_dd_pkts = 0, rxpdu_dd_bytes = 0, txsdu_pkts = 0, txsdu_bytes = 0,
     rxsdu_pkts = 0, rxsdu_bytes = 0\<rparr>"

definition new_nr_pdcp_entity ::
    "pdcp_type \<Rightarrow> bool \<Rightarrow> int \<Rightarrow> int \<Rightarrow> bool \<Rightarrow> bool \<Rightarrow> nat \<Rightarrow> int \<Rightarrow> int \<Rightarrow> pdcp_keys \<Rightarrow> pdcp_entity res" where
  "new_nr_pdcp_entity type is_gnb rb_id pdusession_id has_sdap_rx has_sdap_tx sn_size t_reordering
     discard_timer security_parameters =
     nr_pdcp_entity_set_security security_parameters
       \<lparr>pe_type = type, pe_rb_id = rb_id, pe_pdusession_id = pdusession_id, pe_has_sdap_rx = has_sdap_rx,
        pe_has_sdap_tx = has_sdap_tx, pe_sn_size = sn_size, pe_t_reordering = t_reordering,
        pe_discard_timer = discard_timer, pe_sn_max = 2 ^ sn_size - 1, pe_window_size = 2 ^ (sn_size - 1),
        pe_tx_next = 0, pe_rx_next = 0, pe_rx_deliv = 0, pe_rx_reord = 0, pe_t_current = 0,
        pe_t_reordering_start = 0, pe_has_ciphering = False, pe_has_integrity = False,
        pe_keys = \<lparr>integrity_algorithm = 0, ciphering_algorithm = 0, integrity_key = replicate 16 0,
                   ciphering_key = replicate 16 0\<rparr>,
        pe_security_context = None, pe_cipher = None, pe_decipher = None, pe_free_security = None,
        pe_integrity_context = None, pe_integrity = None, pe_free_integrity = None, pe_is_gnb = is_gnb,
        pe_rx_list = [], pe_rx_size = 0, pe_stats = zero_pdcp_stats, pe_suspended = False\<rparr>"

end
