(* ===== verification/PDCP_Rx.thy ===== *)
theory PDCP_Rx
  imports PDCP_Entity
begin

text \<open>
  Reception in NR PDCP: the COUNT of a received PDU, the state variables and the reordering list,
  delivery in order and at most once, and what the reordering timer does.
\<close>

section \<open>COUNT\<close>

definition pdcp_config :: "pdcp_entity \<Rightarrow> bool" where
  "pdcp_config e \<longleftrightarrow> (pe_sn_size e = 12 \<or> pe_sn_size e = 18)
     \<and> pe_sn_max e = 2 ^ pe_sn_size e - 1 \<and> pe_window_size e = 2 ^ (pe_sn_size e - 1)"

lemma and_sn_max: "uint (w AND word_of_int (2 ^ n - 1)) = uint w mod 2 ^ n" for w :: u32
proof -
  have "w AND word_of_int (2 ^ n - 1) = take_bit n w"
    by (simp only: take_bit_eq_mask mask_eq_exp_minus_1 of_int_diff of_int_power of_int_numeral of_int_1)
  then show ?thesis by (simp only: unsigned_take_bit_eq take_bit_eq_mod[of n "uint w"])
qed

lemma word_split: "push_bit n (drop_bit n w) OR take_bit n w = w" for w :: u32
  by (rule bit_word_eqI) (auto simp: bit_simps)

lemma drop_bit_word: "drop_bit n w = word_of_int (uint w div 2 ^ n)" for w :: u32
proof -
  have "take_bit 32 (uint w) = uint w" using uint_lt2p[of w] by (simp add: take_bit_int_eq_self_iff)
  then have "uint (drop_bit n w) = uint w div 2 ^ n"
    by (simp add: unsigned_drop_bit_eq drop_bit_eq_div[of n "uint w"])
  then show ?thesis by (metis word_of_int_uint)
qed

lemma take_bit_word: "take_bit n w = word_of_int (uint w mod 2 ^ n)" for w :: u32
  by (metis take_bit_eq_mod unsigned_take_bit_eq word_of_int_uint)

lemma hfn_linear:
  fixes hc sc hd sd :: int
  assumes "0 \<le> sc" "sc < 2 * W" "0 \<le> sd" "sd < 2 * W" and "0 < W"
    and "2 * W * hd + sd - W \<le> 2 * W * hc + sc" "2 * W * hc + sc < 2 * W * hd + sd + W"
  shows "hc = (if sc < sd - W then hd + 1 else if sd + W \<le> sc then hd - 1 else hd)"
proof -
  have m: "2 * W * a \<le> 2 * W * b" if "a \<le> b" for a b using that assms(5) by (simp add: mult_left_mono)
  consider "hc \<le> hd - 2" | "hc = hd - 1" | "hc = hd" | "hc = hd + 1" | "hd + 2 \<le> hc" by linarith
  then show ?thesis
  proof cases
    case 1
    then show ?thesis using m[of hc "hd - 2"] assms by (simp add: algebra_simps)
  next
    case 5
    then show ?thesis using m[of "hd + 2" hc] assms by (simp add: algebra_simps)
  qed (use assms in \<open>auto simp: algebra_simps\<close>)
qed

lemma hfn_cases:
  fixes c d N W :: int
  assumes "d - W \<le> c" and "c < d + W" and "N = 2 * W" and W: "0 < W"
  shows "c div N = (if c mod N < d mod N - W then d div N + 1
    else if d mod N + W \<le> c mod N then d div N - 1 else d div N)"
proof (rule hfn_linear[OF _ _ _ _ W])
  have N: "0 < N" "2 * W = N" using W assms(3) by auto
  show "0 \<le> c mod N" "0 \<le> d mod N" using N(1) by simp_all
  show "c mod N < 2 * W" "d mod N < 2 * W" unfolding N(2) using N(1) by simp_all
  show "2 * W * (d div N) + d mod N - W \<le> 2 * W * (c div N) + c mod N"
    "2 * W * (c div N) + c mod N < 2 * W * (d div N) + d mod N + W"
    unfolding N(2) using assms(1,2) by simp_all
qed

lemma rcvd_count_window:
  assumes "pdcp_config e"
    and "uint (pe_rx_deliv e) - pe_window_size e \<le> uint c"
    and "uint c < uint (pe_rx_deliv e) + pe_window_size e"
  shows "rcvd_count_of e (uint c mod 2 ^ pe_sn_size e) = c"
proof -
  let ?N = "2 ^ pe_sn_size e :: int" and ?W = "pe_window_size e" and ?d = "uint (pe_rx_deliv e)"
  let ?s = "uint c mod ?N"
  let ?h = "if ?s < ?d mod ?N - ?W then drop_bit (pe_sn_size e) (pe_rx_deliv e) + 1
      else if ?d mod ?N + ?W \<le> ?s then drop_bit (pe_sn_size e) (pe_rx_deliv e) - 1
      else drop_bit (pe_sn_size e) (pe_rx_deliv e)"
  have "?N = 2 * ?W" "0 < ?W" using assms(1) by (auto simp: pdcp_config_def)
  from hfn_cases[OF assms(2,3) this]
  have "?h = word_of_int (uint c div ?N)" by (simp add: drop_bit_word)
  then have "?h = drop_bit (pe_sn_size e) c" by (simp add: drop_bit_word)
  moreover have "word_of_int ?s = take_bit (pe_sn_size e) c" by (simp add: take_bit_word)
  moreover have "rcvd_count_of e ?s = push_bit (pe_sn_size e) ?h OR word_of_int ?s"
    using assms(1) unfolding rcvd_count_of_def Let_def pdcp_config_def by (metis and_sn_max)
  ultimately show ?thesis by (simp add: word_split)
qed

section \<open>The reordering list\<close>

definition counts :: "pdcp_sdu list \<Rightarrow> u32 list" where
  "counts l = map ps_count l"

lemma counts_simps [simp]: "counts [] = []" "counts (s # l) = ps_count s # counts l"
  "counts (l @ l') = counts l @ counts l'"
  by (simp_all add: counts_def)

lemma in_list_iff: "nr_pdcp_sdu_in_list l cnt \<longleftrightarrow> cnt \<in> set (counts l)"
  by (induction l) auto

lemma list_add_sorted:
  "sorted_wrt (<) (counts l) \<Longrightarrow> ps_count s \<notin> set (counts l) \<Longrightarrow>
   sorted_wrt (<) (counts (nr_pdcp_sdu_list_add l s))"
  unfolding nr_pdcp_sdu_list_add_def counts_def
  by (rule insert_before_sorted_strict) auto

lemma list_add_mset [simp]: "mset (nr_pdcp_sdu_list_add l s) = add_mset s (mset l)"
  by (simp add: nr_pdcp_sdu_list_add_def)

lemma list_add_set [simp]: "set (nr_pdcp_sdu_list_add l s) = insert s (set l)"
  by (simp add: nr_pdcp_sdu_list_add_def)

text \<open>What the delivery loops leave alone.\<close>

definition rx_frame :: "pdcp_entity \<Rightarrow> pdcp_entity \<Rightarrow> bool" where
  "rx_frame e e' \<longleftrightarrow> (\<exists>l n st. e' = e\<lparr>pe_rx_list := l, pe_rx_size := n, pe_stats := st\<rparr>)"

lemma rx_frame_refl [simp]: "rx_frame e e"
  unfolding rx_frame_def by (rule exI[of _ "pe_rx_list e"], rule exI[of _ "pe_rx_size e"], rule exI[of _ "pe_stats e"]) simp

lemma rx_frame_trans: "rx_frame e e' \<Longrightarrow> rx_frame e' e'' \<Longrightarrow> rx_frame e e''"
  by (auto simp: rx_frame_def) blast

lemma rx_frame_first: "rx_frame e (deliver_first s l e)"
  by (auto simp: rx_frame_def deliver_first_def upd_pstats_def)

lemma rx_frame_sel:
  assumes "rx_frame e e'"
  shows "pe_rx_deliv e' = pe_rx_deliv e" "pe_rx_next e' = pe_rx_next e" "pe_rx_reord e' = pe_rx_reord e"
    "pe_t_reordering_start e' = pe_t_reordering_start e" "pe_t_current e' = pe_t_current e"
    "pe_t_reordering e' = pe_t_reordering e"
  using assms by (auto simp: rx_frame_def)

lemma deliver_first_list [simp]: "pe_rx_list (deliver_first s l e) = l"
  by (simp add: deliver_first_def upd_pstats_def)

lemma next_count:
  fixes c x :: u32
  assumes "c \<noteq> - 1"
  shows "x < c + 1 \<longleftrightarrow> x \<le> c" "c + 1 \<le> x \<longleftrightarrow> c < x"
proof -
  show le: "c + 1 \<le> x \<longleftrightarrow> c < x" using assms by (simp add: inc_less_eq_iff)
  show "x < c + 1 \<longleftrightarrow> x \<le> c" using le by (simp flip: not_le) 
qed

lemma less_not_last: "c < x \<Longrightarrow> c \<noteq> (- 1 :: u32)"
  by (auto simp: not_less[symmetric])

text \<open>
  The loop over consecutive COUNTs: it splits the list into the delivered SDUs, which reach from the
  start up to the COUNT that is returned, and the rest, which starts above that COUNT.
\<close>

lemma deliver_consecutive_split:
  assumes "deliver_consecutive l cnt e = (e', out, c)"
    and "sorted_wrt (<) (counts l)" and "\<forall>x \<in> set (counts l). cnt \<le> x \<and> x < ub"
    and "pe_rx_list e = l" and "cnt \<le> ub"
  shows "rx_frame e e' \<and> l = out @ pe_rx_list e' \<and> cnt \<le> c \<and> c \<le> ub
     \<and> (\<forall>x \<in> set (counts out). cnt \<le> x \<and> x < c) \<and> (\<forall>x \<in> set (counts (pe_rx_list e')). c < x)"
  using assms
proof (induction l arbitrary: cnt e e' out c)
  case (Cons s l)
  show ?case
  proof (cases "cnt = ps_count s")
    case True
    obtain e1 o1 where r: "deliver_consecutive l (cnt + 1) (deliver_first s l e) = (e1, o1, c)"
      and e1: "e' = e1" "out = s # o1"
      using Cons.prems(1) True by (auto split: prod.splits)
    have nl: "cnt \<noteq> - 1" using Cons.prems(3) True less_not_last[of cnt ub] by simp
    have "\<forall>x \<in> set (counts l). cnt + 1 \<le> x \<and> x < ub" and "cnt + 1 \<le> ub"
      using Cons.prems(2,3) True nl by (auto simp: next_count)
    moreover have "sorted_wrt (<) (counts l)" using Cons.prems(2) by simp
    ultimately have IH: "rx_frame (deliver_first s l e) e'" "l = o1 @ pe_rx_list e'" "cnt + 1 \<le> c" "c \<le> ub"
      "\<forall>x \<in> set (counts o1). cnt + 1 \<le> x \<and> x < c" "\<forall>x \<in> set (counts (pe_rx_list e')). c < x"
      unfolding e1(1) using Cons.IH[OF r] deliver_first_list by blast+
    then show ?thesis using rx_frame_trans[OF rx_frame_first IH(1)] True nl
      by (auto simp: e1 next_count)
  next
    case False
    then have "e' = e" "out = []" "c = cnt" using Cons.prems(1) by auto
    then show ?thesis using Cons.prems False by auto
  qed
qed auto

text \<open>The loop below RX_REORD takes exactly the SDUs below it.\<close>

lemma deliver_below_split:
  assumes "deliver_below l r e = (e', out)" and "sorted_wrt (<) (counts l)" and "pe_rx_list e = l"
  shows "rx_frame e e' \<and> l = out @ pe_rx_list e' \<and> (\<forall>x \<in> set (counts out). x < r)
     \<and> (\<forall>x \<in> set (counts (pe_rx_list e')). r \<le> x)"
  using assms
proof (induction l arbitrary: e e' out)
  case (Cons s l)
  show ?case
  proof (cases "ps_count s < r")
    case True
    obtain o1 where r: "deliver_below l r (deliver_first s l e) = (e', o1)" and o1: "out = s # o1"
      using Cons.prems(1) True by (auto split: prod.splits)
    from Cons.IH[OF r] Cons.prems(2) show ?thesis
      using rx_frame_trans[OF rx_frame_first, of s l e e'] True by (auto simp: o1)
  next
    case False
    then have "e' = e" "out = []" using Cons.prems(1) by auto
    then show ?thesis using Cons.prems(2,3) False by (auto simp: not_less)
  qed
qed auto

lemma deliver_all_loop:
  "deliver_all_sdus_loop l e = (e', out) \<Longrightarrow> pe_rx_list e = l \<Longrightarrow>
   rx_frame e e' \<and> out = l \<and> pe_rx_list e' = []"
proof (induction l arbitrary: e out)
  case (Cons s l)
  obtain o1 where r: "deliver_all_sdus_loop l (deliver_first s l e) = (e', o1)" and "out = s # o1"
    using Cons.prems(1) by (auto split: prod.splits)
  with Cons.IH[OF r] show ?case using rx_frame_trans[OF rx_frame_first, of s l e e'] by simp
qed auto

section \<open>The invariant of reception\<close>

text \<open>
  The list is strictly sorted by COUNT, lies strictly above RX_DELIV and below RX_NEXT, and while
  t-Reordering runs, RX_DELIV < RX_REORD \<open>\<le>\<close> RX_NEXT.
\<close>

definition rx_inv :: "pdcp_entity \<Rightarrow> bool" where
  "rx_inv e \<longleftrightarrow> sorted_wrt (<) (counts (pe_rx_list e)) \<and> pe_rx_deliv e \<le> pe_rx_next e
     \<and> (\<forall>x \<in> set (counts (pe_rx_list e)). pe_rx_deliv e < x \<and> x < pe_rx_next e)
     \<and> (pe_t_reordering_start e \<noteq> 0 \<longrightarrow> pe_rx_deliv e < pe_rx_reord e \<and> pe_rx_reord e \<le> pe_rx_next e)"

lemma rx_invD:
  assumes "rx_inv e"
  shows "sorted_wrt (<) (counts (pe_rx_list e))" "pe_rx_deliv e \<le> pe_rx_next e"
    "x \<in> set (counts (pe_rx_list e)) \<Longrightarrow> pe_rx_deliv e < x"
    "x \<in> set (counts (pe_rx_list e)) \<Longrightarrow> x < pe_rx_next e"
    "pe_t_reordering_start e \<noteq> 0 \<Longrightarrow> pe_rx_deliv e < pe_rx_reord e"
    "pe_t_reordering_start e \<noteq> 0 \<Longrightarrow> pe_rx_reord e \<le> pe_rx_next e"
  using assms by (auto simp: rx_inv_def)

text \<open>The relation between an operation's input state, output state and deliveries.\<close>

definition rx_step :: "pdcp_entity \<Rightarrow> pdcp_entity \<Rightarrow> pdcp_sdu list \<Rightarrow> bool" where
  "rx_step e e' out \<longleftrightarrow> rx_inv e' \<and> pe_rx_deliv e \<le> pe_rx_deliv e' \<and> sorted_wrt (<) (counts out)
     \<and> (\<forall>x \<in> set (counts out). pe_rx_deliv e \<le> x \<and> x < pe_rx_deliv e')"

text \<open>Before the timer is adjusted, RX_REORD is only known to be at most RX_NEXT.\<close>

definition rx_inv_untimed :: "pdcp_entity \<Rightarrow> bool" where
  "rx_inv_untimed e \<longleftrightarrow> sorted_wrt (<) (counts (pe_rx_list e)) \<and> pe_rx_deliv e \<le> pe_rx_next e
     \<and> (\<forall>x \<in> set (counts (pe_rx_list e)). pe_rx_deliv e < x \<and> x < pe_rx_next e)
     \<and> (pe_t_reordering_start e \<noteq> 0 \<longrightarrow> pe_rx_reord e \<le> pe_rx_next e)"

lemma update_t_reordering_inv:
  "rx_inv_untimed e \<Longrightarrow> rx_inv (update_t_reordering e)"
  by (auto simp: rx_inv_untimed_def rx_inv_def update_t_reordering_def Let_def)

lemma update_t_reordering_sel [simp]:
  "pe_rx_deliv (update_t_reordering e) = pe_rx_deliv e" "pe_rx_list (update_t_reordering e) = pe_rx_list e"
  "pe_rx_next (update_t_reordering e) = pe_rx_next e" "pe_rx_size (update_t_reordering e) = pe_rx_size e"
  by (simp_all add: update_t_reordering_def Let_def)

text \<open>An SDU whose COUNT is new and not below RX_DELIV.\<close>

definition sdu_fresh :: "pdcp_entity \<Rightarrow> pdcp_sdu \<Rightarrow> bool" where
  "sdu_fresh e sdu \<longleftrightarrow> pe_rx_deliv e \<le> ps_count sdu \<and> ps_count sdu \<notin> set (counts (pe_rx_list e))"

text \<open>The state after the list and RX_NEXT are updated.\<close>

definition add_to_list :: "int \<Rightarrow> pdcp_sdu \<Rightarrow> pdcp_entity \<Rightarrow> pdcp_entity" where
  "add_to_list n sdu e =
     (let e = e\<lparr>pe_rx_list := nr_pdcp_sdu_list_add (pe_rx_list e) sdu, pe_rx_size := pe_rx_size e + n\<rparr>
      in if pe_rx_next e \<le> ps_count sdu then e\<lparr>pe_rx_next := ps_count sdu + 1\<rparr> else e)"

lemma add_to_list_sel [simp]:
  "pe_rx_list (add_to_list n sdu e) = nr_pdcp_sdu_list_add (pe_rx_list e) sdu"
  "pe_rx_deliv (add_to_list n sdu e) = pe_rx_deliv e"
  "pe_rx_reord (add_to_list n sdu e) = pe_rx_reord e"
  "pe_t_reordering_start (add_to_list n sdu e) = pe_t_reordering_start e"
  "pe_rx_next (add_to_list n sdu e) = (if pe_rx_next e \<le> ps_count sdu then ps_count sdu + 1 else pe_rx_next e)"
  by (simp_all add: add_to_list_def Let_def)

lemma set_counts_add: "set (counts (nr_pdcp_sdu_list_add l s)) = insert (ps_count s) (set (counts l))"
  by (simp add: counts_def)

lemma add_to_list_bounds:
  fixes n :: int
  assumes "rx_inv e" and "sdu_fresh e sdu" and "ps_count sdu \<noteq> - 1"
  defines "e1 \<equiv> add_to_list n sdu e"
  shows "sorted_wrt (<) (counts (pe_rx_list e1))" "pe_rx_next e \<le> pe_rx_next e1" "pe_rx_deliv e \<le> pe_rx_next e1"
    "\<forall>x \<in> set (counts (pe_rx_list e1)). pe_rx_deliv e \<le> x \<and> x < pe_rx_next e1"
proof -
  show "sorted_wrt (<) (counts (pe_rx_list e1))"
    using assms by (simp add: list_add_sorted rx_invD sdu_fresh_def)
  show le: "pe_rx_next e \<le> pe_rx_next e1" using assms(3) by (simp add: e1_def next_count le_less)
  then show "pe_rx_deliv e \<le> pe_rx_next e1" using rx_invD(2)[OF assms(1)] by simp
  have "ps_count sdu < pe_rx_next e1" using assms(3) by (auto simp: e1_def next_count not_le)
  moreover have "x < pe_rx_next e1" if "x \<in> set (counts (pe_rx_list e))" for x
    using rx_invD(4)[OF assms(1) that] le by (rule less_le_trans)
  moreover have "set (counts (pe_rx_list e1)) = insert (ps_count sdu) (set (counts (pe_rx_list e)))"
    by (simp add: e1_def set_counts_add)
  ultimately show "\<forall>x \<in> set (counts (pe_rx_list e1)). pe_rx_deliv e \<le> x \<and> x < pe_rx_next e1"
    using rx_invD(3)[OF assms(1)] assms(2) by (auto simp: sdu_fresh_def less_imp_le)
qed

lemma accept_sdu_alt:
  "accept_sdu sz h sdu e =
     (let e1 = add_to_list (sz - h) sdu e in
      if ps_count sdu = pe_rx_deliv e
      then let (e2, out, c) = deliver_consecutive (pe_rx_list e1) (pe_rx_deliv e) e1
           in (update_t_reordering (e2\<lparr>pe_rx_deliv := c\<rparr>), out)
      else (update_t_reordering e1, []))"
  by (simp add: accept_sdu_def add_to_list_def Let_def split: prod.splits)

lemma accept_sdu_step:
  assumes inv: "rx_inv e" and fresh: "sdu_fresh e sdu" and last: "ps_count sdu \<noteq> - 1"
    and r: "accept_sdu sz h sdu e = (e', out)"
  shows "rx_step e e' out" and "mset (out @ pe_rx_list e') = add_mset sdu (mset (pe_rx_list e))"
proof -
  define e1 where "e1 = add_to_list (sz - h) sdu e"
  note b = add_to_list_bounds[OF inv fresh last, of "sz - h", folded e1_def]
  have t: "pe_t_reordering_start e1 \<noteq> 0 \<longrightarrow> pe_rx_reord e1 \<le> pe_rx_next e1"
    using rx_invD(6)[OF inv] b(2) by (auto simp: e1_def)
  have m: "mset (pe_rx_list e1) = add_mset sdu (mset (pe_rx_list e))" by (simp add: e1_def)
  have "rx_step e e' out \<and> mset (out @ pe_rx_list e') = add_mset sdu (mset (pe_rx_list e))"
  proof (cases "ps_count sdu = pe_rx_deliv e")
    case True
    obtain e2 c where d: "deliver_consecutive (pe_rx_list e1) (pe_rx_deliv e) e1 = (e2, out, c)"
      and e': "e' = update_t_reordering (e2\<lparr>pe_rx_deliv := c\<rparr>)"
      using r True by (auto simp: accept_sdu_alt Let_def e1_def split: prod.splits)
    note s = deliver_consecutive_split[OF d b(1) b(4) refl b(3)]
    then have f: "rx_frame e1 e2" and l: "pe_rx_list e1 = out @ pe_rx_list e2" by simp_all
    have "sorted_wrt (<) (counts out)" "sorted_wrt (<) (counts (pe_rx_list e2))"
      using b(1) unfolding l by (simp_all add: sorted_wrt_append)
    moreover have "x \<in> set (counts (pe_rx_list e2)) \<Longrightarrow> x < pe_rx_next e1" for x
      using b(4) unfolding l by simp
    ultimately show ?thesis
      using s t m unfolding e' rx_step_def l
      by (auto intro!: update_t_reordering_inv simp: rx_inv_untimed_def rx_frame_sel[OF f])
  next
    case False
    then have e': "e' = update_t_reordering e1" "out = []"
      using r by (simp_all add: accept_sdu_alt Let_def e1_def)
    have "ps_count sdu \<noteq> pe_rx_deliv e" using False .
    then have "\<forall>x \<in> set (counts (pe_rx_list e1)). pe_rx_deliv e < x"
      using b(4) rx_invD(3)[OF inv] by (auto simp: e1_def set_counts_add le_less)
    then show ?thesis
      using b t m unfolding e' rx_step_def
      by (auto intro!: update_t_reordering_inv simp: rx_inv_untimed_def) (simp_all add: e1_def)
  qed
  then show "rx_step e e' out" "mset (out @ pe_rx_list e') = add_mset sdu (mset (pe_rx_list e))" by simp_all
qed

text \<open>The reordering timer.\<close>

definition t_reordering_expired :: "pdcp_entity \<Rightarrow> bool" where
  "t_reordering_expired e \<longleftrightarrow> pe_t_reordering e \<noteq> -1 \<and> pe_t_reordering_start e \<noteq> 0
     \<and> pe_t_reordering_start e + word_of_int (pe_t_reordering e) < pe_t_current e"

lemma check_t_reordering_idle: "\<not> t_reordering_expired e \<Longrightarrow> check_t_reordering e = (e, [])"
  by (auto simp: check_t_reordering_def t_reordering_expired_def not_less)

lemma check_t_reordering_expired:
  assumes inv: "rx_inv e" and ex: "t_reordering_expired e" and r: "check_t_reordering e = (e', out)"
  shows "rx_step e e' out" and "pe_rx_list e = out @ pe_rx_list e'" and "pe_rx_reord e \<le> pe_rx_deliv e'"
    and "pe_rx_deliv e' < pe_rx_next e' \<longrightarrow> pe_rx_reord e' = pe_rx_next e' \<and> pe_t_reordering_start e' = pe_t_current e"
proof -
  define e0 where "e0 = e\<lparr>pe_t_reordering_start := 0\<rparr>"
  have sel: "pe_rx_list e0 = pe_rx_list e" "pe_rx_reord e0 = pe_rx_reord e" "pe_rx_next e0 = pe_rx_next e"
    "pe_t_current e0 = pe_t_current e" "pe_t_reordering_start e0 = 0" by (simp_all add: e0_def)
  obtain e1 o1 where d1: "deliver_below (pe_rx_list e0) (pe_rx_reord e0) e0 = (e1, o1)" by force
  obtain e2 o2 c where d2: "deliver_consecutive (pe_rx_list e1) (pe_rx_reord e1) e1 = (e2, o2, c)"
    by (metis prod_cases3)
  note s1 = deliver_below_split[OF d1 _ refl, unfolded sel, OF rx_invD(1)[OF inv]]
  then have f1: "rx_frame e0 e1" and l1: "pe_rx_list e = o1 @ pe_rx_list e1" by simp_all
  have start: "pe_t_reordering_start e \<noteq> 0" using ex by (simp add: t_reordering_expired_def)
  have r1: "pe_rx_reord e1 = pe_rx_reord e" "pe_rx_next e1 = pe_rx_next e"
    by (simp_all add: rx_frame_sel[OF f1] sel)
  have srt: "sorted_wrt (<) (counts o1)" "sorted_wrt (<) (counts (pe_rx_list e1))"
    "\<forall>x \<in> set (counts o1). \<forall>y \<in> set (counts (pe_rx_list e1)). x < y"
    using rx_invD(1)[OF inv] unfolding l1 by (simp_all add: sorted_wrt_append)
  have "\<forall>x \<in> set (counts (pe_rx_list e1)). pe_rx_reord e1 \<le> x \<and> x < pe_rx_next e"
    using s1 rx_invD(4)[OF inv] unfolding r1 l1 by simp
  note s2 = deliver_consecutive_split[OF d2 srt(2) this refl, unfolded r1, OF rx_invD(6)[OF inv start]]
  then have f2: "rx_frame e1 e2" and l2: "pe_rx_list e1 = o2 @ pe_rx_list e2" by simp_all
  note f = rx_frame_sel[OF rx_frame_trans[OF f1 f2], unfolded sel]
  have e': "e' = (if c < pe_rx_next e then e2\<lparr>pe_rx_deliv := c, pe_rx_reord := pe_rx_next e,
      pe_t_reordering_start := pe_t_current e\<rparr> else e2\<lparr>pe_rx_deliv := c\<rparr>)" and out: "out = o1 @ o2"
    using r ex d1 d2 by (auto simp: check_t_reordering_def t_reordering_expired_def Let_def e0_def[symmetric] f
        split: prod.splits if_splits)
  have srt2: "sorted_wrt (<) (counts o2)" "sorted_wrt (<) (counts (pe_rx_list e2))"
    using srt(2) unfolding l2 by (simp_all add: sorted_wrt_append)
  have "pe_rx_deliv e < pe_rx_reord e" by (rule rx_invD(5)[OF inv start])
  moreover have rc: "pe_rx_reord e \<le> c" using s2 by blast
  ultimately have "pe_rx_deliv e < c" by (rule less_le_trans)
  have bnd: "\<forall>x \<in> set (counts out). pe_rx_deliv e \<le> x \<and> x < c"
  proof
    fix x assume x: "x \<in> set (counts out)"
    have "x \<in> set (counts (pe_rx_list e))" using x unfolding out l1 l2 by auto
    moreover have "x < c" using x s1 s2 rc unfolding out by (auto intro: less_le_trans)
    ultimately show "pe_rx_deliv e \<le> x \<and> x < c" using rx_invD(3)[OF inv] by (simp add: less_imp_le)
  qed
  have srt3: "sorted_wrt (<) (counts out)"
    using srt(1,3) srt2(1) unfolding out l2 by (auto simp: sorted_wrt_append)
  have up: "x \<in> set (counts (pe_rx_list e2)) \<Longrightarrow> x < pe_rx_next e" for x
    using rx_invD(4)[OF inv, of x] unfolding l1 l2 by simp
  show "rx_step e e' out" unfolding rx_step_def rx_inv_def e'
    using s2 srt2(2) srt3 bnd up \<open>pe_rx_deliv e < c\<close> by (auto simp: f less_imp_le)
  show "pe_rx_list e = out @ pe_rx_list e'" by (simp add: e' out l1 l2)
  show "pe_rx_reord e \<le> pe_rx_deliv e'" using s2 by (simp add: e')
  show "pe_rx_deliv e' < pe_rx_next e' \<longrightarrow> pe_rx_reord e' = pe_rx_next e' \<and> pe_t_reordering_start e' = pe_t_current e"
    by (simp add: e' f)
qed

section \<open>Operations\<close>

text \<open>The fields of reception; what keeps them keeps the invariant.\<close>

definition rx_same :: "pdcp_entity \<Rightarrow> pdcp_entity \<Rightarrow> bool" where
  "rx_same e e' \<longleftrightarrow> pe_rx_list e' = pe_rx_list e \<and> pe_rx_deliv e' = pe_rx_deliv e \<and> pe_rx_next e' = pe_rx_next e
     \<and> pe_rx_reord e' = pe_rx_reord e \<and> pe_t_reordering_start e' = pe_t_reordering_start e"

lemma rx_same_refl [simp]: "rx_same e e"
  by (simp add: rx_same_def)

lemma rx_same_trans: "rx_same e e' \<Longrightarrow> rx_same e' e'' \<Longrightarrow> rx_same e e''"
  by (simp add: rx_same_def)

lemma rx_same_inv: "rx_same e e' \<Longrightarrow> rx_inv e' = rx_inv e"
  by (simp add: rx_same_def rx_inv_def)

lemma rx_same_step: "rx_same e e' \<Longrightarrow> rx_inv e \<Longrightarrow> rx_step e e' []"
  using rx_same_inv[of e e'] by (simp add: rx_step_def rx_same_def)

lemma rx_same_stats [simp]: "rx_same e (upd_pstats f e)" "rx_same e (count_discard n e)"
  by (simp_all add: rx_same_def upd_pstats_def count_discard_def)

text \<open>What \<open>recv_pdu\<close> does to the entity: count the PDU, and perhaps accept an SDU with a fresh COUNT.\<close>

lemma recv_deciphered_cases:
  assumes "recv_deciphered cx e cnt mi buf sz = Inr (e', out)"
  shows "(\<exists>st. e' = e\<lparr>pe_stats := st\<rparr>) \<and> out = []
    \<or> (\<exists>sdu. sdu_fresh e sdu \<and> ps_count sdu = cnt \<and> (e', out) = accept_sdu sz (int (header_size_of e)) sdu e)"
proof -
  obtain ok where "integrity_accepts cx e cnt buf sz = Inr ok"
    using assms by (auto simp: recv_deciphered_def bindE_eq_Inr)
  note r = assms[unfolded recv_deciphered_def this bindE_Inr]
  show ?thesis
  proof (cases "\<not> ok \<or> cnt < pe_rx_deliv e \<or> nr_pdcp_sdu_in_list (pe_rx_list e) cnt")
    case True
    then show ?thesis using r by (auto simp: count_discard_def upd_pstats_def split: if_splits)
  next
    case False
    with r obtain sdu where n: "nr_pdcp_new_sdu cnt buf (int (header_size_of e))
        (sz - int (header_size_of e) - int (integrity_size_of e)) mi = Inr sdu"
      and a: "accept_sdu sz (int (header_size_of e)) sdu e = (e', out)"
      by (auto simp: bindE_eq_Inr)
    have c: "ps_count sdu = cnt" using n by (auto simp: nr_pdcp_new_sdu_def bindE_eq_Inr)
    then have "sdu_fresh e sdu" using False by (simp add: sdu_fresh_def in_list_iff not_less)
    with a c show ?thesis by metis
  qed
qed

lemma recv_data_pdu_cases:
  assumes "recv_data_pdu cx e buf sz sn = Inr (e', out)"
  shows "(\<exists>st. e' = e\<lparr>pe_stats := st\<rparr>) \<and> out = []
    \<or> (\<exists>sdu. sdu_fresh e sdu \<and> (e', out) = accept_sdu sz (int (header_size_of e)) sdu e)"
proof -
  have "(e', out) = (count_discard sz e, []) \<or> (\<exists>cnt mi buf'. recv_deciphered cx e cnt mi buf' sz = Inr (e', out))"
    using assms by (auto simp: recv_data_pdu_def Let_def bindE_eq_Inr split: if_splits)
  then show ?thesis
  proof
    assume "(e', out) = (count_discard sz e, [])"
    then show ?thesis by (auto simp: count_discard_def upd_pstats_def)
  next
    assume "\<exists>cnt mi buf'. recv_deciphered cx e cnt mi buf' sz = Inr (e', out)"
    then show ?thesis using recv_deciphered_cases by metis
  qed
qed

text \<open>The state in which a PDU is looked at: only the statistics have changed.\<close>

definition rx_counted :: "pdcp_entity \<Rightarrow> int \<Rightarrow> int \<Rightarrow> pdcp_entity" where
  "rx_counted e sz sn = set_rxpdu_sn sn (count_rxpdu sz e)"

lemma rx_counted_stats: "\<exists>st. rx_counted e sz sn = e\<lparr>pe_stats := st\<rparr>"
  by (simp add: rx_counted_def set_rxpdu_sn_def count_rxpdu_def upd_pstats_def) blast

lemma rx_counted_same: "rx_same e (rx_counted e sz sn)"
  using rx_counted_stats[of e sz sn] by (auto simp: rx_same_def)

lemma recv_pdu_cases:
  assumes "nr_pdcp_entity_recv_pdu cx e buf sz = Inr (e', out)"
  shows "(\<exists>st. e' = e\<lparr>pe_stats := st\<rparr>) \<and> out = []
    \<or> (\<exists>sn sdu. sdu_fresh (rx_counted e sz sn) sdu
        \<and> (e', out) = accept_sdu sz (int (header_size_of e)) sdu (rx_counted e sz sn))"
proof (cases "pe_suspended e \<or> sz < 1")
  case True
  then have "nr_pdcp_entity_recv_pdu cx e buf sz = Inr (e, [])" by (auto simp: nr_pdcp_entity_recv_pdu_def)
  then have "e' = e\<lparr>pe_stats := pe_stats e\<rparr>" "out = []" using assms by simp_all
  then show ?thesis by blast
next
  case False
  then obtain sn where r: "recv_data_pdu cx (rx_counted e sz sn) (force_dc_bit e buf) sz sn = Inr (e', out)"
    using assms by (auto simp: nr_pdcp_entity_recv_pdu_def Let_def bindE_eq_Inr rx_counted_def split: if_splits)
  have "header_size_of (rx_counted e sz sn) = header_size_of e"
    using rx_counted_stats[of e sz sn] by (auto simp: header_size_of_def)
  moreover obtain st where "rx_counted e sz sn = e\<lparr>pe_stats := st\<rparr>" using rx_counted_stats by blast
  ultimately show ?thesis using recv_data_pdu_cases[OF r] by fastforce
qed

lemma deliver_consecutive_append:
  "deliver_consecutive l cnt e = (e', out, c) \<Longrightarrow> pe_rx_list e = l \<Longrightarrow> l = out @ pe_rx_list e'"
proof (induction l arbitrary: cnt e out)
  case (Cons s l)
  show ?case
  proof (cases "cnt = ps_count s")
    case True
    then obtain o1 where r: "deliver_consecutive l (cnt + 1) (deliver_first s l e) = (e', o1, c)" and "out = s # o1"
      using Cons.prems(1) by (auto split: prod.splits)
    with Cons.IH[OF r] show ?thesis by simp
  next
    case False
    then show ?thesis using Cons.prems by auto
  qed
qed auto

lemma accept_sdu_mset:
  assumes "accept_sdu sz h sdu e = (e', out)"
  shows "mset (out @ pe_rx_list e') = add_mset sdu (mset (pe_rx_list e))"
proof (cases "ps_count sdu = pe_rx_deliv e")
  case True
  define e1 where "e1 = add_to_list (sz - h) sdu e"
  obtain e2 c where d: "deliver_consecutive (pe_rx_list e1) (pe_rx_deliv e) e1 = (e2, out, c)"
    and "e' = update_t_reordering (e2\<lparr>pe_rx_deliv := c\<rparr>)"
    using assms True by (auto simp: accept_sdu_alt Let_def e1_def split: prod.splits)
  then have "mset (out @ pe_rx_list e') = mset (pe_rx_list e1)"
    using deliver_consecutive_append[OF d refl] by simp
  then show ?thesis by (simp add: e1_def)
next
  case False
  then show ?thesis using assms by (auto simp: accept_sdu_alt Let_def)
qed

lemma rx_same_step_from: "rx_same e e1 \<Longrightarrow> rx_step e1 e' out \<Longrightarrow> rx_step e e' out"
  by (simp add: rx_step_def rx_same_def)

lemma recv_pdu_step:
  assumes inv: "rx_inv e" and r: "nr_pdcp_entity_recv_pdu cx e buf sz = Inr (e', out)"
    and last: "- 1 \<notin> set (counts (out @ pe_rx_list e'))"
  shows "rx_step e e' out"
  using recv_pdu_cases[OF r]
proof (elim disjE exE conjE)
  fix st assume "e' = e\<lparr>pe_stats := st\<rparr>" "out = []"
  then show ?thesis using inv rx_same_step[of e e'] by (simp add: rx_same_def)
next
  fix sn sdu
  let ?e = "rx_counted e sz sn"
  assume fr: "sdu_fresh ?e sdu" and a: "(e', out) = accept_sdu sz (int (header_size_of e)) sdu ?e"
  have "sdu \<in># mset (out @ pe_rx_list e')"
    using accept_sdu_mset[of sz "int (header_size_of e)" sdu ?e e' out] a by simp
  then have "ps_count sdu \<in> set (counts (out @ pe_rx_list e'))" by (auto simp: counts_def)
  then have "ps_count sdu \<noteq> - 1" using last by metis
  moreover have "rx_inv ?e" using rx_same_inv[OF rx_counted_same] inv by simp
  ultimately have "rx_step ?e e' out" using accept_sdu_step(1)[OF _ fr] a by metis
  then show ?thesis by (rule rx_same_step_from[OF rx_counted_same])
qed

lemma set_time_step:
  assumes "rx_inv e" and "nr_pdcp_entity_set_time now e = (e', out)"
  shows "rx_step e e' out"
proof -
  let ?e = "e\<lparr>pe_t_current := now\<rparr>"
  have same: "rx_same e ?e" by (simp add: rx_same_def)
  then have inv: "rx_inv ?e" using assms(1) rx_same_inv by blast
  have "rx_step ?e e' out"
  proof (cases "t_reordering_expired ?e")
    case True
    then show ?thesis using check_t_reordering_expired(1)[OF inv] assms(2) by (simp add: nr_pdcp_entity_set_time_def)
  next
    case False
    then show ?thesis using check_t_reordering_idle[OF False] assms(2) inv
      by (auto simp: nr_pdcp_entity_set_time_def intro: rx_same_step)
  qed
  then show ?thesis by (rule rx_same_step_from[OF same])
qed

lemma process_sdu_same:
  "nr_pdcp_entity_process_sdu cx e sdu b n = Inr (e', ret, b') \<Longrightarrow> rx_same e e'"
  unfolding nr_pdcp_entity_process_sdu_def Let_def
  by (auto simp: bindE_eq_Inr dev_assert_def rx_same_def upd_pstats_def split: if_splits)

lemma set_security_same:
  "nr_pdcp_entity_set_security p e = Inr e' \<Longrightarrow> rx_same e e'"
  by (auto simp: nr_pdcp_entity_set_security_def bindE_eq_Inr set_integrity_def set_ciphering_def rx_same_def Let_def
      split: if_splits)

section \<open>Runs\<close>

text \<open>
  Everything an entity goes through between its creation and its next suspension or re-establishment
  (which start COUNT anew), and the SDUs it has delivered. Sequence numbers have 12 or 18 bits. No SDU carries the last COUNT
  \<open>0xffffffff\<close>, behind which RX_NEXT would wrap.
\<close>

inductive pdcp_run :: "crypto \<Rightarrow> pdcp_entity \<Rightarrow> pdcp_sdu list \<Rightarrow> bool" for cx where
  run_new: "new_nr_pdcp_entity ty gnb rb ps srx stx n tr dt p = Inr e \<Longrightarrow> n = 12 \<or> n = 18 \<Longrightarrow> pdcp_run cx e []"
| run_recv: "pdcp_run cx e outs \<Longrightarrow> nr_pdcp_entity_recv_pdu cx e buf sz = Inr (e', out) \<Longrightarrow>
    - 1 \<notin> set (counts (out @ pe_rx_list e')) \<Longrightarrow> pdcp_run cx e' (outs @ out)"
| run_time: "pdcp_run cx e outs \<Longrightarrow> nr_pdcp_entity_set_time now e = (e', out) \<Longrightarrow> pdcp_run cx e' (outs @ out)"
| run_send: "pdcp_run cx e outs \<Longrightarrow> nr_pdcp_entity_process_sdu cx e sdu b mx = Inr (e', ret, b') \<Longrightarrow> pdcp_run cx e' outs"
| run_security: "pdcp_run cx e outs \<Longrightarrow> nr_pdcp_entity_set_security p e = Inr e' \<Longrightarrow> pdcp_run cx e' outs"

lemma new_entity_rx:
  assumes "new_nr_pdcp_entity ty gnb rb ps srx stx n tr dt p = Inr e"
  shows "pe_rx_list e = []" "pe_rx_deliv e = 0" "pe_rx_next e = 0" "pe_t_reordering_start e = 0"
  using set_security_same[OF assms[unfolded new_nr_pdcp_entity_def]] by (simp_all add: rx_same_def)

lemma rx_step_run:
  assumes "rx_step e e' out" and "sorted_wrt (<) (counts outs)" and "\<forall>x \<in> set (counts outs). x < pe_rx_deliv e"
  shows "rx_inv e' \<and> sorted_wrt (<) (counts (outs @ out)) \<and> (\<forall>x \<in> set (counts (outs @ out)). x < pe_rx_deliv e')"
  using assms by (auto simp: rx_step_def sorted_wrt_append intro: less_le_trans)

lemma pdcp_run_inv:
  "pdcp_run cx e outs \<Longrightarrow>
   rx_inv e \<and> sorted_wrt (<) (counts outs) \<and> (\<forall>x \<in> set (counts outs). x < pe_rx_deliv e)"
proof (induction rule: pdcp_run.induct)
  case (run_new ty gnb rb ps srx stx n tr dt p e)
  then show ?case by (simp add: rx_inv_def new_entity_rx)
next
  case (run_recv e outs buf sz e' out)
  have "rx_step e e' out" using recv_pdu_step[OF _ run_recv.hyps(2,3)] run_recv.IH by blast
  then show ?case using rx_step_run run_recv.IH by blast
next
  case (run_time e outs now e' out)
  have "rx_step e e' out" using set_time_step[OF _ run_time.hyps(2)] run_time.IH by blast
  then show ?case using rx_step_run run_time.IH by blast
next
  case (run_send e outs sdu b mx e' ret b')
  have "rx_same e e'" by (rule process_sdu_same[OF run_send.hyps(2)])
  then show ?case using run_send.IH rx_same_inv[of e e'] by (simp add: rx_same_def)
next
  case (run_security e outs p e')
  have "rx_same e e'" by (rule set_security_same[OF run_security.hyps(2)])
  then show ?case using run_security.IH rx_same_inv[of e e'] by (simp add: rx_same_def)
qed

end
