(* ===== verification/PDCP_Link.thy ===== *)
theory PDCP_Link
  imports PDCP_Rx
begin

text \<open>
  Security of the entity and the link between two entities: a well-formed entity never calls a NULL
  function or a function with the context of another one, and what one entity sends, a matching one
  receives unchanged.
\<close>

section \<open>Well-formed security\<close>

definition sec_wf :: "pdcp_entity \<Rightarrow> bool" where
  "sec_wf e \<longleftrightarrow> pe_decipher e = pe_cipher e
     \<and> (pe_has_ciphering e \<longrightarrow>
          (\<exists>k. pe_cipher e = Some Nea1_Cipher \<and> pe_security_context e = Some (Own_Key k))
          \<or> pe_cipher e = Some Nea2_Cipher \<and> pe_security_context e = Some Entity_Key)
     \<and> (pe_has_integrity e \<longrightarrow> pe_integrity e \<noteq> None \<and> (\<exists>k. pe_integrity_context e = Some (Own_Key k)))
     \<and> pe_free_security e = (if pe_has_ciphering e then pe_cipher e else None)
     \<and> pe_free_integrity e = (if pe_has_integrity e then pe_integrity e else None)"

lemma set_integrity_wf: "sec_wf e \<Longrightarrow> set_integrity alg e = Inr e' \<Longrightarrow> sec_wf e'"
  by (auto simp: sec_wf_def set_integrity_def nr_pdcp_integrity_nia1_init_def nr_pdcp_integrity_nia2_init_def Let_def
      split: if_splits)

lemma set_ciphering_wf: "sec_wf e \<Longrightarrow> set_ciphering alg e = Inr e' \<Longrightarrow> sec_wf e'"
  by (auto simp: sec_wf_def set_ciphering_def nr_pdcp_security_nea1_init_def nr_pdcp_security_nea2_init_def Let_def
      split: if_splits)

lemma sec_wf_keys [simp]: "sec_wf (e\<lparr>pe_keys := k\<rparr>) = sec_wf e"
  by (simp add: sec_wf_def)

lemma set_security_wf:
  assumes "sec_wf e" and "nr_pdcp_entity_set_security p e = Inr e'"
  shows "sec_wf e'"
proof -
  obtain e1 where "set_integrity (integrity_algorithm p) (e\<lparr>pe_keys := store_keys p (pe_keys e)\<rparr>) = Inr e1"
    and "set_ciphering (ciphering_algorithm p) e1 = Inr e'"
    using assms(2) by (auto simp: nr_pdcp_entity_set_security_def bindE_eq_Inr)
  then show ?thesis using set_integrity_wf[of "e\<lparr>pe_keys := store_keys p (pe_keys e)\<rparr>"] set_ciphering_wf assms(1)
    by (metis sec_wf_keys)
qed

lemma set_security_config: "nr_pdcp_entity_set_security p e = Inr e' \<Longrightarrow> pdcp_config e' = pdcp_config e \<and> pe_rb_id e' = pe_rb_id e"
  by (auto simp: nr_pdcp_entity_set_security_def bindE_eq_Inr set_integrity_def set_ciphering_def pdcp_config_def Let_def
      split: if_splits)

text \<open>The rest of the operations of a run only touch state variables, lists, timers and statistics.\<close>

definition setup_of :: "pdcp_entity \<Rightarrow> pdcp_entity" where
  "setup_of e = e\<lparr>pe_tx_next := 0, pe_rx_next := 0, pe_rx_deliv := 0, pe_rx_reord := 0, pe_t_current := 0,
     pe_t_reordering_start := 0, pe_rx_list := [], pe_rx_size := 0, pe_stats := zero_pdcp_stats\<rparr>"

lemma setup_wf: "sec_wf (setup_of e) = sec_wf e" "pdcp_config (setup_of e) = pdcp_config e" "pe_rb_id (setup_of e) = pe_rb_id e"
  by (simp_all add: setup_of_def sec_wf_def pdcp_config_def)

lemma setup_upd [simp]:
  "setup_of (e\<lparr>pe_stats := st\<rparr>) = setup_of e" "setup_of (e\<lparr>pe_rx_deliv := c\<rparr>) = setup_of e"
  "setup_of (e\<lparr>pe_t_current := t\<rparr>) = setup_of e" "setup_of (e\<lparr>pe_tx_next := c\<rparr>) = setup_of e"
  "setup_of (e\<lparr>pe_rx_reord := c\<rparr>) = setup_of e" "setup_of (e\<lparr>pe_t_reordering_start := t\<rparr>) = setup_of e"
  "setup_of (e\<lparr>pe_rx_next := c\<rparr>) = setup_of e" "setup_of (e\<lparr>pe_rx_list := l\<rparr>) = setup_of e"
  "setup_of (e\<lparr>pe_rx_size := n\<rparr>) = setup_of e" "setup_of (upd_pstats f e) = setup_of e"
  "setup_of (count_discard n e) = setup_of e" "setup_of (update_t_reordering e) = setup_of e"
  "setup_of (rx_counted e n sn) = setup_of e" "setup_of (add_to_list n s e) = setup_of e"
  by (simp_all add: setup_of_def upd_pstats_def count_discard_def update_t_reordering_def rx_counted_def
      set_rxpdu_sn_def count_rxpdu_def add_to_list_def Let_def)

lemma setup_frame: "rx_frame e e' \<Longrightarrow> setup_of e' = setup_of e"
  by (auto simp: rx_frame_def setup_of_def)

lemma deliver_consecutive_frame: "deliver_consecutive l cnt e = (e', out, c) \<Longrightarrow> rx_frame e e'"
proof (induction l arbitrary: cnt e out)
  case (Cons s l)
  then show ?case using rx_frame_trans[OF rx_frame_first[of e s l]] by (auto split: if_splits prod.splits)
qed auto

lemma deliver_below_frame: "deliver_below l r e = (e', out) \<Longrightarrow> rx_frame e e'"
proof (induction l arbitrary: e out)
  case (Cons s l)
  then show ?case using rx_frame_trans[OF rx_frame_first[of e s l]] by (auto split: if_splits prod.splits)
qed auto

lemma accept_setup: "accept_sdu sz h sdu e = (e', out) \<Longrightarrow> setup_of e' = setup_of e"
  by (auto simp: accept_sdu_alt Let_def dest!: deliver_consecutive_frame setup_frame split: if_splits prod.splits)

lemma check_t_setup: "check_t_reordering e = (e', out) \<Longrightarrow> setup_of e' = setup_of e"
  by (auto simp: check_t_reordering_def Let_def dest!: deliver_consecutive_frame deliver_below_frame setup_frame
      split: if_splits prod.splits)

lemma recv_setup:
  assumes "nr_pdcp_entity_recv_pdu cx e buf sz = Inr (e', out)"
  shows "setup_of e' = setup_of e"
  using recv_pdu_cases[OF assms] accept_setup[of sz _ _ _ e' out] by (elim disjE exE conjE) (simp, metis setup_upd(13))

lemma process_setup:
  "nr_pdcp_entity_process_sdu cx e sdu b n = Inr (e', ret, b') \<Longrightarrow> setup_of e' = setup_of e"
  unfolding nr_pdcp_entity_process_sdu_def Let_def
  by (auto simp: bindE_eq_Inr dev_assert_def split: if_splits)

lemma new_entity_wf:
  assumes "new_nr_pdcp_entity ty gnb rb ps srx stx n tr dt p = Inr e" and "n = 12 \<or> n = 18"
  shows "sec_wf e \<and> pdcp_config e"
  using set_security_wf[OF _ assms(1)[unfolded new_nr_pdcp_entity_def]]
    set_security_config[OF assms(1)[unfolded new_nr_pdcp_entity_def]] assms(2)
  by (simp add: sec_wf_def pdcp_config_def)

lemma pdcp_run_wf: "pdcp_run cx e outs \<Longrightarrow> sec_wf e \<and> pdcp_config e"
proof (induction rule: pdcp_run.induct)
  case (run_new ty gnb rb ps srx stx n tr dt p e)
  then show ?case by (rule new_entity_wf)
next
  case (run_recv e outs buf sz e' out)
  then show ?case using recv_setup[OF run_recv.hyps(2)] setup_wf by metis
next
  case (run_time e outs now e' out)
  then have "setup_of e' = setup_of e" using check_t_setup by (simp add: nr_pdcp_entity_set_time_def)
  then show ?case using run_time.IH setup_wf by metis
next
  case (run_send e outs sdu b mx e' ret b')
  then show ?case using process_setup[OF run_send.hyps(2)] setup_wf by metis
next
  case (run_security e outs p e')
  then show ?case using set_security_wf set_security_config by blast
qed

section \<open>The security functions of a well-formed entity\<close>

text \<open>Bearers that every algorithm accepts, and the lengths.\<close>

definition pdcp_legal :: "int \<Rightarrow> nat \<Rightarrow> bool" where
  "pdcp_legal bearer n \<longleftrightarrow> 0 < bearer \<and> bearer < 32 \<and> 0 < n \<and> n < 2 ^ 29"

lemma entity_stream_cipher:
  assumes "sec_wf e" and "pe_has_ciphering e" and "crypto_ok cx"
  shows "stream_cipher (\<lambda>bearer. call_cipher cx (e\<lparr>pe_rb_id := bearer\<rparr>) (pe_cipher e)) pdcp_legal"
proof
  fix bearer direction :: int and m :: buffer and cnt :: u32
  assume l: "pdcp_legal bearer (length m)" and d: "direction = 0 \<or> direction = 1"
  consider k where "pe_cipher e = Some Nea1_Cipher" "pe_security_context e = Some (Own_Key k)"
    | "pe_cipher e = Some Nea2_Cipher" "pe_security_context e = Some Entity_Key"
    using assms(1,2) by (auto simp: sec_wf_def)
  then show "\<exists>c. call_cipher cx (e\<lparr>pe_rb_id := bearer\<rparr>) (pe_cipher e) cnt direction m = Inr c \<and> length c = length m
      \<and> call_cipher cx (e\<lparr>pe_rb_id := bearer\<rparr>) (pe_cipher e) cnt direction c = Inr m"
  proof cases
    case 1
    have "nea1_legal bearer (length m)" using l by (simp add: nea1_legal_def pdcp_legal_def)
    then show ?thesis using nea1.self_inverse[OF _ d] 1 by (simp add: call_cipher_def)
  next
    case 2
    have "nea2_legal bearer (length m)" using l by (auto simp: nea2_legal_def pdcp_legal_def)
    then show ?thesis using stream_cipher.self_inverse[OF nea2_stream_cipher[OF assms(3)] _ d] 2
      by (simp add: call_cipher_def)
  qed
qed

lemma entity_cipher_range:
  assumes "sec_wf e" and "pe_has_ciphering e" and "crypto_ok cx" and "pdcp_legal (pe_rb_id e) (length m)"
    and "direction = 0 \<or> direction = 1"
  shows "\<exists>c. length c = length m \<and> (\<forall>a b.
      cipher_range (call_cipher cx e (pe_cipher e) cnt direction) (a @ m @ b) (int (length a)) (int (length m)) = Inr (a @ c @ b)
    \<and> cipher_range (call_cipher cx e (pe_cipher e) cnt direction) (a @ c @ b) (int (length a)) (int (length m)) = Inr (a @ m @ b))"
  using stream_cipher.range_inverse[OF entity_stream_cipher[OF assms(1-3)] assms(4,5), of cnt] by simp

lemma entity_mac:
  assumes "sec_wf e" and "pe_has_integrity e" and "crypto_ok cx" and "pdcp_legal (pe_rb_id e) (length m)"
  shows "\<exists>mac. call_integrity cx e cnt direction m = Inr mac \<and> length mac = 4"
proof -
  obtain k f where k: "pe_integrity_context e = Some (Own_Key k)" "pe_integrity e = Some f"
    using assms(1,2) by (auto simp: sec_wf_def)
  show ?thesis
    using nia1_mac[OF assms(3), of m] nia2_mac[OF assms(3)] assms(4) k
    by (cases f) (auto simp: call_integrity_def pdcp_legal_def)
qed

section \<open>Reception of any bytes\<close>

lemma header_size_le: "header_size_of e \<le> 3" "0 < header_size_of e"
  by (simp_all add: header_size_of_def)

lemma integrity_size_cases: "integrity_size_of e = 0 \<or> integrity_size_of e = 4" "pe_has_integrity e \<Longrightarrow> integrity_size_of e = 4"
  by (simp_all add: integrity_size_of_def)

lemma decipher_pdu_total:
  assumes "sec_wf e" and "crypto_ok cx" and "0 < pe_rb_id e" "pe_rb_id e < 32"
    and "off < length buf" and "length buf < 2 ^ 29"
  shows "\<exists>buf'. decipher_pdu cx e cnt buf (int off) (int (length buf) - int off) = Inr buf' \<and> length buf' = length buf"
proof (cases "pe_has_ciphering e")
  case True
  let ?d = "if pe_is_gnb e then 0 else 1 :: int"
  have "pdcp_legal (pe_rb_id e) (length (drop off buf))" using assms by (simp add: pdcp_legal_def)
  moreover have d: "?d = 0 \<or> ?d = 1" by simp
  ultimately have "\<exists>c. length c = length (drop off buf) \<and> (\<forall>a b.
      cipher_range (call_cipher cx e (pe_cipher e) cnt ?d) (a @ drop off buf @ b) (int (length a)) (int (length (drop off buf)))
        = Inr (a @ c @ b)
    \<and> cipher_range (call_cipher cx e (pe_cipher e) cnt ?d) (a @ c @ b) (int (length a)) (int (length (drop off buf)))
        = Inr (a @ drop off buf @ b))"
    by (rule entity_cipher_range[OF assms(1) True assms(2)])
  then obtain c where c: "length c = length (drop off buf)" and
    r: "cipher_range (call_cipher cx e (pe_cipher e) cnt ?d)
      (take off buf @ drop off buf @ []) (int (length (take off buf))) (int (length (drop off buf)))
     = Inr (take off buf @ c @ [])" by blast
  then show ?thesis using True assms by (simp add: decipher_pdu_def sec_wf_def of_nat_diff)
qed (simp add: decipher_pdu_def)

lemma recv_deciphered_total:
  assumes "sec_wf e" and "crypto_ok cx" and "0 < pe_rb_id e" "pe_rb_id e < 32"
    and "header_size_of e + integrity_size_of e \<le> length buf" and "length buf < 2 ^ 29"
  shows "\<exists>r. recv_deciphered cx e cnt mi buf (int (length buf)) = Inr r"
proof -
  have "\<exists>ok. integrity_accepts cx e cnt buf (int (length buf)) = Inr ok"
  proof (cases "pe_has_integrity e")
    case True
    let ?n = "length buf - 4"
    have n: "4 < length buf" using assms(5) header_size_le(2)[of e] integrity_size_cases(2)[OF True] by simp
    have rd: "mem_read buf 0 (int (length buf) - 4) = Inr (take ?n buf)"
      using n by (simp add: mem_read_def nat_diff_distrib')
    have "pdcp_legal (pe_rb_id e) (length (take ?n buf))" using n assms by (simp add: pdcp_legal_def)
    from entity_mac[OF assms(1) True assms(2) this] obtain mac
      where "call_integrity cx e cnt (if pe_is_gnb e then 0 else 1) (take ?n buf) = Inr mac" by blast
    then show ?thesis using True rd n by (simp add: integrity_accepts_def integrity_size_cases mem_read_def)
  qed (auto simp: integrity_accepts_def)
  then show ?thesis using assms(5)
    by (auto simp: recv_deciphered_def nr_pdcp_new_sdu_def mem_read_def)
qed

lemma recv_data_pdu_total:
  assumes "sec_wf e" and "crypto_ok cx" and "0 < pe_rb_id e" "pe_rb_id e < 32" and "length buf < 2 ^ 29"
    and "header_size_of e \<le> length buf"
  shows "\<exists>r. recv_data_pdu cx e buf (int (length buf)) sn = Inr r"
proof -
  let ?s = "if pe_has_sdap_rx e then 1 else 0 :: nat"
  let ?off = "header_size_of e + ?s"
  show ?thesis
  proof (cases "int (length buf) < int (header_size_of e) + int ?s + int (integrity_size_of e) + 1")
    case True
    then show ?thesis by (simp add: recv_data_pdu_def Let_def split: if_splits)
  next
    case False
    then have len: "?off + integrity_size_of e < length buf" by simp
    define cnt where "cnt = rcvd_count_of e sn"
    have "\<exists>mi. store_integrity_data e cnt buf (int (length buf)) = Inr mi"
      using len by (simp add: store_integrity_data_def mem_read_def integrity_size_of_def split: if_splits)
    then obtain mi where "store_integrity_data e cnt buf (int (length buf)) = Inr mi" ..
    moreover obtain buf' where d: "decipher_pdu cx e cnt buf (int ?off) (int (length buf) - int ?off) = Inr buf'"
      "length buf' = length buf"
      using decipher_pdu_total[OF assms(1-4) _ assms(5), of ?off cnt] len by auto
    moreover obtain r where "recv_deciphered cx e cnt mi buf' (int (length buf)) = Inr r"
      using recv_deciphered_total[OF assms(1-4), of buf' cnt mi] len assms(5) d(2) by auto
    ultimately have "recv_data_pdu cx e buf (int (length buf)) sn = Inr r"
      using False unfolding recv_data_pdu_def Let_def cnt_def[symmetric]
      by (simp add: of_nat_add if_distrib[of int] cong: if_cong)
    then show ?thesis by blast
  qed
qed

lemma force_dc_length [simp]: "length (force_dc_bit e buf) = length buf"
  by (simp add: force_dc_bit_def)

lemma counted_wf:
  "sec_wf (rx_counted e n sn) = sec_wf e" "pe_rb_id (rx_counted e n sn) = pe_rb_id e"
  "header_size_of (rx_counted e n sn) = header_size_of e"
  using rx_counted_stats[of e n sn] by (auto simp: sec_wf_def header_size_of_def)

lemma read_sn_cases:
  "read_sn e buf = (if header_size_of e \<le> length buf
     then Inr (if pe_sn_size e = 12 then 256 * (uint (buf ! 0) mod 16) + uint (buf ! 1)
       else 65536 * (uint (buf ! 0) mod 4) + 256 * uint (buf ! 1) + uint (buf ! 2))
     else Inl Out_Of_Bounds)"
  by (simp add: read_sn_def mem_read_def header_size_of_def)

lemma read_sn_counted: "read_sn (count_rxpdu n e) = read_sn e"
  unfolding fun_eq_iff by (simp add: fun_eq_iff read_sn_def header_size_of_def count_rxpdu_def upd_pstats_def)

lemma recv_pdu_outcome:
  assumes "sec_wf e" and "crypto_ok cx" and "0 < pe_rb_id e" "pe_rb_id e < 32" and "length buf < 2 ^ 29"
  shows "nr_pdcp_entity_recv_pdu cx e buf (int (length buf)) = Inl err \<longleftrightarrow>
    \<not> pe_suspended e \<and> 0 < length buf \<and> length buf < header_size_of e \<and> err = Out_Of_Bounds"
proof (cases "\<not> pe_suspended e \<and> header_size_of e \<le> length buf")
  case True
  then have buf: "buf \<noteq> []" "\<not> int (length buf) < 1" using header_size_le(2)[of e] by (cases buf; simp)+
  obtain sn where sn: "read_sn e (force_dc_bit e buf) = Inr sn" using True by (simp add: read_sn_cases)
  obtain r where "recv_data_pdu cx (rx_counted e (int (length buf)) sn) (force_dc_bit e buf) (int (length buf)) sn = Inr r"
    using recv_data_pdu_total[of "rx_counted e (int (length buf)) sn" cx "force_dc_bit e buf" sn] assms True
    by (auto simp: counted_wf)
  then have "nr_pdcp_entity_recv_pdu cx e buf (int (length buf)) = Inr r"
    using True buf sn by (simp add: nr_pdcp_entity_recv_pdu_def Let_def read_sn_counted rx_counted_def)
  then show ?thesis using True by simp
next
  case False
  then show ?thesis
    unfolding nr_pdcp_entity_recv_pdu_def Let_def read_sn_counted read_sn_cases[of e] by auto
qed

end
