(* ===== verification/PDCP_Props.thy ===== *)
theory PDCP_Props
  imports PDCP_Link
begin

text \<open>
  Transmission, the link from one entity to a matching one, and the properties of NR PDCP.
\<close>

section \<open>The header\<close>

lemma or_128:
  fixes x :: int
  assumes "0 \<le> x" "x < 16"
  shows "128 OR x = 128 + x"
proof -
  have x: "take_bit 4 x = x" using assms by (simp add: take_bit_int_eq_self)
  have "bit (128 :: int) n \<longleftrightarrow> n = 7" for n using bit_exp_iff[of 7 n, where ?'a = int] by auto
  moreover have "\<not> bit x 7" by (subst x[symmetric]) (simp add: bit_take_bit_iff)
  ultimately have "128 + x = 128 OR x" by (intro disjunctive_add) auto
  then show ?thesis by simp
qed

lemma dc_or: "0 \<le> x \<Longrightarrow> x < 16 \<Longrightarrow> dc_bit_of e OR x = dc_bit_of e + x"
  by (simp add: dc_bit_of_def or_128)

lemma length_tx_header [simp]: "length (tx_header e sn) = header_size_of e"
  by (simp add: tx_header_def header_size_of_def)

lemma uint_byte: "0 \<le> x \<Longrightarrow> x < 256 \<Longrightarrow> uint (word_of_int x :: byte) = x"
  by (simp add: uint_word_of_int)

lemma dc_range: "0 \<le> x \<Longrightarrow> x < 16 \<Longrightarrow> 0 \<le> dc_bit_of e + x \<and> dc_bit_of e + x < 256"
  by (simp add: dc_bit_of_def)

lemma dc_mod: "0 \<le> x \<Longrightarrow> x < 16 \<Longrightarrow> (dc_bit_of e + x) mod 16 = x" "0 \<le> x \<Longrightarrow> x < 4 \<Longrightarrow> (dc_bit_of e + x) mod 4 = x"
proof -
  have "(128 + x) mod 16 = x mod 16" "(128 + x) mod 4 = x mod 4" by presburger+
  then show "0 \<le> x \<Longrightarrow> x < 16 \<Longrightarrow> (dc_bit_of e + x) mod 16 = x" "0 \<le> x \<Longrightarrow> x < 4 \<Longrightarrow> (dc_bit_of e + x) mod 4 = x"
    by (simp_all add: dc_bit_of_def)
qed

lemma uint_dc: "0 \<le> x \<Longrightarrow> x < 16 \<Longrightarrow> uint (word_of_int (dc_bit_of e OR x) :: byte) = dc_bit_of e + x"
  by (simp only: dc_or uint_byte dc_range)

lemma read_sn_tx_header:
  assumes "pdcp_config e" and "0 \<le> sn" and "sn < 2 ^ pe_sn_size e" and "pe_sn_size r = pe_sn_size e"
  shows "read_sn r (tx_header e sn @ rest) = Inr sn"
proof (cases "pe_sn_size e = 12")
  case True
  have "0 \<le> sn div 256" "sn div 256 < 16" using assms True by auto
  then show ?thesis using True assms
    by (simp add: read_sn_def mem_read_def header_size_of_def tx_header_def uint_dc uint_byte dc_mod)
next
  case False
  then have n: "sn < 262144" using assms by (simp add: pdcp_config_def)
  then have d: "0 \<le> sn div 65536" "sn div 65536 < 4" using assms(2) by auto
  have "65536 * (sn div 65536) + 256 * (sn div 256 mod 256) + sn mod 256 = sn"
  proof -
    have "256 * (sn div 256) + sn mod 256 = sn" by (rule mult_div_mod_eq)
    moreover have "256 * (sn div 256 div 256) + sn div 256 mod 256 = sn div 256" by (rule mult_div_mod_eq)
    moreover have "sn div 65536 = sn div 256 div 256" using zdiv_zmult2_eq[of 256 sn 256] by simp
    ultimately show ?thesis by linarith
  qed
  then show ?thesis using False assms d
    by (simp add: read_sn_def mem_read_def header_size_of_def tx_header_def uint_dc uint_byte dc_mod)
qed

lemma bit_128_plus:
  fixes x :: int
  assumes "0 \<le> x" "x < 16"
  shows "bit (word_of_int (128 OR x) :: byte) 7"
proof -
  have "bit (128 OR x) 7" by (simp add: bit_or_iff)
  then show ?thesis by (simp add: bit_word_of_int_iff)
qed

lemma force_dc_tx_header:
  "pe_type r = pe_type e \<Longrightarrow> force_dc_bit r (tx_header e sn @ rest) = tx_header e sn @ rest"
  by (auto simp: force_dc_bit_def tx_header_def dc_bit_of_def bit_128_plus) (cases "pe_type e"; simp)+

section \<open>Transmission\<close>

text \<open>What the transmitter needs: a well-formed entity, a bearer all algorithms accept, an SDU of legal size and room for the PDU.\<close>

definition sdap_size :: "bool \<Rightarrow> nat" where
  "sdap_size b = (if b then 1 else 0)"

definition can_send :: "crypto \<Rightarrow> pdcp_entity \<Rightarrow> buffer \<Rightarrow> buffer \<Rightarrow> int \<Rightarrow> bool" where
  "can_send cx t sdu pdu_buffer pdu_max_size \<longleftrightarrow> crypto_ok cx \<and> sec_wf t \<and> pdcp_config t \<and> \<not> pe_suspended t
     \<and> 0 < pe_rb_id t \<and> pe_rb_id t < 32 \<and> sdap_size (pe_has_sdap_tx t) < length sdu \<and> length sdu < 2 ^ 29 - 7
     \<and> nr_max_pdcp_pdu_size (int (length sdu)) \<le> pdu_max_size \<and> pdu_max_size \<le> int (length pdu_buffer)"

definition tx_sn :: "pdcp_entity \<Rightarrow> int" where
  "tx_sn t = uint (pe_tx_next t) mod 2 ^ pe_sn_size t"

definition tx_dir :: "pdcp_entity \<Rightarrow> int" where
  "tx_dir t = (if pe_is_gnb t then 1 else 0)"

text \<open>The MAC-I of an SDU.\<close>

definition mac_of :: "crypto \<Rightarrow> pdcp_entity \<Rightarrow> buffer \<Rightarrow> buffer \<Rightarrow> bool" where
  "mac_of cx t msg mac \<longleftrightarrow> length mac = integrity_size_of t
     \<and> (if pe_has_integrity t then call_integrity cx t (pe_tx_next t) (tx_dir t) msg = Inr mac
        else mac = replicate (integrity_size_of t) 0)"

text \<open>The state in which an SDU is processed: only statistics have changed.\<close>

lemma call_cipher_same:
  assumes "pe_rb_id e' = pe_rb_id e" "pe_keys e' = pe_keys e" "pe_security_context e' = pe_security_context e"
  shows "call_cipher cx e' = call_cipher cx e"
  using assms by (auto simp: fun_eq_iff call_cipher_def split: option.splits cipher_fn.splits sec_context.splits)

lemma call_integrity_same:
  assumes "pe_rb_id e' = pe_rb_id e" "pe_integrity e' = pe_integrity e" "pe_integrity_context e' = pe_integrity_context e"
  shows "call_integrity cx e' = call_integrity cx e"
  using assms by (auto simp: fun_eq_iff call_integrity_def split: option.splits integrity_fn.splits sec_context.splits)

lemma call_stats [simp]:
  "call_cipher cx (upd_pstats f e) = call_cipher cx e" "call_integrity cx (upd_pstats f e) = call_integrity cx e"
  "header_size_of (upd_pstats f e) = header_size_of e" "integrity_size_of (upd_pstats f e) = integrity_size_of e"
  "tx_header (upd_pstats f e) = tx_header e"
  by (rule call_cipher_same call_integrity_same; simp add: upd_pstats_def)+
    (simp_all add: fun_eq_iff header_size_of_def integrity_size_of_def tx_header_def dc_bit_of_def upd_pstats_def)

lemma upd_pstats_sel [simp]:
  "pe_tx_next (upd_pstats f e) = pe_tx_next e" "pe_sn_max (upd_pstats f e) = pe_sn_max e"
  "pe_has_sdap_tx (upd_pstats f e) = pe_has_sdap_tx e" "pe_is_gnb (upd_pstats f e) = pe_is_gnb e"
  "pe_has_ciphering (upd_pstats f e) = pe_has_ciphering e" "pe_cipher (upd_pstats f e) = pe_cipher e"
  "pe_has_integrity (upd_pstats f e) = pe_has_integrity e"
  by (simp_all add: upd_pstats_def)

lemma tx_dir_stats [simp]: "tx_dir (upd_pstats f e) = tx_dir e"
  by (simp add: tx_dir_def)

lemma write_mac_stats [simp]: "write_mac cx (upd_pstats f e) = write_mac cx e"
  by (simp add: fun_eq_iff write_mac_def)

lemma write_mac_result:
  assumes "can_send cx t sdu b mx" and "length a = header_size_of t + length sdu" and "integrity_size_of t \<le> length rest"
  shows "\<exists>mac. mac_of cx t a mac \<and>
    write_mac cx t (pe_tx_next t) (tx_dir t) (a @ rest) (header_size_of t + length sdu)
      = Inr (a @ mac @ drop (integrity_size_of t) rest)"
proof (cases "pe_has_integrity t")
  case True
  have "length a < 2 ^ 29" using assms(1,2) header_size_le(1)[of t] by (simp add: can_send_def)
  moreover have "0 < length a" using assms(1,2) by (auto simp: can_send_def)
  ultimately have "pdcp_legal (pe_rb_id t) (length a)" using assms(1) by (simp add: pdcp_legal_def can_send_def)
  then obtain mac where m: "call_integrity cx t (pe_tx_next t) (tx_dir t) a = Inr mac" "length mac = 4"
    using entity_mac[OF _ True, of cx a] assms(1) by (auto simp: can_send_def)
  have "write_mac cx t (pe_tx_next t) (tx_dir t) (a @ rest) (length a) = Inr (a @ mac @ drop 4 rest)"
    using True m assms(3) by (simp add: write_mac_def mem_read_def mem_write_def integrity_size_cases)
  then show ?thesis using True m assms(2) by (auto simp: mac_of_def integrity_size_cases)
next
  case False
  then show ?thesis
    using assms(2,3) by (auto simp: mac_of_def write_mac_def mem_write_def integrity_size_of_def numeral_eq_Suc)
qed

text \<open>\<open>c\<close> is \<open>plain\<close> as the transmitter ciphers it.\<close>

definition ciphered :: "crypto \<Rightarrow> pdcp_entity \<Rightarrow> buffer \<Rightarrow> buffer \<Rightarrow> bool" where
  "ciphered cx t plain c \<longleftrightarrow> length c = length plain
     \<and> (if pe_has_ciphering t
        then \<forall>a b. cipher_range (call_cipher cx t (pe_cipher t) (pe_tx_next t) (tx_dir t)) (a @ c @ b)
               (int (length a)) (int (length c)) = Inr (a @ plain @ b)
        else c = plain)"

definition pdu_size :: "pdcp_entity \<Rightarrow> buffer \<Rightarrow> nat" where
  "pdu_size t sdu = header_size_of t + length sdu + integrity_size_of t"

lemma cipher_result:
  assumes "crypto_ok cx" and "sec_wf t" and "pdcp_legal (pe_rb_id t) (length m)" and "off = int (length a)" and "n = int (length m)"
  shows "\<exists>c. ciphered cx t m c \<and>
    (if pe_has_ciphering t then cipher_range (call_cipher cx t (pe_cipher t) (pe_tx_next t) (tx_dir t)) (a @ m @ b) off n
     else Inr (a @ m @ b)) = Inr (a @ c @ b)"
proof (cases "pe_has_ciphering t")
  case True
  have "tx_dir t = 0 \<or> tx_dir t = 1" by (simp add: tx_dir_def)
  from entity_cipher_range[OF assms(2) True assms(1,3) this, of "pe_tx_next t"]
  obtain c where "length c = length m" "\<forall>a b.
      cipher_range (call_cipher cx t (pe_cipher t) (pe_tx_next t) (tx_dir t)) (a @ m @ b) (int (length a)) (int (length m)) = Inr (a @ c @ b)
    \<and> cipher_range (call_cipher cx t (pe_cipher t) (pe_tx_next t) (tx_dir t)) (a @ c @ b) (int (length a)) (int (length m)) = Inr (a @ m @ b)"
    by blast
  then show ?thesis using True assms(4,5) by (auto simp: ciphered_def)
qed (simp add: ciphered_def)

lemma take_drop_append: "take n xs @ drop n xs @ ys = xs @ ys"
  by (metis append.assoc append_take_drop_id)

definition sent :: "pdcp_entity \<Rightarrow> pdcp_entity \<Rightarrow> bool" where
  "sent t t' \<longleftrightarrow> (\<exists>st. t' = t\<lparr>pe_tx_next := pe_tx_next t + 1, pe_stats := st\<rparr>)"

lemma process_sdu_result:
  assumes cs: "can_send cx t sdu pb mx"
  shows "\<exists>t' mac c. sent t t' \<and> mac_of cx t (tx_header t (tx_sn t) @ sdu) mac
    \<and> ciphered cx t (drop (sdap_size (pe_has_sdap_tx t)) sdu @ mac) c
    \<and> nr_pdcp_entity_process_sdu cx t sdu pb mx = Inr (t', int (pdu_size t sdu),
        (tx_header t (tx_sn t) @ take (sdap_size (pe_has_sdap_tx t)) sdu @ c) @ drop (pdu_size t sdu) pb)"
proof -
  let ?h = "header_size_of t" and ?i = "integrity_size_of t" and ?sd = "sdap_size (pe_has_sdap_tx t)"
  let ?hdr = "tx_header t (tx_sn t)"
  let ?rest = "drop (?h + length sdu) pb"
  have big: "?h + length sdu + ?i \<le> length pb"
    using cs header_size_le(1)[of t] integrity_size_cases(1)[of t] by (auto simp: can_send_def nr_max_pdcp_pdu_size_def)
  have w1: "mem_write pb 0 ?hdr = Inr (?hdr @ drop ?h pb)" using big by (simp add: mem_write_def)
  have w2: "mem_write (?hdr @ drop ?h pb) ?h sdu = Inr ((?hdr @ sdu) @ ?rest)" using big by (simp add: mem_write_def add.commute)
  have la: "length (?hdr @ sdu) = ?h + length sdu" and lr: "?i \<le> length ?rest" using big by simp_all
  obtain mac where mac: "mac_of cx t (?hdr @ sdu) mac" and w3: "write_mac cx t (pe_tx_next t) (tx_dir t) ((?hdr @ sdu) @ ?rest) (?h + length sdu)
      = Inr ((?hdr @ sdu) @ mac @ drop ?i ?rest)"
    using write_mac_result[OF cs la lr] by blast
  have lm: "length mac = ?i" using mac by (simp add: mac_of_def)
  let ?a = "?hdr @ take ?sd sdu" and ?m = "drop ?sd sdu @ mac"
  have sd: "?sd < length sdu" using cs by (simp add: can_send_def)
  have "length ?m < 2 ^ 29" using cs lm integrity_size_cases(1)[of t] by (auto simp: can_send_def)
  then have leg: "pdcp_legal (pe_rb_id t) (length ?m)" using cs sd by (simp add: pdcp_legal_def can_send_def)
  have off: "int ?h + (if pe_has_sdap_tx t then 1 else 0) = int (length ?a)"
    and n: "int (length sdu) + int ?i - (if pe_has_sdap_tx t then 1 else 0) = int (length ?m)"
    using sd lm by (auto simp: sdap_size_def)
  obtain c where c: "ciphered cx t ?m c" and w4: "(if pe_has_ciphering t
      then cipher_range (call_cipher cx t (pe_cipher t) (pe_tx_next t) (tx_dir t)) (?a @ ?m @ drop ?i ?rest)
        (int ?h + (if pe_has_sdap_tx t then 1 else 0)) (int (length sdu) + int ?i - (if pe_has_sdap_tx t then 1 else 0))
      else Inr (?a @ ?m @ drop ?i ?rest)) = Inr (?a @ c @ drop ?i ?rest)"
    using cipher_result[OF _ _ leg off n] cs unfolding can_send_def by blast
  have sn: "uint (pe_tx_next t AND word_of_int (pe_sn_max t)) = tx_sn t"
    using cs by (simp only: can_send_def pdcp_config_def tx_sn_def and_sn_max)
  have eq: "(?hdr @ sdu) @ mac @ drop ?i ?rest = ?a @ ?m @ drop ?i ?rest" by (simp add: take_drop_append)
  have "\<exists>t'. sent t t' \<and> nr_pdcp_entity_process_sdu cx t sdu pb mx = Inr (t', int (pdu_size t sdu), (?a @ c) @ drop ?i ?rest)"
    using cs unfolding nr_pdcp_entity_process_sdu_def Let_def can_send_def tx_dir_def[symmetric] tx_dir_stats upd_pstats_sel call_stats
      write_mac_stats sn w1 bindE_Inr w2 w3[unfolded eq] w4
    by (auto simp: sent_def upd_pstats_def pdu_size_def)
  then show ?thesis using mac c by (auto simp: pdu_size_def add.commute add.left_commute)
qed

section \<open>From one entity to another\<close>

text \<open>
  The receiver that belongs to a transmitter: same bearer and configuration, same keys and
  algorithms, the other end of the radio link.
\<close>

definition paired :: "pdcp_entity \<Rightarrow> pdcp_entity \<Rightarrow> bool" where
  "paired t r \<longleftrightarrow> pe_type r = pe_type t \<and> pe_rb_id r = pe_rb_id t \<and> pe_sn_size r = pe_sn_size t
     \<and> pe_sn_max r = pe_sn_max t \<and> pe_window_size r = pe_window_size t
     \<and> pe_has_sdap_rx r = pe_has_sdap_tx t \<and> pe_keys r = pe_keys t
     \<and> pe_has_ciphering r = pe_has_ciphering t \<and> pe_decipher r = pe_cipher t \<and> pe_security_context r = pe_security_context t
     \<and> pe_has_integrity r = pe_has_integrity t \<and> pe_integrity r = pe_integrity t
     \<and> pe_integrity_context r = pe_integrity_context t
     \<and> pe_is_gnb r = (\<not> pe_is_gnb t) \<and> \<not> pe_suspended r"

definition in_window :: "pdcp_entity \<Rightarrow> u32 \<Rightarrow> bool" where
  "in_window r cnt \<longleftrightarrow> uint (pe_rx_deliv r) - pe_window_size r \<le> uint cnt \<and> uint cnt < uint (pe_rx_deliv r) + pe_window_size r"

lemma paired_sizes:
  assumes "paired t r"
  shows "header_size_of r = header_size_of t" "integrity_size_of r = integrity_size_of t"
    "call_cipher cx r = call_cipher cx t" "call_integrity cx r = call_integrity cx t"
    "(if pe_is_gnb r then 0 else 1) = tx_dir t" "pdcp_config r = pdcp_config t"
  using assms call_cipher_same[of r t] call_integrity_same[of r t]
  by (simp_all add: paired_def header_size_of_def integrity_size_of_def tx_dir_def pdcp_config_def)

lemma recv_deciphered_sent:
  assumes p: "paired t r" and mac: "mac_of cx t (hdr @ sdu) mac" and h: "length hdr = header_size_of t"
    and fresh: "pe_rx_deliv r \<le> pe_tx_next t" "pe_tx_next t \<notin> set (counts (pe_rx_list r))"
  shows "recv_deciphered cx r (pe_tx_next t) mi (hdr @ sdu @ mac) (int (pdu_size t sdu))
     = Inr (accept_sdu (int (pdu_size t sdu)) (int (header_size_of t))
         \<lparr>ps_count = pe_tx_next t, ps_buffer = sdu, ps_integrity = mi\<rparr> r)"
proof -
  note s = paired_sizes[OF p]
  have lm: "length mac = integrity_size_of t" using mac by (simp add: mac_of_def)
  have "integrity_accepts cx r (pe_tx_next t) (hdr @ sdu @ mac) (int (pdu_size t sdu)) = Inr True"
  proof (cases "pe_has_integrity t")
    case True
    then have "length mac = 4" "call_integrity cx t (pe_tx_next t) (tx_dir t) (hdr @ sdu) = Inr mac"
      using mac lm by (simp_all add: mac_of_def integrity_size_cases)
    then show ?thesis using True p h unfolding integrity_accepts_def s
      by (simp add: paired_def mem_read_def pdu_size_def integrity_size_cases nat_add_distrib)
  qed (use p in \<open>simp add: integrity_accepts_def paired_def\<close>)
  moreover have "nr_pdcp_new_sdu (pe_tx_next t) (hdr @ sdu @ mac) (int (header_size_of r))
      (int (pdu_size t sdu) - int (header_size_of r) - int (integrity_size_of r)) mi
    = Inr \<lparr>ps_count = pe_tx_next t, ps_buffer = sdu, ps_integrity = mi\<rparr>"
    using h lm unfolding s by (simp add: nr_pdcp_new_sdu_def mem_read_def pdu_size_def)
  moreover have "\<not> (pe_tx_next t < pe_rx_deliv r \<or> nr_pdcp_sdu_in_list (pe_rx_list r) (pe_tx_next t))"
    using fresh by (auto simp: in_list_iff)
  ultimately show ?thesis unfolding recv_deciphered_def s by simp
qed

lemma recv_data_sent:
  assumes cs: "can_send cx t sdu pb mx" and p: "paired t r" and w: "in_window r (pe_tx_next t)"
    and fresh: "pe_rx_deliv r \<le> pe_tx_next t" "pe_tx_next t \<notin> set (counts (pe_rx_list r))"
    and mac: "mac_of cx t (tx_header t (tx_sn t) @ sdu) mac"
    and c: "ciphered cx t (drop (sdap_size (pe_has_sdap_tx t)) sdu @ mac) c"
  defines "buf \<equiv> tx_header t (tx_sn t) @ take (sdap_size (pe_has_sdap_tx t)) sdu @ c"
  shows "\<exists>mi. recv_data_pdu cx r buf (int (pdu_size t sdu)) (tx_sn t)
     = Inr (accept_sdu (int (pdu_size t sdu)) (int (header_size_of t))
         \<lparr>ps_count = pe_tx_next t, ps_buffer = sdu, ps_integrity = mi\<rparr> r)"
proof -
  let ?h = "header_size_of t" and ?i = "integrity_size_of t" and ?sd = "sdap_size (pe_has_sdap_tx t)"
  let ?hdr = "tx_header t (tx_sn t)"
  note s = paired_sizes[OF p]
  have lm: "length mac = ?i" using mac by (simp add: mac_of_def)
  have sd: "?sd < length sdu" using cs by (simp add: can_send_def)
  have lc: "length c = length sdu - ?sd + ?i" using c lm by (simp add: ciphered_def)
  have lb: "length buf = pdu_size t sdu" using lc sd by (simp add: buf_def pdu_size_def)
  have cnt: "rcvd_count_of r (tx_sn t) = pe_tx_next t"
    using rcvd_count_window[of r "pe_tx_next t"] w p cs s(6) by (simp add: in_window_def tx_sn_def paired_def can_send_def)
  have "\<exists>mi. store_integrity_data r (pe_tx_next t) buf (int (pdu_size t sdu)) = Inr mi"
    using lb sd p by (auto simp: store_integrity_data_def mem_read_def s pdu_size_def integrity_size_of_def paired_def split: if_splits)
  then obtain mi where mi: "store_integrity_data r (pe_tx_next t) buf (int (pdu_size t sdu)) = Inr mi" ..
  have dec: "decipher_pdu cx r (pe_tx_next t) buf (int ?h + int ?sd) (int (pdu_size t sdu) - (int ?h + int ?sd))
      = Inr (?hdr @ sdu @ mac)"
  proof (cases "pe_has_ciphering t")
    case True
    have "cipher_range (call_cipher cx t (pe_cipher t) (pe_tx_next t) (tx_dir t)) ((?hdr @ take ?sd sdu) @ c @ [])
        (int (length (?hdr @ take ?sd sdu))) (int (length c)) = Inr ((?hdr @ take ?sd sdu) @ (drop ?sd sdu @ mac) @ [])"
      using c True unfolding ciphered_def by (metis (no_types))
    moreover have "int (length (?hdr @ take ?sd sdu)) = int ?h + int ?sd" using sd by simp
    moreover have "int (length c) = int (pdu_size t sdu) - (int ?h + int ?sd)" using sd lc by (simp add: pdu_size_def)
    moreover have "(?hdr @ take ?sd sdu) @ (drop ?sd sdu @ mac) @ [] = ?hdr @ sdu @ mac" by (simp add: take_drop_append)
    moreover have "pe_has_ciphering r" "pe_decipher r = pe_cipher t" using True p by (simp_all add: paired_def)
    ultimately show ?thesis unfolding decipher_pdu_def s buf_def by (simp add: take_drop_append)
  next
    case False
    then have "c = drop ?sd sdu @ mac" using c by (simp add: ciphered_def)
    then show ?thesis using False p by (simp add: decipher_pdu_def paired_def buf_def take_drop_append)
  qed
  have si: "(if pe_has_sdap_rx r then 1 else 0) = int ?sd" using p by (simp add: sdap_size_def paired_def)
  have "\<not> int (pdu_size t sdu) < int ?h + int ?sd + int ?i + 1" using sd by (simp add: pdu_size_def)
  then have "recv_data_pdu cx r buf (int (pdu_size t sdu)) (tx_sn t)
      = recv_deciphered cx r (pe_tx_next t) mi (?hdr @ sdu @ mac) (int (pdu_size t sdu))"
    unfolding recv_data_pdu_def Let_def si s cnt by (simp add: mi dec)
  then show ?thesis using recv_deciphered_sent[OF p mac _ fresh] by auto
qed

lemma paired_counted: "paired t r \<Longrightarrow> paired t (rx_counted r n sn)"
  using rx_counted_stats[of r n sn] by (auto simp: paired_def)

lemma link_accepts:
  assumes cs: "can_send cx t sdu pb mx" and p: "paired t r" and w: "in_window r (pe_tx_next t)"
    and fresh: "pe_rx_deliv r \<le> pe_tx_next t" "pe_tx_next t \<notin> set (counts (pe_rx_list r))"
  shows "\<exists>t' pdu mi st. sent t t' \<and> length pdu = pdu_size t sdu
     \<and> nr_pdcp_entity_process_sdu cx t sdu pb mx = Inr (t', int (length pdu), pdu @ drop (length pdu) pb)
     \<and> nr_pdcp_entity_recv_pdu cx r pdu (int (length pdu))
       = Inr (accept_sdu (int (length pdu)) (int (header_size_of t))
           \<lparr>ps_count = pe_tx_next t, ps_buffer = sdu, ps_integrity = mi\<rparr> (r\<lparr>pe_stats := st\<rparr>))"
proof -
  obtain t' mac c where t': "sent t t'" and mac: "mac_of cx t (tx_header t (tx_sn t) @ sdu) mac"
    and c: "ciphered cx t (drop (sdap_size (pe_has_sdap_tx t)) sdu @ mac) c"
    and r: "nr_pdcp_entity_process_sdu cx t sdu pb mx = Inr (t', int (pdu_size t sdu),
        (tx_header t (tx_sn t) @ take (sdap_size (pe_has_sdap_tx t)) sdu @ c) @ drop (pdu_size t sdu) pb)"
    using process_sdu_result[OF cs] by blast
  define pdu where "pdu = tx_header t (tx_sn t) @ take (sdap_size (pe_has_sdap_tx t)) sdu @ c"
  have len: "length pdu = pdu_size t sdu"
    using c mac cs by (simp add: pdu_def pdu_size_def ciphered_def mac_of_def can_send_def)
  let ?r = "rx_counted r (int (length pdu)) (tx_sn t)"
  have "in_window ?r (pe_tx_next t)" "pe_rx_deliv ?r \<le> pe_tx_next t" "pe_tx_next t \<notin> set (counts (pe_rx_list ?r))"
    using w fresh rx_counted_stats[of r "int (length pdu)" "tx_sn t"] by (auto simp: in_window_def)
  from recv_data_sent[OF cs paired_counted[OF p] this mac c, folded pdu_def len]
  obtain mi where d: "recv_data_pdu cx ?r pdu (int (length pdu)) (tx_sn t)
      = Inr (accept_sdu (int (length pdu)) (int (header_size_of t))
          \<lparr>ps_count = pe_tx_next t, ps_buffer = sdu, ps_integrity = mi\<rparr> ?r)" by blast
  have "0 \<le> tx_sn t" "tx_sn t < 2 ^ pe_sn_size t" by (simp_all add: tx_sn_def)
  then have sn: "read_sn r pdu = Inr (tx_sn t)"
    unfolding pdu_def using cs p by (intro read_sn_tx_header) (simp_all add: can_send_def paired_def)
  have dc: "force_dc_bit r pdu = pdu" unfolding pdu_def using p by (intro force_dc_tx_header) (simp add: paired_def)
  have "\<not> int (length pdu) < 1" "pdu \<noteq> []" using cs by (auto simp: len pdu_size_def can_send_def pdu_def tx_header_def)
  then have "nr_pdcp_entity_recv_pdu cx r pdu (int (length pdu)) = recv_data_pdu cx ?r pdu (int (length pdu)) (tx_sn t)"
    using p by (simp add: nr_pdcp_entity_recv_pdu_def Let_def dc read_sn_counted sn rx_counted_def paired_def)
  moreover obtain st where "?r = r\<lparr>pe_stats := st\<rparr>" using rx_counted_stats by blast
  ultimately show ?thesis using t' r d len unfolding len[symmetric] pdu_def[symmetric] by metis
qed

lemma list_add_front:
  "\<forall>x \<in> set (counts l). ps_count s < x \<Longrightarrow> nr_pdcp_sdu_list_add l s = s # l"
  by (cases l) (simp_all add: nr_pdcp_sdu_list_add_def)

text \<open>The SDU that RX_DELIV waits for is delivered at once, before the others it sets free.\<close>

lemma accept_sdu_due:
  assumes "rx_inv e" and "ps_count sdu = pe_rx_deliv e" and "accept_sdu sz h sdu e = (e', out)"
  shows "\<exists>more. out = sdu # more"
proof -
  have "pe_rx_list (add_to_list (sz - h) sdu e) = sdu # pe_rx_list e"
    using rx_invD(3)[OF assms(1)] assms(2) by (simp add: list_add_front)
  then show ?thesis using assms(2,3) by (auto simp: accept_sdu_alt Let_def split: prod.splits)
qed

lemma accept_sdu_alone:
  assumes "ps_count sdu = pe_rx_deliv e" and "pe_rx_list e = []" and "accept_sdu sz h sdu e = (e', out)"
  shows "pe_rx_list e' = []" "pe_rx_size e' = pe_rx_size e + (sz - h) - ps_size sdu"
  using assms by (auto simp: accept_sdu_alt Let_def nr_pdcp_sdu_list_add_def deliver_first_def upd_pstats_def
      add_to_list_def split: if_splits)

section \<open>Examples\<close>

definition ex_keys :: "int \<Rightarrow> pdcp_keys" where
  "ex_keys alg = \<lparr>integrity_algorithm = alg, ciphering_algorithm = alg,
     integrity_key = replicate 16 3, ciphering_key = replicate 16 5\<rparr>"

definition ex_entity :: "int \<Rightarrow> bool \<Rightarrow> pdcp_entity" where
  "ex_entity alg gnb = (case new_nr_pdcp_entity NR_PDCP_DRB_AM gnb 1 10 True True 12 100 (-1) (ex_keys alg) of
     Inr e \<Rightarrow> e | Inl _ \<Rightarrow> undefined)"

lemmas new_entity_defs = new_nr_pdcp_entity_def nr_pdcp_entity_set_security_def set_integrity_def set_ciphering_def
  store_keys_def ex_keys_def nr_pdcp_integrity_nia1_init_def nr_pdcp_integrity_nia2_init_def
  nr_pdcp_security_nea1_init_def nr_pdcp_security_nea2_init_def

lemma ex_entity_new:
  "alg = 0 \<or> alg = 1 \<or> alg = 2 \<Longrightarrow>
   new_nr_pdcp_entity NR_PDCP_DRB_AM gnb 1 10 True True 12 100 (-1) (ex_keys alg) = Inr (ex_entity alg gnb)"
  by (auto simp: ex_entity_def new_entity_defs)

lemma ex_pair:
  assumes "alg = 0 \<or> alg = 1 \<or> alg = 2"
  shows "paired (ex_entity alg True) (ex_entity alg False)"
  using assms by (auto simp: ex_entity_def new_entity_defs paired_def)

lemma ex_sel:
  assumes "alg = 0 \<or> alg = 1 \<or> alg = 2"
  shows "pe_tx_next (ex_entity alg g) = 0" "pe_rx_deliv (ex_entity alg g) = 0" "pe_rx_list (ex_entity alg g) = []"
    "pe_rb_id (ex_entity alg g) = 1" "pe_has_sdap_tx (ex_entity alg g)" "\<not> pe_suspended (ex_entity alg g)"
    "pe_window_size (ex_entity alg g) = 2048" "sec_wf (ex_entity alg g)" "pdcp_config (ex_entity alg g)"
    "rx_inv (ex_entity alg g)" "pe_has_integrity (ex_entity alg g) \<longleftrightarrow> alg \<noteq> 0"
proof -
  note n = ex_entity_new[OF assms, of g]
  show "sec_wf (ex_entity alg g)" "pdcp_config (ex_entity alg g)" using new_entity_wf[OF n] by simp_all
  show "rx_inv (ex_entity alg g)" using new_entity_rx[OF n] by (simp add: rx_inv_def)
qed (use assms in \<open>auto simp: ex_entity_def new_entity_defs\<close>)

lemma ex_can_send:
  assumes "alg = 0 \<or> alg = 1 \<or> alg = 2"
  shows "can_send xor_crypto (ex_entity alg True) [9, 1, 2, 3] (replicate 20 0) 20"
  using ex_sel[OF assms, of True] by (simp add: can_send_def xor_crypto_ok sdap_size_def nr_max_pdcp_pdu_size_def)

lemma res_caseD:
  "(case r of Inl _ \<Rightarrow> False | Inr (a, b) \<Rightarrow> P a b) \<Longrightarrow> \<exists>a b. r = Inr (a, b) \<and> P a b"
  by (auto split: sum.splits)

text \<open>At time 1 the PDU with sequence number 1 arrives, the one with 0 is missing.\<close>

definition ex_gap :: pdcp_entity where
  "ex_gap = (case nr_pdcp_entity_recv_pdu xor_crypto (fst (nr_pdcp_entity_set_time 1 (ex_entity 0 False))) [0x80, 1, 9, 8] 4 of
     Inr (e, _) \<Rightarrow> e | Inl _ \<Rightarrow> undefined)"

lemma ex_gap_recv:
  "\<exists>e. nr_pdcp_entity_recv_pdu xor_crypto (fst (nr_pdcp_entity_set_time 1 (ex_entity 0 False))) [0x80, 1, 9, 8] 4 = Inr (e, [])
     \<and> counts (pe_rx_list e) = [1] \<and> ex_gap = e"
proof -
  have "(case nr_pdcp_entity_recv_pdu xor_crypto (fst (nr_pdcp_entity_set_time 1 (ex_entity 0 False))) [0x80, 1, 9, 8] 4 of
      Inr (e, out) \<Rightarrow> out = [] \<and> counts (pe_rx_list e) = [1] | Inl _ \<Rightarrow> False)"
    by code_simp
  then show ?thesis unfolding ex_gap_def by (auto split: sum.splits)
qed

lemma ex_gap_run: "pdcp_run xor_crypto ex_gap []"
proof -
  obtain e where e: "nr_pdcp_entity_recv_pdu xor_crypto (fst (nr_pdcp_entity_set_time 1 (ex_entity 0 False))) [0x80, 1, 9, 8] 4 = Inr (e, [])"
    "counts (pe_rx_list e) = [1]" "ex_gap = e" using ex_gap_recv by blast
  have "pdcp_run xor_crypto (ex_entity 0 False) []" by (rule run_new[OF ex_entity_new]) simp_all
  moreover have "snd (nr_pdcp_entity_set_time 1 (ex_entity 0 False)) = []" by code_simp
  ultimately have "pdcp_run xor_crypto (fst (nr_pdcp_entity_set_time 1 (ex_entity 0 False))) []"
    using run_time[of xor_crypto "ex_entity 0 False" "[]" 1] by (metis append.right_neutral prod.collapse)
  from run_recv[OF this e(1)] e show ?thesis by simp
qed

lemma ex_gap_filled:
  "\<exists>e out. nr_pdcp_entity_recv_pdu xor_crypto ex_gap [0x80, 0, 9, 7] 4 = Inr (e, out)
     \<and> map ps_count out = [0, 1] \<and> pe_rx_list e = []"
proof -
  have "(case nr_pdcp_entity_recv_pdu xor_crypto ex_gap [0x80, 0, 9, 7] 4 of
      Inr (e, out) \<Rightarrow> map ps_count out = [0, 1] \<and> pe_rx_list e = [] | Inl _ \<Rightarrow> False)"
    by code_simp
  then show ?thesis by (auto split: sum.splits)
qed

section \<open>Properties\<close>

text \<open>
  Property C13. The receiver finds the COUNT of a PDU from its sequence number alone: if the COUNT of
  the sender is at most a window below RX_DELIV and less than a window above it, the value that
  reception computes is that COUNT, also when the sequence number has wrapped in between.
\<close>

theorem pdcp_count_reconstruction:
  assumes "pdcp_config e" and "in_window e c"
  shows "rcvd_count_of e (uint c mod 2 ^ pe_sn_size e) = c"
  using assms by (auto simp: in_window_def intro: rcvd_count_window)

theorem pdcp_count_reconstruction_witness:
  "pdcp_config (ex_entity 0 True) \<and> in_window (ex_entity 0 True) 2047
   \<and> rcvd_count_of (ex_entity 0 True) (uint (2047 :: u32) mod 2 ^ pe_sn_size (ex_entity 0 True)) = 2047"
proof -
  have "in_window (ex_entity 0 True) 2047" using ex_sel[of 0 True] by (simp add: in_window_def)
  then show ?thesis using pdcp_count_reconstruction[of "ex_entity 0 True" 2047] ex_sel(9)[of 0 True] by simp
qed



text \<open>
  Property C11. What a transmitter makes of an SDU, the matching receiver turns back into the same SDU:
  \<open>process_sdu\<close> succeeds, and \<open>recv_pdu\<close> on the PDU verifies and deciphers it, finds its COUNT, and
  stores or delivers exactly those bytes once; if RX_DELIV waits for it, it is the first SDU
  delivered. This holds for NEA0/1/2 and NIA0/1/2, both lengths of sequence numbers, with and
  without SDAP header.
\<close>

theorem pdcp_link_roundtrip:
  assumes "can_send cx t sdu pb mx" and "paired t r" and "rx_inv r" and "in_window r (pe_tx_next t)"
    and "pe_rx_deliv r \<le> pe_tx_next t" and "pe_tx_next t \<notin> ps_count ` set (pe_rx_list r)"
  shows "\<exists>t' pdu r' out s.
      nr_pdcp_entity_process_sdu cx t sdu pb mx = Inr (t', int (length pdu), pdu @ drop (length pdu) pb)
    \<and> nr_pdcp_entity_recv_pdu cx r pdu (int (length pdu)) = Inr (r', out)
    \<and> ps_buffer s = sdu \<and> ps_count s = pe_tx_next t
    \<and> mset (out @ pe_rx_list r') = add_mset s (mset (pe_rx_list r))
    \<and> (pe_tx_next t = pe_rx_deliv r \<longrightarrow> out \<noteq> [] \<and> hd out = s)"
proof -
  have fr: "pe_tx_next t \<notin> set (counts (pe_rx_list r))" using assms(6) by (simp add: counts_def)
  obtain t' pdu mi st where
    snd: "nr_pdcp_entity_process_sdu cx t sdu pb mx = Inr (t', int (length pdu), pdu @ drop (length pdu) pb)"
    and rcv: "nr_pdcp_entity_recv_pdu cx r pdu (int (length pdu))
       = Inr (accept_sdu (int (length pdu)) (int (header_size_of t))
           \<lparr>ps_count = pe_tx_next t, ps_buffer = sdu, ps_integrity = mi\<rparr> (r\<lparr>pe_stats := st\<rparr>))"
    using link_accepts[OF assms(1,2,4,5) fr] by blast
  let ?r = "r\<lparr>pe_stats := st\<rparr>"
  have same: "rx_same r ?r" by (simp add: rx_same_def)
  let ?s = "\<lparr>ps_count = pe_tx_next t, ps_buffer = sdu, ps_integrity = mi\<rparr>"
  obtain r' out where a: "accept_sdu (int (length pdu)) (int (header_size_of t)) ?s ?r = (r', out)" by force
  have "mset (out @ pe_rx_list r') = add_mset ?s (mset (pe_rx_list r))"
    using accept_sdu_mset[OF a] same by (simp add: rx_same_def)
  moreover have "pe_tx_next t = pe_rx_deliv r \<longrightarrow> out \<noteq> [] \<and> hd out = ?s"
    using accept_sdu_due[OF _ _ a] same assms(3) rx_same_inv[OF same] by (auto simp: rx_same_def)
  ultimately show ?thesis using snd rcv a by (intro exI[of _ t'] exI[of _ pdu] exI[of _ r'] exI[of _ out] exI[of _ ?s]) simp
qed

theorem pdcp_link_roundtrip_witness:
  "\<exists>t' pdu r' out s.
      nr_pdcp_entity_process_sdu xor_crypto (ex_entity 2 True) [9, 1, 2, 3] (replicate 20 0) 20
        = Inr (t', int (length pdu), pdu @ drop (length pdu) (replicate 20 0))
    \<and> nr_pdcp_entity_recv_pdu xor_crypto (ex_entity 2 False) pdu (int (length pdu)) = Inr (r', out)
    \<and> ps_buffer s = [9, 1, 2, 3] \<and> hd out = s"
proof -
  have "in_window (ex_entity 2 False) (pe_tx_next (ex_entity 2 True))"
    using ex_sel[of 2] by (simp add: in_window_def)
  then show ?thesis
    using pdcp_link_roundtrip[OF ex_can_send[of 2] ex_pair[of 2]] ex_sel[of 2] by fastforce
qed

text \<open>
  Property C12. A well-typed entity cannot go wrong. In every state an entity reaches, its function
  pointers and contexts fit together, so that reception of any bytes never calls a NULL pointer, never
  reads a foreign context and never fails an assertion of the security functions; the one way to stop
  abnormally is a PDU that is shorter than the header, whose sequence number is read before its length
  is looked at.
\<close>

theorem pdcp_reception_type_safe:
  assumes "pdcp_run cx e outs" and "crypto_ok cx" and "0 < pe_rb_id e" and "pe_rb_id e < 32" and "length buf < 2 ^ 29"
  shows "nr_pdcp_entity_recv_pdu cx e buf (int (length buf)) = Inl err \<longleftrightarrow>
    \<not> pe_suspended e \<and> 0 < length buf \<and> length buf < header_size_of e \<and> err = Out_Of_Bounds"
  using recv_pdu_outcome[OF _ assms(2-5)] pdcp_run_wf[OF assms(1)] by simp

theorem pdcp_reception_type_safe_witness:
  "pdcp_run xor_crypto (ex_entity 2 True) [] \<and> crypto_ok xor_crypto \<and> pe_rb_id (ex_entity 2 True) = 1
   \<and> nr_pdcp_entity_recv_pdu xor_crypto (ex_entity 2 True) [128] 1 = Inl Out_Of_Bounds"
proof -
  have run: "pdcp_run xor_crypto (ex_entity 2 True) []" by (rule run_new[OF ex_entity_new]) simp_all
  have "header_size_of (ex_entity 2 True) = 2" by (simp add: header_size_of_def ex_entity_def new_entity_defs)
  then show ?thesis
    using pdcp_reception_type_safe[OF run xor_crypto_ok, of "[128]" Out_Of_Bounds] run ex_sel[of 2 True] xor_crypto_ok by simp
qed

text \<open>
  Property C21. \<open>process_sdu\<close> stays within the PDU buffer: the size it returns is at most
  \<open>nr_max_pdcp_pdu_size\<close>, nothing behind that size is written, and TX_NEXT goes up by one.
\<close>

theorem pdcp_process_sdu_bounds:
  assumes "can_send cx t sdu pb mx"
  shows "\<exists>t' n b. nr_pdcp_entity_process_sdu cx t sdu pb mx = Inr (t', n, b)
    \<and> 0 < n \<and> n \<le> nr_max_pdcp_pdu_size (int (length sdu)) \<and> length b = length pb
    \<and> drop (nat n) b = drop (nat n) pb \<and> pe_tx_next t' = pe_tx_next t + 1"
proof -
  obtain t' mac c where t': "sent t t'" and mac: "mac_of cx t (tx_header t (tx_sn t) @ sdu) mac"
    and c: "ciphered cx t (drop (sdap_size (pe_has_sdap_tx t)) sdu @ mac) c"
    and r: "nr_pdcp_entity_process_sdu cx t sdu pb mx = Inr (t', int (pdu_size t sdu),
        (tx_header t (tx_sn t) @ take (sdap_size (pe_has_sdap_tx t)) sdu @ c) @ drop (pdu_size t sdu) pb)"
    using process_sdu_result[OF assms] by blast
  have len: "length (tx_header t (tx_sn t) @ take (sdap_size (pe_has_sdap_tx t)) sdu @ c) = pdu_size t sdu"
    using c mac assms by (simp add: pdu_size_def ciphered_def mac_of_def can_send_def)
  have "int (pdu_size t sdu) \<le> nr_max_pdcp_pdu_size (int (length sdu))" "0 < pdu_size t sdu"
    using header_size_le[of t] integrity_size_cases(1)[of t] by (auto simp: pdu_size_def nr_max_pdcp_pdu_size_def)
  moreover have "pdu_size t sdu \<le> length pb" using calculation(1) assms by (simp add: can_send_def)
  ultimately show ?thesis using r t' len by (auto simp: sent_def)
qed

theorem pdcp_process_sdu_bounds_witness:
  "can_send xor_crypto (ex_entity 1 True) [9, 1, 2, 3] (replicate 20 0) 20
   \<and> (\<exists>t' n b. nr_pdcp_entity_process_sdu xor_crypto (ex_entity 1 True) [9, 1, 2, 3] (replicate 20 0) 20 = Inr (t', n, b)
      \<and> 0 < n \<and> n \<le> 11 \<and> length b = 20 \<and> pe_tx_next t' = 1)"
  using pdcp_process_sdu_bounds[OF ex_can_send[of 1]] ex_can_send[of 1] ex_sel(1)[of 1 True]
  by (auto simp: nr_max_pdcp_pdu_size_def)

text \<open>
  Property C20. A gap does not block the bearer. When t-Reordering expires, \<open>set_time\<close> delivers a prefix
  of the stored SDUs that contains every one below RX_REORD, RX_DELIV moves to RX_REORD or beyond, and
  if SDUs are still missing below RX_NEXT the timer is started again for them.
\<close>

theorem pdcp_reordering_expires:
  assumes "rx_inv e" and "t_reordering_expired (e\<lparr>pe_t_current := now\<rparr>)"
    and "nr_pdcp_entity_set_time now e = (e', out)"
  shows "pe_rx_list e = out @ pe_rx_list e' \<and> pe_rx_reord e \<le> pe_rx_deliv e'
    \<and> (\<forall>s \<in> set (pe_rx_list e'). pe_rx_deliv e' < ps_count s) \<and> rx_inv e'
    \<and> (pe_rx_deliv e' < pe_rx_next e' \<longrightarrow> pe_rx_reord e' = pe_rx_next e' \<and> pe_t_reordering_start e' = now \<and> now \<noteq> 0)"
proof -
  let ?e = "e\<lparr>pe_t_current := now\<rparr>"
  have inv: "rx_inv ?e" using assms(1) rx_same_inv[of e ?e] by (simp add: rx_same_def)
  have r: "check_t_reordering ?e = (e', out)" using assms(3) by (simp add: nr_pdcp_entity_set_time_def)
  note x = check_t_reordering_expired[OF inv assms(2) r]
  have "now \<noteq> 0" using assms(2) by (auto simp: t_reordering_expired_def)
  moreover have "rx_inv e'" using x(1) by (simp add: rx_step_def)
  ultimately show ?thesis using x(2-4) rx_invD(3)[of e'] by (auto simp: counts_def)
qed

theorem pdcp_reordering_expires_witness:
  "rx_inv ex_gap \<and> t_reordering_expired (ex_gap\<lparr>pe_t_current := 200\<rparr>)
   \<and> map ps_count (snd (nr_pdcp_entity_set_time 200 ex_gap)) = [1]
   \<and> pe_rx_reord ex_gap \<le> pe_rx_deliv (fst (nr_pdcp_entity_set_time 200 ex_gap))
   \<and> rx_inv (fst (nr_pdcp_entity_set_time 200 ex_gap))"
proof -
  have inv: "rx_inv ex_gap" using pdcp_run_inv[OF ex_gap_run] by simp
  have ex: "t_reordering_expired (ex_gap\<lparr>pe_t_current := 200\<rparr>)" by code_simp
  have "map ps_count (snd (nr_pdcp_entity_set_time 200 ex_gap)) = [1]" by code_simp
  then show ?thesis using pdcp_reordering_expires[OF inv ex, of "fst (nr_pdcp_entity_set_time 200 ex_gap)"
    "snd (nr_pdcp_entity_set_time 200 ex_gap)"] inv ex by simp
qed

text \<open>
  The size of the reception buffer drifts. Every PDU with a MAC-I that is received in order
  and delivered at once leaves \<open>rx_size\<close> four bytes larger: what is added counts the MAC-I, what is
  subtracted does not.
\<close>

lemma pdcp_rx_size_drifts:
  assumes "can_send cx t sdu pb mx" and "paired t r" and "in_window r (pe_tx_next t)"
    and "pe_rx_deliv r = pe_tx_next t" and "pe_rx_list r = []" and "pe_has_integrity t"
  shows "\<exists>t' pdu r' out. nr_pdcp_entity_process_sdu cx t sdu pb mx = Inr (t', int (length pdu), pdu @ drop (length pdu) pb)
    \<and> nr_pdcp_entity_recv_pdu cx r pdu (int (length pdu)) = Inr (r', out)
    \<and> pe_rx_list r' = [] \<and> pe_rx_size r' = pe_rx_size r + 4"
proof -
  obtain t' pdu mi st where len: "length pdu = pdu_size t sdu"
    and snd: "nr_pdcp_entity_process_sdu cx t sdu pb mx = Inr (t', int (length pdu), pdu @ drop (length pdu) pb)"
    and rcv: "nr_pdcp_entity_recv_pdu cx r pdu (int (length pdu))
       = Inr (accept_sdu (int (length pdu)) (int (header_size_of t))
           \<lparr>ps_count = pe_tx_next t, ps_buffer = sdu, ps_integrity = mi\<rparr> (r\<lparr>pe_stats := st\<rparr>))"
    using link_accepts[OF assms(1-3)] assms(4,5) by auto
  let ?s = "\<lparr>ps_count = pe_tx_next t, ps_buffer = sdu, ps_integrity = mi\<rparr>"
  obtain r' out where a: "accept_sdu (int (length pdu)) (int (header_size_of t)) ?s (r\<lparr>pe_stats := st\<rparr>) = (r', out)" by force
  have "pe_rx_list r' = []" "pe_rx_size r' = pe_rx_size r + 4"
    using accept_sdu_alone[OF _ _ a] assms(4-6) len by (simp_all add: ps_size_def pdu_size_def integrity_size_cases)
  then show ?thesis using snd rcv a by auto
qed


end
