(* ===== verification/Keyed_List.thy ===== *)
theory Keyed_List
  imports RLC_Prelude
begin

text \<open>
  Lists that the program searches by key: the UEs of the PDCP manager, the SDAP entities. The loops are
  \<open>index_of\<close>; what they compute is said with \<open>List.find\<close>, which gives the list its meaning as a finite map
  from keys to elements. The locale \<open>keyed_store\<close> is the contract of such a table.
\<close>

text \<open>\<open>for (i = 0; i < count; i++) if (l[i]->key == k) break;\<close> and the value of \<open>i\<close> after it.\<close>

fun index_of :: "('e \<Rightarrow> 'k) \<Rightarrow> 'k \<Rightarrow> 'e list \<Rightarrow> nat" where
  "index_of key k [] = 0"
| "index_of key k (e # l) = (if key e = k then 0 else Suc (index_of key k l))"

abbreviation lookup :: "('e \<Rightarrow> 'k) \<Rightarrow> 'e list \<Rightarrow> 'k \<Rightarrow> 'e option" where
  "lookup key l k \<equiv> List.find (\<lambda>e. key e = k) l"

definition remove_nth :: "nat \<Rightarrow> 'e list \<Rightarrow> 'e list" where
  "remove_nth i l = take i l @ drop (Suc i) l"

named_theorems keyed_simps "searching, replacing and removing by key"

lemma index_of_le: "index_of key k l \<le> length l"
  by (induction l) auto

lemma index_of_found [keyed_simps]: "index_of key k l < length l \<longleftrightarrow> k \<in> key ` set l"
  by (induction l) auto

lemma index_of_key: "index_of key k l < length l \<Longrightarrow> key (l ! index_of key k l) = k"
  by (induction l) auto

lemma index_of_missing [keyed_simps]: "k \<notin> key ` set l \<Longrightarrow> index_of key k l = length l"
  by (induction l) auto

lemma index_of_map_key: "map key l = map key l' \<Longrightarrow> index_of key k l = index_of key k l'"
proof (induction l arbitrary: l')
  case (Cons e l)
  then obtain e' l'' where "l' = e' # l''" "key e' = key e" "map key l = map key l''" by (cases l') auto
  then show ?case using Cons.IH[of l''] by simp
qed simp

lemma lookup_index [keyed_simps]:
  "lookup key l k = (if index_of key k l < length l then Some (l ! index_of key k l) else None)"
  by (induction l) auto

lemma lookup_key: "lookup key l k = Some e \<Longrightarrow> key e = k"
  by (induction l) (auto split: if_splits)

lemma lookup_None: "lookup key l k = None \<longleftrightarrow> k \<notin> key ` set l"
  by (induction l) auto

lemma lookup_append: "lookup key (l @ l') k = (case lookup key l k of None \<Rightarrow> lookup key l' k | Some e \<Rightarrow> Some e)"
  by (induction l) auto

lemma index_of_snoc: "key e \<notin> key ` set l \<Longrightarrow> index_of key (key e) (l @ [e]) = length l"
  by (induction l) auto

text \<open>Storing an element back under its key.\<close>

lemma map_key_update: "index_of key (key e) l < length l \<Longrightarrow> map key (l[index_of key (key e) l := e]) = map key l"
  using index_of_key[of key "key e" l] by (metis list_update_id map_update nth_map)

lemma lookup_update:
  "index_of key (key e) l < length l \<Longrightarrow> lookup key (l[index_of key (key e) l := e]) = (lookup key l)(key e \<mapsto> e)"
  by (induction l) (auto simp: fun_eq_iff)

lemma lookup_snoc: "key e \<notin> key ` set l \<Longrightarrow> lookup key (l @ [e]) = (lookup key l)(key e \<mapsto> e)"
  by (induction l) (auto simp: fun_eq_iff)

lemma lookup_Cons_new: "key e \<notin> key ` set l \<Longrightarrow> lookup key (e # l) = (lookup key l)(key e \<mapsto> e)"
  by (auto simp: fun_eq_iff lookup_None)

lemma remove_nth_simps [simp]: "remove_nth 0 (e # l) = l" "remove_nth (Suc i) (e # l) = e # remove_nth i l" "remove_nth i [] = []"
  by (simp_all add: remove_nth_def)

lemma remove_nth_set: "set (remove_nth i l) \<subseteq> set l"
  by (auto simp: remove_nth_def dest: in_set_takeD in_set_dropD)

lemma remove_nth_distinct: "distinct (map key l) \<Longrightarrow> distinct (map key (remove_nth i l))"
proof (induction l arbitrary: i)
  case (Cons e l)
  then show ?case by (cases i) (use remove_nth_set in \<open>fastforce\<close>)+
qed simp

lemma lookup_remove:
  "distinct (map key l) \<Longrightarrow> lookup key (remove_nth (index_of key k l) l) = (lookup key l)(k := None)"
proof (induction l)
  case (Cons e l)
  then show ?case
    using lookup_None[where key = key and l = l and k = "key e"] by (auto simp: fun_eq_iff)
qed (simp add: fun_eq_iff)

lemma lookup_filter: "lookup key (filter (\<lambda>e. P (key e)) l) k = (if P k then lookup key l k else None)"
  by (induction l) auto

text \<open>Fallible steps: the result under a function, and taking a sequence of them apart.\<close>

definition map_res :: "('a \<Rightarrow> 'b) \<Rightarrow> 'a res \<Rightarrow> 'b res" where
  "map_res f r = bindE r (\<lambda>x. Inr (f x))"

lemma bindE_E: "bindE m f = Inr y \<Longrightarrow> (\<And>x. m = Inr x \<Longrightarrow> f x = Inr y \<Longrightarrow> P) \<Longrightarrow> P"
  by (auto simp: bindE_eq_Inr)

lemma bindE_pairE: "bindE m (\<lambda>(a, b). f a b) = Inr y \<Longrightarrow> (\<And>a b. m = Inr (a, b) \<Longrightarrow> f a b = Inr y \<Longrightarrow> P) \<Longrightarrow> P"
  by (auto simp: bindE_eq_Inr)

section \<open>The contract of a table\<close>

locale keyed_table =
  fixes key :: "'e \<Rightarrow> 'k" and inv :: "'s \<Rightarrow> bool" and get :: "'s \<Rightarrow> 'k \<Rightarrow> 'e option" and put :: "'e \<Rightarrow> 's \<Rightarrow> 's"
    and ok :: "'e \<Rightarrow> bool"
  assumes get_key: "inv s \<Longrightarrow> get s k = Some e \<Longrightarrow> key e = k"
    and get_ok: "inv s \<Longrightarrow> get s k = Some e \<Longrightarrow> ok e"
    and put_inv: "inv s \<Longrightarrow> ok e \<Longrightarrow> inv (put e s)"
    and get_put: "inv s \<Longrightarrow> ok e \<Longrightarrow> get (put e s) = (get s)(key e \<mapsto> e)"
begin

lemma put_other: "inv s \<Longrightarrow> ok e \<Longrightarrow> k \<noteq> key e \<Longrightarrow> get (put e s) k = get s k"
  by (simp add: get_put)

lemma put_same: "inv s \<Longrightarrow> ok e \<Longrightarrow> key e = k \<Longrightarrow> get (put e s) k = Some e"
  by (simp add: get_put)

lemma put_put: "inv s \<Longrightarrow> ok e \<Longrightarrow> ok e' \<Longrightarrow> key e = key e' \<Longrightarrow> get (put e' (put e s)) = get (put e' s)"
  by (simp add: get_put put_inv)

lemma put_commute:
  "inv s \<Longrightarrow> ok e \<Longrightarrow> ok e' \<Longrightarrow> key e \<noteq> key e' \<Longrightarrow> get (put e (put e' s)) = get (put e' (put e s))"
  by (simp add: get_put put_inv fun_upd_twist)

lemma put_back: "inv s \<Longrightarrow> get s k = Some e \<Longrightarrow> get (put e s) = get s"
  using get_key get_ok get_put by (metis fun_upd_triv)

end

text \<open>A table from which elements can be removed.\<close>

locale keyed_store = keyed_table +
  fixes del :: "'b \<Rightarrow> 'c \<Rightarrow> 'c"
  assumes del_inv: "inv s \<Longrightarrow> inv (del k s)"
    and get_del: "inv s \<Longrightarrow> get (del k s) = (get s)(k := None)"
begin

lemma del_put: "inv s \<Longrightarrow> ok e \<Longrightarrow> get (del (key e) (put e s)) = get (del (key e) s)"
  by (simp add: get_put get_del put_inv)

lemma del_other: "inv s \<Longrightarrow> k' \<noteq> k \<Longrightarrow> get (del k s) k' = get s k'"
  by (simp add: get_del)

end

section \<open>Lists are such tables\<close>

text \<open>
  A list without duplicate keys whose elements satisfy \<open>ok\<close>; replacing or appending, removing, and
  finding the position of an element that is created if it is not there.
\<close>

definition keyed_inv :: "('e \<Rightarrow> 'k) \<Rightarrow> ('e \<Rightarrow> bool) \<Rightarrow> 'e list \<Rightarrow> bool" where
  "keyed_inv key ok l \<longleftrightarrow> distinct (map key l) \<and> (\<forall>e \<in> set l. ok e)"

definition put_by :: "('e \<Rightarrow> 'k) \<Rightarrow> 'e \<Rightarrow> 'e list \<Rightarrow> 'e list" where
  "put_by key e l = (let i = index_of key (key e) l in if i < length l then l[i := e] else l @ [e])"

definition del_by :: "('e \<Rightarrow> 'k) \<Rightarrow> 'k \<Rightarrow> 'e list \<Rightarrow> 'e list" where
  "del_by key k l = (let i = index_of key k l in if i = length l then l else remove_nth i l)"

definition get_or_add :: "('e \<Rightarrow> 'k) \<Rightarrow> ('k \<Rightarrow> 'e) \<Rightarrow> 'k \<Rightarrow> 'e list \<Rightarrow> 'e list \<times> nat" where
  "get_or_add key new k l =
     (let i = index_of key k l in if i < length l then (l, i) else (l @ [new k], length l))"

lemma list_keyed_store: "keyed_store key (keyed_inv key ok) (lookup key) (put_by key) ok (del_by key)"
proof
  fix l k e
  assume inv: "keyed_inv key ok l"
  show "key e = k" if "lookup key l k = Some e" using that by (rule lookup_key)
  show "ok e" if "lookup key l k = Some e" using that inv by (auto simp: keyed_inv_def find_Some_iff)
  show "keyed_inv key ok (del_by key k l)"
    using inv remove_nth_distinct remove_nth_set by (fastforce simp: keyed_inv_def del_by_def Let_def)
  show "lookup key (del_by key k l) = (lookup key l)(k := None)"
  proof (cases "index_of key k l = length l")
    case True
    then have "lookup key l k = None" by (simp add: lookup_index)
    then show ?thesis using True by (auto simp: del_by_def fun_eq_iff)
  next
    case False
    then show ?thesis using inv lookup_remove[of key l k] by (simp add: del_by_def keyed_inv_def Let_def)
  qed
  assume e: "ok e"
  show "keyed_inv key ok (put_by key e l)"
    using inv e map_key_update[of key e l] set_update_subset_insert[of l "index_of key (key e) l" e]
    by (auto simp: put_by_def keyed_inv_def index_of_found Let_def)
  show "lookup key (put_by key e l) = (lookup key l)(key e \<mapsto> e)"
    using lookup_update[of key e l] lookup_snoc[of key e l] by (auto simp: put_by_def index_of_found Let_def)
qed

text \<open>The position that \<open>get_or_add\<close> returns is that of the key; writing there is \<open>put_by\<close>.\<close>

lemma get_or_add_result:
  assumes inv: "keyed_inv key ok l" and new: "key (new k) = k" "ok (new k)" and g: "get_or_add key new k l = (l', i)"
  shows "keyed_inv key ok l'" "i < length l'" "key (l' ! i) = k" "ok (l' ! i)"
    "k' \<noteq> k \<Longrightarrow> lookup key l' k' = lookup key l k'" "lookup key l' k = Some (l' ! i)"
    "key e = k \<Longrightarrow> l'[i := e] = put_by key e l'"
proof -
  have all: "keyed_inv key ok l' \<and> i < length l' \<and> key (l' ! i) = k
    \<and> (k' \<noteq> k \<longrightarrow> lookup key l' k' = lookup key l k') \<and> i = index_of key k l'"
  proof (cases "index_of key k l < length l")
    case True
    then show ?thesis using inv g index_of_key[OF True] by (auto simp: get_or_add_def)
  next
    case False
    then have r: "l' = l @ [new k]" "i = length l" using g by (auto simp: get_or_add_def)
    have "key (new k) \<notin> key ` set l" using False new(1) by (simp add: index_of_found)
    then show ?thesis using r inv new index_of_snoc[of key "new k" l]
      by (auto simp: keyed_inv_def lookup_append split: option.splits)
  qed
  then show "keyed_inv key ok l'" "i < length l'" "key (l' ! i) = k"
    "k' \<noteq> k \<Longrightarrow> lookup key l' k' = lookup key l k'" by auto
  show "ok (l' ! i)" using all by (auto simp: keyed_inv_def)
  show "lookup key l' k = Some (l' ! i)" using all by (simp add: lookup_index)
  show "l'[i := e] = put_by key e l'" if "key e = k" using all that by (simp add: put_by_def)
qed

lemma get_or_add_known: "lookup key l k = Some e \<Longrightarrow> \<exists>i. get_or_add key new k l = (l, i) \<and> i < length l \<and> l ! i = e"
  by (auto simp: get_or_add_def lookup_index split: if_splits)

text \<open>An element whose key changes.\<close>

lemma lookup_update_other:
  "i < length l \<Longrightarrow> key (l ! i) \<noteq> k \<Longrightarrow> key e \<noteq> k \<Longrightarrow> lookup key (l[i := e]) k = lookup key l k"
  by (induction l arbitrary: i) (auto split: nat.splits)

lemma rekey_inv:
  assumes inv: "keyed_inv key ok l" and i: "i < length l" and e: "ok e" and new: "key e = key (l ! i) \<or> key e \<notin> key ` set l"
  shows "keyed_inv key ok (l[i := e])"
proof -
  have d: "distinct (map key l)" and a: "\<forall>x \<in> set l. ok x" using inv by (simp_all add: keyed_inv_def)
  have "distinct ((map key l)[i := key e])"
  proof (cases "key e = key (l ! i)")
    case True
    then show ?thesis using d i by (metis list_update_id nth_map)
  next
    case False
    then show ?thesis using d i new by (intro distinct_list_update) auto
  qed
  moreover have "\<forall>x \<in> set (l[i := e]). ok x" using a e set_update_subset_insert[of l i e] by auto
  ultimately show ?thesis by (simp add: keyed_inv_def map_update)
qed

end
