(* ===== verification/SDAP_Entity.thy ===== *)
theory SDAP_Entity
  imports Keyed_List
begin

text \<open>
  SDAP: \<open>nr_sdap_entity.c\<close> and \<open>nr_sdap_entity.h\<close>. There is one entity per UE and PDU session, in a linked
  list with the newest first; an entity maps QoS flow identifiers (QFI) to radio bearers with a table of
  64 entries, adds and removes the one-byte SDAP header, and keeps the table by configuration and by
  reflective mapping.

  An operation returns, beside the new state, what it hands to other parts as events in order: an
  end-marker control PDU for PDCP, a write to the TUN socket, a packet for GTP-U, the removal of an IP
  interface. The header is a C bit field of one byte, with the first member in the low bits, as the
  compilers for the supported targets lay it out. An index outside a table is an error.
\<close>

section \<open>Data\<close>

record qfi2drb =
  qd_drb_id :: int
  qd_has_sdap_rx :: bool
  qd_has_sdap_tx :: bool

record sdap_entity =
  se_ue_id :: u64
  se_default_drb :: int
  se_is_gnb :: bool
  se_pdusession_id :: int
  se_pdusession_sock :: int
  se_stop_thread :: bool
  se_qfi :: int
  se_table :: "qfi2drb list"

text \<open>
  The fields of \<open>NR_SDAP_Config_t\<close> the code reads: whether the headers are present, and the two optional
  lists of QoS flows.
\<close>

record sdap_config =
  sc_pdu_Session :: int
  sc_HeaderDL_present :: bool
  sc_HeaderUL_present :: bool
  sc_defaultDRB :: bool
  sc_flows_to_add :: "int list option"
  sc_flows_to_release :: "int list option"

datatype sdap_event =
    Ctrl_Pdu u64 int byte
  | Tun_Write int buffer
  | Gtp_Send int u64 int buffer
  | Remove_Ip_If u64 int

definition is_sdap_rx :: "bool \<Rightarrow> sdap_config \<Rightarrow> bool" where
  "is_sdap_rx is_gnb c = (if is_gnb then sc_HeaderUL_present c else sc_HeaderDL_present c)"

definition is_sdap_tx :: "bool \<Rightarrow> sdap_config \<Rightarrow> bool" where
  "is_sdap_tx is_gnb c = (if is_gnb then sc_HeaderDL_present c else sc_HeaderUL_present c)"

text \<open>
  \<open>nr_sdap_dl_hdr_t\<close> and \<open>nr_sdap_ul_hdr_t\<close> as the byte they occupy: QFI in six bits, then RQI or R, then
  RDI or D/C. Assigning a QFI keeps its low six bits.
\<close>

definition sdap_hdr :: "byte \<Rightarrow> bool \<Rightarrow> bool \<Rightarrow> byte" where
  "sdap_hdr qfi b6 b7 = take_bit 6 qfi OR (if b6 then 64 else 0) OR (if b7 then 128 else 0)"

definition hdr_qfi :: "byte \<Rightarrow> byte" where
  "hdr_qfi h = take_bit 6 h"

section \<open>The mapping of QoS flows to bearers\<close>

definition table_get :: "sdap_entity \<Rightarrow> byte \<Rightarrow> qfi2drb res" where
  "table_get e qfi = (if unat qfi < length (se_table e) then Inr (se_table e ! unat qfi) else Inl Out_Of_Bounds)"

definition nr_sdap_qfi2drb_map_update :: "sdap_entity \<Rightarrow> byte \<Rightarrow> int \<Rightarrow> bool \<Rightarrow> bool \<Rightarrow> sdap_entity" where
  "nr_sdap_qfi2drb_map_update e qfi drb has_sdap_rx has_sdap_tx =
     (if unat qfi < 64 \<and> 0 < unat qfi \<and> 0 < drb \<and> drb \<le> 5
      then e\<lparr>se_table := (se_table e)[unat qfi :=
               \<lparr>qd_drb_id = drb, qd_has_sdap_rx = has_sdap_rx, qd_has_sdap_tx = has_sdap_tx\<rparr>]\<rparr>
      else e)"

definition set_rule :: "sdap_entity \<Rightarrow> byte \<Rightarrow> int \<Rightarrow> sdap_entity res" where
  "set_rule e qfi drb =
     bindE (table_get e qfi) (\<lambda>d. Inr (e\<lparr>se_table := (se_table e)[unat qfi := d\<lparr>qd_drb_id := drb\<rparr>]\<rparr>))"

definition nr_sdap_qfi2drb_map_del :: "sdap_entity \<Rightarrow> byte \<Rightarrow> sdap_entity res" where
  "nr_sdap_qfi2drb_map_del e qfi = set_rule e qfi 0"

definition nr_sdap_qfi2drb_map :: "sdap_entity \<Rightarrow> byte \<Rightarrow> (sdap_entity \<times> int) res" where
  "nr_sdap_qfi2drb_map e qfi =
     bindE (table_get e qfi) (\<lambda>d.
       if qd_drb_id d \<noteq> 0 then Inr (e, qd_drb_id d)
       else if se_default_drb e \<noteq> 0
       then Inr (nr_sdap_qfi2drb_map_update e qfi (se_default_drb e) (qd_has_sdap_rx d) (qd_has_sdap_tx d),
                 se_default_drb e)
       else Inr (e, 0))"

definition nr_sdap_construct_ctrl_pdu :: "byte \<Rightarrow> byte" where
  "nr_sdap_construct_ctrl_pdu qfi = sdap_hdr qfi False False"

text \<open>\<open>map_type\<close> is 0 for the default bearer and 1 for the bearer of the rule.\<close>

definition nr_sdap_map_ctrl_pdu :: "sdap_entity \<Rightarrow> int \<Rightarrow> byte \<Rightarrow> (sdap_entity \<times> int) res" where
  "nr_sdap_map_ctrl_pdu e map_type dl_qfi =
     (if map_type = 0 then Inr (e, se_default_drb e)
      else if map_type = 1 then nr_sdap_qfi2drb_map e dl_qfi
      else Inr (e, 0))"

definition nr_sdap_submit_ctrl_pdu :: "u64 \<Rightarrow> int \<Rightarrow> byte \<Rightarrow> sdap_event list" where
  "nr_sdap_submit_ctrl_pdu ue_id drb pdu = (if drb \<noteq> 0 then [Ctrl_Pdu ue_id drb pdu] else [])"

text \<open>The three calls that always follow each other: construct, map, submit.\<close>

definition end_marker :: "u64 \<Rightarrow> int \<Rightarrow> byte \<Rightarrow> sdap_entity \<Rightarrow> (sdap_entity \<times> sdap_event list) res" where
  "end_marker ue_id map_type qfi e =
     bindE (nr_sdap_map_ctrl_pdu e map_type qfi) (\<lambda>(e, drb).
       Inr (e, nr_sdap_submit_ctrl_pdu ue_id drb (nr_sdap_construct_ctrl_pdu qfi)))"

section \<open>Data transfer\<close>

text \<open>
  Transmission: None is a refused SDU, otherwise the bearer and the bytes given to
  \<open>nr_pdcp_data_req_drb\<close>. A NULL buffer stops the program.
\<close>

definition nr_sdap_tx_entity ::
    "sdap_entity \<Rightarrow> bool \<Rightarrow> int \<Rightarrow> buffer option \<Rightarrow> byte \<Rightarrow> bool \<Rightarrow> (sdap_entity \<times> (int \<times> buffer) option) res" where
  "nr_sdap_tx_entity e enb_flag rb_id sdu_buffer qfi rqi =
     (case sdu_buffer of
        None \<Rightarrow> Inl Exit_Failure
      | Some sdu \<Rightarrow>
          bindE (nr_sdap_qfi2drb_map e qfi) (\<lambda>(e, pdcp_entity).
          bindE (table_get e qfi) (\<lambda>d.
            let sdap_drb_id = (if pdcp_entity \<noteq> 0 then pdcp_entity else rb_id);
                pdcp_ent_has_sdap = (pdcp_entity \<noteq> 0 \<and> qd_has_sdap_tx d)
            in if \<not> pdcp_ent_has_sdap then Inr (e, Some (sdap_drb_id, sdu))
               else if length sdu = 0 \<or> 8999 < length sdu then Inr (e, None)
               else Inr (e, Some (sdap_drb_id,
                      (if enb_flag then sdap_hdr qfi rqi False else sdap_hdr qfi False rqi) # sdu)))))"

text \<open>Reflective mapping of a downlink PDU whose RDI bit is set.\<close>

definition reflective_mapping :: "int \<Rightarrow> u64 \<Rightarrow> byte \<Rightarrow> sdap_entity \<Rightarrow> (sdap_entity \<times> sdap_event list) res" where
  "reflective_mapping pdcp_entity ue_id qfi e =
     bindE (table_get e qfi) (\<lambda>d.
     bindE (if qd_drb_id d = 0 \<and> se_default_drb e \<noteq> 0 then end_marker ue_id 0 qfi e else Inr (e, [])) (\<lambda>(e, ev1).
     bindE (table_get e qfi) (\<lambda>d.
     bindE (if pdcp_entity \<noteq> qd_drb_id d then end_marker ue_id 1 qfi e else Inr (e, [])) (\<lambda>(e, ev2).
     bindE (set_rule e qfi pdcp_entity) (\<lambda>e. Inr (e, ev1 @ ev2))))))"

text \<open>
  Reception of an SDU from PDCP. \<open>n3_inst\<close> is the instance that the global pointer \<open>N3GTPUInst\<close> points
  to, None while it is NULL.
\<close>

definition nr_sdap_rx_entity ::
    "int option \<Rightarrow> int \<Rightarrow> bool \<Rightarrow> bool \<Rightarrow> int \<Rightarrow> u64 \<Rightarrow> buffer \<Rightarrow> sdap_entity \<Rightarrow> (sdap_entity \<times> sdap_event list) res" where
  "nr_sdap_rx_entity n3_inst pdcp_entity is_gnb has_sdap_rx pdusession_id ue_id buf e =
     (let offset = (if has_sdap_rx then 1 else 0 :: int) in
      bindE (mem_read buf 0 offset) (\<lambda>hdr.
      if is_gnb then
        (case n3_inst of
           None \<Rightarrow> Inl Null_Deref
         | Some inst \<Rightarrow> bindE (mem_read buf offset (int (length buf) - offset)) (\<lambda>gtp_buf.
             Inr (e, [Gtp_Send inst ue_id pdusession_id gtp_buf])))
      else
        bindE (if has_sdap_rx \<and> bit (hdr ! 0) 7 then reflective_mapping pdcp_entity ue_id (hdr_qfi (hdr ! 0)) e
               else Inr (e, [])) (\<lambda>(e, ev).
        bindE (mem_read buf offset (int (length buf) - offset)) (\<lambda>sdu.
          Inr (e, ev @ [Tun_Write (se_pdusession_sock e) sdu])))))"

section \<open>Configuration\<close>

text \<open>
  \<open>mapped_qfi_2_add[i]\<close>. The callers set the pointer to the first element of an ASN.1 list, whose elements
  are allocated one by one: only \<open>[0]\<close> is an element of it. \<open>NR_QFI_t\<close> is a \<open>long\<close>, \<open>qfi\<close> a \<open>uint8_t\<close>.
\<close>

definition qfi_at :: "int list \<Rightarrow> nat \<Rightarrow> byte res" where
  "qfi_at qfis i = (if i = 0 \<and> qfis \<noteq> [] then Inr (word_of_int (hd qfis)) else Inl Out_Of_Bounds)"

definition qfi_count :: "int list \<Rightarrow> nat" where
  "qfi_count qfis = length qfis mod 256"

definition ue_config_flow ::
    "u64 \<Rightarrow> int \<Rightarrow> bool \<Rightarrow> bool \<Rightarrow> byte \<Rightarrow> sdap_entity \<Rightarrow> (sdap_entity \<times> sdap_event list) res" where
  "ue_config_flow ue_id drb_identity has_sdap_rx has_sdap_tx qfi e =
     bindE (if se_default_drb e \<noteq> 0
            then bindE (table_get e qfi) (\<lambda>d. if qd_drb_id d = 0 then end_marker ue_id 0 qfi e else Inr (e, []))
            else Inr (e, [])) (\<lambda>(e, ev1).
     bindE (table_get e qfi) (\<lambda>d.
     bindE (if qd_drb_id d \<noteq> drb_identity \<and> qd_has_sdap_tx d then end_marker ue_id 1 qfi e else Inr (e, [])) (\<lambda>(e, ev2).
       Inr (nr_sdap_qfi2drb_map_update e qfi drb_identity has_sdap_rx has_sdap_tx, ev1 @ ev2))))"

fun ue_config_loop ::
    "u64 \<Rightarrow> int \<Rightarrow> bool \<Rightarrow> bool \<Rightarrow> int list \<Rightarrow> nat list \<Rightarrow> sdap_entity \<Rightarrow> (sdap_entity \<times> sdap_event list) res" where
  "ue_config_loop ue_id drb rx tx qfis [] e = Inr (e, [])"
| "ue_config_loop ue_id drb rx tx qfis (i # is) e =
     bindE (qfi_at qfis i) (\<lambda>qfi.
     bindE (ue_config_flow ue_id drb rx tx qfi e) (\<lambda>(e, ev).
     bindE (ue_config_loop ue_id drb rx tx qfis is e) (\<lambda>(e, ev'). Inr (e, ev @ ev'))))"

definition nr_sdap_ue_qfi2drb_config ::
    "sdap_entity \<Rightarrow> u64 \<Rightarrow> int list \<Rightarrow> int \<Rightarrow> bool \<Rightarrow> bool \<Rightarrow> (sdap_entity \<times> sdap_event list) res" where
  "nr_sdap_ue_qfi2drb_config e ue_id qfis drb_identity has_sdap_rx has_sdap_tx =
     ue_config_loop ue_id drb_identity has_sdap_rx has_sdap_tx qfis [0..<qfi_count qfis] e"

section \<open>The list of entities\<close>

text \<open>
  The search: it stops at a match or at the last entity, and the entity it stops at is then tested. The
  result is the position in the list.
\<close>

fun get_walk :: "u64 \<Rightarrow> int \<Rightarrow> sdap_entity list \<Rightarrow> nat" where
  "get_walk ue_id pdu (e # e' # l) =
     (if se_ue_id e \<noteq> ue_id \<or> se_pdusession_id e \<noteq> pdu then Suc (get_walk ue_id pdu (e' # l)) else 0)"
| "get_walk ue_id pdu l = 0"

definition nr_sdap_get_entity :: "u64 \<Rightarrow> int \<Rightarrow> sdap_entity list \<Rightarrow> nat option" where
  "nr_sdap_get_entity ue_id pdu l =
     (if l = [] then None
      else let i = get_walk ue_id pdu l
           in if se_ue_id (l ! i) = ue_id \<and> se_pdusession_id (l ! i) = pdu then Some i else None)"

text \<open>
  The TUN interface of the first UE in noS1 mode; \<open>default_pdu\<close> is the default PDU session of the
  configuration, \<open>fd\<close> what \<open>tun_alloc\<close> returns.
\<close>

definition start_sdap_tun_gnb :: "int \<Rightarrow> int \<Rightarrow> u64 \<Rightarrow> sdap_entity list \<Rightarrow> sdap_entity list res" where
  "start_sdap_tun_gnb default_pdu fd ue_id l =
     (case nr_sdap_get_entity ue_id default_pdu l of
        None \<Rightarrow> Inl Assert_Fatal
      | Some i \<Rightarrow> if \<not> se_is_gnb (l ! i) then Inl Assert_Fatal
                  else Inr (l[i := (l ! i)\<lparr>se_pdusession_sock := fd\<rparr>]))"

definition start_sdap_tun_ue :: "u64 \<Rightarrow> int \<Rightarrow> int \<Rightarrow> sdap_entity list \<Rightarrow> sdap_entity list res" where
  "start_sdap_tun_ue ue_id pdu sock l =
     (case nr_sdap_get_entity ue_id pdu l of
        None \<Rightarrow> Inl Assert_Fatal
      | Some i \<Rightarrow> if se_is_gnb (l ! i) then Inl Assert_Fatal
                  else Inr (l[i := (l ! i)\<lparr>se_pdusession_sock := sock, se_stop_thread := False\<rparr>]))"

definition empty_sdap_entity :: "bool \<Rightarrow> u64 \<Rightarrow> int \<Rightarrow> sdap_entity" where
  "empty_sdap_entity is_gnb ue_id pdu =
     \<lparr>se_ue_id = ue_id, se_default_drb = 0, se_is_gnb = is_gnb, se_pdusession_id = pdu, se_pdusession_sock = -1,
      se_stop_thread = False, se_qfi = 0,
      se_table = replicate 64 \<lparr>qd_drb_id = 0, qd_has_sdap_rx = False, qd_has_sdap_tx = False\<rparr>\<rparr>"

fun map_default_flows :: "bool \<Rightarrow> bool \<Rightarrow> int list \<Rightarrow> nat list \<Rightarrow> sdap_entity \<Rightarrow> sdap_entity res" where
  "map_default_flows rx tx qfis [] e = Inr e"
| "map_default_flows rx tx qfis (i # is) e =
     bindE (qfi_at qfis i) (\<lambda>qfi.
       map_default_flows rx tx qfis is (nr_sdap_qfi2drb_map_update e qfi (se_default_drb e) rx tx))"

text \<open>\<open>nos1\<close> is None outside noS1 mode and otherwise the default PDU session and the TUN descriptor.\<close>

definition new_nr_sdap_entity ::
    "(int \<times> int) option \<Rightarrow> bool \<Rightarrow> bool \<Rightarrow> bool \<Rightarrow> u64 \<Rightarrow> int \<Rightarrow> bool \<Rightarrow> int \<Rightarrow> int list \<Rightarrow> sdap_entity list \<Rightarrow>
     (sdap_entity list \<times> sdap_event list) res" where
  "new_nr_sdap_entity nos1 is_gnb has_sdap_rx has_sdap_tx ue_id pdu is_defaultDRB drb_identity qfis l =
     (case nr_sdap_get_entity ue_id pdu l of
        Some i \<Rightarrow>
          if is_gnb then Inr (l, [])
          else bindE (nr_sdap_ue_qfi2drb_config (l ! i) ue_id qfis drb_identity has_sdap_rx has_sdap_tx)
                 (\<lambda>(e, ev). Inr (l[i := e], ev))
      | None \<Rightarrow>
          let e = empty_sdap_entity is_gnb ue_id pdu in
          bindE (if is_defaultDRB
                 then map_default_flows has_sdap_rx has_sdap_tx qfis [0..<qfi_count qfis] (e\<lparr>se_default_drb := drb_identity\<rparr>)
                 else Inr e) (\<lambda>e.
            case nos1 of
              Some (default_pdu, fd) \<Rightarrow>
                if is_gnb then bindE (start_sdap_tun_gnb default_pdu fd ue_id (e # l)) (\<lambda>l. Inr (l, []))
                else Inr (e # l, [])
            | None \<Rightarrow> Inr (e # l, [])))"

definition release_rules :: "int \<Rightarrow> sdap_entity \<Rightarrow> sdap_entity" where
  "release_rules drb e = e\<lparr>se_table := map (\<lambda>d. if qd_drb_id d = drb then d\<lparr>qd_drb_id := 0\<rparr> else d) (se_table e)\<rparr>"

definition nr_sdap_release_drb :: "u64 \<Rightarrow> int \<Rightarrow> int \<Rightarrow> sdap_entity list \<Rightarrow> sdap_entity list" where
  "nr_sdap_release_drb ue_id drb pdu l =
     (case nr_sdap_get_entity ue_id pdu l of
        Some i \<Rightarrow> l[i := release_rules drb (l ! i)]
      | None \<Rightarrow> l)"

text \<open>\<open>MAX_DRBS_PER_UE * MAX_MOBILES_PER_ENB\<close>, without \<open>LARGE_SCALE\<close> and \<open>UE_EXPANSION\<close>.\<close>

definition SDAP_MAX_NUM_OF_ENTITIES :: nat where
  "SDAP_MAX_NUM_OF_ENTITIES = 32 * 40"

definition remove_ip_if :: "sdap_entity \<Rightarrow> sdap_event list" where
  "remove_ip_if e = (if se_pdusession_sock e \<noteq> -1 then [Remove_Ip_If (se_ue_id e) (se_pdusession_id e)] else [])"

fun delete_walk :: "nat \<Rightarrow> u64 \<Rightarrow> int \<Rightarrow> sdap_entity list \<Rightarrow> nat" where
  "delete_walk (Suc ub) ue_id pdu (e # e' # l) =
     (if se_ue_id e \<noteq> ue_id \<or> se_pdusession_id e \<noteq> pdu then Suc (delete_walk ub ue_id pdu (e' # l)) else 0)"
| "delete_walk ub ue_id pdu l = 0"

text \<open>
  With an empty list the function returns only for a session outside \<open>[0, 256]\<close>; otherwise it goes on
  with a NULL pointer. Removing the first entity and removing a later one are the same operation on the list.
\<close>

definition nr_sdap_delete_entity :: "u64 \<Rightarrow> int \<Rightarrow> sdap_entity list \<Rightarrow> (sdap_entity list \<times> sdap_event list \<times> bool) res" where
  "nr_sdap_delete_entity ue_id pdu l =
     (if l = [] then (if 0 < pdu * (pdu - 256) then Inr (l, [], False) else Inl Null_Deref)
      else let i = delete_walk SDAP_MAX_NUM_OF_ENTITIES ue_id pdu l
           in if se_ue_id (l ! i) = ue_id \<and> se_pdusession_id (l ! i) = pdu
              then Inr (remove_nth i l, remove_ip_if (l ! i), True)
              else Inr (l, [], False))"

text \<open>The two loops of \<open>nr_sdap_delete_ue_entities\<close>: matches at the head of the list, then the rest. \<open>upperBound\<close> stays 0.\<close>

fun delete_ue_head :: "u64 \<Rightarrow> sdap_entity list \<Rightarrow> sdap_entity list \<times> sdap_event list \<times> bool" where
  "delete_ue_head ue_id [] = ([], [], False)"
| "delete_ue_head ue_id (e # l) =
     (if se_ue_id e = ue_id then (let (l', ev, _) = delete_ue_head ue_id l in (l', remove_ip_if e @ ev, True))
      else (e # l, [], False))"

fun delete_ue_rest :: "u64 \<Rightarrow> sdap_entity list \<Rightarrow> sdap_entity list \<times> sdap_event list \<times> bool" where
  "delete_ue_rest ue_id [] = ([], [], False)"
| "delete_ue_rest ue_id (e # l) =
     (let (l', ev, ret) = delete_ue_rest ue_id l
      in if se_ue_id e \<noteq> ue_id then (e # l', ev, ret) else (l', remove_ip_if e @ ev, True))"

definition nr_sdap_delete_ue_entities :: "u64 \<Rightarrow> sdap_entity list \<Rightarrow> sdap_entity list \<times> sdap_event list \<times> bool" where
  "nr_sdap_delete_ue_entities ue_id l =
     (if l = [] \<and> 0 < ue_id * (ue_id - 65536) then (l, [], False)
      else let (l, ev, r) = delete_ue_head ue_id l; (l, ev', r') = delete_ue_rest ue_id l
           in (l, ev @ ev', r \<or> r'))"

fun release_flows :: "int list \<Rightarrow> nat list \<Rightarrow> sdap_entity \<Rightarrow> sdap_entity res" where
  "release_flows qfis [] e = Inr e"
| "release_flows qfis (i # is) e =
     bindE (qfi_at qfis i) (\<lambda>qfi. bindE (nr_sdap_qfi2drb_map_del e qfi) (release_flows qfis is))"

text \<open>The head of an optional ASN.1 list: \<open>(NR_QFI_t *)list.array[0]\<close>.\<close>

definition first_flow :: "int list option \<Rightarrow> int list res" where
  "first_flow fl = (case fl of None \<Rightarrow> Inl Null_Deref | Some [] \<Rightarrow> Inl Out_Of_Bounds | Some qfis \<Rightarrow> Inr qfis)"

definition nr_reconfigure_sdap_entity ::
    "sdap_config \<Rightarrow> u64 \<Rightarrow> int \<Rightarrow> int \<Rightarrow> sdap_entity list \<Rightarrow> (sdap_entity list \<times> sdap_event list) res" where
  "nr_reconfigure_sdap_entity c ue_id pdu drb_id l =
     (case nr_sdap_get_entity ue_id pdu l of
        None \<Rightarrow> Inr (l, [])
      | Some i \<Rightarrow>
          bindE (first_flow (sc_flows_to_add c)) (\<lambda>qfis.
          bindE (nr_sdap_ue_qfi2drb_config (l ! i) ue_id qfis (drb_id mod 256) (is_sdap_rx False c) (is_sdap_tx False c)) (\<lambda>(e, ev).
          bindE (case sc_flows_to_release c of
                   None \<Rightarrow> Inr e
                 | Some fl \<Rightarrow> bindE (first_flow (Some fl)) (\<lambda>qfis. release_flows qfis [0..<qfi_count qfis] e)) (\<lambda>e.
            Inr (l[i := e], ev)))))"

definition set_qfi :: "byte \<Rightarrow> byte \<Rightarrow> u64 \<Rightarrow> sdap_entity list \<Rightarrow> sdap_entity list res" where
  "set_qfi qfi pduid ue_id l =
     (case nr_sdap_get_entity ue_id (uint pduid) l of
        None \<Rightarrow> Inl Assert_Fatal
      | Some i \<Rightarrow> Inr (l[i := (l ! i)\<lparr>se_qfi := uint qfi\<rparr>]))"

section \<open>\<open>nr_sdap.c\<close>: the calls from above and below\<close>

definition sdap_data_req ::
    "u64 \<Rightarrow> bool \<Rightarrow> int \<Rightarrow> buffer option \<Rightarrow> byte \<Rightarrow> bool \<Rightarrow> int \<Rightarrow> sdap_entity list \<Rightarrow>
     (sdap_entity list \<times> (int \<times> buffer) option) res" where
  "sdap_data_req ue_id enb_flag rb_id sdu qfi rqi pdu l =
     (case nr_sdap_get_entity ue_id pdu l of
        None \<Rightarrow> Inr (l, None)
      | Some i \<Rightarrow> bindE (nr_sdap_tx_entity (l ! i) enb_flag rb_id sdu qfi rqi) (\<lambda>(e, r). Inr (l[i := e], r)))"

definition sdap_data_ind ::
    "int option \<Rightarrow> int \<Rightarrow> bool \<Rightarrow> bool \<Rightarrow> int \<Rightarrow> u64 \<Rightarrow> buffer \<Rightarrow> sdap_entity list \<Rightarrow>
     (sdap_entity list \<times> sdap_event list) res" where
  "sdap_data_ind n3_inst pdcp_entity is_gnb has_sdap_rx pdu ue_id buf l =
     (case nr_sdap_get_entity ue_id pdu l of
        None \<Rightarrow> Inr (l, [])
      | Some i \<Rightarrow> bindE (nr_sdap_rx_entity n3_inst pdcp_entity is_gnb has_sdap_rx pdu ue_id buf (l ! i))
                   (\<lambda>(e, ev). Inr (l[i := e], ev)))"

end
