(* ===== verification/SDAP_Props.thy ===== *)
theory SDAP_Props
  imports SDAP_Entity
begin

text \<open>
  SDAP proved: the linked list is a finite map from UE and PDU session to entities, every operation
  touches one entity only, a QoS flow goes to the bearer of its rule, and the fields of the header are read as
  they were written.
\<close>

section \<open>The list as a map\<close>

definition sdap_key :: "sdap_entity \<Rightarrow> u64 \<times> int" where
  "sdap_key e = (se_ue_id e, se_pdusession_id e)"

lemma sdap_key_iff: "sdap_key e = (ue, pdu) \<longleftrightarrow> se_ue_id e = ue \<and> se_pdusession_id e = pdu"
  by (simp add: sdap_key_def)

abbreviation sdap_map :: "sdap_entity list \<Rightarrow> u64 \<times> int \<Rightarrow> sdap_entity option" where
  "sdap_map l \<equiv> lookup sdap_key l"

definition sdap_ok :: "sdap_entity \<Rightarrow> bool" where
  "sdap_ok e \<longleftrightarrow> length (se_table e) = 64"

definition sdap_inv :: "sdap_entity list \<Rightarrow> bool" where
  "sdap_inv l \<longleftrightarrow> distinct (map sdap_key l) \<and> (\<forall>e \<in> set l. sdap_ok e)"

lemma get_walk_index: "get_walk ue pdu l = min (index_of sdap_key (ue, pdu) l) (length l - 1)"
  by (induction ue pdu l rule: get_walk.induct) (auto simp: sdap_key_iff)

lemma get_entity_index:
  "nr_sdap_get_entity ue pdu l =
     (if index_of sdap_key (ue, pdu) l < length l then Some (index_of sdap_key (ue, pdu) l) else None)"
proof (cases "index_of sdap_key (ue, pdu) l < length l")
  case True
  then have "get_walk ue pdu l = index_of sdap_key (ue, pdu) l" by (simp add: get_walk_index)
  with True show ?thesis
    using index_of_key[OF True] by (auto simp: nr_sdap_get_entity_def Let_def sdap_key_iff)
next
  case False
  then have "(ue, pdu) \<notin> sdap_key ` set l" by (simp add: index_of_found)
  then have "sdap_key (l ! i) \<noteq> (ue, pdu)" if "i < length l" for i using that by (metis image_eqI nth_mem)
  moreover have "get_walk ue pdu l < length l" if "l \<noteq> []" using that by (cases l) (auto simp: get_walk_index min_def)
  ultimately show ?thesis using False by (auto simp: nr_sdap_get_entity_def Let_def sdap_key_iff)
qed

lemma get_entity_map: "map_option (\<lambda>i. l ! i) (nr_sdap_get_entity ue pdu l) = sdap_map l (ue, pdu)"
  by (simp add: get_entity_index lookup_index)

lemma get_entity_Some:
  assumes "nr_sdap_get_entity ue pdu l = Some i"
  shows "i < length l" "sdap_key (l ! i) = (ue, pdu)" "i = index_of sdap_key (ue, pdu) l" "sdap_map l (ue, pdu) = Some (l ! i)"
  using assms index_of_key[of sdap_key "(ue, pdu)" l] by (auto simp: get_entity_index lookup_index split: if_splits)

lemma get_entity_None: "nr_sdap_get_entity ue pdu l = None \<longleftrightarrow> (ue, pdu) \<notin> sdap_key ` set l"
  by (simp add: get_entity_index index_of_found)

text \<open>Storing an entity: over the one with its key, or in front of the list.\<close>

definition sdap_put :: "sdap_entity \<Rightarrow> sdap_entity list \<Rightarrow> sdap_entity list" where
  "sdap_put e l = (case nr_sdap_get_entity (se_ue_id e) (se_pdusession_id e) l of Some i \<Rightarrow> l[i := e] | None \<Rightarrow> e # l)"

lemma sdap_put_index:
  "sdap_put e l =
     (if index_of sdap_key (sdap_key e) l < length l then l[index_of sdap_key (sdap_key e) l := e] else e # l)"
  by (simp add: sdap_put_def get_entity_index sdap_key_def)

interpretation sdap: keyed_table sdap_key sdap_inv "lookup sdap_key" sdap_put sdap_ok
proof
  fix l k e
  assume inv: "sdap_inv l"
  show "sdap_key e = k" if "sdap_map l k = Some e" using that by (rule lookup_key)
  show "sdap_ok e" if "sdap_map l k = Some e"
    using that inv by (auto simp: sdap_inv_def find_Some_iff)
  assume ok: "sdap_ok e"
  show "sdap_inv (sdap_put e l)"
    using inv ok map_key_update[of sdap_key e l] set_update_subset_insert[of l "index_of sdap_key (sdap_key e) l" e]
    by (auto simp: sdap_put_index sdap_inv_def index_of_found)
  show "sdap_map (sdap_put e l) = (sdap_map l)(sdap_key e \<mapsto> e)"
    using lookup_update[of sdap_key e l] lookup_Cons_new[of sdap_key e l] by (auto simp: sdap_put_index index_of_found)
qed

lemma put_at: "nr_sdap_get_entity ue pdu l = Some i \<Longrightarrow> sdap_key e = (ue, pdu) \<Longrightarrow> l[i := e] = sdap_put e l"
  by (simp add: sdap_put_def sdap_key_iff)

lemma put_new: "nr_sdap_get_entity ue pdu l = None \<Longrightarrow> sdap_key e = (ue, pdu) \<Longrightarrow> e # l = sdap_put e l"
  by (simp add: sdap_put_def sdap_key_iff)

lemma nth_ok: "sdap_inv l \<Longrightarrow> nr_sdap_get_entity ue pdu l = Some i \<Longrightarrow> sdap_ok (l ! i)"
  using get_entity_Some(1) by (auto simp: sdap_inv_def)

section \<open>What an operation changes of an entity\<close>

text \<open>Only rules of the table: identity, default bearer, socket and the size of the table stay.\<close>

definition sdap_same :: "sdap_entity \<Rightarrow> sdap_entity \<Rightarrow> bool" where
  "sdap_same e e' \<longleftrightarrow> (\<exists>t. e' = e\<lparr>se_table := t\<rparr> \<and> length t = length (se_table e))"

lemma sdap_same_refl [simp]: "sdap_same e e"
  unfolding sdap_same_def by (rule exI[of _ "se_table e"]) simp

lemma sdap_same_trans: "sdap_same e e' \<Longrightarrow> sdap_same e' e'' \<Longrightarrow> sdap_same e e''"
  by (auto simp: sdap_same_def)

lemma sdap_same_sel:
  "sdap_same e e' \<Longrightarrow> sdap_key e' = sdap_key e \<and> se_default_drb e' = se_default_drb e \<and>
     se_pdusession_sock e' = se_pdusession_sock e \<and> sdap_ok e' = sdap_ok e \<and> se_is_gnb e' = se_is_gnb e"
  by (auto simp: sdap_same_def sdap_ok_def sdap_key_def)

lemma sdap_same_table [simp]: "length t = length (se_table e) \<Longrightarrow> sdap_same e (e\<lparr>se_table := t\<rparr>)"
  by (auto simp: sdap_same_def)

lemma map_update_same [simp]: "sdap_same e (nr_sdap_qfi2drb_map_update e q d rx tx)"
  by (simp add: nr_sdap_qfi2drb_map_update_def)

lemma set_rule_same: "set_rule e q d = Inr e' \<Longrightarrow> sdap_same e e'"
  by (auto simp: set_rule_def bindE_eq_Inr)

lemma qfi2drb_map_same: "nr_sdap_qfi2drb_map e q = Inr (e', d) \<Longrightarrow> sdap_same e e'"
  by (auto simp: nr_sdap_qfi2drb_map_def bindE_eq_Inr split: if_splits)

lemma end_marker_same: "end_marker ue ty q e = Inr (e', ev) \<Longrightarrow> sdap_same e e'"
  by (auto simp: end_marker_def nr_sdap_map_ctrl_pdu_def bindE_eq_Inr split: if_splits dest: qfi2drb_map_same)

lemma end_marker_if_same: "(if b then end_marker ue ty q e else Inr (e, [])) = Inr (e', ev) \<Longrightarrow> sdap_same e e'"
  by (auto split: if_splits dest: end_marker_same)

lemma tx_entity_same: "nr_sdap_tx_entity e g rb sdu q r = Inr (e', out) \<Longrightarrow> sdap_same e e'"
  by (auto simp: nr_sdap_tx_entity_def bindE_eq_Inr Let_def split: option.splits if_splits dest: qfi2drb_map_same)

lemma reflective_mapping_same: "reflective_mapping p ue q e = Inr (e', ev) \<Longrightarrow> sdap_same e e'"
proof -
  assume "reflective_mapping p ue q e = Inr (e', ev)"
  then obtain b1 b2 e1 ev1 e2 ev2 where "(if b1 then end_marker ue 0 q e else Inr (e, [])) = Inr (e1, ev1)"
      "(if b2 then end_marker ue 1 q e1 else Inr (e1, [])) = Inr (e2, ev2)" "set_rule e2 q p = Inr e'"
    unfolding reflective_mapping_def by (elim bindE_pairE bindE_E) blast
  from this(1,2)[THEN end_marker_if_same] this(3)[THEN set_rule_same] show ?thesis by (meson sdap_same_trans)
qed

lemma rx_entity_same: "nr_sdap_rx_entity n3 p g has pdu ue buf e = Inr (e', ev) \<Longrightarrow> sdap_same e e'"
  by (auto simp: nr_sdap_rx_entity_def bindE_eq_Inr Let_def split: option.splits if_splits dest: reflective_mapping_same)

lemma ue_config_flow_same: "ue_config_flow ue d rx tx q e = Inr (e', ev) \<Longrightarrow> sdap_same e e'"
proof -
  assume "ue_config_flow ue d rx tx q e = Inr (e', ev)"
  then obtain b2 e1 ev1 e2 ev2 where "(if se_default_drb e \<noteq> 0
        then bindE (table_get e q) (\<lambda>d. if qd_drb_id d = 0 then end_marker ue 0 q e else Inr (e, [])) else Inr (e, [])) = Inr (e1, ev1)"
      and 2: "(if b2 then end_marker ue 1 q e1 else Inr (e1, [])) = Inr (e2, ev2)"
      and 3: "e' = nr_sdap_qfi2drb_map_update e2 q d rx tx"
    unfolding ue_config_flow_def by (elim bindE_pairE bindE_E) auto
  then have "sdap_same e e1" by (auto simp: bindE_eq_Inr split: if_splits dest: end_marker_same)
  with end_marker_if_same[OF 2] 3 show ?thesis by (metis map_update_same sdap_same_trans)
qed

lemma ue_config_loop_same: "ue_config_loop ue d rx tx qs is e = Inr (e', ev) \<Longrightarrow> sdap_same e e'"
proof (induction "is" arbitrary: e e' ev)
  case (Cons i "is")
  from Cons.prems obtain q e1 ev1 ev2 where "ue_config_flow ue d rx tx q e = Inr (e1, ev1)"
      "ue_config_loop ue d rx tx qs is e1 = Inr (e', ev2)"
    by (auto simp: bindE_eq_Inr)
  then show ?case using Cons.IH ue_config_flow_same sdap_same_trans by blast
qed simp

lemma ue_config_same: "nr_sdap_ue_qfi2drb_config e ue qs d rx tx = Inr (e', ev) \<Longrightarrow> sdap_same e e'"
  unfolding nr_sdap_ue_qfi2drb_config_def by (rule ue_config_loop_same)

lemma map_default_flows_same: "map_default_flows rx tx qs is e = Inr e' \<Longrightarrow> sdap_same e e'"
proof (induction "is" arbitrary: e)
  case (Cons i "is")
  then obtain q where "map_default_flows rx tx qs is (nr_sdap_qfi2drb_map_update e q (se_default_drb e) rx tx) = Inr e'"
    by (auto simp: bindE_eq_Inr)
  then show ?case using Cons.IH map_update_same sdap_same_trans by blast
qed simp

lemma release_flows_same: "release_flows qs is e = Inr e' \<Longrightarrow> sdap_same e e'"
proof (induction "is" arbitrary: e)
  case (Cons i "is")
  then obtain q e1 where "set_rule e q 0 = Inr e1" "release_flows qs is e1 = Inr e'"
    by (auto simp: bindE_eq_Inr nr_sdap_qfi2drb_map_del_def)
  then show ?case using Cons.IH set_rule_same sdap_same_trans by blast
qed simp

section \<open>What an operation changes of the list\<close>

text \<open>The new list is the old one with one entity of the session stored.\<close>

definition one_put :: "u64 \<times> int \<Rightarrow> sdap_entity list \<Rightarrow> sdap_entity list \<Rightarrow> bool" where
  "one_put k l l' \<longleftrightarrow> (\<exists>e. sdap_key e = k \<and> sdap_ok e \<and> l' = sdap_put e l)"

lemma one_putD:
  assumes "sdap_inv l" and "one_put k l l'"
  shows "sdap_inv l'" and "\<exists>e. sdap_map l' = (sdap_map l)(k \<mapsto> e)"
  using assms sdap.put_inv sdap.get_put by (auto simp: one_put_def)

lemma one_put_update:
  assumes "sdap_inv l" and "nr_sdap_get_entity ue pdu l = Some i" and "sdap_same (l ! i) e"
  shows "one_put (ue, pdu) l (l[i := e])"
  using assms put_at[OF assms(2)] sdap_same_sel[OF assms(3)] get_entity_Some[OF assms(2)] nth_ok[OF assms(1,2)]
  by (auto simp: one_put_def)

lemma one_put_self: "sdap_inv l \<Longrightarrow> nr_sdap_get_entity ue pdu l = Some i \<Longrightarrow> one_put (ue, pdu) l l"
  using one_put_update[of l ue pdu i "l ! i"] by simp

lemma new_entity_one_put:
  assumes inv: "sdap_inv l" and r: "new_nr_sdap_entity None g rx tx ue pdu df drb qs l = Inr (l', ev)"
  shows "one_put (ue, pdu) l l'"
proof (cases "nr_sdap_get_entity ue pdu l")
  case (Some i)
  then show ?thesis
    using r inv one_put_update[OF inv Some] one_put_self[OF inv Some]
    by (auto simp: new_nr_sdap_entity_def bindE_eq_Inr split: if_splits dest: ue_config_same)
next
  case None
  then obtain e where e: "l' = e # l"
      "(if df then map_default_flows rx tx qs [0..<qfi_count qs] (empty_sdap_entity g ue pdu\<lparr>se_default_drb := drb\<rparr>)
        else Inr (empty_sdap_entity g ue pdu)) = Inr e"
    using r by (auto simp: new_nr_sdap_entity_def bindE_eq_Inr Let_def)
  then have "sdap_key e = (ue, pdu) \<and> sdap_ok e"
    by (auto simp: empty_sdap_entity_def sdap_ok_def sdap_key_def split: if_splits dest!: map_default_flows_same sdap_same_sel)
  then show ?thesis using put_new[OF None] e(1) by (auto simp: one_put_def)
qed

lemma delete_walk_index:
  "length l \<le> Suc ub \<Longrightarrow> delete_walk ub ue pdu l = min (index_of sdap_key (ue, pdu) l) (length l - 1)"
  by (induction ub ue pdu l rule: delete_walk.induct) (auto simp: sdap_key_iff)

lemma delete_entity_remove:
  assumes "l \<noteq> []" and "length l \<le> Suc SDAP_MAX_NUM_OF_ENTITIES"
  shows "\<exists>ev. nr_sdap_delete_entity ue pdu l =
    Inr (remove_nth (index_of sdap_key (ue, pdu) l) l, ev, (ue, pdu) \<in> sdap_key ` set l)"
proof (cases "index_of sdap_key (ue, pdu) l < length l")
  case True
  then have "index_of sdap_key (ue, pdu) l \<le> length l - 1" by simp
  with True show ?thesis
    using index_of_key[OF True] assms
    by (simp add: nr_sdap_delete_entity_def Let_def delete_walk_index index_of_found[symmetric] min_def sdap_key_iff)
next
  case False
  then have n: "(ue, pdu) \<notin> sdap_key ` set l" by (simp add: index_of_found)
  then have "sdap_key (l ! i) \<noteq> (ue, pdu)" if "i < length l" for i using that by (metis image_eqI nth_mem)
  moreover have "delete_walk SDAP_MAX_NUM_OF_ENTITIES ue pdu l < length l"
    using assms by (cases l) (auto simp: delete_walk_index min_def)
  ultimately show ?thesis
    using n assms by (simp add: nr_sdap_delete_entity_def Let_def index_of_missing remove_nth_def sdap_key_iff)
qed

lemma delete_ue_head_eq: "delete_ue_head ue l = (l', ev, r) \<Longrightarrow> l' = dropWhile (\<lambda>e. se_ue_id e = ue) l \<and> (r \<longleftrightarrow> l' \<noteq> l)"
proof (induction l arbitrary: l' ev r)
  case (Cons e l)
  have "length (dropWhile P xs) \<le> length xs" for P and xs :: "sdap_entity list" by (induction xs) auto
  then have "dropWhile (\<lambda>e. se_ue_id e = ue) l \<noteq> e # l" by (metis impossible_Cons)
  then show ?case using Cons by (auto split: if_splits prod.splits)
qed simp

lemma delete_ue_rest_eq:
  "delete_ue_rest ue l = (l', ev, r) \<Longrightarrow> l' = filter (\<lambda>e. se_ue_id e \<noteq> ue) l \<and> (r \<longleftrightarrow> (\<exists>e \<in> set l. se_ue_id e = ue))"
  by (induction l arbitrary: l' ev r) (auto split: if_splits prod.splits)

lemma filter_dropWhile: "filter (\<lambda>e. \<not> P e) (dropWhile P l) = filter (\<lambda>e. \<not> P e) l"
  by (induction l) auto

lemma dropWhile_ex: "dropWhile P l \<noteq> l \<or> (\<exists>e \<in> set (dropWhile P l). P e) \<longleftrightarrow> (\<exists>e \<in> set l. P e)"
proof (cases l)
  case (Cons e l')
  have "length (dropWhile P xs) \<le> length xs" for xs by (induction xs) auto
  then have "dropWhile P l' \<noteq> e # l'" by (metis impossible_Cons)
  then show ?thesis using Cons by (auto dest: set_dropWhileD)
qed simp

lemma delete_ue_entities_filter:
  "\<exists>ev. nr_sdap_delete_ue_entities ue l =
     (filter (\<lambda>e. se_ue_id e \<noteq> ue) l, ev, \<exists>e \<in> set l. se_ue_id e = ue)"
proof -
  obtain l1 ev1 r1 where 1: "delete_ue_head ue l = (l1, ev1, r1)" by (cases "delete_ue_head ue l")
  obtain l2 ev2 r2 where 2: "delete_ue_rest ue l1 = (l2, ev2, r2)" by (cases "delete_ue_rest ue l1")
  note h = delete_ue_head_eq[OF 1] delete_ue_rest_eq[OF 2]
  have "l2 = filter (\<lambda>e. se_ue_id e \<noteq> ue) l" using h filter_dropWhile[of "\<lambda>e. se_ue_id e = ue" l] by simp
  moreover have "r1 \<or> r2 \<longleftrightarrow> (\<exists>e \<in> set l. se_ue_id e = ue)" using h dropWhile_ex[of "\<lambda>e. se_ue_id e = ue" l] by simp
  ultimately show ?thesis using 1 2 by (auto simp: nr_sdap_delete_ue_entities_def)
qed

section \<open>The header\<close>

lemma sdap_hdr_fields:
  "hdr_qfi (sdap_hdr q b6 b7) = take_bit 6 q" "bit (sdap_hdr q b6 b7) 6 = b6" "bit (sdap_hdr q b6 b7) 7 = b7"
proof -
  have b64: "bit (64 :: byte) n \<longleftrightarrow> n = 6" for n using bit_exp_iff[of 6 n, where ?'a = byte] by auto
  have b128: "bit (128 :: byte) n \<longleftrightarrow> n = 7" for n using bit_exp_iff[of 7 n, where ?'a = byte] by auto
  show "hdr_qfi (sdap_hdr q b6 b7) = take_bit 6 q"
    by (simp add: hdr_qfi_def sdap_hdr_def take_bit_or)
  show "bit (sdap_hdr q b6 b7) 6 = b6" "bit (sdap_hdr q b6 b7) 7 = b7"
    by (auto simp: sdap_hdr_def bit_simps b64 b128)
qed

lemma take_bit_small: "unat q < 64 \<Longrightarrow> take_bit 6 q = (q :: byte)"
  by (simp add: word_unat_eq_iff unsigned_take_bit_eq take_bit_nat_eq_self)

lemma unat_take_bit_6: "unat (take_bit 6 q :: byte) < 64"
  using take_bit_nat_less_exp[of 6 "unat q"] by (simp only: unsigned_take_bit_eq) simp

section \<open>The bearer of a flow\<close>

text \<open>The bearer an entity uses for a QoS flow: that of its rule, else the default bearer, else 0.\<close>

definition flow_drb :: "sdap_entity \<Rightarrow> byte \<Rightarrow> int" where
  "flow_drb e q = (let d = qd_drb_id (se_table e ! unat q) in if d \<noteq> 0 then d else se_default_drb e)"

lemma table_get_ok: "sdap_ok e \<Longrightarrow> unat q < 64 \<Longrightarrow> table_get e q = Inr (se_table e ! unat q)"
  by (simp add: table_get_def sdap_ok_def)

lemma table_get_out: "sdap_ok e \<Longrightarrow> 64 \<le> unat q \<Longrightarrow> table_get e q = Inl Out_Of_Bounds"
  by (simp add: table_get_def sdap_ok_def)

lemma qfi2drb_map_ok:
  assumes "sdap_ok e" and "unat q < 64"
  shows "\<exists>e'. nr_sdap_qfi2drb_map e q = Inr (e', flow_drb e q) \<and> sdap_same e e'
    \<and> qd_has_sdap_tx (se_table e' ! unat q) = qd_has_sdap_tx (se_table e ! unat q)"
proof -
  have "qd_has_sdap_tx (se_table (nr_sdap_qfi2drb_map_update e q d rx (qd_has_sdap_tx (se_table e ! unat q))) ! unat q) =
      qd_has_sdap_tx (se_table e ! unat q)" for d rx
    using assms by (simp add: nr_sdap_qfi2drb_map_update_def sdap_ok_def)
  then show ?thesis using assms by (simp add: nr_sdap_qfi2drb_map_def table_get_ok flow_drb_def Let_def)
qed

lemma tx_entity_result:
  assumes ok: "sdap_ok e" and q: "unat q < 64"
  shows "\<exists>e'. sdap_same e e' \<and> nr_sdap_tx_entity e enb rb (Some sdu) q rqi =
    Inr (e', if flow_drb e q = 0 \<or> \<not> qd_has_sdap_tx (se_table e ! unat q)
             then Some (if flow_drb e q = 0 then rb else flow_drb e q, sdu)
             else if length sdu = 0 \<or> 8999 < length sdu then None
             else Some (flow_drb e q, (if enb then sdap_hdr q rqi False else sdap_hdr q False rqi) # sdu))"
proof -
  obtain e' where e': "nr_sdap_qfi2drb_map e q = Inr (e', flow_drb e q)" "sdap_same e e'"
      "qd_has_sdap_tx (se_table e' ! unat q) = qd_has_sdap_tx (se_table e ! unat q)"
    using qfi2drb_map_ok[OF assms] by blast
  have "table_get e' q = Inr (se_table e' ! unat q)"
    using e'(2) ok q by (simp add: table_get_ok sdap_same_sel)
  then show ?thesis using e' by (auto simp: nr_sdap_tx_entity_def Let_def)
qed

text \<open>A flow that configuration has mapped to a bearer with a header.\<close>

lemma config_flow_drb:
  assumes "sdap_ok e" and "0 < unat q" "unat q < 64" and "0 < drb" "drb \<le> 5"
  shows "\<exists>e' ev. ue_config_flow ue drb rx tx q e = Inr (e', ev) \<and> sdap_same e e' \<and> flow_drb e' q = drb
    \<and> qd_has_sdap_tx (se_table e' ! unat q) = tx"
proof -
  have em: "\<exists>e' ev. end_marker ue ty q x = Inr (e', ev) \<and> sdap_same x e'" if "sdap_ok x" for x ty
    using qfi2drb_map_ok[OF that assms(3)] by (auto simp: end_marker_def nr_sdap_map_ctrl_pdu_def)
  let ?m = "if se_default_drb e \<noteq> 0
        then bindE (table_get e q) (\<lambda>d. if qd_drb_id d = 0 then end_marker ue 0 q e else Inr (e, [])) else Inr (e, [])"
  have "\<exists>e1 ev1. ?m = Inr (e1, ev1) \<and> sdap_same e e1"
  proof (cases "se_default_drb e \<noteq> 0 \<and> qd_drb_id (se_table e ! unat q) = 0")
    case True
    then show ?thesis using em[OF assms(1), of 0] table_get_ok[OF assms(1,3)] by simp
  next
    case False
    then have "?m = Inr (e, [])" using table_get_ok[OF assms(1,3)] by auto
    then show ?thesis by simp
  qed
  then obtain e1 ev1 where 1: "?m = Inr (e1, ev1)" "sdap_same e e1" by blast
  have ok1: "sdap_ok e1" using 1(2) assms(1) by (simp add: sdap_same_sel)
  obtain e2 ev2 where 2: "(if qd_drb_id (se_table e1 ! unat q) \<noteq> drb \<and> qd_has_sdap_tx (se_table e1 ! unat q)
        then end_marker ue 1 q e1 else Inr (e1, [])) = Inr (e2, ev2)" "sdap_same e1 e2"
    using em[OF ok1, of 1]
    by (cases "qd_drb_id (se_table e1 ! unat q) \<noteq> drb \<and> qd_has_sdap_tx (se_table e1 ! unat q)") auto
  have ok2: "sdap_ok e2" using 2(2) ok1 by (simp add: sdap_same_sel)
  have "ue_config_flow ue drb rx tx q e = Inr (nr_sdap_qfi2drb_map_update e2 q drb rx tx, ev1 @ ev2)"
    unfolding ue_config_flow_def using 1(1) 2(1) table_get_ok[OF ok1 assms(3)] by simp
  moreover have "flow_drb (nr_sdap_qfi2drb_map_update e2 q drb rx tx) q = drb"
    "qd_has_sdap_tx (se_table (nr_sdap_qfi2drb_map_update e2 q drb rx tx) ! unat q) = tx"
    using assms ok2 by (simp_all add: flow_drb_def nr_sdap_qfi2drb_map_update_def sdap_ok_def)
  ultimately show ?thesis using 1(2) 2(2) by (metis map_update_same sdap_same_trans)
qed

section \<open>Properties\<close>



text \<open>
  Deleting an entity when there is none: for every session identifier of the documented range
  \<open>[0, 256]\<close> the guard lets the NULL list through and the next line dereferences it.
\<close>

lemma sdap_delete_from_empty: "0 \<le> pdu \<Longrightarrow> pdu \<le> 256 \<Longrightarrow> nr_sdap_delete_entity ue pdu [] = Inl Null_Deref"
proof -
  assume "0 \<le> pdu" "pdu \<le> 256"
  then have "pdu * (pdu - 256) \<le> 0" by (simp add: mult_nonneg_nonpos)
  then show ?thesis by (simp add: nr_sdap_delete_entity_def)
qed

text \<open>Two QoS flows for one bearer: the second is read behind the first element of the ASN.1 list.\<close>

lemma sdap_second_flow_out_of_bounds:
  "nr_sdap_get_entity ue pdu l = None \<Longrightarrow>
   new_nr_sdap_entity nos1 g rx tx ue pdu True drb [q1, q2] l = Inl Out_Of_Bounds"
  by (simp add: new_nr_sdap_entity_def qfi_count_def qfi_at_def Let_def upt_rec)

text \<open>Reflective mapping of a flow without a rule sends the end marker twice on the default bearer.\<close>

lemma sdap_end_marker_twice:
  assumes "sdap_ok e" and "unat q < 64" and "qd_drb_id (se_table e ! unat q) = 0" and "se_default_drb e \<noteq> 0" and "p \<noteq> 0"
  shows "\<exists>e'. reflective_mapping p ue q e =
    Inr (e', [Ctrl_Pdu ue (se_default_drb e) (sdap_hdr q False False), Ctrl_Pdu ue (se_default_drb e) (sdap_hdr q False False)])"
proof -
  obtain e1 where 1: "nr_sdap_qfi2drb_map e q = Inr (e1, se_default_drb e)" "sdap_same e e1"
    using qfi2drb_map_ok[OF assms(1,2)] assms(3) by (auto simp: flow_drb_def Let_def)
  have "table_get e1 q = Inr (se_table e1 ! unat q)" using 1(2) assms(1,2) by (simp add: table_get_ok sdap_same_sel)
  then show ?thesis using assms 1
    by (simp add: reflective_mapping_def table_get_ok end_marker_def nr_sdap_map_ctrl_pdu_def set_rule_def
        nr_sdap_submit_ctrl_pdu_def nr_sdap_construct_ctrl_pdu_def)
qed

end
