(* ===== verification/Data_Queue.thy ===== *)
theory Data_Queue
  imports RLC_Prelude
begin

text \<open>
  The two work queues of \<open>nr_pdcp_oai_api.c\<close>: \<open>rlc_data_req_queue\<close> (PDUs on their way from PDCP to RLC)
  and \<open>pdcp_data_ind_queue\<close> (PDUs on their way from RLC to PDCP). Each is a ring buffer with a mutex, one
  condition variable for both directions of waiting, any number of producing threads and one consuming
  thread that works on an item outside the mutex.

  The ring buffer operations are functions; the threads are a step relation in which a step is what a
  thread does between taking and releasing the mutex, or one call made outside it. A thread in
  \<open>pthread_cond_wait\<close> sleeps until a signal picks it or it wakes up spuriously. Two ghost lists record
  the items accepted and the items handed to the next layer.
\<close>

section \<open>The ring buffer\<close>

record 'a work_queue =
  wq_q :: "'a list"
  wq_start :: nat
  wq_length :: nat

definition RLC_DATA_REQ_QUEUE_SIZE :: nat where
  "RLC_DATA_REQ_QUEUE_SIZE = 10000"

definition PDCP_DATA_IND_QUEUE_SIZE :: nat where
  "PDCP_DATA_IND_QUEUE_SIZE = 10000"

text \<open>The end of \<open>enqueue_rlc_data_req\<close> and \<open>enqueue_pdcp_data_ind\<close>: the item goes behind the last one.\<close>

definition wq_put :: "nat \<Rightarrow> 'a \<Rightarrow> 'a work_queue \<Rightarrow> 'a work_queue" where
  "wq_put n x q =
     (let i = (wq_start q + wq_length q) mod n
      in q\<lparr>wq_length := wq_length q + 1, wq_q := (wq_q q)[i := x]\<rparr>)"

text \<open>What the consuming thread does with the mutex held after the call: \<open>length--; start = (start + 1) % SIZE\<close>.\<close>

definition wq_pop :: "nat \<Rightarrow> 'a work_queue \<Rightarrow> 'a work_queue" where
  "wq_pop n q = q\<lparr>wq_length := wq_length q - 1, wq_start := (wq_start q + 1) mod n\<rparr>"

definition wq_inv :: "nat \<Rightarrow> 'a work_queue \<Rightarrow> bool" where
  "wq_inv n q \<longleftrightarrow> length (wq_q q) = n \<and> wq_start q < n \<and> wq_length q \<le> n"

text \<open>The items of the queue, oldest first.\<close>

definition wq_contents :: "nat \<Rightarrow> 'a work_queue \<Rightarrow> 'a list" where
  "wq_contents n q = map (\<lambda>k. wq_q q ! ((wq_start q + k) mod n)) [0..<wq_length q]"

text \<open>What a bounded queue promises to the threads that use it.\<close>

locale bounded_fifo =
  fixes inv :: "'q \<Rightarrow> bool" and contents :: "'q \<Rightarrow> 'a list" and room :: nat
    and put :: "'a \<Rightarrow> 'q \<Rightarrow> 'q" and pop :: "'q \<Rightarrow> 'q" and oldest :: "'q \<Rightarrow> 'a"
  assumes put_inv: "inv q \<Longrightarrow> length (contents q) \<noteq> room \<Longrightarrow> inv (put x q)"
    and put_contents: "inv q \<Longrightarrow> length (contents q) \<noteq> room \<Longrightarrow> contents (put x q) = contents q @ [x]"
    and pop_inv: "inv q \<Longrightarrow> contents q \<noteq> [] \<Longrightarrow> inv (pop q)"
    and pop_contents: "inv q \<Longrightarrow> contents q \<noteq> [] \<Longrightarrow> contents (pop q) = tl (contents q)"
    and oldest_contents: "inv q \<Longrightarrow> contents q \<noteq> [] \<Longrightarrow> oldest q = hd (contents q)"
    and bounded: "inv q \<Longrightarrow> length (contents q) \<le> room"
begin

lemma oldest_stable:
  "inv q \<Longrightarrow> contents q \<noteq> [] \<Longrightarrow> length (contents q) \<noteq> room \<Longrightarrow> oldest (put x q) = oldest q"
  by (simp add: oldest_contents put_inv put_contents)

lemma room_left: "inv q \<Longrightarrow> length (contents q) \<noteq> room \<Longrightarrow> length (contents (put x q)) \<le> room"
  by (rule bounded) (rule put_inv)

end

lemma length_wq_contents [simp]: "length (wq_contents n q) = wq_length q"
  by (simp add: wq_contents_def)

lemma wq_contents_Nil [simp]: "wq_contents n q = [] \<longleftrightarrow> wq_length q = 0"
  by (simp add: wq_contents_def)

text \<open>Two positions of the window do not meet in the ring.\<close>

lemma ring_apart: "j < k \<Longrightarrow> k < (n::nat) \<Longrightarrow> (s + j) mod n \<noteq> (s + k) mod n"
proof
  assume jk: "j < k" "k < n" and "(s + j) mod n = (s + k) mod n"
  then have "n dvd (s + k) - (s + j)" by (intro mod_eq_dvd_iff_nat[THEN iffD1]) auto
  then have "n dvd k - j" by simp
  with jk show False by (auto dest: dvd_imp_le)
qed

lemma wq_put_contents:
  assumes "wq_inv n q" and "wq_length q \<noteq> n"
  shows "wq_contents n (wq_put n x q) = wq_contents n q @ [x]"
proof -
  have l: "wq_length q < n" "length (wq_q q) = n" using assms by (auto simp: wq_inv_def)
  have "wq_q (wq_put n x q) ! ((wq_start q + k) mod n) = wq_q q ! ((wq_start q + k) mod n)" if "k < wq_length q" for k
    using ring_apart[OF that l(1), of "wq_start q"] by (simp add: wq_put_def Let_def)
  moreover have "wq_q (wq_put n x q) ! ((wq_start q + wq_length q) mod n) = x"
    using l by (simp add: wq_put_def Let_def)
  ultimately show ?thesis by (simp add: wq_contents_def wq_put_def Let_def)
qed

lemma wq_pop_contents:
  assumes "wq_inv n q" and "wq_length q \<noteq> 0"
  shows "wq_contents n (wq_pop n q) = tl (wq_contents n q)"
proof -
  have "wq_contents n (wq_pop n q) ! k = tl (wq_contents n q) ! k" if "k < wq_length q - 1" for k
  proof -
    have "[0..<wq_length q] ! Suc k = Suc k" using that by simp
    then show ?thesis using that by (simp add: wq_contents_def wq_pop_def nth_tl mod_add_left_eq)
  qed
  then show ?thesis by (intro nth_equalityI) (simp_all add: wq_pop_def)
qed

interpretation ring: bounded_fifo "wq_inv n" "wq_contents n" n "wq_put n" "wq_pop n" "\<lambda>q. wq_q q ! wq_start q"
proof
  fix q :: "'a work_queue" and x
  assume i: "wq_inv n q"
  show "length (wq_contents n q) \<noteq> n \<Longrightarrow> wq_inv n (wq_put n x q)"
    using i by (auto simp: wq_inv_def wq_put_def Let_def)
  show "length (wq_contents n q) \<noteq> n \<Longrightarrow> wq_contents n (wq_put n x q) = wq_contents n q @ [x]"
    using i by (simp add: wq_put_contents)
  show "wq_contents n q \<noteq> [] \<Longrightarrow> wq_inv n (wq_pop n q)"
    using i by (auto simp: wq_inv_def wq_pop_def)
  show "wq_contents n q \<noteq> [] \<Longrightarrow> wq_contents n (wq_pop n q) = tl (wq_contents n q)"
    using i by (simp add: wq_pop_contents)
  show "wq_contents n q \<noteq> [] \<Longrightarrow> wq_q q ! wq_start q = hd (wq_contents n q)"
    using i by (simp add: wq_contents_def hd_map wq_inv_def)
  show "length (wq_contents n q) \<le> n" using i by (simp add: wq_inv_def)
qed

section \<open>The threads\<close>

text \<open>
  A producing thread is outside the queue, is about to test whether the queue is full, or sleeps. The
  consuming thread is about to test whether the queue is empty, sleeps, works on the item at an index it
  has read, or has made the call and is about to release the slot.
\<close>

datatype 'a producer = Outside | Testing_Full 'a | Sleeping 'a

datatype consumer = Testing_Empty | Waiting | Working nat | Finished

record 'a queue_system =
  qs_queue :: "'a work_queue"
  qs_consumer :: consumer
  qs_producers :: "'a producer list"
  qs_accepted :: "'a list"
  qs_processed :: "'a list"

text \<open>\<open>pthread_cond_signal\<close>: a thread that sleeps, if there is one, goes back to its test.\<close>

inductive cond_signal :: "'a queue_system \<Rightarrow> 'a queue_system \<Rightarrow> bool" where
  signal_none: "qs_consumer s \<noteq> Waiting \<Longrightarrow> \<forall>x. Sleeping x \<notin> set (qs_producers s) \<Longrightarrow> cond_signal s s"
| signal_consumer: "qs_consumer s = Waiting \<Longrightarrow> cond_signal s (s\<lparr>qs_consumer := Testing_Empty\<rparr>)"
| signal_producer: "t < length (qs_producers s) \<Longrightarrow> qs_producers s ! t = Sleeping x \<Longrightarrow>
    cond_signal s (s\<lparr>qs_producers := (qs_producers s)[t := Testing_Full x]\<rparr>)"

text \<open>
  The steps: a producer calls \<open>enqueue\<close>; it finds the queue full and sleeps; it stores its item and
  signals; the consumer finds the queue empty and sleeps; it reads \<open>start\<close>; it makes the call with the
  item in the slot; it releases the slot and signals; a sleeping thread wakes up without a signal.
\<close>

inductive queue_step :: "nat \<Rightarrow> 'a queue_system \<Rightarrow> 'a queue_system \<Rightarrow> bool" for n where
  step_call: "t < length (qs_producers s) \<Longrightarrow> qs_producers s ! t = Outside \<Longrightarrow>
    queue_step n s (s\<lparr>qs_producers := (qs_producers s)[t := Testing_Full x]\<rparr>)"
| step_full: "t < length (qs_producers s) \<Longrightarrow> qs_producers s ! t = Testing_Full x \<Longrightarrow> wq_length (qs_queue s) = n \<Longrightarrow>
    queue_step n s (s\<lparr>qs_producers := (qs_producers s)[t := Sleeping x]\<rparr>)"
| step_enqueue: "t < length (qs_producers s) \<Longrightarrow> qs_producers s ! t = Testing_Full x \<Longrightarrow> wq_length (qs_queue s) \<noteq> n \<Longrightarrow>
    cond_signal (s\<lparr>qs_queue := wq_put n x (qs_queue s), qs_producers := (qs_producers s)[t := Outside],
                   qs_accepted := qs_accepted s @ [x]\<rparr>) s' \<Longrightarrow>
    queue_step n s s'"
| step_empty: "qs_consumer s = Testing_Empty \<Longrightarrow> wq_length (qs_queue s) = 0 \<Longrightarrow>
    queue_step n s (s\<lparr>qs_consumer := Waiting\<rparr>)"
| step_take: "qs_consumer s = Testing_Empty \<Longrightarrow> wq_length (qs_queue s) \<noteq> 0 \<Longrightarrow>
    queue_step n s (s\<lparr>qs_consumer := Working (wq_start (qs_queue s))\<rparr>)"
| step_process: "qs_consumer s = Working i \<Longrightarrow>
    queue_step n s (s\<lparr>qs_consumer := Finished, qs_processed := qs_processed s @ [wq_q (qs_queue s) ! i]\<rparr>)"
| step_release: "qs_consumer s = Finished \<Longrightarrow>
    cond_signal (s\<lparr>qs_queue := wq_pop n (qs_queue s), qs_consumer := Testing_Empty\<rparr>) s' \<Longrightarrow>
    queue_step n s s'"
| step_spurious_consumer: "qs_consumer s = Waiting \<Longrightarrow> queue_step n s (s\<lparr>qs_consumer := Testing_Empty\<rparr>)"
| step_spurious_producer: "t < length (qs_producers s) \<Longrightarrow> qs_producers s ! t = Sleeping x \<Longrightarrow>
    queue_step n s (s\<lparr>qs_producers := (qs_producers s)[t := Testing_Full x]\<rparr>)"

text \<open>The static queue is zero; \<open>z\<close> is the item of zero bytes, \<open>p\<close> the number of producing threads.\<close>

definition queue_init :: "nat \<Rightarrow> 'a \<Rightarrow> nat \<Rightarrow> 'a queue_system" where
  "queue_init n z p = \<lparr>qs_queue = \<lparr>wq_q = replicate n z, wq_start = 0, wq_length = 0\<rparr>,
     qs_consumer = Testing_Empty, qs_producers = replicate p Outside, qs_accepted = [], qs_processed = []\<rparr>"

inductive queue_reach :: "nat \<Rightarrow> 'a \<Rightarrow> nat \<Rightarrow> 'a queue_system \<Rightarrow> bool" for n z p where
  reach_init: "queue_reach n z p (queue_init n z p)"
| reach_step: "queue_reach n z p s \<Longrightarrow> queue_step n s s' \<Longrightarrow> queue_reach n z p s'"

section \<open>Order: nothing is lost, duplicated or overtaken\<close>

text \<open>The items accepted are those processed and those still in the queue; the item of the slot that is about to be released counts as processed.\<close>

definition pending :: "nat \<Rightarrow> 'a queue_system \<Rightarrow> 'a list" where
  "pending n s = (if qs_consumer s = Finished then tl (wq_contents n (qs_queue s)) else wq_contents n (qs_queue s))"

definition queue_order :: "nat \<Rightarrow> 'a queue_system \<Rightarrow> bool" where
  "queue_order n s \<longleftrightarrow> wq_inv n (qs_queue s) \<and> qs_accepted s = qs_processed s @ pending n s
     \<and> (qs_consumer s = Finished \<longrightarrow> wq_length (qs_queue s) \<noteq> 0)
     \<and> (\<forall>i. qs_consumer s = Working i \<longrightarrow> i = wq_start (qs_queue s) \<and> wq_length (qs_queue s) \<noteq> 0)"

text \<open>A signal moves a sleeping thread and nothing else.\<close>

lemma cond_signal_order: "cond_signal s s' \<Longrightarrow> queue_order n s \<Longrightarrow> queue_order n s'"
  by (induction rule: cond_signal.induct) (simp_all add: queue_order_def pending_def)

lemma tl_append_single: "xs \<noteq> [] \<Longrightarrow> tl (xs @ [x]) = tl xs @ [x]"
  by simp

lemma queue_step_order: "queue_step n s s' \<Longrightarrow> queue_order n s \<Longrightarrow> queue_order n s'"
proof (induction rule: queue_step.induct)
  case (step_enqueue t s x s')
  let ?q = "qs_queue s" and ?s = "s\<lparr>qs_queue := wq_put n x (qs_queue s), qs_producers := (qs_producers s)[t := Outside],
                   qs_accepted := qs_accepted s @ [x]\<rparr>"
  have i: "wq_inv n ?q" and l: "length (wq_contents n ?q) \<noteq> n" using step_enqueue by (simp_all add: queue_order_def)
  have "pending n ?s = pending n s @ [x]"
    using step_enqueue.prems by (simp add: pending_def ring.put_contents[OF i l] queue_order_def)
  moreover have "wq_length (wq_put n x ?q) \<noteq> 0" "wq_start (wq_put n x ?q) = wq_start ?q"
    by (simp_all add: wq_put_def Let_def)
  ultimately have "queue_order n ?s"
    using step_enqueue.prems by (simp add: queue_order_def ring.put_inv[OF i l])
  with step_enqueue.hyps(4) show ?case by (rule cond_signal_order)
next
  case (step_release s s')
  let ?s = "s\<lparr>qs_queue := wq_pop n (qs_queue s), qs_consumer := Testing_Empty\<rparr>"
  have "wq_inv n (qs_queue s)" "wq_contents n (qs_queue s) \<noteq> []" using step_release by (simp_all add: queue_order_def)
  then have "queue_order n ?s"
    using step_release by (simp add: queue_order_def pending_def ring.pop_inv ring.pop_contents)
  with step_release.hyps(2) show ?case by (rule cond_signal_order)
next
  case (step_process s i)
  then have o: "wq_inv n (qs_queue s)" "wq_contents n (qs_queue s) \<noteq> []" "i = wq_start (qs_queue s)"
    by (simp_all add: queue_order_def)
  have "wq_contents n (qs_queue s) = wq_q (qs_queue s) ! i # tl (wq_contents n (qs_queue s))"
    using o ring.oldest_contents[OF o(1,2)] by simp
  with step_process show ?case by (simp add: queue_order_def pending_def)
qed (simp_all add: queue_order_def pending_def)

lemma queue_init_order: "0 < n \<Longrightarrow> queue_order n (queue_init n z p)"
  by (simp add: queue_order_def queue_init_def wq_inv_def pending_def wq_contents_def)

lemma queue_reach_order: "queue_reach n z p s \<Longrightarrow> 0 < n \<Longrightarrow> queue_order n s"
  by (induction rule: queue_reach.induct) (auto intro: queue_init_order queue_step_order)

section \<open>Sleep: no wake-up is lost\<close>

definition sleepers :: "'a queue_system \<Rightarrow> nat" where
  "sleepers s = length (filter (\<lambda>x. case x of Sleeping _ \<Rightarrow> True | _ \<Rightarrow> False) (qs_producers s))"

text \<open>
  Every slot freed since a thread went to sleep has woken one: while threads sleep there are at least as
  many awake as there are free slots. The consumer sleeps only on an empty queue.
\<close>

definition queue_awake :: "nat \<Rightarrow> 'a queue_system \<Rightarrow> bool" where
  "queue_awake n s \<longleftrightarrow> (sleepers s \<noteq> 0 \<longrightarrow> n + sleepers s \<le> wq_length (qs_queue s) + length (qs_producers s))
     \<and> (qs_consumer s = Waiting \<longrightarrow> wq_length (qs_queue s) = 0 \<and> sleepers s = 0)"

lemma length_filter_update:
  "t < length xs \<Longrightarrow> length (filter P (xs[t := y])) + (if P (xs ! t) then 1 else 0) =
     length (filter P xs) + (if P y then 1 else 0)"
proof (induction xs arbitrary: t)
  case (Cons x xs)
  then show ?case by (cases t) auto
qed simp

lemma sleepers_update:
  assumes "t < length (qs_producers s)"
  shows "sleepers (s\<lparr>qs_producers := (qs_producers s)[t := y]\<rparr>) + (case qs_producers s ! t of Sleeping _ \<Rightarrow> 1 | _ \<Rightarrow> 0) =
     sleepers s + (case y of Sleeping _ \<Rightarrow> 1 | _ \<Rightarrow> 0)"
  using length_filter_update[OF assms, of "\<lambda>x. case x of Sleeping _ \<Rightarrow> True | _ \<Rightarrow> False" y]
  by (auto simp: sleepers_def split: producer.splits)

lemma sleepers_le: "sleepers s \<le> length (qs_producers s)"
  by (simp add: sleepers_def)

lemma sleepers_0: "\<forall>x. Sleeping x \<notin> set (qs_producers s) \<Longrightarrow> sleepers s = 0"
  by (auto simp: sleepers_def filter_empty_conv split: producer.splits)

lemma sleepers_other [simp]:
  "sleepers (s\<lparr>qs_queue := q\<rparr>) = sleepers s" "sleepers (s\<lparr>qs_consumer := c\<rparr>) = sleepers s"
  "sleepers (s\<lparr>qs_accepted := a\<rparr>) = sleepers s" "sleepers (s\<lparr>qs_processed := a\<rparr>) = sleepers s"
  by (simp_all add: sleepers_def)

text \<open>The state before a signal: the queue has grown by one, or the consumer has just released a slot.\<close>

lemma cond_signal_awake:
  assumes "cond_signal s s'"
    and "sleepers s \<noteq> 0 \<Longrightarrow> n + sleepers s \<le> wq_length (qs_queue s) + length (qs_producers s) + 1"
    and "qs_consumer s = Waiting \<Longrightarrow> sleepers s = 0"
  shows "queue_awake n s'"
  using assms
proof cases
  case signal_none
  then show ?thesis using assms by (simp add: queue_awake_def sleepers_0)
next
  case signal_consumer
  then show ?thesis using assms by (simp add: queue_awake_def)
next
  case (signal_producer t x)
  have "sleepers s' + 1 = sleepers s" using sleepers_update[of t s "Testing_Full x"] signal_producer by simp
  then show ?thesis using assms signal_producer by (auto simp: queue_awake_def)
qed

lemma queue_step_awake:
  "queue_step n s s' \<Longrightarrow> queue_order n s \<Longrightarrow> length (qs_producers s) \<le> n \<Longrightarrow> queue_awake n s \<Longrightarrow> queue_awake n s'"
proof (induction rule: queue_step.induct)
  case (step_call t s x)
  then show ?case using sleepers_update[of t s "Testing_Full x"] by (simp add: queue_awake_def)
next
  case (step_full t s x)
  have "sleepers (s\<lparr>qs_producers := (qs_producers s)[t := Sleeping x]\<rparr>) \<le> length (qs_producers s)"
    using sleepers_le[of "s\<lparr>qs_producers := (qs_producers s)[t := Sleeping x]\<rparr>"] by simp
  moreover have "n \<noteq> 0" using step_full by (auto simp: queue_order_def wq_inv_def)
  ultimately show ?case using step_full by (auto simp: queue_awake_def)
next
  case (step_enqueue t s x s')
  have "sleepers (s\<lparr>qs_producers := (qs_producers s)[t := Outside]\<rparr>) = sleepers s"
    using sleepers_update[of t s Outside] step_enqueue by simp
  then show ?case
    by (intro cond_signal_awake[OF step_enqueue.hyps(4)])
      (use step_enqueue.prems in \<open>auto simp: queue_awake_def wq_put_def Let_def sleepers_def\<close>)
next
  case (step_empty s)
  then show ?case by (auto simp: queue_awake_def)
next
  case (step_release s s')
  then show ?case
    by (intro cond_signal_awake[OF step_release.hyps(2)]) (auto simp: queue_awake_def wq_pop_def queue_order_def)
next
  case (step_spurious_producer t s x)
  then show ?case using sleepers_update[of t s "Testing_Full x"] by (auto simp: queue_awake_def)
qed (auto simp: queue_awake_def)

lemma cond_signal_producers: "cond_signal s s' \<Longrightarrow> length (qs_producers s') = length (qs_producers s)"
  by (induction rule: cond_signal.induct) simp_all

lemma queue_step_producers: "queue_step n s s' \<Longrightarrow> length (qs_producers s') = length (qs_producers s)"
  by (induction rule: queue_step.induct) (auto dest: cond_signal_producers)

lemma queue_reach_producers: "queue_reach n z p s \<Longrightarrow> length (qs_producers s) = p"
  by (induction rule: queue_reach.induct) (simp_all add: queue_init_def queue_step_producers)

lemma queue_init_awake: "queue_awake n (queue_init n z p)"
  by (simp add: queue_awake_def queue_init_def sleepers_def)

lemma queue_reach_awake: "queue_reach n z p s \<Longrightarrow> 0 < n \<Longrightarrow> p \<le> n \<Longrightarrow> queue_awake n s"
proof (induction rule: queue_reach.induct)
  case (reach_step s s')
  then show ?case
    using queue_step_awake[OF reach_step.hyps(2)] queue_reach_order queue_reach_producers by fastforce
qed (rule queue_init_awake)

text \<open>A signal never blocks the thread that sends it.\<close>

lemma cond_signal_total: "\<exists>s'. cond_signal s s'"
proof (cases "\<exists>x. Sleeping x \<in> set (qs_producers s)")
  case True
  then obtain t x where "t < length (qs_producers s)" "qs_producers s ! t = Sleeping x" by (auto simp: in_set_conv_nth)
  then show ?thesis by (blast intro: signal_producer)
next
  case False
  then show ?thesis by (cases "qs_consumer s = Waiting") (auto intro: cond_signal.intros)
qed

lemma cond_signal_awake_consumer: "cond_signal s s' \<Longrightarrow> qs_consumer s \<noteq> Waiting \<Longrightarrow> qs_consumer s' = qs_consumer s"
  by (induction rule: cond_signal.induct) simp_all

lemma consumer_moves:
  assumes "qs_consumer s \<noteq> Waiting"
  shows "\<exists>s'. queue_step n s s' \<and> qs_consumer s' \<noteq> qs_consumer s"
proof (cases "qs_consumer s")
  case Testing_Empty
  then show ?thesis
    by (cases "wq_length (qs_queue s) = 0") (fastforce dest: step_empty step_take)+
next
  case (Working i)
  then show ?thesis by (fastforce dest: step_process)
next
  case Finished
  obtain s' where s': "cond_signal (s\<lparr>qs_queue := wq_pop n (qs_queue s), qs_consumer := Testing_Empty\<rparr>) s'"
    using cond_signal_total by blast
  then have "qs_consumer s' = Testing_Empty" by (auto dest: cond_signal_awake_consumer)
  with Finished s' show ?thesis by (auto intro: step_release)
qed (use assms in simp)

section \<open>The property\<close>

text \<open>
  Property C7. The work queues between PDCP and RLC are FIFO and cannot get stuck. Whatever the producing
  threads and the consuming thread do, in any interleaving and with spurious wake-ups: the items handed on
  are a prefix of the items accepted, in the same order, and the rest is in the queue; the slot the
  consumer works on outside the mutex still holds the oldest item; and, although producers and consumer
  wait on one condition variable and every signal wakes a single thread, the consumer is awake and can
  move as long as an item is pending or a producer sleeps, provided there are not more producing threads
  than slots.
\<close>

theorem work_queue_fifo_awake:
  assumes "queue_reach n z p s" and "0 < n" and "p \<le> n"
  shows "qs_accepted s = qs_processed s @ pending n s \<and> length (pending n s) \<le> n
    \<and> (\<forall>i. qs_consumer s = Working i \<longrightarrow> pending n s \<noteq> [] \<and> wq_q (qs_queue s) ! i = hd (pending n s))
    \<and> (pending n s \<noteq> [] \<or> sleepers s \<noteq> 0 \<longrightarrow>
        qs_consumer s \<noteq> Waiting \<and> (\<exists>s'. queue_step n s s' \<and> qs_consumer s' \<noteq> qs_consumer s))"
proof -
  have o: "queue_order n s" by (rule queue_reach_order[OF assms(1,2)])
  have a: "queue_awake n s" by (rule queue_reach_awake[OF assms])
  have "length (pending n s) \<le> n" using o by (auto simp: pending_def queue_order_def wq_inv_def)
  moreover have "pending n s \<noteq> [] \<and> wq_q (qs_queue s) ! i = hd (pending n s)" if "qs_consumer s = Working i" for i
    using o that ring.oldest_contents[of n "qs_queue s"] by (simp add: pending_def queue_order_def)
  moreover have "qs_consumer s \<noteq> Waiting" if "pending n s \<noteq> [] \<or> sleepers s \<noteq> 0"
    using a that by (auto simp: queue_awake_def pending_def)
  ultimately show ?thesis using o consumer_moves[of s n] by (simp add: queue_order_def)
qed

text \<open>Two producers and a queue of two slots: both store an item while the consumer works on the first.\<close>

definition ex_queue :: "nat queue_system" where
  "ex_queue = \<lparr>qs_queue = \<lparr>wq_q = [7, 8], wq_start = 0, wq_length = 2\<rparr>, qs_consumer = Working 0,
     qs_producers = [Outside, Sleeping 9], qs_accepted = [7, 8], qs_processed = []\<rparr>"

lemma ex_queue_reach: "queue_reach 2 0 2 ex_queue"
proof -
  define st where "st q c ps a = \<lparr>qs_queue = q, qs_consumer = c, qs_producers = ps, qs_accepted = a, qs_processed = []\<rparr>"
    for q :: "nat work_queue" and c ps a
  define wq where "wq l k = \<lparr>wq_q = l, wq_start = 0, wq_length = k\<rparr>" for l :: "nat list" and k
  note d = st_def wq_def wq_put_def Let_def
  have "queue_reach 2 0 2 (st (wq [0, 0] 0) Testing_Empty [Outside, Outside] [])"
    using reach_init[of 2 "0::nat" 2] by (simp add: queue_init_def d numeral_2_eq_2)
  then have "queue_reach 2 0 2 (st (wq [0, 0] 0) Testing_Empty [Testing_Full 7, Outside] [])"
    by (rule reach_step) (use step_call[of 0 "st (wq [0, 0] 0) Testing_Empty [Outside, Outside] []" 2 7] in \<open>simp add: d\<close>)
  then have "queue_reach 2 0 2 (st (wq [7, 0] 1) Testing_Empty [Outside, Outside] [7])"
    by (rule reach_step) (rule step_enqueue[of 0 _ 7], auto simp: d intro!: signal_none)
  then have "queue_reach 2 0 2 (st (wq [7, 0] 1) (Working 0) [Outside, Outside] [7])"
    by (rule reach_step) (use step_take[of "st (wq [7, 0] 1) Testing_Empty [Outside, Outside] [7]" 2] in \<open>simp add: d\<close>)
  then have "queue_reach 2 0 2 (st (wq [7, 0] 1) (Working 0) [Testing_Full 8, Outside] [7])"
    by (rule reach_step) (use step_call[of 0 "st (wq [7, 0] 1) (Working 0) [Outside, Outside] [7]" 2 8] in \<open>simp add: d\<close>)
  then have "queue_reach 2 0 2 (st (wq [7, 8] 2) (Working 0) [Outside, Outside] [7, 8])"
    by (rule reach_step) (rule step_enqueue[of 0 _ 8], auto simp: d numeral_2_eq_2 intro!: signal_none)
  then have "queue_reach 2 0 2 (st (wq [7, 8] 2) (Working 0) [Outside, Testing_Full 9] [7, 8])"
    by (rule reach_step) (use step_call[of 1 "st (wq [7, 8] 2) (Working 0) [Outside, Outside] [7, 8]" 2 9] in \<open>simp add: d\<close>)
  then have "queue_reach 2 0 2 (st (wq [7, 8] 2) (Working 0) [Outside, Sleeping 9] [7, 8])"
    by (rule reach_step) (use step_full[of 1 "st (wq [7, 8] 2) (Working 0) [Outside, Testing_Full 9] [7, 8]" 9 2] in \<open>simp add: d\<close>)
  then show ?thesis by (simp add: ex_queue_def d)
qed

theorem work_queue_fifo_awake_witness:
  "queue_reach 2 0 2 ex_queue \<and> qs_accepted ex_queue = qs_processed ex_queue @ pending 2 ex_queue
   \<and> sleepers ex_queue = 1 \<and> (\<exists>s'. queue_step 2 ex_queue s' \<and> qs_consumer s' \<noteq> qs_consumer ex_queue)"
proof -
  have "sleepers ex_queue = 1" by (simp add: ex_queue_def sleepers_def)
  then show ?thesis using work_queue_fifo_awake[OF ex_queue_reach] ex_queue_reach by simp
qed

end
