(* ===== verification/Asn1_Values.thy ===== *)
theory Asn1_Values
  imports Keyed_List
begin

text \<open>
  Configuration values. RRC carries them as indices into tables of 38.331; \<open>asn1_utils.c\<close> of PDCP and of
  RLC turn an index into the value and back, with the tables of \<open>nr_pdcp_configuration.h\<close> and
  \<open>nr_rlc_configuration.h\<close>. A value or an index that is not in its table stops the program.
\<close>

section \<open>The macro \<open>ENCODE_DECODE\<close>\<close>

definition decode_value :: "int list \<Rightarrow> int \<Rightarrow> int res" where
  "decode_value tab v = (if 0 \<le> v \<and> v < int (length tab) then Inr (tab ! nat v) else Inl Assert_Fatal)"

definition encode_value :: "int list \<Rightarrow> int \<Rightarrow> int res" where
  "encode_value tab v =
     (let i = index_of id v tab in if i < length tab then Inr (int i) else Inl Assert_Fatal)"

lemma decode_encode: "encode_value tab v = Inr i \<Longrightarrow> decode_value tab i = Inr v"
  using index_of_key[of id v tab] by (auto simp: encode_value_def decode_value_def Let_def split: if_splits)

lemma encode_decode:
  assumes "distinct tab" and "decode_value tab i = Inr v"
  shows "encode_value tab v = Inr i"
proof -
  have i: "0 \<le> i" "nat i < length tab" "v = tab ! nat i"
    using assms(2) by (auto simp: decode_value_def split: if_splits)
  have "index_of id v tab < length tab" using i by (simp add: index_of_found)
  moreover from index_of_key[OF this] have "tab ! index_of id v tab = tab ! nat i" using i(3) by simp
  ultimately have "index_of id v tab = nat i" using assms(1) i(2) by (simp add: nth_eq_iff_index_eq)
  then show ?thesis using i by (simp add: encode_value_def)
qed

lemma decode_member: "decode_value tab i = Inr v \<Longrightarrow> v \<in> set tab"
  by (auto simp: decode_value_def split: if_splits)

section \<open>PDCP\<close>

definition NR_PDCP_SN_SIZE :: "int list" where
  "NR_PDCP_SN_SIZE = [12, 18]"

definition NR_PDCP_T_REORDERING :: "int list" where
  "NR_PDCP_T_REORDERING =
     [0, 1, 2, 4, 5, 8, 10, 15, 20, 30, 40, 50,
      60, 80, 100, 120, 140, 160, 180, 200, 220, 240, 260, 280,
      300, 500, 750, 1000, 1250, 1500, 1750, 2000, 2250, 2500, 2750, 3000,
      -1]"

definition NR_PDCP_DISCARD_TIMER :: "int list" where
  "NR_PDCP_DISCARD_TIMER = [10, 20, 30, 40, 50, 60, 75, 100, 150, 200, 250, 300, 500, 750, 1500, -1]"

definition decode_t_reordering :: "int \<Rightarrow> int res" where
  "decode_t_reordering = decode_value NR_PDCP_T_REORDERING"

definition decode_sn_size :: "int \<Rightarrow> int res" where
  "decode_sn_size = decode_value NR_PDCP_SN_SIZE"

definition decode_discard_timer :: "int \<Rightarrow> int res" where
  "decode_discard_timer = decode_value NR_PDCP_DISCARD_TIMER"

section \<open>RLC\<close>

definition NR_RLC_T_POLL_RETRANSMIT :: "int list" where
  "NR_RLC_T_POLL_RETRANSMIT =
     [5,    10,   15,   20,  25,  30,  35,  40,  45,  50,  55,  60,  65,  70,
      75,   80,   85,   90,  95,  100, 105, 110, 115, 120, 125, 130, 135, 140,
      145,  150,  155,  160, 165, 170, 175, 180, 185, 190, 195, 200, 205, 210,
      215,  220,  225,  230, 235, 240, 245, 250, 300, 350, 400, 450, 500, 800,
      1000, 2000, 4000, 1,   2,   4]"

definition NR_RLC_T_REASSEMBLY :: "int list" where
  "NR_RLC_T_REASSEMBLY =
     [0,  5,  10, 15, 20,  25,  30,  35,  40,  45,  50,  55,  60,  65,  70, 75,
      80, 85, 90, 95, 100, 110, 120, 130, 140, 150, 160, 170, 180, 190, 200]"

definition NR_RLC_T_STATUS_PROHIBIT :: "int list" where
  "NR_RLC_T_STATUS_PROHIBIT =
     [0,    5,   10,  15,  20,  25,  30,  35,  40,  45,   50,   55,
      60,   65,  70,  75,  80,  85,  90,  95,  100, 105,  110,  115,
      120,  125, 130, 135, 140, 145, 150, 155, 160, 165,  170,  175,
      180,  185, 190, 195, 200, 205, 210, 215, 220, 225,  230,  235,
      240,  245, 250, 300, 350, 400, 450, 500, 800, 1000, 1200, 1600,
      2000, 2400]"

definition NR_RLC_POLL_PDU :: "int list" where
  "NR_RLC_POLL_PDU =
     [4,     8,     16,    32,    64,    128,   256,   512,   1024,
      2048,  4096,  6144,  8192,  12288, 16384, 20480, 24576, 28672,
      32768, 40960, 49152, 57344, 65536, -1]"

definition NR_RLC_POLL_BYTE :: "int list" where
  "NR_RLC_POLL_BYTE =
     [1024 * 1,    1024 * 2,    1024 * 5,    1024 * 8,    1024 * 10,   1024 * 15,   1024 * 25,   1024 * 50,   1024 * 75,
      1024 * 100,  1024 * 125,  1024 * 250,  1024 * 375,  1024 * 500,  1024 * 750,  1024 * 1000, 1024 * 1250,
      1024 * 1500, 1024 * 2000, 1024 * 3000, 1024 * 4000, 1024 * 4500, 1024 * 5000, 1024 * 5500,
      1024 * 6000, 1024 * 6500, 1024 * 7000, 1024 * 7500,
      1024 * 1024 * 8,  1024 * 1024 * 9,  1024 * 1024 * 10, 1024 * 1024 * 11, 1024 * 1024 * 12,
      1024 * 1024 * 13, 1024 * 1024 * 14, 1024 * 1024 * 15, 1024 * 1024 * 16, 1024 * 1024 * 17,
      1024 * 1024 * 18, 1024 * 1024 * 20, 1024 * 1024 * 25, 1024 * 1024 * 30, 1024 * 1024 * 40,
      -1]"

definition NR_RLC_MAX_RETX_THRESHOLD :: "int list" where
  "NR_RLC_MAX_RETX_THRESHOLD = [1, 2, 3, 4, 6, 8, 16, 32]"

definition NR_RLC_SN_FIELD_LENGTH_AM :: "int list" where
  "NR_RLC_SN_FIELD_LENGTH_AM = [12, 18]"

definition NR_RLC_SN_FIELD_LENGTH_UM :: "int list" where
  "NR_RLC_SN_FIELD_LENGTH_UM = [6, 12]"

definition decode_t_reassembly :: "int \<Rightarrow> int res" where
  "decode_t_reassembly = decode_value NR_RLC_T_REASSEMBLY"

definition decode_t_status_prohibit :: "int \<Rightarrow> int res" where
  "decode_t_status_prohibit = decode_value NR_RLC_T_STATUS_PROHIBIT"

definition decode_t_poll_retransmit :: "int \<Rightarrow> int res" where
  "decode_t_poll_retransmit = decode_value NR_RLC_T_POLL_RETRANSMIT"

definition decode_poll_pdu :: "int \<Rightarrow> int res" where
  "decode_poll_pdu = decode_value NR_RLC_POLL_PDU"

definition decode_poll_byte :: "int \<Rightarrow> int res" where
  "decode_poll_byte = decode_value NR_RLC_POLL_BYTE"

definition decode_max_retx_threshold :: "int \<Rightarrow> int res" where
  "decode_max_retx_threshold = decode_value NR_RLC_MAX_RETX_THRESHOLD"

definition decode_sn_field_length_am :: "int \<Rightarrow> int res" where
  "decode_sn_field_length_am = decode_value NR_RLC_SN_FIELD_LENGTH_AM"

definition decode_sn_field_length_um :: "int \<Rightarrow> int res" where
  "decode_sn_field_length_um = decode_value NR_RLC_SN_FIELD_LENGTH_UM"

section \<open>The tables\<close>

text \<open>No table has a value twice, so that encoding undoes decoding for all of them.\<close>

lemma tables_distinct:
  "distinct NR_PDCP_SN_SIZE" "distinct NR_PDCP_T_REORDERING" "distinct NR_PDCP_DISCARD_TIMER"
  "distinct NR_RLC_T_POLL_RETRANSMIT" "distinct NR_RLC_T_REASSEMBLY" "distinct NR_RLC_T_STATUS_PROHIBIT"
  "distinct NR_RLC_POLL_PDU" "distinct NR_RLC_POLL_BYTE" "distinct NR_RLC_MAX_RETX_THRESHOLD"
  "distinct NR_RLC_SN_FIELD_LENGTH_AM" "distinct NR_RLC_SN_FIELD_LENGTH_UM"
  by code_simp+

lemma decode_sn_field_length_cases:
  "decode_sn_field_length_am v = Inr n \<Longrightarrow> n = 12 \<or> n = 18" "decode_sn_field_length_um v = Inr n \<Longrightarrow> n = 6 \<or> n = 12"
  unfolding decode_sn_field_length_am_def decode_sn_field_length_um_def
  by (auto dest!: decode_member simp: NR_RLC_SN_FIELD_LENGTH_AM_def NR_RLC_SN_FIELD_LENGTH_UM_def)

end
