(* ===== verification/Hash_Table.thy ===== *)
theory Hash_Table
  imports Keyed_List "HOL-Library.Multiset"
begin

text \<open>
  The hash table of \<open>common/utils/hashtable/hashtable.c\<close>: an array of chains, a hash function, a
  function that frees data. \<open>NULL\<close> is \<open>None\<close>, for the table and for the data of a node; allocation succeeds. The
  field \<open>ht_freed\<close> records what was given to the table's \<open>freefunc\<close>, in order.
\<close>

section \<open>The table\<close>

datatype hashtable_rc_t =
    HASH_TABLE_OK | HASH_TABLE_INSERT_OVERWRITTEN_DATA | HASH_TABLE_KEY_NOT_EXISTS
  | HASH_TABLE_KEY_ALREADY_EXISTS | HASH_TABLE_BAD_PARAMETER_HASHTABLE | HASH_TABLE_SYSTEM_ERROR

record 'a hash_node =
  hn_key :: u64
  hn_data :: "'a option"

record 'a hash_table =
  ht_size :: u64
  ht_nodes :: "'a hash_node list list"
  ht_hashfunc :: "u64 \<Rightarrow> u64"
  ht_freed :: "'a list"

definition def_hashfunc :: "u64 \<Rightarrow> u64" where
  "def_hashfunc key = key"

definition hashtable_create :: "u64 \<Rightarrow> (u64 \<Rightarrow> u64) option \<Rightarrow> 'a hash_table" where
  "hashtable_create n f =
     \<lparr>ht_size = n, ht_nodes = replicate (unat n) [],
      ht_hashfunc = (case f of None \<Rightarrow> def_hashfunc | Some f \<Rightarrow> f), ht_freed = []\<rparr>"

definition bucket_of :: "'a hash_table \<Rightarrow> u64 \<Rightarrow> nat" where
  "bucket_of t key = unat (ht_hashfunc t key mod ht_size t)"

abbreviation chain :: "'a hash_table \<Rightarrow> u64 \<Rightarrow> 'a hash_node list" where
  "chain t key \<equiv> ht_nodes t ! bucket_of t key"

text \<open>\<open>if (data) freefunc(data)\<close>\<close>

definition free_data :: "'a option \<Rightarrow> 'a hash_table \<Rightarrow> 'a hash_table" where
  "free_data d t = (case d of None \<Rightarrow> t | Some x \<Rightarrow> t\<lparr>ht_freed := ht_freed t @ [x]\<rparr>)"

text \<open>A table of size 0 is a division by zero, which ends the program with a signal like a NULL pointer dereference does.\<close>

definition hashtable_is_key_exists :: "'a hash_table option \<Rightarrow> u64 \<Rightarrow> hashtable_rc_t res" where
  "hashtable_is_key_exists ht key =
     (case ht of
        None \<Rightarrow> Inr HASH_TABLE_BAD_PARAMETER_HASHTABLE
      | Some t \<Rightarrow>
          if ht_size t = 0 then Inl Null_Deref
          else Inr (if List.find (\<lambda>n. hn_key n = key) (chain t key) = None then HASH_TABLE_KEY_NOT_EXISTS else HASH_TABLE_OK))"

definition hashtable_get :: "'a hash_table option \<Rightarrow> u64 \<Rightarrow> (hashtable_rc_t \<times> 'a option) res" where
  "hashtable_get ht key =
     (case ht of
        None \<Rightarrow> Inr (HASH_TABLE_BAD_PARAMETER_HASHTABLE, None)
      | Some t \<Rightarrow>
          if ht_size t = 0 then Inl Null_Deref
          else Inr (case List.find (\<lambda>n. hn_key n = key) (chain t key) of
                      None \<Rightarrow> (HASH_TABLE_KEY_NOT_EXISTS, None)
                    | Some n \<Rightarrow> (HASH_TABLE_OK, hn_data n)))"

definition hashtable_insert :: "'a hash_table option \<Rightarrow> u64 \<Rightarrow> 'a option \<Rightarrow> ('a hash_table option \<times> hashtable_rc_t) res" where
  "hashtable_insert ht key data =
     (case ht of
        None \<Rightarrow> Inr (None, HASH_TABLE_BAD_PARAMETER_HASHTABLE)
      | Some t \<Rightarrow>
          if ht_size t = 0 then Inl Null_Deref
          else
            let b = bucket_of t key; l = chain t key; i = index_of hn_key key l in
            if i < length l
            then Inr (Some ((free_data (hn_data (l ! i)) t)\<lparr>ht_nodes := (ht_nodes t)[b := l[i := (l ! i)\<lparr>hn_data := data\<rparr>]]\<rparr>),
                      HASH_TABLE_INSERT_OVERWRITTEN_DATA)
            else Inr (Some (t\<lparr>ht_nodes := (ht_nodes t)[b := \<lparr>hn_key = key, hn_data = data\<rparr> # l]\<rparr>), HASH_TABLE_OK))"

definition hashtable_remove :: "'a hash_table option \<Rightarrow> u64 \<Rightarrow> ('a hash_table option \<times> hashtable_rc_t) res" where
  "hashtable_remove ht key =
     (case ht of
        None \<Rightarrow> Inr (None, HASH_TABLE_BAD_PARAMETER_HASHTABLE)
      | Some t \<Rightarrow>
          if ht_size t = 0 then Inl Null_Deref
          else
            let b = bucket_of t key; l = chain t key; i = index_of hn_key key l in
            if i < length l
            then Inr (Some ((free_data (hn_data (l ! i)) t)\<lparr>ht_nodes := (ht_nodes t)[b := remove_nth i l]\<rparr>), HASH_TABLE_OK)
            else Inr (Some t, HASH_TABLE_KEY_NOT_EXISTS))"

text \<open>The result is what \<open>freefunc\<close> has been called with in the life of the table.\<close>

definition hashtable_destroy :: "'a hash_table option \<Rightarrow> ('a hash_table option \<times> hashtable_rc_t \<times> 'a list)" where
  "hashtable_destroy ht =
     (case ht of
        None \<Rightarrow> (None, HASH_TABLE_BAD_PARAMETER_HASHTABLE, [])
      | Some t \<Rightarrow> (None, HASH_TABLE_OK, ht_freed (foldl (\<lambda>t n. free_data (hn_data n) t) t (concat (ht_nodes t)))))"

section \<open>Iterators\<close>

text \<open>\<open>it_node\<close> is the node the iterator points to, with those behind it.\<close>

record 'a hash_iterator =
  it_index :: nat
  it_node :: "'a hash_node list"

definition hashtable_get_iterator :: "'a hash_table \<Rightarrow> 'a hash_iterator res" where
  "hashtable_get_iterator t =
     (if ht_nodes t = [] then Inl Out_Of_Bounds else Inr \<lparr>it_index = 0, it_node = ht_nodes t ! 0\<rparr>)"

function hashtable_iterator_getnext :: "'a hash_table \<Rightarrow> 'a hash_iterator \<Rightarrow> 'a hash_iterator \<times> 'a option \<times> bool" where
  "hashtable_iterator_getnext t it =
     (case it_node it of
        n # rest \<Rightarrow> (it\<lparr>it_node := rest\<rparr>, hn_data n, True)
      | [] \<Rightarrow>
          if Suc (it_index it) \<ge> unat (ht_size t) then (it\<lparr>it_index := Suc (it_index it)\<rparr>, None, False)
          else hashtable_iterator_getnext t (it\<lparr>it_index := Suc (it_index it), it_node := ht_nodes t ! Suc (it_index it)\<rparr>))"
  by pat_completeness auto
termination by (relation "measure (\<lambda>(t, it). unat (ht_size t) - it_index it)") auto

declare hashtable_iterator_getnext.simps [simp del]

text \<open>\<open>while (hashtable_iterator_getnext(&it, &data)) ...\<close>, at most \<open>n\<close> times round.\<close>

fun iterate_all :: "'a hash_table \<Rightarrow> 'a hash_iterator \<Rightarrow> nat \<Rightarrow> 'a option list option" where
  "iterate_all t it 0 = None"
| "iterate_all t it (Suc n) =
     (case hashtable_iterator_getnext t it of
        (it, d, True) \<Rightarrow> map_option (Cons d) (iterate_all t it n)
      | (it, d, False) \<Rightarrow> Some [])"

section \<open>The table is a finite map\<close>

definition ht_inv :: "'a hash_table \<Rightarrow> bool" where
  "ht_inv t \<longleftrightarrow> ht_size t \<noteq> 0 \<and> length (ht_nodes t) = unat (ht_size t)
     \<and> (\<forall>b < length (ht_nodes t). distinct (map hn_key (ht_nodes t ! b)) \<and> (\<forall>n \<in> set (ht_nodes t ! b). bucket_of t (hn_key n) = b))"

definition ht_map :: "'a hash_table \<Rightarrow> u64 \<Rightarrow> 'a hash_node option" where
  "ht_map t key = lookup hn_key (chain t key) key"

definition ht_put :: "'a hash_node \<Rightarrow> 'a hash_table \<Rightarrow> 'a hash_table" where
  "ht_put n t = (case hashtable_insert (Some t) (hn_key n) (hn_data n) of Inr (Some t', _) \<Rightarrow> t' | _ \<Rightarrow> t)"

definition ht_del :: "u64 \<Rightarrow> 'a hash_table \<Rightarrow> 'a hash_table" where
  "ht_del key t = (case hashtable_remove (Some t) key of Inr (Some t', _) \<Rightarrow> t' | _ \<Rightarrow> t)"

text \<open>Everything that a node, a chain and the table hold.\<close>

definition node_data :: "'a hash_node \<Rightarrow> 'a multiset" where
  "node_data n = (case hn_data n of None \<Rightarrow> {#} | Some x \<Rightarrow> {#x#})"

definition chain_data :: "'a hash_node list \<Rightarrow> 'a multiset" where
  "chain_data l = sum_list (map node_data l)"

definition ht_data :: "'a hash_table \<Rightarrow> 'a multiset" where
  "ht_data t = sum_list (map chain_data (ht_nodes t))"

lemma bucket_bound: "ht_inv t \<Longrightarrow> bucket_of t key < length (ht_nodes t)"
  by (simp add: ht_inv_def bucket_of_def unat_mono word_mod_less_divisor word_gt_0)

lemma free_data_simps [simp]:
  "ht_nodes (free_data d t) = ht_nodes t" "ht_size (free_data d t) = ht_size t" "ht_hashfunc (free_data d t) = ht_hashfunc t"
  "mset (ht_freed (free_data d t)) = mset (ht_freed t) + (case d of None \<Rightarrow> {#} | Some x \<Rightarrow> {#x#})"
  by (simp_all add: free_data_def split: option.splits)

text \<open>Replacing one chain.\<close>

lemma set_chain:
  assumes inv: "ht_inv t" and t': "ht_nodes t' = (ht_nodes t)[bucket_of t key := l]" "ht_size t' = ht_size t" "ht_hashfunc t' = ht_hashfunc t"
    and l: "distinct (map hn_key l)" "\<And>n. n \<in> set l \<Longrightarrow> hn_key n = key \<or> n \<in> set (chain t key)"
  shows "ht_inv t'" and "lookup hn_key l = (lookup hn_key (chain t key))(key := x) \<Longrightarrow> ht_map t' = (ht_map t)(key := x)"
proof -
  have b: "bucket_of t' = bucket_of t" using t' by (simp add: bucket_of_def fun_eq_iff)
  note k = bucket_bound[OF inv, of key]
  have "bucket_of t (hn_key n) = bucket_of t key" if "n \<in> set l" for n
    using l(2)[OF that] inv k by (auto simp: ht_inv_def)
  then have "distinct (map hn_key (ht_nodes t' ! c)) \<and> (\<forall>n \<in> set (ht_nodes t' ! c). bucket_of t' (hn_key n) = c)"
    if "c < length (ht_nodes t')" for c
    using that inv l(1) k unfolding b t'(1) by (cases "c = bucket_of t key") (auto simp: ht_inv_def)
  then show "ht_inv t'" using inv t' by (auto simp: ht_inv_def)
  show "ht_map t' = (ht_map t)(key := x)" if "lookup hn_key l = (lookup hn_key (chain t key))(key := x)"
  proof
    fix k'
    show "ht_map t' k' = ((ht_map t)(key := x)) k'"
    proof (cases "bucket_of t k' = bucket_of t key")
      case True
      then have "ht_map t' k' = lookup hn_key l k'" using k unfolding ht_map_def b t'(1) by simp
      also have "\<dots> = ((ht_map t)(key := x)) k'" using fun_cong[OF that, of k'] True by (simp add: ht_map_def)
      finally show ?thesis .
    next
      case False
      then show ?thesis unfolding ht_map_def b t'(1) by auto
    qed
  qed
qed

lemma sum_list_set: "k < length xs \<Longrightarrow> sum_list (xs[k := x]) + xs ! k = sum_list xs + (x :: 'b :: comm_monoid_add)"
  by (induction xs arbitrary: k) (auto split: nat.splits simp: ac_simps)

lemma sum_list_zeros: "sum_list (replicate n (0 :: 'b :: monoid_add)) = 0"
  by (induction n) simp_all

lemma set_chain_data:
  assumes "ht_inv t" and "ht_nodes t' = (ht_nodes t)[bucket_of t key := l]"
  shows "ht_data t' + chain_data (chain t key) = ht_data t + chain_data l"
  using sum_list_set[of "bucket_of t key" "map chain_data (ht_nodes t)" "chain_data l"] bucket_bound[OF assms(1), of key] assms(2)
  by (simp add: ht_data_def map_update)

lemma mset_exchange:
  assumes "a + c = b + c'" and "c' + x = c + y"
  shows "a + x = b + (y :: 'b multiset)"
proof -
  have "(a + c) + (c' + x) = (b + c') + (c + y)" using assms by simp
  then have "(a + x) + (c + c') = (b + y) + (c + c')" by (simp only: ac_simps)
  then show ?thesis by simp
qed

lemma chain_data_remove: "i < length l \<Longrightarrow> chain_data (remove_nth i l) + node_data (l ! i) = chain_data l"
proof (induction l arbitrary: i)
  case (Cons n l)
  then show ?case by (cases i) (auto simp: chain_data_def ac_simps)
qed simp

lemma chain_data_update: "i < length l \<Longrightarrow> chain_data (l[i := n]) + node_data (l ! i) = chain_data l + node_data n"
  using sum_list_set[of i "map node_data l" "node_data n"] by (simp add: chain_data_def map_update)

section \<open>The operations\<close>

lemma chain_distinct: "ht_inv t \<Longrightarrow> distinct (map hn_key (chain t key))"
  using bucket_bound[of t key] by (simp add: ht_inv_def)

text \<open>An insertion puts the node into the map; what it replaces is freed.\<close>

lemma hashtable_insert_ok:
  assumes inv: "ht_inv t"
  obtains t' where "hashtable_insert (Some t) key d =
      Inr (Some t', if ht_map t key = None then HASH_TABLE_OK else HASH_TABLE_INSERT_OVERWRITTEN_DATA)"
    "ht_inv t'" "ht_map t' = (ht_map t)(key \<mapsto> \<lparr>hn_key = key, hn_data = d\<rparr>)"
    "ht_data t' + mset (ht_freed t') = ht_data t + mset (ht_freed t) + (case d of None \<Rightarrow> {#} | Some x \<Rightarrow> {#x#})"
proof -
  let ?l = "chain t key" and ?n = "\<lparr>hn_key = key, hn_data = d\<rparr>"
  let ?i = "index_of hn_key key ?l"
  have sz: "ht_size t \<noteq> 0" using inv by (simp add: ht_inv_def)
  show ?thesis
  proof (cases "?i < length ?l")
    case True
    let ?t = "(free_data (hn_data (?l ! ?i)) t)\<lparr>ht_nodes := (ht_nodes t)[bucket_of t key := ?l[?i := ?n]]\<rparr>"
    have n: "(?l ! ?i)\<lparr>hn_data := d\<rparr> = ?n" using index_of_key[OF True] by (cases "?l ! ?i") simp
    have d: "distinct (map hn_key (?l[?i := ?n]))" using map_key_update[of hn_key ?n ?l] True chain_distinct[OF inv] by simp
    have lk: "lookup hn_key (?l[?i := ?n]) = (lookup hn_key ?l)(key \<mapsto> ?n)" using lookup_update[of hn_key ?n ?l] True by simp
    have m: "hn_key x = key \<or> x \<in> set ?l" if "x \<in> set (?l[?i := ?n])" for x
      using that set_update_subset_insert[of ?l ?i ?n] by auto
    have t: "ht_inv ?t" by (rule set_chain(1)[OF inv _ _ _ d m]) simp_all
    have tm: "ht_map ?t = (ht_map t)(key \<mapsto> ?n)" by (rule set_chain(2)[OF inv _ _ _ d m lk]) simp_all
    have "ht_data ?t + chain_data ?l = ht_data t + chain_data (?l[?i := ?n])" by (rule set_chain_data[OF inv]) simp
    from mset_exchange[OF this chain_data_update[OF True]] have "ht_data ?t + node_data (?l ! ?i) = ht_data t + node_data ?n" .
    then have "ht_data ?t + mset (ht_freed ?t) = ht_data t + mset (ht_freed t) + (case d of None \<Rightarrow> {#} | Some x \<Rightarrow> {#x#})"
      by (simp add: node_data_def ac_simps)
    moreover have "ht_map t key \<noteq> None" using True by (simp add: ht_map_def lookup_index)
    ultimately show ?thesis using that[of ?t] t tm sz True n by (simp add: hashtable_insert_def Let_def)
  next
    case False
    let ?t = "t\<lparr>ht_nodes := (ht_nodes t)[bucket_of t key := ?n # ?l]\<rparr>"
    have new: "key \<notin> hn_key ` set ?l" using False by (simp add: index_of_found)
    have d: "distinct (map hn_key (?n # ?l))" using new chain_distinct[OF inv, of key] by simp
    have lk: "lookup hn_key (?n # ?l) = (lookup hn_key ?l)(key \<mapsto> ?n)" using new lookup_Cons_new[of hn_key ?n ?l] by simp
    have m: "hn_key x = key \<or> x \<in> set ?l" if "x \<in> set (?n # ?l)" for x using that by auto
    have t: "ht_inv ?t" by (rule set_chain(1)[OF inv _ _ _ d m]) simp_all
    have tm: "ht_map ?t = (ht_map t)(key \<mapsto> ?n)" by (rule set_chain(2)[OF inv _ _ _ d m lk]) simp_all
    have "ht_data ?t + chain_data ?l = ht_data t + chain_data (?n # ?l)" by (rule set_chain_data[OF inv]) simp
    then have "ht_data ?t + mset (ht_freed ?t) = ht_data t + mset (ht_freed t) + (case d of None \<Rightarrow> {#} | Some x \<Rightarrow> {#x#})"
      by (simp add: chain_data_def node_data_def ac_simps)
    moreover have "ht_map t key = None" using False by (simp add: ht_map_def lookup_index)
    ultimately show ?thesis using that[of ?t] t tm sz False by (simp add: hashtable_insert_def Let_def)
  qed
qed

lemma hashtable_remove_ok:
  assumes inv: "ht_inv t"
  obtains t' where "hashtable_remove (Some t) key =
      Inr (Some t', if ht_map t key = None then HASH_TABLE_KEY_NOT_EXISTS else HASH_TABLE_OK)"
    "ht_inv t'" "ht_map t' = (ht_map t)(key := None)" "ht_data t' + mset (ht_freed t') = ht_data t + mset (ht_freed t)"
proof -
  let ?l = "chain t key"
  let ?i = "index_of hn_key key ?l"
  have sz: "ht_size t \<noteq> 0" using inv by (simp add: ht_inv_def)
  show ?thesis
  proof (cases "?i < length ?l")
    case True
    let ?t = "(free_data (hn_data (?l ! ?i)) t)\<lparr>ht_nodes := (ht_nodes t)[bucket_of t key := remove_nth ?i ?l]\<rparr>"
    note d = remove_nth_distinct[OF chain_distinct[OF inv, of key], of ?i] and lk = lookup_remove[OF chain_distinct[OF inv], of key key]
    have m: "hn_key x = key \<or> x \<in> set ?l" if "x \<in> set (remove_nth ?i ?l)" for x using that remove_nth_set[of ?i ?l] by auto
    have t: "ht_inv ?t" by (rule set_chain(1)[OF inv _ _ _ d m]) simp_all
    have tm: "ht_map ?t = (ht_map t)(key := None)" by (rule set_chain(2)[OF inv _ _ _ d m lk]) simp_all
    have "ht_data ?t + chain_data ?l = ht_data t + chain_data (remove_nth ?i ?l)" by (rule set_chain_data[OF inv]) simp
    from mset_exchange[OF this, of "node_data (?l ! ?i)" "{#}"] have "ht_data ?t + node_data (?l ! ?i) = ht_data t"
      using chain_data_remove[OF True] by simp
    then have "ht_data ?t + mset (ht_freed ?t) = ht_data t + mset (ht_freed t)" by (simp add: node_data_def ac_simps)
    moreover have "ht_map t key \<noteq> None" using True by (simp add: ht_map_def lookup_index)
    ultimately show ?thesis using that[of ?t] t tm sz True by (simp add: hashtable_remove_def Let_def)
  next
    case False
    then have "ht_map t key = None" by (simp add: ht_map_def lookup_index)
    then show ?thesis using that[of t] inv sz False by (simp add: hashtable_remove_def Let_def fun_upd_idem)
  qed
qed

lemma hashtable_get_ok:
  assumes "ht_inv t"
  shows "hashtable_get (Some t) key =
      Inr (case ht_map t key of None \<Rightarrow> (HASH_TABLE_KEY_NOT_EXISTS, None) | Some n \<Rightarrow> (HASH_TABLE_OK, hn_data n))"
    and "hashtable_is_key_exists (Some t) key = Inr (if ht_map t key = None then HASH_TABLE_KEY_NOT_EXISTS else HASH_TABLE_OK)"
  using assms by (simp_all add: hashtable_get_def hashtable_is_key_exists_def ht_map_def ht_inv_def)

lemma hashtable_create_ok:
  fixes t :: "'a hash_table"
  assumes "n \<noteq> 0" and t: "t = hashtable_create n f"
  shows "ht_inv t" "ht_map t = (\<lambda>_. None)" "ht_data t = {#}"
proof -
  show inv: "ht_inv t" using assms by (simp add: ht_inv_def hashtable_create_def)
  have nodes: "ht_nodes t = replicate (unat n) []" by (simp add: t hashtable_create_def)
  show "ht_map t = (\<lambda>_. None)"
    using bucket_bound[OF inv] by (simp add: ht_map_def nodes fun_eq_iff)
  show "ht_data t = {#}" by (simp add: ht_data_def chain_data_def nodes sum_list_zeros)
qed

interpretation htab: keyed_store hn_key ht_inv ht_map ht_put "\<lambda>_. True" ht_del
proof
  fix t :: "'a hash_table" and n :: "'a hash_node" and key
  assume inv: "ht_inv t"
  show "hn_key n = key" if "ht_map t key = Some n" using that lookup_key by (auto simp: ht_map_def)
  show "ht_inv (ht_put n t)" "ht_map (ht_put n t) = (ht_map t)(hn_key n \<mapsto> n)"
    using hashtable_insert_ok[OF inv, of "hn_key n" "hn_data n"] unfolding ht_put_def by fastforce+
  show "ht_inv (ht_del key t)" "ht_map (ht_del key t) = (ht_map t)(key := None)"
    using hashtable_remove_ok[OF inv, of key] unfolding ht_del_def by fastforce+
qed simp

section \<open>Iteration\<close>

text \<open>What is still to come.\<close>

definition iter_rest :: "'a hash_table \<Rightarrow> 'a hash_iterator \<Rightarrow> 'a hash_node list" where
  "iter_rest t it = it_node it @ concat (drop (Suc (it_index it)) (ht_nodes t))"

lemma getnext_rest:
  assumes "length (ht_nodes t) = unat (ht_size t)"
  shows "case iter_rest t it of
      [] \<Rightarrow> \<not> snd (snd (hashtable_iterator_getnext t it))
    | n # rest \<Rightarrow> \<exists>it'. hashtable_iterator_getnext t it = (it', hn_data n, True) \<and> iter_rest t it' = rest"
  using assms
proof (induction t it rule: hashtable_iterator_getnext.induct)
  case step: (1 t it)
  show ?case
  proof (cases "it_node it")
    case (Cons n rest)
    then show ?thesis by (subst hashtable_iterator_getnext.simps) (simp add: iter_rest_def hashtable_iterator_getnext.simps)
  next
    case Nil
    show ?thesis
    proof (cases "unat (ht_size t) \<le> Suc (it_index it)")
      case True
      then have "iter_rest t it = []" using Nil step.prems by (simp add: iter_rest_def)
      then show ?thesis using True Nil by (simp add: hashtable_iterator_getnext.simps)
    next
      case False
      let ?it = "it\<lparr>it_index := Suc (it_index it), it_node := ht_nodes t ! Suc (it_index it)\<rparr>"
      have nx: "hashtable_iterator_getnext t it = hashtable_iterator_getnext t ?it"
        using Nil False by (subst hashtable_iterator_getnext.simps) simp
      have "drop (Suc (it_index it)) (ht_nodes t) = ht_nodes t ! Suc (it_index it) # drop (Suc (Suc (it_index it))) (ht_nodes t)"
        using False step.prems by (intro Cons_nth_drop_Suc[symmetric]) simp
      then have "iter_rest t it = iter_rest t ?it" using Nil by (simp add: iter_rest_def)
      then show ?thesis unfolding nx using step.IH[OF Nil False step.prems] by (simp only:)
    qed
  qed
qed

lemma iterate_all_rest:
  assumes "length (ht_nodes t) = unat (ht_size t)" and "length (iter_rest t it) < n"
  shows "iterate_all t it n = Some (map hn_data (iter_rest t it))"
  using assms(2)
proof (induction n arbitrary: it)
  case (Suc n)
  show ?case
  proof (cases "iter_rest t it")
    case Nil
    then show ?thesis using getnext_rest[OF assms(1), of it] by (auto split: prod.splits)
  next
    case (Cons x rest)
    then obtain it' where "hashtable_iterator_getnext t it = (it', hn_data x, True)" "iter_rest t it' = rest"
      using getnext_rest[OF assms(1), of it] by auto
    then show ?thesis using Suc Cons by simp
  qed
qed simp

lemma iterate_all_ok:
  assumes "ht_inv t"
  shows "\<exists>it. hashtable_get_iterator t = Inr it
    \<and> iterate_all t it (Suc (length (concat (ht_nodes t)))) = Some (map hn_data (concat (ht_nodes t)))"
proof -
  have len: "length (ht_nodes t) = unat (ht_size t)" "ht_nodes t \<noteq> []"
    using assms bucket_bound[OF assms, of 0] by (auto simp: ht_inv_def)
  let ?it = "\<lparr>it_index = 0, it_node = ht_nodes t ! 0\<rparr>"
  have "iter_rest t ?it = concat (ht_nodes t)" using len(2) by (cases "ht_nodes t") (simp_all add: iter_rest_def)
  then show ?thesis using iterate_all_rest[OF len(1), of ?it] len(2) by (simp add: hashtable_get_iterator_def del: iterate_all.simps)
qed

text \<open>The nodes of all chains are the graph of the map, each key once.\<close>

lemma nodes_in_map:
  assumes inv: "ht_inv t"
  shows "n \<in> set (concat (ht_nodes t)) \<longleftrightarrow> ht_map t (hn_key n) = Some n"
proof
  assume "n \<in> set (concat (ht_nodes t))"
  then obtain l where "l \<in> set (ht_nodes t)" "n \<in> set l" by auto
  then obtain b where b: "b < length (ht_nodes t)" "n \<in> set (ht_nodes t ! b)" by (metis in_set_conv_nth)
  then have d: "distinct (map hn_key (ht_nodes t ! b))" "bucket_of t (hn_key n) = b" using inv by (simp_all add: ht_inv_def)
  obtain m where m: "lookup hn_key (ht_nodes t ! b) (hn_key n) = Some m" using b(2) by (fastforce simp: lookup_None)
  then have "m \<in> set (ht_nodes t ! b)" "hn_key m = hn_key n" using lookup_key by (auto simp: find_Some_iff)
  then have "m = n" using d(1) b(2) by (auto simp: distinct_map inj_on_def)
  then show "ht_map t (hn_key n) = Some n" using m d(2) by (simp add: ht_map_def)
next
  assume "ht_map t (hn_key n) = Some n"
  then have "n \<in> set (chain t (hn_key n))" unfolding ht_map_def find_Some_iff by (metis nth_mem)
  then show "n \<in> set (concat (ht_nodes t))" using bucket_bound[OF inv, of "hn_key n"] by auto
qed

lemma distinct_buckets:
  assumes "\<And>b. b < length ls \<Longrightarrow> distinct (map key (ls ! b)) \<and> (\<forall>n \<in> set (ls ! b). bk (key n) = k + b)"
  shows "distinct (map key (concat ls))"
  using assms
proof (induction ls arbitrary: k)
  case (Cons l ls)
  have "distinct (map key (concat ls))" by (rule Cons.IH[of "Suc k"]) (use Cons.prems[of "Suc _"] in auto)
  moreover have "bk (key n) \<ge> Suc k" if "n \<in> set (concat ls)" for n
  proof -
    obtain x where "x \<in> set ls" "n \<in> set x" using \<open>n \<in> set (concat ls)\<close> by auto
    then obtain b where "b < length ls" "n \<in> set (ls ! b)" by (metis in_set_conv_nth)
    then show ?thesis using Cons.prems[of "Suc b"] by simp
  qed
  then have "key ` set l \<inter> key ` set (concat ls) = {}" using Cons.prems[of 0] by fastforce
  ultimately show ?case using Cons.prems[of 0] by simp
qed simp

lemma nodes_distinct: "ht_inv t \<Longrightarrow> distinct (map hn_key (concat (ht_nodes t)))"
  by (rule distinct_buckets[where bk = "bucket_of t" and k = 0]) (simp add: ht_inv_def)

section \<open>Sequences of operations\<close>

datatype 'a ht_op = Ht_Insert u64 "'a option" | Ht_Remove u64

fun ht_run :: "'a ht_op list \<Rightarrow> 'a hash_table option \<Rightarrow> 'a hash_table option res" where
  "ht_run [] t = Inr t"
| "ht_run (Ht_Insert k d # ops) t = bindE (hashtable_insert t k d) (\<lambda>(t, _). ht_run ops t)"
| "ht_run (Ht_Remove k # ops) t = bindE (hashtable_remove t k) (\<lambda>(t, _). ht_run ops t)"

text \<open>The same on a map from keys to data, and what is inserted on the way.\<close>

fun map_run :: "'a ht_op list \<Rightarrow> (u64 \<rightharpoonup> 'a option) \<Rightarrow> (u64 \<rightharpoonup> 'a option)" where
  "map_run [] m = m"
| "map_run (Ht_Insert k d # ops) m = map_run ops (m(k \<mapsto> d))"
| "map_run (Ht_Remove k # ops) m = map_run ops (m(k := None))"

fun inserted :: "'a ht_op list \<Rightarrow> 'a multiset" where
  "inserted [] = {#}"
| "inserted (Ht_Insert k d # ops) = (case d of None \<Rightarrow> {#} | Some x \<Rightarrow> {#x#}) + inserted ops"
| "inserted (Ht_Remove k # ops) = inserted ops"

definition ht_abs :: "'a hash_table \<Rightarrow> (u64 \<rightharpoonup> 'a option)" where
  "ht_abs t key = map_option hn_data (ht_map t key)"

lemma ht_run_ok:
  assumes "ht_inv t"
  shows "\<exists>t'. ht_run ops (Some t) = Inr (Some t') \<and> ht_inv t' \<and> ht_abs t' = map_run ops (ht_abs t)
    \<and> ht_data t' + mset (ht_freed t') = ht_data t + mset (ht_freed t) + inserted ops"
  using assms
proof (induction ops arbitrary: t)
  case (Cons op ops)
  show ?case
  proof (cases op)
    case (Ht_Insert k d)
    obtain t1 rc where t1: "hashtable_insert (Some t) k d = Inr (Some t1, rc)" "ht_inv t1"
      "ht_map t1 = (ht_map t)(k \<mapsto> \<lparr>hn_key = k, hn_data = d\<rparr>)"
      "ht_data t1 + mset (ht_freed t1) = ht_data t + mset (ht_freed t) + (case d of None \<Rightarrow> {#} | Some x \<Rightarrow> {#x#})"
      by (rule hashtable_insert_ok[OF Cons.prems, of k d]) blast
    have "ht_abs t1 = (ht_abs t)(k \<mapsto> d)" by (simp add: ht_abs_def t1(3) fun_eq_iff)
    with Cons.IH[OF t1(2)] obtain t' where "ht_run ops (Some t1) = Inr (Some t')" "ht_inv t'" "ht_abs t' = map_run ops ((ht_abs t)(k \<mapsto> d))"
      "ht_data t' + mset (ht_freed t') = ht_data t + mset (ht_freed t) + inserted (op # ops)"
      unfolding t1(4) Ht_Insert inserted.simps by (metis add.assoc)
    then show ?thesis using t1(1) Ht_Insert by simp
  next
    case (Ht_Remove k)
    obtain t1 rc where t1: "hashtable_remove (Some t) k = Inr (Some t1, rc)" "ht_inv t1" "ht_map t1 = (ht_map t)(k := None)"
      "ht_data t1 + mset (ht_freed t1) = ht_data t + mset (ht_freed t)"
      by (rule hashtable_remove_ok[OF Cons.prems, of k]) blast
    have "ht_abs t1 = (ht_abs t)(k := None)" by (simp add: ht_abs_def t1(3) fun_eq_iff)
    with Cons.IH[OF t1(2)] show ?thesis using t1(1,4) Ht_Remove by (auto simp: fun_upd_def)
  qed
qed simp

lemma destroy_frees:
  "mset (ht_freed (foldl (\<lambda>t n. free_data (hn_data n) t) t ns)) = mset (ht_freed t) + chain_data ns"
  by (induction ns arbitrary: t) (auto simp: chain_data_def node_data_def ac_simps)

lemma chain_data_concat: "chain_data (concat ls) = sum_list (map chain_data ls)"
  by (induction ls) (auto simp: chain_data_def)

text \<open>
  Property C8. The hash table implements a finite map, whatever its size and hash function: after any sequence of insertions
  and removals a lookup finds exactly what the map has, an iterator returns every datum once and then ends, and
  destroying the table has freed, over its life, everything that was inserted, each exactly once.
\<close>

theorem hash_table_implements_map:
  fixes f :: "(u64 \<Rightarrow> u64) option" and ops :: "'a ht_op list"
  assumes "n \<noteq> 0"
  defines "m \<equiv> map_run ops Map.empty"
  shows "\<exists>t it ds. ht_run ops (Some (hashtable_create n f)) = Inr (Some t)
    \<and> (\<forall>k. hashtable_get (Some t) k =
          Inr (case m k of None \<Rightarrow> (HASH_TABLE_KEY_NOT_EXISTS, None) | Some d \<Rightarrow> (HASH_TABLE_OK, d)))
    \<and> hashtable_get_iterator t = Inr it \<and> iterate_all t it (Suc (card (dom m))) = Some ds
    \<and> mset ds = image_mset (\<lambda>k. the (m k)) (mset_set (dom m))
    \<and> mset (snd (snd (hashtable_destroy (Some t)))) = inserted ops"
proof -
  let ?t0 = "hashtable_create n f :: 'a hash_table"
  note t0 = hashtable_create_ok[OF assms(1) refl[of ?t0]]
  have abs0: "ht_abs ?t0 = Map.empty" using t0(2) by (simp add: ht_abs_def fun_eq_iff)
  obtain t where t: "ht_run ops (Some ?t0) = Inr (Some t)" "ht_inv t" "ht_abs t = m"
      "ht_data t + mset (ht_freed t) = inserted ops"
    using ht_run_ok[OF t0(1), of ops] t0(3) abs0 by (auto simp: m_def hashtable_create_def)
  let ?ns = "concat (ht_nodes t)"
  have keys: "set (map hn_key ?ns) = dom m"
  proof (intro set_eqI iffI)
    fix k assume "k \<in> set (map hn_key ?ns)"
    then obtain x where "x \<in> set ?ns" "k = hn_key x" unfolding set_map by blast
    then show "k \<in> dom m" using nodes_in_map[OF t(2), of x] by (auto simp: t(3)[symmetric] ht_abs_def dom_def)
  next
    fix k assume "k \<in> dom m"
    then obtain x where x: "ht_map t k = Some x" by (auto simp: t(3)[symmetric] ht_abs_def)
    then have "hn_key x = k" using htab.get_key[OF t(2)] by blast
    then show "k \<in> set (map hn_key ?ns)" using x nodes_in_map[OF t(2), of x] unfolding set_map by blast
  qed
  have card: "length ?ns = card (dom m)" using nodes_distinct[OF t(2)] keys by (metis distinct_card length_map)
  have val: "m (hn_key x) = Some (hn_data x)" if "x \<in> set ?ns" for x
    using that nodes_in_map[OF t(2), of x] by (simp add: t(3)[symmetric] ht_abs_def)
  have "map hn_data ?ns = map (\<lambda>k. the (m k)) (map hn_key ?ns)"
    unfolding map_map comp_def by (rule map_cong[OF refl]) (simp only: val option.sel)
  then have "mset (map hn_data ?ns) = image_mset (\<lambda>k. the (m k)) (mset (map hn_key ?ns))" by (simp only: mset_map)
  also have "mset (map hn_key ?ns) = mset_set (dom m)" using nodes_distinct[OF t(2)] keys mset_set_set by metis
  finally have ds: "mset (map hn_data ?ns) = image_mset (\<lambda>k. the (m k)) (mset_set (dom m))" .
  have get: "hashtable_get (Some t) k = Inr (case m k of None \<Rightarrow> (HASH_TABLE_KEY_NOT_EXISTS, None) | Some d \<Rightarrow> (HASH_TABLE_OK, d))" for k
    using hashtable_get_ok(1)[OF t(2), of k] by (simp add: t(3)[symmetric] ht_abs_def split: option.splits)
  have "mset (snd (snd (hashtable_destroy (Some t)))) = inserted ops"
    using t(4) by (simp add: hashtable_destroy_def destroy_frees chain_data_concat ht_data_def ac_simps)
  then show ?thesis using t(1) get iterate_all_ok[OF t(2)] ds card by metis
qed

theorem hash_table_implements_map_witness:
  "\<exists>t it ds. ht_run [Ht_Insert 3 (Some True), Ht_Insert 10 None, Ht_Insert 3 (Some False), Ht_Remove 4] (Some (hashtable_create 7 None))
      = Inr (Some t) \<and> hashtable_get (Some t) 3 = Inr (HASH_TABLE_OK, Some False)
    \<and> hashtable_get_iterator t = Inr it \<and> iterate_all t it 3 = Some ds
    \<and> mset (snd (snd (hashtable_destroy (Some t)))) = {#True, False#}"
proof -
  let ?ops = "[Ht_Insert 3 (Some True), Ht_Insert 10 None, Ht_Insert 3 (Some False), Ht_Remove 4] :: bool ht_op list"
  have m: "map_run ?ops Map.empty = [3 \<mapsto> Some False, 10 \<mapsto> None]" by (simp add: fun_eq_iff)
  have c: "card (dom [3 :: u64 \<mapsto> Some False, 10 \<mapsto> (None :: bool option)]) = 2" by simp
  have "(7 :: u64) \<noteq> 0" by simp
  from hash_table_implements_map[OF this, of ?ops None] show ?thesis unfolding m c by (fastforce simp: numeral_3_eq_3)
qed

end
