(* ===== verification/F1ap_Ids.thy ===== *)
theory F1ap_Ids
  imports Hash_Table
begin

text \<open>
  The UE identifiers of the other side of F1 (\<open>openair2/F1AP/f1ap_ids.c\<close>): a CU and a DU have for each UE the identifier
  that the other one uses, and the associations it is reached by. Each of the two tables is a hash table behind a
  mutex that every function holds from beginning to end.
\<close>

record f1_ue_data_t =
  f1_secondary_ue :: u32
  f1_e1_assoc_id :: int
  f1_du_assoc_id :: int

type_synonym f1_table = "f1_ue_data_t hash_table option"

definition get_hashtable_data :: "f1_table \<Rightarrow> u64 \<Rightarrow> f1_ue_data_t res" where
  "get_hashtable_data ht ue_id =
     bindE (hashtable_get ht ue_id) (\<lambda>(ret, data).
       case data of Some d \<Rightarrow> if ret = HASH_TABLE_OK then Inr d else Inl Assert_Fatal | None \<Rightarrow> Inl Assert_Fatal)"

definition add_hashtable_data :: "f1_table \<Rightarrow> u64 \<Rightarrow> f1_ue_data_t \<Rightarrow> (f1_table \<times> bool) res" where
  "add_hashtable_data ht ue_id data =
     bindE (hashtable_insert ht ue_id (Some data)) (\<lambda>(ht, ret). Inr (ht, ret = HASH_TABLE_OK))"

section \<open>The table of the CU\<close>

definition cu_init_f1_ue_data :: "f1_table \<Rightarrow> f1_table res" where
  "cu_init_f1_ue_data ht = (if ht \<noteq> None then Inl Assert_Fatal else Inr (Some (hashtable_create 1319 None)))"

definition cu_add_f1_ue_data :: "f1_table \<Rightarrow> u32 \<Rightarrow> f1_ue_data_t \<Rightarrow> (f1_table \<times> bool) res" where
  "cu_add_f1_ue_data ht ue_id data =
     (if ht = None then Inl Assert_Fatal
      else bindE (hashtable_is_key_exists ht (ucast ue_id)) (\<lambda>ret.
        if ret = HASH_TABLE_OK then Inr (ht, False) else add_hashtable_data ht (ucast ue_id) data))"

definition cu_exists_f1_ue_data :: "f1_table \<Rightarrow> u32 \<Rightarrow> bool res" where
  "cu_exists_f1_ue_data ht ue_id =
     (if ht = None then Inl Assert_Fatal
      else bindE (hashtable_is_key_exists ht (ucast ue_id)) (\<lambda>ret. Inr (ret = HASH_TABLE_OK)))"

definition cu_update_f1_ue_data :: "f1_table \<Rightarrow> u32 \<Rightarrow> f1_ue_data_t \<Rightarrow> (f1_table \<times> bool) res" where
  "cu_update_f1_ue_data ht ue_id data =
     (if ht = None then Inl Assert_Fatal
      else bindE (hashtable_remove ht (ucast ue_id)) (\<lambda>(ht, retrm).
        if retrm \<noteq> HASH_TABLE_OK then Inl Assert_Fatal else add_hashtable_data ht (ucast ue_id) data))"

definition cu_get_f1_ue_data :: "f1_table \<Rightarrow> u32 \<Rightarrow> f1_ue_data_t res" where
  "cu_get_f1_ue_data ht ue_id = (if ht = None then Inl Assert_Fatal else get_hashtable_data ht (ucast ue_id))"

definition cu_remove_f1_ue_data :: "f1_table \<Rightarrow> u32 \<Rightarrow> (f1_table \<times> bool) res" where
  "cu_remove_f1_ue_data ht ue_id =
     (if ht = None then Inl Assert_Fatal
      else bindE (hashtable_remove ht (ucast ue_id)) (\<lambda>(ht, ret). Inr (ht, ret = HASH_TABLE_OK)))"

section \<open>The table of the DU\<close>

text \<open>The same code on a table of its own; a DU does not update.\<close>

definition du_init_f1_ue_data :: "f1_table \<Rightarrow> f1_table res" where
  "du_init_f1_ue_data = cu_init_f1_ue_data"

definition du_add_f1_ue_data :: "f1_table \<Rightarrow> u32 \<Rightarrow> f1_ue_data_t \<Rightarrow> (f1_table \<times> bool) res" where
  "du_add_f1_ue_data = cu_add_f1_ue_data"

definition du_exists_f1_ue_data :: "f1_table \<Rightarrow> u32 \<Rightarrow> bool res" where
  "du_exists_f1_ue_data = cu_exists_f1_ue_data"

definition du_get_f1_ue_data :: "f1_table \<Rightarrow> u32 \<Rightarrow> f1_ue_data_t res" where
  "du_get_f1_ue_data = cu_get_f1_ue_data"

definition du_remove_f1_ue_data :: "f1_table \<Rightarrow> u32 \<Rightarrow> (f1_table \<times> bool) res" where
  "du_remove_f1_ue_data = cu_remove_f1_ue_data"

section \<open>What the tables hold\<close>

text \<open>A table that has been initialised, and the finite map it stands for.\<close>

definition f1_ok :: "f1_table \<Rightarrow> bool" where
  "f1_ok ht \<longleftrightarrow> (case ht of None \<Rightarrow> False | Some t \<Rightarrow> ht_inv t \<and> (\<forall>k n. ht_map t k = Some n \<longrightarrow> hn_data n \<noteq> None))"

definition f1_map :: "f1_table \<Rightarrow> u32 \<Rightarrow> f1_ue_data_t option" where
  "f1_map ht ue_id = (case ht of None \<Rightarrow> None | Some t \<Rightarrow> Option.bind (ht_map t (ucast ue_id)) hn_data)"

lemma f1_init: "\<exists>ht. cu_init_f1_ue_data None = Inr ht \<and> f1_ok ht \<and> f1_map ht = (\<lambda>_. None)"
  using hashtable_create_ok[of 1319 "hashtable_create 1319 None :: f1_ue_data_t hash_table" None]
  by (simp add: cu_init_f1_ue_data_def f1_ok_def f1_map_def fun_eq_iff)

lemma f1_get: "f1_ok ht \<Longrightarrow> cu_get_f1_ue_data ht ue = (case f1_map ht ue of None \<Rightarrow> Inl Assert_Fatal | Some d \<Rightarrow> Inr d)"
  by (auto simp: cu_get_f1_ue_data_def get_hashtable_data_def f1_ok_def f1_map_def hashtable_get_ok split: option.splits)

lemma f1_map_None: "f1_ok (Some t) \<Longrightarrow> f1_map (Some t) ue = None \<longleftrightarrow> ht_map t (ucast ue) = None"
  by (cases "ht_map t (ucast ue)") (auto simp: f1_ok_def f1_map_def)

lemma ucast_u32_inj: "(ucast a :: u64) = ucast b \<longleftrightarrow> a = (b :: u32)"
  by transfer (simp add: take_bit_take_bit min_def)

text \<open>Adding what is not there, for the two operations that do.\<close>

lemma f1_put:
  assumes ok: "f1_ok (Some t)" and new: "ht_map t (ucast ue) = None"
  shows "\<exists>ht'. add_hashtable_data (Some t) (ucast ue) d = Inr (ht', True) \<and> f1_ok ht' \<and> f1_map ht' = (f1_map (Some t))(ue \<mapsto> d)"
proof -
  have inv: "ht_inv t" using ok by (simp add: f1_ok_def)
  obtain t' where t': "hashtable_insert (Some t) (ucast ue) (Some d) = Inr (Some t', HASH_TABLE_OK)" "ht_inv t'"
      "ht_map t' = (ht_map t)(ucast ue \<mapsto> \<lparr>hn_key = ucast ue, hn_data = Some d\<rparr>)"
    using hashtable_insert_ok[OF inv, of "ucast ue" "Some d"] new by auto
  have "f1_ok (Some t')" using ok t'(2) by (simp add: f1_ok_def t'(3))
  moreover have "f1_map (Some t') = (f1_map (Some t))(ue \<mapsto> d)"
    by (simp add: f1_map_def t'(3) fun_eq_iff ucast_u32_inj)
  ultimately show ?thesis using t'(1) by (simp add: add_hashtable_data_def)
qed

lemma f1_take:
  assumes ok: "f1_ok (Some t)"
  shows "\<exists>t'. hashtable_remove (Some t) (ucast ue) =
      Inr (Some t', if f1_map (Some t) ue = None then HASH_TABLE_KEY_NOT_EXISTS else HASH_TABLE_OK)
    \<and> f1_ok (Some t') \<and> f1_map (Some t') = (f1_map (Some t))(ue := None) \<and> ht_map t' (ucast ue) = None"
proof -
  have inv: "ht_inv t" using ok by (simp add: f1_ok_def)
  obtain t' where t': "hashtable_remove (Some t) (ucast ue) =
      Inr (Some t', if ht_map t (ucast ue) = None then HASH_TABLE_KEY_NOT_EXISTS else HASH_TABLE_OK)" "ht_inv t'"
      "ht_map t' = (ht_map t)(ucast ue := None)"
    using hashtable_remove_ok[OF inv, of "ucast ue"] by metis
  have "f1_ok (Some t')" using ok t'(2) by (simp add: f1_ok_def t'(3))
  moreover have "f1_map (Some t') = (f1_map (Some t))(ue := None)" by (simp add: f1_map_def t'(3) fun_eq_iff ucast_u32_inj)
  ultimately show ?thesis using t'(1,3) f1_map_None[OF ok, of ue] by simp
qed

lemma f1_add:
  assumes "f1_ok ht"
  shows "\<exists>ht'. cu_add_f1_ue_data ht ue d = Inr (ht', f1_map ht ue = None) \<and> f1_ok ht'
    \<and> f1_map ht' = (if f1_map ht ue = None then (f1_map ht)(ue \<mapsto> d) else f1_map ht)"
proof -
  obtain t where t: "ht = Some t" "ht_inv t" using assms by (auto simp: f1_ok_def split: option.splits)
  show ?thesis
  proof (cases "f1_map ht ue")
    case None
    then have "ht_map t (ucast ue) = None" using f1_map_None assms t(1) by blast
    then show ?thesis using f1_put[of t ue d] assms t None by (simp add: cu_add_f1_ue_data_def hashtable_get_ok)
  next
    case (Some x)
    then have "ht_map t (ucast ue) \<noteq> None" using f1_map_None[of t ue] assms t(1) by auto
    then show ?thesis using assms t Some by (auto simp: cu_add_f1_ue_data_def hashtable_get_ok)
  qed
qed

lemma f1_update:
  assumes "f1_ok ht"
  shows "case f1_map ht ue of
      None \<Rightarrow> cu_update_f1_ue_data ht ue d = Inl Assert_Fatal
    | Some _ \<Rightarrow> \<exists>ht'. cu_update_f1_ue_data ht ue d = Inr (ht', True) \<and> f1_ok ht' \<and> f1_map ht' = (f1_map ht)(ue \<mapsto> d)"
proof -
  obtain t where t: "ht = Some t" using assms by (auto simp: f1_ok_def split: option.splits)
  obtain t' where t': "hashtable_remove (Some t) (ucast ue) =
        Inr (Some t', if f1_map (Some t) ue = None then HASH_TABLE_KEY_NOT_EXISTS else HASH_TABLE_OK)"
      "f1_ok (Some t')" "f1_map (Some t') = (f1_map (Some t))(ue := None)" "ht_map t' (ucast ue) = None"
    using f1_take[of t ue] assms t by blast
  show ?thesis using f1_put[OF t'(2,4), of d] t'(1,3) t by (auto simp: cu_update_f1_ue_data_def split: option.splits)
qed

lemma f1_remove:
  assumes "f1_ok ht"
  shows "\<exists>ht'. cu_remove_f1_ue_data ht ue = Inr (ht', f1_map ht ue \<noteq> None) \<and> f1_ok ht' \<and> f1_map ht' = (f1_map ht)(ue := None)"
proof -
  obtain t where t: "ht = Some t" using assms by (auto simp: f1_ok_def split: option.splits)
  show ?thesis using f1_take[of t ue] assms unfolding t by (auto simp: cu_remove_f1_ue_data_def)
qed

text \<open>A table with one UE, for the examples of other theories.\<close>

definition f1_example :: "u32 \<Rightarrow> u32 \<Rightarrow> f1_table" where
  "f1_example ue other =
     (case cu_add_f1_ue_data (Some (hashtable_create 5 None)) ue \<lparr>f1_secondary_ue = other, f1_e1_assoc_id = 0, f1_du_assoc_id = 0\<rparr> of
        Inl _ \<Rightarrow> None | Inr (ht, _) \<Rightarrow> ht)"

lemma f1_example_ok: "f1_ok (f1_example ue other)" "f1_map (f1_example ue other) ue \<noteq> None"
proof -
  let ?ht = "Some (hashtable_create 5 None) :: f1_table" and ?d = "\<lparr>f1_secondary_ue = other, f1_e1_assoc_id = 0, f1_du_assoc_id = 0\<rparr>"
  have "f1_ok ?ht" "f1_map ?ht = (\<lambda>_. None)"
    using hashtable_create_ok[of 5 "hashtable_create 5 None :: f1_ue_data_t hash_table" None] by (simp_all add: f1_ok_def f1_map_def fun_eq_iff)
  then obtain ht' where "cu_add_f1_ue_data ?ht ue ?d = Inr (ht', True)" "f1_ok ht'" "f1_map ht' = [ue \<mapsto> ?d]"
    using f1_add[of ?ht ue ?d] by auto
  then show "f1_ok (f1_example ue other)" "f1_map (f1_example ue other) ue \<noteq> None" by (simp_all add: f1_example_def)
qed

text \<open>
  The UE data of F1 is a finite map from UE identifiers. Adding refuses an identifier that is there and leaves its data,
  updating replaces the data of one that is there and stops the program otherwise, a lookup returns the data or stops the
  program, removing says whether there was something to remove; nothing touches another UE.
\<close>

lemma f1_ue_data_spec:
  assumes "f1_ok ht"
  shows "cu_get_f1_ue_data ht ue = (case f1_map ht ue of None \<Rightarrow> Inl Assert_Fatal | Some d \<Rightarrow> Inr d)"
    and "cu_exists_f1_ue_data ht ue = Inr (f1_map ht ue \<noteq> None)"
    and "\<exists>ht'. cu_add_f1_ue_data ht ue d = Inr (ht', f1_map ht ue = None) \<and> f1_ok ht'
      \<and> f1_map ht' = (if f1_map ht ue = None then (f1_map ht)(ue \<mapsto> d) else f1_map ht)"
    and "case f1_map ht ue of
        None \<Rightarrow> cu_update_f1_ue_data ht ue d = Inl Assert_Fatal
      | Some _ \<Rightarrow> \<exists>ht'. cu_update_f1_ue_data ht ue d = Inr (ht', True) \<and> f1_ok ht' \<and> f1_map ht' = (f1_map ht)(ue \<mapsto> d)"
    and "\<exists>ht'. cu_remove_f1_ue_data ht ue = Inr (ht', f1_map ht ue \<noteq> None) \<and> f1_ok ht' \<and> f1_map ht' = (f1_map ht)(ue := None)"
proof -
  obtain t where t: "ht = Some t" "ht_inv t" using assms by (auto simp: f1_ok_def split: option.splits)
  show "cu_exists_f1_ue_data ht ue = Inr (f1_map ht ue \<noteq> None)"
    using t assms f1_map_None[of t ue] by (simp add: cu_exists_f1_ue_data_def hashtable_get_ok)
qed (rule f1_get[OF assms] f1_add[OF assms] f1_update[OF assms] f1_remove[OF assms])+

end
