(* ===== verification/PDCP_Api.thy ===== *)
theory PDCP_Api
  imports PDCP_Props SDAP_Props Data_Queue Asn1_Values F1ap_Ids
begin

text \<open>
  The PDCP layer as the rest of the program sees it: the UE manager (\<open>nr_pdcp_ue_manager.c\<close>),
  the API (\<open>nr_pdcp_oai_api.c\<close>) and the timer thread (\<open>nr_pdcp_timer_thread.c\<close>).

  The manager's mutex is held from the first access to the last of every operation, so each operation is
  one function on the state. The state is the manager and the list of SDAP entities, because PDCP calls
  SDAP with every SDU of a DRB and SDAP calls PDCP back with control PDUs. Calls that leave the two layers
  are events: requests put into the RLC queue, packets for GTP-U, messages for RRC. An end marker that
  SDAP submits while an SDU is being delivered is sent after the operation that delivered the SDU;
  transmission and reception use different fields of an entity, so the order does not matter.

  What the API takes from elsewhere is a record of parameters: the cryptographic library, the role of the
  node, the F1 table of the UE identifiers of the DU, and the content of uninitialised stack memory.
\<close>

section \<open>The UE manager\<close>

record pdcp_ue =
  pu_id :: u64
  pu_srb :: "pdcp_entity option list"
  pu_drb :: "pdcp_entity option list"

record pdcp_manager =
  pm_ue_list :: "pdcp_ue list"
  pm_enb_flag :: bool

definition new_nr_pdcp_ue_manager :: "bool \<Rightarrow> pdcp_manager" where
  "new_nr_pdcp_ue_manager enb_flag = \<lparr>pm_ue_list = [], pm_enb_flag = enb_flag\<rparr>"

definition nr_pdcp_manager_get_enb_flag :: "pdcp_manager \<Rightarrow> bool" where
  "nr_pdcp_manager_get_enb_flag m = pm_enb_flag m"

definition zero_ue :: "u64 \<Rightarrow> pdcp_ue" where
  "zero_ue ue_id = \<lparr>pu_id = ue_id, pu_srb = replicate 3 None, pu_drb = replicate 32 None\<rparr>"

text \<open>The position of the UE in the list; a UE that is not there is created.\<close>

definition nr_pdcp_manager_get_ue :: "pdcp_manager \<Rightarrow> u64 \<Rightarrow> pdcp_manager \<times> nat" where
  "nr_pdcp_manager_get_ue m ue_id =
     (let i = index_of pu_id ue_id (pm_ue_list m)
      in if i < length (pm_ue_list m) then (m, i)
         else (m\<lparr>pm_ue_list := pm_ue_list m @ [zero_ue ue_id]\<rparr>, length (pm_ue_list m)))"

definition nr_pdcp_manager_remove_ue :: "pdcp_manager \<Rightarrow> u64 \<Rightarrow> pdcp_manager" where
  "nr_pdcp_manager_remove_ue m ue_id =
     (let i = index_of pu_id ue_id (pm_ue_list m)
      in if i = length (pm_ue_list m) then m else m\<lparr>pm_ue_list := remove_nth i (pm_ue_list m)\<rparr>)"

definition nr_pdcp_ue_add_srb_pdcp_entity :: "pdcp_ue \<Rightarrow> int \<Rightarrow> pdcp_entity \<Rightarrow> pdcp_ue res" where
  "nr_pdcp_ue_add_srb_pdcp_entity u srb_id e =
     (if srb_id < 1 \<or> 2 < srb_id then Inl Exit_Failure
      else let k = nat (srb_id - 1)
           in if pu_srb u ! k \<noteq> None then Inl Exit_Failure else Inr (u\<lparr>pu_srb := (pu_srb u)[k := Some e]\<rparr>))"

definition nr_pdcp_ue_add_drb_pdcp_entity :: "pdcp_ue \<Rightarrow> int \<Rightarrow> pdcp_entity \<Rightarrow> pdcp_ue res" where
  "nr_pdcp_ue_add_drb_pdcp_entity u drb_id e =
     (if drb_id < 1 \<or> 5 < drb_id then Inl Exit_Failure
      else let k = nat (drb_id - 1)
           in if pu_drb u ! k \<noteq> None then Inl Exit_Failure else Inr (u\<lparr>pu_drb := (pu_drb u)[k := Some e]\<rparr>))"

definition nr_pdcp_get_first_ue_id :: "pdcp_manager \<Rightarrow> u64 option" where
  "nr_pdcp_get_first_ue_id m = (case pm_ue_list m of [] \<Rightarrow> None | u # _ \<Rightarrow> Some (pu_id u))"

definition nr_pdcp_get_num_ues :: "int \<Rightarrow> pdcp_manager \<Rightarrow> u64 list \<times> nat" where
  "nr_pdcp_get_num_ues len m = (map pu_id (take (nat len) (pm_ue_list m)), length (pm_ue_list m))"

definition nr_pdcp_get_rb :: "pdcp_ue \<Rightarrow> int \<Rightarrow> bool \<Rightarrow> pdcp_entity option" where
  "nr_pdcp_get_rb u rb_id srb_flag =
     (if srb_flag then (if rb_id < 1 \<or> 2 < rb_id then None else pu_srb u ! nat (rb_id - 1))
      else (if rb_id < 1 \<or> 32 < rb_id then None else pu_drb u ! nat (rb_id - 1)))"

text \<open>Writing through the pointer that \<open>nr_pdcp_get_rb\<close> returned.\<close>

definition put_rb :: "pdcp_ue \<Rightarrow> int \<Rightarrow> bool \<Rightarrow> pdcp_entity option \<Rightarrow> pdcp_ue" where
  "put_rb u rb_id srb_flag x =
     (if srb_flag then u\<lparr>pu_srb := (pu_srb u)[nat (rb_id - 1) := x]\<rparr>
      else u\<lparr>pu_drb := (pu_drb u)[nat (rb_id - 1) := x]\<rparr>)"

definition set_ue :: "nat \<Rightarrow> pdcp_ue \<Rightarrow> pdcp_manager \<Rightarrow> pdcp_manager" where
  "set_ue i u m = m\<lparr>pm_ue_list := (pm_ue_list m)[i := u]\<rparr>"

section \<open>Parameters, state and events\<close>

text \<open>The fields of \<open>protocol_ctxt_t\<close> that PDCP reads or writes.\<close>

record protocol_ctxt =
  pc_module_id :: int
  pc_enb_flag :: bool
  pc_instance :: int
  pc_ue_id :: u64
  pc_eNB_index :: int
  pc_brOption :: bool

definition ctxt_for :: "bool \<Rightarrow> u64 \<Rightarrow> protocol_ctxt" where
  "ctxt_for enb_flag ue_id = \<lparr>pc_module_id = 0, pc_enb_flag = enb_flag, pc_instance = 0, pc_ue_id = ue_id,
     pc_eNB_index = 0, pc_brOption = False\<rparr>"

record rlc_data_req_queue_item =
  rq_ctxt :: protocol_ctxt
  rq_srb_flag :: bool
  rq_rb_id :: int
  rq_mui :: u32
  rq_confirm :: int
  rq_sdu :: buffer

record pdcp_data_ind_queue_item =
  pi_ctxt :: protocol_ctxt
  pi_srb_flag :: bool
  pi_rb_id :: int
  pi_sdu :: buffer

text \<open>The two queues as the threads of this file use them: None while the queue is full and the caller has to wait.\<close>

definition enqueue_rlc_data_req ::
    "protocol_ctxt \<Rightarrow> bool \<Rightarrow> int \<Rightarrow> u32 \<Rightarrow> int \<Rightarrow> buffer \<Rightarrow> rlc_data_req_queue_item work_queue \<Rightarrow>
     rlc_data_req_queue_item work_queue option" where
  "enqueue_rlc_data_req ctxt srb_flag rb_id mui confirm sdu q =
     (if wq_length q = RLC_DATA_REQ_QUEUE_SIZE then None
      else Some (wq_put RLC_DATA_REQ_QUEUE_SIZE
        \<lparr>rq_ctxt = ctxt, rq_srb_flag = srb_flag, rq_rb_id = rb_id, rq_mui = mui, rq_confirm = confirm, rq_sdu = sdu\<rparr> q))"

definition enqueue_pdcp_data_ind ::
    "protocol_ctxt \<Rightarrow> bool \<Rightarrow> int \<Rightarrow> buffer \<Rightarrow> pdcp_data_ind_queue_item work_queue \<Rightarrow>
     pdcp_data_ind_queue_item work_queue option" where
  "enqueue_pdcp_data_ind ctxt srb_flag rb_id sdu q =
     (if wq_length q = PDCP_DATA_IND_QUEUE_SIZE then None
      else Some (wq_put PDCP_DATA_IND_QUEUE_SIZE
        \<lparr>pi_ctxt = ctxt, pi_srb_flag = srb_flag, pi_rb_id = rb_id, pi_sdu = sdu\<rparr> q))"

text \<open>
  \<open>env_tun\<close>: IS_SOFTMODEM_NOS1 or UE_NAS_USE_TUN; \<open>env_nos1\<close>: the default session and TUN descriptor in
  noS1 mode; \<open>env_is_cu\<close>: NODE_IS_CU; \<open>env_f1\<close>: the table of the CU with the identifiers that the DU uses;
  \<open>env_n3\<close>: the GTP-U instance; \<open>env_stack\<close>: the bytes of an uninitialised local array.
\<close>

record api_env =
  env_crypto :: crypto
  env_tun :: bool
  env_nos1 :: "(int \<times> int) option"
  env_is_cu :: bool
  env_f1 :: f1_table
  env_n3 :: "int option"
  env_stack :: "nat \<Rightarrow> byte"

record l2_state =
  l2_manager :: pdcp_manager
  l2_sdap :: "sdap_entity list"

datatype api_event =
    Rlc_Data_Req rlc_data_req_queue_item
  | Gtpu_Send_Direct u64 int buffer
  | F1ap_Ul_Rrc_Message u64 u64 int buffer
  | Rrc_Dcch_Data_Ind u64 int buffer pdcp_integrity_data
  | Pdu_Callback u64 int buffer u32
  | Sdap_Effect sdap_event

section \<open>Transmission\<close>

definition deliver_pdu_drb_ue :: "u64 \<Rightarrow> int \<Rightarrow> buffer \<Rightarrow> u32 \<Rightarrow> api_event" where
  "deliver_pdu_drb_ue ue_id rb_id pdu sdu_id =
     Rlc_Data_Req \<lparr>rq_ctxt = ctxt_for False ue_id, rq_srb_flag = False, rq_rb_id = rb_id, rq_mui = sdu_id,
       rq_confirm = 0, rq_sdu = pdu\<rparr>"

text \<open>\<open>cu_get_f1_ue_data(ue_id).secondary_ue\<close>\<close>

definition env_secondary :: "api_env \<Rightarrow> u64 \<Rightarrow> u64 res" where
  "env_secondary env ue_id = map_res (\<lambda>d. ucast (f1_secondary_ue d)) (cu_get_f1_ue_data (env_f1 env) (ucast ue_id))"

lemma env_secondary_known:
  "f1_ok (env_f1 env) \<Longrightarrow> f1_map (env_f1 env) (ucast ue_id) \<noteq> None \<Longrightarrow> \<exists>x. env_secondary env ue_id = Inr x"
  by (auto simp: env_secondary_def f1_get map_res_def)

definition deliver_pdu_drb_gnb :: "api_env \<Rightarrow> u64 \<Rightarrow> int \<Rightarrow> buffer \<Rightarrow> u32 \<Rightarrow> api_event res" where
  "deliver_pdu_drb_gnb env ue_id rb_id pdu sdu_id =
     bindE (env_secondary env ue_id) (\<lambda>secondary_ue.
       Inr (if env_is_cu env then Gtpu_Send_Direct ue_id rb_id pdu
            else Rlc_Data_Req \<lparr>rq_ctxt = ctxt_for True secondary_ue, rq_srb_flag = False, rq_rb_id = rb_id,
              rq_mui = sdu_id, rq_confirm = 0, rq_sdu = pdu\<rparr>))"

definition deliver_pdu_srb_rlc :: "u64 \<Rightarrow> int \<Rightarrow> buffer \<Rightarrow> u32 \<Rightarrow> api_event" where
  "deliver_pdu_srb_rlc ue_id srb_id pdu sdu_id =
     Rlc_Data_Req \<lparr>rq_ctxt = ctxt_for True ue_id, rq_srb_flag = True, rq_rb_id = srb_id, rq_mui = sdu_id,
       rq_confirm = 0, rq_sdu = pdu\<rparr>"

text \<open>
  The common part of \<open>nr_pdcp_data_req_srb\<close> and \<open>nr_pdcp_data_req_drb\<close>: find the bearer, process the SDU into a
  local array of the maximal size. The entity and the PDU, or None when there is no bearer or it is
  suspended.
\<close>

definition process_on_rb ::
    "api_env \<Rightarrow> u64 \<Rightarrow> int \<Rightarrow> bool \<Rightarrow> buffer \<Rightarrow> pdcp_manager \<Rightarrow> (pdcp_manager \<times> (pdcp_entity \<times> buffer) option) res" where
  "process_on_rb env ue_id rb_id srb_flag sdu m =
     (let (m, i) = nr_pdcp_manager_get_ue m ue_id; u = pm_ue_list m ! i in
      case nr_pdcp_get_rb u rb_id srb_flag of
        None \<Rightarrow> Inr (m, None)
      | Some e \<Rightarrow>
          let max_size = nr_max_pdcp_pdu_size (int (length sdu)) in
          bindE (nr_pdcp_entity_process_sdu (env_crypto env) e sdu (map (env_stack env) [0..<nat max_size]) max_size)
            (\<lambda>(e', pdu_size, pdu_buf).
               Inr (set_ue i (put_rb u rb_id srb_flag (Some e')) m,
                    if pdu_size = -1 then None else Some (e', take (nat pdu_size) pdu_buf))))"

text \<open>The third component is the boolean the C function returns.\<close>

definition nr_pdcp_data_req_srb ::
    "api_env \<Rightarrow> u64 \<Rightarrow> int \<Rightarrow> u32 \<Rightarrow> buffer \<Rightarrow> pdcp_manager \<Rightarrow> (pdcp_manager \<times> api_event list \<times> bool) res" where
  "nr_pdcp_data_req_srb env ue_id rb_id mui sdu m =
     bindE (process_on_rb env ue_id rb_id True sdu m) (\<lambda>(m, r).
       case r of None \<Rightarrow> Inr (m, [], False) | Some (e, pdu) \<Rightarrow> Inr (m, [Pdu_Callback ue_id rb_id pdu mui], True))"

definition nr_pdcp_data_req_drb ::
    "api_env \<Rightarrow> protocol_ctxt \<Rightarrow> bool \<Rightarrow> int \<Rightarrow> u32 \<Rightarrow> buffer \<Rightarrow> pdcp_manager \<Rightarrow>
     (pdcp_manager \<times> api_event list \<times> bool) res" where
  "nr_pdcp_data_req_drb env ctxt srb_flag rb_id mui sdu m =
     (if srb_flag then Inl Assert_Fatal
      else if pc_module_id ctxt \<noteq> 0 \<or> pc_instance ctxt \<noteq> 0 \<or> pc_eNB_index ctxt \<noteq> 0 then Inl Exit_Failure
      else bindE (process_on_rb env (pc_ue_id ctxt) rb_id False sdu m) (\<lambda>(m, r).
        case r of
          None \<Rightarrow> Inr (m, [], False)
        | Some (e, pdu) \<Rightarrow>
            bindE (if pe_is_gnb e then deliver_pdu_drb_gnb env (pc_ue_id ctxt) rb_id pdu mui
                   else Inr (deliver_pdu_drb_ue (pc_ue_id ctxt) rb_id pdu mui)) (\<lambda>ev. Inr (m, [ev], True))))"

text \<open>What SDAP hands out: a control PDU becomes a request to PDCP (with the identifier RLC_MUI_UNDEFINED), the rest leaves the two layers.\<close>

definition nr_pdcp_submit_sdap_ctrl_pdu ::
    "api_env \<Rightarrow> u64 \<Rightarrow> int \<Rightarrow> byte \<Rightarrow> pdcp_manager \<Rightarrow> (pdcp_manager \<times> api_event list) res" where
  "nr_pdcp_submit_sdap_ctrl_pdu env ue_id drb pdu m =
     bindE (nr_pdcp_data_req_drb env (ctxt_for False ue_id) False drb 0 [pdu] m) (\<lambda>(m, ev, _). Inr (m, ev))"

fun sdap_effects :: "api_env \<Rightarrow> sdap_event list \<Rightarrow> pdcp_manager \<Rightarrow> (pdcp_manager \<times> api_event list) res" where
  "sdap_effects env [] m = Inr (m, [])"
| "sdap_effects env (Ctrl_Pdu ue_id drb pdu # evs) m =
     bindE (nr_pdcp_submit_sdap_ctrl_pdu env ue_id drb pdu m) (\<lambda>(m, out).
     bindE (sdap_effects env evs m) (\<lambda>(m, out'). Inr (m, out @ out')))"
| "sdap_effects env (ev # evs) m =
     bindE (sdap_effects env evs m) (\<lambda>(m, out). Inr (m, Sdap_Effect ev # out))"

text \<open>\<open>sdap_data_req\<close> with its call of PDCP: an SDU of the user plane on its way down.\<close>

definition sdap_send ::
    "api_env \<Rightarrow> protocol_ctxt \<Rightarrow> u64 \<Rightarrow> bool \<Rightarrow> int \<Rightarrow> u32 \<Rightarrow> buffer option \<Rightarrow> byte \<Rightarrow> bool \<Rightarrow> int \<Rightarrow> l2_state \<Rightarrow>
     (l2_state \<times> api_event list \<times> bool) res" where
  "sdap_send env ctxt ue_id srb_flag rb_id mui sdu qfi rqi pdu s =
     bindE (sdap_data_req ue_id (pc_enb_flag ctxt) rb_id sdu qfi rqi pdu (l2_sdap s)) (\<lambda>(l, r).
       case r of
         None \<Rightarrow> Inr (s\<lparr>l2_sdap := l\<rparr>, [], False)
       | Some (drb, bytes) \<Rightarrow>
           bindE (nr_pdcp_data_req_drb env ctxt srb_flag drb mui bytes (l2_manager s)) (\<lambda>(m, ev, ret).
             Inr (s\<lparr>l2_manager := m, l2_sdap := l\<rparr>, ev, ret)))"

section \<open>Reception and the other operations of a bearer\<close>

text \<open>\<open>deliver_sdu_srb\<close> and \<open>deliver_sdu_drb\<close>; \<open>rb_id\<close> is the position at which the search finds the entity.\<close>

definition deliver_sdu_srb :: "api_env \<Rightarrow> u64 \<Rightarrow> int \<Rightarrow> bool \<Rightarrow> pdcp_sdu \<Rightarrow> api_event res" where
  "deliver_sdu_srb env ue_id srb_id is_gnb sdu =
     (if is_gnb
      then bindE (env_secondary env ue_id) (\<lambda>secondary_ue.
             Inr (F1ap_Ul_Rrc_Message ue_id secondary_ue srb_id (ps_buffer sdu)))
      else Inr (Rrc_Dcch_Data_Ind ue_id srb_id (ps_buffer sdu) (ps_integrity sdu)))"

fun deliver_srb_sdus :: "api_env \<Rightarrow> u64 \<Rightarrow> int \<Rightarrow> bool \<Rightarrow> pdcp_sdu list \<Rightarrow> api_event list res" where
  "deliver_srb_sdus env ue_id srb_id is_gnb [] = Inr []"
| "deliver_srb_sdus env ue_id srb_id is_gnb (sdu # sdus) =
     bindE (deliver_sdu_srb env ue_id srb_id is_gnb sdu) (\<lambda>ev.
     bindE (deliver_srb_sdus env ue_id srb_id is_gnb sdus) (\<lambda>evs. Inr (ev # evs)))"

definition deliver_sdu_drb ::
    "api_env \<Rightarrow> u64 \<Rightarrow> int \<Rightarrow> pdcp_entity \<Rightarrow> pdcp_sdu \<Rightarrow> sdap_entity list \<Rightarrow> (sdap_entity list \<times> sdap_event list) res" where
  "deliver_sdu_drb env ue_id rb_id e sdu l =
     (if env_tun env
      then sdap_data_ind (env_n3 env) (pe_rb_id e) False (pe_has_sdap_rx e) (pe_pdusession_id e) ue_id (ps_buffer sdu) l
      else sdap_data_ind (env_n3 env) rb_id (pe_is_gnb e) (pe_has_sdap_rx e) (pe_pdusession_id e) ue_id (ps_buffer sdu) l)"

fun deliver_drb_sdus ::
    "api_env \<Rightarrow> u64 \<Rightarrow> int \<Rightarrow> pdcp_entity \<Rightarrow> pdcp_sdu list \<Rightarrow> sdap_entity list \<Rightarrow> (sdap_entity list \<times> sdap_event list) res" where
  "deliver_drb_sdus env ue_id rb_id e [] l = Inr (l, [])"
| "deliver_drb_sdus env ue_id rb_id e (sdu # sdus) l =
     bindE (deliver_sdu_drb env ue_id rb_id e sdu l) (\<lambda>(l, ev).
     bindE (deliver_drb_sdus env ue_id rb_id e sdus l) (\<lambda>(l, ev'). Inr (l, ev @ ev')))"

text \<open>An operation of the entity of a bearer, with the SDUs it delivers; nothing if there is no such bearer.\<close>

definition apply_at ::
    "api_env \<Rightarrow> nat \<Rightarrow> int \<Rightarrow> bool \<Rightarrow> (pdcp_entity \<Rightarrow> (pdcp_entity \<times> pdcp_sdu list) res) \<Rightarrow> l2_state \<Rightarrow>
     (l2_state \<times> api_event list) res" where
  "apply_at env i rb_id srb_flag f s =
     (let m = l2_manager s; u = pm_ue_list m ! i in
      case nr_pdcp_get_rb u rb_id srb_flag of
        None \<Rightarrow> Inr (s, [])
      | Some e \<Rightarrow>
          bindE (f e) (\<lambda>(e', sdus).
            let m' = set_ue i (put_rb u rb_id srb_flag (Some e')) m in
            if srb_flag
            then bindE (deliver_srb_sdus env (pu_id u) rb_id (pe_is_gnb e) sdus) (\<lambda>out. Inr (s\<lparr>l2_manager := m'\<rparr>, out))
            else bindE (deliver_drb_sdus env (pu_id u) rb_id e sdus (l2_sdap s)) (\<lambda>(l, evs).
                 bindE (sdap_effects env evs m') (\<lambda>(m'', out). Inr (\<lparr>l2_manager = m'', l2_sdap = l\<rparr>, out)))))"

text \<open>\<open>nr_pdcp_manager_get_ue\<close>, \<open>nr_pdcp_get_rb\<close>, and the operation if the bearer exists.\<close>

definition apply_rb ::
    "api_env \<Rightarrow> u64 \<Rightarrow> int \<Rightarrow> bool \<Rightarrow> (pdcp_entity \<Rightarrow> (pdcp_entity \<times> pdcp_sdu list) res) \<Rightarrow> l2_state \<Rightarrow>
     (l2_state \<times> api_event list) res" where
  "apply_rb env ue_id rb_id srb_flag f s =
     (let (m, i) = nr_pdcp_manager_get_ue (l2_manager s) ue_id
      in apply_at env i rb_id srb_flag f (s\<lparr>l2_manager := m\<rparr>))"

definition do_pdcp_data_ind ::
    "api_env \<Rightarrow> protocol_ctxt \<Rightarrow> bool \<Rightarrow> int \<Rightarrow> buffer \<Rightarrow> l2_state \<Rightarrow> (l2_state \<times> api_event list) res" where
  "do_pdcp_data_ind env ctxt srb_flag rb_id buf s =
     (if pc_module_id ctxt \<noteq> 0 \<or> pc_instance ctxt \<noteq> 0 \<or> pc_eNB_index ctxt \<noteq> 0 \<or> pc_brOption ctxt then Inl Exit_Failure
      else apply_rb env (pc_ue_id ctxt) rb_id srb_flag
             (\<lambda>e. nr_pdcp_entity_recv_pdu (env_crypto env) e buf (int (length buf))) s)"

definition nr_pdcp_config_set_security ::
    "api_env \<Rightarrow> u64 \<Rightarrow> int \<Rightarrow> bool \<Rightarrow> pdcp_keys \<Rightarrow> l2_state \<Rightarrow> (l2_state \<times> api_event list) res" where
  "nr_pdcp_config_set_security env ue_id rb_id is_srb p =
     apply_rb env ue_id rb_id is_srb (\<lambda>e. bindE (nr_pdcp_entity_set_security p e) (\<lambda>e. Inr (e, [])))"

text \<open>\<open>nr_pdcp_suspend_srb\<close> and \<open>nr_pdcp_suspend_drb\<close>\<close>

definition nr_pdcp_suspend_rb :: "api_env \<Rightarrow> u64 \<Rightarrow> int \<Rightarrow> bool \<Rightarrow> l2_state \<Rightarrow> (l2_state \<times> api_event list) res" where
  "nr_pdcp_suspend_rb env ue_id rb_id is_srb = apply_rb env ue_id rb_id is_srb (\<lambda>e. Inr (nr_pdcp_entity_suspend e))"

definition nr_pdcp_reconfigure_srb :: "api_env \<Rightarrow> u64 \<Rightarrow> int \<Rightarrow> int \<Rightarrow> l2_state \<Rightarrow> (l2_state \<times> api_event list) res" where
  "nr_pdcp_reconfigure_srb env ue_id srb_id t_Reordering =
     apply_rb env ue_id srb_id True (\<lambda>e.
       bindE (decode_t_reordering t_Reordering) (\<lambda>t. Inr (e\<lparr>pe_t_reordering := t\<rparr>, [])))"

definition nr_pdcp_reestablishment ::
    "api_env \<Rightarrow> u64 \<Rightarrow> int \<Rightarrow> bool \<Rightarrow> pdcp_keys \<Rightarrow> l2_state \<Rightarrow> (l2_state \<times> api_event list) res" where
  "nr_pdcp_reestablishment env ue_id rb_id srb_flag p = apply_rb env ue_id rb_id srb_flag (reestablish_entity p)"

definition nr_pdcp_reset_drb_counters :: "api_env \<Rightarrow> u64 \<Rightarrow> int \<Rightarrow> l2_state \<Rightarrow> (l2_state \<times> api_event list) res" where
  "nr_pdcp_reset_drb_counters env ue_id rb_id =
     apply_rb env ue_id rb_id False (\<lambda>e. Inr (e\<lparr>pe_tx_next := 0, pe_rx_next := 0, pe_rx_deliv := 0\<rparr>, []))"

definition nr_pdcp_get_statistics ::
    "api_env \<Rightarrow> u64 \<Rightarrow> bool \<Rightarrow> int \<Rightarrow> l2_state \<Rightarrow> l2_state \<times> pdcp_stats option" where
  "nr_pdcp_get_statistics env ue_id srb_flag rb_id s =
     (let (m, i) = nr_pdcp_manager_get_ue (l2_manager s) ue_id
      in (s\<lparr>l2_manager := m\<rparr>, map_option nr_pdcp_entity_get_stats (nr_pdcp_get_rb (pm_ue_list m ! i) rb_id srb_flag)))"

definition nr_pdcp_check_integrity_srb ::
    "api_env \<Rightarrow> u64 \<Rightarrow> int \<Rightarrow> buffer \<Rightarrow> pdcp_integrity_data \<Rightarrow> l2_state \<Rightarrow> (l2_state \<times> bool) res" where
  "nr_pdcp_check_integrity_srb env ue_id srb_id msg mi s =
     (let (m, i) = nr_pdcp_manager_get_ue (l2_manager s) ue_id in
      case nr_pdcp_get_rb (pm_ue_list m ! i) srb_id True of
        None \<Rightarrow> Inr (s\<lparr>l2_manager := m\<rparr>, False)
      | Some e \<Rightarrow> bindE (nr_pdcp_entity_check_integrity (env_crypto env) e msg mi) (\<lambda>r. Inr (s\<lparr>l2_manager := m\<rparr>, r)))"

section \<open>Adding and releasing bearers\<close>

text \<open>The fields of \<open>NR_PDCP_Config_t\<close> and \<open>NR_DRB_ToAddMod\<close> that the code reads; a pointer that may be NULL is an option.\<close>

record drb_pdcp_config =
  dc_sn_size_ul :: "int option"
  dc_sn_size_dl :: "int option"
  dc_discard_timer :: "int option"
  dc_integrity_protection :: bool

record pdcp_asn_config =
  ac_drb :: "drb_pdcp_config option"
  ac_t_reordering :: "int option"
  ac_ciphering_disabled :: bool

datatype cn_association = CN_Nothing | CN_Eps_Bearer int | CN_Sdap_Config "sdap_config option"

record drb_to_add_mod =
  da_drb_identity :: int
  da_pdcp_config :: "pdcp_asn_config option"
  da_cn_association :: "cn_association option"

definition deref :: "'a option \<Rightarrow> 'a res" where
  "deref p = (case p of None \<Rightarrow> Inl Null_Deref | Some x \<Rightarrow> Inr x)"

definition t_reordering_of :: "int option \<Rightarrow> int res" where
  "t_reordering_of t = (case t of None \<Rightarrow> Inr (-1) | Some v \<Rightarrow> decode_t_reordering v)"

definition add_srb ::
    "bool \<Rightarrow> u64 \<Rightarrow> int \<Rightarrow> int option \<Rightarrow> pdcp_keys \<Rightarrow> l2_state \<Rightarrow> l2_state res" where
  "add_srb is_gnb ue_id srb_id t_Reordering security_parameters s =
     bindE (t_reordering_of t_Reordering) (\<lambda>t.
     let (m, i) = nr_pdcp_manager_get_ue (l2_manager s) ue_id; u = pm_ue_list m ! i in
     if nr_pdcp_get_rb u srb_id True \<noteq> None then Inr (s\<lparr>l2_manager := m\<rparr>)
     else bindE (new_nr_pdcp_entity NR_PDCP_SRB is_gnb srb_id 0 False False 12 t (-1) security_parameters) (\<lambda>e.
          bindE (nr_pdcp_ue_add_srb_pdcp_entity u srb_id e) (\<lambda>u. Inr (s\<lparr>l2_manager := set_ue i u m\<rparr>))))"

text \<open>
  From \<open>cnAssociation\<close>: the PDU session, whether there are SDAP headers, whether the bearer is the default
  one, and the QoS flows.
\<close>

definition cn_session :: "bool \<Rightarrow> cn_association option \<Rightarrow> (int \<times> bool \<times> bool \<times> bool \<times> int list) res" where
  "cn_session is_gnb cn =
     (case cn of
        None \<Rightarrow> Inl Exit_Failure
      | Some CN_Nothing \<Rightarrow> Inl Exit_Failure
      | Some (CN_Eps_Bearer b) \<Rightarrow> Inr (b, False, False, False, [])
      | Some (CN_Sdap_Config None) \<Rightarrow> Inl Exit_Failure
      | Some (CN_Sdap_Config (Some c)) \<Rightarrow>
          bindE (first_flow (sc_flows_to_add c)) (\<lambda>qfis.
            Inr (sc_pdu_Session c, is_sdap_rx is_gnb c, is_sdap_tx is_gnb c, sc_defaultDRB c, qfis)))"

definition actual_security :: "bool \<Rightarrow> bool \<Rightarrow> pdcp_keys \<Rightarrow> pdcp_keys" where
  "actual_security has_ciphering has_integrity p =
     p\<lparr>ciphering_algorithm := if has_ciphering then ciphering_algorithm p else 0,
       integrity_algorithm := if has_integrity then integrity_algorithm p else 0\<rparr>"

definition add_drb ::
    "api_env \<Rightarrow> bool \<Rightarrow> u64 \<Rightarrow> drb_to_add_mod \<Rightarrow> pdcp_keys \<Rightarrow> l2_state \<Rightarrow> (l2_state \<times> api_event list) res" where
  "add_drb env is_gnb ue_id c security_parameters s =
     (case da_pdcp_config c of
        None \<Rightarrow> Inr (s, [])
      | Some pc \<Rightarrow>
     (case ac_drb pc of
        None \<Rightarrow> Inr (s, [])
      | Some drb \<Rightarrow>
          bindE (bindE (deref (dc_sn_size_ul drb)) decode_sn_size) (\<lambda>sn_size_ul.
          bindE (bindE (deref (dc_sn_size_dl drb)) decode_sn_size) (\<lambda>sn_size_dl.
          bindE (bindE (deref (dc_discard_timer drb)) decode_discard_timer) (\<lambda>discard_timer.
          bindE (t_reordering_of (ac_t_reordering pc)) (\<lambda>t_reordering.
          bindE (cn_session is_gnb (da_cn_association c)) (\<lambda>(pdusession_id, has_sdap_rx, has_sdap_tx, is_default, qfis).
          if sn_size_ul \<noteq> sn_size_dl then Inl Exit_Failure
          else
            let (m, i) = nr_pdcp_manager_get_ue (l2_manager s) ue_id; u = pm_ue_list m ! i; drb_id = da_drb_identity c in
            if nr_pdcp_get_rb u drb_id False \<noteq> None then Inr (s\<lparr>l2_manager := m\<rparr>, [])
            else
              bindE (new_nr_pdcp_entity NR_PDCP_DRB_AM is_gnb drb_id pdusession_id has_sdap_rx has_sdap_tx
                       (nat sn_size_dl) t_reordering discard_timer
                       (actual_security (\<not> ac_ciphering_disabled pc) (dc_integrity_protection drb) security_parameters)) (\<lambda>e.
              bindE (nr_pdcp_ue_add_drb_pdcp_entity u drb_id e) (\<lambda>u.
              bindE (new_nr_sdap_entity (env_nos1 env) is_gnb has_sdap_rx has_sdap_tx ue_id pdusession_id is_default
                       drb_id qfis (l2_sdap s)) (\<lambda>(l, evs).
              bindE (sdap_effects env evs (set_ue i u m)) (\<lambda>(m, out).
                Inr (\<lparr>l2_manager = m, l2_sdap = l\<rparr>, out))))))))))))"

text \<open>The fields of a live DRB that a reconfiguration changes; \<open>sn_max\<close> and \<open>window_size\<close> are not among them.\<close>

definition set_discard_timer :: "int option \<Rightarrow> pdcp_entity \<Rightarrow> pdcp_entity res" where
  "set_discard_timer v e =
     (case v of None \<Rightarrow> Inr e | Some v \<Rightarrow> bindE (decode_discard_timer v) (\<lambda>t. Inr (e\<lparr>pe_discard_timer := t\<rparr>)))"

definition set_sn_size_ul :: "int option \<Rightarrow> pdcp_entity \<Rightarrow> pdcp_entity res" where
  "set_sn_size_ul v e =
     (case v of None \<Rightarrow> Inr e | Some v \<Rightarrow> bindE (decode_sn_size v) (\<lambda>n. Inr (e\<lparr>pe_sn_size := nat n\<rparr>)))"

definition set_sn_size_dl :: "bool \<Rightarrow> int option \<Rightarrow> pdcp_entity \<Rightarrow> pdcp_entity res" where
  "set_sn_size_dl size_set v e =
     (case v of
        None \<Rightarrow> Inr e
      | Some v \<Rightarrow> bindE (decode_sn_size v) (\<lambda>n.
          if \<not> size_set \<or> nat n = pe_sn_size e then Inr (e\<lparr>pe_sn_size := nat n\<rparr>) else Inl Assert_Fatal))"

definition reconfigure_drb_entity :: "pdcp_asn_config option \<Rightarrow> pdcp_entity \<Rightarrow> pdcp_entity res" where
  "reconfigure_drb_entity cfg e =
     (case cfg of
        None \<Rightarrow> Inr e
      | Some pc \<Rightarrow>
          bindE (t_reordering_of (ac_t_reordering pc)) (\<lambda>t.
          let e = e\<lparr>pe_t_reordering := t\<rparr> in
          case ac_drb pc of
            None \<Rightarrow> Inr e
          | Some drb \<Rightarrow>
              bindE (set_discard_timer (dc_discard_timer drb) e) (\<lambda>e.
              bindE (set_sn_size_ul (dc_sn_size_ul drb) e) (\<lambda>e.
                set_sn_size_dl (dc_sn_size_ul drb \<noteq> None) (dc_sn_size_dl drb) e))))"

definition nr_pdcp_reconfigure_drb ::
    "api_env \<Rightarrow> u64 \<Rightarrow> int \<Rightarrow> pdcp_asn_config option \<Rightarrow> l2_state \<Rightarrow> (l2_state \<times> api_event list) res" where
  "nr_pdcp_reconfigure_drb env ue_id drb_id cfg =
     apply_rb env ue_id drb_id False (\<lambda>e. bindE (reconfigure_drb_entity cfg e) (\<lambda>e. Inr (e, [])))"

definition nr_pdcp_release_srb :: "u64 \<Rightarrow> int \<Rightarrow> l2_state \<Rightarrow> l2_state res" where
  "nr_pdcp_release_srb ue_id srb_id s =
     (let (m, i) = nr_pdcp_manager_get_ue (l2_manager s) ue_id; u = pm_ue_list m ! i in
      if srb_id < 1 \<or> 3 < srb_id then Inl Out_Of_Bounds
      else Inr (s\<lparr>l2_manager := set_ue i (put_rb u srb_id True None) m\<rparr>))"

text \<open>The rules of SDAP first, then the SDUs still stored, then the entity.\<close>

definition nr_pdcp_release_drb :: "api_env \<Rightarrow> u64 \<Rightarrow> int \<Rightarrow> l2_state \<Rightarrow> (l2_state \<times> api_event list) res" where
  "nr_pdcp_release_drb env ue_id drb_id s =
     (let (m, i) = nr_pdcp_manager_get_ue (l2_manager s) ue_id; u = pm_ue_list m ! i in
      if drb_id < 1 \<or> 32 < drb_id then Inl Out_Of_Bounds
      else case pu_drb u ! nat (drb_id - 1) of
             None \<Rightarrow> Inr (s\<lparr>l2_manager := m\<rparr>, [])
           | Some e \<Rightarrow>
               bindE (deliver_drb_sdus env ue_id drb_id e (snd (nr_pdcp_entity_release e))
                        (nr_sdap_release_drb ue_id drb_id (pe_pdusession_id e) (l2_sdap s))) (\<lambda>(l, evs).
               bindE (sdap_effects env evs (set_ue i (put_rb u drb_id False (Some (fst (nr_pdcp_entity_release e)))) m)) (\<lambda>(m, out).
                 Inr (\<lparr>l2_manager = set_ue i (put_rb (pm_ue_list m ! i) drb_id False None) m, l2_sdap = l\<rparr>, out))))"

definition nr_pdcp_remove_UE :: "u64 \<Rightarrow> l2_state \<Rightarrow> l2_state" where
  "nr_pdcp_remove_UE ue_id s = s\<lparr>l2_manager := nr_pdcp_manager_remove_ue (l2_manager s) ue_id\<rparr>"

fun nr_pdcp_add_srbs :: "bool \<Rightarrow> u64 \<Rightarrow> (int \<times> int option) list \<Rightarrow> pdcp_keys \<Rightarrow> l2_state \<Rightarrow> l2_state res" where
  "nr_pdcp_add_srbs is_gnb ue_id [] p s = Inr s"
| "nr_pdcp_add_srbs is_gnb ue_id ((srb_id, t) # l) p s =
     bindE (add_srb is_gnb ue_id srb_id t p s) (nr_pdcp_add_srbs is_gnb ue_id l p)"

fun nr_pdcp_add_drbs ::
    "api_env \<Rightarrow> bool \<Rightarrow> u64 \<Rightarrow> drb_to_add_mod list \<Rightarrow> pdcp_keys \<Rightarrow> l2_state \<Rightarrow> (l2_state \<times> api_event list) res" where
  "nr_pdcp_add_drbs env is_gnb ue_id [] p s = Inr (s, [])"
| "nr_pdcp_add_drbs env is_gnb ue_id (c # l) p s =
     bindE (add_drb env is_gnb ue_id c p s) (\<lambda>(s, out).
     bindE (nr_pdcp_add_drbs env is_gnb ue_id l p s) (\<lambda>(s, out'). Inr (s, out @ out')))"

section \<open>The timer thread\<close>

text \<open>One round of the loop: the two SRBs and the first five DRBs of every UE learn the time.\<close>

definition tick_slots :: "nat \<Rightarrow> (nat \<times> bool \<times> int) list" where
  "tick_slots ue_count =
     concat (map (\<lambda>i. map (\<lambda>j. (i, True, int j + 1)) [0..<2] @ map (\<lambda>j. (i, False, int j + 1)) [0..<5]) [0..<ue_count])"

fun tick_loop :: "api_env \<Rightarrow> u64 \<Rightarrow> (nat \<times> bool \<times> int) list \<Rightarrow> l2_state \<Rightarrow> (l2_state \<times> api_event list) res" where
  "tick_loop env now [] s = Inr (s, [])"
| "tick_loop env now ((i, srb, rb) # l) s =
     bindE (apply_at env i rb srb (\<lambda>e. Inr (nr_pdcp_entity_set_time now e)) s) (\<lambda>(s, out).
     bindE (tick_loop env now l s) (\<lambda>(s, out'). Inr (s, out @ out')))"

definition nr_pdcp_timer_tick :: "api_env \<Rightarrow> u64 \<Rightarrow> l2_state \<Rightarrow> (l2_state \<times> api_event list) res" where
  "nr_pdcp_timer_tick env now s = tick_loop env now (tick_slots (length (pm_ue_list (l2_manager s)))) s"

end
