(* ===== verification/PDCP_Api_Inv.thy ===== *)
theory PDCP_Api_Inv
  imports PDCP_Api
begin

text \<open>
  The invariant of the PDCP layer and SDAP, the UE manager as a table, what the operations of an entity keep of
  it, and what it means that an operation touches one UE only.
\<close>

section \<open>The manager as a table\<close>

definition entity_ok :: "bool \<Rightarrow> int \<Rightarrow> pdcp_entity \<Rightarrow> bool" where
  "entity_ok srb rb e \<longleftrightarrow> pe_type e = (if srb then NR_PDCP_SRB else NR_PDCP_DRB_AM) \<and> pe_rb_id e = rb \<and> sec_wf e"

text \<open>
  SRBs are in the first two of three slots, DRBs in the first five of thirty-two; an entity knows its
  slot and its kind, and its security functions fit together.
\<close>

definition slots_ok :: "bool \<Rightarrow> nat \<Rightarrow> nat \<Rightarrow> pdcp_entity option list \<Rightarrow> bool" where
  "slots_ok srb n used l \<longleftrightarrow> length l = n \<and> (\<forall>k < n. \<forall>e. l ! k = Some e \<longrightarrow> k < used \<and> entity_ok srb (int k + 1) e)"

definition ue_ok :: "pdcp_ue \<Rightarrow> bool" where
  "ue_ok u \<longleftrightarrow> slots_ok True 3 2 (pu_srb u) \<and> slots_ok False 32 5 (pu_drb u)"

definition manager_ok :: "pdcp_manager \<Rightarrow> bool" where
  "manager_ok m \<longleftrightarrow> distinct (map pu_id (pm_ue_list m)) \<and> (\<forall>u \<in> set (pm_ue_list m). ue_ok u)"

abbreviation ue_of :: "pdcp_manager \<Rightarrow> u64 \<Rightarrow> pdcp_ue option" where
  "ue_of m ue_id \<equiv> lookup pu_id (pm_ue_list m) ue_id"

definition put_ue :: "pdcp_ue \<Rightarrow> pdcp_manager \<Rightarrow> pdcp_manager" where
  "put_ue u m = (let (m, i) = nr_pdcp_manager_get_ue m (pu_id u) in set_ue i u m)"

lemma put_ue_index:
  "put_ue u m = m\<lparr>pm_ue_list := (if index_of pu_id (pu_id u) (pm_ue_list m) < length (pm_ue_list m)
     then (pm_ue_list m)[index_of pu_id (pu_id u) (pm_ue_list m) := u] else pm_ue_list m @ [u])\<rparr>"
  by (simp add: put_ue_def nr_pdcp_manager_get_ue_def Let_def set_ue_def)

lemma zero_ue_ok [simp]: "ue_ok (zero_ue ue_id)" "pu_id (zero_ue ue_id) = ue_id"
  by (simp_all add: ue_ok_def zero_ue_def slots_ok_def)

interpretation mgr: keyed_store pu_id manager_ok "\<lambda>m. lookup pu_id (pm_ue_list m)" put_ue ue_ok
    "\<lambda>ue_id m. nr_pdcp_manager_remove_ue m ue_id"
proof
  fix m k u
  assume ok: "manager_ok m"
  let ?l = "pm_ue_list m"
  show "pu_id u = k" if "ue_of m k = Some u" using that by (rule lookup_key)
  show "ue_ok u" if "ue_of m k = Some u" using that ok by (auto simp: manager_ok_def find_Some_iff)
  show "manager_ok (nr_pdcp_manager_remove_ue m k)"
    using ok remove_nth_distinct remove_nth_set by (fastforce simp: manager_ok_def nr_pdcp_manager_remove_ue_def Let_def)
  show "lookup pu_id (pm_ue_list (nr_pdcp_manager_remove_ue m k)) = (lookup pu_id ?l)(k := None)"
  proof (cases "index_of pu_id k ?l = length ?l")
    case True
    then have "ue_of m k = None" by (simp add: lookup_index)
    then show ?thesis using True by (auto simp: nr_pdcp_manager_remove_ue_def fun_eq_iff)
  next
    case False
    then show ?thesis using ok lookup_remove[of pu_id ?l k] by (simp add: nr_pdcp_manager_remove_ue_def manager_ok_def Let_def)
  qed
  assume u: "ue_ok u"
  show "manager_ok (put_ue u m)"
    using ok u map_key_update[of pu_id u ?l] set_update_subset_insert[of ?l "index_of pu_id (pu_id u) ?l" u]
    by (auto simp: put_ue_index manager_ok_def index_of_found)
  show "lookup pu_id (pm_ue_list (put_ue u m)) = (lookup pu_id ?l)(pu_id u \<mapsto> u)"
    using lookup_update[of pu_id u ?l] lookup_snoc[of pu_id u ?l] by (auto simp: put_ue_index index_of_found)
qed

text \<open>After \<open>nr_pdcp_manager_get_ue\<close> the UE is at the index returned; writing there is \<open>put_ue\<close>.\<close>

lemma get_ue_result:
  assumes "manager_ok m" and "nr_pdcp_manager_get_ue m ue_id = (m', i)"
  shows "manager_ok m'" "i < length (pm_ue_list m')" "pu_id (pm_ue_list m' ! i) = ue_id" "ue_ok (pm_ue_list m' ! i)"
    "k \<noteq> ue_id \<Longrightarrow> ue_of m' k = ue_of m k" "ue_of m' ue_id = Some (pm_ue_list m' ! i)"
    "pu_id u = ue_id \<Longrightarrow> set_ue i u m' = put_ue u m'"
proof -
  let ?l = "pm_ue_list m" and ?j = "index_of pu_id ue_id (pm_ue_list m)"
  have all: "manager_ok m' \<and> i < length (pm_ue_list m') \<and> pu_id (pm_ue_list m' ! i) = ue_id
    \<and> (k \<noteq> ue_id \<longrightarrow> ue_of m' k = ue_of m k) \<and> i = index_of pu_id ue_id (pm_ue_list m')"
  proof (cases "?j < length ?l")
    case True
    then show ?thesis using assms index_of_key[OF True] by (auto simp: nr_pdcp_manager_get_ue_def)
  next
    case False
    then have m': "m' = put_ue (zero_ue ue_id) m" "i = length ?l" "pm_ue_list m' = ?l @ [zero_ue ue_id]"
      using assms(2) by (auto simp: nr_pdcp_manager_get_ue_def put_ue_index)
    have "index_of pu_id ue_id (?l @ [zero_ue ue_id]) = length ?l"
      using False index_of_snoc[of pu_id "zero_ue ue_id" ?l] by (simp add: index_of_found)
    then show ?thesis using m' assms(1) mgr.put_inv[OF assms(1), of "zero_ue ue_id"] mgr.put_other[OF assms(1), of "zero_ue ue_id" k]
      by auto
  qed
  then show "manager_ok m'" "i < length (pm_ue_list m')" "pu_id (pm_ue_list m' ! i) = ue_id"
    "k \<noteq> ue_id \<Longrightarrow> ue_of m' k = ue_of m k" by auto
  show "ue_ok (pm_ue_list m' ! i)" using all by (auto simp: manager_ok_def)
  show "ue_of m' ue_id = Some (pm_ue_list m' ! i)" using all by (simp add: lookup_index)
  show "set_ue i u m' = put_ue u m'" if "pu_id u = ue_id" using all that by (simp add: put_ue_index set_ue_def)
qed

section \<open>Bearers\<close>

lemma slots_okD: "slots_ok srb n used l \<Longrightarrow> k < n \<Longrightarrow> l ! k = Some e \<Longrightarrow> k < used \<and> entity_ok srb (int k + 1) e"
  by (simp add: slots_ok_def)

lemma get_rb_slot:
  assumes "ue_ok u" and "nr_pdcp_get_rb u rb srb = Some e"
  shows "entity_ok srb rb e" and "1 \<le> rb" and "rb \<le> (if srb then 2 else 5)"
proof -
  have rb: "1 \<le> rb" using assms(2) by (auto simp: nr_pdcp_get_rb_def split: if_splits)
  then have k: "int (nat (rb - 1)) + 1 = rb" by simp
  have "nat (rb - 1) < (if srb then 2 else 5) \<and> entity_ok srb (int (nat (rb - 1)) + 1) e"
  proof (cases srb)
    case True
    then show ?thesis
      using assms slots_okD[of True 3 2 "pu_srb u" "nat (rb - 1)" e] by (auto simp: ue_ok_def nr_pdcp_get_rb_def split: if_splits)
  next
    case False
    then show ?thesis
      using assms slots_okD[of False 32 5 "pu_drb u" "nat (rb - 1)" e] by (auto simp: ue_ok_def nr_pdcp_get_rb_def split: if_splits)
  qed
  then show "entity_ok srb rb e" "1 \<le> rb" "rb \<le> (if srb then 2 else 5)" using rb by (auto simp: k split: if_splits)
qed

lemma slots_ok_update:
  assumes "slots_ok srb n used l" and "\<And>e. x = Some e \<Longrightarrow> k < used \<and> entity_ok srb (int k + 1) e"
  shows "slots_ok srb n used (l[k := x])"
  unfolding slots_ok_def
proof (intro conjI allI impI)
  show "length (l[k := x]) = n" using assms(1) by (simp add: slots_ok_def)
  fix j e assume j: "j < n" "l[k := x] ! j = Some e"
  have "j < used \<and> entity_ok srb (int j + 1) e"
  proof (cases "j = k")
    case True
    then show ?thesis using assms j by (simp add: slots_ok_def)
  next
    case False
    then show ?thesis using slots_okD[OF assms(1) j(1)] j(2) by simp
  qed
  then show "j < used" "entity_ok srb (int j + 1) e" by auto
qed

lemma put_rb_ok:
  assumes "ue_ok u" and "\<And>e. x = Some e \<Longrightarrow> 1 \<le> rb \<and> rb \<le> (if srb then 2 else 5) \<and> entity_ok srb rb e"
  shows "ue_ok (put_rb u rb srb x)"
proof -
  have x: "nat (rb - 1) < (if srb then 2 else 5) \<and> entity_ok srb (int (nat (rb - 1)) + 1) e" if "x = Some e" for e
    using assms(2)[OF that] by auto
  show ?thesis
  proof (cases srb)
    case True
    then show ?thesis using assms(1) x slots_ok_update[of True 3 2 "pu_srb u" x "nat (rb - 1)"]
      by (auto simp: ue_ok_def put_rb_def)
  next
    case False
    then show ?thesis using assms(1) x slots_ok_update[of False 32 5 "pu_drb u" x "nat (rb - 1)"]
      by (auto simp: ue_ok_def put_rb_def)
  qed
qed

lemma put_rb_id [simp]: "pu_id (put_rb u rb srb x) = pu_id u"
  by (simp add: put_rb_def)

text \<open>An operation of an entity that leaves its kind, its bearer and the fit of its security functions.\<close>

definition keeps_entity :: "(pdcp_entity \<Rightarrow> (pdcp_entity \<times> pdcp_sdu list) res) \<Rightarrow> bool" where
  "keeps_entity f \<longleftrightarrow> (\<forall>srb rb e e' sdus. entity_ok srb rb e \<longrightarrow> f e = Inr (e', sdus) \<longrightarrow> entity_ok srb rb e')"

lemma entity_ok_setup: "setup_of e' = setup_of e \<Longrightarrow> entity_ok srb rb e' = entity_ok srb rb e"
proof -
  assume s: "setup_of e' = setup_of e"
  have "pe_type (setup_of x) = pe_type x" for x by (simp add: setup_of_def)
  then show ?thesis unfolding entity_ok_def using s setup_wf(1,3) by metis
qed

lemma entity_ok_upd [simp]:
  "entity_ok srb rb (e\<lparr>pe_suspended := b\<rparr>) = entity_ok srb rb e"
  "entity_ok srb rb (e\<lparr>pe_t_reordering := t\<rparr>) = entity_ok srb rb e"
  "entity_ok srb rb (e\<lparr>pe_discard_timer := t\<rparr>) = entity_ok srb rb e"
  "entity_ok srb rb (e\<lparr>pe_sn_size := n\<rparr>) = entity_ok srb rb e"
  "entity_ok srb rb (e\<lparr>pe_tx_next := c\<rparr>) = entity_ok srb rb e"
  "entity_ok srb rb (e\<lparr>pe_rx_next := c\<rparr>) = entity_ok srb rb e"
  "entity_ok srb rb (e\<lparr>pe_rx_deliv := c\<rparr>) = entity_ok srb rb e"
  "entity_ok srb rb (e\<lparr>pe_t_reordering_start := w\<rparr>) = entity_ok srb rb e"
  "entity_ok srb rb (e\<lparr>pe_rx_list := l\<rparr>) = entity_ok srb rb e"
  "entity_ok srb rb (e\<lparr>pe_rx_size := i\<rparr>) = entity_ok srb rb e"
  "entity_ok srb rb (e\<lparr>pe_stats := st\<rparr>) = entity_ok srb rb e"
  by (simp_all add: entity_ok_def sec_wf_def)

lemma set_security_ok:
  assumes "entity_ok srb rb e" and "nr_pdcp_entity_set_security p e = Inr e'"
  shows "entity_ok srb rb e'"
proof -
  have "pe_type e' = pe_type e"
    using assms(2) by (auto simp: nr_pdcp_entity_set_security_def bindE_eq_Inr set_integrity_def set_ciphering_def Let_def
        split: if_splits)
  then show ?thesis using assms set_security_wf set_security_config by (metis entity_ok_def)
qed

lemma deliver_all_ok: "deliver_all_sdus e = (e', out) \<Longrightarrow> entity_ok srb rb e' = entity_ok srb rb e"
proof -
  have "deliver_all_sdus_loop l e = (e', out) \<Longrightarrow> rx_frame e e'" for l
  proof (induction l arbitrary: e out)
    case (Cons s l)
    then show ?case using rx_frame_trans[OF rx_frame_first[of e s l]] by (auto split: prod.splits)
  qed simp
  then show "deliver_all_sdus e = (e', out) \<Longrightarrow> entity_ok srb rb e' = entity_ok srb rb e"
    using setup_frame entity_ok_setup by (metis deliver_all_sdus_def)
qed

lemma free_rx_list_ok [simp]: "entity_ok srb rb (free_rx_list e) = entity_ok srb rb e"
proof -
  have "entity_ok srb rb (fold (\<lambda>cur. count_discard (ps_size cur)) l e) = entity_ok srb rb e" for l
    by (induction l arbitrary: e) (simp_all add: count_discard_def upd_pstats_def)
  then show ?thesis by (simp add: free_rx_list_def)
qed

lemma keeps_recv: "keeps_entity (\<lambda>e. nr_pdcp_entity_recv_pdu cx e buf sz)"
  unfolding keeps_entity_def using recv_setup entity_ok_setup by blast

lemma keeps_set_time: "keeps_entity (\<lambda>e. Inr (nr_pdcp_entity_set_time now e))"
  unfolding keeps_entity_def nr_pdcp_entity_set_time_def
proof (intro allI impI)
  fix srb rb e e' sdus
  assume e: "entity_ok srb rb e" and "Inr (check_t_reordering (e\<lparr>pe_t_current := now\<rparr>)) = (Inr (e', sdus) :: (pdcp_entity \<times> pdcp_sdu list) res)"
  then have "setup_of e' = setup_of e" using check_t_setup[of "e\<lparr>pe_t_current := now\<rparr>" e' sdus] by simp
  then show "entity_ok srb rb e'" using e entity_ok_setup by blast
qed

lemma keeps_suspend: "keeps_entity (\<lambda>e. Inr (nr_pdcp_entity_suspend e))"
  by (auto simp: keeps_entity_def nr_pdcp_entity_suspend_def Let_def split: if_splits prod.splits dest!: deliver_all_ok)

lemma keeps_security: "keeps_entity (\<lambda>e. bindE (nr_pdcp_entity_set_security p e) (\<lambda>e. Inr (e, [])))"
  by (auto simp: keeps_entity_def bindE_eq_Inr dest: set_security_ok)

lemma set_security_resume:
  assumes "bindE (nr_pdcp_entity_set_security p e1) (\<lambda>e. Inr (e\<lparr>pe_suspended := False\<rparr>, out)) = Inr (e', out')"
    and "entity_ok srb rb e1"
  shows "entity_ok srb rb e'"
proof -
  obtain e2 where "nr_pdcp_entity_set_security p e1 = Inr e2" "e' = e2\<lparr>pe_suspended := False\<rparr>"
    using assms(1) by (auto simp: bindE_eq_Inr)
  then show ?thesis using set_security_ok[OF assms(2)] by simp
qed

lemma keeps_reestablish: "keeps_entity (reestablish_entity p)"
  unfolding keeps_entity_def
proof (intro allI impI)
  fix srb rb e e' out
  assume e: "entity_ok srb rb e" and r: "reestablish_entity p e = Inr (e', out)"
  show "entity_ok srb rb e'"
  proof (cases srb)
    case True
    then have "reestablish_srb p e = Inr (e', out)" using e r by (simp add: reestablish_entity_def entity_ok_def)
    then show ?thesis unfolding reestablish_srb_def Let_def by (rule set_security_resume) (simp add: e)
  next
    case False
    then have "reestablish_drb_am p e = Inr (e', out)" using e r by (simp add: reestablish_entity_def entity_ok_def)
    then show ?thesis unfolding reestablish_drb_am_def by (rule set_security_resume) (rule e)
  qed
qed

section \<open>Touching one UE\<close>

definition mgr_touches :: "u64 \<Rightarrow> pdcp_manager \<Rightarrow> pdcp_manager \<Rightarrow> bool" where
  "mgr_touches ue m m' \<longleftrightarrow> manager_ok m' \<and> (\<forall>k. k \<noteq> ue \<longrightarrow> ue_of m' k = ue_of m k)"

definition sdap_touches :: "u64 \<Rightarrow> sdap_entity list \<Rightarrow> sdap_entity list \<Rightarrow> bool" where
  "sdap_touches ue l l' \<longleftrightarrow> sdap_inv l' \<and> (\<forall>k p. k \<noteq> ue \<longrightarrow> sdap_map l' (k, p) = sdap_map l (k, p))"

definition l2_ok :: "l2_state \<Rightarrow> bool" where
  "l2_ok s \<longleftrightarrow> manager_ok (l2_manager s) \<and> sdap_inv (l2_sdap s)"

definition l2_touches :: "u64 \<Rightarrow> l2_state \<Rightarrow> l2_state \<Rightarrow> bool" where
  "l2_touches ue s s' \<longleftrightarrow> mgr_touches ue (l2_manager s) (l2_manager s') \<and> sdap_touches ue (l2_sdap s) (l2_sdap s')"

lemma mgr_touches_refl: "manager_ok m \<Longrightarrow> mgr_touches ue m m"
  by (simp add: mgr_touches_def)

lemma mgr_touches_trans: "mgr_touches ue m m' \<Longrightarrow> mgr_touches ue m' m'' \<Longrightarrow> mgr_touches ue m m''"
  by (simp add: mgr_touches_def)

lemma sdap_touches_refl: "sdap_inv l \<Longrightarrow> sdap_touches ue l l"
  by (simp add: sdap_touches_def)

lemma sdap_touches_trans: "sdap_touches ue l l' \<Longrightarrow> sdap_touches ue l' l'' \<Longrightarrow> sdap_touches ue l l''"
  by (simp add: sdap_touches_def)

lemma mgr_touches_ok: "mgr_touches ue m m' \<Longrightarrow> manager_ok m'"
  by (simp add: mgr_touches_def)

lemma sdap_touches_inv: "sdap_touches ue l l' \<Longrightarrow> sdap_inv l'"
  by (simp add: sdap_touches_def)

lemma get_ue_touches: "manager_ok m \<Longrightarrow> nr_pdcp_manager_get_ue m ue = (m', i) \<Longrightarrow> mgr_touches ue m m'"
  using get_ue_result(1,5) by (simp add: mgr_touches_def)

lemma put_ue_touches: "manager_ok m \<Longrightarrow> ue_ok u \<Longrightarrow> mgr_touches (pu_id u) m (put_ue u m)"
  using mgr.put_inv mgr.put_other by (simp add: mgr_touches_def)

lemma index_of_nth: "distinct (map key l) \<Longrightarrow> i < length l \<Longrightarrow> index_of key (key (l ! i)) l = i"
proof (induction l arbitrary: i)
  case (Cons e l)
  then show ?case by (cases i) (auto simp: image_iff)
qed simp

lemma set_ue_touches:
  assumes "manager_ok m" and "i < length (pm_ue_list m)" and "pu_id u = pu_id (pm_ue_list m ! i)" and "ue_ok u"
  shows "mgr_touches (pu_id u) m (set_ue i u m)"
proof -
  have "index_of pu_id (pu_id u) (pm_ue_list m) = i"
    using assms by (simp add: manager_ok_def index_of_nth)
  then have "set_ue i u m = put_ue u m" using assms(2) by (simp add: put_ue_index set_ue_def)
  then show ?thesis using put_ue_touches[OF assms(1,4)] by simp
qed

lemma remove_ue_touches: "manager_ok m \<Longrightarrow> mgr_touches ue m (nr_pdcp_manager_remove_ue m ue)"
  using mgr.del_inv mgr.del_other by (simp add: mgr_touches_def)

lemma set_rb_touches:
  assumes "manager_ok m" and "i < length (pm_ue_list m)" and "pu_id (pm_ue_list m ! i) = ue"
    and "\<And>e. x = Some e \<Longrightarrow> 1 \<le> rb \<and> rb \<le> (if srb then 2 else 5) \<and> entity_ok srb rb e"
  shows "mgr_touches ue m (set_ue i (put_rb (pm_ue_list m ! i) rb srb x) m)"
proof -
  have "ue_ok (pm_ue_list m ! i)" using assms(1,2) by (simp add: manager_ok_def)
  then have "ue_ok (put_rb (pm_ue_list m ! i) rb srb x)" using put_rb_ok assms(4) by blast
  then show ?thesis using set_ue_touches[OF assms(1,2), of "put_rb (pm_ue_list m ! i) rb srb x"] assms(3) by simp
qed

section \<open>Transmission\<close>

lemma process_touches:
  assumes ok: "manager_ok m" and r: "process_on_rb env ue rb srb sdu m = Inr (m', out)"
  shows "mgr_touches ue m m'"
proof -
  obtain m1 i where g: "nr_pdcp_manager_get_ue m ue = (m1, i)" by (cases "nr_pdcp_manager_get_ue m ue")
  note gr = get_ue_result[OF ok g]
  have t: "mgr_touches ue m m1" by (rule get_ue_touches[OF ok g])
  show ?thesis
  proof (cases "nr_pdcp_get_rb (pm_ue_list m1 ! i) rb srb")
    case None
    then show ?thesis using r g t by (simp add: process_on_rb_def)
  next
    case (Some e)
    obtain e' n b where p: "nr_pdcp_entity_process_sdu (env_crypto env) e sdu
        (map (env_stack env) [0..<nat (nr_max_pdcp_pdu_size (int (length sdu)))]) (nr_max_pdcp_pdu_size (int (length sdu))) = Inr (e', n, b)"
      and m': "m' = set_ue i (put_rb (pm_ue_list m1 ! i) rb srb (Some e')) m1"
      using r g Some by (auto simp: process_on_rb_def bindE_eq_Inr Let_def)
    have "entity_ok srb rb e'" using get_rb_slot(1)[OF gr(4) Some] entity_ok_setup[OF process_setup[OF p]] by blast
    then have "mgr_touches ue m1 m'"
      unfolding m' using set_rb_touches[OF gr(1,2,3), of "Some e'" rb srb] get_rb_slot(2,3)[OF gr(4) Some] by auto
    with t show ?thesis by (rule mgr_touches_trans)
  qed
qed

lemma data_req_drb_touches:
  assumes "manager_ok m" and "nr_pdcp_data_req_drb env ctxt srb rb mui sdu m = Inr (m', out, ret)"
  shows "mgr_touches (pc_ue_id ctxt) m m'"
proof -
  obtain r where "process_on_rb env (pc_ue_id ctxt) rb False sdu m = Inr (m', r)"
    using assms(2) by (auto simp: nr_pdcp_data_req_drb_def bindE_eq_Inr split: if_splits option.splits)
  with assms(1) show ?thesis by (rule process_touches)
qed

lemma data_req_srb_touches:
  assumes "manager_ok m" and "nr_pdcp_data_req_srb env ue rb mui sdu m = Inr (m', out, ret)"
  shows "mgr_touches ue m m'"
proof -
  obtain r where "process_on_rb env ue rb True sdu m = Inr (m', r)"
    using assms(2) by (auto simp: nr_pdcp_data_req_srb_def bindE_eq_Inr split: option.splits)
  with assms(1) show ?thesis by (rule process_touches)
qed

text \<open>The control PDUs among the events are for one UE.\<close>

definition events_for :: "u64 \<Rightarrow> sdap_event list \<Rightarrow> bool" where
  "events_for ue evs \<longleftrightarrow> list_all (\<lambda>ev. case ev of Ctrl_Pdu u d b \<Rightarrow> u = ue | _ \<Rightarrow> True) evs"

lemma events_for_simps [simp]:
  "events_for ue []" "events_for ue (evs @ evs') \<longleftrightarrow> events_for ue evs \<and> events_for ue evs'"
  "events_for ue (Ctrl_Pdu u d b # evs) \<longleftrightarrow> u = ue \<and> events_for ue evs"
  "events_for ue (Tun_Write s x # evs) = events_for ue evs" "events_for ue (Gtp_Send i u p x # evs) = events_for ue evs"
  "events_for ue (Remove_Ip_If u p # evs) = events_for ue evs"
  by (simp_all add: events_for_def)

lemma sdap_effects_touches:
  "manager_ok m \<Longrightarrow> events_for ue evs \<Longrightarrow> sdap_effects env evs m = Inr (m', out) \<Longrightarrow> mgr_touches ue m m'"
proof (induction env evs m arbitrary: m' out rule: sdap_effects.induct)
  case (1 env m)
  then show ?case by (simp add: mgr_touches_refl)
next
  case ctrl: (2 env u d b evs m)
  obtain m1 out1 ret out2 where 1: "nr_pdcp_data_req_drb env (ctxt_for False ue) False d 0 [b] m = Inr (m1, out1, ret)"
    and 3: "sdap_effects env evs m1 = Inr (m', out2)"
    using ctrl.prems(2,3) by (auto simp: bindE_eq_Inr nr_pdcp_submit_sdap_ctrl_pdu_def)
  have t: "mgr_touches ue m m1" using data_req_drb_touches[OF ctrl.prems(1) 1] by (simp add: ctxt_for_def)
  have s: "nr_pdcp_submit_sdap_ctrl_pdu env u d b m = Inr (m1, out1)"
    using 1 ctrl.prems(2) by (simp add: nr_pdcp_submit_sdap_ctrl_pdu_def)
  have "mgr_touches ue m1 m'"
    using ctrl.IH[OF s refl mgr_touches_ok[OF t] _ 3] ctrl.prems(2) by simp
  with t show ?case by (rule mgr_touches_trans)
qed (auto simp: bindE_eq_Inr)

end
