(* ===== verification/PDCP_Api_Props.thy ===== *)
theory PDCP_Api_Props
  imports PDCP_Api_Inv
begin

text \<open>
  Every operation of the API touches the UE it is called for and no other, and keeps the invariant of
  the layer; so does a round of the timer thread. The API as one function on a datatype of calls, and the states
  that the layer reaches.
\<close>

section \<open>SDAP below the API\<close>

lemma end_marker_events: "end_marker ue ty q e = Inr (e', ev) \<Longrightarrow> events_for ue ev"
  by (auto simp: end_marker_def nr_sdap_submit_ctrl_pdu_def bindE_eq_Inr)

lemma end_marker_if_events: "(if b then end_marker ue ty q e else Inr (e, [])) = Inr (e', ev) \<Longrightarrow> events_for ue ev"
  by (auto split: if_splits dest: end_marker_events)

lemma reflective_mapping_events: "reflective_mapping p ue q e = Inr (e', ev) \<Longrightarrow> events_for ue ev"
proof -
  assume "reflective_mapping p ue q e = Inr (e', ev)"
  then obtain b1 b2 e1 ev1 e2 ev2 where "(if b1 then end_marker ue 0 q e else Inr (e, [])) = Inr (e1, ev1)"
      "(if b2 then end_marker ue 1 q e1 else Inr (e1, [])) = Inr (e2, ev2)" "ev = ev1 @ ev2"
    unfolding reflective_mapping_def by (elim bindE_pairE bindE_E) auto
  then show ?thesis using end_marker_if_events by auto
qed

lemma rx_entity_events: "nr_sdap_rx_entity n3 p g has pdu ue buf e = Inr (e', ev) \<Longrightarrow> events_for ue ev"
  by (auto simp: nr_sdap_rx_entity_def bindE_eq_Inr Let_def split: option.splits if_splits dest: reflective_mapping_events)

lemma ue_config_flow_events: "ue_config_flow ue d rx tx q e = Inr (e', ev) \<Longrightarrow> events_for ue ev"
proof -
  assume "ue_config_flow ue d rx tx q e = Inr (e', ev)"
  then obtain b2 e1 ev1 e2 ev2 where 1: "(if se_default_drb e \<noteq> 0
        then bindE (table_get e q) (\<lambda>d. if qd_drb_id d = 0 then end_marker ue 0 q e else Inr (e, [])) else Inr (e, [])) = Inr (e1, ev1)"
      and 2: "(if b2 then end_marker ue 1 q e1 else Inr (e1, [])) = Inr (e2, ev2)" and 3: "ev = ev1 @ ev2"
    unfolding ue_config_flow_def by (elim bindE_pairE bindE_E) auto
  have "events_for ue ev1" using 1 by (auto simp: bindE_eq_Inr split: if_splits dest: end_marker_events)
  then show ?thesis using end_marker_if_events[OF 2] 3 by simp
qed

lemma ue_config_loop_events: "ue_config_loop ue d rx tx qs is e = Inr (e', ev) \<Longrightarrow> events_for ue ev"
proof (induction "is" arbitrary: e e' ev)
  case (Cons i "is")
  from Cons.prems obtain q e1 ev1 ev2 where "ue_config_flow ue d rx tx q e = Inr (e1, ev1)"
      "ue_config_loop ue d rx tx qs is e1 = Inr (e', ev2)" "ev = ev1 @ ev2"
    by (auto simp: bindE_eq_Inr)
  then show ?case using Cons.IH ue_config_flow_events by auto
qed simp

lemma one_put_touches: "sdap_inv l \<Longrightarrow> one_put (ue, pdu) l l' \<Longrightarrow> sdap_touches ue l l'"
  using one_putD[of l "(ue, pdu)" l'] by (auto simp: sdap_touches_def fun_eq_iff)

lemma update_touches:
  "sdap_inv l \<Longrightarrow> nr_sdap_get_entity ue pdu l = Some i \<Longrightarrow> sdap_same (l ! i) e \<Longrightarrow> sdap_touches ue l (l[i := e])"
  using one_put_touches one_put_update by blast

lemma data_ind_touches:
  assumes "sdap_inv l" and "sdap_data_ind n3 p g has pdu ue buf l = Inr (l', ev)"
  shows "sdap_touches ue l l'" and "events_for ue ev"
proof -
  show "sdap_touches ue l l'"
  proof (cases "nr_sdap_get_entity ue pdu l")
    case None
    then show ?thesis using assms by (simp add: sdap_data_ind_def sdap_touches_refl)
  next
    case (Some i)
    then show ?thesis using assms update_touches[OF assms(1) Some]
      by (auto simp: sdap_data_ind_def bindE_eq_Inr dest: rx_entity_same)
  qed
  show "events_for ue ev"
    using assms(2) by (auto simp: sdap_data_ind_def bindE_eq_Inr split: option.splits dest: rx_entity_events)
qed

lemma data_req_touches:
  assumes "sdap_inv l" and "sdap_data_req ue enb rb sdu q r pdu l = Inr (l', out)"
  shows "sdap_touches ue l l'"
proof (cases "nr_sdap_get_entity ue pdu l")
  case None
  then show ?thesis using assms by (simp add: sdap_data_req_def sdap_touches_refl)
next
  case (Some i)
  then show ?thesis using assms update_touches[OF assms(1) Some]
    by (auto simp: sdap_data_req_def bindE_eq_Inr dest: tx_entity_same)
qed

lemma release_drb_touches: "sdap_inv l \<Longrightarrow> sdap_touches ue l (nr_sdap_release_drb ue drb pdu l)"
  using update_touches[of l ue pdu]
  by (auto simp: nr_sdap_release_drb_def release_rules_def sdap_touches_refl split: option.splits)

lemma start_tun_touches:
  assumes "sdap_inv l" and "start_sdap_tun_gnb dp fd ue l = Inr l'"
  shows "sdap_touches ue l l'"
proof -
  obtain i where i: "nr_sdap_get_entity ue dp l = Some i" "l' = l[i := (l ! i)\<lparr>se_pdusession_sock := fd\<rparr>]"
    using assms(2) by (auto simp: start_sdap_tun_gnb_def split: option.splits if_splits)
  let ?e = "(l ! i)\<lparr>se_pdusession_sock := fd\<rparr>"
  have "sdap_key ?e = (ue, dp)" "sdap_ok ?e"
    using get_entity_Some(2)[OF i(1)] nth_ok[OF assms(1) i(1)] by (simp_all add: sdap_key_def sdap_ok_def)
  then have "one_put (ue, dp) l l'" using put_at[OF i(1), of ?e] i(2) by (auto simp: one_put_def)
  with assms(1) show ?thesis by (rule one_put_touches)
qed

lemma new_entity_cases:
  assumes "new_nr_sdap_entity nos1 g rx tx ue pdu df drb qs l = Inr (l', ev)"
  shows "\<exists>l1. new_nr_sdap_entity None g rx tx ue pdu df drb qs l = Inr (l1, ev)
    \<and> (l' = l1 \<or> (\<exists>dp fd. start_sdap_tun_gnb dp fd ue l1 = Inr l'))"
proof (cases nos1)
  case None
  then show ?thesis using assms by auto
next
  case (Some df_fd)
  then obtain dp fd where n: "nos1 = Some (dp, fd)" by (cases df_fd) auto
  show ?thesis
  proof (cases "nr_sdap_get_entity ue pdu l")
    case None
    let ?m = "if df then map_default_flows rx tx qs [0..<qfi_count qs] (empty_sdap_entity g ue pdu\<lparr>se_default_drb := drb\<rparr>)
      else Inr (empty_sdap_entity g ue pdu)"
    obtain e where e: "?m = Inr e"
      using assms None unfolding new_nr_sdap_entity_def Let_def by (cases ?m) auto
    then have "new_nr_sdap_entity None g rx tx ue pdu df drb qs l = Inr (e # l, [])"
      using None by (simp add: new_nr_sdap_entity_def)
    moreover have "ev = [] \<and> (l' = e # l \<or> start_sdap_tun_gnb dp fd ue (e # l) = Inr l')"
      using assms None n e unfolding new_nr_sdap_entity_def Let_def by (auto simp: bindE_eq_Inr split: if_splits)
    ultimately show ?thesis by auto
  next
    case (Some i)
    then have "new_nr_sdap_entity nos1 g rx tx ue pdu df drb qs l = new_nr_sdap_entity None g rx tx ue pdu df drb qs l"
      by (simp add: new_nr_sdap_entity_def)
    then show ?thesis using assms by metis
  qed
qed

lemma new_entity_touches:
  assumes inv: "sdap_inv l" and r: "new_nr_sdap_entity nos1 g rx tx ue pdu df drb qs l = Inr (l', ev)"
  shows "sdap_touches ue l l'" and "events_for ue ev"
proof -
  obtain l1 where 1: "new_nr_sdap_entity None g rx tx ue pdu df drb qs l = Inr (l1, ev)"
    and l': "l' = l1 \<or> (\<exists>dp fd. start_sdap_tun_gnb dp fd ue l1 = Inr l')" using new_entity_cases[OF r] by blast
  have t: "sdap_touches ue l l1" using one_put_touches[OF inv new_entity_one_put[OF inv 1]] .
  then show "sdap_touches ue l l'" using l' start_tun_touches sdap_touches_inv sdap_touches_trans by blast
  show "events_for ue ev"
    using 1 by (auto simp: new_nr_sdap_entity_def Let_def bindE_eq_Inr nr_sdap_ue_qfi2drb_config_def split: option.splits if_splits
        dest: ue_config_loop_events)
qed

section \<open>Operations on a bearer\<close>

lemma deliver_drb_sdus_touches:
  "sdap_inv l \<Longrightarrow> deliver_drb_sdus env ue rb e sdus l = Inr (l', ev) \<Longrightarrow> sdap_touches ue l l' \<and> events_for ue ev"
proof (induction sdus arbitrary: l l' ev)
  case Nil
  then show ?case by (simp add: sdap_touches_refl)
next
  case (Cons sdu sdus)
  obtain l1 ev1 ev2 where 1: "deliver_sdu_drb env ue rb e sdu l = Inr (l1, ev1)"
    and 2: "deliver_drb_sdus env ue rb e sdus l1 = Inr (l', ev2)" "ev = ev1 @ ev2"
    using Cons.prems(2) by (auto simp: bindE_eq_Inr)
  have t: "sdap_touches ue l l1 \<and> events_for ue ev1"
    using 1 data_ind_touches[OF Cons.prems(1)] by (auto simp: deliver_sdu_drb_def split: if_splits)
  then have "sdap_touches ue l1 l' \<and> events_for ue ev2" using Cons.IH[OF _ 2(1)] sdap_touches_inv by blast
  then show ?case using t 2(2) sdap_touches_trans by auto
qed

lemma apply_at_touches:
  assumes ok: "l2_ok s" and i: "i < length (pm_ue_list (l2_manager s))" and ue: "pu_id (pm_ue_list (l2_manager s) ! i) = ue"
    and f: "keeps_entity f" and r: "apply_at env i rb srb f s = Inr (s', out)"
  shows "l2_touches ue s s'"
proof -
  let ?m = "l2_manager s" and ?u = "pm_ue_list (l2_manager s) ! i"
  have m: "manager_ok ?m" and sd: "sdap_inv (l2_sdap s)" using ok by (simp_all add: l2_ok_def)
  have u: "ue_ok ?u" using m i by (simp add: manager_ok_def)
  show ?thesis
  proof (cases "nr_pdcp_get_rb ?u rb srb")
    case None
    then show ?thesis using r m sd by (simp add: apply_at_def l2_touches_def mgr_touches_refl sdap_touches_refl)
  next
    case (Some e)
    obtain e' sdus where e': "f e = Inr (e', sdus)" using r Some by (auto simp: apply_at_def bindE_eq_Inr Let_def)
    let ?m' = "set_ue i (put_rb ?u rb srb (Some e')) ?m"
    have "entity_ok srb rb e'" using f get_rb_slot(1)[OF u Some] e' unfolding keeps_entity_def by blast
    then have t: "mgr_touches ue ?m ?m'"
      using set_rb_touches[OF m i ue, of "Some e'" rb srb] get_rb_slot(2,3)[OF u Some] by auto
    show ?thesis
    proof (cases srb)
      case True
      then have "s' = s\<lparr>l2_manager := ?m'\<rparr>" using r Some e' by (auto simp: apply_at_def bindE_eq_Inr Let_def)
      then show ?thesis using t sd by (simp add: l2_touches_def sdap_touches_refl)
    next
      case False
      then obtain l evs m2 where d: "deliver_drb_sdus env (pu_id ?u) rb e sdus (l2_sdap s) = Inr (l, evs)"
        and x: "sdap_effects env evs ?m' = Inr (m2, out)" and s': "s' = \<lparr>l2_manager = m2, l2_sdap = l\<rparr>"
        using r Some e' by (auto simp: apply_at_def bindE_eq_Inr Let_def)
      have dt: "sdap_touches ue (l2_sdap s) l" "events_for ue evs" using deliver_drb_sdus_touches[OF sd d] ue by auto
      have "mgr_touches ue ?m' m2" by (rule sdap_effects_touches[OF mgr_touches_ok[OF t] dt(2) x])
      then show ?thesis using t dt(1) s' mgr_touches_trans by (auto simp: l2_touches_def)
    qed
  qed
qed

lemma apply_rb_touches:
  assumes ok: "l2_ok s" and f: "keeps_entity f" and r: "apply_rb env ue rb srb f s = Inr (s', out)"
  shows "l2_touches ue s s'"
proof -
  obtain m i where g: "nr_pdcp_manager_get_ue (l2_manager s) ue = (m, i)" by (cases "nr_pdcp_manager_get_ue (l2_manager s) ue")
  have m: "manager_ok (l2_manager s)" using ok by (simp add: l2_ok_def)
  note gr = get_ue_result[OF m g]
  have "l2_touches ue (s\<lparr>l2_manager := m\<rparr>) s'"
    using r g gr(1-3) ok f by (intro apply_at_touches[of "s\<lparr>l2_manager := m\<rparr>" i ue f env rb srb s' out]) (auto simp: apply_rb_def l2_ok_def)
  then show ?thesis using get_ue_touches[OF m g] mgr_touches_trans by (auto simp: l2_touches_def)
qed

text \<open>Reconfiguration leaves the kind of the entity and its security alone.\<close>

lemma keeps_reset: "keeps_entity (\<lambda>e. Inr (e\<lparr>pe_tx_next := 0, pe_rx_next := 0, pe_rx_deliv := 0\<rparr>, []))"
  by (auto simp: keeps_entity_def)

lemma keeps_reconfigure_srb:
  "keeps_entity (\<lambda>e. bindE (decode_t_reordering t) (\<lambda>t. Inr (e\<lparr>pe_t_reordering := t\<rparr>, [])))"
  by (auto simp: keeps_entity_def bindE_eq_Inr)

lemma reconfigure_drb_ok:
  assumes "entity_ok srb rb e" and "reconfigure_drb_entity cfg e = Inr e'"
  shows "entity_ok srb rb e'"
proof -
  have d: "entity_ok srb rb x \<Longrightarrow> set_discard_timer v x = Inr y \<Longrightarrow> entity_ok srb rb y" for v x y
    by (auto simp: set_discard_timer_def bindE_eq_Inr split: option.splits)
  have u: "entity_ok srb rb x \<Longrightarrow> set_sn_size_ul v x = Inr y \<Longrightarrow> entity_ok srb rb y" for v x y
    by (auto simp: set_sn_size_ul_def bindE_eq_Inr split: option.splits)
  have l: "entity_ok srb rb x \<Longrightarrow> set_sn_size_dl b v x = Inr y \<Longrightarrow> entity_ok srb rb y" for b v x y
    by (auto simp: set_sn_size_dl_def bindE_eq_Inr split: option.splits if_splits)
  show ?thesis
  proof (cases cfg)
    case None
    then show ?thesis using assms by (simp add: reconfigure_drb_entity_def)
  next
    case (Some pc)
    show ?thesis
    proof (cases "ac_drb pc")
      case None
      then show ?thesis using assms Some by (auto simp: reconfigure_drb_entity_def bindE_eq_Inr)
    next
      case (Some drb)
      then obtain t e1 e2 where "set_discard_timer (dc_discard_timer drb) (e\<lparr>pe_t_reordering := t\<rparr>) = Inr e1"
          "set_sn_size_ul (dc_sn_size_ul drb) e1 = Inr e2" "set_sn_size_dl (dc_sn_size_ul drb \<noteq> None) (dc_sn_size_dl drb) e2 = Inr e'"
        using assms(2) \<open>cfg = Some pc\<close> by (auto simp: reconfigure_drb_entity_def bindE_eq_Inr)
      moreover have "entity_ok srb rb (e\<lparr>pe_t_reordering := t\<rparr>)" using assms(1) by simp
      ultimately show ?thesis by (blast intro: d u l)
    qed
  qed
qed

lemma keeps_reconfigure_drb: "keeps_entity (\<lambda>e. bindE (reconfigure_drb_entity cfg e) (\<lambda>e. Inr (e, [])))"
  by (auto simp: keeps_entity_def bindE_eq_Inr dest: reconfigure_drb_ok)

section \<open>Adding and releasing bearers\<close>

lemma new_entity_ok:
  assumes "new_nr_pdcp_entity ty g rb ps rx tx n t d p = Inr e" and "ty = (if srb then NR_PDCP_SRB else NR_PDCP_DRB_AM)"
  shows "entity_ok srb rb e"
  using assms unfolding new_nr_pdcp_entity_def by (elim set_security_ok[rotated]) (simp add: entity_ok_def sec_wf_def)

lemma add_srb_touches:
  assumes ok: "l2_ok s" and r: "add_srb g ue srb_id t p s = Inr s'"
  shows "l2_touches ue s s'"
proof -
  obtain m i where g: "nr_pdcp_manager_get_ue (l2_manager s) ue = (m, i)" by (cases "nr_pdcp_manager_get_ue (l2_manager s) ue")
  have m: "manager_ok (l2_manager s)" and sd: "sdap_inv (l2_sdap s)" using ok by (simp_all add: l2_ok_def)
  note gr = get_ue_result[OF m g] and t = get_ue_touches[OF m g]
  have "s' = s\<lparr>l2_manager := m\<rparr> \<or> (\<exists>tr e. new_nr_pdcp_entity NR_PDCP_SRB g srb_id 0 False False 12 tr (-1) p = Inr e
      \<and> 1 \<le> srb_id \<and> srb_id \<le> 2 \<and> s' = s\<lparr>l2_manager := set_ue i (put_rb (pm_ue_list m ! i) srb_id True (Some e)) m\<rparr>)"
    using r g by (auto simp: add_srb_def bindE_eq_Inr Let_def nr_pdcp_ue_add_srb_pdcp_entity_def put_rb_def split: if_splits)
  then show ?thesis
  proof (elim disjE exE conjE)
    fix tr e
    assume e: "new_nr_pdcp_entity NR_PDCP_SRB g srb_id 0 False False 12 tr (-1) p = Inr e" and "1 \<le> srb_id" "srb_id \<le> 2"
      and s': "s' = s\<lparr>l2_manager := set_ue i (put_rb (pm_ue_list m ! i) srb_id True (Some e)) m\<rparr>"
    then have "mgr_touches ue m (set_ue i (put_rb (pm_ue_list m ! i) srb_id True (Some e)) m)"
      using set_rb_touches[OF gr(1-3), of "Some e" srb_id True] new_entity_ok[OF e, of True] by auto
    then show ?thesis using s' t sd mgr_touches_trans by (auto simp: l2_touches_def sdap_touches_refl)
  qed (use t sd in \<open>simp add: l2_touches_def sdap_touches_refl\<close>)
qed

lemma add_drb_cases:
  assumes "add_drb env g ue c p s = Inr (s', out)" and g: "nr_pdcp_manager_get_ue (l2_manager s) ue = (m, i)"
  shows "s' = s \<or> s' = s\<lparr>l2_manager := m\<rparr> \<or>
    (\<exists>ps rx tx n t d q e drb df qs l evs m'. new_nr_pdcp_entity NR_PDCP_DRB_AM g drb ps rx tx n t d q = Inr e
      \<and> 1 \<le> drb \<and> drb \<le> 5 \<and> new_nr_sdap_entity (env_nos1 env) g rx tx ue ps df drb qs (l2_sdap s) = Inr (l, evs)
      \<and> sdap_effects env evs (set_ue i (put_rb (pm_ue_list m ! i) drb False (Some e)) m) = Inr (m', out)
      \<and> s' = \<lparr>l2_manager = m', l2_sdap = l\<rparr>)"
proof (cases "da_pdcp_config c = None \<or> (\<exists>pc. da_pdcp_config c = Some pc \<and> ac_drb pc = None)")
  case True
  then show ?thesis using assms(1) by (auto simp: add_drb_def)
next
  case False
  then obtain pc drb where c: "da_pdcp_config c = Some pc" "ac_drb pc = Some drb" by auto
  obtain ul n d t ps rx tx df qs where
    r: "(if ul \<noteq> n then Inl Exit_Failure
      else let (m, i) = nr_pdcp_manager_get_ue (l2_manager s) ue; u = pm_ue_list m ! i; drb_id = da_drb_identity c in
        if nr_pdcp_get_rb u drb_id False \<noteq> None then Inr (s\<lparr>l2_manager := m\<rparr>, [])
        else bindE (new_nr_pdcp_entity NR_PDCP_DRB_AM g drb_id ps rx tx (nat n) t d
                 (actual_security (\<not> ac_ciphering_disabled pc) (dc_integrity_protection drb) p)) (\<lambda>e.
          bindE (nr_pdcp_ue_add_drb_pdcp_entity u drb_id e) (\<lambda>u.
          bindE (new_nr_sdap_entity (env_nos1 env) g rx tx ue ps df drb_id qs (l2_sdap s)) (\<lambda>(l, evs).
          bindE (sdap_effects env evs (set_ue i u m)) (\<lambda>(m, out). Inr (\<lparr>l2_manager = m, l2_sdap = l\<rparr>, out)))))) = Inr (s', out)"
    using assms(1) unfolding add_drb_def c option.case
    by (elim bindE_E) (auto split: prod.splits)
  show ?thesis
  proof (cases "nr_pdcp_get_rb (pm_ue_list m ! i) (da_drb_identity c) False")
    case (Some e)
    then show ?thesis using r g by (auto simp: Let_def split: if_splits)
  next
    case None
    then obtain e u l evs where "new_nr_pdcp_entity NR_PDCP_DRB_AM g (da_drb_identity c) ps rx tx (nat n) t d
          (actual_security (\<not> ac_ciphering_disabled pc) (dc_integrity_protection drb) p) = Inr e"
        "nr_pdcp_ue_add_drb_pdcp_entity (pm_ue_list m ! i) (da_drb_identity c) e = Inr u"
        "new_nr_sdap_entity (env_nos1 env) g rx tx ue ps df (da_drb_identity c) qs (l2_sdap s) = Inr (l, evs)"
        "bindE (sdap_effects env evs (set_ue i u m)) (\<lambda>(m, out). Inr (\<lparr>l2_manager = m, l2_sdap = l\<rparr>, out)) = Inr (s', out)"
      using r g by (auto simp: Let_def split: if_splits elim!: bindE_E)
    moreover from this(2) have "u = put_rb (pm_ue_list m ! i) (da_drb_identity c) False (Some e)" "1 \<le> da_drb_identity c" "da_drb_identity c \<le> 5"
      by (auto simp: nr_pdcp_ue_add_drb_pdcp_entity_def put_rb_def Let_def split: if_splits)
    ultimately show ?thesis by (fastforce simp: bindE_eq_Inr)
  qed
qed

lemma add_drb_touches:
  assumes ok: "l2_ok s" and r: "add_drb env g ue c p s = Inr (s', out)"
  shows "l2_touches ue s s'"
proof -
  obtain m i where g: "nr_pdcp_manager_get_ue (l2_manager s) ue = (m, i)" by (cases "nr_pdcp_manager_get_ue (l2_manager s) ue")
  have m: "manager_ok (l2_manager s)" and sd: "sdap_inv (l2_sdap s)" using ok by (simp_all add: l2_ok_def)
  note gr = get_ue_result[OF m g] and t = get_ue_touches[OF m g]
  from add_drb_cases[OF r g] show ?thesis
  proof (elim disjE exE conjE)
    fix ps rx tx n tr d q e drb df qs l evs m'
    assume e: "new_nr_pdcp_entity NR_PDCP_DRB_AM g drb ps rx tx n tr d q = Inr e" and rb: "1 \<le> drb" "drb \<le> 5"
      and n: "new_nr_sdap_entity (env_nos1 env) g rx tx ue ps df drb qs (l2_sdap s) = Inr (l, evs)"
      and x: "sdap_effects env evs (set_ue i (put_rb (pm_ue_list m ! i) drb False (Some e)) m) = Inr (m', out)"
      and s': "s' = \<lparr>l2_manager = m', l2_sdap = l\<rparr>"
    have t1: "mgr_touches ue m (set_ue i (put_rb (pm_ue_list m ! i) drb False (Some e)) m)"
      using set_rb_touches[OF gr(1-3), of "Some e" drb False] new_entity_ok[OF e, of False] rb by auto
    have "mgr_touches ue (set_ue i (put_rb (pm_ue_list m ! i) drb False (Some e)) m) m'"
      by (rule sdap_effects_touches[OF mgr_touches_ok[OF t1] new_entity_touches(2)[OF sd n] x])
    then show ?thesis
      using t t1 new_entity_touches(1)[OF sd n] s' mgr_touches_trans by (auto simp: l2_touches_def)
  qed (use t m sd in \<open>simp_all add: l2_touches_def sdap_touches_refl mgr_touches_refl\<close>)
qed

lemma release_srb_touches:
  assumes ok: "l2_ok s" and r: "nr_pdcp_release_srb ue srb_id s = Inr s'"
  shows "l2_touches ue s s'"
proof -
  obtain m i where g: "nr_pdcp_manager_get_ue (l2_manager s) ue = (m, i)" by (cases "nr_pdcp_manager_get_ue (l2_manager s) ue")
  have m: "manager_ok (l2_manager s)" and sd: "sdap_inv (l2_sdap s)" using ok by (simp_all add: l2_ok_def)
  note gr = get_ue_result[OF m g] and t = get_ue_touches[OF m g]
  have "s' = s\<lparr>l2_manager := set_ue i (put_rb (pm_ue_list m ! i) srb_id True None) m\<rparr>"
    using r g by (auto simp: nr_pdcp_release_srb_def Let_def split: if_splits)
  then show ?thesis using t sd set_rb_touches[OF gr(1-3), of None srb_id True] mgr_touches_trans
    by (auto simp: l2_touches_def sdap_touches_refl)
qed

text \<open>The list of UEs never gets shorter while control PDUs are sent, and keeps its UEs in place.\<close>

lemma get_ue_prefix: "nr_pdcp_manager_get_ue m k = (m', j) \<Longrightarrow> \<exists>l. map pu_id (pm_ue_list m') = map pu_id (pm_ue_list m) @ l"
  by (auto simp: nr_pdcp_manager_get_ue_def Let_def split: if_splits)

lemma map_pu_id_update: "map pu_id ((pm_ue_list m)[j := put_rb (pm_ue_list m ! j) rb srb x]) = map pu_id (pm_ue_list m)"
  by (metis list_update_beyond list_update_id map_update nth_map put_rb_id linorder_not_le)

lemma process_prefix:
  "process_on_rb env k rb srb sdu m = Inr (m', r) \<Longrightarrow> \<exists>l. map pu_id (pm_ue_list m') = map pu_id (pm_ue_list m) @ l"
proof -
  assume r: "process_on_rb env k rb srb sdu m = Inr (m', r)"
  obtain m1 j where g: "nr_pdcp_manager_get_ue m k = (m1, j)" by (cases "nr_pdcp_manager_get_ue m k")
  have "map pu_id (pm_ue_list m') = map pu_id (pm_ue_list m1)"
    using r g by (auto simp: process_on_rb_def bindE_eq_Inr Let_def set_ue_def map_pu_id_update split: option.splits)
  then show ?thesis using get_ue_prefix[OF g] by simp
qed

lemma sdap_effects_prefix:
  "sdap_effects env evs m = Inr (m', out) \<Longrightarrow> \<exists>l. map pu_id (pm_ue_list m') = map pu_id (pm_ue_list m) @ l"
proof (induction env evs m arbitrary: m' out rule: sdap_effects.induct)
  case ctrl: (2 env u d b evs m)
  obtain m1 out1 ret out2 where 1: "nr_pdcp_data_req_drb env (ctxt_for False u) False d 0 [b] m = Inr (m1, out1, ret)"
    and 3: "sdap_effects env evs m1 = Inr (m', out2)"
    using ctrl.prems by (auto simp: bindE_eq_Inr nr_pdcp_submit_sdap_ctrl_pdu_def)
  have s: "nr_pdcp_submit_sdap_ctrl_pdu env u d b m = Inr (m1, out1)" using 1 by (simp add: nr_pdcp_submit_sdap_ctrl_pdu_def)
  obtain r where "process_on_rb env (pc_ue_id (ctxt_for False u)) d False [b] m = Inr (m1, r)"
    using 1 by (auto simp: nr_pdcp_data_req_drb_def bindE_eq_Inr split: if_splits option.splits)
  then show ?case using process_prefix ctrl.IH[OF s refl 3] by fastforce
qed (auto simp: bindE_eq_Inr)

lemma release_drb_l2_touches:
  assumes ok: "l2_ok s" and r: "nr_pdcp_release_drb env ue drb s = Inr (s', out)"
  shows "l2_touches ue s s'"
proof -
  obtain m i where g: "nr_pdcp_manager_get_ue (l2_manager s) ue = (m, i)" by (cases "nr_pdcp_manager_get_ue (l2_manager s) ue")
  have m: "manager_ok (l2_manager s)" and sd: "sdap_inv (l2_sdap s)" using ok by (simp_all add: l2_ok_def)
  note gr = get_ue_result[OF m g] and t = get_ue_touches[OF m g]
  let ?u = "pm_ue_list m ! i"
  have rb: "1 \<le> drb" "drb \<le> 32" using r g by (auto simp: nr_pdcp_release_drb_def Let_def split: if_splits)
  show ?thesis
  proof (cases "nr_pdcp_get_rb ?u drb False")
    case None
    then show ?thesis using r g t sd rb
      by (auto simp: nr_pdcp_release_drb_def nr_pdcp_get_rb_def Let_def l2_touches_def sdap_touches_refl)
  next
    case (Some e)
    let ?e = "fst (nr_pdcp_entity_release e)" and ?l = "nr_sdap_release_drb ue drb (pe_pdusession_id e) (l2_sdap s)"
    let ?m = "set_ue i (put_rb ?u drb False (Some ?e)) m"
    obtain l evs m2 where d: "deliver_drb_sdus env ue drb e (snd (nr_pdcp_entity_release e)) ?l = Inr (l, evs)"
      and x: "sdap_effects env evs ?m = Inr (m2, out)"
      and s': "s' = \<lparr>l2_manager = set_ue i (put_rb (pm_ue_list m2 ! i) drb False None) m2, l2_sdap = l\<rparr>"
      using r g rb Some by (auto simp: nr_pdcp_release_drb_def nr_pdcp_get_rb_def bindE_eq_Inr Let_def)
    have lt: "sdap_touches ue (l2_sdap s) ?l" by (rule release_drb_touches[OF sd])
    have dt: "sdap_touches ue ?l l" "events_for ue evs" using deliver_drb_sdus_touches[OF sdap_touches_inv[OF lt] d] by auto
    have "entity_ok False drb ?e"
      using get_rb_slot(1)[OF gr(4) Some] deliver_all_ok[of e] by (metis nr_pdcp_entity_release_def prod.collapse)
    then have t1: "mgr_touches ue m ?m"
      using set_rb_touches[OF gr(1-3), of "Some ?e" drb False] get_rb_slot(2,3)[OF gr(4) Some] by auto
    have t2: "mgr_touches ue ?m m2" by (rule sdap_effects_touches[OF mgr_touches_ok[OF t1] dt(2) x])
    obtain l' where "map pu_id (pm_ue_list m2) = map pu_id (pm_ue_list ?m) @ l'" using sdap_effects_prefix[OF x] by blast
    moreover have "map pu_id (pm_ue_list ?m) = map pu_id (pm_ue_list m)" by (simp add: set_ue_def map_pu_id_update)
    ultimately have p: "map pu_id (pm_ue_list m2) = map pu_id (pm_ue_list m) @ l'" by simp
    then have "length (pm_ue_list m2) = length (pm_ue_list m) + length l'" by (metis length_append length_map)
    then have i2: "i < length (pm_ue_list m2)" using gr(2) by simp
    then have "pu_id (pm_ue_list m2 ! i) = ue" using p gr(2,3) by (metis length_map nth_append nth_map)
    then have "mgr_touches ue m2 (l2_manager s')"
      using set_rb_touches[OF mgr_touches_ok[OF t2] i2, of ue None drb False] s' by simp
    then have "mgr_touches ue (l2_manager s) (l2_manager s')" using t t1 t2 by (blast intro: mgr_touches_trans)
    moreover have "sdap_touches ue (l2_sdap s) (l2_sdap s')" using sdap_touches_trans[OF lt dt(1)] s' by simp
    ultimately show ?thesis by (simp add: l2_touches_def)
  qed
qed

section \<open>The operations of the API\<close>

datatype api_op =
    Op_Data_Ind protocol_ctxt bool int buffer
  | Op_Data_Req_Srb u64 int u32 buffer
  | Op_Data_Req_Drb protocol_ctxt bool int u32 buffer
  | Op_Sdap_Send protocol_ctxt bool int u32 "buffer option" byte bool int
  | Op_Add_Srb bool u64 int "int option" pdcp_keys
  | Op_Add_Drb bool u64 drb_to_add_mod pdcp_keys
  | Op_Remove_Ue u64
  | Op_Set_Security u64 int bool pdcp_keys
  | Op_Suspend u64 int bool
  | Op_Reestablish u64 int bool pdcp_keys
  | Op_Reconfigure_Srb u64 int int
  | Op_Reconfigure_Drb u64 int "pdcp_asn_config option"
  | Op_Release_Srb u64 int
  | Op_Release_Drb u64 int
  | Op_Reset_Counters u64 int
  | Op_Get_Statistics u64 bool int

definition quiet :: "l2_state res \<Rightarrow> (l2_state \<times> api_event list) res" where
  "quiet r = bindE r (\<lambda>s. Inr (s, []))"

definition loud :: "l2_state \<Rightarrow> (pdcp_manager \<times> api_event list \<times> bool) res \<Rightarrow> (l2_state \<times> api_event list) res" where
  "loud s r = bindE r (\<lambda>(m, out, _). Inr (s\<lparr>l2_manager := m\<rparr>, out))"

fun exec_op :: "api_env \<Rightarrow> api_op \<Rightarrow> l2_state \<Rightarrow> (l2_state \<times> api_event list) res" where
  "exec_op env (Op_Data_Ind ctxt srb rb buf) s = do_pdcp_data_ind env ctxt srb rb buf s"
| "exec_op env (Op_Data_Req_Srb ue rb mui sdu) s = loud s (nr_pdcp_data_req_srb env ue rb mui sdu (l2_manager s))"
| "exec_op env (Op_Data_Req_Drb ctxt srb rb mui sdu) s = loud s (nr_pdcp_data_req_drb env ctxt srb rb mui sdu (l2_manager s))"
| "exec_op env (Op_Sdap_Send ctxt srb rb mui sdu q r pdu) s =
     bindE (sdap_send env ctxt (pc_ue_id ctxt) srb rb mui sdu q r pdu s) (\<lambda>(s, out, _). Inr (s, out))"
| "exec_op env (Op_Add_Srb g ue srb t p) s = quiet (add_srb g ue srb t p s)"
| "exec_op env (Op_Add_Drb g ue c p) s = add_drb env g ue c p s"
| "exec_op env (Op_Remove_Ue ue) s = Inr (nr_pdcp_remove_UE ue s, [])"
| "exec_op env (Op_Set_Security ue rb srb p) s = nr_pdcp_config_set_security env ue rb srb p s"
| "exec_op env (Op_Suspend ue rb srb) s = nr_pdcp_suspend_rb env ue rb srb s"
| "exec_op env (Op_Reestablish ue rb srb p) s = nr_pdcp_reestablishment env ue rb srb p s"
| "exec_op env (Op_Reconfigure_Srb ue rb t) s = nr_pdcp_reconfigure_srb env ue rb t s"
| "exec_op env (Op_Reconfigure_Drb ue rb c) s = nr_pdcp_reconfigure_drb env ue rb c s"
| "exec_op env (Op_Release_Srb ue rb) s = quiet (nr_pdcp_release_srb ue rb s)"
| "exec_op env (Op_Release_Drb ue rb) s = nr_pdcp_release_drb env ue rb s"
| "exec_op env (Op_Reset_Counters ue rb) s = nr_pdcp_reset_drb_counters env ue rb s"
| "exec_op env (Op_Get_Statistics ue srb rb) s = Inr (fst (nr_pdcp_get_statistics env ue srb rb s), [])"

fun op_ue :: "api_op \<Rightarrow> u64" where
  "op_ue (Op_Data_Ind ctxt srb rb buf) = pc_ue_id ctxt"
| "op_ue (Op_Data_Req_Srb ue rb mui sdu) = ue"
| "op_ue (Op_Data_Req_Drb ctxt srb rb mui sdu) = pc_ue_id ctxt"
| "op_ue (Op_Sdap_Send ctxt srb rb mui sdu q r pdu) = pc_ue_id ctxt"
| "op_ue (Op_Add_Srb g ue srb t p) = ue"
| "op_ue (Op_Add_Drb g ue c p) = ue"
| "op_ue (Op_Remove_Ue ue) = ue"
| "op_ue (Op_Set_Security ue rb srb p) = ue"
| "op_ue (Op_Suspend ue rb srb) = ue"
| "op_ue (Op_Reestablish ue rb srb p) = ue"
| "op_ue (Op_Reconfigure_Srb ue rb t) = ue"
| "op_ue (Op_Reconfigure_Drb ue rb c) = ue"
| "op_ue (Op_Release_Srb ue rb) = ue"
| "op_ue (Op_Release_Drb ue rb) = ue"
| "op_ue (Op_Reset_Counters ue rb) = ue"
| "op_ue (Op_Get_Statistics ue srb rb) = ue"

lemma sdap_send_touches:
  assumes ok: "l2_ok s" and r: "sdap_send env ctxt ue srb rb mui sdu q rq pdu s = Inr (s', out, ret)" and ue: "pc_ue_id ctxt = ue"
  shows "l2_touches ue s s'"
proof -
  have m: "manager_ok (l2_manager s)" and sd: "sdap_inv (l2_sdap s)" using ok by (simp_all add: l2_ok_def)
  obtain l x where d: "sdap_data_req ue (pc_enb_flag ctxt) rb sdu q rq pdu (l2_sdap s) = Inr (l, x)"
    using r by (auto simp: sdap_send_def bindE_eq_Inr)
  have t: "sdap_touches ue (l2_sdap s) l" by (rule data_req_touches[OF sd d])
  show ?thesis
  proof (cases x)
    case None
    then show ?thesis using r d t m by (auto simp: sdap_send_def l2_touches_def mgr_touches_refl)
  next
    case (Some y)
    then obtain m' where "nr_pdcp_data_req_drb env ctxt srb (fst y) mui (snd y) (l2_manager s) = Inr (m', out, ret)"
        "s' = s\<lparr>l2_manager := m', l2_sdap := l\<rparr>"
      using r d by (cases y) (auto simp: sdap_send_def bindE_eq_Inr)
    then show ?thesis using t data_req_drb_touches[OF m] ue by (auto simp: l2_touches_def)
  qed
qed

lemma loud_touches:
  assumes "l2_ok s" and "\<And>m' out ret. r = Inr (m', out, ret) \<Longrightarrow> mgr_touches ue (l2_manager s) m'" and "loud s r = Inr (s', out')"
  shows "l2_touches ue s s'"
  using assms by (auto simp: loud_def bindE_eq_Inr l2_touches_def l2_ok_def sdap_touches_refl)

lemma get_statistics_touches: "l2_ok s \<Longrightarrow> l2_touches ue s (fst (nr_pdcp_get_statistics env ue srb rb s))"
  using get_ue_touches[of "l2_manager s" ue]
  by (auto simp: nr_pdcp_get_statistics_def l2_touches_def l2_ok_def sdap_touches_refl split: prod.splits)

lemmas keeps_all = keeps_recv keeps_suspend keeps_security keeps_reestablish keeps_reset keeps_reconfigure_srb keeps_reconfigure_drb

lemmas rb_op_defs = nr_pdcp_config_set_security_def nr_pdcp_suspend_rb_def nr_pdcp_reestablishment_def
  nr_pdcp_reconfigure_srb_def nr_pdcp_reconfigure_drb_def nr_pdcp_reset_drb_counters_def

lemma exec_op_touches:
  assumes ok: "l2_ok s" and r: "exec_op env op s = Inr (s', out)"
  shows "l2_touches (op_ue op) s s'"
proof (cases op)
  case (Op_Data_Ind ctxt srb rb buf)
  then show ?thesis using r apply_rb_touches[OF ok keeps_recv] by (auto simp: do_pdcp_data_ind_def split: if_splits)
next
  case (Op_Data_Req_Srb ue rb mui sdu)
  have "l2_touches ue s s'"
    by (rule loud_touches[OF ok data_req_srb_touches]) (use r ok Op_Data_Req_Srb in \<open>auto simp: l2_ok_def\<close>)
  then show ?thesis using Op_Data_Req_Srb by simp
next
  case (Op_Data_Req_Drb ctxt srb rb mui sdu)
  have "l2_touches (pc_ue_id ctxt) s s'"
    by (rule loud_touches[OF ok data_req_drb_touches]) (use r ok Op_Data_Req_Drb in \<open>auto simp: l2_ok_def\<close>)
  then show ?thesis using Op_Data_Req_Drb by simp
next
  case (Op_Sdap_Send ctxt srb rb mui sdu q rq pdu)
  then show ?thesis using r sdap_send_touches[OF ok] by (auto simp: bindE_eq_Inr)
next
  case (Op_Remove_Ue ue)
  then show ?thesis using r ok remove_ue_touches
    by (auto simp: nr_pdcp_remove_UE_def l2_touches_def l2_ok_def sdap_touches_refl)
next
  case (Op_Get_Statistics ue srb rb)
  then show ?thesis using r get_statistics_touches[OF ok] by auto
qed (use r ok in \<open>auto simp: rb_op_defs quiet_def bindE_eq_Inr
      dest: keeps_all[THEN apply_rb_touches[OF ok]] intro: add_srb_touches add_drb_touches release_srb_touches release_drb_l2_touches\<close>)

text \<open>A round of the timer thread keeps the invariant too, and the UEs stay where they are.\<close>

lemma apply_at_prefix:
  assumes "apply_at env i rb srb f s = Inr (s', out)"
  shows "\<exists>l. map pu_id (pm_ue_list (l2_manager s')) = map pu_id (pm_ue_list (l2_manager s)) @ l"
proof -
  have "map pu_id (pm_ue_list (set_ue i (put_rb (pm_ue_list (l2_manager s) ! i) rb srb x) (l2_manager s))) =
      map pu_id (pm_ue_list (l2_manager s))" for x
    by (simp add: set_ue_def map_pu_id_update)
  then show ?thesis
    using assms by (auto simp: apply_at_def bindE_eq_Inr Let_def split: option.splits if_splits dest!: sdap_effects_prefix)
qed

lemma tick_loop_ok:
  assumes "l2_ok s" and "tick_loop env now l s = Inr (s', out)"
    and "\<forall>(i, _) \<in> set l. i < length (pm_ue_list (l2_manager s))"
  shows "l2_ok s'"
  using assms
proof (induction env now l s arbitrary: s' out rule: tick_loop.induct)
  case step: (2 env now i srb rb l s)
  obtain s1 out1 out2 where 1: "apply_at env i rb srb (\<lambda>e. Inr (nr_pdcp_entity_set_time now e)) s = Inr (s1, out1)"
    and 2: "tick_loop env now l s1 = Inr (s', out2)"
    using step.prems(2) by (auto simp: bindE_eq_Inr)
  have "i < length (pm_ue_list (l2_manager s))" using step.prems(3) by auto
  then have "l2_ok s1" using apply_at_touches[OF step.prems(1) _ refl keeps_set_time 1]
    by (auto simp: l2_touches_def l2_ok_def mgr_touches_def sdap_touches_def)
  moreover have "length (pm_ue_list (l2_manager s)) \<le> length (pm_ue_list (l2_manager s1))"
    using apply_at_prefix[OF 1] by (metis length_append length_map le_add1)
  then have "\<forall>(i, _) \<in> set l. i < length (pm_ue_list (l2_manager s1))" using step.prems(3) by fastforce
  ultimately show ?case using step.IH[OF 1 refl _ 2] by blast
qed simp

lemma timer_tick_ok: "l2_ok s \<Longrightarrow> nr_pdcp_timer_tick env now s = Inr (s', out) \<Longrightarrow> l2_ok s'"
  unfolding nr_pdcp_timer_tick_def by (erule tick_loop_ok) (auto simp: tick_slots_def)

text \<open>The states the layer reaches from its start.\<close>

definition l2_init :: "bool \<Rightarrow> l2_state" where
  "l2_init enb_flag = \<lparr>l2_manager = new_nr_pdcp_ue_manager enb_flag, l2_sdap = []\<rparr>"

inductive l2_reach :: "api_env \<Rightarrow> l2_state \<Rightarrow> bool" for env where
  reach_start: "l2_reach env (l2_init enb_flag)"
| reach_op: "l2_reach env s \<Longrightarrow> exec_op env op s = Inr (s', out) \<Longrightarrow> l2_reach env s'"
| reach_tick: "l2_reach env s \<Longrightarrow> nr_pdcp_timer_tick env now s = Inr (s', out) \<Longrightarrow> l2_reach env s'"

lemma l2_reach_ok: "l2_reach env s \<Longrightarrow> l2_ok s"
proof (induction rule: l2_reach.induct)
  case (reach_start enb_flag)
  then show ?case by (simp add: l2_init_def new_nr_pdcp_ue_manager_def l2_ok_def manager_ok_def sdap_inv_def)
next
  case (reach_op s op s' out)
  then show ?case using exec_op_touches[OF reach_op.IH reach_op.hyps(2)]
    by (auto simp: l2_touches_def l2_ok_def mgr_touches_def sdap_touches_def)
next
  case (reach_tick s now s' out)
  then show ?case using timer_tick_ok by blast
qed

end
