(* ===== verification/L2_Stack.thy ===== *)
theory L2_Stack
  imports PDCP_Api_Props
begin

text \<open>
  SDAP and PDCP together: UEs do not disturb each other, an SDU that the two layers of one node send
  arrives unchanged at the top of the two layers of the other node, and the end marker of SDAP stops the
  program on a bearer that is ciphered but not integrity protected.
\<close>

section \<open>One SDU through both layers\<close>

lemma get_known_ue:
  assumes "manager_ok m" and "ue_of m ue = Some u"
  shows "\<exists>i. nr_pdcp_manager_get_ue m ue = (m, i) \<and> i < length (pm_ue_list m) \<and> pm_ue_list m ! i = u"
proof -
  have "index_of pu_id ue (pm_ue_list m) < length (pm_ue_list m)" "pm_ue_list m ! index_of pu_id ue (pm_ue_list m) = u"
    using assms(2) by (auto simp: lookup_index split: if_splits)
  then show ?thesis by (simp add: nr_pdcp_manager_get_ue_def)
qed

lemma get_known_sdap: "sdap_map l (ue, pdu) = Some d \<Longrightarrow> \<exists>i. nr_sdap_get_entity ue pdu l = Some i \<and> l ! i = d"
  using get_entity_map[where l = l and ue = ue and pdu = pdu] by auto

text \<open>The array on the stack is as large as the PDU can be.\<close>

definition stack_array :: "api_env \<Rightarrow> buffer \<Rightarrow> buffer" where
  "stack_array env sdu = map (env_stack env) [0..<nat (nr_max_pdcp_pdu_size (int (length sdu)))]"

definition sendable :: "api_env \<Rightarrow> pdcp_entity \<Rightarrow> buffer \<Rightarrow> bool" where
  "sendable env t sdu \<longleftrightarrow> can_send (env_crypto env) t sdu (stack_array env sdu) (nr_max_pdcp_pdu_size (int (length sdu)))"

lemma sendableI:
  assumes "crypto_ok (env_crypto env)" and "entity_ok False drb t" and "pdcp_config t" and "\<not> pe_suspended t"
    and "1 \<le> drb" "drb \<le> 5" and "sdap_size (pe_has_sdap_tx t) < length sdu" and "length sdu < 2 ^ 29 - 7"
  shows "sendable env t sdu"
  using assms by (simp add: sendable_def can_send_def entity_ok_def nr_max_pdcp_pdu_size_def stack_array_def)

lemma accept_sdu_only:
  assumes "ps_count sdu = pe_rx_deliv e" and "pe_rx_list e = []"
  shows "\<exists>e'. accept_sdu sz h sdu e = (e', [sdu])"
  using assms by (auto simp: accept_sdu_alt Let_def nr_pdcp_sdu_list_add_def add_to_list_def split: if_splits)

lemma link_alone:
  assumes cs: "sendable env t b" and p: "paired t r" and due: "pe_rx_deliv r = pe_tx_next t" "pe_rx_list r = []" and cfg: "pdcp_config t"
  shows "\<exists>t' bytes r' x. pe_is_gnb t' = pe_is_gnb t \<and> length bytes = pdu_size t b
    \<and> nr_pdcp_entity_process_sdu (env_crypto env) t b (stack_array env b) (nr_max_pdcp_pdu_size (int (length b)))
        = Inr (t', int (length bytes), bytes @ drop (length bytes) (stack_array env b))
    \<and> nr_pdcp_entity_recv_pdu (env_crypto env) r bytes (int (length bytes)) = Inr (r', [x]) \<and> ps_buffer x = b"
proof -
  have w: "in_window r (pe_tx_next t)" using p due(1) cfg by (auto simp: in_window_def paired_def pdcp_config_def)
  have fresh: "pe_rx_deliv r \<le> pe_tx_next t" "pe_tx_next t \<notin> set (counts (pe_rx_list r))" using due by simp_all
  obtain t' bytes mi st where t': "sent t t'" and len: "length bytes = pdu_size t b"
    and snd: "nr_pdcp_entity_process_sdu (env_crypto env) t b (stack_array env b) (nr_max_pdcp_pdu_size (int (length b)))
        = Inr (t', int (length bytes), bytes @ drop (length bytes) (stack_array env b))"
    and rcv: "nr_pdcp_entity_recv_pdu (env_crypto env) r bytes (int (length bytes))
        = Inr (accept_sdu (int (length bytes)) (int (header_size_of t))
            \<lparr>ps_count = pe_tx_next t, ps_buffer = b, ps_integrity = mi\<rparr> (r\<lparr>pe_stats := st\<rparr>))"
    using link_accepts[OF cs[unfolded sendable_def] p w fresh] by blast
  let ?x = "\<lparr>ps_count = pe_tx_next t, ps_buffer = b, ps_integrity = mi\<rparr>"
  obtain r' where "accept_sdu (int (length bytes)) (int (header_size_of t)) ?x (r\<lparr>pe_stats := st\<rparr>) = (r', [?x])"
    using accept_sdu_only[of ?x "r\<lparr>pe_stats := st\<rparr>"] due by auto
  then show ?thesis using t' len snd rcv by (intro exI[of _ t'] exI[of _ bytes] exI[of _ r'] exI[of _ ?x]) (auto simp: sent_def)
qed

text \<open>What a PDU of a bearer on its way down is carried by, by the role of the node.\<close>

definition pdu_down :: "api_env \<Rightarrow> bool \<Rightarrow> u64 \<Rightarrow> int \<Rightarrow> buffer \<Rightarrow> u32 \<Rightarrow> api_event res" where
  "pdu_down env gnb ue drb pdu mui =
     (if gnb then deliver_pdu_drb_gnb env ue drb pdu mui else Inr (deliver_pdu_drb_ue ue drb pdu mui))"

lemma data_req_drb_sends:
  assumes m: "manager_ok m" and u: "ue_of m ue = Some u" and t: "nr_pdcp_get_rb u drb False = Some t"
    and p: "nr_pdcp_entity_process_sdu (env_crypto env) t sdu (stack_array env sdu) (nr_max_pdcp_pdu_size (int (length sdu)))
      = Inr (t', int (length pdu), pdu @ rest)"
    and g: "pe_is_gnb t' = pe_is_gnb t" "pe_is_gnb t \<Longrightarrow> f1_ok (env_f1 env) \<and> f1_map (env_f1 env) (ucast ue) \<noteq> None"
  shows "\<exists>m' ev. nr_pdcp_data_req_drb env (ctxt_for enb ue) False drb mui sdu m = Inr (m', [ev], True)
    \<and> pdu_down env (pe_is_gnb t) ue drb pdu mui = Inr ev"
proof -
  obtain i where i: "nr_pdcp_manager_get_ue m ue = (m, i)" "pm_ue_list m ! i = u" using get_known_ue[OF m u] by blast
  have "process_on_rb env ue drb False sdu m = Inr (set_ue i (put_rb u drb False (Some t')) m, Some (t', pdu))"
    using i t p by (simp add: process_on_rb_def stack_array_def)
  then show ?thesis using g env_secondary_known[of env ue]
    by (auto simp: nr_pdcp_data_req_drb_def ctxt_for_def pdu_down_def deliver_pdu_drb_gnb_def)
qed

text \<open>What SDAP hands up for the bytes of one SDU.\<close>

definition handed_up :: "api_env \<Rightarrow> u64 \<Rightarrow> pdcp_entity \<Rightarrow> sdap_entity \<Rightarrow> buffer \<Rightarrow> sdap_event" where
  "handed_up env ue r d sdu =
     (if pe_is_gnb r then Gtp_Send (the (env_n3 env)) ue (pe_pdusession_id r) sdu else Tun_Write (se_pdusession_sock d) sdu)"

lemma rx_entity_strips:
  assumes "g \<Longrightarrow> n3 \<noteq> None" and "\<not> g \<Longrightarrow> has \<Longrightarrow> \<not> bit h 7"
  shows "nr_sdap_rx_entity n3 drb g has pdu ue (if has then h # sdu else sdu) d =
    Inr (d, [if g then Gtp_Send (the n3) ue pdu sdu else Tun_Write (se_pdusession_sock d) sdu])"
  using assms by (auto simp: nr_sdap_rx_entity_def mem_read_def)

lemma data_ind_hands_up:
  assumes ok: "l2_ok s" and v: "ue_of (l2_manager s) ue = Some v" and r: "nr_pdcp_get_rb v drb False = Some r"
    and d: "sdap_map (l2_sdap s) (ue, pe_pdusession_id r) = Some d"
    and p: "nr_pdcp_entity_recv_pdu (env_crypto env) r pdu (int (length pdu)) = Inr (r', [x])"
    and x: "ps_buffer x = (if pe_has_sdap_rx r then h # sdu else sdu)"
    and env: "\<not> env_tun env" "pe_is_gnb r \<Longrightarrow> env_n3 env \<noteq> None" "\<not> pe_is_gnb r \<Longrightarrow> pe_has_sdap_rx r \<Longrightarrow> \<not> bit h 7"
  shows "\<exists>s'. do_pdcp_data_ind env (ctxt_for enb ue) False drb pdu s = Inr (s', [Sdap_Effect (handed_up env ue r d sdu)])"
proof -
  obtain i where i: "nr_pdcp_manager_get_ue (l2_manager s) ue = (l2_manager s, i)" "pm_ue_list (l2_manager s) ! i = v"
    using get_known_ue[OF _ v] ok by (auto simp: l2_ok_def)
  obtain j where j: "nr_sdap_get_entity ue (pe_pdusession_id r) (l2_sdap s) = Some j" "l2_sdap s ! j = d"
    using get_known_sdap[OF d] by blast
  have id: "pu_id v = ue" using v by (rule lookup_key)
  have "deliver_sdu_drb env ue drb r x (l2_sdap s) = Inr (l2_sdap s, [handed_up env ue r d sdu])"
    using rx_entity_strips[OF env(2,3), where drb = drb and pdu = "pe_pdusession_id r" and ue = ue and sdu = sdu and d = d] env(1) j x
    by (auto simp: deliver_sdu_drb_def sdap_data_ind_def handed_up_def)
  then show ?thesis using i r p id
    by (auto simp: do_pdcp_data_ind_def ctxt_for_def apply_rb_def apply_at_def handed_up_def)
qed

text \<open>
  An SDU goes through SDAP and PDCP of two nodes unchanged. The sender's SDAP entity maps the QoS
  flow to a bearer; its PDCP entity there and the receiver's are a pair and the receiver waits for the
  next COUNT. Then the request sends exactly one PDU, and this PDU, given to PDCP of the other node, leads
  to exactly one packet: the SDU as it was, to GTP-U with the UE and the PDU session at a gNB, to
  the TUN socket of the session at a UE; the SDAP header is gone if it was there.
\<close>

lemma user_plane_link:
  assumes ok: "l2_ok s" "l2_ok w"
    and d: "sdap_map (l2_sdap s) (ue, pdu) = Some d" and q: "unat q < 64"
    and drb: "flow_drb d q = drb" "qd_has_sdap_tx (se_table d ! unat q) = pe_has_sdap_tx t"
    and t: "ue_of (l2_manager s) ue = Some u" "nr_pdcp_get_rb u drb False = Some t"
    and r: "ue_of (l2_manager w) rue = Some v" "nr_pdcp_get_rb v drb False = Some r"
    and dr: "sdap_map (l2_sdap w) (rue, pe_pdusession_id r) = Some dr"
    and pair: "paired t r" "pe_rx_deliv r = pe_tx_next t" "pe_rx_list r = []"
    and tx: "pdcp_config t" "\<not> pe_suspended t" "0 < length sdu" "length sdu \<le> 8999"
    and env: "crypto_ok (env_crypto env)" "env_crypto renv = env_crypto env" "\<not> env_tun renv"
      "pe_is_gnb t \<Longrightarrow> f1_ok (env_f1 env) \<and> f1_map (env_f1 env) (ucast ue) \<noteq> None" "pe_is_gnb r \<Longrightarrow> env_n3 renv \<noteq> None"
  shows "\<exists>s' ev bytes w'.
      sdap_send env (ctxt_for (pe_is_gnb t) ue) ue False rb mui (Some sdu) q rqi pdu s = Inr (s', [ev], True)
    \<and> pdu_down env (pe_is_gnb t) ue drb bytes mui = Inr ev \<and> 0 < length bytes \<and> length bytes \<le> length sdu + 8
    \<and> do_pdcp_data_ind renv (ctxt_for (pe_is_gnb r) rue) False drb bytes w = Inr (w', [Sdap_Effect (handed_up renv rue r dr sdu)])"
proof -
  have m: "manager_ok (l2_manager s)" and sd: "sdap_inv (l2_sdap s)" using ok(1) by (simp_all add: l2_ok_def)
  have uok: "ue_ok u" using mgr.get_ok[OF m t(1)] .
  note e = get_rb_slot[OF uok t(2)]
  obtain j where j: "nr_sdap_get_entity ue pdu (l2_sdap s) = Some j" "l2_sdap s ! j = d" using get_known_sdap[OF d] by blast
  let ?h = "if pe_is_gnb t then sdap_hdr q rqi False else sdap_hdr q False rqi"
  define b where "b = (if pe_has_sdap_tx t then ?h # sdu else sdu)"
  have "sdap_ok d" using nth_ok[OF sd j(1)] j(2) by simp
  from tx_entity_result[OF this q, of "pe_is_gnb t" rb sdu rqi] obtain d'
    where "nr_sdap_tx_entity d (pe_is_gnb t) rb (Some sdu) q rqi = Inr (d', Some (drb, b))"
    using drb tx(3,4) e(2) by (auto simp: b_def)
  then have req: "sdap_data_req ue (pe_is_gnb t) rb (Some sdu) q rqi pdu (l2_sdap s) = Inr ((l2_sdap s)[j := d'], Some (drb, b))"
    using j by (simp add: sdap_data_req_def)
  have "sendable env t b" using sendableI[OF env(1) e(1) tx(1,2) e(2)] e(3) tx(3,4) by (simp add: b_def sdap_size_def)
  from link_alone[OF this pair tx(1)] obtain t' bytes r' x where t': "pe_is_gnb t' = pe_is_gnb t" and len: "length bytes = pdu_size t b"
    and snd: "nr_pdcp_entity_process_sdu (env_crypto env) t b (stack_array env b) (nr_max_pdcp_pdu_size (int (length b)))
        = Inr (t', int (length bytes), bytes @ drop (length bytes) (stack_array env b))"
    and rcv: "nr_pdcp_entity_recv_pdu (env_crypto env) r bytes (int (length bytes)) = Inr (r', [x])" and x: "ps_buffer x = b"
    by blast
  obtain m' ev where "nr_pdcp_data_req_drb env (ctxt_for (pe_is_gnb t) ue) False drb mui b (l2_manager s) = Inr (m', [ev], True)"
      "pdu_down env (pe_is_gnb t) ue drb bytes mui = Inr ev"
    using data_req_drb_sends[OF m t snd t' env(4)] by blast
  moreover have "\<exists>w'. do_pdcp_data_ind renv (ctxt_for (pe_is_gnb r) rue) False drb bytes w =
      Inr (w', [Sdap_Effect (handed_up renv rue r dr sdu)])"
  proof (rule data_ind_hands_up[OF ok(2) r dr _ _ env(3,5)])
    show "nr_pdcp_entity_recv_pdu (env_crypto renv) r bytes (int (length bytes)) = Inr (r', [x])" using rcv env(2) by simp
    show "ps_buffer x = (if pe_has_sdap_rx r then ?h # sdu else sdu)" using pair(1) x by (simp add: b_def paired_def)
    show "\<not> bit ?h 7" if "\<not> pe_is_gnb r" using that pair(1) by (simp add: paired_def sdap_hdr_fields)
  qed
  moreover have "0 < length bytes" "length bytes \<le> length sdu + 8"
    using len header_size_le[of t] integrity_size_cases(1)[of t] by (auto simp: pdu_size_def b_def)
  ultimately show ?thesis using req by (auto simp: sdap_send_def ctxt_for_def)
qed

section \<open>Examples\<close>

text \<open>A gNB and a UE with one DRB for the QoS flow 9, with NEA2 and NIA2 and SDAP headers.\<close>

definition ex_env :: api_env where
  "ex_env = \<lparr>env_crypto = xor_crypto, env_tun = False, env_nos1 = None, env_is_cu = False,
     env_f1 = f1_example 7 8, env_n3 = Some 3, env_stack = (\<lambda>i. 170)\<rparr>"

definition ex_sdap :: "bool \<Rightarrow> u64 \<Rightarrow> sdap_entity" where
  "ex_sdap gnb ue = nr_sdap_qfi2drb_map_update (empty_sdap_entity gnb ue 10) 9 1 True True"

definition ex_ue :: "u64 \<Rightarrow> pdcp_entity \<Rightarrow> pdcp_ue" where
  "ex_ue ue e = put_rb (zero_ue ue) 1 False (Some e)"

definition ex_state :: "bool \<Rightarrow> u64 \<Rightarrow> pdcp_entity \<Rightarrow> l2_state" where
  "ex_state gnb ue e = \<lparr>l2_manager = \<lparr>pm_ue_list = [ex_ue ue e], pm_enb_flag = gnb\<rparr>, l2_sdap = [ex_sdap gnb ue]\<rparr>"

lemma ex_state_parts:
  "ue_of (l2_manager (ex_state gnb ue e)) ue = Some (ex_ue ue e)" "nr_pdcp_get_rb (ex_ue ue e) 1 False = Some e"
  "sdap_map (l2_sdap (ex_state gnb ue e)) (ue, 10) = Some (ex_sdap gnb ue)"
  by (simp_all add: ex_state_def ex_ue_def put_rb_def zero_ue_def nr_pdcp_get_rb_def ex_sdap_def sdap_key_def
      nr_sdap_qfi2drb_map_update_def empty_sdap_entity_def)

lemma ex_state_ok: "entity_ok False 1 e \<Longrightarrow> l2_ok (ex_state gnb ue e)"
  using put_rb_ok[of "zero_ue ue" "Some e" 1 False]
  by (simp add: l2_ok_def ex_state_def manager_ok_def ex_ue_def sdap_inv_def ex_sdap_def sdap_ok_def
      nr_sdap_qfi2drb_map_update_def empty_sdap_entity_def)

lemma ex_flow: "flow_drb (ex_sdap gnb ue) 9 = 1" "qd_has_sdap_tx (se_table (ex_sdap gnb ue) ! unat (9 :: byte))"
  by (simp_all add: flow_drb_def ex_sdap_def nr_sdap_qfi2drb_map_update_def empty_sdap_entity_def)

lemma ex_entity_type:
  assumes "alg = 0 \<or> alg = 1 \<or> alg = 2"
  shows "pe_type (ex_entity alg g) = NR_PDCP_DRB_AM" "pe_pdusession_id (ex_entity alg g) = 10" "pe_is_gnb (ex_entity alg g) = g"
  using assms by (auto simp: ex_entity_def new_entity_defs)

lemma ex_entity_ok: "alg = 0 \<or> alg = 1 \<or> alg = 2 \<Longrightarrow> entity_ok False 1 (ex_entity alg g)"
  using ex_sel[of alg g] ex_entity_type[of alg g] by (simp add: entity_ok_def)

text \<open>A bearer that is ciphered with NEA2 and has no integrity protection.\<close>

definition ex_ciphered :: pdcp_entity where
  "ex_ciphered = (case new_nr_pdcp_entity NR_PDCP_DRB_AM False 1 10 True True 12 100 (-1)
     (actual_security True False (ex_keys 2)) of Inr e \<Rightarrow> e | Inl _ \<Rightarrow> undefined)"

lemma ex_ciphered_new:
  "new_nr_pdcp_entity NR_PDCP_DRB_AM False 1 10 True True 12 100 (-1) (actual_security True False (ex_keys 2)) = Inr ex_ciphered"
  by (simp add: ex_ciphered_def new_entity_defs actual_security_def)

section \<open>Properties\<close>

text \<open>
  Property C4. UEs are isolated. In every state that the PDCP layer reaches by calls of its API and rounds of
  its timer thread, UE identifiers are unique, every entity is in the slot of its bearer and has
  security functions that fit; and a call for one UE leaves the PDCP state and the SDAP entities of
  every other UE as they are.
\<close>

theorem pdcp_layer_isolates_ues:
  assumes "l2_reach env s" and "exec_op env op s = Inr (s', out)"
  shows "distinct (map pu_id (pm_ue_list (l2_manager s'))) \<and> (\<forall>u \<in> set (pm_ue_list (l2_manager s')). ue_ok u)
    \<and> (k \<noteq> op_ue op \<longrightarrow> ue_of (l2_manager s') k = ue_of (l2_manager s) k
        \<and> sdap_map (l2_sdap s') (k, p) = sdap_map (l2_sdap s) (k, p))"
  using exec_op_touches[OF l2_reach_ok[OF assms(1)] assms(2)]
  by (auto simp: l2_touches_def mgr_touches_def sdap_touches_def manager_ok_def)

theorem pdcp_layer_isolates_ues_witness:
  "\<exists>s s'. exec_op ex_env (Op_Get_Statistics 8 True 1) (l2_init True) = Inr (s, [])
    \<and> exec_op ex_env (Op_Add_Srb True 7 1 None (ex_keys 2)) s = Inr (s', [])
    \<and> ue_of (l2_manager s') 8 = Some (zero_ue 8) \<and> (\<forall>u \<in> set (pm_ue_list (l2_manager s')). ue_ok u)"
proof -
  obtain s where s: "exec_op ex_env (Op_Get_Statistics 8 True 1) (l2_init True) = Inr (s, [])"
      "s = \<lparr>l2_manager = \<lparr>pm_ue_list = [zero_ue 8], pm_enb_flag = True\<rparr>, l2_sdap = []\<rparr>"
    by (simp add: nr_pdcp_get_statistics_def nr_pdcp_manager_get_ue_def l2_init_def new_nr_pdcp_ue_manager_def)
  obtain s' where s': "exec_op ex_env (Op_Add_Srb True 7 1 None (ex_keys 2)) s = Inr (s', [])"
    by (simp add: s(2) quiet_def add_srb_def t_reordering_of_def nr_pdcp_manager_get_ue_def nr_pdcp_get_rb_def
        nr_pdcp_ue_add_srb_pdcp_entity_def zero_ue_def new_entity_defs)
  have "l2_reach ex_env s" using reach_start s(1) by (rule reach_op)
  from pdcp_layer_isolates_ues[OF this s', of 8] s show ?thesis using s' by auto
qed

text \<open>
  Property C40. An SDAP end marker stops the program on a bearer with NEA2 ciphering, SDAP headers and no integrity
  protection. The end marker is the SDAP header alone, so PDCP asks NEA2 to cipher the zero bytes behind the
  header, and NEA2 asserts that the length is positive.
\<close>

theorem sdap_end_marker_aborts:
  assumes m: "manager_ok m" and u: "ue_of m ue = Some u" and t: "nr_pdcp_get_rb u drb False = Some t"
    and sec: "pe_has_ciphering t" "pe_cipher t = Some Nea2_Cipher" "\<not> pe_has_integrity t"
    and tx: "pe_has_sdap_tx t" "\<not> pe_suspended t"
  shows "nr_pdcp_submit_sdap_ctrl_pdu env ue drb (nr_sdap_construct_ctrl_pdu qfi) m = Inl Assert_Fatal"
proof -
  obtain i where i: "nr_pdcp_manager_get_ue m ue = (m, i)" "pm_ue_list m ! i = u" using get_known_ue[OF m u] by blast
  have "entity_ok False drb t" using get_rb_slot(1)[OF mgr.get_ok[OF m u] t] .
  then have t': "pe_type t = NR_PDCP_DRB_AM" "pe_security_context t = Some Entity_Key"
    using sec by (auto simp: entity_ok_def sec_wf_def)
  have upd_type: "pe_type (upd_pstats f t) = pe_type t" for f by (simp add: upd_pstats_def)
  have "nr_pdcp_entity_process_sdu (env_crypto env) t [nr_sdap_construct_ctrl_pdu qfi] (map (env_stack env) [0..<8]) 8 = Inl Assert_Fatal"
    using sec tx t' header_size_le[of t]
    by (simp add: upd_type nr_pdcp_entity_process_sdu_def Let_def nr_max_pdcp_pdu_size_def dev_assert_def mem_write_def write_mac_def
        integrity_size_of_def cipher_range_def mem_read_def call_cipher_def nr_pdcp_security_nea2_cipher_def)
  then have "process_on_rb env ue drb False [nr_sdap_construct_ctrl_pdu qfi] m = Inl Assert_Fatal"
    using i t by (simp add: process_on_rb_def nr_max_pdcp_pdu_size_def)
  then show ?thesis by (simp add: nr_pdcp_submit_sdap_ctrl_pdu_def nr_pdcp_data_req_drb_def ctxt_for_def)
qed

theorem sdap_end_marker_aborts_witness:
  "nr_pdcp_submit_sdap_ctrl_pdu ex_env 7 1 (nr_sdap_construct_ctrl_pdu 9) (l2_manager (ex_state False 7 ex_ciphered)) = Inl Assert_Fatal"
proof -
  have e: "entity_ok False 1 ex_ciphered" using new_entity_ok[OF ex_ciphered_new, of False] by simp
  have "manager_ok (l2_manager (ex_state False 7 ex_ciphered))" using ex_state_ok[OF e] by (simp add: l2_ok_def)
  then show ?thesis
    by (rule sdap_end_marker_aborts[OF _ ex_state_parts(1,2)]) (simp_all add: ex_ciphered_def new_entity_defs actual_security_def)
qed

section \<open>Other observations\<close>

text \<open>A reconfiguration from 12 to 18 bits leaves the maximal sequence number and the window of 12 bits.\<close>

lemma reconfigure_drb_breaks_config:
  assumes "pdcp_config e" and "pe_sn_size e = 12"
    and "ac_drb pc = Some drb" and "dc_sn_size_ul drb = Some 1" and "dc_sn_size_dl drb = Some 1"
    and "reconfigure_drb_entity (Some pc) e = Inr e'"
  shows "pe_sn_size e' = 18 \<and> pe_sn_max e' = 4095 \<and> pe_window_size e' = 2048 \<and> \<not> pdcp_config e'"
proof -
  have "decode_sn_size 1 = Inr 18" by (simp add: decode_sn_size_def decode_value_def NR_PDCP_SN_SIZE_def)
  then show ?thesis using assms
    by (auto simp: reconfigure_drb_entity_def bindE_eq_Inr set_discard_timer_def set_sn_size_ul_def set_sn_size_dl_def
        pdcp_config_def Let_def split: option.splits if_splits)
qed

text \<open>Asking for the statistics of a UE that does not exist creates it.\<close>

lemma get_statistics_creates_ue:
  assumes "manager_ok (l2_manager s)" and "ue_of (l2_manager s) ue = None"
  shows "ue_of (l2_manager (fst (nr_pdcp_get_statistics env ue srb rb s))) ue = Some (zero_ue ue)"
  using assms by (simp add: nr_pdcp_get_statistics_def nr_pdcp_manager_get_ue_def Let_def index_of_found lookup_None[symmetric] lookup_append)

end
