(* ===== verification/RLC_Api.thy ===== *)
theory RLC_Api
  imports RLC_Am_Machine Asn1_Values F1ap_Ids
begin

text \<open>
  The RLC layer as PDCP, MAC and RRC see it: the UE manager (\<open>nr_rlc_ue_manager.c\<close>) and the API
  (\<open>nr_rlc_oai_api.c\<close>). The manager's mutex is held from the first access to the last of every operation, so each
  operation is one function on the state. An operation on a bearer goes through the function pointers of its
  entity, which are the case distinctions over the three modes below; the callbacks of the entity become
  outputs of the operation, in order.

  Arguments are the table of the DU with the identifiers that the CU uses, the microsecond clock that the RLC
  entities read, and the ASN.1 structures, of which the records below have the fields that the code reads.
\<close>

section \<open>Entities through their function pointers\<close>

datatype rlc_entity = Ent_Tm nr_rlc_entity_tm_t | Ent_Um nr_rlc_entity_um_t | Ent_Am nr_rlc_entity_am_t

fun ent_mode :: "rlc_entity \<Rightarrow> nr_rlc_mode_t" where
  "ent_mode (Ent_Tm e) = NR_RLC_TM"
| "ent_mode (Ent_Um e) = NR_RLC_UM"
| "ent_mode (Ent_Am e) = NR_RLC_AM"

fun ent_events :: "rlc_entity \<Rightarrow> rlc_event list" where
  "ent_events (Ent_Tm e) = events e"
| "ent_events (Ent_Um e) = events e"
| "ent_events (Ent_Am e) = events e"

fun ent_set_time :: "u64 \<Rightarrow> rlc_entity \<Rightarrow> rlc_entity res" where
  "ent_set_time now (Ent_Tm e) = Inr (Ent_Tm (nr_rlc_entity_tm_set_time e now))"
| "ent_set_time now (Ent_Um e) = map_res Ent_Um (nr_rlc_entity_um_set_time e now)"
| "ent_set_time now (Ent_Am e) = map_res Ent_Am (nr_rlc_entity_am_set_time e now)"

fun ent_recv_pdu :: "buffer \<Rightarrow> rlc_entity \<Rightarrow> rlc_entity res" where
  "ent_recv_pdu buf (Ent_Tm e) = Inr (Ent_Tm (nr_rlc_entity_tm_recv_pdu e buf))"
| "ent_recv_pdu buf (Ent_Um e) = map_res Ent_Um (nr_rlc_entity_um_recv_pdu e buf)"
| "ent_recv_pdu buf (Ent_Am e) = map_res Ent_Am (nr_rlc_entity_am_recv_pdu e buf)"

fun ent_recv_sdu :: "buffer \<Rightarrow> int \<Rightarrow> u64 \<Rightarrow> rlc_entity \<Rightarrow> rlc_entity res" where
  "ent_recv_sdu buf sdu_id t (Ent_Tm e) = map_res Ent_Tm (nr_rlc_entity_tm_recv_sdu e buf sdu_id t)"
| "ent_recv_sdu buf sdu_id t (Ent_Um e) = map_res Ent_Um (nr_rlc_entity_um_recv_sdu e buf sdu_id t)"
| "ent_recv_sdu buf sdu_id t (Ent_Am e) = map_res Ent_Am (nr_rlc_entity_am_recv_sdu e buf sdu_id t)"

fun ent_generate_pdu :: "buffer \<Rightarrow> u64 \<Rightarrow> rlc_entity \<Rightarrow> (rlc_entity \<times> buffer \<times> int) res" where
  "ent_generate_pdu buf t (Ent_Tm e) = map_res (\<lambda>(e, r). (Ent_Tm e, r)) (nr_rlc_entity_tm_generate_pdu e buf t)"
| "ent_generate_pdu buf t (Ent_Um e) = map_res (\<lambda>(e, r). (Ent_Um e, r)) (nr_rlc_entity_um_generate_pdu e buf t)"
| "ent_generate_pdu buf t (Ent_Am e) = map_res (\<lambda>(e, r). (Ent_Am e, r)) (nr_rlc_entity_am_generate_pdu e buf t)"

fun ent_buffer_status :: "int \<Rightarrow> rlc_entity \<Rightarrow> nr_rlc_entity_buffer_status_t res" where
  "ent_buffer_status n (Ent_Tm e) = Inr (nr_rlc_entity_tm_buffer_status e n)"
| "ent_buffer_status n (Ent_Um e) = Inr (nr_rlc_entity_um_buffer_status e n)"
| "ent_buffer_status n (Ent_Am e) = nr_rlc_entity_am_buffer_status e n"

fun ent_available_tx_space :: "rlc_entity \<Rightarrow> int" where
  "ent_available_tx_space (Ent_Tm e) = nr_rlc_entity_tm_available_tx_space e"
| "ent_available_tx_space (Ent_Um e) = nr_rlc_entity_um_available_tx_space e"
| "ent_available_tx_space (Ent_Am e) = nr_rlc_entity_am_available_tx_space e"

fun ent_reestablishment :: "rlc_entity \<Rightarrow> rlc_entity" where
  "ent_reestablishment (Ent_Tm e) = Ent_Tm (nr_rlc_entity_tm_reestablishment e)"
| "ent_reestablishment (Ent_Um e) = Ent_Um (nr_rlc_entity_um_reestablishment e)"
| "ent_reestablishment (Ent_Am e) = Ent_Am (nr_rlc_entity_am_reestablishment e)"

fun ent_get_stats :: "u64 \<Rightarrow> rlc_entity \<Rightarrow> nr_rlc_statistics_t" where
  "ent_get_stats t (Ent_Tm e) = nr_rlc_entity_tm_get_stats e t"
| "ent_get_stats t (Ent_Um e) = nr_rlc_entity_um_get_stats e t"
| "ent_get_stats t (Ent_Am e) = nr_rlc_entity_am_get_stats e t"

fun ent_set_avg_time :: "bool \<Rightarrow> rlc_entity \<Rightarrow> rlc_entity" where
  "ent_set_avg_time b (Ent_Tm e) = Ent_Tm (e\<lparr>avg_time_is_on := b\<rparr>)"
| "ent_set_avg_time b (Ent_Um e) = Ent_Um (e\<lparr>avg_time_is_on := b\<rparr>)"
| "ent_set_avg_time b (Ent_Am e) = Ent_Am (e\<lparr>avg_time_is_on := b\<rparr>)"

section \<open>The UE manager\<close>

datatype rlc_op_mode = NR_RLC_OP_MODE_SPLIT_GNB | NR_RLC_OP_MODE_MONO_GNB | NR_RLC_OP_MODE_UE

datatype lcid_rb = NR_LCID_NONE | NR_LCID_SRB int | NR_LCID_DRB int

text \<open>SRB0 comes with the UE identifier that \<open>deliver_sdu_srb0\<close> reports; the RLF handler is set or NULL.\<close>

record rlc_ue =
  ru_id :: int
  ru_srb0 :: "(rlc_entity \<times> int) option"
  ru_srb :: "rlc_entity option list"
  ru_drb :: "rlc_entity option list"
  ru_lcid2rb :: "lcid_rb list"
  ru_rlf_handler :: bool

record rlc_state =
  rs_ue_list :: "rlc_ue list"
  rs_mode :: rlc_op_mode
  rs_current_time :: u64

definition new_nr_rlc_ue_manager :: "rlc_op_mode \<Rightarrow> rlc_state" where
  "new_nr_rlc_ue_manager mode = \<lparr>rs_ue_list = [], rs_mode = mode, rs_current_time = 0\<rparr>"

definition nr_rlc_manager_rlc_is_split :: "rlc_state \<Rightarrow> bool" where
  "nr_rlc_manager_rlc_is_split s = (rs_mode s = NR_RLC_OP_MODE_SPLIT_GNB)"

definition nr_rlc_manager_get_gnb_flag :: "rlc_state \<Rightarrow> bool" where
  "nr_rlc_manager_get_gnb_flag s = (rs_mode s \<noteq> NR_RLC_OP_MODE_UE)"

definition zero_rlc_ue :: "int \<Rightarrow> rlc_ue" where
  "zero_rlc_ue ue_id = \<lparr>ru_id = ue_id, ru_srb0 = None, ru_srb = replicate 3 None, ru_drb = replicate 32 None,
     ru_lcid2rb = replicate 32 NR_LCID_NONE, ru_rlf_handler = False\<rparr>"

text \<open>The position of the UE in the list; a UE that is not there is created.\<close>

definition nr_rlc_manager_get_ue :: "rlc_state \<Rightarrow> int \<Rightarrow> rlc_state \<times> nat" where
  "nr_rlc_manager_get_ue s ue_id =
     (let i = index_of ru_id ue_id (rs_ue_list s)
      in if i < length (rs_ue_list s) then (s, i)
         else (s\<lparr>rs_ue_list := rs_ue_list s @ [zero_rlc_ue ue_id]\<rparr>, length (rs_ue_list s)))"

definition nr_rlc_manager_remove_ue :: "rlc_state \<Rightarrow> int \<Rightarrow> rlc_state" where
  "nr_rlc_manager_remove_ue s ue_id =
     (let i = index_of ru_id ue_id (rs_ue_list s)
      in if i = length (rs_ue_list s) then s else s\<lparr>rs_ue_list := remove_nth i (rs_ue_list s)\<rparr>)"

definition nr_rlc_ue_add_srb_rlc_entity :: "rlc_ue \<Rightarrow> int \<Rightarrow> rlc_entity \<Rightarrow> rlc_ue res" where
  "nr_rlc_ue_add_srb_rlc_entity u srb_id e =
     (if srb_id < 0 \<or> 3 < srb_id then Inl Exit_Failure
      else if srb_id = 0
      then if ru_srb0 u \<noteq> None then Inl Exit_Failure else Inr (u\<lparr>ru_srb0 := Some (e, ru_id u)\<rparr>)
      else if ru_srb u ! nat (srb_id - 1) \<noteq> None then Inl Exit_Failure
      else Inr (u\<lparr>ru_srb := (ru_srb u)[nat (srb_id - 1) := Some e]\<rparr>))"

definition nr_rlc_ue_add_drb_rlc_entity :: "rlc_ue \<Rightarrow> int \<Rightarrow> rlc_entity \<Rightarrow> rlc_ue res" where
  "nr_rlc_ue_add_drb_rlc_entity u drb_id e =
     (if drb_id < 1 \<or> 32 < drb_id then Inl Exit_Failure
      else if ru_drb u ! nat (drb_id - 1) \<noteq> None then Inl Exit_Failure
      else Inr (u\<lparr>ru_drb := (ru_drb u)[nat (drb_id - 1) := Some e]\<rparr>))"

text \<open>\<open>nr_rlc_module_init\<close>; \<open>fst\<close> of the flags is \<open>inited\<close>, \<open>snd\<close> is \<open>inited_ue\<close>.\<close>

definition nr_rlc_module_init :: "rlc_op_mode \<Rightarrow> bool \<times> bool \<Rightarrow> ((bool \<times> bool) \<times> rlc_state) res" where
  "nr_rlc_module_init mode flags =
     (let gnb_flag = (mode \<noteq> NR_RLC_OP_MODE_UE) in
      if gnb_flag \<and> fst flags then Inl Exit_Failure
      else if \<not> gnb_flag \<and> snd flags then Inl Exit_Failure
      else Inr ((fst flags \<or> gnb_flag, snd flags \<or> \<not> gnb_flag), new_nr_rlc_ue_manager mode))"

section \<open>Bearers of a UE\<close>

text \<open>Where a pointer to an entity points to.\<close>

datatype rb_slot = Slot_Srb0 | Slot_Srb nat | Slot_Drb nat

fun slot_entity :: "rlc_ue \<Rightarrow> rb_slot \<Rightarrow> rlc_entity option" where
  "slot_entity u Slot_Srb0 = map_option fst (ru_srb0 u)"
| "slot_entity u (Slot_Srb k) = ru_srb u ! k"
| "slot_entity u (Slot_Drb k) = ru_drb u ! k"

fun put_slot :: "rlc_ue \<Rightarrow> rb_slot \<Rightarrow> rlc_entity option \<Rightarrow> rlc_ue" where
  "put_slot u Slot_Srb0 x = u\<lparr>ru_srb0 := (case (x, ru_srb0 u) of (Some e, Some (_, i)) \<Rightarrow> Some (e, i) | _ \<Rightarrow> None)\<rparr>"
| "put_slot u (Slot_Srb k) x = u\<lparr>ru_srb := (ru_srb u)[k := x]\<rparr>"
| "put_slot u (Slot_Drb k) x = u\<lparr>ru_drb := (ru_drb u)[k := x]\<rparr>"

definition set_rlc_ue :: "nat \<Rightarrow> rlc_ue \<Rightarrow> rlc_state \<Rightarrow> rlc_state" where
  "set_rlc_ue i u s = s\<lparr>rs_ue_list := (rs_ue_list s)[i := u]\<rparr>"

text \<open>The slot that a logical channel is mapped to; an identifier outside the arrays reads past them.\<close>

definition lcid_slot :: "rlc_ue \<Rightarrow> nat \<Rightarrow> rb_slot option res" where
  "lcid_slot u channel_id =
     (if channel_id = 0 then Inr (Some Slot_Srb0)
      else if 32 < channel_id then Inl Out_Of_Bounds
      else case ru_lcid2rb u ! (channel_id - 1) of
             NR_LCID_NONE \<Rightarrow> Inr None
           | NR_LCID_SRB i \<Rightarrow>
               if i \<le> 0 then Inl Assert_Fatal else if 3 < i then Inl Out_Of_Bounds else Inr (Some (Slot_Srb (nat (i - 1))))
           | NR_LCID_DRB i \<Rightarrow> if i < 1 \<or> 32 < i then Inl Out_Of_Bounds else Inr (Some (Slot_Drb (nat (i - 1)))))"

definition get_rlc_entity_from_lcid :: "rlc_ue \<Rightarrow> nat \<Rightarrow> (rb_slot \<times> rlc_entity) option res" where
  "get_rlc_entity_from_lcid u channel_id =
     bindE (lcid_slot u channel_id) (\<lambda>sl.
       Inr (case sl of None \<Rightarrow> None | Some sl \<Rightarrow> map_option (Pair sl) (slot_entity u sl)))"

definition release_rlc_entity_from_lcid :: "rlc_ue \<Rightarrow> nat \<Rightarrow> rlc_ue res" where
  "release_rlc_entity_from_lcid u channel_id =
     (if channel_id = 0 then Inl Assert_Fatal
      else bindE (lcid_slot u channel_id) (\<lambda>sl.
        Inr (case sl of None \<Rightarrow> u | Some sl \<Rightarrow> put_slot u sl None)))"

text \<open>The search for the logical channel of a bearer: the first match, or 0.\<close>

definition lcid_matches :: "bool \<Rightarrow> int \<Rightarrow> lcid_rb \<Rightarrow> bool" where
  "lcid_matches is_srb rb_id r = (r = (if is_srb then NR_LCID_SRB rb_id else NR_LCID_DRB rb_id))"

definition nr_rlc_get_lcid_from_rb :: "int \<Rightarrow> bool \<Rightarrow> int \<Rightarrow> rlc_state \<Rightarrow> rlc_state \<times> nat" where
  "nr_rlc_get_lcid_from_rb ue_id is_srb rb_id s =
     (let (s, i) = nr_rlc_manager_get_ue s ue_id; u = rs_ue_list s ! i
      in (s, case find (\<lambda>k. lcid_matches is_srb rb_id (ru_lcid2rb u ! k)) [0..<32] of None \<Rightarrow> 0 | Some k \<Rightarrow> k + 1))"

section \<open>Callbacks\<close>

datatype rlc_out =
    Pdcp_Data_Ind u64 bool bool int buffer
  | Du_F1ap_Ul_Rrc_Message u64 int int buffer
  | Du_Gtpu_Send_Direct int int buffer
  | Initial_Ul_Rrc_Message int buffer
  | Rlf_Handler int

definition deliver_sdu :: "f1_table \<Rightarrow> rlc_state \<Rightarrow> rlc_ue \<Rightarrow> bool \<Rightarrow> int \<Rightarrow> buffer \<Rightarrow> rlc_out list res" where
  "deliver_sdu f1 s u is_srb rb_id buf =
     (if nr_rlc_manager_get_gnb_flag s
      then bindE (du_get_f1_ue_data f1 (word_of_int (ru_id u))) (\<lambda>ue_data.
             let secondary_ue = ucast (f1_secondary_ue ue_data) in
             Inr [if nr_rlc_manager_rlc_is_split s
                  then if is_srb then Du_F1ap_Ul_Rrc_Message secondary_ue (ru_id u) rb_id buf
                       else Du_Gtpu_Send_Direct (ru_id u) rb_id buf
                  else Pdcp_Data_Ind secondary_ue True is_srb rb_id buf])
      else Inr [Pdcp_Data_Ind (word_of_int (ru_id u)) False is_srb rb_id buf])"

text \<open>
  The callbacks find the bearer by comparing pointers. \<open>deliver_sdu\<close> looks at all three SRBs,
  \<open>successful_delivery\<close> and \<open>max_retx_reached\<close> at the first two only: for the third the program exits.
\<close>

fun successful_delivery :: "rb_slot \<Rightarrow> rlc_out list res" where
  "successful_delivery (Slot_Srb k) = (if k < 2 then Inr [] else Inl Exit_Failure)"
| "successful_delivery (Slot_Drb k) = Inr []"
| "successful_delivery Slot_Srb0 = Inl Exit_Failure"

fun max_retx_reached :: "rlc_ue \<Rightarrow> rb_slot \<Rightarrow> rlc_out list res" where
  "max_retx_reached u (Slot_Srb k) =
     (if k < 2 then Inr (if ru_rlf_handler u then [Rlf_Handler (ru_id u)] else []) else Inl Exit_Failure)"
| "max_retx_reached u (Slot_Drb k) = Inr (if ru_rlf_handler u then [Rlf_Handler (ru_id u)] else [])"
| "max_retx_reached u Slot_Srb0 = Inl Exit_Failure"

fun deliver_sdu_at :: "f1_table \<Rightarrow> rlc_state \<Rightarrow> rlc_ue \<Rightarrow> rb_slot \<Rightarrow> buffer \<Rightarrow> rlc_out list res" where
  "deliver_sdu_at f1 s u Slot_Srb0 buf =
     Inr (case ru_srb0 u of None \<Rightarrow> [] | Some (_, ue_id) \<Rightarrow> [Initial_Ul_Rrc_Message ue_id buf])"
| "deliver_sdu_at f1 s u (Slot_Srb k) buf = deliver_sdu f1 s u True (int k + 1) buf"
| "deliver_sdu_at f1 s u (Slot_Drb k) buf = deliver_sdu f1 s u False (int k + 1) buf"

fun callback :: "f1_table \<Rightarrow> rlc_state \<Rightarrow> rlc_ue \<Rightarrow> rb_slot \<Rightarrow> rlc_event \<Rightarrow> rlc_out list res" where
  "callback f1 s u sl (Deliver_Sdu buf) = deliver_sdu_at f1 s u sl buf"
| "callback f1 s u sl (Sdu_Successful_Delivery i) = successful_delivery sl"
| "callback f1 s u sl Max_Retx_Reached = max_retx_reached u sl"
| "callback f1 s u sl (Time_Average_Add a b) = Inr []"

fun callbacks :: "f1_table \<Rightarrow> rlc_state \<Rightarrow> rlc_ue \<Rightarrow> rb_slot \<Rightarrow> rlc_event list \<Rightarrow> rlc_out list res" where
  "callbacks f1 s u sl [] = Inr []"
| "callbacks f1 s u sl (ev # evs) =
     bindE (callback f1 s u sl ev) (\<lambda>out. bindE (callbacks f1 s u sl evs) (\<lambda>out'. Inr (out @ out')))"

text \<open>An operation on the entity in a slot of the UE at position \<open>i\<close>, with the callbacks it makes and the value it returns.\<close>

definition on_slot ::
    "f1_table \<Rightarrow> nat \<Rightarrow> rb_slot \<Rightarrow> rlc_entity \<Rightarrow> (rlc_entity \<Rightarrow> (rlc_entity \<times> 'a) res) \<Rightarrow> rlc_state \<Rightarrow>
     (rlc_state \<times> rlc_out list \<times> 'a) res" where
  "on_slot f1 i sl e f s =
     bindE (f e) (\<lambda>(e', r).
       let u = rs_ue_list s ! i in
       bindE (callbacks f1 s u sl (drop (length (ent_events e)) (ent_events e'))) (\<lambda>out.
         Inr (set_rlc_ue i (put_slot u sl (Some e')) s, out, r)))"

text \<open>The common beginning of the operations on a logical channel: find the UE and the entity; \<open>none\<close> is returned if there is none.\<close>

definition on_lcid ::
    "f1_table \<Rightarrow> int \<Rightarrow> nat \<Rightarrow> 'a \<Rightarrow> (rlc_entity \<Rightarrow> (rlc_entity \<times> 'a) res) \<Rightarrow> rlc_state \<Rightarrow>
     (rlc_state \<times> rlc_out list \<times> 'a) res" where
  "on_lcid f1 ue_id channel_id none f s =
     (let (s, i) = nr_rlc_manager_get_ue s ue_id in
      bindE (get_rlc_entity_from_lcid (rs_ue_list s ! i) channel_id) (\<lambda>r.
        case r of None \<Rightarrow> Inr (s, [], none) | Some (sl, e) \<Rightarrow> on_slot f1 i sl e f s))"

section \<open>The interface to the MAC\<close>

definition nr_mac_rlc_data_ind ::
    "f1_table \<Rightarrow> 16 word \<Rightarrow> nat \<Rightarrow> buffer \<Rightarrow> rlc_state \<Rightarrow> (rlc_state \<times> rlc_out list \<times> unit) res" where
  "nr_mac_rlc_data_ind f1 ue_id channel_id buf s =
     on_lcid f1 (uint ue_id) channel_id () (\<lambda>e.
       bindE (ent_set_time (rs_current_time s) e) (\<lambda>e. bindE (ent_recv_pdu buf e) (\<lambda>e. Inr (e, ())))) s"

text \<open>The buffer has the size \<open>tb_sizeP\<close>; the result is the buffer and the number of bytes written to it.\<close>

definition nr_mac_rlc_data_req ::
    "f1_table \<Rightarrow> 16 word \<Rightarrow> nat \<Rightarrow> buffer \<Rightarrow> u64 \<Rightarrow> rlc_state \<Rightarrow> (rlc_state \<times> rlc_out list \<times> buffer \<times> int) res" where
  "nr_mac_rlc_data_req f1 ue_id channel_id buf time_now s =
     on_lcid f1 (uint ue_id) channel_id (buf, 0) (\<lambda>e.
       bindE (ent_set_time (rs_current_time s) e) (ent_generate_pdu buf time_now)) s"

definition nr_mac_rlc_status_ind ::
    "f1_table \<Rightarrow> 16 word \<Rightarrow> nat \<Rightarrow> rlc_state \<Rightarrow> (rlc_state \<times> rlc_out list \<times> int) res" where
  "nr_mac_rlc_status_ind f1 ue_id channel_id s =
     on_lcid f1 (uint ue_id) channel_id 0 (\<lambda>e.
       bindE (ent_set_time (rs_current_time s) e) (\<lambda>e.
       bindE (ent_buffer_status 1000000 e) (\<lambda>b.
         Inr (e, bs_status_size b + bs_retx_size b + bs_tx_size b)))) s"

section \<open>The interface to PDCP and RRC\<close>

text \<open>\<open>int ue_id = ctxt_pP->rntiMaybeUEid;\<close> and the \<open>unsigned int\<close> that becomes the \<open>int sdu_id\<close>\<close>

definition int_of_u64 :: "u64 \<Rightarrow> int" where
  "int_of_u64 w = sint (ucast w :: u32)"

definition data_req_slot :: "bool \<Rightarrow> int \<Rightarrow> rb_slot option" where
  "data_req_slot srb_flag rb_id =
     (if srb_flag then (if 1 \<le> rb_id \<and> rb_id \<le> 2 then Some (Slot_Srb (nat (rb_id - 1))) else None)
      else (if 1 \<le> rb_id \<and> rb_id \<le> 32 then Some (Slot_Drb (nat (rb_id - 1))) else None))"

definition nr_rlc_data_req ::
    "f1_table \<Rightarrow> u64 \<Rightarrow> bool \<Rightarrow> int \<Rightarrow> u32 \<Rightarrow> buffer \<Rightarrow> u64 \<Rightarrow> rlc_state \<Rightarrow> (rlc_state \<times> rlc_out list \<times> unit) res" where
  "nr_rlc_data_req f1 ue_id srb_flag rb_id mui sdu time_now s =
     (let (s, i) = nr_rlc_manager_get_ue s (int_of_u64 ue_id); u = rs_ue_list s ! i in
      case data_req_slot srb_flag rb_id of
        None \<Rightarrow> Inr (s, [], ())
      | Some sl \<Rightarrow>
          (case slot_entity u sl of
             None \<Rightarrow> Inr (s, [], ())
           | Some e \<Rightarrow> on_slot f1 i sl e (\<lambda>e.
               bindE (ent_set_time (rs_current_time s) e) (\<lambda>e.
               bindE (ent_recv_sdu sdu (sint mui) time_now e) (\<lambda>e. Inr (e, ())))) s))"

definition nr_rlc_srb_recv_sdu ::
    "f1_table \<Rightarrow> int \<Rightarrow> nat \<Rightarrow> buffer \<Rightarrow> u64 \<Rightarrow> rlc_state \<Rightarrow> (rlc_state \<times> rlc_out list \<times> unit) res" where
  "nr_rlc_srb_recv_sdu f1 ue_id channel_id sdu time_now s =
     (let (s, i) = nr_rlc_manager_get_ue s ue_id; u = rs_ue_list s ! i;
          sl = (if channel_id = 0 then Slot_Srb0 else Slot_Srb (channel_id - 1)) in
      if 3 < channel_id then Inl Out_Of_Bounds
      else case slot_entity u sl of
             None \<Rightarrow> Inl Assert_Fatal
           | Some e \<Rightarrow> on_slot f1 i sl e (\<lambda>e.
               bindE (ent_set_time (rs_current_time s) e) (\<lambda>e.
               bindE (ent_recv_sdu sdu (-1) time_now e) (\<lambda>e. Inr (e, ())))) s)"

definition nr_rlc_get_available_tx_space :: "f1_table \<Rightarrow> int \<Rightarrow> nat \<Rightarrow> rlc_state \<Rightarrow> (rlc_state \<times> rlc_out list \<times> int) res" where
  "nr_rlc_get_available_tx_space f1 ue_id channel_id =
     on_lcid f1 ue_id channel_id (-1) (\<lambda>e. Inr (e, ent_available_tx_space e))"

definition nr_rlc_reestablish_entity :: "f1_table \<Rightarrow> int \<Rightarrow> nat \<Rightarrow> rlc_state \<Rightarrow> (rlc_state \<times> rlc_out list \<times> unit) res" where
  "nr_rlc_reestablish_entity f1 ue_id lc_id = on_lcid f1 ue_id lc_id () (\<lambda>e. Inr (ent_reestablishment e, ()))"

definition nr_rlc_set_rlf_handler :: "int \<Rightarrow> bool \<Rightarrow> rlc_state \<Rightarrow> rlc_state" where
  "nr_rlc_set_rlf_handler ue_id h s =
     (let (s, i) = nr_rlc_manager_get_ue s ue_id in set_rlc_ue i ((rs_ue_list s ! i)\<lparr>ru_rlf_handler := h\<rparr>) s)"

definition nr_rlc_release_entity :: "int \<Rightarrow> nat \<Rightarrow> rlc_state \<Rightarrow> rlc_state res" where
  "nr_rlc_release_entity ue_id channel_id s =
     (let (s, i) = nr_rlc_manager_get_ue s ue_id; u = rs_ue_list s ! i in
      bindE (if channel_id = 0 then Inr (put_slot u Slot_Srb0 None) else release_rlc_entity_from_lcid u channel_id)
        (\<lambda>u. Inr (set_rlc_ue i u s)))"

section \<open>Configuration\<close>

text \<open>The fields of \<open>NR_RLC_Config\<close> and \<open>NR_RLC_BearerConfig\<close> that the code reads; a pointer that may be NULL is an option.\<close>

record rlc_am_config =
  ac_t_Reassembly :: int
  ac_t_StatusProhibit :: int
  ac_t_PollRetransmit :: int
  ac_pollPDU :: int
  ac_pollByte :: int
  ac_maxRetxThreshold :: int
  ac_dl_sn_FieldLength :: "int option"
  ac_ul_sn_FieldLength :: "int option"

record rlc_um_config =
  uc_t_Reassembly :: int
  uc_dl_sn_FieldLength :: "int option"
  uc_ul_sn_FieldLength :: "int option"

datatype rlc_config = RLC_Config_am rlc_am_config | RLC_Config_um rlc_um_config | RLC_Config_other

datatype served_rb = Served_srb_Identity int | Served_drb_Identity int

record rlc_bearer_config =
  bc_rlc_Config :: "rlc_config option"
  bc_servedRadioBearer :: "served_rb option"
  bc_logicalChannelIdentity :: int

text \<open>The parameters of an AM entity: \<open>t_poll_retransmit\<close>, \<open>t_reassembly\<close>, \<open>t_status_prohibit\<close>, \<open>poll_pdu\<close>, \<open>poll_byte\<close>, \<open>max_retx_threshold\<close>.\<close>

type_synonym am_params = "int \<times> int \<times> int \<times> int \<times> int \<times> int"

definition am_default_params :: am_params where
  "am_default_params = (45, 35, 0, -1, -1, 8)"

definition decode_am_params :: "rlc_am_config \<Rightarrow> am_params res" where
  "decode_am_params c =
     bindE (decode_t_reassembly (ac_t_Reassembly c)) (\<lambda>t_reassembly.
     bindE (decode_t_status_prohibit (ac_t_StatusProhibit c)) (\<lambda>t_status_prohibit.
     bindE (decode_t_poll_retransmit (ac_t_PollRetransmit c)) (\<lambda>t_poll_retransmit.
     bindE (decode_poll_pdu (ac_pollPDU c)) (\<lambda>poll_pdu.
     bindE (decode_poll_byte (ac_pollByte c)) (\<lambda>poll_byte.
     bindE (decode_max_retx_threshold (ac_maxRetxThreshold c)) (\<lambda>max_retx_threshold.
       Inr (t_poll_retransmit, t_reassembly, t_status_prohibit, poll_pdu, poll_byte, max_retx_threshold)))))))"

text \<open>When an entity is created both lengths are read through their pointers and have to be equal.\<close>

definition new_sn_length :: "(int \<Rightarrow> int res) \<Rightarrow> int option \<Rightarrow> int option \<Rightarrow> nat res" where
  "new_sn_length decode dl ul =
     (case (dl, ul) of
        (Some d, Some u) \<Rightarrow> if d \<noteq> u then Inl Exit_Failure else bindE (decode d) (\<lambda>n. Inr (nat n))
      | _ \<Rightarrow> Inl Null_Deref)"

text \<open>In a reconfiguration they are both there or both absent.\<close>

definition changed_sn_length :: "(int \<Rightarrow> int res) \<Rightarrow> int option \<Rightarrow> int option \<Rightarrow> nat option res" where
  "changed_sn_length decode dl ul =
     (case (dl, ul) of
        (None, None) \<Rightarrow> Inr None
      | (Some d, Some u) \<Rightarrow> if d \<noteq> u then Inl Assert_Fatal else bindE (decode d) (\<lambda>n. Inr (Some (nat n)))
      | _ \<Rightarrow> Inl Assert_Fatal)"

definition am_reconfigure_with :: "am_params \<Rightarrow> nat option \<Rightarrow> nr_rlc_entity_am_t \<Rightarrow> nr_rlc_entity_am_t" where
  "am_reconfigure_with p sn e =
     (case p of (t_poll_retransmit, t_reassembly, t_status_prohibit, poll_pdu, poll_byte, max_retx_threshold) \<Rightarrow>
        nr_rlc_entity_am_reconfigure e t_poll_retransmit t_reassembly t_status_prohibit poll_pdu poll_byte max_retx_threshold sn)"

fun reconfigure_with :: "rlc_config option \<Rightarrow> rlc_entity \<Rightarrow> rlc_entity res" where
  "reconfigure_with (Some c) (Ent_Tm e) = Inl Assert_Fatal"
| "reconfigure_with (Some (RLC_Config_am c)) (Ent_Am e) =
     bindE (decode_am_params c) (\<lambda>p.
     bindE (changed_sn_length decode_sn_field_length_am (ac_dl_sn_FieldLength c) (ac_ul_sn_FieldLength c)) (\<lambda>sn.
       Inr (Ent_Am (am_reconfigure_with p sn e))))"
| "reconfigure_with (Some (RLC_Config_um c)) (Ent_Um e) =
     bindE (decode_t_reassembly (uc_t_Reassembly c)) (\<lambda>t.
     bindE (changed_sn_length decode_sn_field_length_um (uc_dl_sn_FieldLength c) (uc_ul_sn_FieldLength c)) (\<lambda>sn.
       Inr (Ent_Um (nr_rlc_entity_um_reconfigure e t sn))))"
| "reconfigure_with (Some c) e = Inl Assert_Fatal"
| "reconfigure_with None (Ent_Am e) = Inr (Ent_Am (am_reconfigure_with am_default_params (Some 12) e))"
| "reconfigure_with None e = Inl Assert_Fatal"

text \<open>A missing entity is not checked for.\<close>

definition nr_rlc_reconfigure_entity :: "int \<Rightarrow> nat \<Rightarrow> rlc_config option \<Rightarrow> rlc_state \<Rightarrow> rlc_state res" where
  "nr_rlc_reconfigure_entity ue_id lc_id cfg s =
     (let (s, i) = nr_rlc_manager_get_ue s ue_id; u = rs_ue_list s ! i in
      bindE (get_rlc_entity_from_lcid u lc_id) (\<lambda>r.
        case r of
          None \<Rightarrow> Inl Null_Deref
        | Some (sl, e) \<Rightarrow> bindE (reconfigure_with cfg e) (\<lambda>e. Inr (set_rlc_ue i (put_slot u sl (Some e)) s))))"

definition RLC_TX_MAXSIZE :: int where
  "RLC_TX_MAXSIZE = 10000000"

definition RLC_RX_MAXSIZE :: int where
  "RLC_RX_MAXSIZE = 10000000"

definition new_am_with :: "am_params \<Rightarrow> nat \<Rightarrow> rlc_entity res" where
  "new_am_with p sn =
     (case p of (t_poll_retransmit, t_reassembly, t_status_prohibit, poll_pdu, poll_byte, max_retx_threshold) \<Rightarrow>
        map_res Ent_Am (new_nr_rlc_entity_am RLC_RX_MAXSIZE RLC_TX_MAXSIZE t_poll_retransmit t_reassembly t_status_prohibit
          poll_pdu poll_byte max_retx_threshold sn))"

text \<open>\<open>lcid2rb[local_id]\<close> is written before anything else; an identifier outside 1..32 writes outside the array.\<close>

definition map_lcid :: "int \<Rightarrow> lcid_rb \<Rightarrow> rlc_ue \<Rightarrow> rlc_ue res" where
  "map_lcid lcid r u =
     (if lcid < 1 \<or> 32 < lcid then Inl Out_Of_Bounds else Inr (u\<lparr>ru_lcid2rb := (ru_lcid2rb u)[nat (lcid - 1) := r]\<rparr>))"

definition srb_params :: "rlc_config option \<Rightarrow> (am_params \<times> nat) res" where
  "srb_params r =
     (case r of
        Some (RLC_Config_am am) \<Rightarrow>
          bindE (decode_am_params am) (\<lambda>p.
          bindE (new_sn_length decode_sn_field_length_am (ac_dl_sn_FieldLength am) (ac_ul_sn_FieldLength am)) (\<lambda>sn. Inr (p, sn)))
      | _ \<Rightarrow> Inr (am_default_params, 12))"

definition nr_rlc_add_srb :: "int \<Rightarrow> int \<Rightarrow> rlc_bearer_config \<Rightarrow> rlc_state \<Rightarrow> rlc_state res" where
  "nr_rlc_add_srb ue_id srb_id c s =
     (if \<not> (0 < srb_id \<and> srb_id < 4) then Inl Assert_Fatal
      else bindE (srb_params (bc_rlc_Config c)) (\<lambda>(p, sn).
        let (s, i) = nr_rlc_manager_get_ue s ue_id in
        case bc_servedRadioBearer c of
          Some (Served_srb_Identity rb) \<Rightarrow>
            bindE (map_lcid (bc_logicalChannelIdentity c) (NR_LCID_SRB rb) (rs_ue_list s ! i)) (\<lambda>u.
            if ru_srb u ! nat (srb_id - 1) \<noteq> None then Inr (set_rlc_ue i u s)
            else bindE (new_am_with p sn) (\<lambda>e.
                 bindE (nr_rlc_ue_add_srb_rlc_entity u srb_id e) (\<lambda>u. Inr (set_rlc_ue i u s))))
        | _ \<Rightarrow> Inl Assert_Fatal))"

text \<open>The part of \<open>add_drb_am\<close> and \<open>add_drb_um\<close> behind the reading of the parameters.\<close>

definition insert_drb :: "int \<Rightarrow> int \<Rightarrow> rlc_bearer_config \<Rightarrow> rlc_entity res \<Rightarrow> rlc_state \<Rightarrow> rlc_state res" where
  "insert_drb ue_id drb_id c new s =
     (let (s, i) = nr_rlc_manager_get_ue s ue_id in
      case bc_servedRadioBearer c of
        Some (Served_drb_Identity rb) \<Rightarrow>
          bindE (map_lcid (bc_logicalChannelIdentity c) (NR_LCID_DRB rb) (rs_ue_list s ! i)) (\<lambda>u.
          if ru_drb u ! nat (drb_id - 1) \<noteq> None then Inr (set_rlc_ue i u s)
          else bindE new (\<lambda>e. bindE (nr_rlc_ue_add_drb_rlc_entity u drb_id e) (\<lambda>u. Inr (set_rlc_ue i u s))))
      | _ \<Rightarrow> Inl Assert_Fatal)"

definition add_drb_am :: "int \<Rightarrow> int \<Rightarrow> rlc_am_config \<Rightarrow> rlc_bearer_config \<Rightarrow> rlc_state \<Rightarrow> rlc_state res" where
  "add_drb_am ue_id drb_id am c s =
     (if \<not> (0 < drb_id \<and> drb_id \<le> 32) then Inl Assert_Fatal
      else bindE (decode_am_params am) (\<lambda>p.
        bindE (new_sn_length decode_sn_field_length_am (ac_dl_sn_FieldLength am) (ac_ul_sn_FieldLength am)) (\<lambda>sn.
          insert_drb ue_id drb_id c (new_am_with p sn) s)))"

definition add_drb_um :: "int \<Rightarrow> int \<Rightarrow> rlc_um_config \<Rightarrow> rlc_bearer_config \<Rightarrow> rlc_state \<Rightarrow> rlc_state res" where
  "add_drb_um ue_id drb_id um c s =
     (if \<not> (0 < drb_id \<and> drb_id \<le> 32) then Inl Assert_Fatal
      else bindE (decode_t_reassembly (uc_t_Reassembly um)) (\<lambda>t_reassembly.
        bindE (new_sn_length decode_sn_field_length_um (uc_dl_sn_FieldLength um) (uc_ul_sn_FieldLength um)) (\<lambda>sn.
          insert_drb ue_id drb_id c
            (map_res Ent_Um (new_nr_rlc_entity_um RLC_RX_MAXSIZE RLC_TX_MAXSIZE t_reassembly sn)) s)))"

definition nr_rlc_add_drb :: "int \<Rightarrow> int \<Rightarrow> rlc_bearer_config \<Rightarrow> rlc_state \<Rightarrow> rlc_state res" where
  "nr_rlc_add_drb ue_id drb_id c s =
     (case bc_rlc_Config c of
        None \<Rightarrow> Inl Null_Deref
      | Some (RLC_Config_am am) \<Rightarrow> add_drb_am ue_id drb_id am c s
      | Some (RLC_Config_um um) \<Rightarrow> add_drb_um ue_id drb_id um c s
      | Some RLC_Config_other \<Rightarrow> Inl Exit_Failure)"

definition nr_rlc_activate_srb0 :: "int \<Rightarrow> rlc_state \<Rightarrow> (rlc_state \<times> bool) res" where
  "nr_rlc_activate_srb0 ue_id s =
     (let (s, i) = nr_rlc_manager_get_ue s ue_id; u = rs_ue_list s ! i in
      if ru_srb0 u \<noteq> None then Inr (s, False)
      else bindE (nr_rlc_ue_add_srb_rlc_entity u 0 (Ent_Tm (new_nr_rlc_entity_tm 10000)))
             (\<lambda>u. Inr (set_rlc_ue i u s, True)))"

definition nr_rlc_remove_ue :: "int \<Rightarrow> rlc_state \<Rightarrow> rlc_state" where
  "nr_rlc_remove_ue ue_id s = nr_rlc_manager_remove_ue s ue_id"

definition reestablish_slot :: "rb_slot \<Rightarrow> rlc_ue \<Rightarrow> rlc_ue" where
  "reestablish_slot sl u =
     (case slot_entity u sl of None \<Rightarrow> u | Some e \<Rightarrow> put_slot u sl (Some (ent_reestablishment e)))"

text \<open>The UE gets its new identifier even if another UE has it already.\<close>

definition nr_rlc_update_id :: "int \<Rightarrow> int \<Rightarrow> rlc_state \<Rightarrow> rlc_state" where
  "nr_rlc_update_id from_id to_id s =
     (let (s, i) = nr_rlc_manager_get_ue s from_id
      in set_rlc_ue i (reestablish_slot (Slot_Srb 0) ((rs_ue_list s ! i)\<lparr>ru_id := to_id\<rparr>)) s)"

definition nr_rlc_test_trigger_reestablishment :: "int \<Rightarrow> rlc_state \<Rightarrow> rlc_state res" where
  "nr_rlc_test_trigger_reestablishment ue_id s =
     (let (s, i) = nr_rlc_manager_get_ue s ue_id; u = rs_ue_list s ! i in
      if slot_entity u (Slot_Srb 0) = None then Inl Null_Deref
      else Inr (set_rlc_ue i (reestablish_slot (Slot_Drb 0) (reestablish_slot (Slot_Srb 0) u)) s))"

definition nr_rlc_ms_tick :: "rlc_state \<Rightarrow> rlc_state" where
  "nr_rlc_ms_tick s = s\<lparr>rs_current_time := rs_current_time s + 1\<rparr>"

definition avg_time_slot :: "nat \<Rightarrow> rb_slot option" where
  "avg_time_slot channel_id =
     (if 1 \<le> channel_id \<and> channel_id \<le> 3 then Some (Slot_Srb (channel_id - 1))
      else if 4 \<le> channel_id \<and> channel_id \<le> 8 then Some (Slot_Drb (channel_id - 4)) else None)"

definition nr_rlc_activate_avg_time_to_tx :: "int \<Rightarrow> nat \<Rightarrow> bool \<Rightarrow> rlc_state \<Rightarrow> rlc_state" where
  "nr_rlc_activate_avg_time_to_tx ue_id channel_id is_on s =
     (let (s, i) = nr_rlc_manager_get_ue s ue_id; u = rs_ue_list s ! i in
      case avg_time_slot channel_id of
        None \<Rightarrow> s
      | Some sl \<Rightarrow> (case slot_entity u sl of
                     None \<Rightarrow> s
                   | Some e \<Rightarrow> set_rlc_ue i (put_slot u sl (Some (ent_set_avg_time is_on e))) s))"

definition stats_slot :: "bool \<Rightarrow> int \<Rightarrow> rb_slot option" where
  "stats_slot srb_flag rb_id =
     (if srb_flag then (if 1 \<le> rb_id \<and> rb_id \<le> 2 then Some (Slot_Srb (nat (rb_id - 1))) else None)
      else (if 1 \<le> rb_id \<and> rb_id \<le> 5 then Some (Slot_Drb (nat (rb_id - 1))) else None))"

definition nr_rlc_get_statistics ::
    "int \<Rightarrow> bool \<Rightarrow> int \<Rightarrow> u64 \<Rightarrow> rlc_state \<Rightarrow> (rlc_state \<times> nr_rlc_statistics_t option) res" where
  "nr_rlc_get_statistics ue_id srb_flag rb_id time_now s =
     (let (s, i) = nr_rlc_manager_get_ue s ue_id; u = rs_ue_list s ! i in
      case stats_slot srb_flag rb_id of
        None \<Rightarrow> Inr (s, None)
      | Some sl \<Rightarrow>
          (case slot_entity u sl of
             None \<Rightarrow> Inr (s, None)
           | Some e \<Rightarrow> bindE (ent_buffer_status 1000000 e) (\<lambda>b.
               Inr (s, Some ((ent_get_stats time_now e)\<lparr>rxbuf_occ_bytes := word_of_int (bs_status_size b),
                 txbuf_occ_bytes := word_of_int (bs_tx_size b + bs_retx_size b)\<rparr>)))))"

end
