(* ===== verification/RLC_Api_Inv.thy ===== *)
theory RLC_Api_Inv
  imports RLC_Api
begin

text \<open>
  The invariant of the RLC layer: the UE list is a table by UE identifier, every bearer slot holds an entity
  of its kind, and every AM entity is in a state that an AM entity reaches. Operations on a bearer keep it and
  touch one UE.
\<close>

section \<open>The invariant\<close>

fun slot_valid :: "rb_slot \<Rightarrow> bool" where
  "slot_valid Slot_Srb0 \<longleftrightarrow> True"
| "slot_valid (Slot_Srb k) \<longleftrightarrow> k < 3"
| "slot_valid (Slot_Drb k) \<longleftrightarrow> k < 32"

text \<open>SRB0 is in TM, the other SRBs are in AM, a DRB is in AM or UM.\<close>

fun bearer_ok :: "bool \<Rightarrow> rb_slot \<Rightarrow> rlc_entity \<Rightarrow> bool" where
  "bearer_ok sane sl (Ent_Tm t) \<longleftrightarrow> sl = Slot_Srb0"
| "bearer_ok sane sl (Ent_Am a) \<longleftrightarrow> sl \<noteq> Slot_Srb0 \<and> am_reach sane a"
| "bearer_ok sane sl (Ent_Um u) \<longleftrightarrow> (\<exists>k. sl = Slot_Drb k)"

definition rlc_ue_ok :: "bool \<Rightarrow> rlc_ue \<Rightarrow> bool" where
  "rlc_ue_ok sane u \<longleftrightarrow> length (ru_srb u) = 3 \<and> length (ru_drb u) = 32 \<and> length (ru_lcid2rb u) = 32
     \<and> (\<forall>sl e. slot_valid sl \<longrightarrow> slot_entity u sl = Some e \<longrightarrow> bearer_ok sane sl e)"

definition rlc_ok :: "bool \<Rightarrow> rlc_state \<Rightarrow> bool" where
  "rlc_ok sane s \<longleftrightarrow> keyed_inv ru_id (rlc_ue_ok sane) (rs_ue_list s)"

abbreviation rlc_ue_of :: "rlc_state \<Rightarrow> int \<Rightarrow> rlc_ue option" where
  "rlc_ue_of s \<equiv> lookup ru_id (rs_ue_list s)"

interpretation rlcm: keyed_store ru_id "keyed_inv ru_id (rlc_ue_ok sane)" "lookup ru_id" "put_by ru_id" "rlc_ue_ok sane"
    "del_by ru_id"
  by (rule list_keyed_store)

lemma zero_rlc_ue_ok [simp]: "rlc_ue_ok sane (zero_rlc_ue ue_id)" "ru_id (zero_rlc_ue ue_id) = ue_id"
proof -
  have "slot_entity (zero_rlc_ue ue_id) sl = None" if "slot_valid sl" for sl
    using that by (cases sl) (simp_all add: zero_rlc_ue_def)
  then show "rlc_ue_ok sane (zero_rlc_ue ue_id)" unfolding rlc_ue_ok_def by (simp add: zero_rlc_ue_def)
  show "ru_id (zero_rlc_ue ue_id) = ue_id" by (simp add: zero_rlc_ue_def)
qed

section \<open>Touching one UE\<close>

definition rlc_touches :: "bool \<Rightarrow> int \<Rightarrow> rlc_state \<Rightarrow> rlc_state \<Rightarrow> bool" where
  "rlc_touches sane ue s s' \<longleftrightarrow> rlc_ok sane s' \<and> (\<forall>k. k \<noteq> ue \<longrightarrow> rlc_ue_of s' k = rlc_ue_of s k)
     \<and> rs_mode s' = rs_mode s \<and> rs_current_time s' = rs_current_time s"

lemma rlc_touches_refl: "rlc_ok sane s \<Longrightarrow> rlc_touches sane ue s s"
  by (simp add: rlc_touches_def)

lemma rlc_touches_trans: "rlc_touches sane ue s s1 \<Longrightarrow> rlc_touches sane ue s1 s2 \<Longrightarrow> rlc_touches sane ue s s2"
  by (simp add: rlc_touches_def)

lemma rlc_touches_ok: "rlc_touches sane ue s s' \<Longrightarrow> rlc_ok sane s'"
  by (simp add: rlc_touches_def)

lemma rlc_get_ue_eq:
  "nr_rlc_manager_get_ue s ue =
     (let (l, i) = get_or_add ru_id zero_rlc_ue ue (rs_ue_list s) in (s\<lparr>rs_ue_list := l\<rparr>, i))"
  by (simp add: nr_rlc_manager_get_ue_def get_or_add_def Let_def)

lemma rlc_get_ue:
  assumes "rlc_ok sane s" and "nr_rlc_manager_get_ue s ue = (s', i)"
  shows "rlc_touches sane ue s s'" "i < length (rs_ue_list s')" "ru_id (rs_ue_list s' ! i) = ue"
    "rlc_ue_ok sane (rs_ue_list s' ! i)" "rlc_ue_of s' ue = Some (rs_ue_list s' ! i)"
    "ru_id u = ue \<Longrightarrow> rlc_ue_ok sane u \<Longrightarrow> rlc_touches sane ue s (set_rlc_ue i u s')"
proof -
  obtain l where l: "get_or_add ru_id zero_rlc_ue ue (rs_ue_list s) = (l, i)" "s' = s\<lparr>rs_ue_list := l\<rparr>"
    using assms(2) by (auto simp: rlc_get_ue_eq Let_def split: prod.splits)
  have inv: "keyed_inv ru_id (rlc_ue_ok sane) (rs_ue_list s)" using assms(1) by (simp add: rlc_ok_def)
  note g = get_or_add_result[OF inv zero_rlc_ue_ok(2,1) l(1)]
  show t: "rlc_touches sane ue s s'" using g(1,5) l(2) by (simp add: rlc_touches_def rlc_ok_def)
  show "i < length (rs_ue_list s')" "ru_id (rs_ue_list s' ! i) = ue" "rlc_ue_ok sane (rs_ue_list s' ! i)"
    "rlc_ue_of s' ue = Some (rs_ue_list s' ! i)" using g l(2) by simp_all
  show "rlc_touches sane ue s (set_rlc_ue i u s')" if u: "ru_id u = ue" "rlc_ue_ok sane u"
  proof -
    have "rs_ue_list (set_rlc_ue i u s') = put_by ru_id u l" using g(7)[OF u(1)] l(2) by (simp add: set_rlc_ue_def)
    then show ?thesis
      using t rlcm.put_inv[OF g(1) u(2)] rlcm.put_other[OF g(1) u(2)] u(1) l(2)
      by (simp add: rlc_touches_def rlc_ok_def set_rlc_ue_def)
  qed
qed

lemma rlc_remove_ue:
  assumes "rlc_ok sane s"
  shows "rlc_touches sane ue s (nr_rlc_manager_remove_ue s ue)" and "rlc_ue_of (nr_rlc_manager_remove_ue s ue) ue = None"
proof -
  have r: "nr_rlc_manager_remove_ue s ue = s\<lparr>rs_ue_list := del_by ru_id ue (rs_ue_list s)\<rparr>"
    by (simp add: nr_rlc_manager_remove_ue_def del_by_def Let_def)
  have inv: "keyed_inv ru_id (rlc_ue_ok sane) (rs_ue_list s)" using assms by (simp add: rlc_ok_def)
  show "rlc_touches sane ue s (nr_rlc_manager_remove_ue s ue)" "rlc_ue_of (nr_rlc_manager_remove_ue s ue) ue = None"
    unfolding r using rlcm.del_inv[OF inv] rlcm.del_other[OF inv] fun_cong[OF rlcm.get_del[OF inv, of ue], of ue]
    by (simp_all add: rlc_touches_def rlc_ok_def)
qed

section \<open>Slots\<close>

lemma put_slot_id [simp]: "ru_id (put_slot u sl x) = ru_id u"
  by (cases sl) simp_all

lemma slot_entity_put:
  "slot_valid sl \<Longrightarrow> rlc_ue_ok sane u \<Longrightarrow>
   slot_entity (put_slot u sl x) sl' = (if sl' = sl then (if sl = Slot_Srb0 \<and> ru_srb0 u = None then None else x) else slot_entity u sl')"
  by (cases sl; cases sl') (auto simp: rlc_ue_ok_def split: option.splits)

lemma put_bearer_ok:
  assumes "rlc_ue_ok sane u" and "slot_valid sl" and "\<And>e. x = Some e \<Longrightarrow> bearer_ok sane sl e"
  shows "rlc_ue_ok sane (put_slot u sl x)"
proof -
  have "bearer_ok sane sl' e" if "slot_valid sl'" "slot_entity (put_slot u sl x) sl' = Some e" for sl' e
    using that assms slot_entity_put[OF assms(2,1), of x sl'] by (auto simp: rlc_ue_ok_def split: if_splits)
  moreover have "length (ru_srb (put_slot u sl x)) = 3 \<and> length (ru_drb (put_slot u sl x)) = 32 \<and> length (ru_lcid2rb (put_slot u sl x)) = 32"
    using assms(1) by (cases sl) (simp_all add: rlc_ue_ok_def)
  ultimately show ?thesis unfolding rlc_ue_ok_def by blast
qed

lemma slot_entity_ok: "rlc_ue_ok sane u \<Longrightarrow> slot_valid sl \<Longrightarrow> slot_entity u sl = Some e \<Longrightarrow> bearer_ok sane sl e"
  by (auto simp: rlc_ue_ok_def)

lemma lcid_slot_valid: "lcid_slot u lc = Inr (Some sl) \<Longrightarrow> slot_valid sl"
  by (auto simp: lcid_slot_def split: if_splits lcid_rb.splits)

lemma entity_from_lcid:
  assumes "get_rlc_entity_from_lcid u lc = Inr (Some (sl, e))"
  shows "slot_valid sl" "slot_entity u sl = Some e"
  using assms lcid_slot_valid by (auto simp: get_rlc_entity_from_lcid_def bindE_eq_Inr split: option.splits)

text \<open>Fields other than the slots do not matter for the invariant.\<close>

lemma rlc_ue_ok_upd [simp]:
  "rlc_ue_ok sane (u\<lparr>ru_rlf_handler := h\<rparr>) = rlc_ue_ok sane u" "rlc_ue_ok sane (u\<lparr>ru_id := k\<rparr>) = rlc_ue_ok sane u"
  "rlc_ue_ok sane (u\<lparr>ru_lcid2rb := (ru_lcid2rb u)[j := x]\<rparr>) = rlc_ue_ok sane u"
proof -
  have "slot_entity (u\<lparr>ru_rlf_handler := h\<rparr>) sl = slot_entity u sl" "slot_entity (u\<lparr>ru_id := k\<rparr>) sl = slot_entity u sl"
    "slot_entity (u\<lparr>ru_lcid2rb := (ru_lcid2rb u)[j := x]\<rparr>) sl = slot_entity u sl" for sl
    by (cases sl; simp)+
  then show "rlc_ue_ok sane (u\<lparr>ru_rlf_handler := h\<rparr>) = rlc_ue_ok sane u" "rlc_ue_ok sane (u\<lparr>ru_id := k\<rparr>) = rlc_ue_ok sane u"
    "rlc_ue_ok sane (u\<lparr>ru_lcid2rb := (ru_lcid2rb u)[j := x]\<rparr>) = rlc_ue_ok sane u"
    by (simp_all add: rlc_ue_ok_def)
qed

section \<open>What is told to the other layers\<close>

text \<open>An indication, a message or a failure report names the UE it comes from; a gNB uses the identifier of the CU.\<close>

definition cu_ue_id :: "f1_table \<Rightarrow> int \<Rightarrow> u64 res" where
  "cu_ue_id f1 ue = map_res (\<lambda>d. ucast (f1_secondary_ue d)) (du_get_f1_ue_data f1 (word_of_int ue))"

fun out_about :: "f1_table \<Rightarrow> int \<Rightarrow> rlc_out \<Rightarrow> bool" where
  "out_about f1 ue (Pdcp_Data_Ind i gnb srb rb buf) \<longleftrightarrow> (if gnb then cu_ue_id f1 ue = Inr i else i = word_of_int ue)"
| "out_about f1 ue (Du_F1ap_Ul_Rrc_Message i ue' rb buf) \<longleftrightarrow> cu_ue_id f1 ue = Inr i \<and> ue' = ue"
| "out_about f1 ue (Du_Gtpu_Send_Direct ue' rb buf) \<longleftrightarrow> ue' = ue"
| "out_about f1 ue (Rlf_Handler ue') \<longleftrightarrow> ue' = ue"
| "out_about f1 ue (Initial_Ul_Rrc_Message ue' buf) \<longleftrightarrow> True"

lemma deliver_sdu_about: "deliver_sdu f1 s u srb rb buf = Inr out \<Longrightarrow> list_all (out_about f1 (ru_id u)) out"
  by (auto simp: deliver_sdu_def cu_ue_id_def map_res_def bindE_eq_Inr Let_def split: if_splits)

lemma callback_about: "callback f1 s u sl ev = Inr out \<Longrightarrow> list_all (out_about f1 (ru_id u)) out"
  by (cases ev; cases sl) (auto dest: deliver_sdu_about split: if_splits option.splits)

lemma callbacks_about: "callbacks f1 s u sl evs = Inr out \<Longrightarrow> list_all (out_about f1 (ru_id u)) out"
  by (induction evs arbitrary: out) (auto simp: bindE_eq_Inr dest: callback_about)

lemma on_slot_touches:
  assumes ok: "rlc_ok sane s" and g: "nr_rlc_manager_get_ue s ue = (s1, i)"
    and sl: "slot_valid sl" and f: "\<And>e' r. f e = Inr (e', r) \<Longrightarrow> bearer_ok sane sl e'"
    and r: "on_slot f1 i sl e f s1 = Inr (s', out, r)"
  shows "rlc_touches sane ue s s' \<and> list_all (out_about f1 ue) out"
proof -
  note gr = rlc_get_ue[OF ok g]
  let ?u = "rs_ue_list s1 ! i"
  obtain e' where e': "f e = Inr (e', r)" "s' = set_rlc_ue i (put_slot ?u sl (Some e')) s1"
      "callbacks f1 s1 ?u sl (drop (length (ent_events e)) (ent_events e')) = Inr out"
    using r by (auto simp: on_slot_def bindE_eq_Inr Let_def)
  have "rlc_ue_ok sane (put_slot ?u sl (Some e'))" by (rule put_bearer_ok[OF gr(4) sl]) (use f[OF e'(1)] in simp)
  then show ?thesis using gr(6)[of "put_slot ?u sl (Some e')"] gr(3) e'(2) callbacks_about[OF e'(3)] by simp
qed

text \<open>The entity of a logical channel.\<close>

definition entity_at :: "rlc_state \<Rightarrow> int \<Rightarrow> nat \<Rightarrow> (rb_slot \<times> rlc_entity) option" where
  "entity_at s ue lc =
     (let (s, i) = nr_rlc_manager_get_ue s ue
      in case get_rlc_entity_from_lcid (rs_ue_list s ! i) lc of Inl _ \<Rightarrow> None | Inr x \<Rightarrow> x)"

lemma entity_at_ok:
  assumes "rlc_ok sane s" and "entity_at s ue lc = Some (sl, e)"
  shows "slot_valid sl" "bearer_ok sane sl e"
proof -
  obtain s1 i where g: "nr_rlc_manager_get_ue s ue = (s1, i)" by (cases "nr_rlc_manager_get_ue s ue")
  have "get_rlc_entity_from_lcid (rs_ue_list s1 ! i) lc = Inr (Some (sl, e))"
    using assms(2) g by (auto simp: entity_at_def split: sum.splits)
  from entity_from_lcid[OF this] show "slot_valid sl" "bearer_ok sane sl e"
    using slot_entity_ok[OF rlc_get_ue(4)[OF assms(1) g]] by auto
qed

lemma on_lcid_touches:
  assumes ok: "rlc_ok sane s" and f: "\<And>sl e e' r. entity_at s ue lc = Some (sl, e) \<Longrightarrow> f e = Inr (e', r) \<Longrightarrow> bearer_ok sane sl e'"
    and r: "on_lcid f1 ue lc none f s = Inr (s', out, r)"
  shows "rlc_touches sane ue s s' \<and> list_all (out_about f1 ue) out"
proof -
  obtain s1 i where g: "nr_rlc_manager_get_ue s ue = (s1, i)" by (cases "nr_rlc_manager_get_ue s ue")
  note gr = rlc_get_ue[OF ok g]
  obtain x where x: "get_rlc_entity_from_lcid (rs_ue_list s1 ! i) lc = Inr x"
    using r g by (auto simp: on_lcid_def bindE_eq_Inr)
  show ?thesis
  proof (cases x)
    case None
    then show ?thesis using r g x gr(1) by (simp add: on_lcid_def)
  next
    case (Some y)
    then obtain sl e where y: "x = Some (sl, e)" by (cases y) auto
    have at: "entity_at s ue lc = Some (sl, e)" using g x y by (simp add: entity_at_def)
    have "on_slot f1 i sl e f s1 = Inr (s', out, r)" using r g x y by (simp add: on_lcid_def)
    then show ?thesis using on_slot_touches[OF ok g entity_at_ok(1)[OF ok at], of f e] f[OF at] by blast
  qed
qed

end
