(* ===== verification/RLC_Api_Props.thy ===== *)
theory RLC_Api_Props
  imports RLC_Api_Inv
begin

text \<open>
  The RLC layer as one function on a datatype of calls, the states it reaches, and what holds in them: UEs do not
  disturb each other, the MAC can always ask for data.
\<close>

section \<open>Operations of an entity keep the invariant\<close>

lemma bearer_set_time: "bearer_ok sane sl e \<Longrightarrow> ent_set_time now e = Inr e' \<Longrightarrow> bearer_ok sane sl e'"
  by (cases e) (auto simp: map_res_def bindE_eq_Inr dest: am_reach.Set_Time)

lemma bearer_recv_sdu: "bearer_ok sane sl e \<Longrightarrow> ent_recv_sdu buf i t e = Inr e' \<Longrightarrow> bearer_ok sane sl e'"
  by (cases e) (auto simp: map_res_def bindE_eq_Inr dest: am_reach.Recv_Sdu)

lemma bearer_generate_pdu: "bearer_ok sane sl e \<Longrightarrow> ent_generate_pdu buf t e = Inr (e', r) \<Longrightarrow> bearer_ok sane sl e'"
  by (cases e) (auto simp: map_res_def bindE_eq_Inr split: prod.splits dest: am_reach.Generate_Pdu)

lemma bearer_reestablishment: "bearer_ok sane sl (ent_reestablishment e) \<longleftrightarrow> bearer_ok sane sl e" if "bearer_ok sane sl e"
  using that by (cases e) (auto dest: am_reach.Reestablishment)

lemma bearer_set_avg_time: "bearer_ok sane sl e \<Longrightarrow> bearer_ok sane sl (ent_set_avg_time b e)"
  by (cases e) (auto dest: am_reach.Activate_Avg_Time)

text \<open>A received PDU is harmless if the entity is not in AM or if it is harmless for the AM entity.\<close>

fun ent_pdu_sane :: "rlc_entity \<Rightarrow> buffer \<Rightarrow> bool" where
  "ent_pdu_sane (Ent_Am a) buf \<longleftrightarrow> am_status_sane a buf"
| "ent_pdu_sane e buf \<longleftrightarrow> True"

lemma bearer_recv_pdu:
  "bearer_ok sane sl e \<Longrightarrow> sane \<longrightarrow> ent_pdu_sane e buf \<Longrightarrow> ent_recv_pdu buf e = Inr e' \<Longrightarrow> bearer_ok sane sl e'"
  by (cases e) (auto simp: map_res_def bindE_eq_Inr dest: am_reach.Recv_Pdu)

text \<open>A reconfiguration that leaves the length of the sequence numbers alone.\<close>

fun same_sn_length :: "rlc_entity \<Rightarrow> rlc_entity \<Rightarrow> bool" where
  "same_sn_length (Ent_Am a) (Ent_Am a') \<longleftrightarrow> am_sn_field_length a' = am_sn_field_length a"
| "same_sn_length e e' \<longleftrightarrow> True"

lemma am_reconfigure_same:
  assumes "am_reach sane a" and "am_sn_field_length (am_reconfigure_with p sn a) = am_sn_field_length a"
  shows "am_reach sane (am_reconfigure_with p sn a)"
proof -
  obtain tp tr ts pp pb mr where p: "p = (tp, tr, ts, pp, pb, mr)" by (cases p) auto
  have "am_reconfigure_with p sn a = nr_rlc_entity_am_reconfigure a tp tr ts pp pb mr None"
    using assms(2) p by (auto simp: am_reconfigure_with_def nr_rlc_entity_am_reconfigure_def Let_def split: option.splits)
  then show ?thesis using am_reach.Reconfigure[OF assms(1)] by simp
qed

lemma bearer_reconfigure:
  assumes "bearer_ok sane sl e" and "reconfigure_with cfg e = Inr e'" and "same_sn_length e e'"
  shows "bearer_ok sane sl e'"
  using assms
  by (cases "(cfg, e)" rule: reconfigure_with.cases) (auto simp: bindE_eq_Inr intro: am_reconfigure_same)

lemma bearer_new_am:
  assumes "new_am_with p sn = Inr e" and "sl \<noteq> Slot_Srb0"
  shows "bearer_ok sane sl e"
proof -
  obtain tp tr ts pp pb mr a where "new_nr_rlc_entity_am RLC_RX_MAXSIZE RLC_TX_MAXSIZE tp tr ts pp pb mr sn = Inr a" "e = Ent_Am a"
    using assms(1) by (cases p) (auto simp: new_am_with_def map_res_def bindE_eq_Inr)
  then show ?thesis using am_reach.New[of RLC_RX_MAXSIZE RLC_TX_MAXSIZE] assms(2)
    by (simp add: RLC_RX_MAXSIZE_def RLC_TX_MAXSIZE_def)
qed

section \<open>The calls of the API\<close>

datatype rlc_call =
    Call_Mac_Data_Ind "16 word" nat buffer
  | Call_Mac_Data_Req "16 word" nat buffer u64
  | Call_Mac_Status_Ind "16 word" nat
  | Call_Data_Req u64 bool int u32 buffer u64
  | Call_Srb_Recv_Sdu int nat buffer u64
  | Call_Tx_Space int nat
  | Call_Reestablish int nat
  | Call_Set_Rlf_Handler int bool
  | Call_Release int nat
  | Call_Reconfigure int nat "rlc_config option"
  | Call_Add_Srb int int rlc_bearer_config
  | Call_Add_Drb int int rlc_bearer_config
  | Call_Activate_Srb0 int
  | Call_Remove_Ue int
  | Call_Update_Id int int
  | Call_Trigger_Reestablishment int
  | Call_Ms_Tick
  | Call_Avg_Time int nat bool
  | Call_Statistics int bool int u64
  | Call_Get_Lcid int bool int

definition drop_value :: "(rlc_state \<times> rlc_out list \<times> 'a) res \<Rightarrow> (rlc_state \<times> rlc_out list) res" where
  "drop_value r = bindE r (\<lambda>(s, out, _). Inr (s, out))"

definition silent :: "rlc_state res \<Rightarrow> (rlc_state \<times> rlc_out list) res" where
  "silent r = bindE r (\<lambda>s. Inr (s, []))"

fun exec_call :: "f1_table \<Rightarrow> rlc_call \<Rightarrow> rlc_state \<Rightarrow> (rlc_state \<times> rlc_out list) res" where
  "exec_call f1 (Call_Mac_Data_Ind ue lc buf) s = drop_value (nr_mac_rlc_data_ind f1 ue lc buf s)"
| "exec_call f1 (Call_Mac_Data_Req ue lc buf t) s = drop_value (nr_mac_rlc_data_req f1 ue lc buf t s)"
| "exec_call f1 (Call_Mac_Status_Ind ue lc) s = drop_value (nr_mac_rlc_status_ind f1 ue lc s)"
| "exec_call f1 (Call_Data_Req ue srb rb mui sdu t) s = drop_value (nr_rlc_data_req f1 ue srb rb mui sdu t s)"
| "exec_call f1 (Call_Srb_Recv_Sdu ue lc sdu t) s = drop_value (nr_rlc_srb_recv_sdu f1 ue lc sdu t s)"
| "exec_call f1 (Call_Tx_Space ue lc) s = drop_value (nr_rlc_get_available_tx_space f1 ue lc s)"
| "exec_call f1 (Call_Reestablish ue lc) s = drop_value (nr_rlc_reestablish_entity f1 ue lc s)"
| "exec_call f1 (Call_Set_Rlf_Handler ue h) s = Inr (nr_rlc_set_rlf_handler ue h s, [])"
| "exec_call f1 (Call_Release ue lc) s = silent (nr_rlc_release_entity ue lc s)"
| "exec_call f1 (Call_Reconfigure ue lc cfg) s = silent (nr_rlc_reconfigure_entity ue lc cfg s)"
| "exec_call f1 (Call_Add_Srb ue srb c) s = silent (nr_rlc_add_srb ue srb c s)"
| "exec_call f1 (Call_Add_Drb ue drb c) s = silent (nr_rlc_add_drb ue drb c s)"
| "exec_call f1 (Call_Activate_Srb0 ue) s = silent (map_res fst (nr_rlc_activate_srb0 ue s))"
| "exec_call f1 (Call_Remove_Ue ue) s = Inr (nr_rlc_remove_ue ue s, [])"
| "exec_call f1 (Call_Update_Id a b) s = Inr (nr_rlc_update_id a b s, [])"
| "exec_call f1 (Call_Trigger_Reestablishment ue) s = silent (nr_rlc_test_trigger_reestablishment ue s)"
| "exec_call f1 Call_Ms_Tick s = Inr (nr_rlc_ms_tick s, [])"
| "exec_call f1 (Call_Avg_Time ue lc b) s = Inr (nr_rlc_activate_avg_time_to_tx ue lc b s, [])"
| "exec_call f1 (Call_Statistics ue srb rb t) s = silent (map_res fst (nr_rlc_get_statistics ue srb rb t s))"
| "exec_call f1 (Call_Get_Lcid ue srb rb) s = Inr (fst (nr_rlc_get_lcid_from_rb ue srb rb s), [])"

text \<open>The UEs that a call is about.\<close>

fun call_ues :: "rlc_call \<Rightarrow> int set" where
  "call_ues (Call_Mac_Data_Ind ue lc buf) = {uint ue}"
| "call_ues (Call_Mac_Data_Req ue lc buf t) = {uint ue}"
| "call_ues (Call_Mac_Status_Ind ue lc) = {uint ue}"
| "call_ues (Call_Data_Req ue srb rb mui sdu t) = {int_of_u64 ue}"
| "call_ues (Call_Srb_Recv_Sdu ue lc sdu t) = {ue}"
| "call_ues (Call_Tx_Space ue lc) = {ue}"
| "call_ues (Call_Reestablish ue lc) = {ue}"
| "call_ues (Call_Set_Rlf_Handler ue h) = {ue}"
| "call_ues (Call_Release ue lc) = {ue}"
| "call_ues (Call_Reconfigure ue lc cfg) = {ue}"
| "call_ues (Call_Add_Srb ue srb c) = {ue}"
| "call_ues (Call_Add_Drb ue drb c) = {ue}"
| "call_ues (Call_Activate_Srb0 ue) = {ue}"
| "call_ues (Call_Remove_Ue ue) = {ue}"
| "call_ues (Call_Update_Id a b) = {a, b}"
| "call_ues (Call_Trigger_Reestablishment ue) = {ue}"
| "call_ues Call_Ms_Tick = {}"
| "call_ues (Call_Avg_Time ue lc b) = {ue}"
| "call_ues (Call_Statistics ue srb rb t) = {ue}"
| "call_ues (Call_Get_Lcid ue srb rb) = {ue}"

text \<open>
  What the callers are trusted with. A UE may not get the identifier of another one, a reconfiguration may not
  change the length of the sequence numbers of a live AM entity; if \<open>sane\<close>, no STATUS PDU has a NACK at or above its ACK_SN.
  The other properties of the AM entity show that the code relies on the last two.
\<close>

fun call_allowed :: "bool \<Rightarrow> rlc_state \<Rightarrow> rlc_call \<Rightarrow> bool" where
  "call_allowed sane s (Call_Mac_Data_Ind ue lc buf) \<longleftrightarrow>
     (case entity_at s (uint ue) lc of
        None \<Rightarrow> True
      | Some (_, e) \<Rightarrow> (case ent_set_time (rs_current_time s) e of Inl _ \<Rightarrow> True | Inr e \<Rightarrow> sane \<longrightarrow> ent_pdu_sane e buf))"
| "call_allowed sane s (Call_Reconfigure ue lc cfg) \<longleftrightarrow>
     (case entity_at s ue lc of
        None \<Rightarrow> True
      | Some (_, e) \<Rightarrow> (case reconfigure_with cfg e of Inl _ \<Rightarrow> True | Inr e' \<Rightarrow> same_sn_length e e'))"
| "call_allowed sane s (Call_Update_Id a b) \<longleftrightarrow> a = b \<or> rlc_ue_of s b = None"
| "call_allowed sane s c \<longleftrightarrow> True"

inductive rlc_reach :: "f1_table \<Rightarrow> bool \<Rightarrow> rlc_state \<Rightarrow> bool" for f1 sane where
  rlc_start: "rlc_reach f1 sane (new_nr_rlc_ue_manager mode)"
| rlc_step: "rlc_reach f1 sane s'"
    if "rlc_reach f1 sane s" "call_allowed sane s c" "exec_call f1 c s = Inr (s', out)"

section \<open>Every call touches its UEs only\<close>

text \<open>The calls on the entity in a slot.\<close>

lemma set_time_then:
  assumes "bearer_ok sane sl e" and "bindE (ent_set_time now e) f = Inr (e', r)"
    and "\<And>e1. ent_set_time now e = Inr e1 \<Longrightarrow> bearer_ok sane sl e1 \<Longrightarrow> f e1 = Inr (e', r) \<Longrightarrow> bearer_ok sane sl e'"
  shows "bearer_ok sane sl e'"
  using assms bearer_set_time by (auto simp: bindE_eq_Inr)

lemma mac_data_ind_touches:
  assumes ok: "rlc_ok sane s" and al: "call_allowed sane s (Call_Mac_Data_Ind ue lc buf)"
    and r: "nr_mac_rlc_data_ind f1 ue lc buf s = Inr (s', out, v)"
  shows "rlc_touches sane (uint ue) s s' \<and> list_all (out_about f1 (uint ue)) out"
proof (rule on_lcid_touches[OF ok _ r[unfolded nr_mac_rlc_data_ind_def]])
  fix sl e e' w
  assume at: "entity_at s (uint ue) lc = Some (sl, e)"
    and f: "bindE (ent_set_time (rs_current_time s) e) (\<lambda>e. bindE (ent_recv_pdu buf e) (\<lambda>e. Inr (e, ()))) = Inr (e', w)"
  show "bearer_ok sane sl e'"
  proof (rule set_time_then[OF entity_at_ok(2)[OF ok at] f])
    fix e1 assume "ent_set_time (rs_current_time s) e = Inr e1" "bearer_ok sane sl e1"
      "bindE (ent_recv_pdu buf e1) (\<lambda>e. Inr (e, ())) = Inr (e', w)"
    then show "bearer_ok sane sl e'" using al at bearer_recv_pdu[of sane sl e1 buf e'] by (auto simp: bindE_eq_Inr)
  qed
qed

lemma mac_data_req_touches:
  assumes ok: "rlc_ok sane s" and r: "nr_mac_rlc_data_req f1 ue lc buf t s = Inr (s', out, v)"
  shows "rlc_touches sane (uint ue) s s' \<and> list_all (out_about f1 (uint ue)) out"
proof (rule on_lcid_touches[OF ok _ r[unfolded nr_mac_rlc_data_req_def]])
  fix sl e e' w
  assume at: "entity_at s (uint ue) lc = Some (sl, e)"
    and f: "bindE (ent_set_time (rs_current_time s) e) (ent_generate_pdu buf t) = Inr (e', w)"
  show "bearer_ok sane sl e'" by (rule set_time_then[OF entity_at_ok(2)[OF ok at] f]) (use bearer_generate_pdu in blast)
qed

lemma mac_status_ind_touches:
  assumes ok: "rlc_ok sane s" and r: "nr_mac_rlc_status_ind f1 ue lc s = Inr (s', out, v)"
  shows "rlc_touches sane (uint ue) s s' \<and> list_all (out_about f1 (uint ue)) out"
proof (rule on_lcid_touches[OF ok _ r[unfolded nr_mac_rlc_status_ind_def]])
  fix sl e e' w
  assume at: "entity_at s (uint ue) lc = Some (sl, e)"
    and f: "bindE (ent_set_time (rs_current_time s) e) (\<lambda>e. bindE (ent_buffer_status 1000000 e) (\<lambda>b.
         Inr (e, bs_status_size b + bs_retx_size b + bs_tx_size b))) = Inr (e', w)"
  show "bearer_ok sane sl e'" by (rule set_time_then[OF entity_at_ok(2)[OF ok at] f]) (auto simp: bindE_eq_Inr)
qed

lemma recv_sdu_then:
  assumes "bearer_ok sane sl e"
    and "bindE (ent_set_time now e) (\<lambda>e. bindE (ent_recv_sdu sdu i t e) (\<lambda>e. Inr (e, ()))) = Inr (e', w)"
  shows "bearer_ok sane sl e'"
  by (rule set_time_then[OF assms]) (use bearer_recv_sdu in \<open>auto simp: bindE_eq_Inr\<close>)

lemma data_req_slot_valid: "data_req_slot srb rb = Some sl \<Longrightarrow> slot_valid sl"
  by (auto simp: data_req_slot_def split: if_splits)

lemma rlc_data_req_touches:
  assumes ok: "rlc_ok sane s" and r: "nr_rlc_data_req f1 ue srb rb mui sdu t s = Inr (s', out, v)"
  shows "rlc_touches sane (int_of_u64 ue) s s' \<and> list_all (out_about f1 (int_of_u64 ue)) out"
proof -
  obtain s1 i where g: "nr_rlc_manager_get_ue s (int_of_u64 ue) = (s1, i)" by (cases "nr_rlc_manager_get_ue s (int_of_u64 ue)")
  note gr = rlc_get_ue[OF ok g]
  let ?f = "\<lambda>e. bindE (ent_set_time (rs_current_time s1) e) (\<lambda>e. bindE (ent_recv_sdu sdu (sint mui) t e) (\<lambda>e. Inr (e, ())))"
  consider "s' = s1" "out = []" | sl e where "data_req_slot srb rb = Some sl" "slot_entity (rs_ue_list s1 ! i) sl = Some e"
      "on_slot f1 i sl e ?f s1 = Inr (s', out, ())"
    using r g by (auto simp: nr_rlc_data_req_def Let_def split: option.splits)
  then show ?thesis
  proof cases
    case 2
    note sl = data_req_slot_valid[OF 2(1)]
    show ?thesis
      using on_slot_touches[OF ok g sl _ 2(3)] recv_sdu_then[OF slot_entity_ok[OF gr(4) sl 2(2)]] by blast
  qed (use gr(1) in simp)
qed

lemma srb_recv_sdu_touches:
  assumes ok: "rlc_ok sane s" and r: "nr_rlc_srb_recv_sdu f1 ue lc sdu t s = Inr (s', out, v)"
  shows "rlc_touches sane ue s s' \<and> list_all (out_about f1 ue) out"
proof -
  obtain s1 i where g: "nr_rlc_manager_get_ue s ue = (s1, i)" by (cases "nr_rlc_manager_get_ue s ue")
  note gr = rlc_get_ue[OF ok g]
  let ?f = "\<lambda>e. bindE (ent_set_time (rs_current_time s1) e) (\<lambda>e. bindE (ent_recv_sdu sdu (-1) t e) (\<lambda>e. Inr (e, ())))"
  let ?sl = "if lc = 0 then Slot_Srb0 else Slot_Srb (lc - 1)"
  obtain e where e: "slot_entity (rs_ue_list s1 ! i) ?sl = Some e" "on_slot f1 i ?sl e ?f s1 = Inr (s', out, ())" "lc \<le> 3"
    using r g by (auto simp: nr_rlc_srb_recv_sdu_def Let_def split: option.splits if_splits)
  have sl: "slot_valid ?sl" using e(3) by auto
  show ?thesis
    using on_slot_touches[OF ok g sl _ e(2)] recv_sdu_then[OF slot_entity_ok[OF gr(4) sl e(1)]] by blast
qed

lemma reestablish_touches:
  assumes ok: "rlc_ok sane s" and r: "nr_rlc_reestablish_entity f1 ue lc s = Inr (s', out, v)"
  shows "rlc_touches sane ue s s' \<and> list_all (out_about f1 ue) out"
  by (rule on_lcid_touches[OF ok _ r[unfolded nr_rlc_reestablish_entity_def]])
    (use entity_at_ok(2)[OF ok] bearer_reestablishment in auto)

lemma tx_space_touches:
  assumes ok: "rlc_ok sane s" and r: "nr_rlc_get_available_tx_space f1 ue lc s = Inr (s', out, v)"
  shows "rlc_touches sane ue s s' \<and> list_all (out_about f1 ue) out"
  by (rule on_lcid_touches[OF ok _ r[unfolded nr_rlc_get_available_tx_space_def]]) (use entity_at_ok(2)[OF ok] in auto)

text \<open>The calls that write a UE back.\<close>

lemma rlc_set_ue_touches:
  assumes ok: "rlc_ok sane s" and g: "nr_rlc_manager_get_ue s ue = (s1, i)"
    and u: "ru_id u = ue" "rlc_ue_ok sane u"
  shows "rlc_touches sane ue s (set_rlc_ue i u s1)"
  using rlc_get_ue(6)[OF ok g u] .

lemma release_touches:
  assumes ok: "rlc_ok sane s" and r: "nr_rlc_release_entity ue lc s = Inr s'"
  shows "rlc_touches sane ue s s'"
proof -
  obtain s1 i where g: "nr_rlc_manager_get_ue s ue = (s1, i)" by (cases "nr_rlc_manager_get_ue s ue")
  note gr = rlc_get_ue[OF ok g]
  let ?u = "rs_ue_list s1 ! i"
  show ?thesis
  proof (cases "lc = 0")
    case True
    then have "s' = set_rlc_ue i (put_slot ?u Slot_Srb0 None) s1" using r g by (simp add: nr_rlc_release_entity_def Let_def)
    then show ?thesis using rlc_set_ue_touches[OF ok g] gr(3) put_bearer_ok[OF gr(4), of Slot_Srb0 None] by simp
  next
    case False
    then obtain x where x: "lcid_slot ?u lc = Inr x" "s' = set_rlc_ue i (case x of None \<Rightarrow> ?u | Some sl \<Rightarrow> put_slot ?u sl None) s1"
      using r g by (auto simp: nr_rlc_release_entity_def release_rlc_entity_from_lcid_def bindE_eq_Inr Let_def)
    then show ?thesis using rlc_set_ue_touches[OF ok g] gr(3,4) put_bearer_ok[OF gr(4), of _ None] lcid_slot_valid[of ?u lc]
      by (cases x) auto
  qed
qed

lemma reconfigure_touches:
  assumes ok: "rlc_ok sane s" and al: "call_allowed sane s (Call_Reconfigure ue lc cfg)"
    and r: "nr_rlc_reconfigure_entity ue lc cfg s = Inr s'"
  shows "rlc_touches sane ue s s'"
proof -
  obtain s1 i where g: "nr_rlc_manager_get_ue s ue = (s1, i)" by (cases "nr_rlc_manager_get_ue s ue")
  note gr = rlc_get_ue[OF ok g]
  let ?u = "rs_ue_list s1 ! i"
  obtain sl e e' where e: "get_rlc_entity_from_lcid ?u lc = Inr (Some (sl, e))" "reconfigure_with cfg e = Inr e'"
      "s' = set_rlc_ue i (put_slot ?u sl (Some e')) s1"
    using r g by (auto simp: nr_rlc_reconfigure_entity_def Let_def elim!: bindE_E split: option.splits)
  note sl = entity_from_lcid[OF e(1)]
  have at: "entity_at s ue lc = Some (sl, e)" using g e(1) by (simp add: entity_at_def)
  then have "bearer_ok sane sl e'" using al e(2) bearer_reconfigure[OF slot_entity_ok[OF gr(4) sl] e(2)] by simp
  then have "rlc_ue_ok sane (put_slot ?u sl (Some e'))" using put_bearer_ok[OF gr(4) sl(1), of "Some e'"] by blast
  then show ?thesis using rlc_set_ue_touches[OF ok g] gr(3) e(3) by auto
qed

lemma map_lcid_ok: "map_lcid lc x u = Inr u' \<Longrightarrow> ru_id u' = ru_id u \<and> rlc_ue_ok sane u' = rlc_ue_ok sane u"
  by (auto simp: map_lcid_def split: if_splits)

lemma add_srb_entity_ok:
  assumes "nr_rlc_ue_add_srb_rlc_entity u srb e = Inr u'" and "rlc_ue_ok sane u"
    and "bearer_ok sane (if srb = 0 then Slot_Srb0 else Slot_Srb (nat (srb - 1))) e"
  shows "ru_id u' = ru_id u \<and> rlc_ue_ok sane u'"
proof (cases "srb = 0")
  case True
  then have u': "u' = u\<lparr>ru_srb0 := Some (e, ru_id u)\<rparr>" using assms(1) by (auto simp: nr_rlc_ue_add_srb_rlc_entity_def split: if_splits)
  have "bearer_ok sane sl e'" if "slot_valid sl" "slot_entity u' sl = Some e'" for sl e'
    using that u' assms(2,3) True slot_entity_ok[OF assms(2), of sl e'] by (cases sl) auto
  then show ?thesis using u' assms(2) by (simp add: rlc_ue_ok_def)
next
  case False
  then have "u' = put_slot u (Slot_Srb (nat (srb - 1))) (Some e)" "nat (srb - 1) < 3"
    using assms(1) by (auto simp: nr_rlc_ue_add_srb_rlc_entity_def split: if_splits)
  then show ?thesis using put_bearer_ok[OF assms(2), of "Slot_Srb (nat (srb - 1))" "Some e"] assms(3) False by auto
qed

lemma add_drb_entity_ok:
  assumes "nr_rlc_ue_add_drb_rlc_entity u drb e = Inr u'" and "rlc_ue_ok sane u" and "bearer_ok sane (Slot_Drb (nat (drb - 1))) e"
  shows "ru_id u' = ru_id u \<and> rlc_ue_ok sane u'"
proof -
  have "u' = put_slot u (Slot_Drb (nat (drb - 1))) (Some e)" "nat (drb - 1) < 32"
    using assms(1) by (auto simp: nr_rlc_ue_add_drb_rlc_entity_def split: if_splits)
  then show ?thesis using put_bearer_ok[OF assms(2), of "Slot_Drb (nat (drb - 1))" "Some e"] assms(3) by auto
qed

lemma rlc_add_srb_touches:
  assumes ok: "rlc_ok sane s" and r: "nr_rlc_add_srb ue srb c s = Inr s'"
  shows "rlc_touches sane ue s s'"
proof -
  obtain s1 i where g: "nr_rlc_manager_get_ue s ue = (s1, i)" by (cases "nr_rlc_manager_get_ue s ue")
  note gr = rlc_get_ue[OF ok g]
  obtain rb u where u: "map_lcid (bc_logicalChannelIdentity c) (NR_LCID_SRB rb) (rs_ue_list s1 ! i) = Inr u"
    and s': "s' = set_rlc_ue i u s1 \<or> (\<exists>p sn e u'. new_am_with p sn = Inr e \<and> nr_rlc_ue_add_srb_rlc_entity u srb e = Inr u'
      \<and> 0 < srb \<and> s' = set_rlc_ue i u' s1)"
    using r g by (auto simp: nr_rlc_add_srb_def Let_def elim!: bindE_E split: if_splits option.splits served_rb.splits) blast
  have m: "ru_id u = ue" "rlc_ue_ok sane u" using map_lcid_ok[OF u] gr(3,4) by auto
  from s' show ?thesis
  proof (elim disjE exE conjE)
    fix p sn e u'
    assume "new_am_with p sn = Inr e" "nr_rlc_ue_add_srb_rlc_entity u srb e = Inr u'" "0 < srb" "s' = set_rlc_ue i u' s1"
    then show ?thesis
      using rlc_set_ue_touches[OF ok g] add_srb_entity_ok[OF _ m(2), of srb e u'] bearer_new_am[of p sn e "Slot_Srb (nat (srb - 1))" sane] m(1)
      by auto
  qed (use rlc_set_ue_touches[OF ok g m] in simp)
qed

lemma insert_drb_touches:
  assumes ok: "rlc_ok sane s" and new: "\<And>e. new = Inr e \<Longrightarrow> bearer_ok sane (Slot_Drb (nat (drb - 1))) e"
    and r: "insert_drb ue drb c new s = Inr s'"
  shows "rlc_touches sane ue s s'"
proof -
  obtain s1 i where g: "nr_rlc_manager_get_ue s ue = (s1, i)" by (cases "nr_rlc_manager_get_ue s ue")
  note gr = rlc_get_ue[OF ok g]
  obtain rb u where u: "map_lcid (bc_logicalChannelIdentity c) (NR_LCID_DRB rb) (rs_ue_list s1 ! i) = Inr u"
    and s': "s' = set_rlc_ue i u s1 \<or> (\<exists>e u'. new = Inr e \<and> nr_rlc_ue_add_drb_rlc_entity u drb e = Inr u' \<and> s' = set_rlc_ue i u' s1)"
    using r g by (auto simp: insert_drb_def Let_def elim!: bindE_E split: if_splits option.splits served_rb.splits)
  have m: "ru_id u = ue" "rlc_ue_ok sane u" using map_lcid_ok[OF u] gr(3,4) by auto
  then show ?thesis using s' rlc_set_ue_touches[OF ok g] add_drb_entity_ok[OF _ m(2)] new by blast
qed

lemma rlc_add_drb_touches:
  assumes ok: "rlc_ok sane s" and r: "nr_rlc_add_drb ue drb c s = Inr s'"
  shows "rlc_touches sane ue s s'"
proof -
  obtain new where "insert_drb ue drb c new s = Inr s'" "\<And>e. new = Inr e \<Longrightarrow> bearer_ok sane (Slot_Drb (nat (drb - 1))) e"
    using r bearer_new_am[where sl = "Slot_Drb (nat (drb - 1))" and sane = sane]
    by (fastforce simp: nr_rlc_add_drb_def add_drb_am_def add_drb_um_def bindE_eq_Inr map_res_def split: option.splits rlc_config.splits if_splits)
  then show ?thesis using insert_drb_touches[OF ok] by blast
qed

lemma activate_srb0_touches:
  assumes ok: "rlc_ok sane s" and r: "nr_rlc_activate_srb0 ue s = Inr (s', b)"
  shows "rlc_touches sane ue s s'"
proof -
  obtain s1 i where g: "nr_rlc_manager_get_ue s ue = (s1, i)" by (cases "nr_rlc_manager_get_ue s ue")
  note gr = rlc_get_ue[OF ok g]
  have "s' = s1 \<or> (\<exists>u'. nr_rlc_ue_add_srb_rlc_entity (rs_ue_list s1 ! i) 0 (Ent_Tm (new_nr_rlc_entity_tm 10000)) = Inr u'
      \<and> s' = set_rlc_ue i u' s1)"
    using r g by (auto simp: nr_rlc_activate_srb0_def bindE_eq_Inr Let_def split: if_splits)
  then show ?thesis
    using gr(1,3) rlc_set_ue_touches[OF ok g] add_srb_entity_ok[OF _ gr(4), of 0 "Ent_Tm (new_nr_rlc_entity_tm 10000)"] by auto
qed

lemma reestablish_slot_ok:
  "slot_valid sl \<Longrightarrow> rlc_ue_ok sane u \<Longrightarrow> rlc_ue_ok sane (reestablish_slot sl u) \<and> ru_id (reestablish_slot sl u) = ru_id u"
  using bearer_reestablishment slot_entity_ok[of sane u sl]
  by (auto simp: reestablish_slot_def split: option.splits intro!: put_bearer_ok)

lemma trigger_touches:
  assumes ok: "rlc_ok sane s" and r: "nr_rlc_test_trigger_reestablishment ue s = Inr s'"
  shows "rlc_touches sane ue s s'"
proof -
  obtain s1 i where g: "nr_rlc_manager_get_ue s ue = (s1, i)" by (cases "nr_rlc_manager_get_ue s ue")
  note gr = rlc_get_ue[OF ok g]
  have "s' = set_rlc_ue i (reestablish_slot (Slot_Drb 0) (reestablish_slot (Slot_Srb 0) (rs_ue_list s1 ! i))) s1"
    using r g by (auto simp: nr_rlc_test_trigger_reestablishment_def Let_def split: if_splits)
  then show ?thesis
    using rlc_set_ue_touches[OF ok g] gr(3) reestablish_slot_ok[of "Slot_Srb 0" sane "rs_ue_list s1 ! i"]
      reestablish_slot_ok[of "Slot_Drb 0" sane "reestablish_slot (Slot_Srb 0) (rs_ue_list s1 ! i)"] gr(4) by simp
qed

lemma set_rlf_touches: "rlc_ok sane s \<Longrightarrow> rlc_touches sane ue s (nr_rlc_set_rlf_handler ue h s)"
  using rlc_set_ue_touches rlc_get_ue(3,4) by (fastforce simp: nr_rlc_set_rlf_handler_def split: prod.splits)

lemma get_ue_fst_touches: "rlc_ok sane s \<Longrightarrow> nr_rlc_manager_get_ue s ue = (s', i) \<Longrightarrow> rlc_touches sane ue s s'"
  using rlc_get_ue(1) .

lemma avg_time_touches:
  assumes ok: "rlc_ok sane s"
  shows "rlc_touches sane ue s (nr_rlc_activate_avg_time_to_tx ue lc b s)"
proof -
  obtain s1 i where g: "nr_rlc_manager_get_ue s ue = (s1, i)" by (cases "nr_rlc_manager_get_ue s ue")
  note gr = rlc_get_ue[OF ok g]
  let ?u = "rs_ue_list s1 ! i"
  consider "nr_rlc_activate_avg_time_to_tx ue lc b s = s1"
    | sl e where "avg_time_slot lc = Some sl" "slot_entity ?u sl = Some e"
      "nr_rlc_activate_avg_time_to_tx ue lc b s = set_rlc_ue i (put_slot ?u sl (Some (ent_set_avg_time b e))) s1"
    using g by (cases "avg_time_slot lc"; cases "slot_entity ?u (the (avg_time_slot lc))")
      (auto simp: nr_rlc_activate_avg_time_to_tx_def Let_def)
  then show ?thesis
  proof cases
    case 2
    have sl: "slot_valid sl" using 2(1) by (auto simp: avg_time_slot_def split: if_splits)
    then have "rlc_ue_ok sane (put_slot ?u sl (Some (ent_set_avg_time b e)))"
      using put_bearer_ok[OF gr(4) sl, of "Some (ent_set_avg_time b e)"] bearer_set_avg_time[OF slot_entity_ok[OF gr(4) sl 2(2)]] by blast
    then show ?thesis using rlc_set_ue_touches[OF ok g] gr(3) 2(3) by simp
  qed (use gr(1) in simp)
qed

lemma statistics_touches:
  "rlc_ok sane s \<Longrightarrow> nr_rlc_get_statistics ue srb rb t s = Inr (s', x) \<Longrightarrow> rlc_touches sane ue s s'"
  by (auto simp: nr_rlc_get_statistics_def Let_def bindE_eq_Inr split: prod.splits option.splits dest: get_ue_fst_touches)

text \<open>A UE gets a new identifier.\<close>

lemma update_id_touches:
  assumes ok: "rlc_ok sane s" and new: "a = b \<or> rlc_ue_of s b = None"
  shows "rlc_ok sane (nr_rlc_update_id a b s)" and "k \<notin> {a, b} \<Longrightarrow> rlc_ue_of (nr_rlc_update_id a b s) k = rlc_ue_of s k"
proof -
  obtain s1 i where g: "nr_rlc_manager_get_ue s a = (s1, i)" by (cases "nr_rlc_manager_get_ue s a")
  note gr = rlc_get_ue[OF ok g]
  let ?l = "rs_ue_list s1"
  let ?u = "reestablish_slot (Slot_Srb 0) ((?l ! i)\<lparr>ru_id := b\<rparr>)"
  have s': "nr_rlc_update_id a b s = set_rlc_ue i ?u s1" using g by (simp add: nr_rlc_update_id_def)
  have u: "rlc_ue_ok sane ?u" "ru_id ?u = b" using reestablish_slot_ok[of "Slot_Srb 0" sane "(?l ! i)\<lparr>ru_id := b\<rparr>"] gr(4) by simp_all
  have "a = b \<or> rlc_ue_of s1 b = None" using new gr(1) by (auto simp: rlc_touches_def)
  then have "ru_id ?u = ru_id (?l ! i) \<or> ru_id ?u \<notin> ru_id ` set ?l" using u(2) gr(3) by (auto simp: lookup_None)
  from rekey_inv[where key = ru_id and ok = "rlc_ue_ok sane" and l = ?l and i = i, OF _ gr(2) u(1) this] show "rlc_ok sane (nr_rlc_update_id a b s)"
    unfolding s' using rlc_touches_ok[OF gr(1)] by (simp add: rlc_ok_def set_rlc_ue_def)
  show "rlc_ue_of (nr_rlc_update_id a b s) k = rlc_ue_of s k" if "k \<notin> {a, b}"
    unfolding s' using lookup_update_other[OF gr(2), where key = ru_id and k = k and e = ?u] gr(1,3) u(2) that
    by (simp add: set_rlc_ue_def rlc_touches_def)
qed

section \<open>Reachable states\<close>

text \<open>What one call does to the whole state.\<close>

lemma exec_call_step:
  assumes ok: "rlc_ok sane s" and al: "call_allowed sane s c" and r: "exec_call f1 c s = Inr (s', out)"
  shows "rlc_ok sane s' \<and> (\<forall>k. k \<notin> call_ues c \<longrightarrow> rlc_ue_of s' k = rlc_ue_of s k)
    \<and> list_all (\<lambda>x. \<exists>ue \<in> call_ues c. out_about f1 ue x) out"
proof -
  have one: ?thesis if "rlc_touches sane ue s s' \<and> list_all (out_about f1 ue) out" "call_ues c = {ue}" for ue
    using that by (auto simp: rlc_touches_def elim: list.pred_mono_strong)
  have q: ?thesis if "rlc_touches sane ue s s'" "out = []" "call_ues c = {ue}" for ue
    using that one[of ue] by simp
  note d = drop_value_def silent_def map_res_def bindE_eq_Inr
  show ?thesis
  proof (cases c)
    case (Call_Mac_Data_Ind ue lc buf)
    then show ?thesis using one[of "uint ue"] r al mac_data_ind_touches[OF ok, of ue lc buf f1 s' out] by (auto simp: d)
  next
    case (Call_Mac_Data_Req ue lc buf t)
    then show ?thesis using one[of "uint ue"] r mac_data_req_touches[OF ok, of f1 ue lc buf t s' out] by (auto simp: d)
  next
    case (Call_Mac_Status_Ind ue lc)
    then show ?thesis using one[of "uint ue"] r mac_status_ind_touches[OF ok, of f1 ue lc s' out] by (auto simp: d)
  next
    case (Call_Data_Req ue srb rb mui sdu t)
    then show ?thesis using one[of "int_of_u64 ue"] r rlc_data_req_touches[OF ok, of f1 ue srb rb mui sdu t s' out] by (auto simp: d)
  next
    case (Call_Srb_Recv_Sdu ue lc sdu t)
    then show ?thesis using one[of ue] r srb_recv_sdu_touches[OF ok, of f1 ue lc sdu t s' out] by (auto simp: d)
  next
    case (Call_Tx_Space ue lc)
    then show ?thesis using one[of ue] r tx_space_touches[OF ok, of f1 ue lc s' out] by (auto simp: d)
  next
    case (Call_Reestablish ue lc)
    then show ?thesis using one[of ue] r reestablish_touches[OF ok, of f1 ue lc s' out] by (auto simp: d)
  next
    case (Call_Set_Rlf_Handler ue h)
    then show ?thesis using q[of ue] r set_rlf_touches[OF ok, of ue h] by auto
  next
    case (Call_Release ue lc)
    then show ?thesis using q[of ue] r release_touches[OF ok, of ue lc s'] by (auto simp: d)
  next
    case (Call_Reconfigure ue lc cfg)
    then show ?thesis using q[of ue] r al reconfigure_touches[OF ok, of ue lc cfg s'] by (auto simp: d)
  next
    case (Call_Add_Srb ue srb cf)
    then show ?thesis using q[of ue] r rlc_add_srb_touches[OF ok, of ue srb cf s'] by (auto simp: d)
  next
    case (Call_Add_Drb ue drb cf)
    then show ?thesis using q[of ue] r rlc_add_drb_touches[OF ok, of ue drb cf s'] by (auto simp: d)
  next
    case (Call_Activate_Srb0 ue)
    then show ?thesis using q[of ue] r activate_srb0_touches[OF ok, of ue s'] by (auto simp: d)
  next
    case (Call_Remove_Ue ue)
    then show ?thesis using q[of ue] r rlc_remove_ue(1)[OF ok, of ue] by (auto simp: nr_rlc_remove_ue_def)
  next
    case (Call_Update_Id a b)
    then show ?thesis using r al update_id_touches[OF ok, of a b] by auto
  next
    case (Call_Trigger_Reestablishment ue)
    then show ?thesis using q[of ue] r trigger_touches[OF ok, of ue s'] by (auto simp: d)
  next
    case Call_Ms_Tick
    then show ?thesis using r ok by (auto simp: nr_rlc_ms_tick_def rlc_ok_def)
  next
    case (Call_Avg_Time ue lc b)
    then show ?thesis using q[of ue] r avg_time_touches[OF ok, of ue lc b] by auto
  next
    case (Call_Statistics ue srb rb t)
    then show ?thesis using q[of ue] r statistics_touches[OF ok, of ue srb rb t s'] by (auto simp: d)
  next
    case (Call_Get_Lcid ue srb rb)
    then show ?thesis using q[of ue] r get_ue_fst_touches[OF ok, of ue]
      by (auto simp: nr_rlc_get_lcid_from_rb_def Let_def split: prod.splits)
  qed
qed

lemma rlc_reach_ok: "rlc_reach f1 sane s \<Longrightarrow> rlc_ok sane s"
proof (induction rule: rlc_reach.induct)
  case (rlc_start mode)
  then show ?case by (simp add: new_nr_rlc_ue_manager_def rlc_ok_def keyed_inv_def)
next
  case (rlc_step s c s' out)
  then show ?case using exec_call_step by blast
qed

end
