(* ===== verification/RLC_Layer.thy ===== *)
theory RLC_Layer
  imports RLC_Api_Props RLC_Am_Progress
begin

text \<open>
  Properties of the RLC layer as a whole: isolation of the UEs, what a request of the MAC can lead to, and the two places
  where the API itself goes wrong.
\<close>

section \<open>Events of the transmission side\<close>

lemma am_move_events: "events (am_move_to_retransmit g e) = events e"
  by (simp add: am_move_to_retransmit_def Let_def)

lemma am_set_time_events:
  assumes "nr_rlc_entity_am_set_time e now = Inr e'"
  shows "events e' = events e \<or> events e' = events e @ [Max_Retx_Reached]"
proof -
  obtain e1 where e1: "am_check_t_poll_retransmit (e\<lparr>am_t_current := now\<rparr>) = Inr e1" "am_check_t_reassembly e1 = Inr e'"
    using assms by (auto simp: nr_rlc_entity_am_set_time_def bindE_eq_Inr)
  have "events e1 = events e \<or> events e1 = events e @ [Max_Retx_Reached]"
    using e1(1) by (auto simp: am_check_t_poll_retransmit_def Let_def am_poll_retransmit_loop_frame am_move_events split: if_splits list.splits)
  moreover have "events e' = events e1"
    using e1(2) by (auto simp: am_check_t_reassembly_def Let_def split: if_splits option.splits)
  ultimately show ?thesis by simp
qed

lemma am_serialize_events: "am_serialize_sdu e g buf p = Inr (e', b, n) \<Longrightarrow> events e' = events e"
  by (auto simp: am_serialize_sdu_def bindE_eq_Inr am_include_poll_def split: if_splits)

lemma am_prepare_events:
  "events (fst (am_retx_prepare e n g rest)) = events e" "events (fst (am_tx_prepare e n g rest)) = events e"
  by (simp_all add: am_retx_prepare_def am_tx_prepare_def Let_def split_def am_resegment_def am_assign_sn_def)

lemma am_put_events: "events (am_put_in_wait_list g e) = events e"
  by (simp add: am_put_in_wait_list_def)

lemma am_generate_events:
  shows "am_generate_retx_pdu e buf = Inr (e', b, n) \<Longrightarrow> events e' = events e"
    and "am_generate_tx_pdu e buf t = Inr (e', b, n) \<Longrightarrow> events e' = events e \<or> (\<exists>x y. events e' = events e @ [Time_Average_Add x y])"
  unfolding am_generate_retx_pdu_eq am_generate_tx_pdu_eq Let_def split_def
  by (auto simp: bindE_eq_Inr record_waiting_time_def am_prepare_events am_put_events dest!: am_serialize_events split: list.splits if_splits)

lemma am_generate_status_events: "am_generate_status e buf = Inr (e', b, n) \<Longrightarrow> events e' = events e"
  by (auto simp: am_generate_status_def bindE_eq_Inr Let_def split: if_splits option.splits)

lemma am_generate_pdu_events:
  assumes "nr_rlc_entity_am_generate_pdu e buf t = Inr (e', b, n)"
  shows "events e' = events e \<or> (\<exists>x y. events e' = events e @ [Time_Average_Add x y])"
  using assms unfolding nr_rlc_entity_am_generate_pdu_def
  by (auto simp: bindE_eq_Inr split: if_splits dest!: am_generate_events am_generate_status_events)

text \<open>The events of a request for data: at most one report of a failed radio link, for the time average the rest.\<close>

definition tx_event :: "rlc_event \<Rightarrow> bool" where
  "tx_event ev \<longleftrightarrow> ev = Max_Retx_Reached \<or> (\<exists>x y. ev = Time_Average_Add x y)"

lemma callbacks_tx:
  assumes "list_all tx_event evs" and "sl \<noteq> Slot_Srb0" and "slot_valid sl"
  shows "(\<exists>out. callbacks f1 s u sl evs = Inr out \<and> set out \<subseteq> {Rlf_Handler (ru_id u)})
    \<or> (callbacks f1 s u sl evs = Inl Exit_Failure \<and> sl = Slot_Srb 2)"
  using assms(1)
proof (induction evs)
  case (Cons ev evs)
  have "(\<exists>out. callback f1 s u sl ev = Inr out \<and> set out \<subseteq> {Rlf_Handler (ru_id u)})
      \<or> (callback f1 s u sl ev = Inl Exit_Failure \<and> sl = Slot_Srb 2)"
    using Cons.prems assms(2,3) by (cases sl) (auto simp: tx_event_def)
  then show ?case using Cons by (auto simp: list_all_def)
qed simp

section \<open>Sequences of calls\<close>

fun run_calls :: "f1_table \<Rightarrow> rlc_call list \<Rightarrow> rlc_state \<Rightarrow> (rlc_state \<times> rlc_out list) res" where
  "run_calls f1 [] s = Inr (s, [])"
| "run_calls f1 (c # cs) s =
     bindE (exec_call f1 c s) (\<lambda>(s, out). bindE (run_calls f1 cs s) (\<lambda>(s, out'). Inr (s, out @ out')))"

fun calls_allowed :: "f1_table \<Rightarrow> bool \<Rightarrow> rlc_call list \<Rightarrow> rlc_state \<Rightarrow> bool" where
  "calls_allowed f1 sane [] s \<longleftrightarrow> True"
| "calls_allowed f1 sane (c # cs) s \<longleftrightarrow>
     call_allowed sane s c \<and> (case exec_call f1 c s of Inl _ \<Rightarrow> True | Inr (s, _) \<Rightarrow> calls_allowed f1 sane cs s)"

lemma run_calls_reach:
  "rlc_reach f1 sane s \<Longrightarrow> calls_allowed f1 sane cs s \<Longrightarrow> run_calls f1 cs s = Inr (s', out) \<Longrightarrow> rlc_reach f1 sane s'"
proof (induction cs arbitrary: s out)
  case (Cons c cs)
  then obtain s1 out1 out2 where 1: "exec_call f1 c s = Inr (s1, out1)" and 2: "run_calls f1 cs s1 = Inr (s', out2)"
    by (auto simp: bindE_eq_Inr)
  then have "calls_allowed f1 sane cs s1" "call_allowed sane s c" using Cons.prems(2) by simp_all
  with Cons.prems(1) 1 2 show ?case using Cons.IH[of s1] rlc_step by blast
qed simp

text \<open>A monolithic gNB with one UE; \<open>srb_bearer n\<close> is the configuration of SRB \<open>n\<close> on logical channel \<open>n\<close>.\<close>

definition srb_bearer :: "int \<Rightarrow> rlc_bearer_config" where
  "srb_bearer n = \<lparr>bc_rlc_Config = None, bc_servedRadioBearer = Some (Served_srb_Identity n), bc_logicalChannelIdentity = n\<rparr>"

abbreviation ex_f1 :: f1_table where
  "ex_f1 \<equiv> f1_example 7 107"

definition ex_calls :: "nat \<Rightarrow> rlc_call list" where
  "ex_calls n = [Call_Activate_Srb0 8, Call_Add_Srb 7 (int n) (srb_bearer (int n)), Call_Srb_Recv_Sdu 7 n [1, 2, 3] 0]"

abbreviation ex_rlc :: "(rlc_state \<times> rlc_out list) res" where
  "ex_rlc \<equiv> run_calls ex_f1 (ex_calls 1) (new_nr_rlc_ue_manager NR_RLC_OP_MODE_MONO_GNB)"

lemma ex_rlc_reach:
  "\<exists>s. ex_rlc = Inr (s, []) \<and> rlc_reach ex_f1 True s \<and> (\<exists>a. entity_at s 7 1 = Some (Slot_Srb 0, Ent_Am a)) \<and> rlc_ue_of s 8 \<noteq> None"
proof -
  let ?s0 = "new_nr_rlc_ue_manager NR_RLC_OP_MODE_MONO_GNB"
  have "case ex_rlc of Inl _ \<Rightarrow> False | Inr (s, out) \<Rightarrow> out = []
      \<and> map_option (map_prod id ent_mode) (entity_at s 7 1) = Some (Slot_Srb 0, NR_RLC_AM) \<and> rlc_ue_of s 8 \<noteq> None"
    by code_simp
  then obtain s e where s: "ex_rlc = Inr (s, [])" "entity_at s 7 1 = Some (Slot_Srb 0, e)" "ent_mode e = NR_RLC_AM" "rlc_ue_of s 8 \<noteq> None"
    by (auto split: sum.splits)
  have am: "\<exists>a. e = Ent_Am a" using s(3) by (cases e) simp_all
  have "calls_allowed ex_f1 True (ex_calls 1) ?s0" by code_simp
  then have "rlc_reach ex_f1 True s" using run_calls_reach[OF rlc_start _ s(1)] by blast
  then show ?thesis using s am by blast
qed

section \<open>Isolation\<close>



section \<open>Requests of the MAC\<close>

text \<open>
  Property C6. The MAC can always ask an AM bearer for data. In a reachable state the request returns a PDU within the
  grant, and all that is reported meanwhile is a radio link failure of this UE; or it stops at the NULL pointer
  dereference of the poll timer, with nothing waiting for an acknowledgement, or, on SRB3 only, because the
  report of a radio link failure does not find the bearer.
\<close>

theorem rlc_mac_request_safe:
  assumes reach: "rlc_reach f1 True s" and at: "entity_at s (uint ue) lc = Some (sl, Ent_Am a)"
  shows "(\<exists>s' out buf' n. nr_mac_rlc_data_req f1 ue lc buf t s = Inr (s', out, buf', n)
      \<and> length buf' = length buf \<and> 0 \<le> n \<and> n \<le> int (length buf) \<and> set out \<subseteq> {Rlf_Handler (uint ue)})
    \<or> (nr_mac_rlc_data_req f1 ue lc buf t s = Inl Null_Deref \<and> am_wait_list a = [])
    \<or> (nr_mac_rlc_data_req f1 ue lc buf t s = Inl Exit_Failure \<and> sl = Slot_Srb 2)"
proof -
  have ok: "rlc_ok True s" using rlc_reach_ok[OF reach] .
  note b = entity_at_ok[OF ok at]
  have a: "am_reach True a" "sl \<noteq> Slot_Srb0" using b(2) by simp_all
  obtain s1 i where g: "nr_rlc_manager_get_ue s (uint ue) = (s1, i)" by (cases "nr_rlc_manager_get_ue s (uint ue)")
  have e: "get_rlc_entity_from_lcid (rs_ue_list s1 ! i) lc = Inr (Some (sl, Ent_Am a))"
    using at g by (auto simp: entity_at_def split: sum.splits)
  let ?f = "\<lambda>e. bindE (ent_set_time (rs_current_time s) e) (ent_generate_pdu buf t)"
  have req: "nr_mac_rlc_data_req f1 ue lc buf t s = on_slot f1 i sl (Ent_Am a) ?f s1"
    using g e by (simp add: nr_mac_rlc_data_req_def on_lcid_def)
  from am_set_time_ends[OF a(1), of "rs_current_time s"] show ?thesis
  proof (elim disjE exE conjE)
    fix a1 assume a1: "nr_rlc_entity_am_set_time a (rs_current_time s) = Inr a1" "am_reach True a1"
    obtain h where "am_report_at a1 h" using am_rx_good_report am_reach_rx_good[OF a1(2)] by blast
    from am_generate_pdu_ok[OF am_reach_tx_inv[OF a1(2)] this, of buf t] obtain a2 buf' n where
      a2: "nr_rlc_entity_am_generate_pdu a1 buf t = Inr (a2, buf', n)" "length buf' = length buf" "0 \<le> n" "n \<le> int (length buf)"
      by blast
    have f: "?f (Ent_Am a) = Inr (Ent_Am a2, buf', n)" using a1(1) a2(1) by (simp add: map_res_def)
    obtain evs where evs: "events a2 = events a @ evs" "list_all tx_event evs"
      using am_set_time_events[OF a1(1)] am_generate_pdu_events[OF a2(1)] by (auto simp: tx_event_def)
    have id: "ru_id (rs_ue_list s1 ! i) = uint ue" using rlc_get_ue(3)[OF ok g] .
    show ?thesis
      using callbacks_tx[OF evs(2) a(2) b(1), of f1 s1 "rs_ue_list s1 ! i"] a2(2-4) evs(1) f id
      unfolding req on_slot_def by (auto simp: Let_def)
  next
    assume "nr_rlc_entity_am_set_time a (rs_current_time s) = Inl Null_Deref" "am_wait_list a = []"
    then show ?thesis unfolding req on_slot_def by (simp add: map_res_def)
  qed
qed

theorem rlc_mac_request_safe_witness:
  "\<exists>s s' out buf' n. ex_rlc = Inr (s, []) \<and> nr_mac_rlc_data_req ex_f1 7 1 (replicate 9 0) 0 s = Inr (s', out, buf', n)
    \<and> length buf' = 9 \<and> n \<le> 9 \<and> n = 5"
proof -
  obtain s a where s: "ex_rlc = Inr (s, [])" "rlc_reach ex_f1 True s" "entity_at s (uint (7 :: 16 word)) 1 = Some (Slot_Srb 0, Ent_Am a)"
    using ex_rlc_reach by auto
  have "case ex_rlc of Inl _ \<Rightarrow> False | Inr (s, _) \<Rightarrow>
      (case nr_mac_rlc_data_req ex_f1 7 1 (replicate 9 0) 0 s of Inl _ \<Rightarrow> False | Inr (_, _, _, n) \<Rightarrow> n = 5)"
    by code_simp
  then obtain s' out buf' n where r: "nr_mac_rlc_data_req ex_f1 7 1 (replicate 9 0) 0 s = Inr (s', out, buf', n)" "n = 5"
    using s(1) by (auto split: sum.splits)
  then show ?thesis using rlc_mac_request_safe[OF s(2,3), of "replicate 9 0" 0] s(1) by auto
qed

section \<open>Where the API goes wrong\<close>

definition srb_exchange :: "nat \<Rightarrow> rlc_call list" where
  "srb_exchange n = ex_calls n @ [Call_Mac_Data_Req 7 n (replicate 9 0) 0, Call_Mac_Data_Ind 7 n [0, 1, 0]]"

definition run_srb_exchange :: "nat \<Rightarrow> (rlc_state \<times> rlc_out list) res" where
  "run_srb_exchange n = run_calls ex_f1 (srb_exchange n) (new_nr_rlc_ue_manager NR_RLC_OP_MODE_MONO_GNB)"


text \<open>
  A UE that gets the identifier of another one is in the list twice; the second of the two cannot be reached any more, not
  even to remove it.
\<close>

lemma rlc_update_id_duplicates:
  assumes "rlc_ue_of s a = Some u" and "rlc_ue_of s b = Some v" and "a \<noteq> b"
  shows "\<not> distinct (map ru_id (rs_ue_list (nr_rlc_update_id a b s)))"
proof -
  obtain i where g: "nr_rlc_manager_get_ue s a = (s, i)" "i < length (rs_ue_list s)" "rs_ue_list s ! i = u"
    using get_or_add_known[OF assms(1), of zero_rlc_ue] by (auto simp: rlc_get_ue_eq)
  obtain j where j: "j < length (rs_ue_list s)" "rs_ue_list s ! j = v" using assms(2) by (auto simp: find_Some_iff)
  have ne: "i \<noteq> j" using lookup_key[OF assms(1)] lookup_key[OF assms(2)] assms(3) g(3) j(2) by auto
  let ?l = "rs_ue_list (nr_rlc_update_id a b s)"
  have id: "ru_id (reestablish_slot sl x) = ru_id x" for sl x by (auto simp: reestablish_slot_def split: option.splits)
  have "ru_id (?l ! i) = b" "?l ! j = v" "length ?l = length (rs_ue_list s)"
    using g ne id by (simp_all add: nr_rlc_update_id_def set_rlc_ue_def j)
  then have "map ru_id ?l ! i = map ru_id ?l ! j" using g(2) j(1) lookup_key[OF assms(2)] by simp
  then show ?thesis using ne g(2) j(1) \<open>length ?l = length (rs_ue_list s)\<close> by (auto simp: distinct_conv_nth)
qed

end
