(* ===== verification/RLC_Link.thy ===== *)
theory RLC_Link
  imports RLC_Layer RLC_Am_Link RLC_Am_Service
begin

text \<open>
  Two RLC layers and the MAC between them: an SDU given to an idle AM bearer of one node comes out of the bearer of the
  other node.
\<close>

section \<open>Idle AM entities\<close>

text \<open>No timer runs, no status is due, nothing is queued or unacknowledged.\<close>

definition am_quiet :: "nr_rlc_entity_am_t \<Rightarrow> bool" where
  "am_quiet e \<longleftrightarrow> am_t_poll_retransmit_start e = 0 \<and> am_t_reassembly_start e = 0 \<and> \<not> am_status_triggered e
     \<and> am_tx_list e = [] \<and> am_wait_list e = [] \<and> am_retransmit_list e = [] \<and> \<not> am_is_window_stalling e"

lemma am_set_time_quiet:
  "am_t_poll_retransmit_start e = 0 \<Longrightarrow> am_t_reassembly_start e = 0 \<Longrightarrow> nr_rlc_entity_am_set_time e now = Inr (e\<lparr>am_t_current := now\<rparr>)"
  by (simp add: nr_rlc_entity_am_set_time_def am_check_t_poll_retransmit_def am_check_t_reassembly_def)

text \<open>A segment with the bytes of a whole SDU that has no SN yet.\<close>

definition am_fresh_seg :: "nr_rlc_entity_am_t \<Rightarrow> nr_rlc_sdu_segment_t \<Rightarrow> buffer \<Rightarrow> bool" where
  "am_fresh_seg e g sdu \<longleftrightarrow> seg_so g = 0 \<and> seg_size g = int (length sdu) \<and> seg_is_first g \<and> seg_is_last g
     \<and> am_seg_sn e g = -1 \<and> sdu_data (sdu_at (store e) g) = sdu"

lemma am_recv_sdu_quiet:
  assumes q: "am_quiet e" and sz: "int (length sdu) \<le> NR_SDU_MAX" and fit: "int (length sdu) \<le> nr_rlc_entity_am_available_tx_space e"
  shows "\<exists>e' g. nr_rlc_entity_am_recv_sdu e sdu i t = Inr e' \<and> am_tx_list e' = [g] \<and> am_fresh_seg e' g sdu
    \<and> am_t_poll_retransmit_start e' = 0 \<and> am_t_reassembly_start e' = 0 \<and> \<not> am_status_triggered e'
    \<and> am_wait_list e' = [] \<and> am_retransmit_list e' = [] \<and> \<not> am_is_window_stalling e'
    \<and> am_tx_next e' = am_tx_next e \<and> am_sn_field_length e' = am_sn_field_length e \<and> events e' = events e"
proof -
  obtain st g where new: "nr_rlc_new_sdu (store e) sdu i = (st, g)" by force
  define e1 where "e1 = (am_log_rejected (upd_stats (\<lambda>s. s\<lparr>rxsdu_pkts := rxsdu_pkts s + 1\<rparr>) e))
     \<lparr>am_tx_size := am_tx_size e + int (length sdu)\<rparr>"
  define e2 where "e2 = (upd_stats (\<lambda>s. s\<lparr>rxsdu_bytes := rxsdu_bytes s + word_of_int (int (length sdu))\<rparr>) e1)
     \<lparr>store := st, am_tx_list := am_tx_list e @ [g]\<rparr>"
  define e3 where "e3 = stamp_arrival t g (add_bs_tx (am_compute_pdu_header_size e2 g + seg_size g) e2)"
  have res: "nr_rlc_entity_am_recv_sdu e sdu i t = Inr e3"
    using sz fit new
    by (simp add: nr_rlc_entity_am_recv_sdu_def Let_def nr_rlc_entity_am_available_tx_space_def e3_def e2_def e1_def
        nr_rlc_sdu_segment_list_append_def)
  have fr: "am_tx_list e3 = am_tx_list e @ [g]" "am_wait_list e3 = am_wait_list e" "am_retransmit_list e3 = am_retransmit_list e"
    "am_t_poll_retransmit_start e3 = am_t_poll_retransmit_start e" "am_t_reassembly_start e3 = am_t_reassembly_start e"
    "am_status_triggered e3 = am_status_triggered e" "am_tx_next e3 = am_tx_next e" "am_sn_field_length e3 = am_sn_field_length e"
    "am_tx_next_ack e3 = am_tx_next_ack e" "am_window_size e3 = am_window_size e" "am_sn_modulus e3 = am_sn_modulus e" "events e3 = events e"
    by (simp_all add: e3_def e2_def e1_def upd_stats_def am_log_rejected_def add_bs_tx_def stamp_arrival_def)
  have "am_is_window_stalling e3 = am_is_window_stalling e"
    using fr by (simp add: am_is_window_stalling_def am_sn_compare_tx_def am_modulus_tx_def Let_def)
  moreover have "am_fresh_seg e3 g sdu"
    using new by (auto simp: am_fresh_seg_def e3_def e2_def stamp_arrival_def add_bs_tx_def am_seg_sn_def sdu_at_def sdu_upd_def
        nr_rlc_new_sdu_def Let_def)
  ultimately show ?thesis using res fr q by (auto simp: am_quiet_def)
qed

text \<open>A grant that is large enough takes the whole SDU, with the next SN.\<close>

lemma am_generate_whole:
  assumes reach: "am_reach True e" and l: "am_tx_list e = [g]" "am_wait_list e = []" "am_retransmit_list e = []"
    and w: "\<not> am_is_window_stalling e" "\<not> am_status_triggered e" and g: "am_fresh_seg e g sdu" "0 < length sdu"
    and n: "length sdu + 3 \<le> length buf"
  shows "\<exists>e' buf' n. nr_rlc_entity_am_generate_pdu e buf t = Inr (e', buf', n) \<and> 0 < n \<and> n \<le> int (length buf')
    \<and> am_sent e' buf' n \<and> am_wait_list e' = [g] \<and> am_seg_sn e' g = am_tx_next e \<and> seg_bytes (store e') g = sdu"
proof -
  have inv: "am_tx_inv e" by (rule am_reach_tx_inv[OF reach])
  have hd: "am_compute_pdu_header_size e g \<le> 3" using g by (auto simp: am_compute_pdu_header_size_def am_fresh_seg_def)
  have fit: "am_compute_pdu_header_size e g + seg_size g \<le> int (length buf)" using hd n g(1) by (simp add: am_fresh_seg_def)
  have st: "\<not> am_status_to_report e" using w(2) by (simp add: am_status_to_report_def)
  obtain h where rep: "am_report_at e h" using am_rx_good_report am_reach_rx_good[OF reach] by blast
  obtain e' buf' m where r: "nr_rlc_entity_am_generate_pdu e buf t = Inr (e', buf', m)" "length buf' = length buf" "m \<le> int (length buf)"
      "m = 0 \<or> am_sent e' buf' m"
    using am_generate_pdu_ok[OF inv rep, of buf t] st by blast
  define e0 where "e0 = am_assign_sn g (add_bs_tx (- (am_compute_pdu_header_size e g + seg_size g)) (e\<lparr>am_tx_list := []\<rparr>))"
  have pr: "am_tx_prepare e (int (length buf)) g [] = (e0, g)" using fit by (simp add: am_tx_prepare_def Let_def e0_def)
  have h1: "am_compute_pdu_header_size e g + 1 \<le> int (length buf)" using hd n g(2) by linarith
  note ok = am_tx_prepare_ok[OF inv l(1) h1 pr]
  have w0: "am_wait_list e0 = []" using l(2) by (simp add: e0_def am_assign_sn_def add_bs_tx_def)
  let ?w = "am_put_in_wait_list g e0"
  have put: "?w = e0\<lparr>am_wait_list := [g]\<rparr>" using w0 by (simp add: am_put_in_wait_list_def nr_rlc_sdu_segment_list_append_def)
  let ?w1 = "?w\<lparr>am_pdu_without_poll := am_pdu_without_poll ?w + 1, am_byte_without_poll := am_byte_without_poll ?w + seg_size g\<rparr>"
  let ?h = "\<lambda>ret e. record_waiting_time t g (upd_stats (count_txpdu ret) e)"
  have "\<exists>e' buf' n. bindE (am_serialize_sdu (?w1\<lparr>am_force_poll := False\<rparr>) g buf p)
      (\<lambda>(e, buf, ret). Inr (?h ret e, buf, ret)) = Inr (e', buf', n)
      \<and> 0 < n \<and> tx_part e' = tx_part (?w1\<lparr>am_force_poll := False\<rparr>)" for p
  proof (rule am_send_prepared(2))
    show "rx_part (?w1\<lparr>am_force_poll := False\<rparr>) = rx_part e0" "events (?w1\<lparr>am_force_poll := False\<rparr>) = events e0"
      using am_put_in_wait_list_frame[of g e0] by (simp_all add: rx_part_def)
  qed (use ok in \<open>simp_all add: tx_part_def rx_part_def upd_stats_def record_waiting_time_def emit_def\<close>)
  then have "\<exists>e' buf' n. am_generate_tx_pdu e buf t = Inr (e', buf', n) \<and> 0 < n \<and> tx_part e' = tx_part (?w1\<lparr>am_force_poll := False\<rparr>)"
    using l w(1) h1 pr by (simp add: am_generate_tx_pdu_eq Let_def)
  then have t: "0 < m" "tx_part e' = tx_part (?w1\<lparr>am_force_poll := False\<rparr>)"
    using r(1) st l(3) by (auto simp: nr_rlc_entity_am_generate_pdu_def)
  have sn: "am_seg_sn e g = -1" "sdu_data (sdu_at (store e) g) = sdu" "seg_so g = 0" "seg_size g = int (length sdu)"
    using g(1) by (simp_all add: am_fresh_seg_def)
  have live: "sdus (store e) (seg_sdu g) \<noteq> None" using am_seg_live[OF inv, of g] l(1) by (auto simp: am_segs_def)
  have "am_wait_list e' = am_wait_list ?w" "store e' = store ?w" using t(2) by (simp_all add: tx_part_def)
  then have "am_wait_list e' = [g]" "store e' = store e0" unfolding put by simp_all
  moreover have "store e0 = sdu_upd (store e) g (\<lambda>s. s\<lparr>sdu_sn := am_tx_next e\<rparr>)"
    using sn(1) by (simp add: e0_def am_assign_sn_def add_bs_tx_def am_seg_sn_def)
  ultimately have "am_wait_list e' = [g]" "am_seg_sn e' g = am_tx_next e" "seg_bytes (store e') g = sdu"
    using sn(2-) live by (auto simp: am_seg_sn_def seg_bytes_def sdu_at_def sdu_upd_def)
  then show ?thesis using r t(1) by auto
qed

text \<open>A receiver that has nothing and waits for this SN delivers the SDU at once.\<close>

lemma am_recv_whole:
  assumes good: "am_rx_good r" and empty: "\<And>x. rx_lookup (am_rx r) x = []" and room: "am_rx_size r + int (length sdu) \<le> am_rx_maxsize r"
    and sdu: "0 < length sdu" "int (length sdu) \<le> NR_SDU_MAX" and buf: "drop hdr buf = sdu"
  shows "\<exists>r'. am_recv_data r buf hdr p True True (am_rx_next r) 0 = Inr r' \<and> events r' = events r @ [Deliver_Sdu sdu]"
proof -
  have inv: "am_rx_inv r" using good by (simp add: am_rx_good_def)
  let ?sn = "am_rx_next r" and ?p = "nr_rlc_new_pdu (am_rx_next r) 0 True True (drop hdr buf)" and ?D = "\<lambda>_ :: int. sdu"
  note d = am_rx_invD[OF inv]
  have win: "sn_in_window ?sn (am_window_size r) ?sn" "1 < am_window_size r" "0 \<le> ?sn" "?sn < am_sn_modulus r"
    using good d by (auto simp: am_rx_good_def am_rx_inv_def sn_in_window_def)
  have len: "int (length buf) - int hdr = int (length sdu)" using arg_cong[OF buf, of length] sdu(1) unfolding length_drop by linarith
  have hon: "rx_honest ?D (am_rx r)" by (simp add: rx_honest_def empty)
  have pd: "pdu_sn ?p = ?sn" "pdu_size ?p = int (length sdu)" "piece_of sdu ?p"
    using sdu(1) buf by (simp_all add: nr_rlc_new_pdu_def piece_of_def)
  have nd: "\<not> am_sdu_delivered r x" for x by (simp add: am_sdu_delivered_def pdus_processed_def empty)
  have room': "am_rx_size r + pdu_size ?p \<le> am_rx_maxsize r" using room pd by simp
  note st = am_stored_honest[OF inv hon, of ?p, unfolded pd(1), OF sdu(1) pd(3) win(1) room' nd]
  have other: "am_other_open r ?sn"
  proof -
    let ?W = "am_window_size r"
    have m: "am_sn_modulus r = 2 * ?W" using d by simp
    have "sn_in_window ?sn ?W (if ?sn + 1 = 2 * ?W then 0 else ?sn + 1)"
    proof (cases "?sn + 1 = 2 * ?W")
      case True
      then have "0 - ?sn = 1 + (- 1) * (2 * ?W)" by linarith
      then have "(0 - ?sn) mod (2 * ?W) = (1 + (- 1) * (2 * ?W)) mod (2 * ?W)" by (simp only:)
      also have "\<dots> = 1" using win(2) by (subst mod_mult_self1) simp
      finally show ?thesis using True win(2) by (simp add: sn_in_window_def)
    next
      case False
      then show ?thesis using win m by (simp add: sn_in_window_def)
    qed
    then show ?thesis
      unfolding am_other_open_def using nd win(2) by (intro exI[of _ "if ?sn + 1 = 2 * ?W then 0 else ?sn + 1"]) auto
  qed
  have "all_covered (?p # rx_lookup (am_rx r) ?sn) 0 (int (length sdu))"
    using pd(2) by (auto simp: all_covered_def covers_def nr_rlc_new_pdu_def)
  then obtain r1 where r1: "am_reception_actions (am_stored r ?p) ?p = Inr r1" "events r1 = events r @ [Deliver_Sdu sdu]"
    using am_reception_honest[OF st(1,2), of ?p] st(3,4) other win(1) sdu pd(1) by auto
  have "\<not> am_segment_already_received r ?sn 0 (int (length buf) - int hdr)"
    using len sdu(1) by (simp add: am_segment_already_received_def empty)
  moreover have "am_rx_size r + (int (length buf) - int hdr) \<le> am_rx_maxsize r" "0 < int (length buf) - int hdr"
    using room sdu(1) len by simp_all
  ultimately show ?thesis using am_recv_data_stored[OF inv win(1)] r1 by (simp add: Let_def)
qed

section \<open>Calls on a bearer that exists\<close>

lemma entity_at_known:
  assumes ok: "rlc_ok sane s" and at: "entity_at s ue lc = Some (sl, e)"
  obtains i u where "nr_rlc_manager_get_ue s ue = (s, i)" "i < length (rs_ue_list s)" "rs_ue_list s ! i = u" "rlc_ue_of s ue = Some u"
    "ru_id u = ue" "rlc_ue_ok sane u" "get_rlc_entity_from_lcid u lc = Inr (Some (sl, e))" "slot_valid sl" "slot_entity u sl = Some e"
proof (cases "rlc_ue_of s ue")
  case None
  then have "nr_rlc_manager_get_ue s ue = (s\<lparr>rs_ue_list := rs_ue_list s @ [zero_rlc_ue ue]\<rparr>, length (rs_ue_list s))"
    by (simp add: nr_rlc_manager_get_ue_def Let_def lookup_index split: if_splits)
  then have "get_rlc_entity_from_lcid (zero_rlc_ue ue) lc = Inr (Some (sl, e))"
    using at by (auto simp: entity_at_def split: sum.splits)
  from entity_from_lcid[OF this] have "slot_entity (zero_rlc_ue ue) sl = Some e" "slot_valid sl" by auto
  then show ?thesis by (cases sl) (simp_all add: zero_rlc_ue_def)
next
  case (Some u)
  obtain i where i: "nr_rlc_manager_get_ue s ue = (s, i)" "i < length (rs_ue_list s)" "rs_ue_list s ! i = u"
    using get_or_add_known[OF Some, of zero_rlc_ue] by (auto simp: rlc_get_ue_eq)
  have e: "get_rlc_entity_from_lcid u lc = Inr (Some (sl, e))" using at i by (auto simp: entity_at_def split: sum.splits)
  show ?thesis using that[OF i Some _ _ e entity_from_lcid[OF e]] rlc_get_ue(3,4)[OF ok i(1)] i(3) by simp
qed

text \<open>An operation on the entity, its callbacks, and the entity afterwards.\<close>

lemma on_slot_result:
  assumes ok: "rlc_ok sane s" and at: "entity_at s ue lc = Some (sl, e)" and i: "nr_rlc_manager_get_ue s ue = (s, i)"
    and u: "rs_ue_list s ! i = u" and f: "f e = Inr (e', r)" and sl: "sl \<noteq> Slot_Srb0"
    and cb: "callbacks f1 s u sl (drop (length (ent_events e)) (ent_events e')) = Inr out"
  shows "\<exists>s'. on_slot f1 i sl e f s = Inr (s', out, r) \<and> entity_at s' ue lc = Some (sl, e')
    \<and> rs_mode s' = rs_mode s \<and> rs_current_time s' = rs_current_time s"
proof -
  obtain j v where k: "nr_rlc_manager_get_ue s ue = (s, j)" "j < length (rs_ue_list s)" "rs_ue_list s ! j = v" "ru_id v = ue"
      "rlc_ue_ok sane v" "get_rlc_entity_from_lcid v lc = Inr (Some (sl, e))" "slot_valid sl"
    by (rule entity_at_known[OF ok at]) blast
  have [simp]: "j = i" "v = u" using k(1,3) i u by auto
  let ?u = "put_slot u sl (Some e')"
  let ?s = "set_rlc_ue i ?u s"
  have "slot_entity ?u sl = Some e'" using slot_entity_put[OF k(7), of sane u "Some e'" sl] k(5) sl by simp
  moreover have "ru_lcid2rb ?u = ru_lcid2rb u" by (cases sl) simp_all
  then have "lcid_slot ?u lc = lcid_slot u lc" by (simp add: lcid_slot_def)
  ultimately have e': "get_rlc_entity_from_lcid ?u lc = Inr (Some (sl, e'))"
    using k(6) by (auto simp: get_rlc_entity_from_lcid_def bindE_eq_Inr split: option.splits)
  have li: "rs_ue_list ?s = (rs_ue_list s)[i := ?u]" by (simp add: set_rlc_ue_def)
  have "nr_rlc_manager_get_ue ?s ue = (?s, i)"
  proof -
    have idx: "index_of ru_id ue (rs_ue_list s) = i" using i k(2) by (auto simp: nr_rlc_manager_get_ue_def Let_def split: if_splits)
    have "map ru_id (rs_ue_list ?s) = map ru_id (rs_ue_list s)"
      unfolding li using k(2-4) by (metis \<open>j = i\<close> \<open>v = u\<close> list_update_id map_update put_slot_id)
    then have "index_of ru_id ue (rs_ue_list ?s) = i" using idx index_of_map_key by metis
    then show ?thesis using k(2) by (simp add: nr_rlc_manager_get_ue_def li)
  qed
  then have "entity_at ?s ue lc = Some (sl, e')" using e' k(2) by (simp add: entity_at_def li)
  moreover have "on_slot f1 i sl e f s = Inr (?s, out, r)" using f cb u by (simp add: on_slot_def)
  ultimately show ?thesis by (auto simp: set_rlc_ue_def)
qed

lemma on_lcid_result:
  assumes ok: "rlc_ok sane s" and at: "entity_at s ue lc = Some (sl, e)" and u: "rlc_ue_of s ue = Some u"
    and f: "f e = Inr (e', r)" and sl: "sl \<noteq> Slot_Srb0"
    and cb: "callbacks f1 s u sl (drop (length (ent_events e)) (ent_events e')) = Inr out"
  shows "\<exists>s'. on_lcid f1 ue lc none f s = Inr (s', out, r) \<and> entity_at s' ue lc = Some (sl, e')
    \<and> rs_mode s' = rs_mode s \<and> rs_current_time s' = rs_current_time s"
proof -
  obtain i v where k: "nr_rlc_manager_get_ue s ue = (s, i)" "rs_ue_list s ! i = v" "rlc_ue_of s ue = Some v"
      "get_rlc_entity_from_lcid v lc = Inr (Some (sl, e))"
    by (rule entity_at_known[OF ok at]) blast
  have "v = u" using k(3) u by simp
  then show ?thesis using on_slot_result[where f = f, OF ok at k(1,2) f sl] cb k by (simp add: on_lcid_def)
qed

section \<open>From one node to the other\<close>

text \<open>The UE identifier under which the layers above RLC know a UE.\<close>

definition upper_ue_id :: "f1_table \<Rightarrow> rlc_state \<Rightarrow> int \<Rightarrow> u64 res" where
  "upper_ue_id f1 s ue = (if nr_rlc_manager_get_gnb_flag s then cu_ue_id f1 ue else Inr (word_of_int ue))"

lemma deliver_sdu_upper:
  assumes "upper_ue_id f1 s (ru_id u) = Inr i" and "\<not> nr_rlc_manager_rlc_is_split s"
  shows "deliver_sdu f1 s u srb rb buf = Inr [Pdcp_Data_Ind i (nr_rlc_manager_get_gnb_flag s) srb rb buf]"
  using assms by (auto simp: deliver_sdu_def upper_ue_id_def cu_ue_id_def map_res_def bindE_eq_Inr split: if_splits)

text \<open>The three calls in turn. First the layer above queues the SDU \<dots>\<close>

lemma am_quiet_clock:
  "am_is_window_stalling (e\<lparr>am_t_current := now\<rparr>) = am_is_window_stalling e"
  "am_fresh_seg (e\<lparr>am_t_current := now\<rparr>) g sdu = am_fresh_seg e g sdu"
  "am_quiet (e\<lparr>am_t_current := now\<rparr>) = am_quiet e"
  by (simp_all add: am_is_window_stalling_def am_sn_compare_tx_def am_modulus_tx_def am_fresh_seg_def am_seg_sn_def
      Let_def am_quiet_def)

lemma rlc_data_req_queues:
  assumes ok: "rlc_ok True s" and at: "entity_at s (uint ue) lc = Some (Slot_Drb k, Ent_Am a)" and q: "am_quiet a"
    and uid: "int_of_u64 uid = uint ue" and sz: "int (length sdu) \<le> NR_SDU_MAX"
    and fit: "int (length sdu) \<le> nr_rlc_entity_am_available_tx_space a"
  shows "\<exists>s1 a1 g. nr_rlc_data_req f1 uid False (int k + 1) mui sdu t s = Inr (s1, [], ()) \<and> rlc_ok True s1
    \<and> entity_at s1 (uint ue) lc = Some (Slot_Drb k, Ent_Am a1) \<and> am_tx_list a1 = [g] \<and> am_fresh_seg a1 g sdu
    \<and> am_t_poll_retransmit_start a1 = 0 \<and> am_t_reassembly_start a1 = 0 \<and> \<not> am_status_triggered a1
    \<and> am_wait_list a1 = [] \<and> am_retransmit_list a1 = [] \<and> \<not> am_is_window_stalling a1
    \<and> am_tx_next a1 = am_tx_next a \<and> am_sn_field_length a1 = am_sn_field_length a"
proof -
  let ?now = "rs_current_time s"
  let ?a = "a\<lparr>am_t_current := ?now\<rparr>"
  obtain i u where u: "nr_rlc_manager_get_ue s (uint ue) = (s, i)" "rs_ue_list s ! i = u" "slot_entity u (Slot_Drb k) = Some (Ent_Am a)"
      "slot_valid (Slot_Drb k)"
    by (rule entity_at_known[OF ok at]) blast
  have qa: "am_quiet ?a" "nr_rlc_entity_am_available_tx_space ?a = nr_rlc_entity_am_available_tx_space a"
    using q by (simp_all add: am_quiet_clock nr_rlc_entity_am_available_tx_space_def)
  have st: "nr_rlc_entity_am_set_time a ?now = Inr ?a" using q am_set_time_quiet by (simp add: am_quiet_def)
  obtain a1 g where a1: "nr_rlc_entity_am_recv_sdu ?a sdu (sint mui) t = Inr a1" "am_tx_list a1 = [g]" "am_fresh_seg a1 g sdu"
      "am_t_poll_retransmit_start a1 = 0" "am_t_reassembly_start a1 = 0" "\<not> am_status_triggered a1" "am_wait_list a1 = []"
      "am_retransmit_list a1 = []" "\<not> am_is_window_stalling a1" "am_tx_next a1 = am_tx_next a"
      "am_sn_field_length a1 = am_sn_field_length a" "events a1 = events a"
    using am_recv_sdu_quiet[OF qa(1) sz, of "sint mui" t] fit qa(2) by auto
  let ?f = "\<lambda>e. bindE (ent_set_time ?now e) (\<lambda>e. bindE (ent_recv_sdu sdu (sint mui) t e) (\<lambda>e. Inr (e, ())))"
  have "?f (Ent_Am a) = Inr (Ent_Am a1, ())" using st a1(1) by (simp add: map_res_def)
  from on_slot_result[where f = ?f, OF ok at u(1,2) this, of f1 "[]"] obtain s1 where
    s1: "on_slot f1 i (Slot_Drb k) (Ent_Am a) ?f s = Inr (s1, [], ())" "entity_at s1 (uint ue) lc = Some (Slot_Drb k, Ent_Am a1)"
    using a1(12) by auto
  have req: "nr_rlc_data_req f1 uid False (int k + 1) mui sdu t s = Inr (s1, [], ())"
    using s1(1) u by (simp add: nr_rlc_data_req_def uid data_req_slot_def Let_def)
  have "rlc_ok True s1" using rlc_data_req_touches[OF ok req] by (simp add: rlc_touches_def)
  then show ?thesis using req s1(2) a1 by blast
qed

text \<open>\<dots> then a grant takes it, as the one PDU the entity waits to see acknowledged \<dots>\<close>

lemma rlc_grant_takes:
  assumes ok: "rlc_ok True s" and at: "entity_at s (uint ue) lc = Some (Slot_Drb k, Ent_Am a)"
    and l: "am_tx_list a = [g]" "am_wait_list a = []" "am_retransmit_list a = []" and g: "am_fresh_seg a g sdu" "0 < length sdu"
    and t: "am_t_poll_retransmit_start a = 0" "am_t_reassembly_start a = 0"
    and w: "\<not> am_is_window_stalling a" "\<not> am_status_triggered a" and grant: "length sdu + 3 \<le> length buf"
  shows "\<exists>s2 a2 buf' n. nr_mac_rlc_data_req f1 ue lc buf t' s = Inr (s2, [], buf', n) \<and> 0 < n \<and> n \<le> int (length buf')
    \<and> am_sent a2 buf' n \<and> am_wait_list a2 = [g] \<and> am_seg_sn a2 g = am_tx_next a \<and> seg_bytes (store a2) g = sdu
    \<and> am_sn_field_length a2 = am_sn_field_length a"
proof -
  let ?now = "rs_current_time s"
  let ?a = "a\<lparr>am_t_current := ?now\<rparr>"
  have a: "am_reach True a" using entity_at_ok[OF ok at] by auto
  have st: "nr_rlc_entity_am_set_time a ?now = Inr ?a" by (rule am_set_time_quiet[OF t])
  have reach: "am_reach True ?a" by (rule am_reach.Set_Time[OF a st])
  have fresh: "am_fresh_seg ?a g sdu" "\<not> am_is_window_stalling ?a" using g(1) w(1) by (simp_all add: am_quiet_clock)
  obtain a2 buf' n where a2: "nr_rlc_entity_am_generate_pdu ?a buf t' = Inr (a2, buf', n)" "0 < n" "n \<le> int (length buf')"
      "am_sent a2 buf' n" "am_wait_list a2 = [g]" "am_seg_sn a2 g = am_tx_next a" "seg_bytes (store a2) g = sdu"
    using am_generate_whole[OF reach _ _ _ fresh(2) _ fresh(1) g(2) grant, of t'] l w by auto
  have ev: "events a2 = events a \<or> (\<exists>x y. events a2 = events a @ [Time_Average_Add x y])"
    using am_generate_pdu_events[OF a2(1)] by simp
  obtain v where v: "rlc_ue_of s (uint ue) = Some v" by (rule entity_at_known[OF ok at]) blast
  let ?h = "\<lambda>e. bindE (ent_set_time ?now e) (ent_generate_pdu buf t')"
  have h: "?h (Ent_Am a) = Inr (Ent_Am a2, buf', n)" using st a2(1) by (simp add: map_res_def)
  have cb: "callbacks f1 s v (Slot_Drb k) (drop (length (ent_events (Ent_Am a))) (ent_events (Ent_Am a2))) = Inr []" using ev by auto
  obtain s2 where "nr_mac_rlc_data_req f1 ue lc buf t' s = Inr (s2, [], buf', n)"
    using on_lcid_result[where f = ?h, OF ok at v h _ cb] by (auto simp: nr_mac_rlc_data_req_def)
  moreover have "am_sn_field_length a2 = am_sn_field_length a"
    using am_generate_pdu_order[OF a2(1)] by (simp add: order_part_def rx_part_def)
  ultimately show ?thesis using a2(2-) by blast
qed

text \<open>\<dots> and the other node, whose entity waits for that SN, delivers it.\<close>

lemma rlc_data_ind_delivers:
  assumes ok: "rlc_ok sane w" and at: "entity_at w (uint rue) rlc = Some (Slot_Drb j, Ent_Am r)"
    and t: "am_t_poll_retransmit_start r = 0" "am_t_reassembly_start r = 0" and empty: "\<And>x. rx_lookup (am_rx r) x = []"
    and sent: "am_sent a buf' n" "n \<le> int (length buf')" "am_wait_list a = [g]" "am_seg_sn a g = am_rx_next r" "seg_bytes (store a) g = sdu"
    and g: "seg_is_first g" "seg_is_last g" "seg_so g = 0"
    and len: "am_sn_field_length r = am_sn_field_length a"
    and sdu: "0 < length sdu" "int (length sdu) \<le> NR_SDU_MAX" "am_rx_size r + int (length sdu) \<le> am_rx_maxsize r"
    and up: "upper_ue_id g1 w (uint rue) = Inr i" "\<not> nr_rlc_manager_rlc_is_split w"
  shows "\<exists>w'. nr_mac_rlc_data_ind g1 rue rlc (take (nat n) buf') w =
      Inr (w', [Pdcp_Data_Ind i (nr_rlc_manager_get_gnb_flag w) False (int j + 1) sdu], ())"
proof -
  let ?now = "rs_current_time w"
  let ?r = "r\<lparr>am_t_current := ?now\<rparr>"
  let ?r1 = "upd_stats (count_rxpdu n) ?r"
  have rr: "am_reach sane r" using entity_at_ok[OF ok at] by auto
  obtain v where v: "rlc_ue_of w (uint rue) = Some v" "ru_id v = uint rue" by (rule entity_at_known[OF ok at]) blast
  obtain g' p where g': "g' \<in> set (am_wait_list a)" "nr_rlc_entity_am_recv_pdu ?r (take (nat n) buf')
      = am_recv_data (upd_stats (count_rxpdu n) ?r) (take (nat n) buf') (nat (am_compute_pdu_header_size a g'))
          (of_bool p) (seg_is_first g') (seg_is_last g') (am_seg_sn a g') (seg_so g')"
      "drop (nat (am_compute_pdu_header_size a g')) (take (nat n) buf') = seg_bytes (store a) g'"
    using am_sent_decodes[OF sent(1), of ?r] len sent(2) by auto
  have gg: "g' = g" using g'(1) sent(3) by simp
  have part: "order_part ?r1 = order_part r" by (simp add: order_part_def rx_part_def upd_stats_def)
  have "am_rx_good ?r1" using am_rx_good_cong[OF part] am_reach_rx_good[OF rr] by simp
  moreover have "drop (nat (am_compute_pdu_header_size a g)) (take (nat n) buf') = sdu" using g'(3) sent(5) gg by simp
  ultimately have "\<exists>r'. am_recv_data ?r1 (take (nat n) buf') (nat (am_compute_pdu_header_size a g)) (of_bool p) True True
      (am_rx_next ?r1) 0 = Inr r' \<and> events r' = events ?r1 @ [Deliver_Sdu sdu]"
    using empty sdu by (intro am_recv_whole) (simp_all add: upd_stats_def)
  then obtain r' where
    r': "nr_rlc_entity_am_recv_pdu ?r (take (nat n) buf') = Inr r'" "events r' = events r @ [Deliver_Sdu sdu]"
    using g'(2) gg g sent(4) by (auto simp: upd_stats_def)
  let ?q = "\<lambda>e. bindE (ent_set_time ?now e) (\<lambda>e. bindE (ent_recv_pdu (take (nat n) buf') e) (\<lambda>e. Inr (e, ())))"
  have q: "?q (Ent_Am r) = Inr (Ent_Am r', ())" using am_set_time_quiet[OF t] r'(1) by (simp add: map_res_def)
  have cb: "callbacks g1 w v (Slot_Drb j) (drop (length (ent_events (Ent_Am r))) (ent_events (Ent_Am r'))) =
      Inr [Pdcp_Data_Ind i (nr_rlc_manager_get_gnb_flag w) False (int j + 1) sdu]"
    using r'(2) deliver_sdu_upper[of g1 w v i False "int j + 1" sdu] up v(2) by simp
  show ?thesis using on_lcid_result[where f = ?q, OF ok at v(1) q _ cb] by (auto simp: nr_mac_rlc_data_ind_def)
qed

lemma rlc_carries_sdu:
  assumes s: "rlc_reach f1 True s" "entity_at s (uint ue) lc = Some (Slot_Drb k, Ent_Am a)" "am_quiet a" "int_of_u64 uid = uint ue"
    and w: "rlc_reach g1 sane w" "entity_at w (uint rue) rlc = Some (Slot_Drb j, Ent_Am r)"
    and r: "am_t_poll_retransmit_start r = 0" "am_t_reassembly_start r = 0" "\<And>x. rx_lookup (am_rx r) x = []"
    and pair: "am_sn_field_length r = am_sn_field_length a" "am_rx_next r = am_tx_next a"
    and up: "upper_ue_id g1 w (uint rue) = Inr i" "\<not> nr_rlc_manager_rlc_is_split w"
    and sdu: "0 < length sdu" "int (length sdu) \<le> NR_SDU_MAX" "int (length sdu) \<le> nr_rlc_entity_am_available_tx_space a"
      "am_rx_size r + int (length sdu) \<le> am_rx_maxsize r"
    and grant: "length sdu + 3 \<le> length buf"
  shows "\<exists>s1 s2 buf' n w'. nr_rlc_data_req f1 uid False (int k + 1) mui sdu t s = Inr (s1, [], ())
    \<and> nr_mac_rlc_data_req f1 ue lc buf t' s1 = Inr (s2, [], buf', n) \<and> 0 < n
    \<and> nr_mac_rlc_data_ind g1 rue rlc (take (nat n) buf') w =
        Inr (w', [Pdcp_Data_Ind i (nr_rlc_manager_get_gnb_flag w) False (int j + 1) sdu], ())"
proof -
  have ok: "rlc_ok True s" "rlc_ok sane w" using s(1) w(1) rlc_reach_ok by blast+
  obtain s1 a1 g where q: "nr_rlc_data_req f1 uid False (int k + 1) mui sdu t s = Inr (s1, [], ())" "rlc_ok True s1"
      "entity_at s1 (uint ue) lc = Some (Slot_Drb k, Ent_Am a1)" "am_tx_list a1 = [g]" "am_fresh_seg a1 g sdu"
      "am_t_poll_retransmit_start a1 = 0" "am_t_reassembly_start a1 = 0" "\<not> am_status_triggered a1"
      "am_wait_list a1 = []" "am_retransmit_list a1 = []" "\<not> am_is_window_stalling a1"
      "am_tx_next a1 = am_tx_next a" "am_sn_field_length a1 = am_sn_field_length a"
    using rlc_data_req_queues[OF ok(1) s(2-4) sdu(2,3), of f1 mui t] by blast
  obtain s2 a2 buf' n where g: "nr_mac_rlc_data_req f1 ue lc buf t' s1 = Inr (s2, [], buf', n)" "0 < n" "n \<le> int (length buf')"
      "am_sent a2 buf' n" "am_wait_list a2 = [g]" "am_seg_sn a2 g = am_tx_next a1" "seg_bytes (store a2) g = sdu"
      "am_sn_field_length a2 = am_sn_field_length a1"
    using rlc_grant_takes[OF q(2,3,4,9,10,5) sdu(1) q(6,7,11,8) grant, of f1 t'] by blast
  have "am_seg_sn a2 g = am_rx_next r" "am_sn_field_length r = am_sn_field_length a2" "seg_is_first g" "seg_is_last g" "seg_so g = 0"
    using g q pair by (simp_all add: am_fresh_seg_def)
  with rlc_data_ind_delivers[OF ok(2) w(2) r g(4,3,5) _ g(7)] sdu up q(1) g(1,2) show ?thesis by blast
qed

end
