(* ===== verification/Full_Stack.thy ===== *)
theory Full_Stack
  imports L2_Stack RLC_Link
begin

text \<open>
  SDAP, PDCP and RLC of two nodes with the MAC between them. A node is the state of its PDCP and SDAP layer, the state of
  its RLC layer and the parameters of both; PDCP hands PDUs to RLC as items of a queue and RLC hands SDUs to PDCP as
  indications, which are the arguments of the next call here.
\<close>

section \<open>Between PDCP and RLC\<close>

text \<open>\<open>rlc_data_req_thread\<close>: the item that PDCP queued becomes a request to RLC.\<close>

definition serve_rlc_data_req ::
    "f1_table \<Rightarrow> rlc_data_req_queue_item \<Rightarrow> u64 \<Rightarrow> rlc_state \<Rightarrow> (rlc_state \<times> rlc_out list \<times> unit) res" where
  "serve_rlc_data_req f1 item t s =
     nr_rlc_data_req f1 (pc_ue_id (rq_ctxt item)) (rq_srb_flag item) (rq_rb_id item) (rq_mui item) (rq_sdu item) t s"

text \<open>The UE identifier that PDCP of a node that is not a CU gives to RLC.\<close>

definition rlc_ue_id :: "api_env \<Rightarrow> bool \<Rightarrow> u64 \<Rightarrow> u64 res" where
  "rlc_ue_id env gnb ue = (if gnb then env_secondary env ue else Inr ue)"

lemma pdu_down_item:
  assumes "pdu_down env gnb ue drb pdu mui = Inr ev" and "gnb \<Longrightarrow> \<not> env_is_cu env" and "rlc_ue_id env gnb ue = Inr i"
  shows "\<exists>item. ev = Rlc_Data_Req item
    \<and> serve_rlc_data_req f1 item t s = nr_rlc_data_req f1 i False drb mui pdu t s"
  using assms
  by (auto simp: pdu_down_def deliver_pdu_drb_gnb_def deliver_pdu_drb_ue_def rlc_ue_id_def serve_rlc_data_req_def ctxt_for_def split: if_splits)

text \<open>\<open>pdcp_data_ind_thread\<close>: an indication of RLC is served by PDCP.\<close>

fun serve_pdcp_data_ind :: "api_env \<Rightarrow> rlc_out \<Rightarrow> l2_state \<Rightarrow> (l2_state \<times> api_event list) res" where
  "serve_pdcp_data_ind env (Pdcp_Data_Ind ue enb srb rb sdu) s = do_pdcp_data_ind env (ctxt_for enb ue) srb rb sdu s"
| "serve_pdcp_data_ind env _ s = Inr (s, [])"

section \<open>From the top of one node to the top of the other\<close>

text \<open>
  Property C3. A packet goes through SDAP, PDCP and RLC of two nodes unchanged. SDAP maps the QoS flow to a bearer, PDCP
  ciphers and numbers the packet there and queues one PDU, RLC in AM takes it and fills one grant of the MAC with it; the
  other node's RLC, given what the MAC took, hands the PDU to its PDCP, and PDCP and SDAP hand up exactly
  one packet, the one that was sent. This holds downlink and uplink, if the two PDCP entities are paired, the two AM
  entities are idle and agree on the next sequence number, the packet fits the buffers and the grant, and the
  tables that translate UE identifiers know the UE.
\<close>

theorem packet_roundtrip:
  assumes ok: "l2_ok s" "l2_ok w"
    and d: "sdap_map (l2_sdap s) (ue, pdu) = Some d" "unat q < 64"
    and drb: "flow_drb d q = int k + 1" "qd_has_sdap_tx (se_table d ! unat q) = pe_has_sdap_tx t"
    and t: "ue_of (l2_manager s) ue = Some u" "nr_pdcp_get_rb u (int k + 1) False = Some t"
    and r: "ue_of (l2_manager w) rue = Some v" "nr_pdcp_get_rb v (int k + 1) False = Some r"
    and dr: "sdap_map (l2_sdap w) (rue, pe_pdusession_id r) = Some dr"
    and pair: "paired t r" "pe_rx_deliv r = pe_tx_next t" "pe_rx_list r = []"
    and tx: "pdcp_config t" "\<not> pe_suspended t" "0 < length sdu" "length sdu \<le> 8999"
    and env: "crypto_ok (env_crypto env)" "env_crypto renv = env_crypto env" "\<not> env_tun renv"
      "pe_is_gnb t \<Longrightarrow> f1_ok (env_f1 env) \<and> f1_map (env_f1 env) (ucast ue) \<noteq> None \<and> \<not> env_is_cu env"
      "pe_is_gnb r \<Longrightarrow> env_n3 renv \<noteq> None"
    and rlc: "rlc_reach f1 True x" "entity_at x (uint ui) lc = Some (Slot_Drb k, Ent_Am a)" "am_quiet a"
    and rrlc: "rlc_reach g1 sane y" "entity_at y (uint uj) lc' = Some (Slot_Drb k, Ent_Am b)"
      "am_t_poll_retransmit_start b = 0" "am_t_reassembly_start b = 0" "\<And>n. rx_lookup (am_rx b) n = []"
    and ids: "rlc_ue_id env (pe_is_gnb t) ue = Inr i" "int_of_u64 i = uint ui" "upper_ue_id g1 y (uint uj) = Inr rue"
      "nr_rlc_manager_get_gnb_flag y = pe_is_gnb r" "\<not> nr_rlc_manager_rlc_is_split y"
    and agree: "am_sn_field_length b = am_sn_field_length a" "am_rx_next b = am_tx_next a"
    and room: "int (length sdu) + 8 \<le> nr_rlc_entity_am_available_tx_space a" "am_rx_size b + int (length sdu) + 8 \<le> am_rx_maxsize b"
      "length sdu + 11 \<le> length grant"
  shows "\<exists>s' item x1 x2 grant' n y' ind w'.
      sdap_send env (ctxt_for (pe_is_gnb t) ue) ue False rb mui (Some sdu) q rqi pdu s = Inr (s', [Rlc_Data_Req item], True)
    \<and> serve_rlc_data_req f1 item now x = Inr (x1, [], ())
    \<and> nr_mac_rlc_data_req f1 ui lc grant now' x1 = Inr (x2, [], grant', n) \<and> 0 < n
    \<and> nr_mac_rlc_data_ind g1 uj lc' (take (nat n) grant') y = Inr (y', [ind], ())
    \<and> serve_pdcp_data_ind renv ind w = Inr (w', [Sdap_Effect (handed_up renv rue r dr sdu)])"
proof -
  obtain s' ev bytes w' where l2: "sdap_send env (ctxt_for (pe_is_gnb t) ue) ue False rb mui (Some sdu) q rqi pdu s = Inr (s', [ev], True)"
      "pdu_down env (pe_is_gnb t) ue (int k + 1) bytes mui = Inr ev" "0 < length bytes" "length bytes \<le> length sdu + 8"
      "do_pdcp_data_ind renv (ctxt_for (pe_is_gnb r) rue) False (int k + 1) bytes w = Inr (w', [Sdap_Effect (handed_up renv rue r dr sdu)])"
    using user_plane_link[OF ok d drb t r dr pair tx env(1-3) _ env(5)] env(4) by blast
  obtain item where item: "ev = Rlc_Data_Req item"
      "serve_rlc_data_req f1 item now x = nr_rlc_data_req f1 i False (int k + 1) mui bytes now x"
    using pdu_down_item[OF l2(2) _ ids(1)] env(4) by blast
  have "int (length bytes) \<le> NR_SDU_MAX" "length bytes + 3 \<le> length grant"
    "int (length bytes) \<le> nr_rlc_entity_am_available_tx_space a" "am_rx_size b + int (length bytes) \<le> am_rx_maxsize b"
    using l2(4) tx(4) room by (simp_all add: NR_SDU_MAX_def)
  then obtain x1 x2 grant' n y' where "nr_rlc_data_req f1 i False (int k + 1) mui bytes now x = Inr (x1, [], ())"
      "nr_mac_rlc_data_req f1 ui lc grant now' x1 = Inr (x2, [], grant', n)" "0 < n"
      "nr_mac_rlc_data_ind g1 uj lc' (take (nat n) grant') y =
        Inr (y', [Pdcp_Data_Ind rue (nr_rlc_manager_get_gnb_flag y) False (int k + 1) bytes], ())"
    using rlc_carries_sdu[OF rlc ids(2) rrlc agree ids(3,5) l2(3), of grant mui now now'] by blast
  then show ?thesis using l2(1,5) item ids(4) by fastforce
qed

text \<open>The example: DRB 1 on logical channel 4 of a gNB, which knows the UE as 7 above RLC and as 8 in RLC, and of a UE, number 70.\<close>

definition drb_bearer :: rlc_bearer_config where
  "drb_bearer = \<lparr>bc_rlc_Config = Some (RLC_Config_am \<lparr>ac_t_Reassembly = 7, ac_t_StatusProhibit = 0, ac_t_PollRetransmit = 8, ac_pollPDU = 0,
       ac_pollByte = 0, ac_maxRetxThreshold = 5, ac_dl_sn_FieldLength = Some 0, ac_ul_sn_FieldLength = Some 0\<rparr>),
     bc_servedRadioBearer = Some (Served_drb_Identity 1), bc_logicalChannelIdentity = 4\<rparr>"

definition ex_drb_rlc :: "rlc_op_mode \<Rightarrow> int \<Rightarrow> (rlc_state \<times> rlc_out list) res" where
  "ex_drb_rlc mode ue = run_calls (f1_example 7 8) [Call_Add_Drb ue 1 drb_bearer] (new_nr_rlc_ue_manager mode)"

definition ex_drb_state :: "rlc_op_mode \<Rightarrow> int \<Rightarrow> rlc_state" where
  "ex_drb_state mode ue = (case ex_drb_rlc mode ue of Inr (s, _) \<Rightarrow> s | Inl _ \<Rightarrow> new_nr_rlc_ue_manager mode)"

fun idle_am :: "(rb_slot \<times> rlc_entity) option \<Rightarrow> bool" where
  "idle_am (Some (Slot_Drb 0, Ent_Am a)) \<longleftrightarrow> am_quiet a \<and> list_all (\<lambda>l. l = []) (rxm_list (am_rx a))
     \<and> am_tx_next a = 0 \<and> am_rx_next a = 0 \<and> am_sn_field_length a = 12
     \<and> nr_rlc_entity_am_available_tx_space a = 50000000 \<and> am_rx_size a = 0 \<and> am_rx_maxsize a = 50000000"
| "idle_am _ \<longleftrightarrow> False"

lemma ex_drb:
  assumes "mode = NR_RLC_OP_MODE_MONO_GNB \<and> ue = 8 \<or> mode = NR_RLC_OP_MODE_UE \<and> ue = 70"
  shows "rlc_reach (f1_example 7 8) True (ex_drb_state mode ue)" "idle_am (entity_at (ex_drb_state mode ue) ue 4)"
    "rs_mode (ex_drb_state mode ue) = mode"
proof -
  have v: "case ex_drb_rlc NR_RLC_OP_MODE_MONO_GNB 8 of Inl _ \<Rightarrow> False | Inr (s, out) \<Rightarrow>
      out = [] \<and> idle_am (entity_at s 8 4) \<and> rs_mode s = NR_RLC_OP_MODE_MONO_GNB"
    "case ex_drb_rlc NR_RLC_OP_MODE_UE 70 of Inl _ \<Rightarrow> False | Inr (s, out) \<Rightarrow>
      out = [] \<and> idle_am (entity_at s 70 4) \<and> rs_mode s = NR_RLC_OP_MODE_UE"
    by code_simp+
  obtain s where s: "ex_drb_rlc mode ue = Inr (s, [])" "idle_am (entity_at s ue 4)" "rs_mode s = mode"
    using assms v by (auto split: sum.splits)
  then have [simp]: "ex_drb_state mode ue = s" by (simp add: ex_drb_state_def)
  have "rlc_reach (f1_example 7 8) True s"
    by (rule run_calls_reach[OF rlc_start _ s(1)[unfolded ex_drb_rlc_def]]) (simp split: sum.splits)
  then show "rlc_reach (f1_example 7 8) True (ex_drb_state mode ue)" "idle_am (entity_at (ex_drb_state mode ue) ue 4)"
    "rs_mode (ex_drb_state mode ue) = mode"
    using s by simp_all
qed

lemma idle_amD:
  assumes reach: "rlc_reach f1 True s" and idle: "idle_am (entity_at s ue lc)"
  shows "\<exists>a. entity_at s ue lc = Some (Slot_Drb 0, Ent_Am a) \<and> am_quiet a \<and> (\<forall>n. rx_lookup (am_rx a) n = [])
    \<and> am_tx_next a = 0 \<and> am_rx_next a = 0 \<and> am_sn_field_length a = 12
    \<and> nr_rlc_entity_am_available_tx_space a = 50000000 \<and> am_rx_size a = 0 \<and> am_rx_maxsize a = 50000000"
proof -
  obtain a where a: "entity_at s ue lc = Some (Slot_Drb 0, Ent_Am a)"
    using idle by (cases "entity_at s ue lc" rule: idle_am.cases) auto
  have "am_reach True a" using entity_at_ok(2)[OF rlc_reach_ok[OF reach] a] by simp
  then have "rxm_inv (am_rx a)" using am_reach_rx_good by (auto simp: am_rx_good_def am_rx_inv_def rxm_ok_def)
  then have "rx_lookup (am_rx a) n \<in> set (rxm_list (am_rx a))" for n
    by (simp add: nr_rlc_rx_manager_get_pdu_from_sn_def get_pos_nat)
  then show ?thesis using idle a by (auto simp: list_all_iff)
qed

theorem packet_roundtrip_witness:
  "\<exists>s' item x1 x2 grant' n y' ind w'.
      sdap_send ex_env (ctxt_for True 7) 7 False 1 5 (Some [1, 2, 3]) 9 True 10 (ex_state True 7 (ex_entity 2 True))
        = Inr (s', [Rlc_Data_Req item], True)
    \<and> serve_rlc_data_req (f1_example 7 8) item 0 (ex_drb_state NR_RLC_OP_MODE_MONO_GNB 8) = Inr (x1, [], ())
    \<and> nr_mac_rlc_data_req (f1_example 7 8) 8 4 (replicate 20 0) 0 x1 = Inr (x2, [], grant', n) \<and> 0 < n
    \<and> nr_mac_rlc_data_ind (f1_example 7 8) 70 4 (take (nat n) grant') (ex_drb_state NR_RLC_OP_MODE_UE 70) = Inr (y', [ind], ())
    \<and> serve_pdcp_data_ind ex_env ind (ex_state False 70 (ex_entity 2 False)) = Inr (w', [Sdap_Effect (Tun_Write (-1) [1, 2, 3])])"
proof -
  let ?t = "ex_entity 2 True" and ?r = "ex_entity 2 False" and ?f = "f1_example 7 8"
  let ?x = "ex_drb_state NR_RLC_OP_MODE_MONO_GNB 8" and ?y = "ex_drb_state NR_RLC_OP_MODE_UE 70"
  have x: "rlc_reach ?f True ?x" "idle_am (entity_at ?x (uint (8 :: 16 word)) 4)"
    and y: "rlc_reach ?f True ?y" "idle_am (entity_at ?y (uint (70 :: 16 word)) 4)" "rs_mode ?y = NR_RLC_OP_MODE_UE"
    by (simp_all add: ex_drb)
  obtain a where a: "entity_at ?x (uint (8 :: 16 word)) 4 = Some (Slot_Drb 0, Ent_Am a)" "am_quiet a" "am_tx_next a = 0"
      "am_sn_field_length a = 12" "nr_rlc_entity_am_available_tx_space a = 50000000"
    using idle_amD[OF x] by blast
  obtain b where b: "entity_at ?y (uint (70 :: 16 word)) 4 = Some (Slot_Drb 0, Ent_Am b)" "am_quiet b" "\<forall>n. rx_lookup (am_rx b) n = []"
      "am_rx_next b = 0" "am_sn_field_length b = 12" "am_rx_size b = 0" "am_rx_maxsize b = 50000000"
    using idle_amD[OF y(1,2)] by blast
  have ids: "rlc_ue_id ex_env True 7 = Inr 8" by code_simp
  have sock: "se_pdusession_sock (ex_sdap False 70) = -1"
    by (simp add: ex_sdap_def nr_sdap_qfi2drb_map_update_def empty_sdap_entity_def)
  have env: "crypto_ok (env_crypto ex_env)" "f1_ok (env_f1 ex_env) \<and> f1_map (env_f1 ex_env) (ucast (7 :: u64)) \<noteq> None"
    "\<not> env_tun ex_env" "\<not> env_is_cu ex_env"
    using f1_example_ok[of 7 8] by (simp_all add: ex_env_def xor_crypto_ok)
  show ?thesis
    using packet_roundtrip[where s = "ex_state True 7 ?t" and w = "ex_state False 70 ?r" and sdu = "[1, 2, 3]" and rb = 1 and mui = 5
        and rqi = True and dr = "ex_sdap False 70" and env = ex_env and renv = ex_env and k = 0 and q = 9 and t = ?t and r = ?r
        and grant = "replicate 20 0" and now = 0 and now' = 0 and i = 8,
        OF ex_state_ok ex_state_ok ex_state_parts(3) _ _ _ ex_state_parts(1) _ ex_state_parts(1) _ _ ex_pair _ _ _ _ _ _ _ _ _ _ _ x(1) a(1,2) y(1) b(1)]
      ex_entity_ok[of 2] ex_sel[of 2] ex_entity_type[of 2] ex_flow[of True 7] ex_state_parts(2,3) sock env ids a b y(3)
    by (simp add: handed_up_def am_quiet_def upper_ue_id_def int_of_u64_def nr_rlc_manager_get_gnb_flag_def nr_rlc_manager_rlc_is_split_def)
qed

end
