(* ===== verification/Spec2Isabelle.thy ===== *)
theory Spec2Isabelle
  imports RLC_Um_Props Full_Stack
begin

text \<open>
  The user plane of the NR layer 2 of the OpenAirInterface gNB and UE (\<open>oai_ran/openair2\<close> and
  \<open>oai_ran/openair3/SECU\<close>), modelled and verified.

  \<^bold>\<open>The program.\<close> A packet of a PDU session enters SDAP, which chooses a radio bearer for its QoS flow and
  puts a one-byte header in front. PDCP of that bearer numbers the packet with a COUNT, protects its integrity,
  ciphers it and hands it to RLC through a work queue. RLC segments it into the grants of the MAC
  scheduler and, in acknowledged mode, retransmits what the peer reports missing. At the other end RLC
  reassembles, PDCP deciphers, verifies and reorders, and SDAP takes its header off and passes the packet to
  GTP-U (at the gNB) or to a TUN interface (at the UE). RRC creates and removes UEs and bearers in
  every layer; in a split gNB a table of F1AP relates the UE identifiers of the two halves.

  \<^bold>\<open>How the code is read.\<close> A C struct is a record, an enumeration a datatype, an unsigned integer that may
  wrap a word of its width, a signed one an integer. An operation is a function on the state; every
  abnormal end is a value of the type \<open>c_error\<close> in \<open>RLC_Prelude\<close>: exit, a failed assertion, a NULL
  dereference, an access outside a buffer, a loop that never ends. Calls that leave the modelled part
  (callbacks, messages to other layers) are returned as events, in order. Memory that C leaves
  uninitialised is an argument. Memory that several pointers share and that is changed through
  them (the SDU headers of RLC) is an explicit store; other pointers are replaced by what they point to.
  A mutex held over a whole operation makes that operation one step; where the interleaving of threads
  matters (the work queues) the threads are an inductive step relation.

  \<^bold>\<open>RLC\<close> (\<open>LAYER2/nr_rlc\<close>).
  \<^item> \<open>RLC_Pdu\<close> (\<open>nr_rlc_pdu.c\<close>): bit encoder, bit decoder and lists of received PDUs. The two are inverse
    (C26) and a read past the end is always noticed (C31).
  \<^item> \<open>RLC_Sdu\<close> (\<open>nr_rlc_sdu.c\<close>): SDUs with reference counters and their segments.
  \<^item> \<open>RLC_Segments\<close>: the loops over the segments of one SDU that the AM and the UM entity share.
  \<^item> \<open>RLC_Rx_Manager\<close> (\<open>nr_rlc_rx_manager.c\<close>): the ring of the AM reception window. The locale \<open>rx_window\<close>
    is what the AM entity relies on.
  \<^item> \<open>RLC_Entity_Common\<close>, \<open>RLC_Entity\<close> (\<open>nr_rlc_entity.c\<close>, \<open>nr_rlc_entity.h\<close>): what the three modes have in
    common; the locale \<open>tx_buffer\<close> is the contract of the transmission buffer, interpreted for all three.
  \<^item> \<open>RLC_Am\<close>, \<open>RLC_Am_Tx\<close> (\<open>nr_rlc_entity_am.c\<close>): the AM entity. \<open>RLC_Am_Rx\<close>: reception keeps its
    invariant for all inputs or stops in one of two known ways (C1), delivers exactly the SDUs sent
    (C2), its loops end (C25, C28), duplicates are recognised.
    \<open>RLC_Am_Order\<close>, \<open>RLC_Am_Machine\<close>, \<open>RLC_Am_Ops\<close>, \<open>RLC_Am_Progress\<close>: the reachable states and what holds in them
    (C14, C15, C19, C23).
    \<open>RLC_Am_Status\<close>: STATUS reports and the size announced for them (C22). \<open>RLC_Am_Tx_Props\<close>,
    \<open>RLC_Am_Link\<close>, \<open>RLC_Am_Service\<close>: the transmission half, the way to the peer (C18), the buffer
    (C30).
  \<^item> \<open>RLC_Um\<close>, \<open>RLC_Um_Props\<close> (\<open>nr_rlc_entity_um.c\<close>): a byte stream cut into PDUs (C24) and reassembled
    (C29).
  \<^item> \<open>RLC_Tm\<close> (\<open>nr_rlc_entity_tm.c\<close>): a bounded FIFO queue (C27).
  \<^item> \<open>RLC_Api\<close> (\<open>nr_rlc_ue_manager.c\<close>, \<open>nr_rlc_oai_api.c\<close>, \<open>asn1_utils.c\<close>): the list of UEs, the table from logical
    channels to bearers and every call of MAC, PDCP and RRC. The configuration that RRC passes is read from the values in
    \<open>Asn1_Values\<close>. \<open>RLC_Api_Inv\<close>, \<open>RLC_Api_Props\<close>: the invariant of the layer and what an operation leaves alone;
    \<open>RLC_Layer\<close>: the layer as a transition system, UEs are isolated (C5), a MAC request never
    fails and never exceeds the grant (C6), SRB3 does not work (C39).
  \<^item> Defects of the code, proved on concrete runs: C32, C33, C34, C35, C36, C37.

  \<^bold>\<open>Security\<close> (\<open>openair3/SECU\<close>, \<open>nr_pdcp_security_*.c\<close>, \<open>nr_pdcp_integrity_*.c\<close>).
  \<^item> \<open>Snow3g_Tables\<close>, \<open>Snow3g\<close> (\<open>snow3g.c\<close>): the cipher as coded. \<open>Snow3g_Props\<close>: the sliding window is the
    shift register of the specification (C16), the multiplication table computes the product in the field
    with 2^64 elements (C17).
  \<^item> \<open>Secu_Stream\<close> (\<open>secu_defs.c\<close>, \<open>nas_stream_*.c\<close>, \<open>aes_128_*.c\<close>): dispatch by algorithm. AES in counter mode and
    CMAC are OpenSSL's: the record \<open>crypto\<close> holds them as parameters, \<open>crypto_ok\<close> is what is relied on (counter
    mode undoes itself and keeps the length, the CMAC has a block); \<open>xor_crypto\<close> shows that this can hold.
  \<^item> \<open>PDCP_Security\<close>: NEA1, NEA2, NIA1, NIA2; the locale \<open>stream_cipher\<close> is the contract PDCP uses.

  \<^bold>\<open>PDCP\<close> (\<open>LAYER2/nr_pdcp\<close>).
  \<^item> \<open>PDCP_Entity\<close> (\<open>nr_pdcp_entity.c\<close>, \<open>nr_pdcp_sdu.c\<close>): all operations of an entity. \<open>PDCP_Rx\<close>: reception and
    reordering. \<open>PDCP_Link\<close>: function pointers and contexts that fit. \<open>PDCP_Props\<close>: in-order delivery without
    duplicates (C10), the link between two entities (C11), type safety of reception
    (C12), the COUNT of a received PDU (C13), progress by the reordering
    timer (C20), bounds of transmission (C21), and the underflow of the HFN
    (C38).
  \<^item> \<open>Data_Queue\<close>: the work queues between PDCP and RLC and their threads; the locale \<open>bounded_fifo\<close>; FIFO and
    no lost wake-up (C7).
  \<^item> \<open>PDCP_Api\<close> (\<open>nr_pdcp_ue_manager.c\<close>, \<open>nr_pdcp_oai_api.c\<close>, \<open>asn1_utils.c\<close>, \<open>nr_pdcp_timer_thread.c\<close>): the
    layer as its neighbours call it; it handles DRB 1 to 5, as the code does. The record \<open>api_env\<close> holds what the
    layer reads from others: the cryptographic library, the role of the node, the F1AP table of UE identifiers, the
    GTP-U instance. \<open>PDCP_Api_Inv\<close>, \<open>PDCP_Api_Props\<close>: the invariant of the layer and that an operation touches one UE
    (C4).
  \<^item> \<open>F1ap_Ids\<close> (\<open>F1AP/f1ap_ids.c\<close>): the F1AP table, kept in the hash table of \<open>Hash_Table\<close>
    (\<open>common/utils/hashtable/hashtable.c\<close>), which is a map (C8).

  \<^bold>\<open>SDAP\<close> (\<open>openair2/SDAP/nr_sdap\<close>). \<open>SDAP_Entity\<close> models \<open>nr_sdap_entity.c\<close> and the calls of \<open>nr_sdap.c\<close>;
  \<open>SDAP_Props\<close> shows that the linked list is a map (C9). \<open>Keyed_List\<close> has the lists that are
  searched by key and the locales \<open>keyed_table\<close> and \<open>keyed_store\<close>, interpreted for the SDAP entities, for the UEs of the
  PDCP manager and of the RLC manager and for the buckets of the hash table.

  \<^bold>\<open>Composition.\<close> \<open>L2_Stack\<close> sends a packet through SDAP and PDCP of two nodes; an SDAP end marker can stop the
  program (C40). \<open>RLC_Link\<close> sends an SDU from the RLC layer of one node to that of the other: data request, grant,
  indication. \<open>Full_Stack\<close> puts both together with the work queues between them: a packet goes through all three layers of two nodes
  and comes out unchanged (C3).

  \<^bold>\<open>Bounds and fuel.\<close> Loops whose end depends on the state are \<open>while_option\<close> or \<open>partial_function (option)\<close>,
  with \<open>None\<close> for not ending; that they end, or exactly when they do not, is proved. The only fuel is in
  \<open>am_read_nacks\<close>: the number of bits of the PDU, enough because each NACK block consumes bits
  (\<open>am_read_nacks_enough\<close>). SNOW 3G properties hold for messages below 2^29 bytes, where the length in bits fits its 32-bit
  field. The queue property needs no more producing threads than slots. The deletion of one
  SDAP entity walks at most \<open>SDAP_MAX_NUM_OF_ENTITIES\<close> entities, and C9 assumes the list is not longer.

  \<^bold>\<open>Not modelled.\<close> The creation of the layers and threads, the threads that read TUN
  sockets, the E1 handlers; the average waiting time of the RLC statistics, a floating-point number;
  freeing of memory outside the SDU store and the hash table. The MAC and its scheduler, RRC, F1AP procedures, E1AP, NGAP and GTP-U work on ASN.1
  structures that the build generates and are left out, as are the LTE stack, the physical layer, radio
  drivers, the other common utilities, the E2 simulator and the deployment files.
\<close>

end
